(* ===== verification/GC_Prelude.thy ===== *)
theory GC_Prelude
  imports Complex_Main "HOL-Library.AList" "HOL-Library.Multiset" "HOL-Library.Sublist"
begin

section \<open>Shared types, automation and lemmas\<close>

text \<open>
  What every component uses: Python's \<open>dict\<close> as an insertion-ordered association list,
  exceptions as the left side of a sum, \<open>for\<close> loops whose body may raise, string enums,
  timestamps, and the stable descending sort. The collections declared here are filled by
  the component theories, so that their proofs name a collection and not a list of facts.
\<close>

named_theorems frame_simps \<open>fields an operation leaves alone\<close>
named_theorems guard_simps \<open>when a guard lets a request pass\<close>
named_theorems dict_simps \<open>lookups after updates of a dict\<close>

subsection \<open>Dictionaries\<close>

text \<open>
  A Python \<open>dict\<close> keeps insertion order: assigning to a known key replaces the value in
  place, assigning to a new key appends. \<open>AList.update\<close> does exactly that.
\<close>

type_synonym 'v pydict = "(string \<times> 'v) list"

definition dict_get :: "'v pydict \<Rightarrow> string \<Rightarrow> 'v option" where
  "dict_get d k = map_of d k"

definition dict_get_default :: "'v pydict \<Rightarrow> string \<Rightarrow> 'v \<Rightarrow> 'v" where
  "dict_get_default d k v0 = (case dict_get d k of None \<Rightarrow> v0 | Some v \<Rightarrow> v)"

definition dict_set :: "string \<Rightarrow> 'v \<Rightarrow> 'v pydict \<Rightarrow> 'v pydict" where
  "dict_set k v d = AList.update k v d"

definition dict_pop :: "string \<Rightarrow> 'v pydict \<Rightarrow> 'v pydict" where
  "dict_pop k d = AList.delete k d"

definition dict_keys :: "'v pydict \<Rightarrow> string list" where
  "dict_keys d = map fst d"

definition dict_ok :: "'v pydict \<Rightarrow> bool" where
  "dict_ok d \<longleftrightarrow> distinct (map fst d)"

lemma dict_get_Nil [dict_simps]: "dict_get [] k = None"
  by (simp add: dict_get_def)

lemma dict_get_Cons [dict_simps]:
  "dict_get ((k', v) # d) k = (if k = k' then Some v else dict_get d k)"
  by (simp add: dict_get_def)

lemma dict_get_set [dict_simps]:
  "dict_get (dict_set k v d) k' = (if k' = k then Some v else dict_get d k')"
  by (simp add: dict_get_def dict_set_def update_conv)

lemma dict_get_pop [dict_simps]:
  "dict_get (dict_pop k d) k' = (if k' = k then None else dict_get d k')"
  by (simp add: dict_get_def dict_pop_def delete_conv)

lemma dict_get_eq_None: "dict_get d k = None \<longleftrightarrow> k \<notin> set (dict_keys d)"
  by (simp add: dict_get_def dict_keys_def map_of_eq_None_iff)

lemma dict_get_SomeD: "dict_get d k = Some v \<Longrightarrow> (k, v) \<in> set d"
  by (simp add: dict_get_def map_of_SomeD)

lemma dict_get_Some_iff: "dict_ok d \<Longrightarrow> dict_get d k = Some v \<longleftrightarrow> (k, v) \<in> set d"
  by (simp add: dict_get_def dict_ok_def)

lemma dict_ok_Nil [simp]: "dict_ok []"
  by (simp add: dict_ok_def)

lemma dict_ok_set [simp]: "dict_ok d \<Longrightarrow> dict_ok (dict_set k v d)"
  by (simp add: dict_ok_def dict_set_def distinct_update)

lemma dict_ok_pop [simp]: "dict_ok d \<Longrightarrow> dict_ok (dict_pop k d)"
  by (simp add: dict_ok_def dict_pop_def distinct_delete)

lemma dict_keys_set: "set (dict_keys (dict_set k v d)) = insert k (set (dict_keys d))"
  by (simp add: dict_keys_def dict_set_def dom_update)

text \<open>The interface a key-value store offers its clients, and what follows from it.\<close>

locale kv_store =
  fixes get :: "'m \<Rightarrow> string \<Rightarrow> 'v option"
    and put :: "string \<Rightarrow> 'v \<Rightarrow> 'm \<Rightarrow> 'm"
    and del :: "string \<Rightarrow> 'm \<Rightarrow> 'm"
  assumes get_put: "get (put k v m) k' = (if k' = k then Some v else get m k')"
    and get_del: "get (del k m) k' = (if k' = k then None else get m k')"
begin

lemma get_put_same: "get (put k v m) k = Some v"
  by (simp add: get_put)

lemma get_fold_del: "get (fold del ks m) k = (if k \<in> set ks then None else get m k)"
  by (induction ks arbitrary: m) (auto simp: get_del)

lemma get_fold_put_other:
  "k \<notin> fst ` set kvs \<Longrightarrow> get (fold (\<lambda>(k, v). put k v) kvs m) k = get m k"
  by (induction kvs arbitrary: m) (auto simp: get_put)

end

interpretation pydict_kv: kv_store dict_get dict_set dict_pop
  by unfold_locales (simp_all add: dict_simps)

subsection \<open>Searching lists\<close>

lemma map_filter_mem: "y \<in> set (List.map_filter f xs) \<longleftrightarrow> (\<exists>x \<in> set xs. f x = Some y)"
  by (induction xs) (auto simp: map_filter_simps split: option.splits)

lemma map_filter_append: "List.map_filter f (xs @ ys) = List.map_filter f xs @ List.map_filter f ys"
  by (simp add: List.map_filter_def)

lemma find_key_None: "find (\<lambda>x. key x = k) xs = None \<longleftrightarrow> k \<notin> key ` set xs"
  by (auto simp: find_None_iff)

lemma find_key_SomeD: "find (\<lambda>x. key x = k) xs = Some x \<Longrightarrow> x \<in> set xs \<and> key x = k"
  by (auto simp: find_Some_iff)

lemma find_key_ex: "k \<in> key ` set xs \<Longrightarrow> \<exists>x \<in> set xs. find (\<lambda>x. key x = k) xs = Some x \<and> key x = k"
  by (cases "find (\<lambda>x. key x = k) xs") (auto simp: find_key_None dest: find_key_SomeD)

subsection \<open>Sets\<close>

text \<open>What \<open>list(set)\<close> promises: every member once, in an order of which nothing is known.\<close>

definition enumerates :: "(string set \<Rightarrow> string list) \<Rightarrow> bool" where
  "enumerates as_list \<longleftrightarrow> (\<forall>S. finite S \<longrightarrow> set (as_list S) = S \<and> distinct (as_list S))"

lemma enumeratesD:
  assumes "enumerates as_list" "finite S"
  shows "set (as_list S) = S" "distinct (as_list S)"
  using assms by (simp_all add: enumerates_def)

subsection \<open>Exceptions and loops that may raise\<close>

definition bindE :: "'e + 'a \<Rightarrow> ('a \<Rightarrow> 'e + 'b) \<Rightarrow> 'e + 'b" where
  "bindE m f = (case m of Inl e \<Rightarrow> Inl e | Inr a \<Rightarrow> f a)"

lemma bindE_simps [simp]: "bindE (Inl e) f = Inl e" "bindE (Inr a) f = f a"
  by (simp_all add: bindE_def)

lemma bindE_Inr_iff: "bindE m f = Inr b \<longleftrightarrow> (\<exists>a. m = Inr a \<and> f a = Inr b)"
  by (cases m) auto

lemma bindE_Inl_iff: "bindE m f = Inl e \<longleftrightarrow> m = Inl e \<or> (\<exists>a. m = Inr a \<and> f a = Inl e)"
  by (cases m) auto

lemma bindE_assoc: "bindE (bindE m f) g = bindE m (\<lambda>a. bindE (f a) g)"
  by (cases m) auto

definition assertE :: "bool \<Rightarrow> 'e \<Rightarrow> 'e + unit" where
  "assertE b e = (if b then Inr () else Inl e)"

lemma assertE_simps [simp]: "assertE True e = Inr ()" "assertE False e = Inl e"
  by (simp_all add: assertE_def)

lemma assertE_Inr_iff [guard_simps]: "assertE b e = Inr u \<longleftrightarrow> b"
  by (simp add: assertE_def)

lemma assertE_Inl_iff [guard_simps]: "assertE b e = Inl x \<longleftrightarrow> \<not> b \<and> x = e"
  by (auto simp: assertE_def)

text \<open>\<open>for x in xs: s = body(s, x)\<close> where the body may raise.\<close>

fun forE :: "('s \<Rightarrow> 'x \<Rightarrow> 'e + 's) \<Rightarrow> 's \<Rightarrow> 'x list \<Rightarrow> 'e + 's" where
  "forE f s [] = Inr s"
| "forE f s (x # xs) = bindE (f s x) (\<lambda>s'. forE f s' xs)"

lemma forE_append: "forE f s (xs @ ys) = bindE (forE f s xs) (\<lambda>s'. forE f s' ys)"
  by (induction xs arbitrary: s) (auto simp: bindE_assoc)

lemma forE_invariant:
  assumes step: "\<And>s x s'. P s \<Longrightarrow> x \<in> set xs \<Longrightarrow> f s x = Inr s' \<Longrightarrow> P s'"
    and init: "P s" and run: "forE f s xs = Inr s'"
  shows "P s'"
  using assms
proof (induction xs arbitrary: s)
  case Nil
  then show ?case by simp
next
  case (Cons x xs)
  from Cons.prems(3) obtain s1 where s1: "f s x = Inr s1" "forE f s1 xs = Inr s'"
    by (auto simp: bindE_Inr_iff)
  have "P s1" using Cons.prems(1) [OF Cons.prems(2) _ s1(1)] by simp
  moreover have "\<And>t y t'. P t \<Longrightarrow> y \<in> set xs \<Longrightarrow> f t y = Inr t' \<Longrightarrow> P t'"
    by (rule Cons.prems(1)) simp_all
  ultimately show ?case using s1(2) by (intro Cons.IH)
qed

lemma sum_case_eq_Inr: "(case m of Inl e \<Rightarrow> f e | Inr a \<Rightarrow> g a) = r \<longleftrightarrow>
    (\<exists>e. m = Inl e \<and> f e = r) \<or> (\<exists>a. m = Inr a \<and> g a = r)"
  by (cases m) auto

subsection \<open>Effects\<close>

text \<open>
  An operation that reads and changes a state and may raise: what was changed before the
  exception stays changed.
\<close>

type_synonym ('s, 'e, 'a) io = "'s \<Rightarrow> ('e + 'a) \<times> 's"

definition returnS :: "'a \<Rightarrow> ('s, 'e, 'a) io" where
  "returnS a = (\<lambda>s. (Inr a, s))"

definition raiseS :: "'e \<Rightarrow> ('s, 'e, 'a) io" where
  "raiseS e = (\<lambda>s. (Inl e, s))"

definition bindS :: "('s, 'e, 'a) io \<Rightarrow> ('a \<Rightarrow> ('s, 'e, 'b) io) \<Rightarrow> ('s, 'e, 'b) io" where
  "bindS m f = (\<lambda>s. case m s of (Inl e, s') \<Rightarrow> (Inl e, s') | (Inr a, s') \<Rightarrow> f a s')"

definition liftS :: "'e + 'a \<Rightarrow> ('s, 'e, 'a) io" where
  "liftS r = (\<lambda>s. (r, s))"

text \<open>\<open>try: m except Exception: return d\<close>\<close>

definition or_else_io :: "('s, 'e, 'a) io \<Rightarrow> 'a \<Rightarrow> 's \<Rightarrow> 'a \<times> 's" where
  "or_else_io m d s = (case m s of (Inl e, s') \<Rightarrow> (d, s') | (Inr a, s') \<Rightarrow> (a, s'))"

fun forS :: "('x \<Rightarrow> 'a \<Rightarrow> ('s, 'e, 'a) io) \<Rightarrow> 'x list \<Rightarrow> 'a \<Rightarrow> ('s, 'e, 'a) io" where
  "forS f [] a = returnS a"
| "forS f (x # xs) a = bindS (f x a) (forS f xs)"

lemma io_simps [simp]:
  "returnS a s = (Inr a, s)" "raiseS e s = (Inl e, s)" "liftS r s = (r, s)"
  by (simp_all add: returnS_def raiseS_def liftS_def)

lemma bindS_unfold:
  "bindS m f s = (case m s of (Inl e, s') \<Rightarrow> (Inl e, s') | (Inr a, s') \<Rightarrow> f a s')"
  by (simp add: bindS_def)

lemma bindS_simps [simp]:
  "bindS (returnS a) f = f a" "bindS (raiseS e) f = raiseS e" "bindS (liftS (Inr a)) f = f a"
  by (simp_all add: bindS_def fun_eq_iff)

lemma bindS_eqE:
  assumes "bindS m f s = (r, s')"
  obtains (raised) e where "m s = (Inl e, s')" "r = Inl e"
    | (went_on) a s1 where "m s = (Inr a, s1)" "f a s1 = (r, s')"
  using assms by (cases "m s"; cases "fst (m s)") (auto simp: bindS_def)

lemma bindS_cong [fundef_cong]:
  assumes "m s = m' s'" "s = s'" "\<And>a t. m' s' = (Inr a, t) \<Longrightarrow> f a t = f' a t"
  shows "bindS m f s = bindS m' f' s'"
  using assms by (auto simp: bindS_def split: prod.splits sum.splits)

text \<open>A relation between the states before and after that every operation respects.\<close>

lemma bindS_rel:
  assumes "bindS m f s = (r, s')" and refl_tr: "\<And>a b c. R a b \<Longrightarrow> R b c \<Longrightarrow> R a c"
    and "\<And>r1 s1. m s = (r1, s1) \<Longrightarrow> R s s1"
    and "\<And>a s1 r2 s2. m s = (Inr a, s1) \<Longrightarrow> f a s1 = (r2, s2) \<Longrightarrow> R s1 s2"
  shows "R s s'"
  using assms(1) by (cases rule: bindS_eqE) (metis assms(2-4))+

lemma forS_rel:
  assumes refl: "\<And>a. R a a" and tr: "\<And>a b c. R a b \<Longrightarrow> R b c \<Longrightarrow> R a c"
    and step: "\<And>x a s r s'. x \<in> set xs \<Longrightarrow> f x a s = (r, s') \<Longrightarrow> R s s'"
    and run: "forS f xs a s = (r, s')"
  shows "R s s'"
  using step run
proof (induction xs arbitrary: a s r s')
  case Nil
  then show ?case by (simp add: refl)
next
  case (Cons x xs)
  from Cons.prems(2) have "bindS (f x a) (forS f xs) s = (r, s')" by simp
  then show ?case
  proof (rule bindS_rel [where R = R, OF _ tr])
    fix r1 s1 assume "f x a s = (r1, s1)"
    then show "R s s1" by (rule Cons.prems(1) [OF list.set_intros(1)])
  next
    fix b s1 r2 s2 assume "forS f xs b s1 = (r2, s2)"
    with Cons.prems(1) show "R s1 s2"
      by (intro Cons.IH [of b s1]) (blast intro: list.set_intros(2), simp)
  qed
qed

lemma forS_inv:
  assumes step: "\<And>x a s b s'. x \<in> set xs \<Longrightarrow> P a s \<Longrightarrow> f x a s = (Inr b, s') \<Longrightarrow> P b s'"
    and init: "P a s" and run: "forS f xs a s = (Inr b, s')"
  shows "P b s'"
  using step init run
proof (induction xs arbitrary: a s)
  case Nil
  then show ?case by simp
next
  case (Cons x xs)
  from Cons.prems(3) have "bindS (f x a) (forS f xs) s = (Inr b, s')" by simp
  then obtain c s1 where c: "f x a s = (Inr c, s1)" "forS f xs c s1 = (Inr b, s')"
    by (auto elim: bindS_eqE)
  have "P c s1" using Cons.prems(1) [OF _ Cons.prems(2) c(1)] by simp
  then show ?case
    using Cons.prems(1) c(2) by (intro Cons.IH [of c s1]) (blast intro: list.set_intros(2), simp_all)
qed

text \<open>A loop that raises does so in one of its steps, at a state the earlier steps led to.\<close>

lemma forS_raises:
  assumes refl: "\<And>a. R a a" and tr: "\<And>a b c. R a b \<Longrightarrow> R b c \<Longrightarrow> R a c"
    and step: "\<And>x a s b s'. x \<in> set xs \<Longrightarrow> f x a s = (Inr b, s') \<Longrightarrow> R s s'"
    and run: "forS f xs a s = (Inl e, s')"
  shows "\<exists>x \<in> set xs. \<exists>b s1. R s s1 \<and> f x b s1 = (Inl e, s')"
  using step run
proof (induction xs arbitrary: a s)
  case Nil
  then show ?case by simp
next
  case (Cons x xs)
  from Cons.prems(2) have "bindS (f x a) (forS f xs) s = (Inl e, s')" by simp
  then show ?case
  proof (cases rule: bindS_eqE)
    case (raised e')
    then show ?thesis using refl by (intro bexI [of _ x] exI [of _ a] exI [of _ s]) auto
  next
    case (went_on b s1)
    have R: "R s s1" using Cons.prems(1) [OF _ went_on(1)] by simp
    have "\<exists>y \<in> set xs. \<exists>c s2. R s1 s2 \<and> f y c s2 = (Inl e, s')"
      using Cons.prems(1) went_on(2) by (intro Cons.IH [of b s1]) (blast intro: list.set_intros(2), simp)
    then show ?thesis using tr [OF R] by fastforce
  qed
qed

subsection \<open>String enums\<close>

text \<open>
  \<open>class X(str, Enum)\<close>: the members in declaration order and each member's string. The call
  \<open>X(s)\<close> returns the member with that string and raises otherwise.
\<close>

definition enum_of_value :: "'e list \<Rightarrow> ('e \<Rightarrow> string) \<Rightarrow> string \<Rightarrow> 'e option" where
  "enum_of_value members val s = find (\<lambda>e. val e = s) members"

locale str_enum =
  fixes members :: "'e list" and val :: "'e \<Rightarrow> string"
  assumes members_complete: "e \<in> set members"
    and values_distinct: "distinct (map val members)"
begin

lemma val_inj: "val a = val b \<longleftrightarrow> a = b"
proof -
  have "inj_on val (set members)" using values_distinct by (simp add: distinct_map)
  then show ?thesis using inj_onD [of val "set members" a b]
    by (auto simp: members_complete)
qed

lemma of_value_val: "enum_of_value members val (val e) = Some e"
proof -
  have "enum_of_value members val (val e) \<noteq> None"
    using members_complete [of e] by (auto simp: enum_of_value_def find_None_iff)
  then obtain e' where e': "enum_of_value members val (val e) = Some e'" by blast
  then have "val e' = val e" by (auto simp: enum_of_value_def find_Some_iff)
  with e' show ?thesis by (simp add: val_inj)
qed

lemma of_value_SomeD: "enum_of_value members val s = Some e \<Longrightarrow> val e = s"
  by (auto simp: enum_of_value_def find_Some_iff)

lemma of_value_Some_iff: "enum_of_value members val s = Some e \<longleftrightarrow> s = val e"
  by (metis of_value_val of_value_SomeD)

lemma of_value_None_iff: "enum_of_value members val s = None \<longleftrightarrow> s \<notin> range val"
  by (auto simp: enum_of_value_def find_None_iff members_complete)

lemma members_UNIV: "set members = UNIV"
  by (simp add: members_complete set_eq_iff)

end

subsection \<open>Timestamps\<close>

text \<open>
  A \<open>datetime\<close> is its wall clock in microseconds since the epoch and its UTC offset, absent
  for a naive one. Comparing a naive with an aware value raises in Python; the code avoids it
  by attaching UTC to naive values first (\<open>_ensure_utc\<close>).
\<close>

record py_datetime =
  dt_wall :: int
  dt_off :: "int option"

definition dt_instant :: "py_datetime \<Rightarrow> int" where
  "dt_instant d = dt_wall d - (case dt_off d of None \<Rightarrow> 0 | Some z \<Rightarrow> z)"

definition utc_dt :: "int \<Rightarrow> py_datetime" where
  "utc_dt t = \<lparr>dt_wall = t, dt_off = Some 0\<rparr>"

definition us_per_day :: int where "us_per_day = 86400000000"

definition us_per_hour :: int where "us_per_hour = 3600000000"

definition us_per_minute :: int where "us_per_minute = 60000000"

lemmas us_units = us_per_day_def us_per_hour_def us_per_minute_def

lemma dt_instant_utc [simp]: "dt_instant (utc_dt t) = t"
  by (simp add: dt_instant_def utc_dt_def)

subsection \<open>The stable descending sort\<close>

text \<open>
  \<open>xs.sort(key=f, reverse=True)\<close> is stable: equal keys keep their order. \<open>sort_key\<close> is
  stable, so sorting by the negated key gives the same list.
\<close>

definition sort_desc :: "('x \<Rightarrow> rat) \<Rightarrow> 'x list \<Rightarrow> 'x list" where
  "sort_desc f xs = sort_key (\<lambda>x. - f x) xs"

lemma mset_sort_desc [simp]: "mset (sort_desc f xs) = mset xs"
  by (simp add: sort_desc_def)

lemma set_sort_desc [simp]: "set (sort_desc f xs) = set xs"
  by (simp add: sort_desc_def)

lemma length_sort_desc [simp]: "length (sort_desc f xs) = length xs"
  by (simp add: sort_desc_def)

lemma distinct_map_sort_desc [simp]:
  "distinct (map g (sort_desc f xs)) = distinct (map g xs)"
  by (metis mset_map mset_sort_desc mset_eq_imp_distinct_iff)

lemma sort_desc_nth:
  assumes "i \<le> j" "j < length xs"
  shows "f (sort_desc f xs ! j) \<le> f (sort_desc f xs ! i)"
proof -
  have "sorted (map (\<lambda>x. - f x) (sort_desc f xs))"
    by (simp add: sort_desc_def)
  then show ?thesis using assms by (auto simp: sorted_iff_nth_mono)
qed

lemma sort_desc_stable: "[x\<leftarrow>sort_desc f xs. f x = k] = [x\<leftarrow>xs. f x = k]"
  using sort_key_stable [of "\<lambda>x. - f x" "- k" xs] by (simp add: sort_desc_def)

end
