(* ===== verification/GC_Enums.thy ===== *)
theory GC_Enums
  imports GC_Prelude
begin

section \<open>The domain enumerations (\<open>models/enums.py\<close>)\<close>

text \<open>
  Every \<open>class X(str, Enum)\<close> of \<open>models/enums.py\<close> is a datatype \<open>X\<close> with the source's
  member names, so that \<open>TaskState.ACTIVE\<close> is written as in the code. \<open>X_value\<close> is
  \<open>.value\<close> and \<open>X_members\<close> is \<open>list(X)\<close>, in declaration order. Each enum is an
  interpretation of \<open>str_enum\<close>: its values are distinct and parsing inverts printing.
\<close>

subsection \<open>TaskType\<close>

datatype TaskType = ATOMIC | COMPOSITE | DELEGATED | FOLLOWUP | APPROVAL | MILESTONE
    | REVIEW | RECURRING | DECISION | CHECKIN | RESEARCH

fun TaskType_value :: "TaskType \<Rightarrow> string" where
  "TaskType_value TaskType.ATOMIC = ''ATOMIC''"
| "TaskType_value TaskType.COMPOSITE = ''COMPOSITE''"
| "TaskType_value TaskType.DELEGATED = ''DELEGATED''"
| "TaskType_value TaskType.FOLLOWUP = ''FOLLOWUP''"
| "TaskType_value TaskType.APPROVAL = ''APPROVAL''"
| "TaskType_value TaskType.MILESTONE = ''MILESTONE''"
| "TaskType_value TaskType.REVIEW = ''REVIEW''"
| "TaskType_value TaskType.RECURRING = ''RECURRING''"
| "TaskType_value TaskType.DECISION = ''DECISION''"
| "TaskType_value TaskType.CHECKIN = ''CHECKIN''"
| "TaskType_value TaskType.RESEARCH = ''RESEARCH''"

definition TaskType_members :: "TaskType list" where
  "TaskType_members = [TaskType.ATOMIC, TaskType.COMPOSITE, TaskType.DELEGATED,
     TaskType.FOLLOWUP, TaskType.APPROVAL, TaskType.MILESTONE, TaskType.REVIEW,
     TaskType.RECURRING, TaskType.DECISION, TaskType.CHECKIN, TaskType.RESEARCH]"

interpretation task_type_enum: str_enum TaskType_members TaskType_value
proof
  show "e \<in> set TaskType_members" for e by (cases e) (simp_all add: TaskType_members_def)
  show "distinct (map TaskType_value TaskType_members)" by (simp add: TaskType_members_def)
qed

subsection \<open>TaskState\<close>

datatype TaskState = PENDING | ACTIVE | IN_PROGRESS | BLOCKED | DELAYED | NEEDS_REVIEW
    | COMPLETE | CANCELLED | SNOOZED | INACTIVE_PENDING

fun TaskState_value :: "TaskState \<Rightarrow> string" where
  "TaskState_value TaskState.PENDING = ''PENDING''"
| "TaskState_value TaskState.ACTIVE = ''ACTIVE''"
| "TaskState_value TaskState.IN_PROGRESS = ''IN_PROGRESS''"
| "TaskState_value TaskState.BLOCKED = ''BLOCKED''"
| "TaskState_value TaskState.DELAYED = ''DELAYED''"
| "TaskState_value TaskState.NEEDS_REVIEW = ''NEEDS_REVIEW''"
| "TaskState_value TaskState.COMPLETE = ''COMPLETE''"
| "TaskState_value TaskState.CANCELLED = ''CANCELLED''"
| "TaskState_value TaskState.SNOOZED = ''SNOOZED''"
| "TaskState_value TaskState.INACTIVE_PENDING = ''INACTIVE_PENDING''"

definition TaskState_members :: "TaskState list" where
  "TaskState_members = [TaskState.PENDING, TaskState.ACTIVE, TaskState.IN_PROGRESS,
     TaskState.BLOCKED, TaskState.DELAYED, TaskState.NEEDS_REVIEW, TaskState.COMPLETE,
     TaskState.CANCELLED, TaskState.SNOOZED, TaskState.INACTIVE_PENDING]"

interpretation task_state_enum: str_enum TaskState_members TaskState_value
proof
  show "e \<in> set TaskState_members" for e by (cases e) (simp_all add: TaskState_members_def)
  show "distinct (map TaskState_value TaskState_members)" by (simp add: TaskState_members_def)
qed

subsection \<open>EdgeType\<close>

datatype EdgeType = DEPENDS_ON | SPAWNED_FROM | FOLLOW_UP_FOR | BLOCKS | ASSIGNED_TO
    | OWNED_BY | APPLIES_TO | PART_OF | INFORMS | BRANCHED_FROM | BATCHED_IN | REFERRED_BY
    | MEMBER_OF | ADMIN_OF | BELONGS_TO_ORG | SCOPED_TO_WS | GRANTS_ACCESS_TO

fun EdgeType_value :: "EdgeType \<Rightarrow> string" where
  "EdgeType_value EdgeType.DEPENDS_ON = ''DEPENDS_ON''"
| "EdgeType_value EdgeType.SPAWNED_FROM = ''SPAWNED_FROM''"
| "EdgeType_value EdgeType.FOLLOW_UP_FOR = ''FOLLOW_UP_FOR''"
| "EdgeType_value EdgeType.BLOCKS = ''BLOCKS''"
| "EdgeType_value EdgeType.ASSIGNED_TO = ''ASSIGNED_TO''"
| "EdgeType_value EdgeType.OWNED_BY = ''OWNED_BY''"
| "EdgeType_value EdgeType.APPLIES_TO = ''APPLIES_TO''"
| "EdgeType_value EdgeType.PART_OF = ''PART_OF''"
| "EdgeType_value EdgeType.INFORMS = ''INFORMS''"
| "EdgeType_value EdgeType.BRANCHED_FROM = ''BRANCHED_FROM''"
| "EdgeType_value EdgeType.BATCHED_IN = ''BATCHED_IN''"
| "EdgeType_value EdgeType.REFERRED_BY = ''REFERRED_BY''"
| "EdgeType_value EdgeType.MEMBER_OF = ''MEMBER_OF''"
| "EdgeType_value EdgeType.ADMIN_OF = ''ADMIN_OF''"
| "EdgeType_value EdgeType.BELONGS_TO_ORG = ''BELONGS_TO_ORG''"
| "EdgeType_value EdgeType.SCOPED_TO_WS = ''SCOPED_TO_WS''"
| "EdgeType_value EdgeType.GRANTS_ACCESS_TO = ''GRANTS_ACCESS_TO''"

definition EdgeType_members :: "EdgeType list" where
  "EdgeType_members = [EdgeType.DEPENDS_ON, EdgeType.SPAWNED_FROM, EdgeType.FOLLOW_UP_FOR,
     EdgeType.BLOCKS, EdgeType.ASSIGNED_TO, EdgeType.OWNED_BY, EdgeType.APPLIES_TO,
     EdgeType.PART_OF, EdgeType.INFORMS, EdgeType.BRANCHED_FROM, EdgeType.BATCHED_IN,
     EdgeType.REFERRED_BY, EdgeType.MEMBER_OF, EdgeType.ADMIN_OF, EdgeType.BELONGS_TO_ORG,
     EdgeType.SCOPED_TO_WS, EdgeType.GRANTS_ACCESS_TO]"

interpretation edge_type_enum: str_enum EdgeType_members EdgeType_value
proof
  show "e \<in> set EdgeType_members" for e by (cases e) (simp_all add: EdgeType_members_def)
  show "distinct (map EdgeType_value EdgeType_members)" by (simp add: EdgeType_members_def)
qed

subsection \<open>GateType\<close>

datatype GateType = AND | OR

fun GateType_value :: "GateType \<Rightarrow> string" where
  "GateType_value GateType.AND = ''AND''"
| "GateType_value GateType.OR = ''OR''"

definition GateType_members :: "GateType list" where
  "GateType_members = [GateType.AND, GateType.OR]"

interpretation gate_type_enum: str_enum GateType_members GateType_value
proof
  show "e \<in> set GateType_members" for e by (cases e) (simp_all add: GateType_members_def)
  show "distinct (map GateType_value GateType_members)" by (simp add: GateType_members_def)
qed

subsection \<open>GoalPriority\<close>

datatype GoalPriority = P1 | P2 | P3

fun GoalPriority_value :: "GoalPriority \<Rightarrow> string" where
  "GoalPriority_value GoalPriority.P1 = ''P1''"
| "GoalPriority_value GoalPriority.P2 = ''P2''"
| "GoalPriority_value GoalPriority.P3 = ''P3''"

definition GoalPriority_members :: "GoalPriority list" where
  "GoalPriority_members = [GoalPriority.P1, GoalPriority.P2, GoalPriority.P3]"

interpretation goal_priority_enum: str_enum GoalPriority_members GoalPriority_value
proof
  show "e \<in> set GoalPriority_members" for e by (cases e) (simp_all add: GoalPriority_members_def)
  show "distinct (map GoalPriority_value GoalPriority_members)" by (simp add: GoalPriority_members_def)
qed

subsection \<open>ConstraintType\<close>

datatype ConstraintType = DEADLINE | BUDGET | COMPLIANCE | EXTERNAL | DEPENDENCY | CAPACITY
    | CUSTOM

fun ConstraintType_value :: "ConstraintType \<Rightarrow> string" where
  "ConstraintType_value ConstraintType.DEADLINE = ''DEADLINE''"
| "ConstraintType_value ConstraintType.BUDGET = ''BUDGET''"
| "ConstraintType_value ConstraintType.COMPLIANCE = ''COMPLIANCE''"
| "ConstraintType_value ConstraintType.EXTERNAL = ''EXTERNAL''"
| "ConstraintType_value ConstraintType.DEPENDENCY = ''DEPENDENCY''"
| "ConstraintType_value ConstraintType.CAPACITY = ''CAPACITY''"
| "ConstraintType_value ConstraintType.CUSTOM = ''CUSTOM''"

definition ConstraintType_members :: "ConstraintType list" where
  "ConstraintType_members = [ConstraintType.DEADLINE, ConstraintType.BUDGET,
     ConstraintType.COMPLIANCE, ConstraintType.EXTERNAL, ConstraintType.DEPENDENCY,
     ConstraintType.CAPACITY, ConstraintType.CUSTOM]"

interpretation constraint_type_enum: str_enum ConstraintType_members ConstraintType_value
proof
  show "e \<in> set ConstraintType_members" for e by (cases e) (simp_all add: ConstraintType_members_def)
  show "distinct (map ConstraintType_value ConstraintType_members)" by (simp add: ConstraintType_members_def)
qed

subsection \<open>ResourceType\<close>

datatype ResourceType = HUMAN | AI_AGENT

fun ResourceType_value :: "ResourceType \<Rightarrow> string" where
  "ResourceType_value ResourceType.HUMAN = ''HUMAN''"
| "ResourceType_value ResourceType.AI_AGENT = ''AI_AGENT''"

definition ResourceType_members :: "ResourceType list" where
  "ResourceType_members = [ResourceType.HUMAN, ResourceType.AI_AGENT]"

interpretation resource_type_enum: str_enum ResourceType_members ResourceType_value
proof
  show "e \<in> set ResourceType_members" for e by (cases e) (simp_all add: ResourceType_members_def)
  show "distinct (map ResourceType_value ResourceType_members)" by (simp add: ResourceType_members_def)
qed

subsection \<open>AutonomyLevel\<close>

datatype AutonomyLevel = SUGGEST | AUTONOMOUS | REQUIRE_APPROVAL

fun AutonomyLevel_value :: "AutonomyLevel \<Rightarrow> string" where
  "AutonomyLevel_value AutonomyLevel.SUGGEST = ''SUGGEST''"
| "AutonomyLevel_value AutonomyLevel.AUTONOMOUS = ''AUTONOMOUS''"
| "AutonomyLevel_value AutonomyLevel.REQUIRE_APPROVAL = ''REQUIRE_APPROVAL''"

definition AutonomyLevel_members :: "AutonomyLevel list" where
  "AutonomyLevel_members = [AutonomyLevel.SUGGEST, AutonomyLevel.AUTONOMOUS,
     AutonomyLevel.REQUIRE_APPROVAL]"

interpretation autonomy_level_enum: str_enum AutonomyLevel_members AutonomyLevel_value
proof
  show "e \<in> set AutonomyLevel_members" for e by (cases e) (simp_all add: AutonomyLevel_members_def)
  show "distinct (map AutonomyLevel_value AutonomyLevel_members)" by (simp add: AutonomyLevel_members_def)
qed

subsection \<open>ChangedBy\<close>

datatype ChangedBy = AGENT | HUMAN | SYSTEM | CASCADE

fun ChangedBy_value :: "ChangedBy \<Rightarrow> string" where
  "ChangedBy_value ChangedBy.AGENT = ''AGENT''"
| "ChangedBy_value ChangedBy.HUMAN = ''HUMAN''"
| "ChangedBy_value ChangedBy.SYSTEM = ''SYSTEM''"
| "ChangedBy_value ChangedBy.CASCADE = ''CASCADE''"

definition ChangedBy_members :: "ChangedBy list" where
  "ChangedBy_members = [ChangedBy.AGENT, ChangedBy.HUMAN, ChangedBy.SYSTEM, ChangedBy.CASCADE]"

interpretation changed_by_enum: str_enum ChangedBy_members ChangedBy_value
proof
  show "e \<in> set ChangedBy_members" for e by (cases e) (simp_all add: ChangedBy_members_def)
  show "distinct (map ChangedBy_value ChangedBy_members)" by (simp add: ChangedBy_members_def)
qed

subsection \<open>GoalState\<close>

datatype GoalState = ACTIVE | COMPLETE | OBSOLETE | ON_HOLD

fun GoalState_value :: "GoalState \<Rightarrow> string" where
  "GoalState_value GoalState.ACTIVE = ''ACTIVE''"
| "GoalState_value GoalState.COMPLETE = ''COMPLETE''"
| "GoalState_value GoalState.OBSOLETE = ''OBSOLETE''"
| "GoalState_value GoalState.ON_HOLD = ''ON_HOLD''"

definition GoalState_members :: "GoalState list" where
  "GoalState_members = [GoalState.ACTIVE, GoalState.COMPLETE, GoalState.OBSOLETE,
     GoalState.ON_HOLD]"

interpretation goal_state_enum: str_enum GoalState_members GoalState_value
proof
  show "e \<in> set GoalState_members" for e by (cases e) (simp_all add: GoalState_members_def)
  show "distinct (map GoalState_value GoalState_members)" by (simp add: GoalState_members_def)
qed

subsection \<open>GoalOrigin\<close>

datatype GoalOrigin = USER_DEFINED | AGENT_INFERRED

fun GoalOrigin_value :: "GoalOrigin \<Rightarrow> string" where
  "GoalOrigin_value GoalOrigin.USER_DEFINED = ''USER_DEFINED''"
| "GoalOrigin_value GoalOrigin.AGENT_INFERRED = ''AGENT_INFERRED''"

definition GoalOrigin_members :: "GoalOrigin list" where
  "GoalOrigin_members = [GoalOrigin.USER_DEFINED, GoalOrigin.AGENT_INFERRED]"

interpretation goal_origin_enum: str_enum GoalOrigin_members GoalOrigin_value
proof
  show "e \<in> set GoalOrigin_members" for e by (cases e) (simp_all add: GoalOrigin_members_def)
  show "distinct (map GoalOrigin_value GoalOrigin_members)" by (simp add: GoalOrigin_members_def)
qed

subsection \<open>CheckinState\<close>

datatype CheckinState = SCHEDULED | SENT | RESPONDED | EXPIRED

fun CheckinState_value :: "CheckinState \<Rightarrow> string" where
  "CheckinState_value CheckinState.SCHEDULED = ''SCHEDULED''"
| "CheckinState_value CheckinState.SENT = ''SENT''"
| "CheckinState_value CheckinState.RESPONDED = ''RESPONDED''"
| "CheckinState_value CheckinState.EXPIRED = ''EXPIRED''"

definition CheckinState_members :: "CheckinState list" where
  "CheckinState_members = [CheckinState.SCHEDULED, CheckinState.SENT, CheckinState.RESPONDED,
     CheckinState.EXPIRED]"

interpretation checkin_state_enum: str_enum CheckinState_members CheckinState_value
proof
  show "e \<in> set CheckinState_members" for e by (cases e) (simp_all add: CheckinState_members_def)
  show "distinct (map CheckinState_value CheckinState_members)" by (simp add: CheckinState_members_def)
qed

subsection \<open>AvailabilityStatus\<close>

datatype AvailabilityStatus = AVAILABLE | BUSY | AT_CAPACITY | UNAVAILABLE

fun AvailabilityStatus_value :: "AvailabilityStatus \<Rightarrow> string" where
  "AvailabilityStatus_value AvailabilityStatus.AVAILABLE = ''AVAILABLE''"
| "AvailabilityStatus_value AvailabilityStatus.BUSY = ''BUSY''"
| "AvailabilityStatus_value AvailabilityStatus.AT_CAPACITY = ''AT_CAPACITY''"
| "AvailabilityStatus_value AvailabilityStatus.UNAVAILABLE = ''UNAVAILABLE''"

definition AvailabilityStatus_members :: "AvailabilityStatus list" where
  "AvailabilityStatus_members = [AvailabilityStatus.AVAILABLE, AvailabilityStatus.BUSY,
     AvailabilityStatus.AT_CAPACITY, AvailabilityStatus.UNAVAILABLE]"

interpretation availability_status_enum: str_enum AvailabilityStatus_members AvailabilityStatus_value
proof
  show "e \<in> set AvailabilityStatus_members" for e by (cases e) (simp_all add: AvailabilityStatus_members_def)
  show "distinct (map AvailabilityStatus_value AvailabilityStatus_members)" by (simp add: AvailabilityStatus_members_def)
qed

subsection \<open>RiskLevel\<close>

datatype RiskLevel = LOW | MEDIUM | HIGH

fun RiskLevel_value :: "RiskLevel \<Rightarrow> string" where
  "RiskLevel_value RiskLevel.LOW = ''LOW''"
| "RiskLevel_value RiskLevel.MEDIUM = ''MEDIUM''"
| "RiskLevel_value RiskLevel.HIGH = ''HIGH''"

definition RiskLevel_members :: "RiskLevel list" where
  "RiskLevel_members = [RiskLevel.LOW, RiskLevel.MEDIUM, RiskLevel.HIGH]"

interpretation risk_level_enum: str_enum RiskLevel_members RiskLevel_value
proof
  show "e \<in> set RiskLevel_members" for e by (cases e) (simp_all add: RiskLevel_members_def)
  show "distinct (map RiskLevel_value RiskLevel_members)" by (simp add: RiskLevel_members_def)
qed

subsection \<open>ConstraintScope\<close>

datatype ConstraintScope = TASK | MILESTONE | GOAL | GLOBAL

fun ConstraintScope_value :: "ConstraintScope \<Rightarrow> string" where
  "ConstraintScope_value ConstraintScope.TASK = ''TASK''"
| "ConstraintScope_value ConstraintScope.MILESTONE = ''MILESTONE''"
| "ConstraintScope_value ConstraintScope.GOAL = ''GOAL''"
| "ConstraintScope_value ConstraintScope.GLOBAL = ''GLOBAL''"

definition ConstraintScope_members :: "ConstraintScope list" where
  "ConstraintScope_members = [ConstraintScope.TASK, ConstraintScope.MILESTONE,
     ConstraintScope.GOAL, ConstraintScope.GLOBAL]"

interpretation constraint_scope_enum: str_enum ConstraintScope_members ConstraintScope_value
proof
  show "e \<in> set ConstraintScope_members" for e by (cases e) (simp_all add: ConstraintScope_members_def)
  show "distinct (map ConstraintScope_value ConstraintScope_members)" by (simp add: ConstraintScope_members_def)
qed

subsection \<open>ConfidenceLevel\<close>

datatype ConfidenceLevel = HIGH | MEDIUM | LOW

fun ConfidenceLevel_value :: "ConfidenceLevel \<Rightarrow> string" where
  "ConfidenceLevel_value ConfidenceLevel.HIGH = ''HIGH''"
| "ConfidenceLevel_value ConfidenceLevel.MEDIUM = ''MEDIUM''"
| "ConfidenceLevel_value ConfidenceLevel.LOW = ''LOW''"

definition ConfidenceLevel_members :: "ConfidenceLevel list" where
  "ConfidenceLevel_members = [ConfidenceLevel.HIGH, ConfidenceLevel.MEDIUM,
     ConfidenceLevel.LOW]"

interpretation confidence_level_enum: str_enum ConfidenceLevel_members ConfidenceLevel_value
proof
  show "e \<in> set ConfidenceLevel_members" for e by (cases e) (simp_all add: ConfidenceLevel_members_def)
  show "distinct (map ConfidenceLevel_value ConfidenceLevel_members)" by (simp add: ConfidenceLevel_members_def)
qed

subsection \<open>CompletionSignal\<close>

datatype CompletionSignal = EXPLICIT | INFERRED | CASCADED

fun CompletionSignal_value :: "CompletionSignal \<Rightarrow> string" where
  "CompletionSignal_value CompletionSignal.EXPLICIT = ''EXPLICIT''"
| "CompletionSignal_value CompletionSignal.INFERRED = ''INFERRED''"
| "CompletionSignal_value CompletionSignal.CASCADED = ''CASCADED''"

definition CompletionSignal_members :: "CompletionSignal list" where
  "CompletionSignal_members = [CompletionSignal.EXPLICIT, CompletionSignal.INFERRED,
     CompletionSignal.CASCADED]"

interpretation completion_signal_enum: str_enum CompletionSignal_members CompletionSignal_value
proof
  show "e \<in> set CompletionSignal_members" for e by (cases e) (simp_all add: CompletionSignal_members_def)
  show "distinct (map CompletionSignal_value CompletionSignal_members)" by (simp add: CompletionSignal_members_def)
qed

subsection \<open>OverrideType\<close>

datatype OverrideType = PRIORITIZE | DEPRIORITIZE | SNOOZE

fun OverrideType_value :: "OverrideType \<Rightarrow> string" where
  "OverrideType_value OverrideType.PRIORITIZE = ''PRIORITIZE''"
| "OverrideType_value OverrideType.DEPRIORITIZE = ''DEPRIORITIZE''"
| "OverrideType_value OverrideType.SNOOZE = ''SNOOZE''"

definition OverrideType_members :: "OverrideType list" where
  "OverrideType_members = [OverrideType.PRIORITIZE, OverrideType.DEPRIORITIZE,
     OverrideType.SNOOZE]"

interpretation override_type_enum: str_enum OverrideType_members OverrideType_value
proof
  show "e \<in> set OverrideType_members" for e by (cases e) (simp_all add: OverrideType_members_def)
  show "distinct (map OverrideType_value OverrideType_members)" by (simp add: OverrideType_members_def)
qed

subsection \<open>MatchedBy\<close>

datatype MatchedBy = TASK_ID | VECTOR_SEARCH

fun MatchedBy_value :: "MatchedBy \<Rightarrow> string" where
  "MatchedBy_value MatchedBy.TASK_ID = ''TASK_ID''"
| "MatchedBy_value MatchedBy.VECTOR_SEARCH = ''VECTOR_SEARCH''"

definition MatchedBy_members :: "MatchedBy list" where
  "MatchedBy_members = [MatchedBy.TASK_ID, MatchedBy.VECTOR_SEARCH]"

interpretation matched_by_enum: str_enum MatchedBy_members MatchedBy_value
proof
  show "e \<in> set MatchedBy_members" for e by (cases e) (simp_all add: MatchedBy_members_def)
  show "distinct (map MatchedBy_value MatchedBy_members)" by (simp add: MatchedBy_members_def)
qed

subsection \<open>BreakdownStrategy\<close>

datatype BreakdownStrategy = SEQUENTIAL | PARALLEL | HYBRID

fun BreakdownStrategy_value :: "BreakdownStrategy \<Rightarrow> string" where
  "BreakdownStrategy_value BreakdownStrategy.SEQUENTIAL = ''SEQUENTIAL''"
| "BreakdownStrategy_value BreakdownStrategy.PARALLEL = ''PARALLEL''"
| "BreakdownStrategy_value BreakdownStrategy.HYBRID = ''HYBRID''"

definition BreakdownStrategy_members :: "BreakdownStrategy list" where
  "BreakdownStrategy_members = [BreakdownStrategy.SEQUENTIAL, BreakdownStrategy.PARALLEL,
     BreakdownStrategy.HYBRID]"

interpretation breakdown_strategy_enum: str_enum BreakdownStrategy_members BreakdownStrategy_value
proof
  show "e \<in> set BreakdownStrategy_members" for e by (cases e) (simp_all add: BreakdownStrategy_members_def)
  show "distinct (map BreakdownStrategy_value BreakdownStrategy_members)" by (simp add: BreakdownStrategy_members_def)
qed

subsection \<open>EdgeStrength\<close>

datatype EdgeStrength = HARD | SOFT

fun EdgeStrength_value :: "EdgeStrength \<Rightarrow> string" where
  "EdgeStrength_value EdgeStrength.HARD = ''HARD''"
| "EdgeStrength_value EdgeStrength.SOFT = ''SOFT''"

definition EdgeStrength_members :: "EdgeStrength list" where
  "EdgeStrength_members = [EdgeStrength.HARD, EdgeStrength.SOFT]"

interpretation edge_strength_enum: str_enum EdgeStrength_members EdgeStrength_value
proof
  show "e \<in> set EdgeStrength_members" for e by (cases e) (simp_all add: EdgeStrength_members_def)
  show "distinct (map EdgeStrength_value EdgeStrength_members)" by (simp add: EdgeStrength_members_def)
qed

subsection \<open>EdgeCreatedBy\<close>

datatype EdgeCreatedBy = HUMAN | AGENT

fun EdgeCreatedBy_value :: "EdgeCreatedBy \<Rightarrow> string" where
  "EdgeCreatedBy_value EdgeCreatedBy.HUMAN = ''HUMAN''"
| "EdgeCreatedBy_value EdgeCreatedBy.AGENT = ''AGENT''"

definition EdgeCreatedBy_members :: "EdgeCreatedBy list" where
  "EdgeCreatedBy_members = [EdgeCreatedBy.HUMAN, EdgeCreatedBy.AGENT]"

interpretation edge_created_by_enum: str_enum EdgeCreatedBy_members EdgeCreatedBy_value
proof
  show "e \<in> set EdgeCreatedBy_members" for e by (cases e) (simp_all add: EdgeCreatedBy_members_def)
  show "distinct (map EdgeCreatedBy_value EdgeCreatedBy_members)" by (simp add: EdgeCreatedBy_members_def)
qed

subsection \<open>OrgRole\<close>

datatype OrgRole = OWNER | ADMIN | MEMBER | GUEST

fun OrgRole_value :: "OrgRole \<Rightarrow> string" where
  "OrgRole_value OrgRole.OWNER = ''OWNER''"
| "OrgRole_value OrgRole.ADMIN = ''ADMIN''"
| "OrgRole_value OrgRole.MEMBER = ''MEMBER''"
| "OrgRole_value OrgRole.GUEST = ''GUEST''"

definition OrgRole_members :: "OrgRole list" where
  "OrgRole_members = [OrgRole.OWNER, OrgRole.ADMIN, OrgRole.MEMBER, OrgRole.GUEST]"

interpretation org_role_enum: str_enum OrgRole_members OrgRole_value
proof
  show "e \<in> set OrgRole_members" for e by (cases e) (simp_all add: OrgRole_members_def)
  show "distinct (map OrgRole_value OrgRole_members)" by (simp add: OrgRole_members_def)
qed

subsection \<open>MembershipStatus\<close>

datatype MembershipStatus = ACTIVE | INVITED | SUSPENDED | REMOVED

fun MembershipStatus_value :: "MembershipStatus \<Rightarrow> string" where
  "MembershipStatus_value MembershipStatus.ACTIVE = ''ACTIVE''"
| "MembershipStatus_value MembershipStatus.INVITED = ''INVITED''"
| "MembershipStatus_value MembershipStatus.SUSPENDED = ''SUSPENDED''"
| "MembershipStatus_value MembershipStatus.REMOVED = ''REMOVED''"

definition MembershipStatus_members :: "MembershipStatus list" where
  "MembershipStatus_members = [MembershipStatus.ACTIVE, MembershipStatus.INVITED,
     MembershipStatus.SUSPENDED, MembershipStatus.REMOVED]"

interpretation membership_status_enum: str_enum MembershipStatus_members MembershipStatus_value
proof
  show "e \<in> set MembershipStatus_members" for e by (cases e) (simp_all add: MembershipStatus_members_def)
  show "distinct (map MembershipStatus_value MembershipStatus_members)" by (simp add: MembershipStatus_members_def)
qed

subsection \<open>WorkspaceVisibility\<close>

datatype WorkspaceVisibility = PRIVATE | INTERNAL | PUBLIC

fun WorkspaceVisibility_value :: "WorkspaceVisibility \<Rightarrow> string" where
  "WorkspaceVisibility_value WorkspaceVisibility.PRIVATE = ''PRIVATE''"
| "WorkspaceVisibility_value WorkspaceVisibility.INTERNAL = ''INTERNAL''"
| "WorkspaceVisibility_value WorkspaceVisibility.PUBLIC = ''PUBLIC''"

definition WorkspaceVisibility_members :: "WorkspaceVisibility list" where
  "WorkspaceVisibility_members = [WorkspaceVisibility.PRIVATE, WorkspaceVisibility.INTERNAL,
     WorkspaceVisibility.PUBLIC]"

interpretation workspace_visibility_enum: str_enum WorkspaceVisibility_members WorkspaceVisibility_value
proof
  show "e \<in> set WorkspaceVisibility_members" for e by (cases e) (simp_all add: WorkspaceVisibility_members_def)
  show "distinct (map WorkspaceVisibility_value WorkspaceVisibility_members)" by (simp add: WorkspaceVisibility_members_def)
qed

subsection \<open>VisibilityScope\<close>

datatype VisibilityScope = VIEWER | EDITOR | OWNER

fun VisibilityScope_value :: "VisibilityScope \<Rightarrow> string" where
  "VisibilityScope_value VisibilityScope.VIEWER = ''VIEWER''"
| "VisibilityScope_value VisibilityScope.EDITOR = ''EDITOR''"
| "VisibilityScope_value VisibilityScope.OWNER = ''OWNER''"

definition VisibilityScope_members :: "VisibilityScope list" where
  "VisibilityScope_members = [VisibilityScope.VIEWER, VisibilityScope.EDITOR,
     VisibilityScope.OWNER]"

interpretation visibility_scope_enum: str_enum VisibilityScope_members VisibilityScope_value
proof
  show "e \<in> set VisibilityScope_members" for e by (cases e) (simp_all add: VisibilityScope_members_def)
  show "distinct (map VisibilityScope_value VisibilityScope_members)" by (simp add: VisibilityScope_members_def)
qed

subsection \<open>TrustTier\<close>

datatype TrustTier = AUTO | GATED | BLOCKED

fun TrustTier_value :: "TrustTier \<Rightarrow> string" where
  "TrustTier_value TrustTier.AUTO = ''AUTO''"
| "TrustTier_value TrustTier.GATED = ''GATED''"
| "TrustTier_value TrustTier.BLOCKED = ''BLOCKED''"

definition TrustTier_members :: "TrustTier list" where
  "TrustTier_members = [TrustTier.AUTO, TrustTier.GATED, TrustTier.BLOCKED]"

interpretation trust_tier_enum: str_enum TrustTier_members TrustTier_value
proof
  show "e \<in> set TrustTier_members" for e by (cases e) (simp_all add: TrustTier_members_def)
  show "distinct (map TrustTier_value TrustTier_members)" by (simp add: TrustTier_members_def)
qed

subsection \<open>MCPTransport\<close>

datatype MCPTransport = STDIO | SSE | HTTP

fun MCPTransport_value :: "MCPTransport \<Rightarrow> string" where
  "MCPTransport_value MCPTransport.STDIO = ''stdio''"
| "MCPTransport_value MCPTransport.SSE = ''sse''"
| "MCPTransport_value MCPTransport.HTTP = ''http''"

definition MCPTransport_members :: "MCPTransport list" where
  "MCPTransport_members = [MCPTransport.STDIO, MCPTransport.SSE, MCPTransport.HTTP]"

interpretation mcp_transport_enum: str_enum MCPTransport_members MCPTransport_value
proof
  show "e \<in> set MCPTransport_members" for e by (cases e) (simp_all add: MCPTransport_members_def)
  show "distinct (map MCPTransport_value MCPTransport_members)" by (simp add: MCPTransport_members_def)
qed

subsection \<open>LinkStatus\<close>

datatype LinkStatus = ACTIVE | ARCHIVED | DETACHED_USER_ARCHIVED | DETACHED_USER_PURGED

fun LinkStatus_value :: "LinkStatus \<Rightarrow> string" where
  "LinkStatus_value LinkStatus.ACTIVE = ''active''"
| "LinkStatus_value LinkStatus.ARCHIVED = ''archived''"
| "LinkStatus_value LinkStatus.DETACHED_USER_ARCHIVED = ''detached_user_archived''"
| "LinkStatus_value LinkStatus.DETACHED_USER_PURGED = ''detached_user_purged''"

definition LinkStatus_members :: "LinkStatus list" where
  "LinkStatus_members = [LinkStatus.ACTIVE, LinkStatus.ARCHIVED,
     LinkStatus.DETACHED_USER_ARCHIVED, LinkStatus.DETACHED_USER_PURGED]"

interpretation link_status_enum: str_enum LinkStatus_members LinkStatus_value
proof
  show "e \<in> set LinkStatus_members" for e by (cases e) (simp_all add: LinkStatus_members_def)
  show "distinct (map LinkStatus_value LinkStatus_members)" by (simp add: LinkStatus_members_def)
qed

subsection \<open>DiscoverabilityLevel\<close>

datatype DiscoverabilityLevel = ORG_DEFAULT | DISCOVERABLE | NAME_ONLY | HIDDEN

fun DiscoverabilityLevel_value :: "DiscoverabilityLevel \<Rightarrow> string" where
  "DiscoverabilityLevel_value DiscoverabilityLevel.ORG_DEFAULT = ''org_default''"
| "DiscoverabilityLevel_value DiscoverabilityLevel.DISCOVERABLE = ''discoverable''"
| "DiscoverabilityLevel_value DiscoverabilityLevel.NAME_ONLY = ''name_only''"
| "DiscoverabilityLevel_value DiscoverabilityLevel.HIDDEN = ''hidden''"

definition DiscoverabilityLevel_members :: "DiscoverabilityLevel list" where
  "DiscoverabilityLevel_members = [DiscoverabilityLevel.ORG_DEFAULT,
     DiscoverabilityLevel.DISCOVERABLE, DiscoverabilityLevel.NAME_ONLY,
     DiscoverabilityLevel.HIDDEN]"

interpretation discoverability_level_enum: str_enum DiscoverabilityLevel_members DiscoverabilityLevel_value
proof
  show "e \<in> set DiscoverabilityLevel_members" for e by (cases e) (simp_all add: DiscoverabilityLevel_members_def)
  show "distinct (map DiscoverabilityLevel_value DiscoverabilityLevel_members)" by (simp add: DiscoverabilityLevel_members_def)
qed

subsection \<open>OrgDirectoryVisibility\<close>

datatype OrgDirectoryVisibility = OPEN | NAME_ONLY | CONSENT_REQUIRED | INVITATION_ONLY

fun OrgDirectoryVisibility_value :: "OrgDirectoryVisibility \<Rightarrow> string" where
  "OrgDirectoryVisibility_value OrgDirectoryVisibility.OPEN = ''open''"
| "OrgDirectoryVisibility_value OrgDirectoryVisibility.NAME_ONLY = ''name-only''"
| "OrgDirectoryVisibility_value OrgDirectoryVisibility.CONSENT_REQUIRED = ''consent-required''"
| "OrgDirectoryVisibility_value OrgDirectoryVisibility.INVITATION_ONLY = ''invitation-only''"

definition OrgDirectoryVisibility_members :: "OrgDirectoryVisibility list" where
  "OrgDirectoryVisibility_members = [OrgDirectoryVisibility.OPEN,
     OrgDirectoryVisibility.NAME_ONLY, OrgDirectoryVisibility.CONSENT_REQUIRED,
     OrgDirectoryVisibility.INVITATION_ONLY]"

interpretation org_directory_visibility_enum: str_enum OrgDirectoryVisibility_members OrgDirectoryVisibility_value
proof
  show "e \<in> set OrgDirectoryVisibility_members" for e by (cases e) (simp_all add: OrgDirectoryVisibility_members_def)
  show "distinct (map OrgDirectoryVisibility_value OrgDirectoryVisibility_members)" by (simp add: OrgDirectoryVisibility_members_def)
qed

subsection \<open>Enumerating a state space\<close>

text \<open>
  The four enums the state machine quantifies over are instances of \<open>enum\<close>: a statement
  over all their members is then decided by evaluation.
\<close>

instantiation TaskState :: enum
begin

definition enum_TaskState :: "TaskState list" where
  "enum_TaskState = TaskState_members"

definition enum_all_TaskState :: "(TaskState \<Rightarrow> bool) \<Rightarrow> bool" where
  "enum_all_TaskState P = list_all P TaskState_members"

definition enum_ex_TaskState :: "(TaskState \<Rightarrow> bool) \<Rightarrow> bool" where
  "enum_ex_TaskState P = list_ex P TaskState_members"

instance
proof
  have univ: "(UNIV :: TaskState set) = set TaskState_members"
    using task_state_enum.members_UNIV by simp
  show "(UNIV :: TaskState set) = set enum_class.enum"
    by (simp add: enum_TaskState_def univ)
  show "distinct (enum_class.enum :: TaskState list)"
    by (simp add: enum_TaskState_def TaskState_members_def)
  show "enum_class.enum_all P = Ball UNIV P" for P :: "TaskState \<Rightarrow> bool"
    by (simp add: enum_all_TaskState_def univ list_all_iff)
  show "enum_class.enum_ex P = Bex UNIV P" for P :: "TaskState \<Rightarrow> bool"
    by (simp add: enum_ex_TaskState_def univ list_ex_iff)
qed

end

instantiation TaskType :: enum
begin

definition enum_TaskType :: "TaskType list" where
  "enum_TaskType = TaskType_members"

definition enum_all_TaskType :: "(TaskType \<Rightarrow> bool) \<Rightarrow> bool" where
  "enum_all_TaskType P = list_all P TaskType_members"

definition enum_ex_TaskType :: "(TaskType \<Rightarrow> bool) \<Rightarrow> bool" where
  "enum_ex_TaskType P = list_ex P TaskType_members"

instance
proof
  have univ: "(UNIV :: TaskType set) = set TaskType_members"
    using task_type_enum.members_UNIV by simp
  show "(UNIV :: TaskType set) = set enum_class.enum"
    by (simp add: enum_TaskType_def univ)
  show "distinct (enum_class.enum :: TaskType list)"
    by (simp add: enum_TaskType_def TaskType_members_def)
  show "enum_class.enum_all P = Ball UNIV P" for P :: "TaskType \<Rightarrow> bool"
    by (simp add: enum_all_TaskType_def univ list_all_iff)
  show "enum_class.enum_ex P = Bex UNIV P" for P :: "TaskType \<Rightarrow> bool"
    by (simp add: enum_ex_TaskType_def univ list_ex_iff)
qed

end

instantiation ChangedBy :: enum
begin

definition enum_ChangedBy :: "ChangedBy list" where
  "enum_ChangedBy = ChangedBy_members"

definition enum_all_ChangedBy :: "(ChangedBy \<Rightarrow> bool) \<Rightarrow> bool" where
  "enum_all_ChangedBy P = list_all P ChangedBy_members"

definition enum_ex_ChangedBy :: "(ChangedBy \<Rightarrow> bool) \<Rightarrow> bool" where
  "enum_ex_ChangedBy P = list_ex P ChangedBy_members"

instance
proof
  have univ: "(UNIV :: ChangedBy set) = set ChangedBy_members"
    using changed_by_enum.members_UNIV by simp
  show "(UNIV :: ChangedBy set) = set enum_class.enum"
    by (simp add: enum_ChangedBy_def univ)
  show "distinct (enum_class.enum :: ChangedBy list)"
    by (simp add: enum_ChangedBy_def ChangedBy_members_def)
  show "enum_class.enum_all P = Ball UNIV P" for P :: "ChangedBy \<Rightarrow> bool"
    by (simp add: enum_all_ChangedBy_def univ list_all_iff)
  show "enum_class.enum_ex P = Bex UNIV P" for P :: "ChangedBy \<Rightarrow> bool"
    by (simp add: enum_ex_ChangedBy_def univ list_ex_iff)
qed

end

instantiation ConfidenceLevel :: enum
begin

definition enum_ConfidenceLevel :: "ConfidenceLevel list" where
  "enum_ConfidenceLevel = ConfidenceLevel_members"

definition enum_all_ConfidenceLevel :: "(ConfidenceLevel \<Rightarrow> bool) \<Rightarrow> bool" where
  "enum_all_ConfidenceLevel P = list_all P ConfidenceLevel_members"

definition enum_ex_ConfidenceLevel :: "(ConfidenceLevel \<Rightarrow> bool) \<Rightarrow> bool" where
  "enum_ex_ConfidenceLevel P = list_ex P ConfidenceLevel_members"

instance
proof
  have univ: "(UNIV :: ConfidenceLevel set) = set ConfidenceLevel_members"
    using confidence_level_enum.members_UNIV by simp
  show "(UNIV :: ConfidenceLevel set) = set enum_class.enum"
    by (simp add: enum_ConfidenceLevel_def univ)
  show "distinct (enum_class.enum :: ConfidenceLevel list)"
    by (simp add: enum_ConfidenceLevel_def ConfidenceLevel_members_def)
  show "enum_class.enum_all P = Ball UNIV P" for P :: "ConfidenceLevel \<Rightarrow> bool"
    by (simp add: enum_all_ConfidenceLevel_def univ list_all_iff)
  show "enum_class.enum_ex P = Bex UNIV P" for P :: "ConfidenceLevel \<Rightarrow> bool"
    by (simp add: enum_ex_ConfidenceLevel_def univ list_ex_iff)
qed

end

end
