(* ===== verification/GC_Models.thy ===== *)
theory GC_Models
  imports GC_Enums
begin

section \<open>Node models (\<open>models/base.py\<close>, \<open>models/nodes.py\<close>, \<open>models/type_metadata.py\<close>)\<close>

text \<open>
  The Pydantic models of a task as records, field by field, in the order of the source;
  \<open>TaskNode\<close> extends \<open>BaseNode\<close> as in the code. Floats are exact rationals. The
  discriminated union \<open>TypeMetadata\<close> is a datatype whose constructors are the eleven
  metadata classes. The second half holds the identifier formats (generation and validation)
  and the field validators that map legacy values.
\<close>

subsection \<open>Blocks of a task\<close>

record Timeline =
  deadline :: "py_datetime option"
  started_at :: "py_datetime option"
  estimated_effort_hours :: "rat option"
  estimated_effort_days :: "rat option"
  actual_effort_days :: "rat option"
  completed_at :: "py_datetime option"

record ScoringBlock =
  sb_timeline_urgency :: rat
  sb_dependency_weight :: rat
  sb_critical_path :: rat
  sb_blocker :: rat
  sb_human_override :: rat
  sb_resource_risk :: rat
  sb_constraint_pressure :: rat
  W1_timeline_weight :: rat
  W2_dependencies_weight :: rat
  W3_critical_path_weight :: rat
  W4_blocker_weight :: rat
  W5_override_weight :: rat
  W6_resource_risk_weight :: rat
  W7_constraint_weight :: rat
  computed_priority :: rat
  chain_urgency_rollup :: rat
  last_scored_at :: "py_datetime option"
  score_reasoning :: "string option"

record StateHistoryEntry =
  from_state :: TaskState
  to_state :: TaskState
  changed_at :: py_datetime
  changed_by :: ChangedBy
  reason :: "string option"

record ProgressBlock =
  percentage :: rat
  confidence :: ConfidenceLevel
  last_update :: "py_datetime option"
  completion_signal :: CompletionSignal

record OverrideBlock =
  is_overridden :: bool
  override_type :: "OverrideType option"
  override_note :: "string option"
  set_by :: "string option"
  set_at :: "py_datetime option"
  expires_at :: "py_datetime option"

record AutonomyBlock =
  auto_update_allowed :: bool
  auto_close_allowed :: bool
  requires_approval_from :: "string option"
  level :: AutonomyLevel

record UpdateLogEntry =
  received_at :: py_datetime
  source :: string
  raw_text :: string
  parsed_status :: "string option"
  parsed_progress :: "rat option"
  matched_by :: MatchedBy
  match_confidence :: rat
  action_taken :: "string option"

record EmbeddingInputs =
  ei_title :: string
  ei_description :: string
  ei_goal_context :: string
  ei_key_entities :: "string list"

subsection \<open>Type-specific metadata\<close>

datatype TypeMetadata =
    AtomicMetadata
  | DelegatedMetadata (assigned_resource_id: string) (expected_deliverable: "string option")
      (outbound_message_sent: "string option") (task_id_in_message: bool)
      (follow_up_task_id: "string option")
  | FollowUpMetadata (target_task_id: string) (parent_delegated_id: "string option")
      (scheduled_fire_at: py_datetime) (fire_reason: "string option") (follow_up_count: int)
      (resolved_by_proactive: bool) (resolution_source: "string option")
  | ApprovalMetadata (approver_id: string) (approval_criteria: "string option")
      (approved_at: "py_datetime option") (rejection_reason: "string option")
      (max_wait_days: int) (escalation_target_user_id: "string option")
      (escalation_action: string) (delegated_by_user_id: "string option")
      (artifact_required: bool) (artifact_submitted_at: "py_datetime option")
      (artifact_storage_key: "string option")
  | CompositeMetadata (child_task_ids: "string list") (completion_gate: GateType)
      (breakdown_strategy: BreakdownStrategy) (auto_complete_on_children: bool)
  | MilestoneMetadata (milestone_criteria: "string option") (notifies: "string list")
      (child_task_count: int) (child_tasks_complete: int)
  | ReviewMetadata (review_target_id: string) (review_criteria: "string option")
      (review_confidence_level: ConfidenceLevel)
  | RecurringMetadata (recurring_cron_expression: string) (last_spawned_at: "py_datetime option")
      (next_spawn_at: "py_datetime option") (spawn_history: "string list")
  | DecisionMetadata (options: "string list") (decision_made: "string option")
      (decision_deadline: "py_datetime option") (branches_activated: "string list")
      (branches_pruned: "string list")
  | CheckinMetadata (target_resource_id: "string option") (scheduled_for: "py_datetime option")
  | ResearchMetadata (research_scope: "string option") (outputs: "string list")
      (research_confidence_level: ConfidenceLevel) (confidence_to_proceed: rat)

text \<open>The discriminator \<open>task_type: Literal[...]\<close> each metadata class fixes.\<close>

fun metadata_task_type :: "TypeMetadata \<Rightarrow> TaskType" where
  "metadata_task_type AtomicMetadata = TaskType.ATOMIC"
| "metadata_task_type (DelegatedMetadata _ _ _ _ _) = TaskType.DELEGATED"
| "metadata_task_type (FollowUpMetadata _ _ _ _ _ _ _) = TaskType.FOLLOWUP"
| "metadata_task_type (ApprovalMetadata _ _ _ _ _ _ _ _ _ _ _) = TaskType.APPROVAL"
| "metadata_task_type (CompositeMetadata _ _ _ _) = TaskType.COMPOSITE"
| "metadata_task_type (MilestoneMetadata _ _ _ _) = TaskType.MILESTONE"
| "metadata_task_type (ReviewMetadata _ _ _) = TaskType.REVIEW"
| "metadata_task_type (RecurringMetadata _ _ _ _) = TaskType.RECURRING"
| "metadata_task_type (DecisionMetadata _ _ _ _ _) = TaskType.DECISION"
| "metadata_task_type (CheckinMetadata _ _) = TaskType.CHECKIN"
| "metadata_task_type (ResearchMetadata _ _ _ _) = TaskType.RESEARCH"

subsection \<open>Nodes\<close>

record BaseNode =
  node_id :: string
  created_at :: py_datetime
  updated_at :: py_datetime
  version :: int
  archived_at :: "py_datetime option"
  archived_by :: "string option"
  archive_reason :: "string option"
  purge_after :: "py_datetime option"
  purge_cancelled_at :: "py_datetime option"
  legal_hold :: bool
  hold_reason :: "string option"
  hold_set_by :: "string option"
  hold_set_at :: "py_datetime option"
  link_status :: "string option"

record TaskNode = BaseNode +
  task_type :: TaskType
  title :: string
  description :: string
  created_by :: "string option"
  owned_by :: "string option"
  assigned_to :: "string option"
  state :: TaskState
  state_history :: "StateHistoryEntry list"
  timeline :: Timeline
  scoring :: ScoringBlock
  on_critical_path :: bool
  progress :: ProgressBlock
  override :: OverrideBlock
  update_log :: "UpdateLogEntry list"
  intelligence :: "string option"
  type_metadata :: "TypeMetadata option"
  embedding_inputs :: "EmbeddingInputs option"
  autonomy :: AutonomyBlock
  tags :: "string list"
  priority :: "string option"

text \<open>The class defaults of the blocks and the task a caller gets from the required fields.\<close>

definition default_Timeline :: Timeline where
  "default_Timeline = \<lparr>deadline = None, started_at = None, estimated_effort_hours = None,
     estimated_effort_days = None, actual_effort_days = None, completed_at = None\<rparr>"

definition default_ScoringBlock :: ScoringBlock where
  "default_ScoringBlock = \<lparr>sb_timeline_urgency = 0, sb_dependency_weight = 0,
     sb_critical_path = 0, sb_blocker = 0, sb_human_override = 0, sb_resource_risk = 0,
     sb_constraint_pressure = 0, W1_timeline_weight = 25 / 100,
     W2_dependencies_weight = 20 / 100, W3_critical_path_weight = 20 / 100,
     W4_blocker_weight = 15 / 100, W5_override_weight = 10 / 100,
     W6_resource_risk_weight = 5 / 100, W7_constraint_weight = 5 / 100,
     computed_priority = 0, chain_urgency_rollup = 0, last_scored_at = None,
     score_reasoning = None\<rparr>"

definition default_ProgressBlock :: ProgressBlock where
  "default_ProgressBlock = \<lparr>percentage = 0, confidence = ConfidenceLevel.MEDIUM,
     last_update = None, completion_signal = CompletionSignal.EXPLICIT\<rparr>"

definition default_OverrideBlock :: OverrideBlock where
  "default_OverrideBlock = \<lparr>is_overridden = False, override_type = None, override_note = None,
     set_by = None, set_at = None, expires_at = None\<rparr>"

definition default_AutonomyBlock :: AutonomyBlock where
  "default_AutonomyBlock = \<lparr>auto_update_allowed = False, auto_close_allowed = False,
     requires_approval_from = None, level = AutonomyLevel.SUGGEST\<rparr>"

definition new_TaskNode ::
  "string \<Rightarrow> py_datetime \<Rightarrow> TaskType \<Rightarrow> string \<Rightarrow> string \<Rightarrow> TaskNode" where
  "new_TaskNode i now tt ti de = \<lparr>node_id = i, created_at = now, updated_at = now, version = 0,
     archived_at = None, archived_by = None, archive_reason = None, purge_after = None,
     purge_cancelled_at = None, legal_hold = False, hold_reason = None, hold_set_by = None,
     hold_set_at = None, link_status = None, task_type = tt, title = ti, description = de,
     created_by = None, owned_by = None, assigned_to = None, state = TaskState.PENDING,
     state_history = [], timeline = default_Timeline, scoring = default_ScoringBlock,
     on_critical_path = False, progress = default_ProgressBlock,
     override = default_OverrideBlock, update_log = [], intelligence = None,
     type_metadata = None, embedding_inputs = None, autonomy = default_AutonomyBlock,
     tags = [], priority = None\<rparr>"

lemmas default_blocks = default_Timeline_def default_ScoringBlock_def
  default_ProgressBlock_def default_OverrideBlock_def default_AutonomyBlock_def

text \<open>A concrete task of each kind, for the closed instances of the theorems.\<close>

definition example_task :: "TaskType \<Rightarrow> TaskNode" where
  "example_task tt = new_TaskNode ''TSK-AB-1234-ATM'' (utc_dt 0) tt ''Ship'' ''Ship it''"

lemmas example_defs = example_task_def new_TaskNode_def default_blocks

subsection \<open>Validators that map legacy values\<close>

definition legacy_states :: "string pydict" where
  "legacy_states =
     [(''open'', ''PENDING''), (''in_progress'', ''IN_PROGRESS''), (''blocked'', ''BLOCKED''),
      (''complete'', ''COMPLETE''), (''cancelled'', ''CANCELLED''), (''snoozed'', ''SNOOZED''),
      (''active'', ''ACTIVE''), (''delayed'', ''DELAYED''), (''needs_review'', ''NEEDS_REVIEW''),
      (''inactive_pending'', ''INACTIVE_PENDING'')]"

definition normalise_state :: "string \<Rightarrow> string" where
  "normalise_state v = dict_get_default legacy_states v v"

definition starts_with :: "string \<Rightarrow> string \<Rightarrow> bool" where
  "starts_with p s \<longleftrightarrow> prefix p s"

definition normalise_changed_by :: "string \<Rightarrow> string" where
  "normalise_changed_by v =
     (if v \<notin> {''AGENT'', ''HUMAN'', ''SYSTEM'', ''CASCADE''}
      then (if starts_with ''USER-'' v then ''HUMAN'' else ''AGENT'')
      else v)"

text \<open>Reading the fields back: the enum call after the validator ran.\<close>

definition parse_state :: "string \<Rightarrow> TaskState option" where
  "parse_state v = enum_of_value TaskState_members TaskState_value (normalise_state v)"

definition parse_changed_by :: "string \<Rightarrow> ChangedBy option" where
  "parse_changed_by v = enum_of_value ChangedBy_members ChangedBy_value (normalise_changed_by v)"

lemma normalise_state_value [simp]: "normalise_state (TaskState_value s) = TaskState_value s"
  by (cases s) (simp_all add: normalise_state_def legacy_states_def dict_get_default_def dict_simps)

lemma parse_state_value [simp]: "parse_state (TaskState_value s) = Some s"
  by (simp add: parse_state_def task_state_enum.of_value_val)

lemma normalise_changed_by_value [simp]:
  "normalise_changed_by (ChangedBy_value c) = ChangedBy_value c"
  by (cases c) (simp_all add: normalise_changed_by_def)

lemma parse_changed_by_value [simp]: "parse_changed_by (ChangedBy_value c) = Some c"
  by (simp add: parse_changed_by_def changed_by_enum.of_value_val)

end
