(* ===== verification/GC_Ids.thy ===== *)
theory GC_Ids
  imports GC_Models
begin

section \<open>Identifiers (\<open>models/base.py\<close>)\<close>

text \<open>
  Generation and validation of node identifiers. The regular expressions are executable
  matchers on strings of code points below 256 (Isabelle's \<open>char\<close>): \<open>\w\<close> and \<open>\d\<close> are
  Python's Unicode classes restricted to that range, \<open>.upper()\<close> is on ASCII. As in Python,
  \<open>$\<close> also matches before one final newline. The random part of an identifier (a UUID4) is
  an argument.
\<close>

datatype id_error = ValueError string

definition newline :: char where "newline = CHR 0x0A"

definition is_upper :: "char \<Rightarrow> bool" where
  "is_upper c \<longleftrightarrow> (of_char c :: nat) \<in> {65..90}"

definition is_lower :: "char \<Rightarrow> bool" where
  "is_lower c \<longleftrightarrow> (of_char c :: nat) \<in> {97..122}"

definition is_digit :: "char \<Rightarrow> bool" where
  "is_digit c \<longleftrightarrow> (of_char c :: nat) \<in> {48..57}"

definition is_word :: "char \<Rightarrow> bool" where
  "is_word c \<longleftrightarrow> is_upper c \<or> is_lower c \<or> is_digit c \<or> c = CHR ''_'' \<or>
     (of_char c :: nat) \<in> {170, 178, 179, 181, 185, 186, 188, 189, 190} \<or>
     ((of_char c :: nat) \<in> {192..255} \<and> (of_char c :: nat) \<notin> {215, 247})"

text \<open>\<open>$\<close> in a Python pattern: the end of the string, or just before one final newline.\<close>

definition chomp :: "string \<Rightarrow> string" where
  "chomp s = (if s \<noteq> [] \<and> last s = newline then butlast s else s)"

definition TASK_TYPE_CODES :: "string list" where
  "TASK_TYPE_CODES = [''DEL'', ''ATM'', ''FLW'', ''CMP'', ''APR'', ''MIL'', ''RVW'', ''REC'',
     ''DEC'', ''CHK'', ''RES'']"

definition TASK_ID_PATTERN_match :: "string \<Rightarrow> bool" where
  "TASK_ID_PATTERN_match v \<longleftrightarrow> take 4 v = ''TSK-'' \<and>
     (let ini = takeWhile is_upper (drop 4 v); r = dropWhile is_upper (drop 4 v)
      in 2 \<le> length ini \<and> take 1 r = ''-'' \<and>
         (let ds = takeWhile is_digit (drop 1 r); q = dropWhile is_digit (drop 1 r)
          in 4 \<le> length ds \<and> take 1 q = ''-'' \<and> chomp (drop 1 q) \<in> set TASK_TYPE_CODES))"

text \<open>The other patterns are all \<open>^PREFIX-[\w-]+$\<close>.\<close>

definition ID_PATTERN_match :: "string \<Rightarrow> string \<Rightarrow> bool" where
  "ID_PATTERN_match pre v \<longleftrightarrow> prefix (pre @ ''-'') v \<and>
     (let r = chomp (drop (length pre + 1) v)
      in r \<noteq> [] \<and> list_all (\<lambda>c. is_word c \<or> c = CHR ''-'') r)"

definition validate_id :: "string \<Rightarrow> string \<Rightarrow> string \<Rightarrow> id_error + string" where
  "validate_id v pre entity_name =
     (if \<not> ID_PATTERN_match pre v
      then Inl (ValueError (''Invalid '' @ entity_name @ '' ID '' @ [CHR 0x27] @ v @ [CHR 0x27] @
             ''. Expected format: '' @ pre @ ''-<identifier>''))
      else Inr v)"

definition validate_task_id :: "string \<Rightarrow> id_error + string" where
  "validate_task_id v =
     (if \<not> TASK_ID_PATTERN_match v
      then Inl (ValueError (''Invalid task ID '' @ [CHR 0x27] @ v @ [CHR 0x27] @
             ''. Expected format: TSK-<INITIALS>-<SEQ>-<TYPE_CODE>''))
      else Inr v)"

definition validate_user_id :: "string \<Rightarrow> id_error + string" where
  "validate_user_id v = validate_id v ''USER'' ''user''"

definition validate_goal_id :: "string \<Rightarrow> id_error + string" where
  "validate_goal_id v = validate_id v ''GOAL'' ''goal''"

definition validate_constraint_id :: "string \<Rightarrow> id_error + string" where
  "validate_constraint_id v = validate_id v ''CON'' ''constraint''"

definition validate_resource_id :: "string \<Rightarrow> id_error + string" where
  "validate_resource_id v = validate_id v ''RES'' ''resource''"

definition validate_edge_id :: "string \<Rightarrow> id_error + string" where
  "validate_edge_id v = validate_id v ''EDGE'' ''edge''"

definition validate_org_id :: "string \<Rightarrow> id_error + string" where
  "validate_org_id v = validate_id v ''ORG'' ''organization''"

definition validate_workspace_id :: "string \<Rightarrow> id_error + string" where
  "validate_workspace_id v = validate_id v ''WS'' ''workspace''"

definition validate_handoff_id :: "string \<Rightarrow> id_error + string" where
  "validate_handoff_id v = validate_id v ''HND'' ''handoff''"

definition generate_id :: "string \<Rightarrow> string \<Rightarrow> string" where
  "generate_id pre uuid = pre @ ''-'' @ uuid"

definition generate_user_id :: "string \<Rightarrow> string" where
  "generate_user_id uuid = generate_id ''USER'' uuid"

definition generate_goal_id :: "string \<Rightarrow> string" where
  "generate_goal_id uuid = generate_id ''GOAL'' uuid"

definition generate_constraint_id :: "string \<Rightarrow> string" where
  "generate_constraint_id uuid = generate_id ''CON'' uuid"

definition generate_resource_id :: "string \<Rightarrow> string" where
  "generate_resource_id uuid = generate_id ''RES'' uuid"

definition generate_edge_id :: "string \<Rightarrow> string" where
  "generate_edge_id uuid = generate_id ''EDGE'' uuid"

definition generate_handoff_node_id :: "string \<Rightarrow> string" where
  "generate_handoff_node_id uuid = generate_id ''HND'' uuid"

definition generate_org_id :: "string \<Rightarrow> string" where
  "generate_org_id uuid = generate_id ''ORG'' uuid"

definition generate_workspace_id :: "string \<Rightarrow> string" where
  "generate_workspace_id uuid = generate_id ''WS'' uuid"

lemmas id_validators = validate_user_id_def validate_goal_id_def validate_constraint_id_def
  validate_resource_id_def validate_edge_id_def validate_org_id_def validate_workspace_id_def
  validate_handoff_id_def

lemmas id_generators = generate_user_id_def generate_goal_id_def generate_constraint_id_def
  generate_resource_id_def generate_edge_id_def generate_org_id_def generate_workspace_id_def
  generate_handoff_node_id_def generate_id_def

subsection \<open>Task identifiers\<close>

fun TASK_TYPE_CODE :: "TaskType \<Rightarrow> string" where
  "TASK_TYPE_CODE TaskType.DELEGATED = ''DEL''"
| "TASK_TYPE_CODE TaskType.ATOMIC = ''ATM''"
| "TASK_TYPE_CODE TaskType.FOLLOWUP = ''FLW''"
| "TASK_TYPE_CODE TaskType.COMPOSITE = ''CMP''"
| "TASK_TYPE_CODE TaskType.APPROVAL = ''APR''"
| "TASK_TYPE_CODE TaskType.MILESTONE = ''MIL''"
| "TASK_TYPE_CODE TaskType.REVIEW = ''RVW''"
| "TASK_TYPE_CODE TaskType.RECURRING = ''REC''"
| "TASK_TYPE_CODE TaskType.DECISION = ''DEC''"
| "TASK_TYPE_CODE TaskType.CHECKIN = ''CHK''"
| "TASK_TYPE_CODE TaskType.RESEARCH = ''RES''"

text \<open>\<open>str(n)\<close> of a natural number, and \<open>.zfill(4)\<close>.\<close>

fun dec_string :: "nat \<Rightarrow> string" where
  "dec_string n = (if n < 10 then [char_of (48 + n)]
                   else dec_string (n div 10) @ [char_of (48 + n mod 10)])"

definition zfill :: "nat \<Rightarrow> string \<Rightarrow> string" where
  "zfill w s = replicate (w - length s) (CHR ''0'') @ s"

text \<open>\<open>n\<close> is the number the first four hex digits of the UUID denote.\<close>

definition sequence_number :: "nat \<Rightarrow> string" where
  "sequence_number n = zfill 4 (dec_string n)"

definition to_upper :: "char \<Rightarrow> char" where
  "to_upper c = (if is_lower c then char_of ((of_char c :: nat) - 32) else c)"

definition generate_task_id :: "nat \<Rightarrow> string \<Rightarrow> TaskType \<Rightarrow> string" where
  "generate_task_id n user_initials tt =
     (let initials = map to_upper user_initials; seq = sequence_number n; code = TASK_TYPE_CODE tt
      in ''TSK-'' @ initials @ ''-'' @ seq @ ''-'' @ code)"

declare dec_string.simps [simp del]

subsection \<open>Lemmas\<close>

lemma char_facts [simp]:
  "\<not> is_upper (CHR ''-'')" "\<not> is_digit (CHR ''-'')" "\<not> is_upper newline" "\<not> is_word newline"
  "newline \<noteq> CHR ''-''" "is_digit (CHR ''0'')"
  by (simp_all add: is_upper_def is_digit_def is_word_def is_lower_def newline_def)

lemma dec_string_digits: "list_all is_digit (dec_string n)"
proof (induction n rule: dec_string.induct)
  case (1 n)
  have "is_digit (char_of (48 + m))" if "m < 10" for m :: nat
    using that by (simp add: is_digit_def)
  with 1 show ?case
    by (subst dec_string.simps) auto
qed

lemma sequence_number_digits:
  "list_all is_digit (sequence_number n)" "4 \<le> length (sequence_number n)"
proof -
  show "list_all is_digit (sequence_number n)"
    using dec_string_digits [of n] by (auto simp: sequence_number_def zfill_def list_all_iff)
  show "4 \<le> length (sequence_number n)"
    by (simp add: sequence_number_def zfill_def)
qed

lemma chomp_cases: "s = chomp s \<or> s = chomp s @ [newline]"
  by (metis append_butlast_last_id chomp_def)

lemma chomp_id: "newline \<notin> set s \<Longrightarrow> chomp s = s"
  by (metis chomp_def last_in_set)

lemma TASK_TYPE_CODE_mem: "TASK_TYPE_CODE tt \<in> set TASK_TYPE_CODES"
  by (cases tt) (simp_all add: TASK_TYPE_CODES_def)

lemma task_code_chars: "c \<in> set TASK_TYPE_CODES \<Longrightarrow> CHR ''-'' \<notin> set c \<and> newline \<notin> set c"
  by (auto simp: TASK_TYPE_CODES_def newline_def)

text \<open>The regular expression read declaratively.\<close>

lemma TASK_ID_PATTERN_match_iff:
  "TASK_ID_PATTERN_match v \<longleftrightarrow>
     (\<exists>a d c. v = ''TSK-'' @ a @ ''-'' @ d @ ''-'' @ c \<and> list_all is_upper a \<and> 2 \<le> length a \<and>
        list_all is_digit d \<and> 4 \<le> length d \<and> chomp c \<in> set TASK_TYPE_CODES)"
  (is "?L \<longleftrightarrow> ?R")
proof
  assume L: ?L
  define a where "a = takeWhile is_upper (drop 4 v)"
  define r where "r = dropWhile is_upper (drop 4 v)"
  define d where "d = takeWhile is_digit (drop 1 r)"
  define q where "q = dropWhile is_digit (drop 1 r)"
  have v: "v = ''TSK-'' @ a @ r"
    using L append_take_drop_id [of 4 v]
    by (simp add: TASK_ID_PATTERN_match_def a_def r_def)
  have r: "r = ''-'' @ d @ q"
    using L append_take_drop_id [of 1 r]
    by (simp add: TASK_ID_PATTERN_match_def Let_def r_def [symmetric] d_def q_def)
  have q: "q = ''-'' @ drop 1 q"
    using L append_take_drop_id [of 1 q]
    by (metis TASK_ID_PATTERN_match_def q_def r_def)
  have "list_all is_upper a" "list_all is_digit d"
    by (auto simp: a_def d_def list_all_iff dest: set_takeWhileD)
  moreover have "2 \<le> length a" "4 \<le> length d" "chomp (drop 1 q) \<in> set TASK_TYPE_CODES"
    using L by (simp_all add: TASK_ID_PATTERN_match_def Let_def a_def d_def q_def r_def)
  moreover have "v = ''TSK-'' @ a @ ''-'' @ d @ ''-'' @ drop 1 q"
    using v r q by metis
  ultimately show ?R by blast
next
  assume ?R
  then obtain a d c where v: "v = ''TSK-'' @ a @ ''-'' @ d @ ''-'' @ c"
    and a: "list_all is_upper a" "2 \<le> length a" and d: "list_all is_digit d" "4 \<le> length d"
    and c: "chomp c \<in> set TASK_TYPE_CODES" by blast
  have "\<And>xs. takeWhile is_upper (a @ CHR ''-'' # xs) = a"
    "\<And>xs. dropWhile is_upper (a @ CHR ''-'' # xs) = CHR ''-'' # xs"
    using a(1) by (simp_all add: list_all_iff takeWhile_append dropWhile_append)
  moreover have "\<And>xs. takeWhile is_digit (d @ CHR ''-'' # xs) = d"
    "\<And>xs. dropWhile is_digit (d @ CHR ''-'' # xs) = CHR ''-'' # xs"
    using d(1) by (simp_all add: list_all_iff takeWhile_append dropWhile_append)
  ultimately show ?L using a(2) d(2) c by (simp add: TASK_ID_PATTERN_match_def v)
qed

lemma ID_PATTERN_match_iff:
  "ID_PATTERN_match pre v \<longleftrightarrow>
     (\<exists>c. v = pre @ ''-'' @ c \<and> chomp c \<noteq> [] \<and>
          list_all (\<lambda>c. is_word c \<or> c = CHR ''-'') (chomp c))"
  by (auto simp: ID_PATTERN_match_def prefix_def Let_def)

lemma validate_task_id_Inr_iff [guard_simps]:
  "validate_task_id v = Inr w \<longleftrightarrow> TASK_ID_PATTERN_match v \<and> w = v"
  by (auto simp: validate_task_id_def)

lemma validate_id_Inr_iff [guard_simps]:
  "validate_id v pre e = Inr w \<longleftrightarrow> ID_PATTERN_match pre v \<and> w = v"
  by (auto simp: validate_id_def)

definition ascii :: "string \<Rightarrow> bool" where
  "ascii s \<longleftrightarrow> list_all (\<lambda>c. (of_char c :: nat) < 128) s"

definition is_letter :: "char \<Rightarrow> bool" where
  "is_letter c \<longleftrightarrow> is_upper c \<or> is_lower c"

lemma to_upper_is_upper: "is_upper (to_upper c) \<longleftrightarrow> is_letter c"
  by (auto simp: to_upper_def is_letter_def is_upper_def is_lower_def)

lemma to_upper_dash: "to_upper c = CHR ''-'' \<longleftrightarrow> c = CHR ''-''"
proof (cases "is_lower c")
  case True
  then have "is_upper (to_upper c)" by (simp add: to_upper_is_upper is_letter_def)
  then show ?thesis using True by (auto simp: is_lower_def)
next
  case False
  then show ?thesis by (simp add: to_upper_def)
qed

lemma split_at_dash:
  assumes "a @ CHR ''-'' # xs = b @ CHR ''-'' # ys"
    and "CHR ''-'' \<notin> set a" "CHR ''-'' \<notin> set b"
  shows "a = b \<and> xs = ys"
  using assms
proof (induction a arbitrary: b)
  case Nil
  then show ?case by (cases b) auto
next
  case (Cons x a)
  then show ?case by (cases b) auto
qed

lemma count_dash_list_all:
  "list_all P s \<Longrightarrow> \<not> P (CHR ''-'') \<Longrightarrow> count_list s (CHR ''-'') = 0"
  by (auto simp: list_all_iff)

text \<open>\<open>generate_task_id\<close> promises an identifier that matches \<open>TASK_ID_PATTERN\<close>. It
keeps the promise exactly for initials of at least two letters, whatever the UUID was; the
function itself checks neither.\<close>

theorem generate_task_id_valid_iff:
  "validate_task_id (generate_task_id n initials tt) = Inr (generate_task_id n initials tt) \<longleftrightarrow>
     2 \<le> length initials \<and> list_all is_letter initials"
proof -
  let ?v = "generate_task_id n initials tt" and ?up = "map to_upper initials"
  have v: "?v = ''TSK-'' @ ?up @ ''-'' @ sequence_number n @ ''-'' @ TASK_TYPE_CODE tt"
    by (simp add: generate_task_id_def)
  have code: "chomp (TASK_TYPE_CODE tt) \<in> set TASK_TYPE_CODES"
    using TASK_TYPE_CODE_mem task_code_chars by (simp add: chomp_id)
  have up_iff: "list_all is_upper ?up \<longleftrightarrow> list_all is_letter initials"
    by (simp add: list_all_iff to_upper_is_upper)
  have "TASK_ID_PATTERN_match ?v \<longleftrightarrow> 2 \<le> length initials \<and> list_all is_letter initials"
  proof
    assume "TASK_ID_PATTERN_match ?v"
    then obtain a d c where w: "?v = ''TSK-'' @ a @ ''-'' @ d @ ''-'' @ c"
      and a: "list_all is_upper a" "2 \<le> length a" and d: "list_all is_digit d"
      and c: "chomp c \<in> set TASK_TYPE_CODES" unfolding TASK_ID_PATTERN_match_iff by blast
    have "CHR ''-'' \<notin> set c" using task_code_chars [OF c] chomp_cases [of c]
      by (metis Un_iff char_facts(5) set_append set_ConsD empty_iff empty_set)
    then have "count_list ?v (CHR ''-'') = 3"
      unfolding w using count_dash_list_all [OF a(1)] count_dash_list_all [OF d] by simp
    moreover have "count_list ?v (CHR ''-'') = 3 + count_list ?up (CHR ''-'')"
      unfolding v using count_dash_list_all [OF sequence_number_digits(1), of n]
        task_code_chars [OF TASK_TYPE_CODE_mem, of tt] by simp
    ultimately have "CHR ''-'' \<notin> set ?up" by (simp add: count_list_0_iff)
    moreover have "CHR ''-'' \<notin> set a" using a(1) by (auto simp: list_all_iff)
    ultimately have "?up = a"
      using split_at_dash [of ?up _ a] w v by fastforce
    then show "2 \<le> length initials \<and> list_all is_letter initials"
      using a up_iff by auto
  next
    assume "2 \<le> length initials \<and> list_all is_letter initials"
    then show "TASK_ID_PATTERN_match ?v"
      unfolding TASK_ID_PATTERN_match_iff using v up_iff sequence_number_digits code
      by (metis length_map)
  qed
  then show ?thesis by (simp add: guard_simps)
qed

text \<open>A UUID4 prints as hexadecimal digits and dashes, never empty.\<close>

definition uuid_text :: "string \<Rightarrow> bool" where
  "uuid_text u \<longleftrightarrow> u \<noteq> [] \<and> list_all (\<lambda>c. is_digit c \<or> is_lower c \<or> c = CHR ''-'') u"

lemma uuid_text_chomp: "uuid_text u \<Longrightarrow> chomp u = u"
  by (rule chomp_id) (auto simp: uuid_text_def list_all_iff newline_def is_digit_def is_lower_def)

lemma generated_id_matches: "uuid_text u \<Longrightarrow> ID_PATTERN_match pre (generate_id pre u)"
  unfolding ID_PATTERN_match_iff generate_id_def
  by (rule exI [of _ u]) (auto simp: uuid_text_chomp, auto simp: uuid_text_def is_word_def list_all_iff)

end
