(* ===== verification/GC_StateMachine.thy ===== *)
theory GC_StateMachine
  imports GC_Models
begin

section \<open>The task state machine (\<open>state/transitions.py\<close>, \<open>state/machine.py\<close>)\<close>

text \<open>
  \<open>StateMachine.transition\<close> with its table and its guards in the order of the code. A
  rejection is the value \<open>Inl (InvalidTransitionError from to guard)\<close>; the guard is the name
  the code logs with the rejection, and stands for the reason text built from it. The two
  calls of \<open>utcnow()\<close> are the arguments \<open>t1\<close> (timeline stamps) and \<open>t2\<close> (history entry).
  The code mutates the task in place after every check has passed, so the rejected task is
  the unchanged argument.
\<close>

subsection \<open>The transition table\<close>

fun VALID_TRANSITIONS :: "TaskState \<Rightarrow> TaskState list" where
  "VALID_TRANSITIONS TaskState.PENDING =
     [TaskState.ACTIVE, TaskState.CANCELLED, TaskState.SNOOZED, TaskState.INACTIVE_PENDING]"
| "VALID_TRANSITIONS TaskState.ACTIVE =
     [TaskState.IN_PROGRESS, TaskState.COMPLETE, TaskState.BLOCKED, TaskState.DELAYED,
      TaskState.NEEDS_REVIEW, TaskState.CANCELLED, TaskState.SNOOZED]"
| "VALID_TRANSITIONS TaskState.IN_PROGRESS =
     [TaskState.COMPLETE, TaskState.BLOCKED, TaskState.DELAYED, TaskState.NEEDS_REVIEW,
      TaskState.CANCELLED]"
| "VALID_TRANSITIONS TaskState.BLOCKED = [TaskState.ACTIVE]"
| "VALID_TRANSITIONS TaskState.DELAYED = [TaskState.IN_PROGRESS]"
| "VALID_TRANSITIONS TaskState.NEEDS_REVIEW = [TaskState.IN_PROGRESS, TaskState.COMPLETE]"
| "VALID_TRANSITIONS TaskState.SNOOZED = [TaskState.ACTIVE]"
| "VALID_TRANSITIONS TaskState.INACTIVE_PENDING = [TaskState.ACTIVE]"
| "VALID_TRANSITIONS TaskState.COMPLETE = []"
| "VALID_TRANSITIONS TaskState.CANCELLED = []"

datatype guard_name = wave0_no_delete | transition_table | terminal_cancelled
  | terminal_complete_low_conf | terminal_complete | approval_auto_resolve
  | inactive_pending_activation | blocked_activation | autonomy_guard

datatype transition_error = InvalidTransitionError TaskState TaskState guard_name

subsection \<open>The checks\<close>

definition check_transition_table ::
  "TaskState \<Rightarrow> TaskState \<Rightarrow> transition_error + unit" where
  "check_transition_table from_st new_st =
     (if TaskState_value new_st \<in> {''DELETED'', ''PURGED''}
      then Inl (InvalidTransitionError from_st new_st wave0_no_delete)
      else let allowed = VALID_TRANSITIONS from_st
           in if from_st = TaskState.COMPLETE \<and> new_st = TaskState.NEEDS_REVIEW then Inr ()
              else if new_st \<notin> set allowed
              then Inl (InvalidTransitionError from_st new_st transition_table)
              else Inr ())"

definition guard_terminal_cancelled ::
  "TaskState \<Rightarrow> TaskState \<Rightarrow> transition_error + unit" where
  "guard_terminal_cancelled from_st new_st =
     (if from_st = TaskState.CANCELLED
      then Inl (InvalidTransitionError from_st new_st terminal_cancelled) else Inr ())"

definition guard_terminal_complete ::
  "TaskNode \<Rightarrow> TaskState \<Rightarrow> TaskState \<Rightarrow> transition_error + unit" where
  "guard_terminal_complete task from_st new_st =
     (if from_st \<noteq> TaskState.COMPLETE then Inr ()
      else if new_st = TaskState.NEEDS_REVIEW
      then (if confidence (progress task) = ConfidenceLevel.LOW then Inr ()
            else Inl (InvalidTransitionError from_st new_st terminal_complete_low_conf))
      else Inl (InvalidTransitionError from_st new_st terminal_complete))"

definition guard_approval_auto_resolve ::
  "TaskNode \<Rightarrow> TaskState \<Rightarrow> ChangedBy \<Rightarrow> transition_error + unit" where
  "guard_approval_auto_resolve task new_st cb =
     (if task_type task \<noteq> TaskType.APPROVAL then Inr ()
      else if new_st = TaskState.COMPLETE \<and> cb \<noteq> ChangedBy.HUMAN
      then Inl (InvalidTransitionError (state task) new_st approval_auto_resolve) else Inr ())"

definition guard_inactive_pending_activation ::
  "TaskState \<Rightarrow> TaskState \<Rightarrow> ChangedBy \<Rightarrow> transition_error + unit" where
  "guard_inactive_pending_activation from_st new_st cb =
     (if from_st \<noteq> TaskState.INACTIVE_PENDING \<or> new_st \<noteq> TaskState.ACTIVE then Inr ()
      else if cb \<notin> {ChangedBy.CASCADE, ChangedBy.HUMAN, ChangedBy.SYSTEM}
      then Inl (InvalidTransitionError from_st new_st inactive_pending_activation) else Inr ())"

definition guard_blocked_activation ::
  "TaskState \<Rightarrow> TaskState \<Rightarrow> ChangedBy \<Rightarrow> transition_error + unit" where
  "guard_blocked_activation from_st new_st cb =
     (if from_st \<noteq> TaskState.BLOCKED \<or> new_st \<noteq> TaskState.ACTIVE then Inr ()
      else if cb \<notin> {ChangedBy.CASCADE, ChangedBy.HUMAN, ChangedBy.SYSTEM}
      then Inl (InvalidTransitionError from_st new_st blocked_activation) else Inr ())"

definition guard_autonomy ::
  "TaskNode \<Rightarrow> TaskState \<Rightarrow> ChangedBy \<Rightarrow> transition_error + unit" where
  "guard_autonomy task new_st cb =
     (if cb \<noteq> ChangedBy.AGENT then Inr ()
      else if \<not> auto_update_allowed (autonomy task)
      then Inl (InvalidTransitionError (state task) new_st autonomy_guard) else Inr ())"

subsection \<open>The transition\<close>

definition stamp_timeline :: "py_datetime \<Rightarrow> TaskState \<Rightarrow> Timeline \<Rightarrow> Timeline" where
  "stamp_timeline now new_st tm =
     (let tm1 = (if new_st = TaskState.IN_PROGRESS \<and> started_at tm = None
                 then tm\<lparr>started_at := Some now\<rparr> else tm)
      in if new_st = TaskState.COMPLETE then tm1\<lparr>completed_at := Some now\<rparr> else tm1)"

definition history_entry ::
  "TaskState \<Rightarrow> TaskState \<Rightarrow> py_datetime \<Rightarrow> ChangedBy \<Rightarrow> string \<Rightarrow> StateHistoryEntry" where
  "history_entry from_st new_st now cb rsn =
     \<lparr>from_state = from_st, to_state = new_st, changed_at = now, changed_by = cb,
      reason = (if rsn = [] then None else Some rsn)\<rparr>"

definition transition ::
  "py_datetime \<Rightarrow> py_datetime \<Rightarrow> TaskNode \<Rightarrow> TaskState \<Rightarrow> ChangedBy \<Rightarrow> string
     \<Rightarrow> transition_error + TaskNode" where
  "transition t1 t2 task new_st cb rsn =
     (let from_st = state task
      in bindE (check_transition_table from_st new_st) (\<lambda>_.
         bindE (guard_terminal_cancelled from_st new_st) (\<lambda>_.
         bindE (guard_terminal_complete task from_st new_st) (\<lambda>_.
         bindE (guard_approval_auto_resolve task new_st cb) (\<lambda>_.
         bindE (guard_inactive_pending_activation from_st new_st cb) (\<lambda>_.
         bindE (guard_blocked_activation from_st new_st cb) (\<lambda>_.
         bindE (guard_autonomy task new_st cb) (\<lambda>_.
           Inr (task\<lparr>state := new_st,
                     timeline := stamp_timeline t1 new_st (timeline task),
                     state_history := state_history task @
                       [history_entry from_st new_st t2 cb rsn]\<rparr>)))))))))"

subsection \<open>When a request passes\<close>

text \<open>The contract of the state machine, independent of the order of its guards.\<close>

definition permitted :: "TaskNode \<Rightarrow> TaskState \<Rightarrow> ChangedBy \<Rightarrow> bool" where
  "permitted task new_st cb \<longleftrightarrow>
     (new_st \<in> set (VALID_TRANSITIONS (state task)) \<or>
      (state task = TaskState.COMPLETE \<and> new_st = TaskState.NEEDS_REVIEW \<and>
       confidence (progress task) = ConfidenceLevel.LOW)) \<and>
     (task_type task = TaskType.APPROVAL \<and> new_st = TaskState.COMPLETE \<longrightarrow> cb = ChangedBy.HUMAN) \<and>
     (cb = ChangedBy.AGENT \<longrightarrow> auto_update_allowed (autonomy task) \<and>
        \<not> (new_st = TaskState.ACTIVE \<and>
           state task \<in> {TaskState.BLOCKED, TaskState.INACTIVE_PENDING}))"

lemma check_transition_table_ok [guard_simps]:
  "check_transition_table a b = Inr u \<longleftrightarrow>
     b \<in> set (VALID_TRANSITIONS a) \<or> (a = TaskState.COMPLETE \<and> b = TaskState.NEEDS_REVIEW)"
  by (cases b) (auto simp: check_transition_table_def Let_def)

lemma guard_terminal_cancelled_ok [guard_simps]:
  "guard_terminal_cancelled a b = Inr u \<longleftrightarrow> a \<noteq> TaskState.CANCELLED"
  by (simp add: guard_terminal_cancelled_def)

lemma guard_terminal_complete_ok [guard_simps]:
  "guard_terminal_complete t a b = Inr u \<longleftrightarrow>
     (a = TaskState.COMPLETE \<longrightarrow> b = TaskState.NEEDS_REVIEW \<and>
        confidence (progress t) = ConfidenceLevel.LOW)"
  by (simp add: guard_terminal_complete_def)

lemma guard_approval_ok [guard_simps]:
  "guard_approval_auto_resolve t b c = Inr u \<longleftrightarrow>
     (task_type t = TaskType.APPROVAL \<and> b = TaskState.COMPLETE \<longrightarrow> c = ChangedBy.HUMAN)"
  by (simp add: guard_approval_auto_resolve_def)

lemma guard_inactive_ok [guard_simps]:
  "guard_inactive_pending_activation a b c = Inr u \<longleftrightarrow>
     (a = TaskState.INACTIVE_PENDING \<and> b = TaskState.ACTIVE \<longrightarrow> c \<noteq> ChangedBy.AGENT)"
  by (cases c) (auto simp: guard_inactive_pending_activation_def)

lemma guard_blocked_ok [guard_simps]:
  "guard_blocked_activation a b c = Inr u \<longleftrightarrow>
     (a = TaskState.BLOCKED \<and> b = TaskState.ACTIVE \<longrightarrow> c \<noteq> ChangedBy.AGENT)"
  by (cases c) (auto simp: guard_blocked_activation_def)

lemma guard_autonomy_ok [guard_simps]:
  "guard_autonomy t b c = Inr u \<longleftrightarrow>
     (c = ChangedBy.AGENT \<longrightarrow> auto_update_allowed (autonomy t))"
  by (simp add: guard_autonomy_def)

lemma transition_Inr_iff:
  "transition t1 t2 t s c r = Inr t' \<longleftrightarrow>
     permitted t s c \<and>
     t' = t\<lparr>state := s, timeline := stamp_timeline t1 s (timeline t),
            state_history := state_history t @ [history_entry (state t) s t2 c r]\<rparr>"
  by (cases "state t")
    (auto simp: transition_def Let_def bindE_Inr_iff guard_simps permitted_def)

lemma transition_permittedD: "transition t1 t2 t s c r = Inr t' \<Longrightarrow> permitted t s c"
  by (simp add: transition_Inr_iff)

lemma transition_state: "transition t1 t2 t s c r = Inr t' \<Longrightarrow> state t' = s"
  by (simp add: transition_Inr_iff)

lemma transition_frame [frame_simps]:
  assumes "transition t1 t2 t s c r = Inr t'"
  shows "node_id t' = node_id t" "task_type t' = task_type t" "progress t' = progress t"
    "autonomy t' = autonomy t" "type_metadata t' = type_metadata t" "title t' = title t"
    "created_by t' = created_by t" "override t' = override t" "scoring t' = scoring t"
  using assms by (simp_all add: transition_Inr_iff)

lemma transition_cases:
  obtains (ok) t' where "transition t1 t2 t s c r = Inr t'" "permitted t s c"
  | (rejected) g where "transition t1 t2 t s c r = Inl (InvalidTransitionError (state t) s g)"
      "\<not> permitted t s c"
proof (cases "transition t1 t2 t s c r")
  case (Inr t')
  then show ?thesis using ok transition_permittedD by blast
next
  case (Inl e)
  then have "\<exists>g. e = InvalidTransitionError (state t) s g"
    by (auto simp: transition_def Let_def bindE_Inl_iff check_transition_table_def
        guard_terminal_cancelled_def guard_terminal_complete_def guard_approval_auto_resolve_def
        guard_inactive_pending_activation_def guard_blocked_activation_def guard_autonomy_def
        split: if_splits)
  then obtain g where "e = InvalidTransitionError (state t) s g" by blast
  moreover have "\<not> permitted t s c"
    using Inl transition_Inr_iff [of t1 t2 t s c r] by (metis Inl_Inr_False)
  ultimately show ?thesis using rejected Inl by blast
qed

end
