(* ===== verification/GC_Lifecycle.thy ===== *)
theory GC_Lifecycle
  imports GC_StateMachine
begin

section \<open>The life of a task\<close>

text \<open>
  The state machine as a step relation, the tasks it can reach, and what holds of them. A
  step is a successful \<open>transition\<close> by any actor at any time; between steps the rest of the
  program may rewrite every field it owns (confidence, autonomy, metadata, timeline, ...), as
  long as it leaves the state, the history and the task type to the state machine.
\<close>

subsection \<open>Steps and reachable tasks\<close>

inductive sm_step :: "TaskNode \<Rightarrow> TaskNode \<Rightarrow> bool" where
  request: "transition t1 t2 t s c r = Inr t' \<Longrightarrow> sm_step t t'"
| edit: "state t' = state t \<Longrightarrow> state_history t' = state_history t \<Longrightarrow>
    task_type t' = task_type t \<Longrightarrow> sm_step t t'"

inductive reachable :: "TaskNode \<Rightarrow> bool" where
  fresh: "state t = TaskState.PENDING \<Longrightarrow> state_history t = [] \<Longrightarrow> reachable t"
| step: "reachable t \<Longrightarrow> sm_step t t' \<Longrightarrow> reachable t'"

inductive_cases sm_stepE: "sm_step t t'"

lemma sm_step_cases_perm:
  assumes "sm_step t t'"
  obtains (request) t1 t2 s c r where "permitted t s c"
      "t' = t\<lparr>state := s, timeline := stamp_timeline t1 s (timeline t),
            state_history := state_history t @ [history_entry (state t) s t2 c r]\<rparr>"
    | (edit) "state t' = state t" "state_history t' = state_history t" "task_type t' = task_type t"
  using assms
proof cases
  case (request t1 t2 s c r)
  then show ?thesis using that(1) unfolding transition_Inr_iff by blast
next
  case edit
  then show ?thesis using that(2) by simp
qed

text \<open>
  What an invariant has to offer: it holds of fresh tasks, a permitted transition keeps it,
  and it depends only on the fields the state machine owns. It then holds of every reachable
  task, and along every run from a task that has it.
\<close>

locale lifecycle_invariant =
  fixes inv :: "TaskNode \<Rightarrow> bool"
  assumes fresh_inv: "state t = TaskState.PENDING \<Longrightarrow> state_history t = [] \<Longrightarrow> inv t"
    and request_inv: "inv t \<Longrightarrow> permitted t s c \<Longrightarrow>
      state t' = s \<Longrightarrow> task_type t' = task_type t \<Longrightarrow>
      state_history t' = state_history t @ [history_entry (state t) s t2 c r] \<Longrightarrow> inv t'"
    and edit_inv: "inv t \<Longrightarrow> state t' = state t \<Longrightarrow> state_history t' = state_history t \<Longrightarrow>
      task_type t' = task_type t \<Longrightarrow> inv t'"
begin

lemma step_inv: "inv t \<Longrightarrow> sm_step t t' \<Longrightarrow> inv t'"
  by (erule sm_step_cases_perm) (auto intro: request_inv edit_inv)

lemma reachable_inv: "reachable t \<Longrightarrow> inv t"
  by (induction rule: reachable.induct) (auto intro: fresh_inv step_inv)

lemma run_inv: "sm_step\<^sup>*\<^sup>* t t' \<Longrightarrow> inv t \<Longrightarrow> inv t'"
  by (induction rule: rtranclp_induct) (auto intro: step_inv)

end

subsection \<open>Invariants of the history\<close>

text \<open>The history is a chain of legal moves from PENDING to the current state.\<close>

fun history_chain :: "TaskState \<Rightarrow> StateHistoryEntry list \<Rightarrow> TaskState \<Rightarrow> bool" where
  "history_chain a [] b \<longleftrightarrow> a = b"
| "history_chain a (e # es) b \<longleftrightarrow> from_state e = a \<and> history_chain (to_state e) es b"

definition legal_move :: "TaskState \<Rightarrow> TaskState \<Rightarrow> bool" where
  "legal_move a b \<longleftrightarrow> b \<in> set (VALID_TRANSITIONS a) \<or>
     (a = TaskState.COMPLETE \<and> b = TaskState.NEEDS_REVIEW)"

definition audit_ok :: "TaskNode \<Rightarrow> bool" where
  "audit_ok t \<longleftrightarrow> history_chain TaskState.PENDING (state_history t) (state t) \<and>
     (\<forall>e \<in> set (state_history t). legal_move (from_state e) (to_state e))"

text \<open>Completing entries of an approval task name a human.\<close>

definition approval_by_human :: "TaskNode \<Rightarrow> bool" where
  "approval_by_human t \<longleftrightarrow> (task_type t = TaskType.APPROVAL \<longrightarrow>
     (\<forall>e \<in> set (state_history t). to_state e = TaskState.COMPLETE \<longrightarrow>
        changed_by e = ChangedBy.HUMAN))"

text \<open>No entry leaves CANCELLED, and an entry that leaves COMPLETE reopens for review.\<close>

definition terminal_respected :: "TaskNode \<Rightarrow> bool" where
  "terminal_respected t \<longleftrightarrow> (\<forall>e \<in> set (state_history t).
     from_state e \<noteq> TaskState.CANCELLED \<and>
     (from_state e = TaskState.COMPLETE \<longrightarrow> to_state e = TaskState.NEEDS_REVIEW))"

lemma history_chain_append:
  "history_chain a (es @ [e]) b \<longleftrightarrow> history_chain a es (from_state e) \<and> to_state e = b"
  by (induction es arbitrary: a) auto

lemma history_entry_simps [simp]:
  "from_state (history_entry a b n c r) = a" "to_state (history_entry a b n c r) = b"
  "changed_by (history_entry a b n c r) = c"
  by (simp_all add: history_entry_def)

lemma permitted_legal_move: "permitted t s c \<Longrightarrow> legal_move (state t) s"
  by (auto simp: permitted_def legal_move_def)

lemma legal_move_CANCELLED: "\<not> legal_move TaskState.CANCELLED b"
  by (simp add: legal_move_def)

lemma legal_move_COMPLETE: "legal_move TaskState.COMPLETE b \<longleftrightarrow> b = TaskState.NEEDS_REVIEW"
  by (simp add: legal_move_def)

interpretation audit: lifecycle_invariant audit_ok
  by unfold_locales
    (auto simp: audit_ok_def history_chain_append dest: permitted_legal_move)

interpretation approval: lifecycle_invariant approval_by_human
  by unfold_locales (auto simp: approval_by_human_def permitted_def)

interpretation terminal: lifecycle_invariant terminal_respected
proof
  fix t t' :: TaskNode and s c t2 r
  assume "terminal_respected t" "permitted t s c"
    "state_history t' = state_history t @ [history_entry (state t) s t2 c r]"
  then show "terminal_respected t'"
    using permitted_legal_move [of t s c] legal_move_CANCELLED [of s] legal_move_COMPLETE [of s]
    by (auto simp: terminal_respected_def)
qed (simp_all add: terminal_respected_def)

text \<open>Claim C2: every reachable task carries a complete and legal audit trail: its history
starts at PENDING, each entry starts where the one before it ended, the last one ends in the
current state, and every entry is a move of the table or the low-confidence reopening.\<close>

theorem reachable_audit_trail:
  assumes "reachable t"
  shows "history_chain TaskState.PENDING (state_history t) (state t) \<and>
    (\<forall>e \<in> set (state_history t). to_state e \<in> set (VALID_TRANSITIONS (from_state e)) \<or>
       (from_state e = TaskState.COMPLETE \<and> to_state e = TaskState.NEEDS_REVIEW))"
  using audit.reachable_inv [OF assms] by (auto simp: audit_ok_def legal_move_def)

text \<open>Claim C3: an approval is a human act. No approval task that the state machine can
produce was ever moved to COMPLETE by the agent, the system or the cascade.\<close>

theorem approval_completed_by_human:
  assumes "reachable t" and "task_type t = TaskType.APPROVAL"
    and "e \<in> set (state_history t)" and "to_state e = TaskState.COMPLETE"
  shows "changed_by e = ChangedBy.HUMAN"
  using approval.reachable_inv [OF assms(1)] assms(2-4) by (simp add: approval_by_human_def)

text \<open>An approval task that a human started and completed.\<close>

definition approved_task :: TaskNode where
  "approved_task = (example_task TaskType.APPROVAL)\<lparr>state := TaskState.COMPLETE,
     timeline := default_Timeline\<lparr>completed_at := Some (utc_dt 2)\<rparr>,
     state_history :=
       [history_entry TaskState.PENDING TaskState.ACTIVE (utc_dt 1) ChangedBy.AGENT [],
        history_entry TaskState.ACTIVE TaskState.COMPLETE (utc_dt 2) ChangedBy.HUMAN []]\<rparr>"

lemma approved_task_reachable: "reachable approved_task"
proof -
  let ?t0 = "(example_task TaskType.APPROVAL)\<lparr>autonomy := default_AutonomyBlock\<lparr>auto_update_allowed := True\<rparr>\<rparr>"
  let ?t1 = "?t0\<lparr>state := TaskState.ACTIVE, state_history :=
     [history_entry TaskState.PENDING TaskState.ACTIVE (utc_dt 1) ChangedBy.AGENT []]\<rparr>"
  let ?t2 = "?t1\<lparr>state := TaskState.COMPLETE, timeline := default_Timeline\<lparr>completed_at := Some (utc_dt 2)\<rparr>,
     state_history := state_history ?t1 @
     [history_entry TaskState.ACTIVE TaskState.COMPLETE (utc_dt 2) ChangedBy.HUMAN []]\<rparr>"
  have "reachable ?t0" by (rule reachable.fresh) (simp_all add: example_defs)
  moreover have "transition (utc_dt 1) (utc_dt 1) ?t0 TaskState.ACTIVE ChangedBy.AGENT [] = Inr ?t1"
    by (simp add: transition_Inr_iff permitted_def example_defs stamp_timeline_def)
  moreover have "transition (utc_dt 2) (utc_dt 2) ?t1 TaskState.COMPLETE ChangedBy.HUMAN [] = Inr ?t2"
    by (simp add: transition_Inr_iff permitted_def example_defs stamp_timeline_def)
  moreover have "sm_step ?t2 approved_task"
    by (rule sm_step.edit) (simp_all add: approved_task_def example_defs)
  ultimately show ?thesis by (meson reachable.step sm_step.request)
qed

theorem reachable_audit_trail_witness:
  "history_chain TaskState.PENDING (state_history approved_task) TaskState.COMPLETE"
  using reachable_audit_trail [OF approved_task_reachable] by (simp add: approved_task_def)

theorem approval_completed_by_human_witness:
  "changed_by (history_entry TaskState.ACTIVE TaskState.COMPLETE (utc_dt 2) ChangedBy.HUMAN []) =
     ChangedBy.HUMAN"
  by (rule approval_completed_by_human [OF approved_task_reachable])
    (simp_all add: approved_task_def example_defs)

subsection \<open>Runs\<close>

lemma step_from_CANCELLED: "sm_step t t' \<Longrightarrow> state t = TaskState.CANCELLED \<Longrightarrow>
    state t' = TaskState.CANCELLED \<and> state_history t' = state_history t"
  using legal_move_CANCELLED by (metis permitted_legal_move sm_step_cases_perm)

text \<open>CANCELLED is absorbing. Whatever is requested and edited afterwards, a
cancelled task stays cancelled and gets no further history entry.\<close>

theorem cancelled_is_absorbing:
  assumes "sm_step\<^sup>*\<^sup>* t t'" and "state t = TaskState.CANCELLED"
  shows "state t' = TaskState.CANCELLED \<and> state_history t' = state_history t"
  using assms by (induction rule: rtranclp_induct) (auto dest: step_from_CANCELLED)

theorem cancelled_is_absorbing_witness:
  "state ((example_task TaskType.ATOMIC)\<lparr>state := TaskState.CANCELLED, title := ''renamed''\<rparr>) =
     TaskState.CANCELLED"
proof -
  let ?t = "(example_task TaskType.ATOMIC)\<lparr>state := TaskState.CANCELLED\<rparr>"
  have "sm_step\<^sup>*\<^sup>* ?t (?t\<lparr>title := ''renamed''\<rparr>)"
    by (rule r_into_rtranclp, rule sm_step.edit) simp_all
  from cancelled_is_absorbing [OF this] show ?thesis by simp
qed

lemma step_history_prefix: "sm_step t t' \<Longrightarrow> prefix (state_history t) (state_history t')"
  by (erule sm_step_cases_perm) auto

text \<open>The audit trail is append-only along every run.\<close>

theorem history_append_only:
  assumes "sm_step\<^sup>*\<^sup>* t t'"
  shows "prefix (state_history t) (state_history t')"
  using assms
  by (induction rule: rtranclp_induct) (auto intro: prefix_order.trans dest: step_history_prefix)

theorem history_append_only_witness:
  "prefix (state_history (example_task TaskType.ATOMIC))
     (state_history ((example_task TaskType.ATOMIC)\<lparr>title := ''renamed''\<rparr>))"
  by (rule history_append_only, rule r_into_rtranclp, rule sm_step.edit) simp_all

subsection \<open>Sequences of requests\<close>

text \<open>One request as a caller makes it, and a list of them; the first rejection stops it.\<close>

record request =
  rq_state :: TaskState
  rq_by :: ChangedBy
  rq_reason :: string
  rq_t1 :: py_datetime
  rq_t2 :: py_datetime

definition apply_request :: "TaskNode \<Rightarrow> request \<Rightarrow> transition_error + TaskNode" where
  "apply_request t q = transition (rq_t1 q) (rq_t2 q) t (rq_state q) (rq_by q) (rq_reason q)"

definition apply_requests :: "TaskNode \<Rightarrow> request list \<Rightarrow> transition_error + TaskNode" where
  "apply_requests t qs = forE apply_request t qs"

lemma apply_request_step: "apply_request t q = Inr t' \<Longrightarrow> sm_step t t'"
  by (auto simp: apply_request_def intro: sm_step.request)

lemma apply_requests_run: "apply_requests t qs = Inr t' \<Longrightarrow> sm_step\<^sup>*\<^sup>* t t'"
  unfolding apply_requests_def
  by (rule forE_invariant [where P = "sm_step\<^sup>*\<^sup>* t" and xs = qs and s = t and f = apply_request])
    (auto intro: rtranclp.rtrancl_into_rtrancl dest: apply_request_step)

text \<open>A timeline's start is written once.\<close>

lemma stamp_started_at: "started_at (timeline t) = Some x \<Longrightarrow>
    started_at (stamp_timeline now s (timeline t)) = Some x"
  by (simp add: stamp_timeline_def Let_def)

lemma stamp_completed_at: "completed_at (stamp_timeline now s tm) =
    (if s = TaskState.COMPLETE then Some now else completed_at tm)"
  by (simp add: stamp_timeline_def Let_def)

text \<open>Across any sequence of accepted requests the first start of work is kept
(\<open>started_at\<close> is write-once), the deadline and the estimates are not touched, and the
requests appear in the history one by one, in order, with their actors.\<close>

theorem requests_keep_start_and_log:
  assumes "apply_requests t qs = Inr t'"
  shows "(started_at (timeline t) \<noteq> None \<longrightarrow> started_at (timeline t') = started_at (timeline t)) \<and>
    deadline (timeline t') = deadline (timeline t) \<and>
    estimated_effort_days (timeline t') = estimated_effort_days (timeline t) \<and>
    map (\<lambda>e. (to_state e, changed_by e)) (state_history t') =
      map (\<lambda>e. (to_state e, changed_by e)) (state_history t) @ map (\<lambda>q. (rq_state q, rq_by q)) qs"
  using assms unfolding apply_requests_def
proof (induction qs arbitrary: t)
  case Nil
  then show ?case by simp
next
  case (Cons q qs)
  then obtain t1 where t1: "apply_request t q = Inr t1" "forE apply_request t1 qs = Inr t'"
    by (auto simp: bindE_Inr_iff)
  from t1(1) have "started_at (timeline t) \<noteq> None \<longrightarrow>
      started_at (timeline t1) = started_at (timeline t)"
    "deadline (timeline t1) = deadline (timeline t)"
    "estimated_effort_days (timeline t1) = estimated_effort_days (timeline t)"
    "map (\<lambda>e. (to_state e, changed_by e)) (state_history t1) =
      map (\<lambda>e. (to_state e, changed_by e)) (state_history t) @ [(rq_state q, rq_by q)]"
    by (auto simp: apply_request_def transition_Inr_iff stamp_timeline_def Let_def)
  with Cons.IH [OF t1(2)] show ?case by auto
qed

theorem requests_keep_start_and_log_witness:
  "\<exists>t'. apply_requests (example_task TaskType.ATOMIC)
      [\<lparr>rq_state = TaskState.ACTIVE, rq_by = ChangedBy.HUMAN, rq_reason = [],
        rq_t1 = utc_dt 1, rq_t2 = utc_dt 2\<rparr>] = Inr t' \<and>
    map (\<lambda>e. (to_state e, changed_by e)) (state_history t') = [(TaskState.ACTIVE, ChangedBy.HUMAN)]"
proof -
  let ?q = "\<lparr>rq_state = TaskState.ACTIVE, rq_by = ChangedBy.HUMAN, rq_reason = [],
        rq_t1 = utc_dt 1, rq_t2 = utc_dt 2\<rparr>"
  obtain t' where t': "apply_requests (example_task TaskType.ATOMIC) [?q] = Inr t'"
    by (auto simp: apply_requests_def apply_request_def transition_Inr_iff permitted_def
        example_defs bindE_Inr_iff)
  from requests_keep_start_and_log [OF this] t' show ?thesis
    by (auto simp: example_defs)
qed

subsection \<open>No task is stuck\<close>

text \<open>A shortest list of states a human can walk a task through to COMPLETE.\<close>

fun human_route :: "TaskState \<Rightarrow> TaskState list" where
  "human_route TaskState.PENDING = [TaskState.ACTIVE, TaskState.COMPLETE]"
| "human_route TaskState.ACTIVE = [TaskState.COMPLETE]"
| "human_route TaskState.IN_PROGRESS = [TaskState.COMPLETE]"
| "human_route TaskState.BLOCKED = [TaskState.ACTIVE, TaskState.COMPLETE]"
| "human_route TaskState.DELAYED = [TaskState.IN_PROGRESS, TaskState.COMPLETE]"
| "human_route TaskState.NEEDS_REVIEW = [TaskState.COMPLETE]"
| "human_route TaskState.SNOOZED = [TaskState.ACTIVE, TaskState.COMPLETE]"
| "human_route TaskState.INACTIVE_PENDING = [TaskState.ACTIVE, TaskState.COMPLETE]"
| "human_route TaskState.COMPLETE = []"
| "human_route TaskState.CANCELLED = []"

definition human_request :: "TaskState \<Rightarrow> request" where
  "human_request s = \<lparr>rq_state = s, rq_by = ChangedBy.HUMAN, rq_reason = [],
     rq_t1 = utc_dt 0, rq_t2 = utc_dt 0\<rparr>"

lemma human_request_ok:
  assumes "s \<in> set (VALID_TRANSITIONS (state t))"
  shows "\<exists>t'. apply_request t (human_request s) = Inr t' \<and> state t' = s"
  using assms by (simp add: apply_request_def human_request_def transition_Inr_iff permitted_def)

lemma human_walk:
  assumes "history_chain a (map (\<lambda>(x, y). history_entry x y n c r) (zip (a # ss) ss)) b"
    and "\<forall>(x, y) \<in> set (zip (a # ss) ss). y \<in> set (VALID_TRANSITIONS x)" and "state t = a"
  shows "\<exists>t'. apply_requests t (map human_request ss) = Inr t' \<and> state t' = b"
  using assms unfolding apply_requests_def
proof (induction ss arbitrary: a t)
  case Nil
  then show ?case by auto
next
  case (Cons s ss)
  then have "s \<in> set (VALID_TRANSITIONS (state t))" by simp
  from human_request_ok [OF this] obtain t1
    where t1: "apply_request t (human_request s) = Inr t1" "state t1 = s" by blast
  with Cons show ?case by auto
qed

text \<open>No task can get stuck. From every state but CANCELLED a human completes the
task in at most two accepted requests, whatever its type, confidence and autonomy.\<close>

theorem human_can_complete:
  assumes "state t \<noteq> TaskState.CANCELLED"
  shows "length (human_route (state t)) \<le> 2 \<and>
    (\<exists>t'. apply_requests t (map human_request (human_route (state t))) = Inr t' \<and>
      state t' = TaskState.COMPLETE)"
proof
  show "length (human_route (state t)) \<le> 2" by (cases "state t") simp_all
  show "\<exists>t'. apply_requests t (map human_request (human_route (state t))) = Inr t' \<and>
      state t' = TaskState.COMPLETE"
    by (rule human_walk [where a = "state t" and n = "utc_dt 0" and c = ChangedBy.HUMAN and r = "[]"])
      (use assms in \<open>cases "state t", simp_all\<close>)+
qed

theorem human_can_complete_witness:
  "\<exists>t'. apply_requests ((example_task TaskType.ATOMIC)\<lparr>state := TaskState.BLOCKED\<rparr>)
      (map human_request [TaskState.ACTIVE, TaskState.COMPLETE]) = Inr t' \<and>
    state t' = TaskState.COMPLETE"
  using human_can_complete [of "(example_task TaskType.ATOMIC)\<lparr>state := TaskState.BLOCKED\<rparr>"]
  by simp

subsection \<open>The guards against the table\<close>

text \<open>The checks that can reject anything the table lets through: three of the six.\<close>

definition transition_lean ::
  "py_datetime \<Rightarrow> py_datetime \<Rightarrow> TaskNode \<Rightarrow> TaskState \<Rightarrow> ChangedBy \<Rightarrow> string
     \<Rightarrow> transition_error + TaskNode" where
  "transition_lean t1 t2 task new_st cb rsn =
     bindE (check_transition_table (state task) new_st) (\<lambda>_.
     bindE (if state task = TaskState.COMPLETE \<and> confidence (progress task) \<noteq> ConfidenceLevel.LOW
            then Inl (InvalidTransitionError (state task) new_st terminal_complete_low_conf)
            else Inr ()) (\<lambda>_.
     bindE (guard_approval_auto_resolve task new_st cb) (\<lambda>_.
     bindE (if cb = ChangedBy.AGENT \<and> new_st = TaskState.ACTIVE \<and>
               state task = TaskState.INACTIVE_PENDING
            then Inl (InvalidTransitionError (state task) new_st inactive_pending_activation)
            else if cb = ChangedBy.AGENT \<and> new_st = TaskState.ACTIVE \<and>
               state task = TaskState.BLOCKED
            then Inl (InvalidTransitionError (state task) new_st blocked_activation)
            else Inr ()) (\<lambda>_.
     bindE (guard_autonomy task new_st cb) (\<lambda>_.
       Inr (task\<lparr>state := new_st, timeline := stamp_timeline t1 new_st (timeline task),
             state_history := state_history task @ [history_entry (state task) new_st t2 cb rsn]\<rparr>))))))"

text \<open>The code's chain of checks equals the lean one, errors included: after the
table, the guard on CANCELLED and the last branch of the guard on COMPLETE can never fire, and
the two activation guards reject only the agent.\<close>

theorem transition_eq_lean:
  "transition t1 t2 t s c r = transition_lean t1 t2 t s c r"
  by (cases "state t"; cases s; cases c)
    (simp_all add: transition_def transition_lean_def Let_def check_transition_table_def
      guard_terminal_cancelled_def guard_terminal_complete_def guard_approval_auto_resolve_def
      guard_inactive_pending_activation_def guard_blocked_activation_def guard_autonomy_def)

text \<open>Claim C1: what \<open>transition\<close> does, on every branch. It accepts exactly the permitted
requests; then state, timeline and history change as stated and no other field does. Otherwise
it raises \<open>InvalidTransitionError\<close> with the pair of states that was asked for.\<close>

theorem transition_behaviour:
  "if permitted t s c
   then transition t1 t2 t s c r =
      Inr (t\<lparr>state := s,
        timeline := (timeline t)\<lparr>
          started_at := (if s = TaskState.IN_PROGRESS \<and> started_at (timeline t) = None
                         then Some t1 else started_at (timeline t)),
          completed_at := (if s = TaskState.COMPLETE then Some t1
                           else completed_at (timeline t))\<rparr>,
        state_history := state_history t @
          [\<lparr>from_state = state t, to_state = s, changed_at = t2, changed_by = c,
            reason = (if r = [] then None else Some r)\<rparr>]\<rparr>)
   else (\<exists>g. transition t1 t2 t s c r = Inl (InvalidTransitionError (state t) s g))"
proof (cases rule: transition_cases [of t1 t2 t s c r])
  case (ok t')
  then show ?thesis
    by (simp add: transition_Inr_iff history_entry_def stamp_timeline_def Let_def)
next
  case (rejected g)
  then show ?thesis by simp
qed

end
