(* ===== verification/GC_Values.thy ===== *)
theory GC_Values
  imports GC_Models
begin

section \<open>Property values and their journey through the graph store\<close>

text \<open>
  What a node property can hold, on the Python side and as a Cypher literal
  (\<open>db/age/repository.py\<close>, \<open>db/age/utils.py\<close>), and the decoding of task rows
  (\<open>models/deserialization.py\<close>).

  A Python \<open>str\<close> is one of three constructors: \<open>PStr s\<close> is a plain text, \<open>PTime t\<close> the
  text \<open>t.isoformat()\<close>, \<open>PJson v\<close> the text \<open>json.dumps(v)\<close>. So \<open>json.loads\<close> undoes
  \<open>PJson\<close>, rejects \<open>PTime\<close>, and on a plain text is the argument \<open>loads\<close> (\<open>None\<close> where it
  raises).
\<close>

subsection \<open>Values\<close>

datatype pval = PNone | PBool bool | PInt int | PFloat rat | PStr string | PTime py_datetime
  | PJson pval | PList "pval list" | PDict "(string \<times> pval) list"

type_synonym props = "pval pydict"

type_synonym json_loads = "string \<Rightarrow> pval option"

fun is_str :: "pval \<Rightarrow> bool" where
  "is_str (PStr _) = True"
| "is_str (PTime _) = True"
| "is_str (PJson _) = True"
| "is_str _ = False"

fun py_json_loads :: "json_loads \<Rightarrow> pval \<Rightarrow> pval option" where
  "py_json_loads loads (PStr s) = loads s"
| "py_json_loads loads (PJson v) = Some v"
| "py_json_loads loads _ = None"

subsection \<open>Cypher literals\<close>

datatype cypher_lit = CNull | CBool bool | CInt int | CFloat rat | CStr pval
  | CList "cypher_lit list"

fun to_cypher_value :: "pval \<Rightarrow> cypher_lit" where
  "to_cypher_value PNone = CNull"
| "to_cypher_value (PBool b) = CBool b"
| "to_cypher_value (PInt i) = CInt i"
| "to_cypher_value (PFloat r) = CFloat r"
| "to_cypher_value (PStr s) = CStr (PStr s)"
| "to_cypher_value (PTime t) = CStr (PTime t)"
| "to_cypher_value (PJson v) = CStr (PJson v)"
| "to_cypher_value (PList vs) = CList (map to_cypher_value vs)"
| "to_cypher_value (PDict d) = CStr (PJson (PDict d))"

text \<open>What the store gives back for a literal (\<open>_parse_agtype\<close> reads JSON again).\<close>

fun read_literal :: "cypher_lit \<Rightarrow> pval" where
  "read_literal CNull = PNone"
| "read_literal (CBool b) = PBool b"
| "read_literal (CInt i) = PInt i"
| "read_literal (CFloat r) = PFloat r"
| "read_literal (CStr s) = s"
| "read_literal (CList ls) = PList (map read_literal ls)"

definition stored :: "pval \<Rightarrow> pval" where
  "stored v = read_literal (to_cypher_value v)"

lemma stored_simps [simp]:
  "stored PNone = PNone" "stored (PBool b) = PBool b" "stored (PInt i) = PInt i"
  "stored (PFloat r) = PFloat r" "stored (PStr s) = PStr s" "stored (PTime t) = PTime t"
  "stored (PJson v) = PJson v" "stored (PList vs) = PList (map stored vs)"
  "stored (PDict d) = PJson (PDict d)"
  by (simp_all add: stored_def)

lemma stored_None_iff [simp]: "stored v = PNone \<longleftrightarrow> v = PNone"
  by (cases v) simp_all

text \<open>Writing twice changes nothing: a value read from the store is stored as it is.\<close>

lemma stored_idem [simp]: "stored (stored v) = stored v"
proof (induction v)
  case (PList vs)
  then show ?case by simp
qed simp_all

subsection \<open>Text level: escaping and quoting\<close>

text \<open>\<open>value.replace("\", "\\").replace("'", "\'")\<close>: the two passes of the code.\<close>

definition bslash :: char where "bslash = CHR 0x5C"

definition squote :: char where "squote = CHR 0x27"

definition replace_char :: "char \<Rightarrow> string \<Rightarrow> string \<Rightarrow> string" where
  "replace_char c new s = concat (map (\<lambda>x. if x = c then new else [x]) s)"

definition escape :: "string \<Rightarrow> string" where
  "escape v = replace_char squote [bslash, squote] (replace_char bslash [bslash, bslash] v)"

definition quote_literal :: "string \<Rightarrow> string" where
  "quote_literal v = [squote] @ escape v @ [squote]"

text \<open>
  How Cypher reads a single-quoted literal: a backslash takes the next character, a quote
  closes. The result is the text of the literal and the input behind it.
\<close>

fun lex_literal_body :: "string \<Rightarrow> (string \<times> string) option" where
  "lex_literal_body [] = None"
| "lex_literal_body (c # s) =
     (if c = squote then Some ([], s)
      else if c = bslash
      then (case s of [] \<Rightarrow> None
            | d # s' \<Rightarrow> map_option (\<lambda>(t, r). (d # t, r)) (lex_literal_body s'))
      else map_option (\<lambda>(t, r). (c # t, r)) (lex_literal_body s))"

definition lex_literal :: "string \<Rightarrow> (string \<times> string) option" where
  "lex_literal s = (case s of [] \<Rightarrow> None | c # s' \<Rightarrow> if c = squote then lex_literal_body s' else None)"

lemma quote_neq [simp]: "squote \<noteq> bslash" "bslash \<noteq> squote"
  by (simp_all add: squote_def bslash_def)

lemma escape_Nil [simp]: "escape [] = []"
  by (simp add: escape_def replace_char_def)

lemma escape_Cons [simp]:
  "escape (c # s) =
     (if c = squote then [bslash, squote] else if c = bslash then [bslash, bslash] else [c]) @ escape s"
  by (simp add: escape_def replace_char_def)

lemma lex_escape: "lex_literal_body (escape v @ squote # rest) = Some (v, rest)"
  by (induction v) auto

text \<open>A string written with \<open>_escape\<close> between single quotes is read back by Cypher
as that string, and nothing of it is left over for the parser: no value can close its literal
early, whatever quotes and backslashes it holds.\<close>

theorem escape_roundtrip: "lex_literal (quote_literal v @ rest) = Some (v, rest)"
  by (simp add: lex_literal_def quote_literal_def lex_escape)

text \<open>
  The query itself stands between \<open>$$\<close> and \<open>$$\<close>, and PostgreSQL ends a dollar-quoted
  string at the first \<open>$$\<close>, before Cypher sees it.
\<close>

fun dollar_body :: "string \<Rightarrow> string \<times> string" where
  "dollar_body [] = ([], [])"
| "dollar_body [c] = ([c], [])"
| "dollar_body (c # d # s) =
     (if c = CHR ''$'' \<and> d = CHR ''$'' then ([], s)
      else (case dollar_body (d # s) of (b, r) \<Rightarrow> (c # b, r)))"

definition node_query :: "string \<Rightarrow> string" where
  "node_query nid = ''MATCH (n {id: '' @ quote_literal nid @ ''}) RETURN n''"

fun has_dollars :: "string \<Rightarrow> bool" where
  "has_dollars (c # d # s) \<longleftrightarrow> (c = CHR ''$'' \<and> d = CHR ''$'') \<or> has_dollars (d # s)"
| "has_dollars _ \<longleftrightarrow> False"

lemma dollar_neq [simp]: "squote \<noteq> CHR ''$''" "bslash \<noteq> CHR ''$''"
  by (simp_all add: squote_def bslash_def)

lemma dollar_body_clean:
  "\<not> has_dollars s \<Longrightarrow> (s = [] \<or> last s \<noteq> CHR ''$'') \<Longrightarrow> dollar_body (s @ ''$$'' @ rest) = (s, rest)"
  by (induction s rule: has_dollars.induct) auto

lemma has_dollars_append:
  "has_dollars (xs @ ys) \<longleftrightarrow> has_dollars xs \<or> has_dollars ys \<or>
     (xs \<noteq> [] \<and> ys \<noteq> [] \<and> last xs = CHR ''$'' \<and> hd ys = CHR ''$'')"
proof (induction xs rule: has_dollars.induct)
  case (1 c d s)
  then show ?case by auto
next
  case "2_1"
  then show ?case by simp
qed (cases ys; auto)

lemma has_dollars_Cons:
  "has_dollars (c # s) \<longleftrightarrow> (s \<noteq> [] \<and> c = CHR ''$'' \<and> hd s = CHR ''$'') \<or> has_dollars s"
  by (cases s) auto

lemma escape_eq_Nil [simp]: "escape s = [] \<longleftrightarrow> s = []"
  by (cases s) auto

lemma escape_hd: "s \<noteq> [] \<Longrightarrow> hd (escape s) = CHR ''$'' \<longleftrightarrow> hd s = CHR ''$''"
  by (cases s) auto

lemma has_dollars_escape [simp]: "has_dollars (escape s) \<longleftrightarrow> has_dollars s"
proof (induction s)
  case (Cons c s)
  then show ?case
    using escape_hd [of s] by (auto simp: has_dollars_append has_dollars_Cons)
qed simp

lemma dollar_body_short:
  "has_dollars s \<Longrightarrow> length (fst (dollar_body (s @ t))) + 2 \<le> length s"
proof (induction s rule: has_dollars.induct)
  case (1 c d s)
  then show ?case by (auto split: prod.splits)
qed auto

lemma has_dollars_quoted [simp]: "has_dollars (quote_literal v) \<longleftrightarrow> has_dollars v"
  by (auto simp: quote_literal_def has_dollars_append has_dollars_Cons)

lemma has_dollars_node_query [simp]: "has_dollars (node_query v) \<longleftrightarrow> has_dollars v"
  by (auto simp: node_query_def has_dollars_append has_dollars_Cons quote_literal_def)

text \<open>Escaping does not make a query safe. PostgreSQL takes the Cypher text built for
\<open>get_node\<close> as a whole exactly when the node id holds no \<open>$$\<close>; with a \<open>$$\<close> in the id the
dollar-quoted string ends inside the id and its rest is read as SQL.\<close>

theorem query_survives_dollar_quoting_iff:
  "dollar_body (node_query nid @ ''$$'' @ rest) = (node_query nid, rest) \<longleftrightarrow> \<not> has_dollars nid"
proof
  assume "dollar_body (node_query nid @ ''$$'' @ rest) = (node_query nid, rest)"
  then show "\<not> has_dollars nid"
    using dollar_body_short [of "node_query nid" "''$$'' @ rest"] by auto
next
  assume "\<not> has_dollars nid"
  then show "dollar_body (node_query nid @ ''$$'' @ rest) = (node_query nid, rest)"
    by (intro dollar_body_clean) (simp, simp add: node_query_def)
qed

end
