(* ===== verification/GC_Serial.thy ===== *)
theory GC_Serial
  imports GC_Values GC_Ids "HOL-Library.Monad_Syntax"
begin

section \<open>Writing a task to the store and reading it back\<close>

text \<open>
  \<open>model_dump(mode="json")\<close> and \<open>model_validate\<close> of \<open>TaskNode\<close> and its blocks, on the field
  lists of \<open>models/nodes.py\<close> and \<open>models/type_metadata.py\<close>, and
  \<open>deserialize_task_node_props\<close> of \<open>models/deserialization.py\<close>. Validation follows Pydantic on
  the values a dump and the store can produce: a missing field takes its default or fails
  when it has none, an integer is accepted for a float, a string for a nested model or a
  number for a string is an error. The coercions of other values are not modelled.
\<close>

named_theorems codec_simps \<open>encoders and decoders of property values\<close>

subsection \<open>Field codecs\<close>

definition dump_opt :: "('a \<Rightarrow> pval) \<Rightarrow> 'a option \<Rightarrow> pval" where
  "dump_opt f x = (case x of None \<Rightarrow> PNone | Some a \<Rightarrow> f a)"

definition dump_list :: "('a \<Rightarrow> pval) \<Rightarrow> 'a list \<Rightarrow> pval" where
  "dump_list f xs = PList (map f xs)"

definition dump_enum :: "('a \<Rightarrow> string) \<Rightarrow> 'a \<Rightarrow> pval" where
  "dump_enum val x = PStr (val x)"

fun dec_str :: "pval \<Rightarrow> string option" where
  "dec_str (PStr s) = Some s"
| "dec_str _ = None"

fun dec_time :: "pval \<Rightarrow> py_datetime option" where
  "dec_time (PTime t) = Some t"
| "dec_time _ = None"

fun dec_float :: "pval \<Rightarrow> rat option" where
  "dec_float (PFloat r) = Some r"
| "dec_float (PInt i) = Some (of_int i)"
| "dec_float _ = None"

fun dec_int :: "pval \<Rightarrow> int option" where
  "dec_int (PInt i) = Some i"
| "dec_int _ = None"

fun dec_bool :: "pval \<Rightarrow> bool option" where
  "dec_bool (PBool b) = Some b"
| "dec_bool _ = None"

definition dec_opt :: "(pval \<Rightarrow> 'a option) \<Rightarrow> pval \<Rightarrow> 'a option option" where
  "dec_opt dec v = (if v = PNone then Some None else map_option Some (dec v))"

fun dec_list :: "(pval \<Rightarrow> 'a option) \<Rightarrow> pval \<Rightarrow> 'a list option" where
  "dec_list dec (PList vs) = those (map dec vs)"
| "dec_list dec _ = None"

fun dec_enum :: "'a list \<Rightarrow> ('a \<Rightarrow> string) \<Rightarrow> pval \<Rightarrow> 'a option" where
  "dec_enum members val (PStr s) = enum_of_value members val s"
| "dec_enum members val _ = None"

fun dec_state :: "pval \<Rightarrow> TaskState option" where
  "dec_state (PStr s) = parse_state s"
| "dec_state _ = None"

fun dec_changed_by :: "pval \<Rightarrow> ChangedBy option" where
  "dec_changed_by (PStr s) = parse_changed_by s"
| "dec_changed_by _ = None"

text \<open>A required field and a field with a default.\<close>

definition req :: "(string \<Rightarrow> pval option) \<Rightarrow> string \<Rightarrow> (pval \<Rightarrow> 'a option) \<Rightarrow> 'a option" where
  "req g k dec = Option.bind (g k) dec"

definition dfl :: "(string \<Rightarrow> pval option) \<Rightarrow> string \<Rightarrow> 'a \<Rightarrow> (pval \<Rightarrow> 'a option) \<Rightarrow> 'a option" where
  "dfl g k d dec = (case g k of None \<Rightarrow> Some d | Some v \<Rightarrow> dec v)"

lemma those_map_Some [codec_simps]:
  "(\<And>x. x \<in> set xs \<Longrightarrow> dec (f x) = Some (h x)) \<Longrightarrow> those (map dec (map f xs)) = Some (map h xs)"
  by (induction xs) auto

lemma dec_list_dump [codec_simps]:
  "(\<And>x. x \<in> set xs \<Longrightarrow> dec (f x) = Some x) \<Longrightarrow> dec_list dec (dump_list f xs) = Some xs"
  using those_map_Some [of xs dec f id] by (simp add: dump_list_def)

lemma dec_opt_dump [codec_simps]:
  "(\<And>a. x = Some a \<Longrightarrow> f a \<noteq> PNone \<and> dec (f a) = Some a) \<Longrightarrow> dec_opt dec (dump_opt f x) = Some x"
  by (cases x) (simp_all add: dump_opt_def dec_opt_def)

lemma dump_shapes [codec_simps]:
  "dump_opt f x = PNone \<longleftrightarrow> (case x of None \<Rightarrow> True | Some a \<Rightarrow> f a = PNone)"
  "dump_list h xs \<noteq> PNone" "dump_enum val e \<noteq> PNone"
  by (simp_all add: dump_opt_def dump_list_def dump_enum_def split: option.splits)

lemma dec_state_dump [codec_simps]:
  "dec_state (dump_enum TaskState_value s) = Some s"
  "dec_changed_by (dump_enum ChangedBy_value c) = Some c"
  by (simp_all add: dump_enum_def)

lemma dec_enum_dump [codec_simps]:
  "dec_enum ms val (dump_enum val e) = enum_of_value ms val (val e)"
  by (simp add: dump_enum_def)

lemmas enum_codecs [codec_simps] = task_type_enum.of_value_val confidence_level_enum.of_value_val
  completion_signal_enum.of_value_val override_type_enum.of_value_val
  autonomy_level_enum.of_value_val matched_by_enum.of_value_val gate_type_enum.of_value_val
  breakdown_strategy_enum.of_value_val

lemmas field_codecs [codec_simps] = req_def dfl_def dict_get_Nil dict_get_Cons

subsection \<open>The blocks\<close>

paragraph \<open>Timeline\<close>

definition Timeline_dump :: "Timeline \<Rightarrow> pval" where
  "Timeline_dump x = PDict [
     (''deadline'', dump_opt PTime (deadline x)),
     (''started_at'', dump_opt PTime (started_at x)),
     (''estimated_effort_hours'', dump_opt PFloat (estimated_effort_hours x)),
     (''estimated_effort_days'', dump_opt PFloat (estimated_effort_days x)),
     (''actual_effort_days'', dump_opt PFloat (actual_effort_days x)),
     (''completed_at'', dump_opt PTime (completed_at x))]"

fun Timeline_validate :: "pval \<Rightarrow> Timeline option" where
  "Timeline_validate (PDict d) = do {
       x0 \<leftarrow> dfl (dict_get d) ''deadline'' None (dec_opt dec_time);
       x1 \<leftarrow> dfl (dict_get d) ''started_at'' None (dec_opt dec_time);
       x2 \<leftarrow> dfl (dict_get d) ''estimated_effort_hours'' None (dec_opt dec_float);
       x3 \<leftarrow> dfl (dict_get d) ''estimated_effort_days'' None (dec_opt dec_float);
       x4 \<leftarrow> dfl (dict_get d) ''actual_effort_days'' None (dec_opt dec_float);
       x5 \<leftarrow> dfl (dict_get d) ''completed_at'' None (dec_opt dec_time);
       Some \<lparr>deadline = x0, started_at = x1, estimated_effort_hours = x2, estimated_effort_days = x3, actual_effort_days = x4, completed_at = x5\<rparr> }"
| "Timeline_validate _ = None"

lemma Timeline_roundtrip [codec_simps]: "Timeline_validate (Timeline_dump x) = Some x"
  by (cases x) (simp add: Timeline_dump_def codec_simps)

lemma Timeline_dump_shape [codec_simps]:
  "Timeline_dump x \<noteq> PNone" "stored (Timeline_dump x) = PJson (Timeline_dump x)"
  by (simp_all add: Timeline_dump_def)

paragraph \<open>ScoringBlock\<close>

definition ScoringBlock_dump :: "ScoringBlock \<Rightarrow> pval" where
  "ScoringBlock_dump x = PDict [
     (''timeline_urgency'', PFloat (sb_timeline_urgency x)),
     (''dependency_weight'', PFloat (sb_dependency_weight x)),
     (''critical_path'', PFloat (sb_critical_path x)),
     (''blocker'', PFloat (sb_blocker x)),
     (''human_override'', PFloat (sb_human_override x)),
     (''resource_risk'', PFloat (sb_resource_risk x)),
     (''constraint_pressure'', PFloat (sb_constraint_pressure x)),
     (''W1_timeline_weight'', PFloat (W1_timeline_weight x)),
     (''W2_dependencies_weight'', PFloat (W2_dependencies_weight x)),
     (''W3_critical_path_weight'', PFloat (W3_critical_path_weight x)),
     (''W4_blocker_weight'', PFloat (W4_blocker_weight x)),
     (''W5_override_weight'', PFloat (W5_override_weight x)),
     (''W6_resource_risk_weight'', PFloat (W6_resource_risk_weight x)),
     (''W7_constraint_weight'', PFloat (W7_constraint_weight x)),
     (''computed_priority'', PFloat (computed_priority x)),
     (''chain_urgency_rollup'', PFloat (chain_urgency_rollup x)),
     (''last_scored_at'', dump_opt PTime (last_scored_at x)),
     (''score_reasoning'', dump_opt PStr (score_reasoning x))]"

fun ScoringBlock_validate :: "pval \<Rightarrow> ScoringBlock option" where
  "ScoringBlock_validate (PDict d) = do {
       x0 \<leftarrow> dfl (dict_get d) ''timeline_urgency'' 0 dec_float;
       x1 \<leftarrow> dfl (dict_get d) ''dependency_weight'' 0 dec_float;
       x2 \<leftarrow> dfl (dict_get d) ''critical_path'' 0 dec_float;
       x3 \<leftarrow> dfl (dict_get d) ''blocker'' 0 dec_float;
       x4 \<leftarrow> dfl (dict_get d) ''human_override'' 0 dec_float;
       x5 \<leftarrow> dfl (dict_get d) ''resource_risk'' 0 dec_float;
       x6 \<leftarrow> dfl (dict_get d) ''constraint_pressure'' 0 dec_float;
       x7 \<leftarrow> dfl (dict_get d) ''W1_timeline_weight'' (25 / 100) dec_float;
       x8 \<leftarrow> dfl (dict_get d) ''W2_dependencies_weight'' (20 / 100) dec_float;
       x9 \<leftarrow> dfl (dict_get d) ''W3_critical_path_weight'' (20 / 100) dec_float;
       x10 \<leftarrow> dfl (dict_get d) ''W4_blocker_weight'' (15 / 100) dec_float;
       x11 \<leftarrow> dfl (dict_get d) ''W5_override_weight'' (10 / 100) dec_float;
       x12 \<leftarrow> dfl (dict_get d) ''W6_resource_risk_weight'' (5 / 100) dec_float;
       x13 \<leftarrow> dfl (dict_get d) ''W7_constraint_weight'' (5 / 100) dec_float;
       x14 \<leftarrow> dfl (dict_get d) ''computed_priority'' 0 dec_float;
       x15 \<leftarrow> dfl (dict_get d) ''chain_urgency_rollup'' 0 dec_float;
       x16 \<leftarrow> dfl (dict_get d) ''last_scored_at'' None (dec_opt dec_time);
       x17 \<leftarrow> dfl (dict_get d) ''score_reasoning'' None (dec_opt dec_str);
       Some \<lparr>sb_timeline_urgency = x0, sb_dependency_weight = x1, sb_critical_path = x2, sb_blocker = x3, sb_human_override = x4, sb_resource_risk = x5, sb_constraint_pressure = x6, W1_timeline_weight = x7, W2_dependencies_weight = x8, W3_critical_path_weight = x9, W4_blocker_weight = x10, W5_override_weight = x11, W6_resource_risk_weight = x12, W7_constraint_weight = x13, computed_priority = x14, chain_urgency_rollup = x15, last_scored_at = x16, score_reasoning = x17\<rparr> }"
| "ScoringBlock_validate _ = None"

lemma ScoringBlock_roundtrip [codec_simps]: "ScoringBlock_validate (ScoringBlock_dump x) = Some x"
  by (cases x) (simp add: ScoringBlock_dump_def codec_simps)

lemma ScoringBlock_dump_shape [codec_simps]:
  "ScoringBlock_dump x \<noteq> PNone" "stored (ScoringBlock_dump x) = PJson (ScoringBlock_dump x)"
  by (simp_all add: ScoringBlock_dump_def)

paragraph \<open>StateHistoryEntry\<close>

definition StateHistoryEntry_dump :: "StateHistoryEntry \<Rightarrow> pval" where
  "StateHistoryEntry_dump x = PDict [
     (''from_state'', dump_enum TaskState_value (from_state x)),
     (''to_state'', dump_enum TaskState_value (to_state x)),
     (''changed_at'', PTime (changed_at x)),
     (''changed_by'', dump_enum ChangedBy_value (changed_by x)),
     (''reason'', dump_opt PStr (reason x))]"

fun StateHistoryEntry_validate :: "pval \<Rightarrow> StateHistoryEntry option" where
  "StateHistoryEntry_validate (PDict d) = do {
       x0 \<leftarrow> req (dict_get d) ''from_state'' dec_state;
       x1 \<leftarrow> req (dict_get d) ''to_state'' dec_state;
       x2 \<leftarrow> req (dict_get d) ''changed_at'' dec_time;
       x3 \<leftarrow> req (dict_get d) ''changed_by'' dec_changed_by;
       x4 \<leftarrow> dfl (dict_get d) ''reason'' None (dec_opt dec_str);
       Some \<lparr>from_state = x0, to_state = x1, changed_at = x2, changed_by = x3, reason = x4\<rparr> }"
| "StateHistoryEntry_validate _ = None"

lemma StateHistoryEntry_roundtrip [codec_simps]: "StateHistoryEntry_validate (StateHistoryEntry_dump x) = Some x"
  by (cases x) (simp add: StateHistoryEntry_dump_def codec_simps)

lemma StateHistoryEntry_dump_shape [codec_simps]:
  "StateHistoryEntry_dump x \<noteq> PNone" "stored (StateHistoryEntry_dump x) = PJson (StateHistoryEntry_dump x)"
  by (simp_all add: StateHistoryEntry_dump_def)

paragraph \<open>ProgressBlock\<close>

definition ProgressBlock_dump :: "ProgressBlock \<Rightarrow> pval" where
  "ProgressBlock_dump x = PDict [
     (''percentage'', PFloat (percentage x)),
     (''confidence'', dump_enum ConfidenceLevel_value (confidence x)),
     (''last_update'', dump_opt PTime (last_update x)),
     (''completion_signal'', dump_enum CompletionSignal_value (completion_signal x))]"

fun ProgressBlock_validate :: "pval \<Rightarrow> ProgressBlock option" where
  "ProgressBlock_validate (PDict d) = do {
       x0 \<leftarrow> dfl (dict_get d) ''percentage'' 0 dec_float;
       x1 \<leftarrow> dfl (dict_get d) ''confidence'' ConfidenceLevel.MEDIUM (dec_enum ConfidenceLevel_members ConfidenceLevel_value);
       x2 \<leftarrow> dfl (dict_get d) ''last_update'' None (dec_opt dec_time);
       x3 \<leftarrow> dfl (dict_get d) ''completion_signal'' CompletionSignal.EXPLICIT (dec_enum CompletionSignal_members CompletionSignal_value);
       Some \<lparr>percentage = x0, confidence = x1, last_update = x2, completion_signal = x3\<rparr> }"
| "ProgressBlock_validate _ = None"

lemma ProgressBlock_roundtrip [codec_simps]: "ProgressBlock_validate (ProgressBlock_dump x) = Some x"
  by (cases x) (simp add: ProgressBlock_dump_def codec_simps)

lemma ProgressBlock_dump_shape [codec_simps]:
  "ProgressBlock_dump x \<noteq> PNone" "stored (ProgressBlock_dump x) = PJson (ProgressBlock_dump x)"
  by (simp_all add: ProgressBlock_dump_def)

paragraph \<open>OverrideBlock\<close>

definition OverrideBlock_dump :: "OverrideBlock \<Rightarrow> pval" where
  "OverrideBlock_dump x = PDict [
     (''is_overridden'', PBool (is_overridden x)),
     (''override_type'', dump_opt (dump_enum OverrideType_value) (override_type x)),
     (''override_note'', dump_opt PStr (override_note x)),
     (''set_by'', dump_opt PStr (set_by x)),
     (''set_at'', dump_opt PTime (set_at x)),
     (''expires_at'', dump_opt PTime (expires_at x))]"

fun OverrideBlock_validate :: "pval \<Rightarrow> OverrideBlock option" where
  "OverrideBlock_validate (PDict d) = do {
       x0 \<leftarrow> dfl (dict_get d) ''is_overridden'' False dec_bool;
       x1 \<leftarrow> dfl (dict_get d) ''override_type'' None (dec_opt (dec_enum OverrideType_members OverrideType_value));
       x2 \<leftarrow> dfl (dict_get d) ''override_note'' None (dec_opt dec_str);
       x3 \<leftarrow> dfl (dict_get d) ''set_by'' None (dec_opt dec_str);
       x4 \<leftarrow> dfl (dict_get d) ''set_at'' None (dec_opt dec_time);
       x5 \<leftarrow> dfl (dict_get d) ''expires_at'' None (dec_opt dec_time);
       Some \<lparr>is_overridden = x0, override_type = x1, override_note = x2, set_by = x3, set_at = x4, expires_at = x5\<rparr> }"
| "OverrideBlock_validate _ = None"

lemma OverrideBlock_roundtrip [codec_simps]: "OverrideBlock_validate (OverrideBlock_dump x) = Some x"
  by (cases x) (simp add: OverrideBlock_dump_def codec_simps)

lemma OverrideBlock_dump_shape [codec_simps]:
  "OverrideBlock_dump x \<noteq> PNone" "stored (OverrideBlock_dump x) = PJson (OverrideBlock_dump x)"
  by (simp_all add: OverrideBlock_dump_def)

paragraph \<open>AutonomyBlock\<close>

definition AutonomyBlock_dump :: "AutonomyBlock \<Rightarrow> pval" where
  "AutonomyBlock_dump x = PDict [
     (''auto_update_allowed'', PBool (auto_update_allowed x)),
     (''auto_close_allowed'', PBool (auto_close_allowed x)),
     (''requires_approval_from'', dump_opt PStr (requires_approval_from x)),
     (''level'', dump_enum AutonomyLevel_value (level x))]"

fun AutonomyBlock_validate :: "pval \<Rightarrow> AutonomyBlock option" where
  "AutonomyBlock_validate (PDict d) = do {
       x0 \<leftarrow> dfl (dict_get d) ''auto_update_allowed'' False dec_bool;
       x1 \<leftarrow> dfl (dict_get d) ''auto_close_allowed'' False dec_bool;
       x2 \<leftarrow> dfl (dict_get d) ''requires_approval_from'' None (dec_opt dec_str);
       x3 \<leftarrow> dfl (dict_get d) ''level'' AutonomyLevel.SUGGEST (dec_enum AutonomyLevel_members AutonomyLevel_value);
       Some \<lparr>auto_update_allowed = x0, auto_close_allowed = x1, requires_approval_from = x2, level = x3\<rparr> }"
| "AutonomyBlock_validate _ = None"

lemma AutonomyBlock_roundtrip [codec_simps]: "AutonomyBlock_validate (AutonomyBlock_dump x) = Some x"
  by (cases x) (simp add: AutonomyBlock_dump_def codec_simps)

lemma AutonomyBlock_dump_shape [codec_simps]:
  "AutonomyBlock_dump x \<noteq> PNone" "stored (AutonomyBlock_dump x) = PJson (AutonomyBlock_dump x)"
  by (simp_all add: AutonomyBlock_dump_def)

paragraph \<open>UpdateLogEntry\<close>

definition UpdateLogEntry_dump :: "UpdateLogEntry \<Rightarrow> pval" where
  "UpdateLogEntry_dump x = PDict [
     (''received_at'', PTime (received_at x)),
     (''source'', PStr (source x)),
     (''raw_text'', PStr (raw_text x)),
     (''parsed_status'', dump_opt PStr (parsed_status x)),
     (''parsed_progress'', dump_opt PFloat (parsed_progress x)),
     (''matched_by'', dump_enum MatchedBy_value (matched_by x)),
     (''match_confidence'', PFloat (match_confidence x)),
     (''action_taken'', dump_opt PStr (action_taken x))]"

fun UpdateLogEntry_validate :: "pval \<Rightarrow> UpdateLogEntry option" where
  "UpdateLogEntry_validate (PDict d) = do {
       x0 \<leftarrow> req (dict_get d) ''received_at'' dec_time;
       x1 \<leftarrow> req (dict_get d) ''source'' dec_str;
       x2 \<leftarrow> req (dict_get d) ''raw_text'' dec_str;
       x3 \<leftarrow> dfl (dict_get d) ''parsed_status'' None (dec_opt dec_str);
       x4 \<leftarrow> dfl (dict_get d) ''parsed_progress'' None (dec_opt dec_float);
       x5 \<leftarrow> dfl (dict_get d) ''matched_by'' MatchedBy.TASK_ID (dec_enum MatchedBy_members MatchedBy_value);
       x6 \<leftarrow> dfl (dict_get d) ''match_confidence'' 1 dec_float;
       x7 \<leftarrow> dfl (dict_get d) ''action_taken'' None (dec_opt dec_str);
       Some \<lparr>received_at = x0, source = x1, raw_text = x2, parsed_status = x3, parsed_progress = x4, matched_by = x5, match_confidence = x6, action_taken = x7\<rparr> }"
| "UpdateLogEntry_validate _ = None"

lemma UpdateLogEntry_roundtrip [codec_simps]: "UpdateLogEntry_validate (UpdateLogEntry_dump x) = Some x"
  by (cases x) (simp add: UpdateLogEntry_dump_def codec_simps)

lemma UpdateLogEntry_dump_shape [codec_simps]:
  "UpdateLogEntry_dump x \<noteq> PNone" "stored (UpdateLogEntry_dump x) = PJson (UpdateLogEntry_dump x)"
  by (simp_all add: UpdateLogEntry_dump_def)

paragraph \<open>EmbeddingInputs\<close>

definition EmbeddingInputs_dump :: "EmbeddingInputs \<Rightarrow> pval" where
  "EmbeddingInputs_dump x = PDict [
     (''title'', PStr (ei_title x)),
     (''description'', PStr (ei_description x)),
     (''goal_context'', PStr (ei_goal_context x)),
     (''key_entities'', dump_list PStr (ei_key_entities x))]"

fun EmbeddingInputs_validate :: "pval \<Rightarrow> EmbeddingInputs option" where
  "EmbeddingInputs_validate (PDict d) = do {
       x0 \<leftarrow> dfl (dict_get d) ''title'' [] dec_str;
       x1 \<leftarrow> dfl (dict_get d) ''description'' [] dec_str;
       x2 \<leftarrow> dfl (dict_get d) ''goal_context'' [] dec_str;
       x3 \<leftarrow> dfl (dict_get d) ''key_entities'' [] (dec_list dec_str);
       Some \<lparr>ei_title = x0, ei_description = x1, ei_goal_context = x2, ei_key_entities = x3\<rparr> }"
| "EmbeddingInputs_validate _ = None"

lemma EmbeddingInputs_roundtrip [codec_simps]: "EmbeddingInputs_validate (EmbeddingInputs_dump x) = Some x"
  by (cases x) (simp add: EmbeddingInputs_dump_def codec_simps)

lemma EmbeddingInputs_dump_shape [codec_simps]:
  "EmbeddingInputs_dump x \<noteq> PNone" "stored (EmbeddingInputs_dump x) = PJson (EmbeddingInputs_dump x)"
  by (simp_all add: EmbeddingInputs_dump_def)

paragraph \<open>TypeMetadata\<close>

fun TypeMetadata_dump :: "TypeMetadata \<Rightarrow> pval" where
  "TypeMetadata_dump AtomicMetadata = PDict [(''task_type'', PStr ''ATOMIC'')]"
| "TypeMetadata_dump (DelegatedMetadata a0 a1 a2 a3 a4) = PDict [(''task_type'', PStr ''DELEGATED''), (''assigned_resource_id'', PStr a0), (''expected_deliverable'', dump_opt PStr a1), (''outbound_message_sent'', dump_opt PStr a2), (''task_id_in_message'', PBool a3), (''follow_up_task_id'', dump_opt PStr a4)]"
| "TypeMetadata_dump (FollowUpMetadata a0 a1 a2 a3 a4 a5 a6) = PDict [(''task_type'', PStr ''FOLLOWUP''), (''target_task_id'', PStr a0), (''parent_delegated_id'', dump_opt PStr a1), (''scheduled_fire_at'', PTime a2), (''fire_reason'', dump_opt PStr a3), (''follow_up_count'', PInt a4), (''resolved_by_proactive'', PBool a5), (''resolution_source'', dump_opt PStr a6)]"
| "TypeMetadata_dump (ApprovalMetadata a0 a1 a2 a3 a4 a5 a6 a7 a8 a9 a10) = PDict [(''task_type'', PStr ''APPROVAL''), (''approver_id'', PStr a0), (''approval_criteria'', dump_opt PStr a1), (''approved_at'', dump_opt PTime a2), (''rejection_reason'', dump_opt PStr a3), (''max_wait_days'', PInt a4), (''escalation_target_user_id'', dump_opt PStr a5), (''escalation_action'', PStr a6), (''delegated_by_user_id'', dump_opt PStr a7), (''artifact_required'', PBool a8), (''artifact_submitted_at'', dump_opt PTime a9), (''artifact_storage_key'', dump_opt PStr a10)]"
| "TypeMetadata_dump (CompositeMetadata a0 a1 a2 a3) = PDict [(''task_type'', PStr ''COMPOSITE''), (''child_task_ids'', dump_list PStr a0), (''completion_gate'', dump_enum GateType_value a1), (''breakdown_strategy'', dump_enum BreakdownStrategy_value a2), (''auto_complete_on_children'', PBool a3)]"
| "TypeMetadata_dump (MilestoneMetadata a0 a1 a2 a3) = PDict [(''task_type'', PStr ''MILESTONE''), (''milestone_criteria'', dump_opt PStr a0), (''notifies'', dump_list PStr a1), (''child_task_count'', PInt a2), (''child_tasks_complete'', PInt a3)]"
| "TypeMetadata_dump (ReviewMetadata a0 a1 a2) = PDict [(''task_type'', PStr ''REVIEW''), (''review_target_id'', PStr a0), (''review_criteria'', dump_opt PStr a1), (''confidence_level'', dump_enum ConfidenceLevel_value a2)]"
| "TypeMetadata_dump (RecurringMetadata a0 a1 a2 a3) = PDict [(''task_type'', PStr ''RECURRING''), (''cron_expression'', PStr a0), (''last_spawned_at'', dump_opt PTime a1), (''next_spawn_at'', dump_opt PTime a2), (''spawn_history'', dump_list PStr a3)]"
| "TypeMetadata_dump (DecisionMetadata a0 a1 a2 a3 a4) = PDict [(''task_type'', PStr ''DECISION''), (''options'', dump_list PStr a0), (''decision_made'', dump_opt PStr a1), (''decision_deadline'', dump_opt PTime a2), (''branches_activated'', dump_list PStr a3), (''branches_pruned'', dump_list PStr a4)]"
| "TypeMetadata_dump (CheckinMetadata a0 a1) = PDict [(''task_type'', PStr ''CHECKIN''), (''target_resource_id'', dump_opt PStr a0), (''scheduled_for'', dump_opt PTime a1)]"
| "TypeMetadata_dump (ResearchMetadata a0 a1 a2 a3) = PDict [(''task_type'', PStr ''RESEARCH''), (''research_scope'', dump_opt PStr a0), (''outputs'', dump_list PStr a1), (''confidence_level'', dump_enum ConfidenceLevel_value a2), (''confidence_to_proceed'', PFloat a3)]"

definition DelegatedMetadata_validate :: "(string \<Rightarrow> pval option) \<Rightarrow> TypeMetadata option" where
  "DelegatedMetadata_validate g = do {
       a0 \<leftarrow> req g ''assigned_resource_id'' dec_str;
       a1 \<leftarrow> dfl g ''expected_deliverable'' None (dec_opt dec_str);
       a2 \<leftarrow> dfl g ''outbound_message_sent'' None (dec_opt dec_str);
       a3 \<leftarrow> dfl g ''task_id_in_message'' False dec_bool;
       a4 \<leftarrow> dfl g ''follow_up_task_id'' None (dec_opt dec_str);
       Some (DelegatedMetadata a0 a1 a2 a3 a4) }"

definition FollowUpMetadata_validate :: "(string \<Rightarrow> pval option) \<Rightarrow> TypeMetadata option" where
  "FollowUpMetadata_validate g = do {
       a0 \<leftarrow> req g ''target_task_id'' dec_str;
       a1 \<leftarrow> dfl g ''parent_delegated_id'' None (dec_opt dec_str);
       a2 \<leftarrow> req g ''scheduled_fire_at'' dec_time;
       a3 \<leftarrow> dfl g ''fire_reason'' None (dec_opt dec_str);
       a4 \<leftarrow> dfl g ''follow_up_count'' 0 dec_int;
       a5 \<leftarrow> dfl g ''resolved_by_proactive'' False dec_bool;
       a6 \<leftarrow> dfl g ''resolution_source'' None (dec_opt dec_str);
       Some (FollowUpMetadata a0 a1 a2 a3 a4 a5 a6) }"

definition ApprovalMetadata_validate :: "(string \<Rightarrow> pval option) \<Rightarrow> TypeMetadata option" where
  "ApprovalMetadata_validate g = do {
       a0 \<leftarrow> req g ''approver_id'' dec_str;
       a1 \<leftarrow> dfl g ''approval_criteria'' None (dec_opt dec_str);
       a2 \<leftarrow> dfl g ''approved_at'' None (dec_opt dec_time);
       a3 \<leftarrow> dfl g ''rejection_reason'' None (dec_opt dec_str);
       a4 \<leftarrow> dfl g ''max_wait_days'' 7 dec_int;
       a5 \<leftarrow> dfl g ''escalation_target_user_id'' None (dec_opt dec_str);
       a6 \<leftarrow> dfl g ''escalation_action'' ''REASSIGN'' dec_str;
       a7 \<leftarrow> dfl g ''delegated_by_user_id'' None (dec_opt dec_str);
       a8 \<leftarrow> dfl g ''artifact_required'' False dec_bool;
       a9 \<leftarrow> dfl g ''artifact_submitted_at'' None (dec_opt dec_time);
       a10 \<leftarrow> dfl g ''artifact_storage_key'' None (dec_opt dec_str);
       if 1 \<le> a4 \<and> a4 \<le> 90 then Some (ApprovalMetadata a0 a1 a2 a3 a4 a5 a6 a7 a8 a9 a10) else None }"

definition CompositeMetadata_validate :: "(string \<Rightarrow> pval option) \<Rightarrow> TypeMetadata option" where
  "CompositeMetadata_validate g = do {
       a0 \<leftarrow> dfl g ''child_task_ids'' [] (dec_list dec_str);
       a1 \<leftarrow> dfl g ''completion_gate'' GateType.AND (dec_enum GateType_members GateType_value);
       a2 \<leftarrow> dfl g ''breakdown_strategy'' BreakdownStrategy.PARALLEL (dec_enum BreakdownStrategy_members BreakdownStrategy_value);
       a3 \<leftarrow> dfl g ''auto_complete_on_children'' True dec_bool;
       Some (CompositeMetadata a0 a1 a2 a3) }"

definition MilestoneMetadata_validate :: "(string \<Rightarrow> pval option) \<Rightarrow> TypeMetadata option" where
  "MilestoneMetadata_validate g = do {
       a0 \<leftarrow> dfl g ''milestone_criteria'' None (dec_opt dec_str);
       a1 \<leftarrow> dfl g ''notifies'' [] (dec_list dec_str);
       a2 \<leftarrow> dfl g ''child_task_count'' 0 dec_int;
       a3 \<leftarrow> dfl g ''child_tasks_complete'' 0 dec_int;
       Some (MilestoneMetadata a0 a1 a2 a3) }"

definition ReviewMetadata_validate :: "(string \<Rightarrow> pval option) \<Rightarrow> TypeMetadata option" where
  "ReviewMetadata_validate g = do {
       a0 \<leftarrow> req g ''review_target_id'' dec_str;
       a1 \<leftarrow> dfl g ''review_criteria'' None (dec_opt dec_str);
       a2 \<leftarrow> dfl g ''confidence_level'' ConfidenceLevel.MEDIUM (dec_enum ConfidenceLevel_members ConfidenceLevel_value);
       Some (ReviewMetadata a0 a1 a2) }"

definition RecurringMetadata_validate :: "(string \<Rightarrow> pval option) \<Rightarrow> TypeMetadata option" where
  "RecurringMetadata_validate g = do {
       a0 \<leftarrow> req g ''cron_expression'' dec_str;
       a1 \<leftarrow> dfl g ''last_spawned_at'' None (dec_opt dec_time);
       a2 \<leftarrow> dfl g ''next_spawn_at'' None (dec_opt dec_time);
       a3 \<leftarrow> dfl g ''spawn_history'' [] (dec_list dec_str);
       Some (RecurringMetadata a0 a1 a2 a3) }"

definition DecisionMetadata_validate :: "(string \<Rightarrow> pval option) \<Rightarrow> TypeMetadata option" where
  "DecisionMetadata_validate g = do {
       a0 \<leftarrow> dfl g ''options'' [] (dec_list dec_str);
       a1 \<leftarrow> dfl g ''decision_made'' None (dec_opt dec_str);
       a2 \<leftarrow> dfl g ''decision_deadline'' None (dec_opt dec_time);
       a3 \<leftarrow> dfl g ''branches_activated'' [] (dec_list dec_str);
       a4 \<leftarrow> dfl g ''branches_pruned'' [] (dec_list dec_str);
       Some (DecisionMetadata a0 a1 a2 a3 a4) }"

definition CheckinMetadata_validate :: "(string \<Rightarrow> pval option) \<Rightarrow> TypeMetadata option" where
  "CheckinMetadata_validate g = do {
       a0 \<leftarrow> dfl g ''target_resource_id'' None (dec_opt dec_str);
       a1 \<leftarrow> dfl g ''scheduled_for'' None (dec_opt dec_time);
       Some (CheckinMetadata a0 a1) }"

definition ResearchMetadata_validate :: "(string \<Rightarrow> pval option) \<Rightarrow> TypeMetadata option" where
  "ResearchMetadata_validate g = do {
       a0 \<leftarrow> dfl g ''research_scope'' None (dec_opt dec_str);
       a1 \<leftarrow> dfl g ''outputs'' [] (dec_list dec_str);
       a2 \<leftarrow> dfl g ''confidence_level'' ConfidenceLevel.MEDIUM (dec_enum ConfidenceLevel_members ConfidenceLevel_value);
       a3 \<leftarrow> dfl g ''confidence_to_proceed'' 0 dec_float;
       Some (ResearchMetadata a0 a1 a2 a3) }"

fun TypeMetadata_validate :: "pval \<Rightarrow> TypeMetadata option" where
  "TypeMetadata_validate (PDict d) =
     (case dict_get d ''task_type'' of
        Some (PStr s) \<Rightarrow>
          (if s = ''ATOMIC'' then Some AtomicMetadata
           else if s = ''DELEGATED'' then DelegatedMetadata_validate (dict_get d)
           else if s = ''FOLLOWUP'' then FollowUpMetadata_validate (dict_get d)
           else if s = ''APPROVAL'' then ApprovalMetadata_validate (dict_get d)
           else if s = ''COMPOSITE'' then CompositeMetadata_validate (dict_get d)
           else if s = ''MILESTONE'' then MilestoneMetadata_validate (dict_get d)
           else if s = ''REVIEW'' then ReviewMetadata_validate (dict_get d)
           else if s = ''RECURRING'' then RecurringMetadata_validate (dict_get d)
           else if s = ''DECISION'' then DecisionMetadata_validate (dict_get d)
           else if s = ''CHECKIN'' then CheckinMetadata_validate (dict_get d)
           else if s = ''RESEARCH'' then ResearchMetadata_validate (dict_get d)
           else None)
      | _ \<Rightarrow> None)"
| "TypeMetadata_validate _ = None"

definition metadata_ok :: "TypeMetadata \<Rightarrow> bool" where
  "metadata_ok x = (case x of ApprovalMetadata _ _ _ _ n _ _ _ _ _ _ \<Rightarrow> 1 \<le> n \<and> n \<le> 90 | _ \<Rightarrow> True)"

lemma TypeMetadata_roundtrip [codec_simps]:
  "metadata_ok x \<Longrightarrow> TypeMetadata_validate (TypeMetadata_dump x) = Some x"
  by (cases x) (simp_all add: metadata_ok_def codec_simps DelegatedMetadata_validate_def FollowUpMetadata_validate_def ApprovalMetadata_validate_def CompositeMetadata_validate_def MilestoneMetadata_validate_def ReviewMetadata_validate_def RecurringMetadata_validate_def DecisionMetadata_validate_def CheckinMetadata_validate_def ResearchMetadata_validate_def)

lemma TypeMetadata_dump_shape [codec_simps]:
  "TypeMetadata_dump x \<noteq> PNone" "stored (TypeMetadata_dump x) = PJson (TypeMetadata_dump x)"
  by (cases x, simp_all)+

paragraph \<open>TaskNode\<close>

definition task_dump :: "TaskNode \<Rightarrow> props" where
  "task_dump x = [
     (''id'', PStr (node_id x)),
     (''created_at'', PTime (created_at x)),
     (''updated_at'', PTime (updated_at x)),
     (''version'', PInt (version x)),
     (''archived_at'', dump_opt PTime (archived_at x)),
     (''archived_by'', dump_opt PStr (archived_by x)),
     (''archive_reason'', dump_opt PStr (archive_reason x)),
     (''purge_after'', dump_opt PTime (purge_after x)),
     (''purge_cancelled_at'', dump_opt PTime (purge_cancelled_at x)),
     (''legal_hold'', PBool (legal_hold x)),
     (''hold_reason'', dump_opt PStr (hold_reason x)),
     (''hold_set_by'', dump_opt PStr (hold_set_by x)),
     (''hold_set_at'', dump_opt PTime (hold_set_at x)),
     (''link_status'', dump_opt PStr (link_status x)),
     (''task_type'', dump_enum TaskType_value (task_type x)),
     (''title'', PStr (title x)),
     (''description'', PStr (description x)),
     (''created_by'', dump_opt PStr (created_by x)),
     (''owned_by'', dump_opt PStr (owned_by x)),
     (''assigned_to'', dump_opt PStr (assigned_to x)),
     (''state'', dump_enum TaskState_value (state x)),
     (''state_history'', dump_list StateHistoryEntry_dump (state_history x)),
     (''timeline'', Timeline_dump (timeline x)),
     (''scoring'', ScoringBlock_dump (scoring x)),
     (''on_critical_path'', PBool (on_critical_path x)),
     (''progress'', ProgressBlock_dump (progress x)),
     (''override'', OverrideBlock_dump (override x)),
     (''update_log'', dump_list UpdateLogEntry_dump (update_log x)),
     (''intelligence'', dump_opt PStr (intelligence x)),
     (''type_metadata'', dump_opt TypeMetadata_dump (type_metadata x)),
     (''embedding_inputs'', dump_opt EmbeddingInputs_dump (embedding_inputs x)),
     (''autonomy'', AutonomyBlock_dump (autonomy x)),
     (''tags'', dump_list PStr (tags x)),
     (''priority'', dump_opt PStr (priority x))]"

fun dec_task_id :: "pval \<Rightarrow> string option" where
  "dec_task_id (PStr s) = (if TASK_ID_PATTERN_match s then Some s else None)"
| "dec_task_id _ = None"

definition task_validate :: "(string \<Rightarrow> pval option) \<Rightarrow> TaskNode option" where
  "task_validate g = do {
       x0 \<leftarrow> req g ''id'' dec_task_id;
       x1 \<leftarrow> req g ''created_at'' dec_time;
       x2 \<leftarrow> req g ''updated_at'' dec_time;
       x3 \<leftarrow> dfl g ''version'' 0 dec_int;
       x4 \<leftarrow> dfl g ''archived_at'' None (dec_opt dec_time);
       x5 \<leftarrow> dfl g ''archived_by'' None (dec_opt dec_str);
       x6 \<leftarrow> dfl g ''archive_reason'' None (dec_opt dec_str);
       x7 \<leftarrow> dfl g ''purge_after'' None (dec_opt dec_time);
       x8 \<leftarrow> dfl g ''purge_cancelled_at'' None (dec_opt dec_time);
       x9 \<leftarrow> dfl g ''legal_hold'' False dec_bool;
       x10 \<leftarrow> dfl g ''hold_reason'' None (dec_opt dec_str);
       x11 \<leftarrow> dfl g ''hold_set_by'' None (dec_opt dec_str);
       x12 \<leftarrow> dfl g ''hold_set_at'' None (dec_opt dec_time);
       x13 \<leftarrow> dfl g ''link_status'' None (dec_opt dec_str);
       x14 \<leftarrow> req g ''task_type'' (dec_enum TaskType_members TaskType_value);
       x15 \<leftarrow> req g ''title'' dec_str;
       x16 \<leftarrow> req g ''description'' dec_str;
       x17 \<leftarrow> dfl g ''created_by'' None (dec_opt dec_str);
       x18 \<leftarrow> dfl g ''owned_by'' None (dec_opt dec_str);
       x19 \<leftarrow> dfl g ''assigned_to'' None (dec_opt dec_str);
       x20 \<leftarrow> dfl g ''state'' TaskState.PENDING dec_state;
       x21 \<leftarrow> dfl g ''state_history'' [] (dec_list StateHistoryEntry_validate);
       x22 \<leftarrow> dfl g ''timeline'' default_Timeline Timeline_validate;
       x23 \<leftarrow> dfl g ''scoring'' default_ScoringBlock ScoringBlock_validate;
       x24 \<leftarrow> dfl g ''on_critical_path'' False dec_bool;
       x25 \<leftarrow> dfl g ''progress'' default_ProgressBlock ProgressBlock_validate;
       x26 \<leftarrow> dfl g ''override'' default_OverrideBlock OverrideBlock_validate;
       x27 \<leftarrow> dfl g ''update_log'' [] (dec_list UpdateLogEntry_validate);
       x28 \<leftarrow> dfl g ''intelligence'' None (dec_opt dec_str);
       x29 \<leftarrow> dfl g ''type_metadata'' None (dec_opt TypeMetadata_validate);
       x30 \<leftarrow> dfl g ''embedding_inputs'' None (dec_opt EmbeddingInputs_validate);
       x31 \<leftarrow> dfl g ''autonomy'' default_AutonomyBlock AutonomyBlock_validate;
       x32 \<leftarrow> dfl g ''tags'' [] (dec_list dec_str);
       x33 \<leftarrow> dfl g ''priority'' None (dec_opt dec_str);
       Some \<lparr>node_id = x0, created_at = x1, updated_at = x2, version = x3,
          archived_at = x4, archived_by = x5, archive_reason = x6, purge_after = x7,
          purge_cancelled_at = x8, legal_hold = x9, hold_reason = x10, hold_set_by = x11,
          hold_set_at = x12, link_status = x13, task_type = x14, title = x15,
          description = x16, created_by = x17, owned_by = x18, assigned_to = x19,
          state = x20, state_history = x21, timeline = x22, scoring = x23,
          on_critical_path = x24, progress = x25, override = x26, update_log = x27,
          intelligence = x28, type_metadata = x29, embedding_inputs = x30, autonomy = x31,
          tags = x32, priority = x33\<rparr> }"

subsection \<open>Decoding a row\<close>

definition TASK_NODE_JSON_STR_FIELDS :: "string list" where
  "TASK_NODE_JSON_STR_FIELDS =
     [''scoring'', ''timeline'', ''progress'', ''override'', ''autonomy'', ''type_metadata'']"

definition TASK_NODE_JSON_LIST_FIELDS :: "string list" where
  "TASK_NODE_JSON_LIST_FIELDS = [''state_history'', ''update_log'', ''tags'']"

definition decode_str_field :: "json_loads \<Rightarrow> pval \<Rightarrow> pval" where
  "decode_str_field loads v =
     (if is_str v then (case py_json_loads loads v of Some w \<Rightarrow> w | None \<Rightarrow> PNone) else v)"

definition decode_item :: "json_loads \<Rightarrow> pval \<Rightarrow> pval" where
  "decode_item loads v =
     (if is_str v then (case py_json_loads loads v of Some w \<Rightarrow> w | None \<Rightarrow> v) else v)"

definition decode_list_field :: "json_loads \<Rightarrow> pval \<Rightarrow> pval" where
  "decode_list_field loads v =
     (if is_str v then (case py_json_loads loads v of Some w \<Rightarrow> w | None \<Rightarrow> PList [])
      else case v of PList items \<Rightarrow> PList (map (decode_item loads) items) | _ \<Rightarrow> v)"

definition decode_field :: "(pval \<Rightarrow> pval) \<Rightarrow> string \<Rightarrow> props \<Rightarrow> props" where
  "decode_field dec f result =
     (case dict_get result f of None \<Rightarrow> result | Some v \<Rightarrow> dict_set f (dec v) result)"

definition deserialize_task_node_props :: "json_loads \<Rightarrow> props \<Rightarrow> props" where
  "deserialize_task_node_props loads raw =
     fold (decode_field (decode_list_field loads)) TASK_NODE_JSON_LIST_FIELDS
       (fold (decode_field (decode_str_field loads)) TASK_NODE_JSON_STR_FIELDS raw)"

definition decode_key :: "json_loads \<Rightarrow> string \<Rightarrow> pval \<Rightarrow> pval" where
  "decode_key loads k =
     (if k \<in> set TASK_NODE_JSON_STR_FIELDS then decode_str_field loads
      else if k \<in> set TASK_NODE_JSON_LIST_FIELDS then decode_list_field loads
      else (\<lambda>v. v))"

lemma dict_get_decode_field:
  "dict_get (decode_field dec f d) k = (if k = f then map_option dec (dict_get d k) else dict_get d k)"
  by (cases "dict_get d f") (simp_all add: decode_field_def dict_simps)

lemma dict_get_fold_decode:
  "distinct fs \<Longrightarrow> dict_get (fold (decode_field dec) fs d) k =
     (if k \<in> set fs then map_option dec (dict_get d k) else dict_get d k)"
  by (induction fs arbitrary: d) (auto simp: dict_get_decode_field)

lemma dict_get_deserialize:
  "dict_get (deserialize_task_node_props loads raw) k = map_option (decode_key loads k) (dict_get raw k)"
proof -
  have "distinct TASK_NODE_JSON_STR_FIELDS" "distinct TASK_NODE_JSON_LIST_FIELDS"
    "set TASK_NODE_JSON_STR_FIELDS \<inter> set TASK_NODE_JSON_LIST_FIELDS = {}"
    by (simp_all add: TASK_NODE_JSON_STR_FIELDS_def TASK_NODE_JSON_LIST_FIELDS_def)
  then show ?thesis
    by (cases "dict_get raw k")
      (auto simp: deserialize_task_node_props_def dict_get_fold_decode decode_key_def)
qed

text \<open>The row a property map leaves in the store: null properties are absent.\<close>

definition row_of :: "props \<Rightarrow> props" where
  "row_of d = [(k, stored v). (k, v) \<leftarrow> d, v \<noteq> PNone]"

definition row_value :: "pval option \<Rightarrow> pval option" where
  "row_value x = (case x of None \<Rightarrow> None | Some v \<Rightarrow> if v = PNone then None else Some (stored v))"

lemma dict_get_row_of: "dict_ok d \<Longrightarrow> dict_get (row_of d) k = row_value (dict_get d k)"
proof (induction d)
  case Nil
  then show ?case by (simp add: row_of_def row_value_def dict_simps)
next
  case (Cons kv d)
  obtain k' v where kv: "kv = (k', v)" by fastforce
  from Cons have IH: "dict_get (row_of d) k = row_value (dict_get d k)"
    and fresh: "k' \<notin> fst ` set d" by (auto simp: dict_ok_def kv)
  have "k = k' \<Longrightarrow> dict_get d k = None"
    using fresh by (force simp: dict_get_def map_of_eq_None_iff)
  then show ?case
    using IH by (auto simp: kv row_of_def row_value_def dict_get_Cons split: option.splits)
qed

text \<open>\<open>TaskNode.model_validate(_deserialize_node_props(raw))\<close>, the way every loader reads a row.\<close>

definition load_task :: "json_loads \<Rightarrow> props \<Rightarrow> TaskNode option" where
  "load_task loads raw = task_validate (dict_get (deserialize_task_node_props loads raw))"

subsection \<open>The round trip\<close>

definition storable :: "json_loads \<Rightarrow> TaskNode \<Rightarrow> bool" where
  "storable loads t \<longleftrightarrow> TASK_ID_PATTERN_match (node_id t) \<and>
     list_all (\<lambda>s. loads s = None) (tags t) \<and> embedding_inputs t = None \<and>
     (case type_metadata t of None \<Rightarrow> True | Some md \<Rightarrow> metadata_ok md)"

text \<open>What a decoded row offers for a key, and how the field codecs see it.\<close>

definition via :: "(pval \<Rightarrow> pval) \<Rightarrow> pval \<Rightarrow> pval option" where
  "via D v = (if v = PNone then None else Some (D (stored v)))"

lemma via_dec:
  "v \<noteq> PNone \<Longrightarrow> dec (D (stored v)) = Some a \<Longrightarrow>
     (case via D v of None \<Rightarrow> Some d | Some w \<Rightarrow> dec w) = Some a"
  "v \<noteq> PNone \<Longrightarrow> dec (D (stored v)) = Some a \<Longrightarrow> Option.bind (via D v) dec = Some a"
  by (simp_all add: via_def)

lemma via_opt:
  "(\<And>a. x = Some a \<Longrightarrow> f a \<noteq> PNone \<and> D (stored (f a)) \<noteq> PNone \<and> dec (D (stored (f a))) = Some a) \<Longrightarrow>
     (case via D (dump_opt f x) of None \<Rightarrow> Some None | Some w \<Rightarrow> dec_opt dec w) = Some x"
  by (cases x) (simp_all add: via_def dump_opt_def dec_opt_def)

lemma via_dump_opt: "via D (dump_opt f None) = None" "via D (dump_opt f (Some a)) = via D (f a)"
  by (simp_all add: via_def dump_opt_def)

lemma via_block: "v \<noteq> PNone \<Longrightarrow> via D v = Some (D (stored v))"
  by (simp add: via_def)

lemma stored_list [codec_simps]: "stored (dump_list f xs) = dump_list (\<lambda>x. stored (f x)) xs"
  by (simp add: dump_list_def)

lemma stored_enum [codec_simps]: "stored (dump_enum val e) = dump_enum val e"
  by (simp add: dump_enum_def)

lemma decode_list_json [codec_simps]:
  "decode_list_field loads (dump_list (\<lambda>x. PJson (f x)) xs) = dump_list f xs"
  by (simp add: decode_list_field_def dump_list_def decode_item_def)

lemma decode_list_text [codec_simps]:
  "list_all (\<lambda>s. loads s = None) xs \<Longrightarrow> decode_list_field loads (dump_list PStr xs) = dump_list PStr xs"
  by (auto simp: decode_list_field_def dump_list_def decode_item_def list_all_iff)

lemma decode_str_json [codec_simps]: "decode_str_field loads (PJson v) = v"
  by (simp add: decode_str_field_def)

lemma decode_keys [codec_simps]:
  "decode_key loads ''scoring'' = decode_str_field loads"
  "decode_key loads ''timeline'' = decode_str_field loads"
  "decode_key loads ''progress'' = decode_str_field loads"
  "decode_key loads ''override'' = decode_str_field loads"
  "decode_key loads ''autonomy'' = decode_str_field loads"
  "decode_key loads ''type_metadata'' = decode_str_field loads"
  "decode_key loads ''state_history'' = decode_list_field loads"
  "decode_key loads ''update_log'' = decode_list_field loads"
  "decode_key loads ''tags'' = decode_list_field loads"
  by (simp_all add: decode_key_def TASK_NODE_JSON_STR_FIELDS_def TASK_NODE_JSON_LIST_FIELDS_def)

lemma decode_key_plain:
  "k \<notin> {''scoring'', ''timeline'', ''progress'', ''override'', ''autonomy'', ''type_metadata'',
     ''state_history'', ''update_log'', ''tags''} \<Longrightarrow> decode_key loads k = (\<lambda>v. v)"
  by (auto simp: decode_key_def TASK_NODE_JSON_STR_FIELDS_def TASK_NODE_JSON_LIST_FIELDS_def)

lemma task_dump_ok: "dict_ok (task_dump t)"
  by (simp add: dict_ok_def task_dump_def)

lemma loaded_fields:
  "dict_get (deserialize_task_node_props loads (row_of (task_dump t))) =
     (\<lambda>k. case dict_get (task_dump t) k of None \<Rightarrow> None | Some v \<Rightarrow> via (decode_key loads k) v)"
  by (rule ext) (simp add: dict_get_deserialize dict_get_row_of task_dump_ok row_value_def
    via_def split: option.splits)

lemma validate_loaded:
  assumes "storable loads t"
  shows "task_validate (\<lambda>k. case dict_get (task_dump t) k of None \<Rightarrow> None
           | Some v \<Rightarrow> via (decode_key loads k) v) = Some t"
  using assms unfolding task_validate_def storable_def
  by (cases "type_metadata t")
    (simp_all add: task_dump_def codec_simps decode_key_plain via_dec via_opt via_dump_opt
      via_block dec_opt_def)

text \<open>Claim C12: a task written to the store as \<open>model_dump(mode="json")\<close> and read back with
\<open>deserialize_task_node_props\<close> and \<open>TaskNode.model_validate\<close> is the same task in every field,
history, log and nested block included, provided its id is valid, it has no
\<open>embedding_inputs\<close>, its tags are not JSON texts and its metadata passes its own bounds.\<close>

theorem task_roundtrip:
  assumes "storable loads t"
  shows "load_task loads (row_of (task_dump t)) = Some t"
  unfolding load_task_def loaded_fields using assms by (rule validate_loaded)

theorem task_roundtrip_witness:
  "load_task (\<lambda>_. None) (row_of (task_dump (example_task TaskType.REVIEW))) =
     Some (example_task TaskType.REVIEW)"
  by (rule task_roundtrip) code_simp

text \<open>
  The two provisos of the round trip that a caller can miss. \<open>tags\<close> is decoded like the JSON
  columns, item by item, so a tag that happens to be a JSON number turns into that number;
  \<open>embedding_inputs\<close> is missing from \<open>TASK_NODE_JSON_STR_FIELDS\<close>, so it comes back as text.
\<close>

lemma those_None: "None \<in> set xs \<Longrightarrow> those xs = None"
  by (induction xs) (auto split: option.splits)

lemma bad_tag_unreadable:
  assumes "s \<in> set (tags t)" "loads s = Some v" "dec_str v = None"
  shows "dec_list dec_str (decode_list_field loads (stored (dump_list PStr (tags t)))) = None"
proof -
  have "None \<in> set (map dec_str (map (decode_item loads) (map PStr (tags t))))"
    using assms by (force simp: decode_item_def)
  from those_None [OF this] show ?thesis
    by (simp add: decode_list_field_def dump_list_def comp_def)
qed

lemma task_validate_None:
  assumes "dfl g ''tags'' [] (dec_list dec_str) = None \<or>
    dfl g ''embedding_inputs'' None (dec_opt EmbeddingInputs_validate) = None"
  shows "task_validate g = None"
  using assms by (auto simp: task_validate_def bind_eq_None_conv)

text \<open>One tag whose text is a JSON value other than a string (a year, say) makes the
stored task unreadable, and so does any value of \<open>embedding_inputs\<close>: the row is written
without complaint and every later load of it fails validation.\<close>

theorem task_unreadable:
  assumes "(\<exists>s v. s \<in> set (tags t) \<and> loads s = Some v \<and> dec_str v = None) \<or>
    embedding_inputs t \<noteq> None"
  shows "load_task loads (row_of (task_dump t)) = None"
  unfolding load_task_def loaded_fields
proof (rule task_validate_None, use assms in \<open>elim disjE exE conjE\<close>)
  fix s v assume "s \<in> set (tags t)" "loads s = Some v" "dec_str v = None"
  then have "dec_list dec_str (decode_list_field loads (stored (dump_list PStr (tags t)))) = None"
    by (rule bad_tag_unreadable)
  then show "dfl (\<lambda>k. case dict_get (task_dump t) k of None \<Rightarrow> None
          | Some v \<Rightarrow> via (decode_key loads k) v) ''tags'' [] (dec_list dec_str) = None \<or>
      dfl (\<lambda>k. case dict_get (task_dump t) k of None \<Rightarrow> None
          | Some v \<Rightarrow> via (decode_key loads k) v) ''embedding_inputs'' None
        (dec_opt EmbeddingInputs_validate) = None"
    by (simp add: dfl_def task_dump_def dict_get_Cons decode_keys via_def dump_shapes
        del: stored_simps)
next
  assume "embedding_inputs t \<noteq> None"
  then obtain e where "embedding_inputs t = Some e" by blast
  then show "dfl (\<lambda>k. case dict_get (task_dump t) k of None \<Rightarrow> None
          | Some v \<Rightarrow> via (decode_key loads k) v) ''tags'' [] (dec_list dec_str) = None \<or>
      dfl (\<lambda>k. case dict_get (task_dump t) k of None \<Rightarrow> None
          | Some v \<Rightarrow> via (decode_key loads k) v) ''embedding_inputs'' None
        (dec_opt EmbeddingInputs_validate) = None"
    by (simp add: dfl_def task_dump_def codec_simps decode_key_plain via_def dump_opt_def
        dec_opt_def)
qed

theorem task_unreadable_witness:
  "load_task (\<lambda>s. if s = ''2026'' then Some (PInt 2026) else None)
     (row_of (task_dump (example_task TaskType.REVIEW\<lparr>tags := [''2026'']\<rparr>))) = None"
  by (rule task_unreadable) (simp add: example_defs)

text \<open>
  A row read without the decoding step keeps its JSON columns as text, which no nested model
  accepts: this is how \<open>scoring/topology.py\<close> reads its neighbours.
\<close>

lemma raw_row_invalid: "task_validate (dict_get (row_of (task_dump t))) = None"
proof -
  have "dict_get (row_of (task_dump t)) ''scoring'' = Some (PJson (ScoringBlock_dump (scoring t)))"
    by (simp only: dict_get_row_of task_dump_ok)
      (simp add: row_value_def task_dump_def codec_simps)
  then have "dfl (dict_get (row_of (task_dump t))) ''scoring'' default_ScoringBlock
      ScoringBlock_validate = None"
    by (simp add: dfl_def)
  then show ?thesis by (auto simp: task_validate_def bind_eq_None_conv)
qed

end
