(* ===== verification/GC_Store.thy ===== *)
theory GC_Store
  imports GC_Serial GC_StateMachine "HOL-Library.List_Lexorder" "HOL-Library.Char_ord"
begin

section \<open>The graph store (\<open>db/age/repository.py\<close>, \<open>cross_tenant/acl.py\<close>)\<close>

text \<open>
  \<open>AgeGraphStore\<close>, the only implementation of the \<open>GraphStore\<close> interface. The database is not
  part of the repository: it is the argument \<open>exec\<close>, which runs one Cypher statement on a graph
  of any type and gives back rows and the new graph. A statement is the abstract syntax of the
  text the code builds (\<open>GC_Values\<close> treats that text: escaping and dollar quoting); values in
  it are the literals of \<open>_to_cypher_value\<close>. What the code relies on from the database is the
  locale \<open>cypher_service\<close>; \<open>mem_exec\<close> is a database that satisfies it.
\<close>

subsection \<open>Statements and rows\<close>

datatype cypher =
    Create string "cypher_lit pydict"
  | MatchId string
  | MatchIdSet string "cypher_lit pydict"
  | DetachDelete string
  | MatchLabel string "cypher_lit pydict"
  | MatchTasks "cypher_lit pydict"
  | MatchOwnedTasks string
  | MatchGoalTasks string
  | MatchIds "string list"
  | CreateEdge string string string "cypher_lit pydict"
  | MatchEdges string string "string option"
  | DeleteEdge string
  | DeleteEdgeWhere string string
  | CreateReferring string string "cypher_lit pydict"

datatype row = NodeRow props | EdgeRow string props pval

type_synonym 'g database = "cypher \<Rightarrow> 'g \<Rightarrow> row list \<times> 'g"

datatype py_error =
    InsufficientPrivilegeError "string list"
  | ACLContextMissingError
  | PyValueError string
  | CypherSyntaxError
  | PyAttributeError
  | PyTypeError
  | PyKeyError string
  | UnboundLocalError string
  | TransitionRejected transition_error
  | TombstoneCycle string
  | MaxHopsExceeded string
  | FuelExhausted

subsection \<open>The store object and the state around it\<close>

record store_cfg =
  principal_name :: string
  embedding_client :: bool
  no_delete_enforcement :: bool

record 'g session =
  graph :: 'g
  spawned :: "props list"
  notified :: "(string \<times> string) list"

type_synonym ('g, 'a) op = "('g session, py_error, 'a) io"

record CallerContext =
  cc_user_id :: string
  cc_org_id :: string
  cc_principal :: string
  cc_session_id :: "string option"

definition system_caller_context :: "string \<Rightarrow> CallerContext" where
  "system_caller_context prin = \<lparr>cc_user_id = ''system'', cc_org_id = ''system'',
     cc_principal = prin, cc_session_id = None\<rparr>"

definition require_caller_context :: "store_cfg \<Rightarrow> CallerContext option \<Rightarrow> py_error + unit" where
  "require_caller_context cfg ctx =
     (if ctx \<noteq> None then Inr ()
      else if \<not> no_delete_enforcement cfg then Inr ()
      else Inl ACLContextMissingError)"

definition create_graph_store :: "string \<Rightarrow> bool \<Rightarrow> py_error + store_cfg" where
  "create_graph_store backend enforcement =
     (if backend = ''age''
      then Inr \<lparr>principal_name = ''agent_principal'', embedding_client = False,
             no_delete_enforcement = enforcement\<rparr>
      else Inl (PyValueError backend))"

subsection \<open>Helpers\<close>

text \<open>\<open>_KEY_RE\<close> and \<open>_EDGE_TYPE_RE\<close>.\<close>

definition KEY_RE_match :: "string \<Rightarrow> bool" where
  "KEY_RE_match k \<longleftrightarrow> (case chomp k of [] \<Rightarrow> False
     | c # cs \<Rightarrow> (is_upper c \<or> is_lower c \<or> c = CHR ''_'') \<and>
         list_all (\<lambda>x. is_upper x \<or> is_lower x \<or> is_digit x \<or> x = CHR ''_'') cs)"

definition EDGE_TYPE_RE_match :: "string \<Rightarrow> bool" where
  "EDGE_TYPE_RE_match t \<longleftrightarrow> chomp t \<noteq> [] \<and> list_all (\<lambda>x. is_upper x \<or> x = CHR ''_'') (chomp t)"

fun to_cypher_map :: "props \<Rightarrow> py_error + cypher_lit pydict" where
  "to_cypher_map [] = Inr []"
| "to_cypher_map ((k, v) # d) =
     (if \<not> KEY_RE_match k then Inl (PyValueError k)
      else bindE (to_cypher_map d) (\<lambda>m. Inr ((k, to_cypher_value v) # m)))"

definition TASK_TYPE_LABEL :: "string pydict" where
  "TASK_TYPE_LABEL =
     [(''ATOMIC'', ''TaskAtomic''), (''COMPOSITE'', ''TaskComposite''),
      (''DELEGATED'', ''TaskDelegated''), (''FOLLOWUP'', ''TaskFollowUp''),
      (''APPROVAL'', ''TaskApproval''), (''MILESTONE'', ''TaskMilestone''),
      (''REVIEW'', ''TaskReview''), (''RECURRING'', ''TaskRecurring''),
      (''DECISION'', ''TaskDecision''), (''CHECKIN'', ''TaskCheckin''),
      (''RESEARCH'', ''TaskResearch'')]"

definition to_lower :: "char \<Rightarrow> char" where
  "to_lower c = (if is_upper c then char_of ((of_char c :: nat) + 32) else c)"

definition capitalize :: "string \<Rightarrow> string" where
  "capitalize s = (case s of [] \<Rightarrow> [] | c # cs \<Rightarrow> to_upper c # map to_lower cs)"

text \<open>A node object: a task, or another model with its \<open>node_type\<close>, class name and dump.\<close>

datatype node_obj = TaskObj TaskNode | OtherObj "string option" string props

fun node_dump :: "node_obj \<Rightarrow> props" where
  "node_dump (TaskObj t) = task_dump t"
| "node_dump (OtherObj _ _ d) = d"

fun resolve_label :: "node_obj \<Rightarrow> string" where
  "resolve_label (TaskObj t) =
     (let type_str = map to_upper (TaskType_value (task_type t))
      in dict_get_default TASK_TYPE_LABEL type_str (''Task'' @ capitalize type_str))"
| "resolve_label (OtherObj (Some nt) cls d) = nt"
| "resolve_label (OtherObj None cls d) = cls"

text \<open>Python's truth value, and the text behind a string value.\<close>

fun truthy :: "pval \<Rightarrow> bool" where
  "truthy PNone = False"
| "truthy (PBool b) = b"
| "truthy (PInt i) = (i \<noteq> 0)"
| "truthy (PFloat r) = (r \<noteq> 0)"
| "truthy (PStr s) = (s \<noteq> [])"
| "truthy (PTime _) = True"
| "truthy (PJson _) = True"
| "truthy (PList vs) = (vs \<noteq> [])"
| "truthy (PDict d) = (d \<noteq> [])"

definition get_truthy :: "props \<Rightarrow> string \<Rightarrow> bool" where
  "get_truthy d k = (case dict_get d k of None \<Rightarrow> False | Some v \<Rightarrow> truthy v)"

fun str_startswith :: "string \<Rightarrow> pval \<Rightarrow> bool" where
  "str_startswith p (PStr s) = starts_with p s"
| "str_startswith p _ = False"

text \<open>\<open>fetchone\<close> and \<open>fetchall\<close> with \<open>_extract_properties\<close>.\<close>

fun extract_properties :: "row \<Rightarrow> props" where
  "extract_properties (NodeRow p) = p"
| "extract_properties (EdgeRow _ p _) = p"

definition run_query :: "'g database \<Rightarrow> cypher \<Rightarrow> ('g, row list) op" where
  "run_query exec q = (\<lambda>s. let (rows, g) = exec q (graph s) in (Inr rows, s\<lparr>graph := g\<rparr>))"

definition spawn_embedding :: "props \<Rightarrow> ('g, unit) op" where
  "spawn_embedding p = (\<lambda>s. (Inr (), s\<lparr>spawned := spawned s @ [p]\<rparr>))"

definition whenS :: "bool \<Rightarrow> ('g, unit) op \<Rightarrow> ('g, unit) op" where
  "whenS b m = (if b then m else returnS ())"

subsection \<open>Vertices\<close>

definition create_node ::
  "'g database \<Rightarrow> store_cfg \<Rightarrow> node_obj \<Rightarrow> CallerContext option \<Rightarrow> ('g, props) op" where
  "create_node exec cfg node ctx =
     bindS (liftS (require_caller_context cfg ctx)) (\<lambda>_.
     let props = node_dump node; label = resolve_label node
     in bindS (liftS (to_cypher_map props)) (\<lambda>cypher_map.
        bindS (run_query exec (Create label cypher_map)) (\<lambda>rows.
        let created = (case rows of [] \<Rightarrow> props | r # _ \<Rightarrow> extract_properties r)
        in bindS (whenS (starts_with ''Task'' label \<and> embedding_client cfg)
             (spawn_embedding created)) (\<lambda>_. returnS created))))"

definition get_node ::
  "'g database \<Rightarrow> store_cfg \<Rightarrow> string \<Rightarrow> bool \<Rightarrow> CallerContext option \<Rightarrow> ('g, props option) op" where
  "get_node exec cfg nid include_archived ctx =
     bindS (liftS (require_caller_context cfg ctx)) (\<lambda>_.
     bindS (run_query exec (MatchId nid)) (\<lambda>rows.
       case rows of [] \<Rightarrow> returnS None
       | r # _ \<Rightarrow>
          let props = extract_properties r
          in if \<not> include_archived \<and> get_truthy props ''archived_at'' then returnS None
             else returnS (Some props)))"

definition LIFECYCLE_FIELDS :: "string list" where
  "LIFECYCLE_FIELDS =
     [''archived_at'', ''archived_by'', ''archive_reason'', ''purge_after'',
      ''purge_cancelled_at'', ''legal_hold'', ''hold_reason'', ''hold_set_by'', ''hold_set_at'',
      ''link_status'']"

definition forbidden_fields :: "props \<Rightarrow> string list" where
  "forbidden_fields updates = sort (filter (\<lambda>k. k \<in> set (dict_keys updates)) LIFECYCLE_FIELDS)"

text \<open>The fragments \<open>n.key = value\<close> of the SET clause.\<close>

definition set_lits :: "props \<Rightarrow> cypher_lit pydict" where
  "set_lits updates = map (\<lambda>(k, v). (k, to_cypher_value v)) updates"

definition update_node ::
  "'g database \<Rightarrow> store_cfg \<Rightarrow> string \<Rightarrow> props \<Rightarrow> CallerContext option \<Rightarrow> ('g, props option) op" where
  "update_node exec cfg nid updates ctx =
     bindS (liftS (require_caller_context cfg ctx)) (\<lambda>_.
     bindS (if principal_name cfg = ''agent_principal'' \<and> forbidden_fields updates \<noteq> []
            then raiseS (InsufficientPrivilegeError (forbidden_fields updates))
            else returnS ()) (\<lambda>_.
     bindS (if updates = [] then raiseS CypherSyntaxError else returnS ()) (\<lambda>_.
     bindS (run_query exec (MatchIdSet nid (set_lits updates)))
       (\<lambda>rows. case rows of [] \<Rightarrow> returnS None
         | r # _ \<Rightarrow>
            let updated = extract_properties r;
                label = dict_get_default updated ''node_type''
                          (dict_get_default updated ''label'' (PStr ''''))
            in bindS (whenS (truthy label \<and> str_startswith ''Task'' label \<and> embedding_client cfg)
                 (spawn_embedding updated)) (\<lambda>_. returnS (Some updated))))))"

definition delete_node :: "'g database \<Rightarrow> string \<Rightarrow> ('g, unit) op" where
  "delete_node exec nid = bindS (run_query exec (DetachDelete nid)) (\<lambda>_. returnS ())"

definition list_nodes ::
  "'g database \<Rightarrow> store_cfg \<Rightarrow> string \<Rightarrow> props \<Rightarrow> CallerContext option \<Rightarrow> ('g, props list) op" where
  "list_nodes exec cfg label filters ctx =
     bindS (liftS (require_caller_context cfg ctx)) (\<lambda>_.
     bindS (if label \<noteq> ''TaskNode'' \<and> \<not> KEY_RE_match label then raiseS (PyValueError label)
            else returnS ()) (\<lambda>_.
     bindS (liftS (to_cypher_map filters)) (\<lambda>whr.
     bindS (run_query exec
         (if label = ''TaskNode'' then MatchTasks whr else MatchLabel label whr))
       (\<lambda>rows. returnS (map extract_properties rows)))))"

text \<open>
  \<open>deduped[str(props.get("id", ""))] = props\<close>: the first occurrence fixes the place, the last
  one the value.
\<close>

definition dedupe_rows :: "row list \<Rightarrow> props list" where
  "dedupe_rows rows =
     map snd (foldl (\<lambda>d r. let p = extract_properties r
        in case dict_get p ''id'' of
             Some (PStr i) \<Rightarrow> if i = '''' then d else dict_set i p d
           | _ \<Rightarrow> d) [] rows)"

definition list_nodes_by_user ::
  "'g database \<Rightarrow> store_cfg \<Rightarrow> string \<Rightarrow> string \<Rightarrow> ('g, props list) op" where
  "list_nodes_by_user exec cfg label user_id =
     (if label \<noteq> ''TaskNode''
      then list_nodes exec cfg label [(''owned_by'', PStr user_id)] None
      else bindS (run_query exec (MatchOwnedTasks user_id)) (\<lambda>rows1.
           bindS (run_query exec (MatchTasks [(''owned_by'', CStr (PStr user_id))])) (\<lambda>rows2.
             returnS (dedupe_rows (rows1 @ rows2)))))"

definition list_nodes_for_goal :: "'g database \<Rightarrow> string \<Rightarrow> ('g, props list) op" where
  "list_nodes_for_goal exec goal_id =
     bindS (run_query exec (MatchGoalTasks goal_id)) (\<lambda>rows.
       returnS (map extract_properties rows))"

definition get_nodes_bulk :: "'g database \<Rightarrow> string list \<Rightarrow> ('g, props pydict) op" where
  "get_nodes_bulk exec node_ids =
     (if node_ids = [] then returnS []
      else bindS (run_query exec (MatchIds node_ids)) (\<lambda>rows.
        returnS (foldl (\<lambda>out r. let p = extract_properties r
           in case dict_get p ''id'' of
                Some (PStr i) \<Rightarrow> if i = '''' then out else dict_set i p out
              | _ \<Rightarrow> out) [] rows)))"

definition update_node_intelligence ::
  "'g database \<Rightarrow> py_datetime \<Rightarrow> string \<Rightarrow> string \<Rightarrow> ('g, unit) op" where
  "update_node_intelligence exec now nid txt =
     bindS (run_query exec (MatchIdSet nid
        [(''intelligence'', CStr (PStr txt)), (''updated_at'', CStr (PTime now))]))
       (\<lambda>_. returnS ())"

definition get_node_intelligence :: "'g database \<Rightarrow> string \<Rightarrow> ('g, pval option) op" where
  "get_node_intelligence exec nid =
     bindS (run_query exec (MatchId nid)) (\<lambda>rows.
       case rows of [] \<Rightarrow> returnS None
       | r # _ \<Rightarrow> returnS (dict_get (extract_properties r) ''intelligence''))"

definition create_checkin_node ::
  "'g database \<Rightarrow> string \<Rightarrow> py_datetime \<Rightarrow> string \<Rightarrow> string \<Rightarrow> string \<Rightarrow> string \<Rightarrow> string
     \<Rightarrow> ('g, string) op" where
  "create_checkin_node exec uuid now task_id outbound_message channel agent_id recipient =
     (let checkin_id = generate_id ''CHK'' uuid
      in bindS (run_query exec (CreateReferring ''CheckinNode'' task_id
          [(''id'', CStr (PStr checkin_id)), (''created_at'', CStr (PTime now)),
           (''updated_at'', CStr (PTime now)), (''version'', CInt 1),
           (''target_resource'', CStr (PStr recipient)), (''created_by'', CStr (PStr agent_id)),
           (''task_refs'', CList [CStr (PStr task_id)]), (''state'', CStr (PStr ''SCHEDULED'')),
           (''outbound_message'', CStr (PStr outbound_message)),
           (''channel'', CStr (PStr channel))])) (\<lambda>_. returnS checkin_id))"

definition get_resource_with_linked_view ::
  "'g database \<Rightarrow> store_cfg \<Rightarrow> string \<Rightarrow> CallerContext option \<Rightarrow> ('g, props option) op" where
  "get_resource_with_linked_view exec cfg rid ctx =
     bindS (get_node exec cfg rid False ctx) (\<lambda>res.
       case res of None \<Rightarrow> returnS None
       | Some resource \<Rightarrow>
          (case dict_get resource ''linked_user_id'' of
             Some (PStr uid) \<Rightarrow>
               if uid = '''' then returnS (Some resource)
               else bindS (get_node exec cfg uid False ctx) (\<lambda>linked.
                 case linked of None \<Rightarrow> returnS (Some resource)
                 | Some user \<Rightarrow>
                    let m1 = (case dict_get user ''preferences'' of None \<Rightarrow> resource
                              | Some v \<Rightarrow> dict_set ''preferences'' v resource);
                        m2 = (case dict_get user ''identities'' of None \<Rightarrow> m1
                              | Some v \<Rightarrow> dict_set ''identities'' v m1)
                    in returnS (Some m2))
           | _ \<Rightarrow> returnS (Some resource)))"

subsection \<open>Edges\<close>

definition create_edge ::
  "'g database \<Rightarrow> string \<Rightarrow> string \<Rightarrow> string \<Rightarrow> props \<Rightarrow> ('g, props) op" where
  "create_edge exec source_id target_id edge_type properties =
     bindS (liftS (to_cypher_map properties)) (\<lambda>cypher_map.
     bindS (run_query exec (CreateEdge source_id target_id edge_type cypher_map)) (\<lambda>rows.
       returnS (case rows of [] \<Rightarrow> properties | r # _ \<Rightarrow> extract_properties r)))"

fun edge_dict :: "string \<Rightarrow> string \<Rightarrow> row \<Rightarrow> props list" where
  "edge_dict nid direction (EdgeRow label p other_id) =
     [let p1 = dict_set ''_label'' (PStr label) p
      in if direction = ''out''
         then dict_set ''_end_id'' other_id (dict_set ''_start_id'' (PStr nid) p1)
         else dict_set ''_end_id'' (PStr nid) (dict_set ''_start_id'' other_id p1)]"
| "edge_dict nid direction (NodeRow _) = []"

definition get_edges ::
  "'g database \<Rightarrow> string \<Rightarrow> string \<Rightarrow> string option \<Rightarrow> ('g, props list) op" where
  "get_edges exec nid direction edge_type =
     bindS (case edge_type of None \<Rightarrow> returnS ()
            | Some ty \<Rightarrow> if \<not> EDGE_TYPE_RE_match ty then raiseS (PyValueError ty)
                         else returnS ()) (\<lambda>_.
     bindS (run_query exec (MatchEdges direction nid edge_type)) (\<lambda>rows.
       returnS (concat (map (edge_dict nid direction) rows))))"

definition delete_edge :: "'g database \<Rightarrow> string \<Rightarrow> ('g, unit) op" where
  "delete_edge exec edge_id =
     (if \<not> (edge_id \<noteq> '''' \<and> list_all is_digit edge_id) then raiseS (PyValueError edge_id)
      else bindS (run_query exec (DeleteEdge edge_id)) (\<lambda>_. returnS ()))"

definition delete_edge_by_property :: "'g database \<Rightarrow> string \<Rightarrow> string \<Rightarrow> ('g, unit) op" where
  "delete_edge_by_property exec prop_name prop_value =
     bindS (run_query exec (DeleteEdgeWhere prop_name prop_value)) (\<lambda>_. returnS ())"

end
