(* ===== verification/GC_StoreLaws.thy ===== *)
theory GC_StoreLaws
  imports GC_Store
begin

section \<open>What the store relies on, and what it promises\<close>

text \<open>
  The laws of Cypher that the code of the store and its clients rests on, a graph in memory
  that satisfies them, and the contracts of \<open>get_node\<close> and \<open>update_node\<close> that follow.
\<close>

subsection \<open>Property updates\<close>

text \<open>\<open>SET n.k = v\<close>: a null removes the property.\<close>

definition set_props :: "cypher_lit pydict \<Rightarrow> props \<Rightarrow> props" where
  "set_props upd p =
     fold (\<lambda>(k, l) q. if l = CNull then dict_pop k q else dict_set k (read_literal l) q) upd p"

fun set_row :: "cypher_lit pydict \<Rightarrow> row \<Rightarrow> row" where
  "set_row upd (NodeRow p) = NodeRow (set_props upd p)"
| "set_row upd (EdgeRow l p i) = EdgeRow l (set_props upd p) i"

definition keeps_id :: "string \<Rightarrow> cypher_lit pydict \<Rightarrow> bool" where
  "keeps_id i upd \<longleftrightarrow> list_all (\<lambda>(k, l). k = ''id'' \<longrightarrow> l = CStr (PStr i)) upd"

lemma dict_get_set_props:
  "dict_ok upd \<Longrightarrow> dict_get (set_props upd p) k =
     (case dict_get upd k of None \<Rightarrow> dict_get p k
      | Some l \<Rightarrow> if l = CNull then None else Some (read_literal l))"
proof (induction upd arbitrary: p)
  case Nil
  then show ?case by (simp add: set_props_def dict_simps)
next
  case (Cons kl upd)
  obtain k' l where kl: "kl = (k', l)" by fastforce
  from Cons.prems have "dict_get upd k' = None" "dict_ok upd"
    by (auto simp: kl dict_ok_def dict_get_def map_of_eq_None_iff)
  with Cons.IH show ?case
    by (auto simp: kl set_props_def dict_simps split: option.splits)
qed

lemma set_props_keeps_id:
  "keeps_id i upd \<Longrightarrow> dict_get p ''id'' = Some (PStr i) \<Longrightarrow>
     dict_get (set_props upd p) ''id'' = Some (PStr i)"
  by (induction upd arbitrary: p) (auto simp: set_props_def keeps_id_def dict_simps)

lemma extract_set_row [simp]: "extract_properties (set_row upd r) = set_props upd (extract_properties r)"
  by (cases r) simp_all

subsection \<open>The database\<close>

locale cypher_service =
  fixes exec :: "'g database"
  assumes match_reads: "snd (exec (MatchId i) g) = g"
    and edges_read: "snd (exec (MatchEdges dr i ty) g) = g"
    and label_reads: "snd (exec (MatchLabel lb fs) g) = g"
    and match_id: "r \<in> set (fst (exec (MatchId i) g)) \<Longrightarrow>
      dict_get (extract_properties r) ''id'' = Some (PStr i)"
    and set_rows: "fst (exec (MatchIdSet i upd) g) = map (set_row upd) (fst (exec (MatchId i) g))"
    and set_match: "keeps_id i upd \<Longrightarrow>
      fst (exec (MatchId j) (snd (exec (MatchIdSet i upd) g))) =
        (if j = i then map (set_row upd) (fst (exec (MatchId i) g)) else fst (exec (MatchId j) g))"
    and set_edges: "keeps_id i upd \<Longrightarrow>
      fst (exec (MatchEdges dr j ty) (snd (exec (MatchIdSet i upd) g))) =
        fst (exec (MatchEdges dr j ty) g)"
    and finite_ids: "finite {i. fst (exec (MatchId i) g) \<noteq> []}"

text \<open>The vertex \<open>fetchone\<close> gives for an id.\<close>

definition fetch :: "'g database \<Rightarrow> 'g \<Rightarrow> string \<Rightarrow> props option" where
  "fetch exec g i =
     (case fst (exec (MatchId i) g) of [] \<Rightarrow> None | r # _ \<Rightarrow> Some (extract_properties r))"

definition visible :: "bool \<Rightarrow> props option \<Rightarrow> props option" where
  "visible include_archived x =
     (case x of None \<Rightarrow> None
      | Some p \<Rightarrow> if \<not> include_archived \<and> get_truthy p ''archived_at'' then None else Some p)"

lemma dict_ok_set_lits [simp]: "dict_ok (set_lits d) = dict_ok d"
  by (simp add: dict_ok_def set_lits_def comp_def split_def)

lemma dict_get_set_lits: "dict_get (set_lits d) k = map_option to_cypher_value (dict_get d k)"
  by (simp add: dict_get_def set_lits_def map_of_map)

lemma to_cypher_value_None [simp]: "to_cypher_value v = CNull \<longleftrightarrow> v = PNone"
  by (cases v) simp_all

text \<open>After an update the row offers what a fresh row offers, for every key of the update.\<close>

lemma dict_get_set_props_dump:
  "dict_ok d \<Longrightarrow> dict_get (set_props (set_lits d) p) k =
     (case dict_get d k of None \<Rightarrow> dict_get p k
      | Some v \<Rightarrow> if v = PNone then None else Some (stored v))"
  by (auto simp: dict_get_set_props dict_get_set_lits stored_def split: option.splits)

context cypher_service
begin

lemma fetch_id: "fetch exec g i = Some p \<Longrightarrow> dict_get p ''id'' = Some (PStr i)"
  using match_id [of _ i g] by (auto simp: fetch_def split: list.splits)

lemma fetch_set:
  assumes "keeps_id i upd"
  shows "fetch exec (snd (exec (MatchIdSet i upd) g)) j =
    (if j = i then map_option (set_props upd) (fetch exec g i) else fetch exec g j)"
  by (cases "fst (exec (MatchId i) g)") (simp_all add: fetch_def set_match [OF assms])

lemma run_match: "run_query exec (MatchId i) s = (Inr (fst (exec (MatchId i) (graph s))), s)"
  using match_reads [of i "graph s"] by (simp add: run_query_def split_def)

lemma run_edges:
  "run_query exec (MatchEdges dr i ty) s = (Inr (fst (exec (MatchEdges dr i ty) (graph s))), s)"
  using edges_read [of dr i ty "graph s"] by (simp add: run_query_def split_def)

lemma run_label:
  "run_query exec (MatchLabel lb fs) s = (Inr (fst (exec (MatchLabel lb fs) (graph s))), s)"
  using label_reads [of lb fs "graph s"] by (simp add: run_query_def split_def)

lemma get_node_eq:
  "get_node exec cfg i arch ctx s =
     (case require_caller_context cfg ctx of Inl e \<Rightarrow> (Inl e, s)
      | Inr _ \<Rightarrow> (Inr (visible arch (fetch exec (graph s) i)), s))"
  by (simp add: get_node_def bindS_unfold run_match fetch_def visible_def Let_def
      split: sum.split list.split)

text \<open>The one way \<open>update_node\<close> can change the graph.\<close>

lemma update_node_cases:
  assumes "update_node exec cfg i upd ctx s = (r, s')"
  obtains (refused) e where "s' = s" "r = Inl e" "e \<noteq> FuelExhausted"
    | (written) "principal_name cfg = ''agent_principal'' \<Longrightarrow> forbidden_fields upd = []"
      "graph s' = snd (exec (MatchIdSet i (set_lits upd)) (graph s))" "notified s' = notified s"
      "r = Inr (map_option (set_props (set_lits upd)) (fetch exec (graph s) i))"
proof -
  consider (a) e where "require_caller_context cfg ctx = Inl e"
    | (b) "require_caller_context cfg ctx = Inr ()"
    by (cases "require_caller_context cfg ctx") auto
  then show ?thesis
  proof cases
    case a
    with assms show ?thesis
      by (intro refused) (auto simp: update_node_def bindS_unfold require_caller_context_def
        split: if_splits)
  next
    case b
    note upd = assms [unfolded update_node_def b, simplified]
    show ?thesis
    proof (cases "(principal_name cfg = ''agent_principal'' \<and> forbidden_fields upd \<noteq> []) \<or> upd = []")
      case True
      with upd refused show ?thesis by (auto simp: bindS_unfold split: if_splits)
    next
      case False
      have rows: "fst (exec (MatchIdSet i (set_lits upd)) (graph s)) =
          map (set_row (set_lits upd)) (fst (exec (MatchId i) (graph s)))"
        by (rule set_rows)
      show ?thesis
        by (rule written)
          (use upd False rows in \<open>auto simp: bindS_unfold run_query_def split_def
            fetch_def whenS_def spawn_embedding_def Let_def
            split: list.splits if_splits\<close>)
    qed
  qed
qed

text \<open>When it writes.\<close>

lemma update_node_writes:
  assumes "require_caller_context cfg ctx = Inr ()" "upd \<noteq> []"
    and "principal_name cfg = ''agent_principal'' \<Longrightarrow> forbidden_fields upd = []"
  shows "\<exists>v. fst (update_node exec cfg i upd ctx s) = Inr v"
  using assms by (cases "fst (exec (MatchIdSet i (set_lits upd)) (graph s))")
    (auto simp: update_node_def bindS_unfold run_query_def split_def
      whenS_def spawn_embedding_def Let_def)

lemma update_node_refuses:
  assumes "require_caller_context cfg ctx = Inr ()" "principal_name cfg = ''agent_principal''"
    "forbidden_fields upd \<noteq> []"
  shows "update_node exec cfg i upd ctx s = (Inl (InsufficientPrivilegeError (forbidden_fields upd)), s)"
  using assms by (simp add: update_node_def bindS_unfold)

end

subsection \<open>A graph in memory\<close>

record relation =
  rel_id :: nat
  rel_type :: string
  rel_src :: string
  rel_tgt :: string
  rel_props :: props

record mem_graph =
  vertices :: "(string \<times> props) list"
  relations :: "relation list"
  next_rel :: nat

definition has_id :: "string \<Rightarrow> string \<times> props \<Rightarrow> bool" where
  "has_id i v \<longleftrightarrow> dict_get (snd v) ''id'' = Some (PStr i)"

definition prop_match :: "cypher_lit pydict \<Rightarrow> string \<times> props \<Rightarrow> bool" where
  "prop_match fs v \<longleftrightarrow>
     list_all (\<lambda>(k, l). l \<noteq> CNull \<and> dict_get (snd v) k = Some (read_literal l)) fs"

definition is_task_vertex :: "string \<times> props \<Rightarrow> bool" where
  "is_task_vertex v \<longleftrightarrow> dict_get (snd v) ''task_type'' \<noteq> None"

definition rel_ok :: "string option \<Rightarrow> relation \<Rightarrow> bool" where
  "rel_ok ty r \<longleftrightarrow> (case ty of None \<Rightarrow> True | Some t \<Rightarrow> rel_type r = t)"

definition points :: "mem_graph \<Rightarrow> string \<Rightarrow> string \<Rightarrow> string \<times> props \<Rightarrow> bool" where
  "points g ty i v \<longleftrightarrow>
     list_ex (\<lambda>r. rel_type r = ty \<and> rel_tgt r = i \<and> has_id (rel_src r) v) (relations g)"

definition out_row :: "relation \<Rightarrow> row" where
  "out_row r = EdgeRow (rel_type r) (rel_props r) (PStr (rel_tgt r))"

definition in_row :: "relation \<Rightarrow> row" where
  "in_row r = EdgeRow (rel_type r) (rel_props r) (PStr (rel_src r))"

definition node_rows :: "(string \<times> props) list \<Rightarrow> row list" where
  "node_rows vs = map (\<lambda>v. NodeRow (snd v)) vs"

definition add_relation ::
  "string \<Rightarrow> string \<Rightarrow> string \<Rightarrow> props \<Rightarrow> mem_graph \<Rightarrow> mem_graph" where
  "add_relation ty s t p g = g\<lparr>relations := relations g @
     [\<lparr>rel_id = next_rel g, rel_type = ty, rel_src = s, rel_tgt = t, rel_props = p\<rparr>],
     next_rel := next_rel g + 1\<rparr>"

definition digits_value :: "string \<Rightarrow> nat" where
  "digits_value ds = foldl (\<lambda>n c. 10 * n + (of_char c - 48)) 0 ds"

definition new_vertex_id :: "props \<Rightarrow> string" where
  "new_vertex_id p = (case dict_get p ''id'' of Some (PStr i) \<Rightarrow> i | _ \<Rightarrow> '''')"

fun mem_exec :: "mem_graph database" where
  "mem_exec (Create lb m) g =
     ([NodeRow (set_props m [])], g\<lparr>vertices := vertices g @ [(lb, set_props m [])]\<rparr>)"
| "mem_exec (MatchId i) g = (node_rows (filter (has_id i) (vertices g)), g)"
| "mem_exec (MatchIdSet i upd) g =
     (map (set_row upd) (node_rows (filter (has_id i) (vertices g))),
      g\<lparr>vertices :=
          map (\<lambda>v. if has_id i v then (fst v, set_props upd (snd v)) else v) (vertices g)\<rparr>)"
| "mem_exec (DetachDelete i) g = ([],
     g\<lparr>vertices := filter (\<lambda>v. \<not> has_id i v) (vertices g),
       relations := filter (\<lambda>r. rel_src r \<noteq> i \<and> rel_tgt r \<noteq> i) (relations g)\<rparr>)"
| "mem_exec (MatchLabel lb fs) g =
     (node_rows (filter (\<lambda>v. fst v = lb \<and> prop_match fs v) (vertices g)), g)"
| "mem_exec (MatchTasks fs) g =
     (node_rows (filter (\<lambda>v. is_task_vertex v \<and> prop_match fs v) (vertices g)), g)"
| "mem_exec (MatchOwnedTasks u) g =
     (node_rows (filter (\<lambda>v. is_task_vertex v \<and> points g ''OWNED_BY'' u v) (vertices g)), g)"
| "mem_exec (MatchGoalTasks i) g =
     (node_rows (filter (\<lambda>v. is_task_vertex v \<and> points g ''PART_OF'' i v) (vertices g)), g)"
| "mem_exec (MatchIds is) g =
     (node_rows (filter (\<lambda>v. list_ex (\<lambda>i. has_id i v) is) (vertices g)), g)"
| "mem_exec (CreateEdge s t ty m) g =
     (if list_ex (has_id s) (vertices g) \<and> list_ex (has_id t) (vertices g)
      then ([EdgeRow ty (set_props m []) PNone], add_relation ty s t (set_props m []) g)
      else ([], g))"
| "mem_exec (MatchEdges dr i ty) g =
     ((if dr = ''in'' then []
       else map out_row (filter (\<lambda>r. rel_src r = i \<and> rel_ok ty r) (relations g))) @
      (if dr = ''out'' then []
       else map in_row (filter (\<lambda>r. rel_tgt r = i \<and> rel_ok ty r) (relations g))), g)"
| "mem_exec (DeleteEdge e) g =
     ([], g\<lparr>relations := filter (\<lambda>r. rel_id r \<noteq> digits_value e) (relations g)\<rparr>)"
| "mem_exec (DeleteEdgeWhere k v) g =
     ([], g\<lparr>relations := filter (\<lambda>r. dict_get (rel_props r) k \<noteq> Some (PStr v)) (relations g)\<rparr>)"
| "mem_exec (CreateReferring lb t m) g =
     (if list_ex (has_id t) (vertices g)
      then ([NodeRow (set_props m [])],
        add_relation ''REFERRED_BY'' (new_vertex_id (set_props m [])) t []
          (g\<lparr>vertices := vertices g @ [(lb, set_props m [])]\<rparr>))
      else ([], g))"

lemma has_id_set:
  "keeps_id i upd \<Longrightarrow>
     has_id j (if has_id i v then (fst v, set_props upd (snd v)) else v) = has_id j v"
  by (auto simp: has_id_def set_props_keeps_id)

interpretation mem: cypher_service mem_exec
proof
  fix i j :: string and upd and g :: mem_graph
  assume k: "keeps_id i upd"
  have "filter (has_id j) (map (\<lambda>v. if has_id i v then (fst v, set_props upd (snd v)) else v) vs) =
      map (\<lambda>v. if has_id i v then (fst v, set_props upd (snd v)) else v) (filter (has_id j) vs)" for vs
    by (induction vs) (simp_all add: has_id_set [OF k])
  moreover have "has_id i v \<Longrightarrow> has_id j v \<Longrightarrow> i = j" for v
    by (simp add: has_id_def)
  ultimately show "fst (mem_exec (MatchId j) (snd (mem_exec (MatchIdSet i upd) g))) =
      (if j = i then map (set_row upd) (fst (mem_exec (MatchId i) g))
       else fst (mem_exec (MatchId j) g))"
    by (auto simp: node_rows_def)
next
  fix g :: mem_graph
  have "{i. fst (mem_exec (MatchId i) g) \<noteq> []} \<subseteq>
      (\<lambda>v. new_vertex_id (snd v)) ` set (vertices g)"
    by (force simp: node_rows_def filter_empty_conv has_id_def new_vertex_id_def)
  then show "finite {i. fst (mem_exec (MatchId i) g) \<noteq> []}"
    by (rule finite_subset) simp
qed (auto simp: node_rows_def has_id_def)

subsection \<open>What the store promises for tasks\<close>

lemma keeps_id_dump: "keeps_id (node_id t) (set_lits (task_dump t))"
  by (simp add: keeps_id_def set_lits_def task_dump_def)

lemma task_dump_nonempty: "task_dump t \<noteq> []"
  by (simp add: task_dump_def)

lemma task_validate_cong:
  assumes "\<And>k. k \<in> set (dict_keys (task_dump t)) \<Longrightarrow> g k = h k"
  shows "task_validate g = task_validate h"
  using assms by (simp add: task_validate_def req_def dfl_def dict_keys_def task_dump_def)

text \<open>Writing a dump over any row leaves a row that reads like the dump alone.\<close>

lemma load_after_set:
  "load_task loads (set_props (set_lits (task_dump t)) p) = load_task loads (row_of (task_dump t))"
  unfolding load_task_def
proof (rule task_validate_cong [of t])
  fix k assume "k \<in> set (dict_keys (task_dump t))"
  then obtain v where "dict_get (task_dump t) k = Some v"
    using dict_get_eq_None by fastforce
  then show "dict_get (deserialize_task_node_props loads (set_props (set_lits (task_dump t)) p)) k =
      dict_get (deserialize_task_node_props loads (row_of (task_dump t))) k"
    by (simp add: dict_get_deserialize dict_get_set_props_dump dict_get_row_of task_dump_ok
        row_value_def)
qed

lemma dump_keys: "dict_keys (task_dump t) = dict_keys (task_dump (example_task TaskType.ATOMIC))"
  by (simp add: dict_keys_def task_dump_def)

lemma forbidden_dump: "forbidden_fields (task_dump t) = sort LIFECYCLE_FIELDS"
proof -
  have "filter (\<lambda>k. k \<in> set (dict_keys (task_dump t))) LIFECYCLE_FIELDS = LIFECYCLE_FIELDS"
    by (simp add: dict_keys_def task_dump_def LIFECYCLE_FIELDS_def)
  then show ?thesis by (simp add: forbidden_fields_def)
qed

lemma sorted_lifecycle_nonempty: "sort LIFECYCLE_FIELDS \<noteq> []"
proof -
  have "set (sort LIFECYCLE_FIELDS) \<noteq> {}" by (simp add: LIFECYCLE_FIELDS_def)
  then show ?thesis by (metis empty_set)
qed

text \<open>A store made by \<open>create_graph_store\<close> is bound to \<open>agent_principal\<close>, and for it
\<open>update_node\<close> with a task's full \<open>model_dump\<close>, the way \<open>state/cascade.py\<close> persists every
transition, always raises \<open>InsufficientPrivilegeError\<close> over all ten lifecycle fields and writes
nothing: the dump carries those keys whether they are set or not.\<close>

theorem agent_dump_refused:
  assumes "create_graph_store backend enforcement = Inr cfg"
    and "require_caller_context cfg ctx = Inr ()"
  shows "update_node exec cfg i (task_dump t) ctx s =
    (Inl (InsufficientPrivilegeError (sort LIFECYCLE_FIELDS)), s)"
  using assms
  by (auto simp: update_node_def bindS_unfold create_graph_store_def forbidden_dump
      sorted_lifecycle_nonempty split: if_splits)

theorem agent_dump_refused_witness:
  "fst (update_node mem_exec
     \<lparr>principal_name = ''agent_principal'', embedding_client = False, no_delete_enforcement = True\<rparr>
     ''TSK-AB-1234-ATM'' (task_dump (example_task TaskType.ATOMIC))
     (Some (system_caller_context ''admin_principal''))
     \<lparr>graph = \<lparr>vertices = [], relations = [], next_rel = 0\<rparr>, spawned = [], notified = []\<rparr>) =
   Inl (InsufficientPrivilegeError (sort LIFECYCLE_FIELDS))"
  by (subst agent_dump_refused [where backend = "''age''" and enforcement = True])
    (simp_all add: create_graph_store_def require_caller_context_def)

lemma forbidden_fields_Nil:
  "forbidden_fields upd = [] \<Longrightarrow> k \<in> set LIFECYCLE_FIELDS \<Longrightarrow> dict_get upd k = None"
proof -
  assume "forbidden_fields upd = []" and k: "k \<in> set LIFECYCLE_FIELDS"
  then have "set (sort (filter (\<lambda>k. k \<in> set (dict_keys upd)) LIFECYCLE_FIELDS)) = {}"
    by (simp add: forbidden_fields_def)
  with k show ?thesis by (auto simp: dict_get_eq_None)
qed

context cypher_service
begin

lemma agent_update_frame:
  assumes "principal_name cfg = ''agent_principal''" "dict_ok updates"
    and "keeps_id i (set_lits updates)" "k \<in> set LIFECYCLE_FIELDS"
    and "update_node exec cfg i updates ctx s = (r, s')"
  shows "map_option (\<lambda>p. dict_get p k) (fetch exec (graph s') j) =
         map_option (\<lambda>p. dict_get p k) (fetch exec (graph s) j)"
  using assms(5)
proof (cases rule: update_node_cases)
  case written
  have "dict_get updates k = None"
    using written(1) assms(1,4) forbidden_fields_Nil by blast
  then show ?thesis
    using written(2) assms(2,3)
    by (auto simp: fetch_set dict_get_set_props dict_get_set_lits option.map_comp comp_def)
qed simp

lemma write_then_read:
  assumes "principal_name cfg \<noteq> ''agent_principal''" "require_caller_context cfg ctx = Inr ()"
    and "fetch exec (graph s) (node_id t) \<noteq> None" "storable loads t"
  shows "\<exists>p s'. update_node exec cfg (node_id t) (task_dump t) ctx s = (Inr (Some p), s') \<and>
    get_node exec cfg (node_id t) True ctx s' = (Inr (Some p), s') \<and> load_task loads p = Some t"
proof -
  obtain p0 where p0: "fetch exec (graph s) (node_id t) = Some p0" using assms(3) by blast
  obtain r s' where run: "update_node exec cfg (node_id t) (task_dump t) ctx s = (r, s')"
    by fastforce
  have "\<exists>v. r = Inr v"
    using update_node_writes [OF assms(2) task_dump_nonempty, of t "node_id t" s] run assms(1)
    by auto
  with run have r: "r = Inr (Some (set_props (set_lits (task_dump t)) p0))"
    and g: "graph s' = snd (exec (MatchIdSet (node_id t) (set_lits (task_dump t))) (graph s))"
    by (auto elim!: update_node_cases simp: p0)
  have "fetch exec (graph s') (node_id t) = Some (set_props (set_lits (task_dump t)) p0)"
    by (simp add: g fetch_set [OF keeps_id_dump] p0)
  moreover have "load_task loads (set_props (set_lits (task_dump t)) p0) = Some t"
    by (subst load_after_set) (simp add: load_task_def loaded_fields validate_loaded assms(4))
  ultimately show ?thesis
    using run r assms(2) by (auto simp: get_node_eq visible_def)
qed

end


definition one_task_session :: "TaskNode \<Rightarrow> mem_graph session" where
  "one_task_session t = \<lparr>graph = \<lparr>vertices = [(resolve_label (TaskObj t), row_of (task_dump t))],
     relations = [], next_rel = 0\<rparr>, spawned = [], notified = []\<rparr>"

definition admin_cfg :: store_cfg where
  "admin_cfg = \<lparr>principal_name = ''admin_principal'', embedding_client = False,
     no_delete_enforcement = False\<rparr>"

definition agent_cfg :: store_cfg where
  "agent_cfg = \<lparr>principal_name = ''agent_principal'', embedding_client = False,
     no_delete_enforcement = False\<rparr>"

lemmas example_store = one_task_session_def admin_cfg_def agent_cfg_def

lemma one_task_fetch:
  "fetch mem_exec (graph (one_task_session t)) (node_id t) = Some (row_of (task_dump t))"
proof -
  have "dict_get (row_of (task_dump t)) ''id'' = Some (PStr (node_id t))"
    by (simp only: dict_get_row_of task_dump_ok) (simp add: row_value_def task_dump_def dict_simps)
  then show ?thesis
    by (simp add: fetch_def one_task_session_def node_rows_def has_id_def)
qed




lemma upper_value: "map to_upper (TaskType_value tt) = TaskType_value tt"
  by (cases tt) (simp_all add: to_upper_def is_lower_def)

declare resolve_label.simps(1) [simp del]

lemma resolve_label_task:
  "resolve_label (TaskObj t) = (case task_type t of
     TaskType.ATOMIC \<Rightarrow> ''TaskAtomic'' | TaskType.DELEGATED \<Rightarrow> ''TaskDelegated''
   | TaskType.FOLLOWUP \<Rightarrow> ''TaskFollowUp'' | TaskType.APPROVAL \<Rightarrow> ''TaskApproval''
   | TaskType.COMPOSITE \<Rightarrow> ''TaskComposite'' | TaskType.MILESTONE \<Rightarrow> ''TaskMilestone''
   | TaskType.REVIEW \<Rightarrow> ''TaskReview'' | TaskType.RECURRING \<Rightarrow> ''TaskRecurring''
   | TaskType.DECISION \<Rightarrow> ''TaskDecision'' | TaskType.CHECKIN \<Rightarrow> ''TaskCheckin''
   | TaskType.RESEARCH \<Rightarrow> ''TaskResearch'')"
proof -
  have "resolve_label (TaskObj t) = (let v = TaskType_value (task_type t)
      in dict_get_default TASK_TYPE_LABEL v (''Task'' @ capitalize v))"
    by (simp only: resolve_label.simps upper_value)
  then show ?thesis
    by (cases "task_type t")
      (simp_all add: dict_get_default_def TASK_TYPE_LABEL_def dict_get_Cons Let_def)
qed

text \<open>The vertex label of a task tells its type: two tasks have the same label exactly
when they have the same type, every label starts with \<open>Task\<close> and is a valid Cypher name, and
none of them is \<open>TaskNode\<close>, the label \<open>list_follow_up_candidates\<close> matches on.\<close>

theorem task_labels:
  "(resolve_label (TaskObj t) = resolve_label (TaskObj u) \<longleftrightarrow> task_type t = task_type u) \<and>
   starts_with ''Task'' (resolve_label (TaskObj t)) \<and> KEY_RE_match (resolve_label (TaskObj t)) \<and>
   resolve_label (TaskObj t) \<noteq> ''TaskNode''"
proof (intro conjI)
  show "resolve_label (TaskObj t) = resolve_label (TaskObj u) \<longleftrightarrow> task_type t = task_type u"
    by (cases "task_type t"; cases "task_type u") (simp_all add: resolve_label_task)
  show "starts_with ''Task'' (resolve_label (TaskObj t))"
    by (cases "task_type t") (simp_all add: resolve_label_task starts_with_def)
  show "KEY_RE_match (resolve_label (TaskObj t))"
    by (cases "task_type t") (simp_all add: resolve_label_task KEY_RE_match_def chomp_def
          newline_def is_upper_def is_lower_def)
  show "resolve_label (TaskObj t) \<noteq> ''TaskNode''"
    by (cases "task_type t") (simp_all add: resolve_label_task)
qed

end
