(* ===== verification/GC_Cascade.thy ===== *)
theory GC_Cascade
  imports GC_StoreLaws
begin

section \<open>The completion cascade (\<open>state/cascade.py\<close>)\<close>

text \<open>
  What happens when a task completes: its dependents are activated, its parents completed or
  sent to review, and so on upwards, every change written through the store. \<open>clk\<close> gives the
  two clock readings of a transition of a task to a state, \<open>loads\<close> is \<open>json.loads\<close> on plain
  texts. An injected state machine has no state of its own, so it is not an argument. The
  climb from parent to parent is bounded by fuel; \<open>cascade_terminates\<close> says how much is enough.
\<close>

type_synonym clock = "TaskNode \<Rightarrow> TaskState \<Rightarrow> py_datetime \<times> py_datetime"

definition sm_transition ::
  "clock \<Rightarrow> TaskNode \<Rightarrow> TaskState \<Rightarrow> ChangedBy \<Rightarrow> string \<Rightarrow> transition_error + TaskNode" where
  "sm_transition clk task s cb rsn =
     transition (fst (clk task s)) (snd (clk task s)) task s cb rsn"

subsection \<open>Completing a parent\<close>

definition completion_gate_of :: "TaskNode \<Rightarrow> GateType" where
  "completion_gate_of p = (case type_metadata p of
     Some (CompositeMetadata _ g _ _) \<Rightarrow> g | _ \<Rightarrow> GateType.AND)"

definition auto_completes :: "TaskNode \<Rightarrow> bool" where
  "auto_completes p = (case type_metadata p of
     Some (CompositeMetadata _ _ _ b) \<Rightarrow> b | _ \<Rightarrow> True)"

definition low_confidence_children :: "TaskNode list \<Rightarrow> TaskNode list" where
  "low_confidence_children children =
     filter (\<lambda>c. task_type c \<in> {TaskType.RESEARCH, TaskType.REVIEW} \<and>
       confidence (progress c) = ConfidenceLevel.LOW) children"

definition review_reason :: string where
  "review_reason =
     ''Low-confidence child tasks require human review before parent can complete''"

definition complete_reason :: string where
  "complete_reason = ''All required children completed -- cascade auto-complete''"

text \<open>
  One level of the check: the parent as the call leaves it, and whether it got as far as the
  automatic completion (step 6 follows), or the exception of the transition.
\<close>

definition check_level ::
  "clock \<Rightarrow> TaskNode \<Rightarrow> TaskNode list \<Rightarrow> (transition_error + bool) \<times> TaskNode" where
  "check_level clk parent_task children =
     (if state parent_task \<in> {TaskState.COMPLETE, TaskState.CANCELLED} then (Inr False, parent_task)
      else if task_type parent_task \<notin> {TaskType.COMPOSITE, TaskType.MILESTONE}
      then (Inr False, parent_task)
      else if \<not> auto_completes parent_task then (Inr False, parent_task)
      else
        let incomplete = filter (\<lambda>c. state c \<noteq> TaskState.COMPLETE) children;
            pending_review_or_approval =
              filter (\<lambda>c. task_type c \<in> {TaskType.REVIEW, TaskType.APPROVAL}) incomplete
        in if pending_review_or_approval \<noteq> [] then (Inr False, parent_task)
           else if completion_gate_of parent_task = GateType.AND \<and> incomplete \<noteq> []
           then (Inr False, parent_task)
           else if low_confidence_children children \<noteq> []
           then (case sm_transition clk parent_task TaskState.NEEDS_REVIEW ChangedBy.CASCADE review_reason of
                   Inl e \<Rightarrow> (Inl e, parent_task) | Inr p \<Rightarrow> (Inr False, p))
           else (case sm_transition clk parent_task TaskState.COMPLETE ChangedBy.CASCADE complete_reason of
                   Inl e \<Rightarrow> (Inl e, parent_task) | Inr p \<Rightarrow> (Inr True, p)))"

definition check_composite_completion ::
  "clock \<Rightarrow> TaskNode \<Rightarrow> TaskNode list \<Rightarrow> TaskNode option \<Rightarrow> TaskNode list option
     \<Rightarrow> (transition_error + unit) \<times> TaskNode \<times> TaskNode option" where
  "check_composite_completion clk parent_task children grandparent siblings =
     (case check_level clk parent_task children of
        (Inl e, p) \<Rightarrow> (Inl e, p, grandparent)
      | (Inr False, p) \<Rightarrow> (Inr (), p, grandparent)
      | (Inr True, p) \<Rightarrow>
         (case (grandparent, siblings) of
            (Some g, Some sib) \<Rightarrow>
              (case check_level clk g sib of
                 (Inl e, g') \<Rightarrow> (Inl e, p, Some g') | (Inr _, g') \<Rightarrow> (Inr (), p, Some g'))
          | _ \<Rightarrow> (Inr (), p, grandparent)))"

subsection \<open>Reading tasks\<close>

text \<open>\<open>edge.get(key)\<close> with the test \<open>if not ...: continue\<close>.\<close>

definition edge_ref :: "props \<Rightarrow> string \<Rightarrow> string option" where
  "edge_ref edge k = (case dict_get edge k of
     Some (PStr i) \<Rightarrow> if i = '''' then None else Some i | _ \<Rightarrow> None)"

definition read_task ::
  "'g database \<Rightarrow> store_cfg \<Rightarrow> json_loads \<Rightarrow> CallerContext option \<Rightarrow> string
     \<Rightarrow> ('g, TaskNode option) op" where
  "read_task exec cfg loads ctx i =
     bindS (get_node exec cfg i False ctx) (\<lambda>raw.
       returnS (case raw of None \<Rightarrow> None | Some p \<Rightarrow> load_task loads p))"

definition load_children_for_parent ::
  "'g database \<Rightarrow> store_cfg \<Rightarrow> json_loads \<Rightarrow> CallerContext option \<Rightarrow> string
     \<Rightarrow> ('g, TaskNode list) op" where
  "load_children_for_parent exec cfg loads ctx parent_id =
     bindS (get_edges exec parent_id ''in'' (Some ''PART_OF'')) (\<lambda>child_edges.
       forS (\<lambda>edge children.
         case edge_ref edge ''_start_id'' of None \<Rightarrow> returnS children
         | Some child_id \<Rightarrow>
            bindS (read_task exec cfg loads ctx child_id) (\<lambda>child.
              returnS (case child of None \<Rightarrow> children | Some c \<Rightarrow> children @ [c])))
         child_edges [])"

definition activation_reason :: "TaskNode \<Rightarrow> string" where
  "activation_reason t =
     ''Predecessor '' @ node_id t @ '' completed -- activating next in chain''"

definition activate_next_in_chain ::
  "'g database \<Rightarrow> store_cfg \<Rightarrow> json_loads \<Rightarrow> CallerContext option \<Rightarrow> clock \<Rightarrow> TaskNode
     \<Rightarrow> ('g, TaskNode list) op" where
  "activate_next_in_chain exec cfg loads ctx clk completed_task =
     bindS (get_edges exec (node_id completed_task) ''in'' (Some ''DEPENDS_ON'')) (\<lambda>dependent_edges.
       forS (\<lambda>edge activated.
         case edge_ref edge ''_start_id'' of None \<Rightarrow> returnS activated
         | Some dep_id \<Rightarrow>
            bindS (read_task exec cfg loads ctx dep_id) (\<lambda>dep.
              case dep of None \<Rightarrow> returnS activated
              | Some dep_task \<Rightarrow>
                 if state dep_task = TaskState.INACTIVE_PENDING
                 then (case sm_transition clk dep_task TaskState.ACTIVE ChangedBy.CASCADE
                              (activation_reason completed_task) of
                         Inr t \<Rightarrow> returnS (activated @ [t]) | Inl e \<Rightarrow> returnS activated)
                 else returnS activated))
         dependent_edges [])"

subsection \<open>The cascade\<close>

definition persist_task ::
  "'g database \<Rightarrow> store_cfg \<Rightarrow> CallerContext option \<Rightarrow> TaskNode \<Rightarrow> ('g, unit) op" where
  "persist_task exec cfg ctx t =
     bindS (update_node exec cfg (node_id t) (task_dump t) ctx) (\<lambda>_. returnS ())"

definition emit_notification :: "string \<Rightarrow> string \<Rightarrow> ('g, unit) op" where
  "emit_notification user_id task_id =
     (\<lambda>s. (Inr (), s\<lparr>notified := notified s @ [(user_id, task_id)]\<rparr>))"

text \<open>The body of the loop over the parents; \<open>rec\<close> is the cascade of a completed parent.\<close>

definition cascade_parent ::
  "'g database \<Rightarrow> store_cfg \<Rightarrow> json_loads \<Rightarrow> CallerContext option \<Rightarrow> clock
     \<Rightarrow> (TaskNode \<Rightarrow> ('g, TaskNode list) op) \<Rightarrow> props \<Rightarrow> TaskNode list \<Rightarrow> ('g, TaskNode list) op" where
  "cascade_parent exec cfg loads ctx clk rec edge persisted_updates =
     (case edge_ref edge ''_end_id'' of None \<Rightarrow> returnS persisted_updates
      | Some parent_id \<Rightarrow>
         bindS (read_task exec cfg loads ctx parent_id) (\<lambda>parent.
           case parent of None \<Rightarrow> returnS persisted_updates
           | Some parent_task \<Rightarrow>
              bindS (load_children_for_parent exec cfg loads ctx parent_id) (\<lambda>children.
              let prior_state = state parent_task
              in case check_composite_completion clk parent_task children None None of
                   (Inl e, _, _) \<Rightarrow> raiseS (TransitionRejected e)
                 | (Inr _, p, _) \<Rightarrow>
                     if state p = prior_state then returnS persisted_updates
                     else bindS (persist_task exec cfg ctx p) (\<lambda>_.
                       if state p = TaskState.COMPLETE
                       then bindS (case created_by p of
                                None \<Rightarrow> returnS ()
                              | Some owner_id \<Rightarrow> if owner_id = '''' then returnS ()
                                  else emit_notification owner_id (node_id p)) (\<lambda>_.
                            bindS (rec p) (\<lambda>more. returnS (persisted_updates @ [p] @ more)))
                       else returnS (persisted_updates @ [p])))))"

primrec run_post_transition_cascade ::
  "nat \<Rightarrow> 'g database \<Rightarrow> store_cfg \<Rightarrow> json_loads \<Rightarrow> CallerContext option \<Rightarrow> clock \<Rightarrow> TaskNode
     \<Rightarrow> ('g, TaskNode list) op" where
  "run_post_transition_cascade 0 exec cfg loads ctx clk task = raiseS FuelExhausted"
| "run_post_transition_cascade (Suc n) exec cfg loads ctx clk task =
     (if state task \<noteq> TaskState.COMPLETE then returnS []
      else bindS (activate_next_in_chain exec cfg loads ctx clk task) (\<lambda>activated.
           bindS (forS (\<lambda>t _. persist_task exec cfg ctx t) activated ()) (\<lambda>_.
           bindS (get_edges exec (node_id task) ''out'' (Some ''PART_OF'')) (\<lambda>parent_edges.
             forS (cascade_parent exec cfg loads ctx clk
                     (\<lambda>p. run_post_transition_cascade n exec cfg loads ctx clk p))
               parent_edges activated))))"

definition persist_transition ::
  "'g database \<Rightarrow> store_cfg \<Rightarrow> CallerContext option \<Rightarrow> clock \<Rightarrow> TaskNode \<Rightarrow> TaskState
     \<Rightarrow> ChangedBy \<Rightarrow> string \<Rightarrow> ('g, TaskNode) op" where
  "persist_transition exec cfg ctx clk task target_state cb rsn =
     (case sm_transition clk task target_state cb rsn of
        Inl e \<Rightarrow> raiseS (TransitionRejected e)
      | Inr t \<Rightarrow> bindS (persist_task exec cfg ctx t) (\<lambda>_. returnS t))"

definition persist_transition_and_cascade ::
  "nat \<Rightarrow> 'g database \<Rightarrow> store_cfg \<Rightarrow> json_loads \<Rightarrow> CallerContext option \<Rightarrow> clock \<Rightarrow> TaskNode
     \<Rightarrow> TaskState \<Rightarrow> ChangedBy \<Rightarrow> string \<Rightarrow> ('g, TaskNode) op" where
  "persist_transition_and_cascade fuel exec cfg loads ctx clk task target_state cb rsn =
     bindS (persist_transition exec cfg ctx clk task target_state cb rsn) (\<lambda>t.
     bindS (run_post_transition_cascade fuel exec cfg loads ctx clk t) (\<lambda>_. returnS t))"

end
