(* ===== verification/GC_CascadeLaws.thy ===== *)
theory GC_CascadeLaws
  imports GC_Cascade
begin

section \<open>What the cascade guarantees\<close>

text \<open>
  The completion check on every branch, the AND gate, the monotone progress of a cascade over
  the stored tasks, its termination, and its fate on the store the program really makes.
\<close>

subsection \<open>The completion check\<close>

definition eligible :: "TaskNode \<Rightarrow> TaskNode list \<Rightarrow> bool" where
  "eligible p cs \<longleftrightarrow> state p \<notin> {TaskState.COMPLETE, TaskState.CANCELLED} \<and>
     task_type p \<in> {TaskType.COMPOSITE, TaskType.MILESTONE} \<and> auto_completes p \<and>
     (\<forall>c \<in> set cs. state c \<noteq> TaskState.COMPLETE \<longrightarrow>
        task_type c \<notin> {TaskType.REVIEW, TaskType.APPROVAL} \<and> completion_gate_of p = GateType.OR)"

definition check_target :: "TaskNode list \<Rightarrow> TaskState" where
  "check_target cs = (if \<exists>c \<in> set cs. task_type c \<in> {TaskType.RESEARCH, TaskType.REVIEW} \<and>
       confidence (progress c) = ConfidenceLevel.LOW
     then TaskState.NEEDS_REVIEW else TaskState.COMPLETE)"

definition check_reason :: "TaskNode list \<Rightarrow> string" where
  "check_reason cs = (if check_target cs = TaskState.NEEDS_REVIEW then review_reason else complete_reason)"

lemma gate_not_OR: "g \<noteq> GateType.OR \<longleftrightarrow> g = GateType.AND"
  by (cases g) simp_all

lemma check_target_low:
  "check_target cs = (if low_confidence_children cs \<noteq> [] then TaskState.NEEDS_REVIEW else TaskState.COMPLETE)"
  by (auto simp: check_target_def low_confidence_children_def filter_empty_conv)

lemma check_level_eligible:
  "check_level clk p cs =
     (if \<not> eligible p cs then (Inr False, p)
      else (case sm_transition clk p (check_target cs) ChangedBy.CASCADE (check_reason cs) of
          Inl e \<Rightarrow> (Inl e, p) | Inr p' \<Rightarrow> (Inr (check_target cs = TaskState.COMPLETE), p')))"
proof -
  have "eligible p cs \<longleftrightarrow> state p \<notin> {TaskState.COMPLETE, TaskState.CANCELLED} \<and>
      task_type p \<in> {TaskType.COMPOSITE, TaskType.MILESTONE} \<and> auto_completes p \<and>
      filter (\<lambda>c. task_type c \<in> {TaskType.REVIEW, TaskType.APPROVAL})
        (filter (\<lambda>c. state c \<noteq> TaskState.COMPLETE) cs) = [] \<and>
      \<not> (completion_gate_of p = GateType.AND \<and> filter (\<lambda>c. state c \<noteq> TaskState.COMPLETE) cs \<noteq> [])"
    unfolding eligible_def gate_not_OR [symmetric] filter_empty_conv by auto
  then show ?thesis
    by (cases "eligible p cs"; cases "low_confidence_children cs = []")
      (auto simp: check_level_def Let_def check_reason_def check_target_low simp del: filter_filter
        split: sum.splits)
qed

lemma cascade_permitted:
  "state p \<noteq> TaskState.COMPLETE \<Longrightarrow> task_type p \<noteq> TaskType.APPROVAL \<Longrightarrow>
     permitted p s ChangedBy.CASCADE \<longleftrightarrow> s \<in> set (VALID_TRANSITIONS (state p))"
  by (simp add: permitted_def)

lemma sm_transition_table:
  assumes "s \<notin> set (VALID_TRANSITIONS (state p))" "state p \<noteq> TaskState.COMPLETE"
    "TaskState_value s \<notin> {''DELETED'', ''PURGED''}"
  shows "sm_transition clk p s c r = Inl (InvalidTransitionError (state p) s transition_table)"
  using assms by (simp add: sm_transition_def transition_def Let_def check_transition_table_def)

text \<open>Claim C5: what the completion check does to a parent, on every branch. A parent that is not
due is left alone. A parent that is due moves to NEEDS_REVIEW when a research or review child
has low confidence and to COMPLETE otherwise, logged as CASCADE; but when the transition table
has no such move from the parent's state (PENDING, BLOCKED, DELAYED, SNOOZED and
INACTIVE_PENDING parents, and a NEEDS_REVIEW parent with a low-confidence child) the check
raises \<open>InvalidTransitionError\<close> and the parent stays as it was.\<close>

theorem check_composite_completion_behaviour:
  "check_composite_completion clk p cs None None =
    (if \<not> eligible p cs then (Inr (), p, None)
     else if check_target cs \<in> set (VALID_TRANSITIONS (state p))
     then (Inr (), p\<lparr>state := check_target cs,
             timeline := stamp_timeline (fst (clk p (check_target cs))) (check_target cs) (timeline p),
             state_history := state_history p @ [history_entry (state p) (check_target cs)
               (snd (clk p (check_target cs))) ChangedBy.CASCADE (check_reason cs)]\<rparr>, None)
     else (Inl (InvalidTransitionError (state p) (check_target cs) transition_table), p, None))"
proof (cases "eligible p cs")
  case False
  then show ?thesis by (simp add: check_composite_completion_def check_level_eligible)
next
  case el: True
  then have st: "state p \<noteq> TaskState.COMPLETE" "task_type p \<noteq> TaskType.APPROVAL"
    by (auto simp: eligible_def)
  show ?thesis
  proof (cases "check_target cs \<in> set (VALID_TRANSITIONS (state p))")
    case True
    then have "permitted p (check_target cs) ChangedBy.CASCADE" using cascade_permitted [OF st] by simp
    then have "sm_transition clk p (check_target cs) ChangedBy.CASCADE (check_reason cs) =
       Inr (p\<lparr>state := check_target cs,
             timeline := stamp_timeline (fst (clk p (check_target cs))) (check_target cs) (timeline p),
             state_history := state_history p @ [history_entry (state p) (check_target cs)
               (snd (clk p (check_target cs))) ChangedBy.CASCADE (check_reason cs)]\<rparr>)"
      by (simp add: sm_transition_def transition_Inr_iff)
    with el True show ?thesis
      by (cases "check_target cs = TaskState.COMPLETE")
        (simp_all add: check_composite_completion_def check_level_eligible)
  next
    case False
    have "TaskState_value (check_target cs) \<notin> {''DELETED'', ''PURGED''}"
      by (simp add: check_target_def)
    from sm_transition_table [OF False st(1) this] el False show ?thesis
      by (simp add: check_composite_completion_def check_level_eligible)
  qed
qed

lemma check_level_completes:
  assumes "check_level clk p cs = (r, p')" "state p \<noteq> TaskState.COMPLETE" "state p' = TaskState.COMPLETE"
  shows "r = Inr True" "eligible p cs" "check_target cs = TaskState.COMPLETE"
  using assms by (auto simp: check_level_eligible sm_transition_def transition_state
      split: if_splits sum.splits dest: transition_state)

lemma eligible_AND:
  "eligible p cs \<Longrightarrow> completion_gate_of p = GateType.AND \<Longrightarrow> \<forall>c \<in> set cs. state c = TaskState.COMPLETE"
  by (auto simp: eligible_def)

text \<open>Claim C6: the AND gate is safe at both levels of the check. If the parent, or the
grandparent above it, comes out COMPLETE and was not before, and its gate is AND, then every
one of its children is COMPLETE and none of its research and review children has low
confidence; and a grandparent only completes when the parent did.\<close>

theorem and_gate_safe:
  assumes "check_composite_completion clk p cs gp sib = (r, p', gp')"
    and "state p \<noteq> TaskState.COMPLETE"
  shows "(state p' = TaskState.COMPLETE \<and> completion_gate_of p = GateType.AND \<longrightarrow>
      (\<forall>c \<in> set cs. state c = TaskState.COMPLETE \<and>
        \<not> (task_type c \<in> {TaskType.RESEARCH, TaskType.REVIEW} \<and>
           confidence (progress c) = ConfidenceLevel.LOW))) \<and>
    (\<forall>g g' ss. gp = Some g \<and> gp' = Some g' \<and> sib = Some ss \<and>
        state g \<noteq> TaskState.COMPLETE \<and> state g' = TaskState.COMPLETE \<longrightarrow>
      state p' = TaskState.COMPLETE \<and>
      (completion_gate_of g = GateType.AND \<longrightarrow>
        (\<forall>c \<in> set ss. state c = TaskState.COMPLETE \<and>
          \<not> (task_type c \<in> {TaskType.RESEARCH, TaskType.REVIEW} \<and>
             confidence (progress c) = ConfidenceLevel.LOW))))"
proof -
  obtain r1 p1 where l1: "check_level clk p cs = (r1, p1)" by fastforce
  then have p1: "p' = p1"
    using assms(1) by (auto simp: check_composite_completion_def split: sum.splits bool.splits
        option.splits prod.splits)
  have low: "check_target xs = TaskState.COMPLETE \<Longrightarrow> c \<in> set xs \<Longrightarrow>
      \<not> (task_type c \<in> {TaskType.RESEARCH, TaskType.REVIEW} \<and>
         confidence (progress c) = ConfidenceLevel.LOW)" for xs c
    by (auto simp: check_target_def split: if_splits)
  have parent: "state p' = TaskState.COMPLETE \<Longrightarrow>
      eligible p cs \<and> check_target cs = TaskState.COMPLETE"
    using check_level_completes [OF l1 assms(2)] p1 by simp
  have grand: "state p' = TaskState.COMPLETE \<and> eligible g ss \<and> check_target ss = TaskState.COMPLETE"
    if g: "gp = Some g" "gp' = Some g'" "sib = Some ss" "state g \<noteq> TaskState.COMPLETE"
      "state g' = TaskState.COMPLETE" for g g' ss
  proof -
    have r1: "r1 = Inr True"
      using assms(1) l1 g by (auto simp: check_composite_completion_def split: sum.splits bool.splits)
    obtain r2 where l2: "check_level clk g ss = (r2, g')"
      using assms(1) l1 g r1 by (auto simp: check_composite_completion_def split: prod.splits sum.splits)
    have "state p1 = TaskState.COMPLETE"
      using l1 r1 by (auto simp: check_level_eligible sm_transition_def
          split: if_splits sum.splits dest: transition_state)
    then show ?thesis using check_level_completes [OF l2 g(4,5)] p1 by simp
  qed
  show ?thesis
    using parent grand low eligible_AND by blast
qed

theorem and_gate_safe_witness:
  "\<exists>r p'. check_composite_completion (\<lambda>_ _. (utc_dt 0, utc_dt 0))
      (example_task TaskType.MILESTONE\<lparr>state := TaskState.ACTIVE\<rparr>)
      [example_task TaskType.ATOMIC\<lparr>state := TaskState.COMPLETE\<rparr>] None None = (r, p', None) \<and>
    state p' = TaskState.COMPLETE \<and>
    (\<forall>c \<in> set [example_task TaskType.ATOMIC\<lparr>state := TaskState.COMPLETE\<rparr>]. state c = TaskState.COMPLETE)"
proof -
  let ?clk = "\<lambda>_ _. (utc_dt 0, utc_dt 0)"
  let ?p = "example_task TaskType.MILESTONE\<lparr>state := TaskState.ACTIVE\<rparr>"
  let ?cs = "[example_task TaskType.ATOMIC\<lparr>state := TaskState.COMPLETE\<rparr>]"
  obtain r p' where run: "check_composite_completion ?clk ?p ?cs None None = (r, p', None)"
    and st: "state p' = TaskState.COMPLETE"
    by (simp add: check_composite_completion_behaviour eligible_def auto_completes_def
        check_target_def example_defs)
  have "completion_gate_of ?p = GateType.AND" "state ?p \<noteq> TaskState.COMPLETE"
    by (simp_all add: completion_gate_of_def example_defs)
  with and_gate_safe [OF run] run st show ?thesis by blast
qed

subsection \<open>Progress of the cascade\<close>

text \<open>The tasks of the store a cascade can still complete: readable and not COMPLETE.\<close>

definition open_tasks :: "'g database \<Rightarrow> json_loads \<Rightarrow> 'g \<Rightarrow> string set" where
  "open_tasks exec loads g =
     {i. \<exists>p t. fetch exec g i = Some p \<and> load_task loads p = Some t \<and> state t \<noteq> TaskState.COMPLETE}"

lemma task_validate_fields:
  assumes "task_validate g = Some t"
  shows "req g ''id'' dec_task_id = Some (node_id t)"
    "dfl g ''state'' TaskState.PENDING dec_state = Some (state t)"
  using assms by (auto simp: task_validate_def bind_eq_Some_conv)

lemma load_task_id:
  assumes "load_task loads p = Some t" "dict_get p ''id'' = Some (PStr i)"
  shows "node_id t = i"
proof -
  have "decode_key loads ''id'' = (\<lambda>v. v)" by (rule decode_key_plain) simp
  then show ?thesis
    using task_validate_fields(1) [OF assms(1) [unfolded load_task_def]] assms(2)
    by (simp add: req_def dict_get_deserialize split: if_splits)
qed

lemma load_dump_state:
  assumes "load_task loads (set_props (set_lits (task_dump u)) p) = Some t"
  shows "state t = state u"
proof -
  have "decode_key loads ''state'' = (\<lambda>v. v)" by (rule decode_key_plain) simp
  moreover have "dict_get (set_props (set_lits (task_dump u)) p) ''state'' =
      Some (dump_enum TaskState_value (state u))"
    by (simp add: dict_get_set_props_dump task_dump_ok)
      (simp add: task_dump_def dict_get_Cons codec_simps)
  ultimately show ?thesis
    using task_validate_fields(2) [OF assms [unfolded load_task_def]]
    by (simp add: dfl_def dict_get_deserialize codec_simps)
qed

text \<open>Operations that only read.\<close>

definition reads_only :: "('g, 'a) op \<Rightarrow> bool" where
  "reads_only m \<longleftrightarrow> (\<forall>s r s'. m s = (r, s') \<longrightarrow> s' = s \<and> r \<noteq> Inl FuelExhausted)"

lemma reads_onlyD: "reads_only m \<Longrightarrow> m s = (r, s') \<Longrightarrow> s' = s"
  by (auto simp: reads_only_def)

lemma reads_only_fuel: "reads_only m \<Longrightarrow> m s = (Inl e, s') \<Longrightarrow> e \<noteq> FuelExhausted"
  by (auto simp: reads_only_def)

lemma reads_only_return [intro, simp]: "reads_only (returnS a)"
  by (simp add: reads_only_def)

lemma reads_only_bind [intro]:
  assumes "reads_only m" "\<And>a. reads_only (f a)"
  shows "reads_only (bindS m f)"
  unfolding reads_only_def
proof (intro allI impI)
  fix s r s' assume "bindS m f s = (r, s')"
  then show "s' = s \<and> r \<noteq> Inl FuelExhausted"
    by (cases rule: bindS_eqE) (use assms in \<open>auto simp: reads_only_def, blast+\<close>)
qed

lemma reads_only_forS [intro]:
  assumes "\<And>x a. reads_only (f x a)"
  shows "reads_only (forS f xs a)"
  by (induction xs arbitrary: a) (auto simp: assms)

context cypher_service
begin

lemma read_task_eq:
  "read_task exec cfg loads ctx i s =
     (case require_caller_context cfg ctx of Inl e \<Rightarrow> (Inl e, s)
      | Inr _ \<Rightarrow> (Inr (Option.bind (visible False (fetch exec (graph s) i)) (load_task loads)), s))"
  by (simp add: read_task_def bindS_unfold get_node_eq split: sum.split option.split)

lemma reads_only_read_task [intro, simp]: "reads_only (read_task exec cfg loads ctx i)"
  by (auto simp: reads_only_def read_task_eq require_caller_context_def split: sum.splits if_splits)

lemma reads_only_get_edges [intro, simp]: "reads_only (get_edges exec i dr ty)"
  by (auto simp: reads_only_def get_edges_def bindS_unfold run_edges split: option.splits if_splits)

lemma reads_only_children [intro, simp]:
  "reads_only (load_children_for_parent exec cfg loads ctx i)"
  unfolding load_children_for_parent_def
  by (intro reads_only_bind reads_only_forS) (auto split: option.split)

lemma reads_only_activate [intro, simp]:
  "reads_only (activate_next_in_chain exec cfg loads ctx clk t)"
  unfolding activate_next_in_chain_def
  by (intro reads_only_bind reads_only_forS)
    (auto split: option.split sum.split)

lemma read_task_open:
  assumes "read_task exec cfg loads ctx i s = (Inr (Some t), s')"
  shows "node_id t = i" "state t \<noteq> TaskState.COMPLETE \<Longrightarrow> i \<in> open_tasks exec loads (graph s)"
proof -
  from assms obtain p where p: "fetch exec (graph s) i = Some p" "load_task loads p = Some t"
    by (auto simp: read_task_eq bind_eq_Some_conv visible_def split: sum.splits option.splits if_splits)
  then show "node_id t = i" using load_task_id fetch_id by blast
  show "state t \<noteq> TaskState.COMPLETE \<Longrightarrow> i \<in> open_tasks exec loads (graph s)"
    using p by (auto simp: open_tasks_def)
qed

lemma finite_open: "finite (open_tasks exec loads g)"
proof (rule finite_subset)
  show "open_tasks exec loads g \<subseteq> {i. fst (exec (MatchId i) g) \<noteq> []}"
    by (auto simp: open_tasks_def fetch_def split: list.splits)
qed (rule finite_ids)

lemma persist_task_open:
  assumes "persist_task exec cfg ctx t s = (r, s')"
  shows "open_tasks exec loads (graph s') \<subseteq> insert (node_id t) (open_tasks exec loads (graph s))"
    "r \<noteq> Inl FuelExhausted"
    "r = Inr u \<Longrightarrow> state t = TaskState.COMPLETE \<Longrightarrow> node_id t \<notin> open_tasks exec loads (graph s')"
proof -
  obtain r1 where r1: "update_node exec cfg (node_id t) (task_dump t) ctx s = (r1, s')"
    "r = (case r1 of Inl e \<Rightarrow> Inl e | Inr _ \<Rightarrow> Inr ())"
    using assms by (auto simp: persist_task_def bindS_unfold split: prod.splits sum.splits)
  from r1(1) have "open_tasks exec loads (graph s') \<subseteq> insert (node_id t) (open_tasks exec loads (graph s)) \<and>
      r1 \<noteq> Inl FuelExhausted \<and>
      (\<forall>v. r1 = Inr v \<longrightarrow> state t = TaskState.COMPLETE \<longrightarrow> node_id t \<notin> open_tasks exec loads (graph s'))"
  proof (cases rule: update_node_cases)
    case written
    then show ?thesis
      by (auto simp: open_tasks_def fetch_set [OF keeps_id_dump] dest: load_dump_state split: if_splits)
  qed auto
  then show "open_tasks exec loads (graph s') \<subseteq> insert (node_id t) (open_tasks exec loads (graph s))"
    "r \<noteq> Inl FuelExhausted"
    "r = Inr u \<Longrightarrow> state t = TaskState.COMPLETE \<Longrightarrow> node_id t \<notin> open_tasks exec loads (graph s')"
    using r1(2) by (auto split: sum.splits)
qed

end

subsection \<open>A cascade only completes\<close>

context cypher_service
begin

abbreviation opens :: "json_loads \<Rightarrow> 'g session \<Rightarrow> string set" where
  "opens loads s \<equiv> open_tasks exec loads (graph s)"

lemma read_task_facts:
  "read_task exec cfg loads ctx i s = (Inr x, s') \<Longrightarrow>
     s' = s \<and> (\<forall>t. x = Some t \<longrightarrow> node_id t = i \<and>
       (state t \<noteq> TaskState.COMPLETE \<longrightarrow> i \<in> opens loads s))"
  using read_task_open reads_onlyD [OF reads_only_read_task] by metis
lemma activate_open:
  assumes "activate_next_in_chain exec cfg loads ctx clk t s = (Inr ts, s')"
  shows "\<forall>u \<in> set ts. node_id u \<in> opens loads s \<and> state u = TaskState.ACTIVE"
proof -
  from assms obtain es s1 where es: "get_edges exec (node_id t) ''in'' (Some ''DEPENDS_ON'') s = (Inr es, s1)"
    and run: "forS (\<lambda>edge activated.
         case edge_ref edge ''_start_id'' of None \<Rightarrow> returnS activated
         | Some dep_id \<Rightarrow>
            bindS (read_task exec cfg loads ctx dep_id) (\<lambda>dep.
              case dep of None \<Rightarrow> returnS activated
              | Some dep_task \<Rightarrow>
                 if state dep_task = TaskState.INACTIVE_PENDING
                 then (case sm_transition clk dep_task TaskState.ACTIVE ChangedBy.CASCADE
                              (activation_reason t) of
                         Inr t \<Rightarrow> returnS (activated @ [t]) | Inl e \<Rightarrow> returnS activated)
                 else returnS activated)) es [] s1 = (Inr ts, s')"
    by (auto simp: activate_next_in_chain_def elim: bindS_eqE)
  have s1: "s1 = s" using es reads_onlyD [OF reads_only_get_edges] by blast
  have "(\<lambda>us s2. s2 = s \<and> (\<forall>u \<in> set us. node_id u \<in> opens loads s \<and> state u = TaskState.ACTIVE)) ts s'"
    by (rule forS_inv [OF _ _ run])
      (auto simp: s1 sm_transition_def transition_state transition_frame
        split: option.splits if_splits sum.splits elim!: bindS_eqE
        dest!: read_task_facts)
  then show ?thesis by simp
qed

lemma persist_all_open:
  assumes "\<forall>u \<in> set ts. node_id u \<in> opens loads s0" "opens loads s \<subseteq> opens loads s0"
    and "forS (\<lambda>t _. persist_task exec cfg ctx t) ts a s = (r, s')"
  shows "opens loads s' \<subseteq> opens loads s0" "r \<noteq> Inl FuelExhausted"
proof -
  have "opens loads s' \<subseteq> opens loads s0 \<and> r \<noteq> Inl FuelExhausted"
    using assms
  proof (induction ts arbitrary: a s)
    case Nil
    then show ?case by auto
  next
    case (Cons t ts)
    from Cons.prems(3) have "bindS (persist_task exec cfg ctx t)
        (forS (\<lambda>t _. persist_task exec cfg ctx t) ts) s = (r, s')" by simp
    then show ?case
    proof (cases rule: bindS_eqE)
      case (raised e)
      then show ?thesis
        using persist_task_open(1) [OF raised(1), of loads] persist_task_open(2) [OF raised(1)] Cons.prems(1,2) by auto
    next
      case (went_on b s1)
      have "opens loads s1 \<subseteq> opens loads s0"
        using persist_task_open(1) [OF went_on(1), of loads] Cons.prems(1,2) by auto
      then show ?thesis using Cons.IH [OF _ _ went_on(2)] Cons.prems(1) by simp
    qed
  qed
  then show "opens loads s' \<subseteq> opens loads s0" "r \<noteq> Inl FuelExhausted" by simp_all
qed

text \<open>One parent: either it leaves the store as it was, or it wrote an open task.\<close>

lemma check_moves:
  assumes "check_composite_completion clk p cs None None = (Inr u, p', gp)" "state p' \<noteq> state p"
  shows "node_id p' = node_id p" "state p \<noteq> TaskState.COMPLETE"
  using assms by (auto simp: check_composite_completion_behaviour eligible_def split: if_splits)

lemma cascade_parent_cases:
  assumes "cascade_parent exec cfg loads ctx clk rec edge acc s = (r, s')"
  obtains (quiet) "s' = s" "r \<noteq> Inl FuelExhausted"
    | (wrote) p s1 r1 where "node_id p \<in> opens loads s"
        "persist_task exec cfg ctx p s = (r1, s1)" "graph s' = graph s1"
        "r \<noteq> Inl FuelExhausted"
    | (climbed) p s1 s2 where "node_id p \<in> opens loads s" "state p = TaskState.COMPLETE"
        "persist_task exec cfg ctx p s = (Inr (), s1)" "graph s2 = graph s1"
        "snd (rec p s2) = s'" "r = Inl FuelExhausted \<Longrightarrow> fst (rec p s2) = Inl FuelExhausted"
proof (cases "edge_ref edge ''_end_id''")
  case None
  then show ?thesis using assms by (intro quiet) (auto simp: cascade_parent_def)
next
  case (Some i)
  obtain rp sp where rt: "read_task exec cfg loads ctx i s = (rp, sp)" by fastforce
  then have sp: "sp = s" "rp \<noteq> Inl FuelExhausted"
    using reads_only_read_task by (auto simp: reads_only_def)
  show ?thesis
  proof (cases "\<exists>p0. rp = Inr (Some p0)")
    case False
    then show ?thesis
      using assms rt sp Some by (intro quiet)
        (auto simp: cascade_parent_def bindS_unfold split: sum.splits option.splits)
  next
    case True
    then obtain p0 where p0: "read_task exec cfg loads ctx i s = (Inr (Some p0), s)" using rt sp by auto
    obtain rc sc where rc: "load_children_for_parent exec cfg loads ctx i s = (rc, sc)" by fastforce
    then have sc: "sc = s" "rc \<noteq> Inl FuelExhausted"
      using reads_only_children by (auto simp: reads_only_def)
    note run = assms [unfolded cascade_parent_def Some, simplified, unfolded bindS_unfold p0, simplified]
    show ?thesis
    proof (cases rc)
      case (Inl e)
      then show ?thesis using run rc sc by (intro quiet) (auto simp: bindS_unfold)
    next
      case (Inr cs)
      obtain k p gp where chk: "check_composite_completion clk p0 cs None None = (k, p, gp)"
        by (metis prod_cases3)
      show ?thesis
      proof (cases "(\<exists>e. k = Inl e) \<or> state p = state p0")
        case True
        then show ?thesis
          using run rc sc Inr chk by (intro quiet) (auto simp: bindS_unfold Let_def split: sum.splits)
      next
        case False
        then obtain u where k: "k = Inr u" and ch: "state p \<noteq> state p0" by (cases k) auto
        note mv = check_moves [OF chk [unfolded k] ch]
        have op: "node_id p \<in> opens loads s" using read_task_open [OF p0] mv by simp
        obtain r1 s1 where ps: "persist_task exec cfg ctx p s = (r1, s1)" by fastforce
        have nf: "r1 \<noteq> Inl FuelExhausted" using persist_task_open(2) [OF ps] .
        define s2 where "s2 = (case created_by p of None \<Rightarrow> s1 | Some w \<Rightarrow>
          if w = '''' then s1 else s1\<lparr>notified := notified s1 @ [(w, node_id p)]\<rparr>)"
        have g2: "graph s2 = graph s1" by (simp add: s2_def split: option.split)
        show ?thesis
        proof (cases "state p = TaskState.COMPLETE \<and> r1 = Inr ()")
          case True
          then have "(case rec p s2 of (Inl e, t) \<Rightarrow> (Inl e, t)
              | (Inr ms, t) \<Rightarrow> returnS (acc @ [p] @ ms) t) = (r, s')"
            using run rc sc Inr chk k ch ps
            by (auto simp: bindS_unfold Let_def emit_notification_def s2_def
                split: option.splits if_splits)
          then show ?thesis
            using True ps g2 by (intro climbed [OF op, of s1 s2])
              (auto split: prod.splits sum.splits)
        next
          case False
          then show ?thesis
            using run rc sc Inr chk k ch ps nf by (intro wrote [OF op ps])
              (auto simp: bindS_unfold Let_def split: sum.splits if_splits)
        qed
      qed
    qed
  qed
qed

lemma cascade_parent_mono:
  assumes rec: "\<And>p s1 r1 s2. rec p s1 = (r1, s2) \<Longrightarrow> opens loads s2 \<subseteq> opens loads s1"
    and run: "cascade_parent exec cfg loads ctx clk rec edge acc s = (r, s')"
  shows "opens loads s' \<subseteq> opens loads s"
  using run
proof (cases rule: cascade_parent_cases)
  case (wrote p s1 r1)
  then show ?thesis using persist_task_open(1) [OF wrote(2), of loads] by auto
next
  case (climbed p s1 s2)
  have "opens loads s' \<subseteq> opens loads s2"
    using climbed(5) rec by (metis prod.collapse)
  then show ?thesis
    using persist_task_open(1) [OF climbed(3), of loads] climbed(1,4) by auto
qed simp

text \<open>A cascade ends before the parents, or runs their loop on a store with no more open tasks.\<close>

lemma cascade_cases:
  assumes "run_post_transition_cascade (Suc n) exec cfg loads ctx clk t s = (r, s')"
  obtains (early) "opens loads s' \<subseteq> opens loads s" "r \<noteq> Inl FuelExhausted"
    | (parents) es ts s1 where "opens loads s1 \<subseteq> opens loads s"
      "forS (cascade_parent exec cfg loads ctx clk
         (\<lambda>p. run_post_transition_cascade n exec cfg loads ctx clk p)) es ts s1 = (r, s')"
proof (cases "state t = TaskState.COMPLETE")
  case False
  with assms early show ?thesis by auto
next
  case True
  with assms have "bindS (activate_next_in_chain exec cfg loads ctx clk t) (\<lambda>activated.
         bindS (forS (\<lambda>t _. persist_task exec cfg ctx t) activated ()) (\<lambda>_.
         bindS (get_edges exec (node_id t) ''out'' (Some ''PART_OF'')) (\<lambda>parent_edges.
           forS (cascade_parent exec cfg loads ctx clk
                   (\<lambda>p. run_post_transition_cascade n exec cfg loads ctx clk p))
             parent_edges activated))) s = (r, s')" by simp
  then show ?thesis
  proof (cases rule: bindS_eqE)
    case (raised e)
    then show ?thesis
      using reads_onlyD [OF reads_only_activate] reads_only_fuel [OF reads_only_activate] early by blast
  next
    case (went_on ts s1)
    then have s1: "s1 = s" using reads_onlyD [OF reads_only_activate] by blast
    have act: "\<forall>u \<in> set ts. node_id u \<in> opens loads s" using activate_open [OF went_on(1)] by blast
    note persisted = persist_all_open [of ts loads s s, OF act subset_refl]
    from went_on(2) show ?thesis unfolding s1
    proof (cases rule: bindS_eqE)
      case (raised e)
      then show ?thesis using persisted early by blast
    next
      case (went_on u s2)
      note s2 = persisted(1) [OF went_on(1)]
      from went_on(2) show ?thesis
      proof (cases rule: bindS_eqE)
        case (raised e)
        then show ?thesis
          using s2 reads_onlyD [OF reads_only_get_edges] reads_only_fuel [OF reads_only_get_edges] early
          by blast
      next
        case (went_on es s3)
        then show ?thesis using s2 reads_onlyD [OF reads_only_get_edges] parents by blast
      qed
    qed
  qed
qed

lemma cascade_mono:
  assumes "run_post_transition_cascade n exec cfg loads ctx clk t s = (r, s')"
  shows "opens loads s' \<subseteq> opens loads s"
  using assms
proof (induction n arbitrary: t s r s')
  case (Suc n)
  from Suc.prems show ?case
  proof (cases rule: cascade_cases)
    case (parents es ts s1)
    have "(\<lambda>a b. opens loads b \<subseteq> opens loads a) s1 s'"
      by (rule forS_rel [OF _ _ _ parents(2)])
        (auto dest: cascade_parent_mono [OF Suc.IH, rotated])
    then show ?thesis using parents(1) by simp
  qed simp
qed simp

lemma cascade_parent_fuel:
  assumes rec: "\<And>p s1. card (opens loads s1) < n \<Longrightarrow> fst (rec p s1) \<noteq> Inl FuelExhausted"
    and n: "card (opens loads s) \<le> n"
    and run: "cascade_parent exec cfg loads ctx clk rec edge acc s = (r, s')"
  shows "r \<noteq> Inl FuelExhausted"
  using run
proof (cases rule: cascade_parent_cases)
  case (climbed p s1 s2)
  have "opens loads s2 \<subseteq> opens loads s - {node_id p}"
    using persist_task_open(1) [OF climbed(3), of loads]
      persist_task_open(3) [OF climbed(3) refl climbed(2), of loads] climbed(1,4) by auto
  also have "\<dots> \<subset> opens loads s" using climbed(1) by auto
  finally have "card (opens loads s2) < card (opens loads s)"
    by (rule psubset_card_mono [OF finite_open])
  then show ?thesis using rec n climbed(6) by (meson less_le_trans)
qed simp_all

lemma cascade_fuel:
  assumes "card (opens loads s) < n"
  shows "fst (run_post_transition_cascade n exec cfg loads ctx clk t s) \<noteq> Inl FuelExhausted"
  using assms
proof (induction n arbitrary: t s)
  case (Suc n)
  obtain r s' where run: "run_post_transition_cascade (Suc n) exec cfg loads ctx clk t s = (r, s')"
    by fastforce
  then have "r \<noteq> Inl FuelExhausted"
  proof (cases rule: cascade_cases)
    case (parents es ts s1)
    show ?thesis
    proof
      assume fe: "r = Inl FuelExhausted"
      have "\<exists>x \<in> set es. \<exists>b s2. opens loads s2 \<subseteq> opens loads s1 \<and>
          cascade_parent exec cfg loads ctx clk
            (\<lambda>p. run_post_transition_cascade n exec cfg loads ctx clk p) x b s2 = (Inl FuelExhausted, s')"
        by (rule forS_raises [OF _ _ _ parents(2) [unfolded fe]])
          (auto dest: cascade_parent_mono [OF cascade_mono, rotated])
      then obtain x b s2 where s2: "opens loads s2 \<subseteq> opens loads s"
        and fail: "cascade_parent exec cfg loads ctx clk
            (\<lambda>p. run_post_transition_cascade n exec cfg loads ctx clk p) x b s2 = (Inl FuelExhausted, s')"
        using parents(1) by blast
      have "card (opens loads s2) \<le> n"
        using card_mono [OF finite_open s2] Suc.prems by simp
      from cascade_parent_fuel [OF Suc.IH this fail] show False by simp
    qed
  qed simp
  with run show ?case by simp
qed simp

end

text \<open>Claim C7: the cascade ends. On any database that keeps the laws of Cypher, fuel one larger
than the number of stored tasks that are readable and not COMPLETE is enough for the climb,
whatever the PART_OF edges (cycles included): every level completes one more of those tasks.\<close>

theorem cascade_terminates:
  assumes "cypher_service exec"
    and "card (open_tasks exec loads (graph s)) < fuel"
  shows "fst (run_post_transition_cascade fuel exec cfg loads ctx clk t s) \<noteq> Inl FuelExhausted"
  using assms by (rule cypher_service.cascade_fuel)

text \<open>A cascade only moves tasks towards completion: whether it returns or raises, a
stored task that was COMPLETE before is never readable in another state afterwards, so no
completed work is reopened.\<close>

theorem cascade_never_reopens:
  assumes "cypher_service exec"
    and "run_post_transition_cascade fuel exec cfg loads ctx clk t s = (r, s')"
  shows "open_tasks exec loads (graph s') \<subseteq> open_tasks exec loads (graph s)"
  using assms by (rule cypher_service.cascade_mono)

lemma one_task_open: "open_tasks mem_exec loads (graph (one_task_session t)) \<subseteq> {node_id t}"
proof
  fix i assume "i \<in> open_tasks mem_exec loads (graph (one_task_session t))"
  then obtain p where p: "fetch mem_exec (graph (one_task_session t)) i = Some p"
    by (auto simp: open_tasks_def)
  then have "has_id i (resolve_label (TaskObj t), row_of (task_dump t))"
    by (auto simp: fetch_def one_task_session_def node_rows_def split: if_splits)
  moreover have "has_id (node_id t) (resolve_label (TaskObj t), row_of (task_dump t))"
    using mem.fetch_id [OF one_task_fetch] by (simp add: has_id_def)
  ultimately show "i \<in> {node_id t}" by (simp add: has_id_def)
qed

theorem cascade_terminates_witness:
  "fst (run_post_transition_cascade 2 mem_exec admin_cfg (\<lambda>_. None) None (\<lambda>_ _. (utc_dt 0, utc_dt 0))
     (example_task TaskType.ATOMIC\<lparr>state := TaskState.COMPLETE\<rparr>)
     (one_task_session (example_task TaskType.MILESTONE))) \<noteq> Inl FuelExhausted"
proof (rule cascade_terminates [OF mem.cypher_service_axioms])
  have "card (open_tasks mem_exec (\<lambda>_. None) (graph (one_task_session (example_task TaskType.MILESTONE)))) \<le>
      card {node_id (example_task TaskType.MILESTONE)}"
    by (rule card_mono [OF _ one_task_open]) simp
  then show "card (open_tasks mem_exec (\<lambda>_. None)
      (graph (one_task_session (example_task TaskType.MILESTONE)))) < 2" by simp
qed

theorem cascade_never_reopens_witness:
  "\<exists>r s'. run_post_transition_cascade 2 mem_exec admin_cfg (\<lambda>_. None) None
      (\<lambda>_ _. (utc_dt 0, utc_dt 0)) (example_task TaskType.ATOMIC\<lparr>state := TaskState.COMPLETE\<rparr>)
      (one_task_session (example_task TaskType.MILESTONE)) = (r, s') \<and>
    open_tasks mem_exec (\<lambda>_. None) (graph s') \<subseteq>
      open_tasks mem_exec (\<lambda>_. None) (graph (one_task_session (example_task TaskType.MILESTONE)))"
  using cascade_never_reopens [OF mem.cypher_service_axioms] by (metis surj_pair)

subsection \<open>Activation\<close>

text \<open>Which dependents a completed task activates, read off the graph.\<close>

definition visible_task :: "'g database \<Rightarrow> json_loads \<Rightarrow> 'g \<Rightarrow> string \<Rightarrow> TaskNode option" where
  "visible_task exec loads g i = Option.bind (visible False (fetch exec g i)) (load_task loads)"

definition dependents :: "'g database \<Rightarrow> 'g \<Rightarrow> string \<Rightarrow> string list" where
  "dependents exec g i = List.map_filter (\<lambda>e. edge_ref e ''_start_id'')
     (concat (map (edge_dict i ''in'') (fst (exec (MatchEdges ''in'' i (Some ''DEPENDS_ON'')) g))))"

definition activated_by ::
  "'g database \<Rightarrow> json_loads \<Rightarrow> clock \<Rightarrow> 'g \<Rightarrow> TaskNode \<Rightarrow> TaskNode list" where
  "activated_by exec loads clk g t =
     map (\<lambda>d. d\<lparr>state := TaskState.ACTIVE,
            state_history := state_history d @ [history_entry TaskState.INACTIVE_PENDING
              TaskState.ACTIVE (snd (clk d TaskState.ACTIVE)) ChangedBy.CASCADE (activation_reason t)]\<rparr>)
       (filter (\<lambda>d. state d = TaskState.INACTIVE_PENDING)
         (List.map_filter (visible_task exec loads g) (dependents exec g (node_id t))))"

lemma activation_transition:
  assumes "state d = TaskState.INACTIVE_PENDING"
  shows "sm_transition clk d TaskState.ACTIVE ChangedBy.CASCADE r =
    Inr (d\<lparr>state := TaskState.ACTIVE, state_history := state_history d @
      [history_entry TaskState.INACTIVE_PENDING TaskState.ACTIVE
        (snd (clk d TaskState.ACTIVE)) ChangedBy.CASCADE r]\<rparr>)"
  using assms
  by (simp add: sm_transition_def transition_Inr_iff permitted_def stamp_timeline_def Let_def)

context cypher_service
begin

lemma read_visible:
  "require_caller_context cfg ctx = Inr () \<Longrightarrow>
     read_task exec cfg loads ctx i s = (Inr (visible_task exec loads (graph s) i), s)"
  by (simp add: read_task_eq visible_task_def)

lemma activate_loop:
  assumes "require_caller_context cfg ctx = Inr ()"
  shows "forS (\<lambda>edge activated.
         case edge_ref edge ''_start_id'' of None \<Rightarrow> returnS activated
         | Some dep_id \<Rightarrow>
            bindS (read_task exec cfg loads ctx dep_id) (\<lambda>dep.
              case dep of None \<Rightarrow> returnS activated
              | Some dep_task \<Rightarrow>
                 if state dep_task = TaskState.INACTIVE_PENDING
                 then (case sm_transition clk dep_task TaskState.ACTIVE ChangedBy.CASCADE r of
                         Inr t \<Rightarrow> returnS (activated @ [t]) | Inl e \<Rightarrow> returnS activated)
                 else returnS activated)) es acc s =
    (Inr (acc @ map (\<lambda>d. d\<lparr>state := TaskState.ACTIVE,
            state_history := state_history d @ [history_entry TaskState.INACTIVE_PENDING
              TaskState.ACTIVE (snd (clk d TaskState.ACTIVE)) ChangedBy.CASCADE r]\<rparr>)
       (filter (\<lambda>d. state d = TaskState.INACTIVE_PENDING)
         (List.map_filter (visible_task exec loads (graph s))
           (List.map_filter (\<lambda>e. edge_ref e ''_start_id'') es)))), s)"
  by (induction es arbitrary: acc)
    (auto simp: bindS_unfold read_visible [OF assms] activation_transition map_filter_simps
      split: option.split)

lemma activate_eq:
  assumes "require_caller_context cfg ctx = Inr ()"
  shows "activate_next_in_chain exec cfg loads ctx clk t s =
    (Inr (activated_by exec loads clk (graph s) t), s)"
proof -
  have "EDGE_TYPE_RE_match ''DEPENDS_ON''"
    by (simp add: EDGE_TYPE_RE_match_def chomp_def newline_def is_upper_def)
  then have "get_edges exec (node_id t) ''in'' (Some ''DEPENDS_ON'') s =
      (Inr (concat (map (edge_dict (node_id t) ''in'')
        (fst (exec (MatchEdges ''in'' (node_id t) (Some ''DEPENDS_ON'')) (graph s))))), s)"
    by (simp add: get_edges_def bindS_unfold run_edges)
  then show ?thesis
    by (simp add: activate_next_in_chain_def bindS_unfold activate_loop [OF assms]
        activated_by_def dependents_def)
qed

end

text \<open>Completing a task activates exactly its readable, unarchived dependents that wait
in INACTIVE_PENDING, in edge order, each logged as a CASCADE move; nothing is written yet. The
other predecessors of a dependent are not looked at: one that still waits for two more tasks is
activated by the first.\<close>

theorem activation_exact:
  assumes "cypher_service exec" "require_caller_context cfg ctx = Inr ()"
  shows "activate_next_in_chain exec cfg loads ctx clk t s =
    (Inr (activated_by exec loads clk (graph s) t), s)"
  using assms by (rule cypher_service.activate_eq)

text \<open>A dependent that waits for the completed task, alone in the store with its edge.\<close>

definition waiting_task :: TaskNode where
  "waiting_task = (example_task TaskType.ATOMIC)\<lparr>state := TaskState.INACTIVE_PENDING\<rparr>"

definition waiting_session :: "mem_graph session" where
  "waiting_session = (one_task_session waiting_task)\<lparr>graph :=
     (graph (one_task_session waiting_task))\<lparr>relations := [\<lparr>rel_id = 0, rel_type = ''DEPENDS_ON'',
       rel_src = ''TSK-AB-1234-ATM'', rel_tgt = ''TSK-AB-0001-MIL'', rel_props = []\<rparr>]\<rparr>\<rparr>"

lemma waiting_visible:
  "visible_task mem_exec (\<lambda>_. None) (graph waiting_session) ''TSK-AB-1234-ATM'' = Some waiting_task"
proof -
  have id: "node_id waiting_task = ''TSK-AB-1234-ATM''"
    by (simp add: waiting_task_def example_defs)
  have "fetch mem_exec (graph waiting_session) (node_id waiting_task) = Some (row_of (task_dump waiting_task))"
    using one_task_fetch [of waiting_task] by (simp add: waiting_session_def fetch_def one_task_session_def)
  moreover have "load_task (\<lambda>_. None) (row_of (task_dump waiting_task)) = Some waiting_task"
    by code_simp
  moreover have "get_truthy (row_of (task_dump waiting_task)) ''archived_at'' = False"
    by code_simp
  ultimately show ?thesis by (simp add: visible_task_def id visible_def)
qed

theorem activation_exact_witness:
  "activate_next_in_chain mem_exec admin_cfg (\<lambda>_. None) None (\<lambda>_ _. (utc_dt 0, utc_dt 0))
     ((example_task TaskType.MILESTONE)\<lparr>node_id := ''TSK-AB-0001-MIL''\<rparr>) waiting_session =
   (Inr [waiting_task\<lparr>state := TaskState.ACTIVE, state_history := [history_entry
      TaskState.INACTIVE_PENDING TaskState.ACTIVE (utc_dt 0) ChangedBy.CASCADE
      ''Predecessor TSK-AB-0001-MIL completed -- activating next in chain'']\<rparr>], waiting_session)"
proof -
  let ?t = "(example_task TaskType.MILESTONE)\<lparr>node_id := ''TSK-AB-0001-MIL''\<rparr>"
  have ok: "require_caller_context admin_cfg None = Inr ()"
    by (simp add: require_caller_context_def admin_cfg_def)
  have deps: "dependents mem_exec (graph waiting_session) (node_id ?t) = [''TSK-AB-1234-ATM'']"
    by code_simp
  have "state waiting_task = TaskState.INACTIVE_PENDING" "state_history waiting_task = []"
    by (simp_all add: waiting_task_def example_defs)
  then show ?thesis
    by (subst activation_exact [OF mem.cypher_service_axioms ok])
      (simp add: activated_by_def deps [simplified] map_filter_simps waiting_visible activation_reason_def)
qed

subsection \<open>On the store the program makes\<close>
subsection \<open>On the store the program makes\<close>

lemma persist_transition_refused:
  assumes "create_graph_store backend enforcement = Inr cfg"
    and "require_caller_context cfg ctx = Inr ()"
  shows "persist_transition_and_cascade fuel exec cfg loads ctx clk t st cb rsn s =
    (Inl (case sm_transition clk t st cb rsn of
       Inl e \<Rightarrow> TransitionRejected e
     | Inr _ \<Rightarrow> InsufficientPrivilegeError (sort LIFECYCLE_FIELDS)), s)"
proof -
  have refused: "persist_task exec cfg ctx u s = (Inl (InsufficientPrivilegeError (sort LIFECYCLE_FIELDS)), s)" for u
  proof -
    have p: "principal_name cfg = ''agent_principal''"
      using assms(1) by (auto simp: create_graph_store_def split: if_splits)
    then show ?thesis
      using assms(2) by (simp add: persist_task_def update_node_def bindS_unfold forbidden_dump
          sorted_lifecycle_nonempty)
  qed
  show ?thesis
  proof (cases rule: transition_cases [of "fst (clk t st)" "snd (clk t st)" t st cb rsn])
    case (ok t')
    then show ?thesis
      by (simp add: persist_transition_and_cascade_def persist_transition_def sm_transition_def
          bindS_unfold refused)
  next
    case (rejected g)
    then show ?thesis
      by (simp add: persist_transition_and_cascade_def persist_transition_def sm_transition_def
          bindS_unfold)
  qed
qed

text \<open>With the store \<open>create_graph_store\<close> gives, no transition is ever persisted: a
rejected one raises as usual, and a permitted one raises \<open>InsufficientPrivilegeError\<close> from the
write, with nothing written, no cascade run and no notification sent.\<close>

theorem persist_transition_fails:
  assumes "create_graph_store backend enforcement = Inr cfg"
    and "require_caller_context cfg ctx = Inr ()"
  shows "persist_transition_and_cascade fuel exec cfg loads ctx clk t st cb rsn s =
    (Inl (case sm_transition clk t st cb rsn of
       Inl e \<Rightarrow> TransitionRejected e
     | Inr _ \<Rightarrow> InsufficientPrivilegeError (sort LIFECYCLE_FIELDS)), s)"
  by (rule persist_transition_refused [OF assms])

theorem persist_transition_fails_witness:
  "fst (persist_transition_and_cascade 5 mem_exec agent_cfg (\<lambda>_. None) None
     (\<lambda>_ _. (utc_dt 0, utc_dt 0)) (example_task TaskType.ATOMIC) TaskState.ACTIVE ChangedBy.HUMAN ''go''
     (one_task_session (example_task TaskType.ATOMIC))) =
   Inl (InsufficientPrivilegeError (sort LIFECYCLE_FIELDS))"
  by (subst persist_transition_fails [where backend = "''age''" and enforcement = False])
    (simp_all add: create_graph_store_def agent_cfg_def require_caller_context_def
      sm_transition_def transition_def Let_def check_transition_table_def
      guard_terminal_cancelled_def guard_terminal_complete_def guard_approval_auto_resolve_def
      guard_inactive_pending_activation_def guard_blocked_activation_def guard_autonomy_def
      example_defs)

end
