(* ===== verification/GC_Redirects.thy ===== *)
theory GC_Redirects
  imports GC_StoreLaws
begin

section \<open>Following tombstones (\<open>db/age/redirects.py\<close>)\<close>

text \<open>
  \<open>resolve_canonical\<close> follows tombstone redirects from an archived node to the node that
  replaced it, with a set of visited ids and a bound on the number of hops. The number of
  iterations left is the recursion argument. \<open>ts\<close> is the text a timestamp is stored as, which
  decides between several tombstones of one node.
\<close>

subsection \<open>The resolver\<close>

definition DEFAULT_MAX_HOPS :: int where "DEFAULT_MAX_HOPS = 5"

definition created_key :: "(py_datetime \<Rightarrow> string) \<Rightarrow> props \<Rightarrow> string" where
  "created_key ts t = (case dict_get t ''created_at'' of
     Some (PStr s) \<Rightarrow> s | Some (PTime d) \<Rightarrow> ts d | _ \<Rightarrow> '''')"

text \<open>\<open>sorted(..., reverse=True)[0]\<close>: a reversed stable sort is the reverse of the sort of the reverse.\<close>

definition latest_tombstone :: "(py_datetime \<Rightarrow> string) \<Rightarrow> props list \<Rightarrow> props" where
  "latest_tombstone ts tombstones = hd (rev (sort_key (created_key ts) (rev tombstones)))"

definition find_tombstone ::
  "'g database \<Rightarrow> store_cfg \<Rightarrow> (py_datetime \<Rightarrow> string) \<Rightarrow> string \<Rightarrow> ('g, props option) op" where
  "find_tombstone exec cfg ts archived_node_id =
     bindS (list_nodes exec cfg ''TombstoneNode''
              [(''archived_node_id'', PStr archived_node_id)] None) (\<lambda>tombstones.
       if tombstones = [] then returnS None
       else returnS (Some (latest_tombstone ts tombstones)))"

definition is_live :: "props \<Rightarrow> bool" where
  "is_live node \<longleftrightarrow>
     dict_get node ''link_status'' \<noteq> Some (PStr ''redirected'') \<and> \<not> get_truthy node ''archived_at''"

fun resolve_loop ::
  "'g database \<Rightarrow> store_cfg \<Rightarrow> (py_datetime \<Rightarrow> string) \<Rightarrow> string \<Rightarrow> nat \<Rightarrow> string list \<Rightarrow> string
     \<Rightarrow> ('g, props option) op" where
  "resolve_loop exec cfg ts start_id 0 visited current_id = raiseS (MaxHopsExceeded start_id)"
| "resolve_loop exec cfg ts start_id (Suc n) visited current_id =
     (if current_id \<in> set visited then raiseS (TombstoneCycle current_id)
      else bindS (get_node exec cfg current_id True None) (\<lambda>found.
        case found of None \<Rightarrow> returnS None
        | Some node \<Rightarrow>
           if is_live node then returnS (Some node)
           else bindS (find_tombstone exec cfg ts current_id) (\<lambda>tombstone.
             case tombstone of None \<Rightarrow> returnS (Some node)
             | Some t \<Rightarrow>
                (case dict_get_default t ''redirect_to'' PNone of
                   PNone \<Rightarrow> returnS None
                 | PStr redirect_to \<Rightarrow>
                     resolve_loop exec cfg ts start_id n (current_id # visited) redirect_to
                 | _ \<Rightarrow> raiseS PyAttributeError))))"

definition resolve_canonical ::
  "'g database \<Rightarrow> store_cfg \<Rightarrow> (py_datetime \<Rightarrow> string) \<Rightarrow> string \<Rightarrow> int \<Rightarrow> ('g, props option) op" where
  "resolve_canonical exec cfg ts start_id max_hops =
     resolve_loop exec cfg ts start_id (nat (max_hops + 1)) [] start_id"

subsection \<open>The redirect graph\<close>

text \<open>
  What one node says: it redirects to another, or the search ends there with a result, or its
  tombstone is malformed.
\<close>

datatype outcome = Redirect string | Ends "props option" | Malformed

definition tombstones_of :: "'g database \<Rightarrow> 'g \<Rightarrow> string \<Rightarrow> props list" where
  "tombstones_of exec g i = map extract_properties
     (fst (exec (MatchLabel ''TombstoneNode'' [(''archived_node_id'', CStr (PStr i))]) g))"

definition outcome_of ::
  "'g database \<Rightarrow> (py_datetime \<Rightarrow> string) \<Rightarrow> 'g \<Rightarrow> string \<Rightarrow> outcome" where
  "outcome_of exec ts g i =
     (case fetch exec g i of None \<Rightarrow> Ends None
      | Some node \<Rightarrow>
         if is_live node \<or> tombstones_of exec g i = [] then Ends (Some node)
         else (case dict_get_default (latest_tombstone ts (tombstones_of exec g i)) ''redirect_to'' PNone of
                 PNone \<Rightarrow> Ends None | PStr j \<Rightarrow> Redirect j | _ \<Rightarrow> Malformed))"

text \<open>The id after \<open>k\<close> redirects.\<close>

fun hops :: "(string \<Rightarrow> outcome) \<Rightarrow> nat \<Rightarrow> string \<Rightarrow> string option" where
  "hops f 0 i = Some i"
| "hops f (Suc k) i = (case f i of Redirect j \<Rightarrow> hops f k j | _ \<Rightarrow> None)"

fun search :: "(string \<Rightarrow> outcome) \<Rightarrow> string \<Rightarrow> nat \<Rightarrow> string list \<Rightarrow> string \<Rightarrow> py_error + props option" where
  "search f i0 0 visited i = Inl (MaxHopsExceeded i0)"
| "search f i0 (Suc n) visited i =
     (if i \<in> set visited then Inl (TombstoneCycle i)
      else case f i of Redirect j \<Rightarrow> search f i0 n (i # visited) j
        | Ends r \<Rightarrow> Inr r | Malformed \<Rightarrow> Inl PyAttributeError)"

lemma hops_add: "hops f (a + b) i = Option.bind (hops f a i) (hops f b)"
  by (induction a arbitrary: i) (auto split: outcome.splits)

lemma hops_Suc_last: "hops f (Suc k) i =
    (case hops f k i of None \<Rightarrow> None | Some j \<Rightarrow> (case f j of Redirect l \<Rightarrow> Some l | _ \<Rightarrow> None))"
  using hops_add [of f k 1 i] by (simp split: option.splits outcome.splits)

lemma hops_None_mono: "hops f a i = None \<Longrightarrow> a \<le> b \<Longrightarrow> hops f b i = None"
  using hops_add [of f a "b - a" i] by simp

text \<open>A search that ends never meets a node twice.\<close>

lemma hops_period:
  assumes "hops f a i = Some j" "hops f b i = Some j" "a < b"
  shows "hops f k i \<noteq> None"
proof (induction k rule: less_induct)
  case (less k)
  show ?case
  proof (cases "k \<le> b")
    case True
    then show ?thesis using assms(2) hops_None_mono by fastforce
  next
    case False
    define m where "m = k - b"
    then have "hops f k i = Option.bind (hops f b i) (hops f m)"
      using hops_add [of f b m i] False by simp
    also have "\<dots> = hops f (a + m) i" by (simp add: hops_add assms)
    finally show ?thesis using less.IH [of "a + m"] assms(3) False m_def by simp
  qed
qed

lemma hops_ends_stop: "hops f k i = Some j \<Longrightarrow> \<not> (\<exists>l. f j = Redirect l) \<Longrightarrow> hops f (Suc k) i = None"
  by (auto simp: hops_Suc_last simp del: hops.simps split: outcome.splits)

definition path :: "(string \<Rightarrow> outcome) \<Rightarrow> nat \<Rightarrow> string \<Rightarrow> string list \<Rightarrow> bool" where
  "path f m i0 visited \<longleftrightarrow> length visited = m \<and> (\<forall>k<m. hops f k i0 = Some (rev visited ! k))"

lemma path_Nil [simp]: "path f 0 i0 []"
  by (simp add: path_def)

lemma path_Cons: "path f m i0 vis \<Longrightarrow> hops f m i0 = Some i \<Longrightarrow> path f (Suc m) i0 (i # vis)"
  by (auto simp: path_def nth_append less_Suc_eq)

lemma path_mem: "path f m i0 vis \<Longrightarrow> i \<in> set vis \<Longrightarrow> \<exists>k<m. hops f k i0 = Some i"
  by (metis path_def in_set_conv_nth length_rev set_rev)

lemma search_from:
  assumes "path f m i0 vis" "hops f m i0 = Some i"
  shows "search f i0 n vis i = Inr r \<longleftrightarrow>
    (\<exists>k<m + n. m \<le> k \<and> (\<exists>j. hops f k i0 = Some j \<and> f j = Ends r))"
  using assms
proof (induction n arbitrary: m vis i)
  case 0
  then show ?case by simp
next
  case (Suc n)
  have here: "m \<le> k \<Longrightarrow> hops f k i0 = Some j \<Longrightarrow> \<not> (\<exists>l. f i = Redirect l) \<Longrightarrow> k = m \<and> j = i" for k j
    using hops_ends_stop [OF Suc.prems(2)] hops_None_mono [of f "Suc m" i0 k] Suc.prems(2)
    by (cases "k = m") auto
  show ?case
  proof (cases "i \<in> set vis")
    case True
    then obtain a where "a < m" "hops f a i0 = Some i" using path_mem Suc.prems(1) by blast
    then have "\<And>k. hops f k i0 \<noteq> None" using hops_period Suc.prems(2) by blast
    then have "\<And>k j. hops f k i0 = Some j \<Longrightarrow> f j \<noteq> Ends r"
      using hops_ends_stop by (metis outcome.distinct(1))
    with True show ?thesis by auto
  next
    case False
    show ?thesis
    proof (cases "f i")
      case (Redirect j)
      have nx: "hops f (Suc m) i0 = Some j"
        using Suc.prems(2) by (simp add: hops_Suc_last Redirect del: hops.simps)
      have eq: "(\<exists>k<m + Suc n. m \<le> k \<and> (\<exists>l. hops f k i0 = Some l \<and> f l = Ends r)) \<longleftrightarrow>
          (\<exists>k<Suc m + n. Suc m \<le> k \<and> (\<exists>l. hops f k i0 = Some l \<and> f l = Ends r))"
        using Suc.prems(2) Redirect by (force simp: le_less Suc_le_eq)
      show ?thesis
        using Suc.IH [OF path_Cons [OF Suc.prems] nx] False Redirect eq by simp
    next
      case (Ends r')
      with False here Suc.prems(2) show ?thesis by (auto intro!: exI [of _ m])
    next
      case Malformed
      with False here Suc.prems(2) show ?thesis by auto
    qed
  qed
qed

lemma search_cycleD:
  assumes "path f m i0 vis" "hops f m i0 = Some i"
    and "search f i0 n vis i = Inl (TombstoneCycle j)"
  shows "\<exists>a b. a < b \<and> b < m + n \<and> hops f a i0 = Some j \<and> hops f b i0 = Some j"
  using assms
proof (induction n arbitrary: m vis i)
  case 0
  then show ?case by simp
next
  case (Suc n)
  show ?case
  proof (cases "i \<in> set vis")
    case True
    then obtain a where "a < m" "hops f a i0 = Some i" using path_mem Suc.prems(1) by blast
    moreover from Suc.prems(3) True have "i = j" by simp
    ultimately show ?thesis using Suc.prems(2) by (intro exI [of _ a] exI [of _ m]) simp
  next
    case False
    with Suc.prems(3) obtain l where l: "f i = Redirect l" "search f i0 n (i # vis) l = Inl (TombstoneCycle j)"
      by (auto split: outcome.splits)
    have "hops f (Suc m) i0 = Some l"
      using Suc.prems(2) by (simp add: hops_Suc_last l(1) del: hops.simps)
    from Suc.IH [OF path_Cons [OF Suc.prems(1,2)] this l(2)] show ?thesis by simp
  qed
qed

lemma search_maxD:
  assumes "hops f m i0 = Some i" "search f i0 n vis i = Inl (MaxHopsExceeded j)"
  shows "hops f (m + n) i0 \<noteq> None"
  using assms
proof (induction n arbitrary: m vis i)
  case 0
  then show ?case by simp
next
  case (Suc n)
  then obtain l where l: "f i = Redirect l" "search f i0 n (i # vis) l = Inl (MaxHopsExceeded j)"
    by (auto split: outcome.splits if_splits)
  have "hops f (Suc m) i0 = Some l"
    using Suc.prems(1) by (simp add: hops_Suc_last l(1) del: hops.simps)
  from Suc.IH [OF this l(2)] show ?case by simp
qed

subsection \<open>The resolver follows the redirect graph\<close>

lemma tombstone_keys: "KEY_RE_match ''TombstoneNode''" "KEY_RE_match ''archived_node_id''"
  by (simp_all add: KEY_RE_match_def chomp_def newline_def is_upper_def is_lower_def)

context cypher_service
begin

lemma find_tombstone_eq:
  assumes "\<not> no_delete_enforcement cfg"
  shows "find_tombstone exec cfg ts i s =
    (Inr (if tombstones_of exec (graph s) i = [] then None
          else Some (latest_tombstone ts (tombstones_of exec (graph s) i))), s)"
  using assms by (simp add: find_tombstone_def list_nodes_def require_caller_context_def
      tombstone_keys bindS_unfold run_label tombstones_of_def)

lemma resolve_loop_eq:
  assumes "\<not> no_delete_enforcement cfg"
  shows "resolve_loop exec cfg ts i0 n vis i s =
    (search (outcome_of exec ts (graph s)) i0 n vis i, s)"
proof (induction n arbitrary: vis i)
  case 0
  then show ?case by simp
next
  case (Suc n)
  have get: "get_node exec cfg i True None s = (Inr (fetch exec (graph s) i), s)"
    using assms by (simp add: get_node_eq require_caller_context_def visible_def split: option.split)
  show ?case
    by (auto simp: bindS_unfold get find_tombstone_eq [OF assms] outcome_of_def Suc.IH
        split: option.split pval.split)
qed

end


text \<open>The errors of \<open>resolve_canonical\<close> mean what they say. \<open>TombstoneCycle j\<close> is
raised only when the chain really comes back to \<open>j\<close> within \<open>max_hops\<close> redirects, and
\<open>MaxHopsExceeded\<close> only when more than \<open>max_hops\<close> redirects follow one another.\<close>

theorem resolve_canonical_errors:
  assumes "cypher_service exec" "\<not> no_delete_enforcement cfg"
    and "resolve_canonical exec cfg ts i max_hops s = (Inl e, s')"
  shows "case e of
      TombstoneCycle j \<Rightarrow> \<exists>a b. a < b \<and> int b \<le> max_hops \<and>
        hops (outcome_of exec ts (graph s)) a i = Some j \<and>
        hops (outcome_of exec ts (graph s)) b i = Some j
    | MaxHopsExceeded j \<Rightarrow> hops (outcome_of exec ts (graph s)) (nat (max_hops + 1)) i \<noteq> None
    | _ \<Rightarrow> True"
proof -
  have run: "search (outcome_of exec ts (graph s)) i (nat (max_hops + 1)) [] i = Inl e"
    using assms(3) unfolding resolve_canonical_def
      cypher_service.resolve_loop_eq [OF assms(1,2)] by auto
  show ?thesis
  proof (cases e)
    case (TombstoneCycle j)
    with search_cycleD [OF path_Nil, of _ i i "nat (max_hops + 1)" j] run
    show ?thesis by (fastforce simp: zless_nat_eq_int_zless)
  next
    case (MaxHopsExceeded j)
    with search_maxD [of _ 0 i i "nat (max_hops + 1)" "[]" j] run show ?thesis by simp
  qed simp_all
qed

text \<open>The resolver passes no caller context to the store, so once
\<open>GRAPHCLAW_NO_DELETE_ENFORCEMENT\<close> is on it always raises \<open>ACLContextMissingError\<close>, for live
nodes as well, and the whole redirect mechanism is out of use.\<close>

theorem resolve_canonical_enforced:
  assumes "no_delete_enforcement cfg" "0 \<le> max_hops"
  shows "resolve_canonical exec cfg ts i max_hops s = (Inl ACLContextMissingError, s)"
proof -
  from assms(2) obtain n where "nat (max_hops + 1) = Suc n"
    by (metis Suc_nat_eq_nat_zadd1 add.commute)
  then show ?thesis
    using assms(1) by (simp add: resolve_canonical_def get_node_def bindS_unfold
        require_caller_context_def)
qed

text \<open>A graph where A was archived in favour of B and B of A, and C is live.\<close>

definition redirect_graph :: "mem_graph session" where
  "redirect_graph = \<lparr>graph = \<lparr>vertices =
     [(''TaskAtomic'', [(''id'', PStr ''A''), (''link_status'', PStr ''redirected'')]),
      (''TaskAtomic'', [(''id'', PStr ''B''), (''link_status'', PStr ''redirected'')]),
      (''TaskAtomic'', [(''id'', PStr ''C''), (''title'', PStr ''live'')]),
      (''TaskAtomic'', [(''id'', PStr ''D''), (''archived_at'', PTime (utc_dt 0))]),
      (''TombstoneNode'', [(''id'', PStr ''T1''), (''archived_node_id'', PStr ''A''),
        (''redirect_to'', PStr ''B'')]),
      (''TombstoneNode'', [(''id'', PStr ''T2''), (''archived_node_id'', PStr ''B''),
        (''redirect_to'', PStr ''A'')]),
      (''TombstoneNode'', [(''id'', PStr ''T3''), (''archived_node_id'', PStr ''D''),
        (''redirect_to'', PStr ''C'')])],
     relations = [], next_rel = 0\<rparr>, spawned = [], notified = []\<rparr>"

lemma redirect_outcomes:
  "outcome_of mem_exec ts (graph redirect_graph) ''D'' = Redirect ''C''"
  "outcome_of mem_exec ts (graph redirect_graph) ''C'' =
     Ends (Some [(''id'', PStr ''C''), (''title'', PStr ''live'')])"
  "outcome_of mem_exec ts (graph redirect_graph) ''A'' = Redirect ''B''"
  "outcome_of mem_exec ts (graph redirect_graph) ''B'' = Redirect ''A''"
  by (simp_all add: outcome_of_def fetch_def redirect_graph_def node_rows_def has_id_def
      dict_simps is_live_def get_truthy_def tombstones_of_def prop_match_def
      latest_tombstone_def dict_get_default_def)


theorem resolve_canonical_errors_witness:
  "\<exists>a b. a < b \<and> int b \<le> DEFAULT_MAX_HOPS \<and>
     hops (outcome_of mem_exec (\<lambda>_. '''') (graph redirect_graph)) a ''A'' = Some ''A'' \<and>
     hops (outcome_of mem_exec (\<lambda>_. '''') (graph redirect_graph)) b ''A'' = Some ''A''"
proof -
  have enf: "\<not> no_delete_enforcement admin_cfg" by (simp add: admin_cfg_def)
  have six: "nat (DEFAULT_MAX_HOPS + 1) = Suc (Suc (Suc (Suc (Suc (Suc 0)))))"
    by (simp add: DEFAULT_MAX_HOPS_def)
  have "resolve_canonical mem_exec admin_cfg (\<lambda>_. '''') ''A'' DEFAULT_MAX_HOPS redirect_graph =
      (Inl (TombstoneCycle ''A''), redirect_graph)"
    unfolding resolve_canonical_def mem.resolve_loop_eq [OF enf] six
    by (simp add: redirect_outcomes)
  from resolve_canonical_errors [OF mem.cypher_service_axioms enf this] show ?thesis by simp
qed

theorem resolve_canonical_enforced_witness:
  "fst (resolve_canonical mem_exec (admin_cfg\<lparr>no_delete_enforcement := True\<rparr>) (\<lambda>_. '''') ''C''
     DEFAULT_MAX_HOPS redirect_graph) = Inl ACLContextMissingError"
  by (subst resolve_canonical_enforced) (simp_all add: admin_cfg_def DEFAULT_MAX_HOPS_def)

end
