(* ===== verification/GC_Weights.thy ===== *)
theory GC_Weights
  imports GC_Prelude
begin

section \<open>Learning the scoring weights (\<open>models/scoring_weights.py\<close>)\<close>

text \<open>
  \<open>ScoringWeightLearner\<close>: a feedback signal moves one weight towards the ceiling or the floor,
  every weight is clamped, and all are divided by their sum. Floats are exact rationals here;
  rounding is not modelled.
\<close>

datatype Direction = UP | DOWN

datatype SignalType = SigPRIORITIZE | SigDEPRIORITIZE | SigSNOOZE | SigCOMPLETE_EARLY | SigDEFER

record ScoringWeightUpdate =
  upd_factor_name :: string
  upd_direction :: Direction
  upd_signal_type :: SignalType

datatype weight_error = BadFloor rat | BadCeiling rat | FloorNotBelowCeiling rat rat
  | BadLearningRate rat | UnknownFactor string

record ScoringWeightLearner =
  ln_weights :: "rat pydict"
  ln_lr :: rat
  ln_floor :: rat
  ln_ceiling :: rat

definition DEFAULT_SCORING_WEIGHTS :: "rat pydict" where
  "DEFAULT_SCORING_WEIGHTS =
     [(''timeline_urgency'', 25 / 100), (''dependency_weight'', 20 / 100),
      (''critical_path'', 20 / 100), (''blocker_score'', 15 / 100), (''human_override'', 10 / 100),
      (''resource_risk'', 5 / 100), (''constraint_pressure'', 5 / 100)]"

definition learner_init ::
  "rat pydict \<Rightarrow> rat \<Rightarrow> rat \<Rightarrow> rat \<Rightarrow> weight_error + ScoringWeightLearner" where
  "learner_init ws lr fl ce =
     (if fl \<le> 0 then Inl (BadFloor fl)
      else if ce > 1 then Inl (BadCeiling ce)
      else if fl \<ge> ce then Inl (FloorNotBelowCeiling fl ce)
      else if \<not> (0 < lr \<and> lr \<le> 1) then Inl (BadLearningRate lr)
      else Inr \<lparr>ln_weights = ws, ln_lr = lr, ln_floor = fl, ln_ceiling = ce\<rparr>)"

definition default_learner :: "weight_error + ScoringWeightLearner" where
  "default_learner = learner_init DEFAULT_SCORING_WEIGHTS (5 / 100) (2 / 100) (40 / 100)"

definition clamp :: "rat \<Rightarrow> rat \<Rightarrow> rat \<Rightarrow> rat" where
  "clamp fl ce w = max fl (min ce w)"

definition clamp_all :: "ScoringWeightLearner \<Rightarrow> ScoringWeightLearner" where
  "clamp_all l = l\<lparr>ln_weights := map (\<lambda>(k, w). (k, clamp (ln_floor l) (ln_ceiling l) w)) (ln_weights l)\<rparr>"

definition total :: "rat pydict \<Rightarrow> rat" where
  "total ws = sum_list (map snd ws)"

definition normalise :: "ScoringWeightLearner \<Rightarrow> ScoringWeightLearner" where
  "normalise l =
     (if total (ln_weights l) = 0
      then let n = length (ln_weights l); uniform = (if n > 0 then 1 / of_nat n else 0)
           in l\<lparr>ln_weights := map (\<lambda>(k, w). (k, uniform)) (ln_weights l)\<rparr>
      else l\<lparr>ln_weights := map (\<lambda>(k, w). (k, w / total (ln_weights l))) (ln_weights l)\<rparr>)"

definition nudged :: "ScoringWeightLearner \<Rightarrow> Direction \<Rightarrow> rat \<Rightarrow> rat" where
  "nudged l d old =
     clamp (ln_floor l) (ln_ceiling l)
       (case d of UP \<Rightarrow> old + ln_lr l * (ln_ceiling l - old)
        | DOWN \<Rightarrow> old - ln_lr l * (old - ln_floor l))"

definition apply_update ::
  "ScoringWeightLearner \<Rightarrow> ScoringWeightUpdate \<Rightarrow> weight_error + ScoringWeightLearner" where
  "apply_update l u =
     (if upd_signal_type u = SigSNOOZE then Inr l
      else case dict_get (ln_weights l) (upd_factor_name u) of
        None \<Rightarrow> Inl (UnknownFactor (upd_factor_name u))
      | Some old \<Rightarrow>
          Inr (normalise (clamp_all
            (l\<lparr>ln_weights := dict_set (upd_factor_name u) (nudged l (upd_direction u) old) (ln_weights l)\<rparr>))))"

definition apply_updates ::
  "ScoringWeightLearner \<Rightarrow> ScoringWeightUpdate list \<Rightarrow> weight_error + ScoringWeightLearner" where
  "apply_updates = forE apply_update"

subsection \<open>The weights stay a distribution\<close>

definition learner_ok :: "ScoringWeightLearner \<Rightarrow> bool" where
  "learner_ok l \<longleftrightarrow> 0 < ln_floor l \<and> ln_floor l < ln_ceiling l \<and> ln_ceiling l \<le> 1 \<and>
     0 < ln_lr l \<and> ln_lr l \<le> 1"

definition distribution :: "rat pydict \<Rightarrow> bool" where
  "distribution ws \<longleftrightarrow> total ws = 1 \<and> (\<forall>(k, w) \<in> set ws. 0 < w)"

lemma learner_init_ok: "learner_init ws lr fl ce = Inr l \<Longrightarrow> learner_ok l \<and> ln_weights l = ws"
  by (auto simp: learner_init_def learner_ok_def split: if_splits)

lemma clamp_range: "fl \<le> ce \<Longrightarrow> fl \<le> clamp fl ce w \<and> clamp fl ce w \<le> ce"
  by (auto simp: clamp_def)

lemma clamp_id: "fl \<le> w \<Longrightarrow> w \<le> ce \<Longrightarrow> clamp fl ce w = w"
  by (simp add: clamp_def)

lemma total_pos: "ws \<noteq> [] \<Longrightarrow> (\<forall>(k, w) \<in> set ws. 0 < w) \<Longrightarrow> 0 < total ws"
proof (induction ws)
  case (Cons x ws)
  then show ?case
  proof (cases "ws = []")
    case False
    with Cons show ?thesis by (auto simp: total_def split_def intro: add_pos_pos)
  qed (auto simp: total_def)
qed simp

lemma total_scale: "total (map (\<lambda>(k, w). (k, w / c)) ws) = total ws / c"
  by (induction ws) (auto simp: total_def add_divide_distrib split_def)

lemma normalise_distribution:
  assumes "ln_weights l \<noteq> []" "\<forall>(k, w) \<in> set (ln_weights l). 0 < w"
  shows "distribution (ln_weights (normalise l))"
  using total_pos [OF assms] assms(2)
  by (auto simp: normalise_def distribution_def total_scale)

lemma keys_clamp_all: "dict_keys (ln_weights (clamp_all l)) = dict_keys (ln_weights l)"
  by (simp add: clamp_all_def dict_keys_def comp_def split_def)

lemma keys_normalise: "dict_keys (ln_weights (normalise l)) = dict_keys (ln_weights l)"
  by (simp add: normalise_def dict_keys_def comp_def split_def Let_def)

lemma keys_set_known: "dict_get d k = Some v \<Longrightarrow> dict_keys (dict_set k w d) = dict_keys d"
  by (induction d) (auto simp: dict_set_def dict_keys_def dict_get_def split: if_splits)

lemma clamp_all_pos: "learner_ok l \<Longrightarrow> \<forall>(k, w) \<in> set (ln_weights (clamp_all l)). 0 < w"
  by (auto simp: clamp_all_def clamp_def learner_ok_def)

lemma apply_update_step:
  assumes "learner_ok l" "apply_update l u = Inr l'"
  shows "learner_ok l'" "dict_keys (ln_weights l') = dict_keys (ln_weights l)"
    "upd_signal_type u \<noteq> SigSNOOZE \<Longrightarrow> distribution (ln_weights l')"
    "upd_signal_type u = SigSNOOZE \<Longrightarrow> l' = l"
proof -
  show "upd_signal_type u = SigSNOOZE \<Longrightarrow> l' = l"
    using assms(2) by (simp add: apply_update_def)
  have "learner_ok l' \<and> dict_keys (ln_weights l') = dict_keys (ln_weights l) \<and>
      (upd_signal_type u \<noteq> SigSNOOZE \<longrightarrow> distribution (ln_weights l'))"
  proof (cases "upd_signal_type u = SigSNOOZE")
    case True
    with assms show ?thesis by (simp add: apply_update_def)
  next
    case False
    then obtain old where old: "dict_get (ln_weights l) (upd_factor_name u) = Some old"
      and l': "l' = normalise (clamp_all (l\<lparr>ln_weights :=
         dict_set (upd_factor_name u) (nudged l (upd_direction u) old) (ln_weights l)\<rparr>))"
      using assms(2) by (auto simp: apply_update_def split: option.splits)
    let ?m = "l\<lparr>ln_weights := dict_set (upd_factor_name u) (nudged l (upd_direction u) old) (ln_weights l)\<rparr>"
    have ok: "learner_ok ?m" "learner_ok l'"
      using assms(1) by (auto simp: learner_ok_def l' normalise_def clamp_all_def Let_def)
    have keys: "dict_keys (ln_weights l') = dict_keys (ln_weights l)"
      by (simp add: l' keys_normalise keys_clamp_all keys_set_known [OF old])
    have "upd_factor_name u \<in> set (dict_keys (ln_weights l))"
      using old by (metis dict_get_eq_None option.distinct(1))
    then have "ln_weights (clamp_all ?m) \<noteq> []"
      using keys_clamp_all [of ?m] keys_set_known [OF old] by (auto simp: dict_keys_def)
    from normalise_distribution [OF this clamp_all_pos [OF ok(1)]] ok keys l' show ?thesis by simp
  qed
  then show "learner_ok l'" "dict_keys (ln_weights l') = dict_keys (ln_weights l)"
    "upd_signal_type u \<noteq> SigSNOOZE \<Longrightarrow> distribution (ln_weights l')" by simp_all
qed

text \<open>Claim C17: whatever feedback a learner gets, in any order, its factors stay the same and its
weights stay positive with sum 1 once they were (the default weights are). Signals for unknown
factors raise and are the only ones that do.\<close>

theorem weights_stay_distribution:
  assumes "learner_init ws lr fl ce = Inr l" "distribution ws"
    and "apply_updates l us = Inr l'"
  shows "distribution (ln_weights l') \<and> dict_keys (ln_weights l') = dict_keys ws"
proof -
  have "(\<lambda>m. learner_ok m \<and> distribution (ln_weights m) \<and> dict_keys (ln_weights m) = dict_keys ws) l'"
  proof (rule forE_invariant [OF _ _ assms(3) [unfolded apply_updates_def]])
    show "learner_ok l \<and> distribution (ln_weights l) \<and> dict_keys (ln_weights l) = dict_keys ws"
      using learner_init_ok [OF assms(1)] assms(2) by simp
  next
    fix m u m' assume m: "learner_ok m \<and> distribution (ln_weights m) \<and> dict_keys (ln_weights m) = dict_keys ws"
      and step: "apply_update m u = Inr m'"
    from m show "learner_ok m' \<and> distribution (ln_weights m') \<and> dict_keys (ln_weights m') = dict_keys ws"
      using apply_update_step [OF _ step] by (cases "upd_signal_type u = SigSNOOZE") auto
  qed
  then show ?thesis by simp
qed

theorem weights_stay_distribution_witness:
  "\<exists>l'. bindE default_learner (\<lambda>l. apply_updates l
      [\<lparr>upd_factor_name = ''blocker_score'', upd_direction = UP, upd_signal_type = SigPRIORITIZE\<rparr>]) = Inr l' \<and>
    distribution (ln_weights l')"
proof -
  let ?u = "\<lparr>upd_factor_name = ''blocker_score'', upd_direction = UP, upd_signal_type = SigPRIORITIZE\<rparr>"
  obtain l where l: "learner_init DEFAULT_SCORING_WEIGHTS (5 / 100) (2 / 100) (40 / 100) = Inr l"
    by (simp add: learner_init_def)
  then have "ln_weights l = DEFAULT_SCORING_WEIGHTS" by (auto simp: learner_init_def)
  then obtain l' where l': "apply_updates l [?u] = Inr l'"
    by (simp add: apply_updates_def apply_update_def DEFAULT_SCORING_WEIGHTS_def dict_simps)
  have "distribution DEFAULT_SCORING_WEIGHTS"
    by (simp add: distribution_def total_def DEFAULT_SCORING_WEIGHTS_def)
  from weights_stay_distribution [OF l this l'] l l' show ?thesis
    by (simp add: default_learner_def)
qed

subsection \<open>Feedback moves the weight it names\<close>

definition in_range :: "ScoringWeightLearner \<Rightarrow> bool" where
  "in_range l \<longleftrightarrow> (\<forall>(k, w) \<in> set (ln_weights l). ln_floor l \<le> w \<and> w \<le> ln_ceiling l)"

lemma total_dict_set: "dict_get d k = Some old \<Longrightarrow> total (dict_set k v d) = total d - old + v"
  by (induction d) (auto simp: dict_set_def dict_get_def total_def split: if_splits)

lemma dict_get_map: "dict_get (map (\<lambda>(k, w). (k, f w)) d) k = map_option f (dict_get d k)"
  by (induction d) (auto simp: dict_get_def)

lemma clamp_all_id: "in_range l \<Longrightarrow> clamp_all l = l"
proof -
  assume "in_range l"
  then have "map (\<lambda>(k, w). (k, clamp (ln_floor l) (ln_ceiling l) w)) (ln_weights l) = ln_weights l"
    by (intro map_idI) (auto simp: in_range_def clamp_id)
  then show ?thesis by (simp add: clamp_all_def)
qed

lemma set_dict_set: "x \<in> set (dict_set k v d) \<Longrightarrow> x = (k, v) \<or> x \<in> set d"
  by (induction d) (auto simp: dict_set_def split: if_splits)

lemma apply_in_range:
  assumes "learner_ok l" "distribution (ln_weights l)" "in_range l"
    and old: "dict_get (ln_weights l) k = Some old"
    and new: "nudged l d old = old + \<delta>" "- 1 < \<delta>"
    and u: "upd_factor_name u = k" "upd_direction u = d" "upd_signal_type u \<noteq> SigSNOOZE"
    and run: "apply_update l u = Inr l'"
  shows "dict_get (ln_weights l') j =
    (if j = k then Some ((old + \<delta>) / (1 + \<delta>)) else map_option (\<lambda>w. w / (1 + \<delta>)) (dict_get (ln_weights l) j))"
proof -
  let ?m = "l\<lparr>ln_weights := dict_set k (old + \<delta>) (ln_weights l)\<rparr>"
  have "ln_floor l \<le> old + \<delta> \<and> old + \<delta> \<le> ln_ceiling l"
    using assms(1) clamp_range [of "ln_floor l" "ln_ceiling l"]
    unfolding new(1) [symmetric] nudged_def learner_ok_def by simp
  then have "in_range ?m" using assms(3) by (auto simp: in_range_def dest!: set_dict_set)
  then have cl: "clamp_all ?m = ?m" by (rule clamp_all_id)
  have tot: "total (dict_set k (old + \<delta>) (ln_weights l)) = 1 + \<delta>"
    using assms(2) by (simp add: total_dict_set [OF old] distribution_def)
  have "l' = normalise ?m"
    using run u old new(1) cl by (simp add: apply_update_def)
  then have "ln_weights l' = map (\<lambda>(k, w). (k, w / (1 + \<delta>))) (dict_set k (old + \<delta>) (ln_weights l))"
    using new(2) by (simp add: normalise_def tot)
  then show ?thesis by (simp add: dict_get_map dict_simps)
qed

text \<open>Feedback works in the direction it says. On weights within the bounds, UP on a
factor below the ceiling raises its share and lowers every other one, DOWN on a factor above
the floor lowers its share and raises the others, and the ratios among the others are kept.\<close>

theorem feedback_moves_its_factor:
  assumes "learner_ok l" "distribution (ln_weights l)" "in_range l"
    and "dict_get (ln_weights l) k = Some old" "ln_floor l < old" "old < ln_ceiling l"
    and "upd_factor_name u = k" "upd_signal_type u \<noteq> SigSNOOZE" "apply_update l u = Inr l'"
  shows "\<exists>new c. dict_get (ln_weights l') k = Some new \<and>
    (\<forall>j w. j \<noteq> k \<and> dict_get (ln_weights l) j = Some w \<longrightarrow> dict_get (ln_weights l') j = Some (w / c)) \<and>
    (case upd_direction u of UP \<Rightarrow> old < new \<and> 1 < c | DOWN \<Rightarrow> new < old \<and> 0 < c \<and> c < 1)"
proof -
  have b: "0 < ln_lr l" "ln_lr l \<le> 1" "ln_ceiling l \<le> 1" "0 < ln_floor l"
    using assms(1) by (simp_all add: learner_ok_def)
  define \<delta> where "\<delta> = (case upd_direction u of UP \<Rightarrow> ln_lr l * (ln_ceiling l - old)
                       | DOWN \<Rightarrow> - (ln_lr l * (old - ln_floor l)))"
  have up: "0 < ln_lr l * (ln_ceiling l - old)" "ln_lr l * (ln_ceiling l - old) \<le> ln_ceiling l - old"
    using b assms(6) by (simp_all add: mult_le_cancel_right1)
  have dn: "0 < ln_lr l * (old - ln_floor l)" "ln_lr l * (old - ln_floor l) \<le> old - ln_floor l"
    using b assms(5) by (simp_all add: mult_le_cancel_right1)
  have \<delta>: "nudged l (upd_direction u) old = old + \<delta>"
  proof (cases "upd_direction u")
    case UP
    have "ln_floor l \<le> old + \<delta>" "old + \<delta> \<le> ln_ceiling l"
      using up assms(5) unfolding \<delta>_def UP by (simp_all del: mult_le_cancel_right1)
    then show ?thesis by (simp add: nudged_def UP \<delta>_def clamp_id)
  next
    case DOWN
    have "ln_floor l \<le> old + \<delta>" "old + \<delta> \<le> ln_ceiling l"
      using dn assms(6) unfolding \<delta>_def DOWN by (simp_all del: mult_le_cancel_right1)
    then show ?thesis by (simp add: nudged_def DOWN \<delta>_def clamp_id)
  qed
  have gt: "- 1 < \<delta>"
  proof (cases "upd_direction u")
    case UP
    show ?thesis using up(1) unfolding \<delta>_def UP Direction.case by linarith
  next
    case DOWN
    show ?thesis using dn(2) b(3,4) assms(6) unfolding \<delta>_def DOWN Direction.case by linarith
  qed
  have old1: "0 < old" "old < 1" using b assms(5,6) by simp_all
  note get = apply_in_range [OF assms(1-4) \<delta> gt assms(7) refl assms(8,9)]
  have "(old + \<delta>) / (1 + \<delta>) - old = \<delta> * (1 - old) / (1 + \<delta>)"
    using gt by (simp add: field_simps)
  moreover have "0 < \<delta> \<Longrightarrow> 0 < \<delta> * (1 - old) / (1 + \<delta>)" "\<delta> < 0 \<Longrightarrow> \<delta> * (1 - old) / (1 + \<delta>) < 0"
    using old1 gt by (simp_all add: divide_neg_pos mult_neg_pos)
  ultimately have "(0 < \<delta> \<longrightarrow> old < (old + \<delta>) / (1 + \<delta>)) \<and> (\<delta> < 0 \<longrightarrow> (old + \<delta>) / (1 + \<delta>) < old)"
    by (metis diff_gt_0_iff_gt diff_less_0_iff_less)
  then show ?thesis
    using get up dn gt
    by (intro exI [of _ "(old + \<delta>) / (1 + \<delta>)"] exI [of _ "1 + \<delta>"])
      (cases "upd_direction u"; auto simp: \<delta>_def)
qed

definition example_learner :: ScoringWeightLearner where
  "example_learner = \<lparr>ln_weights = DEFAULT_SCORING_WEIGHTS, ln_lr = 5 / 100, ln_floor = 2 / 100,
     ln_ceiling = 40 / 100\<rparr>"

theorem feedback_moves_its_factor_witness:
  "\<exists>l' new. apply_update example_learner \<lparr>upd_factor_name = ''blocker_score'', upd_direction = UP,
       upd_signal_type = SigPRIORITIZE\<rparr> = Inr l' \<and>
     dict_get (ln_weights l') ''blocker_score'' = Some new \<and> 15 / 100 < new"
proof -
  let ?u = "\<lparr>upd_factor_name = ''blocker_score'', upd_direction = UP, upd_signal_type = SigPRIORITIZE\<rparr>"
  obtain l' where l': "apply_update example_learner ?u = Inr l'"
    by (simp add: apply_update_def example_learner_def DEFAULT_SCORING_WEIGHTS_def dict_simps)
  have "learner_ok example_learner" "distribution (ln_weights example_learner)" "in_range example_learner"
    "dict_get (ln_weights example_learner) ''blocker_score'' = Some (15 / 100)"
    by (simp_all add: example_learner_def learner_ok_def distribution_def total_def in_range_def
        DEFAULT_SCORING_WEIGHTS_def dict_simps)
  from feedback_moves_its_factor [OF this _ _ _ _ l'] l' show ?thesis
    by (auto simp: example_learner_def)
qed

text \<open>The bounds are not kept. Dividing by the sum undoes the clamp: there are a learner
with weights within its bounds and one signal after which a weight lies above the ceiling, and
another one after which a weight lies below the floor.\<close>

theorem bounds_not_kept:
  "\<exists>l u l'. learner_ok l \<and> distribution (ln_weights l) \<and> in_range l \<and> apply_update l u = Inr l' \<and>
      (\<exists>k w. dict_get (ln_weights l') k = Some w \<and> ln_ceiling l < w) \<and>
    (\<exists>m v m'. learner_ok m \<and> distribution (ln_weights m) \<and> in_range m \<and> apply_update m v = Inr m' \<and>
      (\<exists>k w. dict_get (ln_weights m') k = Some w \<and> w < ln_floor m))"
proof -
  let ?l = "\<lparr>ln_weights = [(''a'', 40 / 100), (''b'', 40 / 100), (''c'', 20 / 100)], ln_lr = 5 / 100,
    ln_floor = 2 / 100, ln_ceiling = 40 / 100\<rparr> :: ScoringWeightLearner"
  let ?m = "\<lparr>ln_weights = [(''a'', 2 / 100), (''b'', 38 / 100), (''c'', 30 / 100), (''d'', 30 / 100)],
    ln_lr = 5 / 100, ln_floor = 2 / 100, ln_ceiling = 40 / 100\<rparr> :: ScoringWeightLearner"
  have "learner_ok ?l \<and> distribution (ln_weights ?l) \<and> in_range ?l"
    "learner_ok ?m \<and> distribution (ln_weights ?m) \<and> in_range ?m"
    by (simp_all add: learner_ok_def distribution_def total_def in_range_def)
  moreover obtain l' where "apply_update ?l \<lparr>upd_factor_name = ''c'', upd_direction = DOWN,
      upd_signal_type = SigDEFER\<rparr> = Inr l'" "dict_get (ln_weights l') ''a'' = Some (400 / 991)"
    by (simp add: apply_update_def dict_simps dict_set_def nudged_def clamp_def clamp_all_def
        normalise_def total_def)
  moreover obtain m' where "apply_update ?m \<lparr>upd_factor_name = ''c'', upd_direction = UP,
      upd_signal_type = SigPRIORITIZE\<rparr> = Inr m'" "dict_get (ln_weights m') ''a'' = Some (20 / 1005)"
    by (simp add: apply_update_def dict_simps dict_set_def nudged_def clamp_def clamp_all_def
        normalise_def total_def)
  ultimately show ?thesis by fastforce
qed

end
