(* ===== verification/GC_Topology.thy ===== *)
theory GC_Topology
  imports GC_CascadeLaws
begin

section \<open>Chain topology (\<open>scoring/topology.py\<close>)\<close>

text \<open>
  Whether a task sits in a sequential chain, which sibling of the chain is actionable first,
  which tasks are suppressed, and the urgency that rolls up to a chain head. The code validates
  the rows it reads as they are, without the decoding step of \<open>state/cascade.py\<close>.
\<close>

record ChainTopology =
  ct_task_id :: string
  is_sequential :: bool
  is_first_actionable :: bool
  chain_head_id :: "string option"
  chain_length :: nat

definition standalone :: "string \<Rightarrow> ChainTopology" where
  "standalone i = \<lparr>ct_task_id = i, is_sequential = False, is_first_actionable = True,
     chain_head_id = None, chain_length = 1\<rparr>"

definition sequential_parent :: "TaskNode \<Rightarrow> bool" where
  "sequential_parent p = (case type_metadata p of
     Some (CompositeMetadata _ _ b _) \<Rightarrow> b = BreakdownStrategy.SEQUENTIAL | _ \<Rightarrow> False)"

definition sibling_ids_of :: "props list \<Rightarrow> string list" where
  "sibling_ids_of edges = List.map_filter (\<lambda>e. edge_ref e ''_start_id'') edges"

text \<open>The loop over \<open>dep_edges\<close>: it stops at the first incomplete predecessor in the chain.\<close>

fun incomplete_preds ::
  "'g database \<Rightarrow> store_cfg \<Rightarrow> string list \<Rightarrow> props list \<Rightarrow> ('g, bool) op" where
  "incomplete_preds exec cfg sibs [] = returnS False"
| "incomplete_preds exec cfg sibs (dep # deps) =
     (case edge_ref dep ''_end_id'' of
        Some pred_id \<Rightarrow>
          if pred_id \<in> set sibs
          then bindS (get_node exec cfg pred_id False None) (\<lambda>pred_props.
            case pred_props of
              Some p \<Rightarrow> if p \<noteq> [] \<and> dict_get p ''state'' \<noteq> Some (PStr (TaskState_value TaskState.COMPLETE))
                        then returnS True else incomplete_preds exec cfg sibs deps
            | None \<Rightarrow> incomplete_preds exec cfg sibs deps)
          else incomplete_preds exec cfg sibs deps
      | None \<Rightarrow> incomplete_preds exec cfg sibs deps)"

fun first_actionable ::
  "'g database \<Rightarrow> store_cfg \<Rightarrow> string list \<Rightarrow> string list \<Rightarrow> ('g, string option) op" where
  "first_actionable exec cfg sibs [] = returnS None"
| "first_actionable exec cfg sibs (sid # sids) =
     bindS (get_node exec cfg sid False None) (\<lambda>sib_props.
       case sib_props of None \<Rightarrow> first_actionable exec cfg sibs sids
       | Some p \<Rightarrow>
          (case task_validate (dict_get p) of None \<Rightarrow> first_actionable exec cfg sibs sids
           | Some sib \<Rightarrow>
              if state sib \<in> {TaskState.ACTIVE, TaskState.PENDING, TaskState.IN_PROGRESS}
              then bindS (get_edges exec sid ''out'' (Some ''DEPENDS_ON'')) (\<lambda>dep_edges.
                   bindS (incomplete_preds exec cfg sibs dep_edges) (\<lambda>inc.
                     if inc then first_actionable exec cfg sibs sids else returnS (Some sid)))
              else first_actionable exec cfg sibs sids))"

text \<open>The siblings of a parent and the first actionable one of them.\<close>

definition chain_head ::
  "'g database \<Rightarrow> store_cfg \<Rightarrow> string \<Rightarrow> ('g, string list \<times> string option) op" where
  "chain_head exec cfg parent_id =
     bindS (get_edges exec parent_id ''in'' (Some ''PART_OF'')) (\<lambda>sibling_edges.
       let sibling_ids = sibling_ids_of sibling_edges
       in bindS (first_actionable exec cfg sibling_ids sibling_ids) (\<lambda>head.
            returnS (sibling_ids, head)))"

definition analyze_chain_topology ::
  "'g database \<Rightarrow> store_cfg \<Rightarrow> TaskNode \<Rightarrow> ('g, ChainTopology) op" where
  "analyze_chain_topology exec cfg task =
     bindS (get_edges exec (node_id task) ''out'' (Some ''PART_OF'')) (\<lambda>part_of_edges.
       case part_of_edges of [] \<Rightarrow> returnS (standalone (node_id task))
       | edge # _ \<Rightarrow>
          (case edge_ref edge ''_end_id'' of None \<Rightarrow> returnS (standalone (node_id task))
           | Some parent_id \<Rightarrow>
              bindS (get_node exec cfg parent_id False None) (\<lambda>parent_props.
                case parent_props of None \<Rightarrow> returnS (standalone (node_id task))
                | Some pp \<Rightarrow>
                   (case task_validate (dict_get pp) of
                      None \<Rightarrow> returnS (standalone (node_id task))
                    | Some parent_task \<Rightarrow>
                       if \<not> sequential_parent parent_task then returnS (standalone (node_id task))
                       else bindS (chain_head exec cfg parent_id) (\<lambda>(sibling_ids, head).
                         returnS \<lparr>ct_task_id = node_id task, is_sequential = True,
                           is_first_actionable = (head = Some (node_id task)),
                           chain_head_id = head, chain_length = length sibling_ids\<rparr>)))))"

definition apply_sequential_suppression ::
  "'g database \<Rightarrow> store_cfg \<Rightarrow> TaskNode list \<Rightarrow> ('g, bool pydict) op" where
  "apply_sequential_suppression exec cfg tasks =
     forS (\<lambda>task suppressed.
       bindS (analyze_chain_topology exec cfg task) (\<lambda>topology.
         returnS (dict_set (node_id task)
           (is_sequential topology \<and> \<not> is_first_actionable topology) suppressed))) tasks []"

text \<open>\<open>{t.id: t for t in tasks}\<close>\<close>

definition tasks_by_id :: "TaskNode list \<Rightarrow> TaskNode pydict" where
  "tasks_by_id tasks = foldl (\<lambda>d t. dict_set (node_id t) t d) [] tasks"

definition max_urgency :: "TaskNode pydict \<Rightarrow> string list \<Rightarrow> rat" where
  "max_urgency task_by_id sids =
     foldl (\<lambda>m sid. case dict_get task_by_id sid of None \<Rightarrow> m
        | Some sib \<Rightarrow> if sb_timeline_urgency (scoring sib) > m
                      then sb_timeline_urgency (scoring sib) else m) 0 sids"

definition urgency_rollup ::
  "'g database \<Rightarrow> store_cfg \<Rightarrow> TaskNode list \<Rightarrow> ('g, rat pydict) op" where
  "urgency_rollup exec cfg tasks =
     forS (\<lambda>task rollup.
       bindS (analyze_chain_topology exec cfg task) (\<lambda>topology.
         if \<not> (is_sequential topology \<and> is_first_actionable topology) then returnS rollup
         else bindS (get_edges exec (node_id task) ''out'' (Some ''PART_OF'')) (\<lambda>part_of_edges.
           case part_of_edges of [] \<Rightarrow> returnS rollup
           | edge # _ \<Rightarrow>
              (case edge_ref edge ''_end_id'' of None \<Rightarrow> returnS rollup
               | Some parent_id \<Rightarrow>
                  bindS (get_edges exec parent_id ''in'' (Some ''PART_OF'')) (\<lambda>sibling_edges.
                    returnS (dict_set (node_id task)
                      (max_urgency (tasks_by_id tasks)
                        (filter (\<lambda>i. i \<noteq> node_id task) (remdups (sibling_ids_of sibling_edges)))) rollup))))))
       tasks (foldl (\<lambda>d t. dict_set (node_id t) 0 d) [] tasks)"

subsection \<open>At most one head\<close>

text \<open>What a store of written tasks looks like: the scoring block is a text in every row.\<close>

definition undecoded_rows :: "'g database \<Rightarrow> 'g \<Rightarrow> bool" where
  "undecoded_rows exec g \<longleftrightarrow>
     (\<forall>i p. fetch exec g i = Some p \<longrightarrow> (\<exists>v. dict_get p ''scoring'' = Some v \<and> is_str v))"

definition chain_parent :: "'g database \<Rightarrow> TaskNode \<Rightarrow> 'g session \<Rightarrow> string option" where
  "chain_parent exec t s =
     (case fst (get_edges exec (node_id t) ''out'' (Some ''PART_OF'') s) of
        Inr (edge # _) \<Rightarrow> edge_ref edge ''_end_id'' | _ \<Rightarrow> None)"

context cypher_service
begin

lemma reads_only_get_node [intro, simp]: "reads_only (get_node exec cfg i arch ctx)"
  by (auto simp: reads_only_def get_node_eq require_caller_context_def split: sum.splits if_splits)

lemma reads_only_incomplete [intro, simp]: "reads_only (incomplete_preds exec cfg sibs deps)"
proof (induction deps)
  case (Cons d deps)
  show ?case unfolding incomplete_preds.simps
    by (auto simp del: io_simps simp: Cons split: option.split)
qed (simp del: io_simps)

lemma reads_only_first [intro, simp]: "reads_only (first_actionable exec cfg sibs sids)"
proof (induction sids)
  case (Cons i sids)
  show ?case unfolding first_actionable.simps
    by (rule reads_only_bind)
      (auto simp del: io_simps simp: Cons split: option.split intro!: reads_only_bind)
qed (simp del: io_simps)

lemma reads_only_head [intro, simp]: "reads_only (chain_head exec cfg i)"
  unfolding chain_head_def Let_def by (intro reads_only_bind) (auto simp del: io_simps)

lemma analyze_sequential:
  assumes "analyze_chain_topology exec cfg t s = (Inr a, s')" "is_sequential a"
  shows "\<exists>pid ids. chain_parent exec t s = Some pid \<and>
    chain_head exec cfg pid s = (Inr (ids, chain_head_id a), s) \<and>
    is_first_actionable a = (chain_head_id a = Some (node_id t))"
proof -
  from assms(1) obtain es where es: "get_edges exec (node_id t) ''out'' (Some ''PART_OF'') s = (Inr es, s)"
    by (auto simp: analyze_chain_topology_def elim!: bindS_eqE dest: reads_onlyD [OF reads_only_get_edges])
  obtain edge rest pid where e: "es = edge # rest" "edge_ref edge ''_end_id'' = Some pid"
    using assms by (auto simp: analyze_chain_topology_def bindS_unfold es standalone_def
        split: list.splits option.splits)
  from assms have "\<exists>s1 s2 ids head. get_node exec cfg pid False None s = (s1, s2) \<and>
      chain_head exec cfg pid s2 = (Inr (ids, head), s') \<and> chain_head_id a = head \<and>
      is_first_actionable a = (head = Some (node_id t))"
    by (auto simp: analyze_chain_topology_def bindS_unfold [of "get_edges _ _ _ _"] es e standalone_def
        elim!: bindS_eqE split: option.splits if_splits)
  then obtain s1 s2 ids where h: "get_node exec cfg pid False None s = (s1, s2)"
    "chain_head exec cfg pid s2 = (Inr (ids, chain_head_id a), s')"
    "is_first_actionable a = (chain_head_id a = Some (node_id t))" by blast
  have "s2 = s" using h(1) reads_onlyD [OF reads_only_get_node] by blast
  moreover have "s' = s2" using h(2) reads_onlyD [OF reads_only_head] by blast
  ultimately show ?thesis using h es e by (auto simp: chain_parent_def)
qed

lemma analyze_undecoded:
  assumes "\<not> no_delete_enforcement cfg" and txts: "undecoded_rows exec (graph s)"
  shows "analyze_chain_topology exec cfg t s = (Inr (standalone (node_id t)), s)"
proof -
  have bad: "task_validate (dict_get p) = None" if "fetch exec (graph s) i = Some p" for i p
  proof -
    from txts that obtain v where v: "dict_get p ''scoring'' = Some v" "is_str v"
      by (auto simp: undecoded_rows_def)
    then have "dfl (dict_get p) ''scoring'' default_ScoringBlock ScoringBlock_validate = None"
      by (cases v) (simp_all add: dfl_def)
    then show ?thesis by (auto simp: task_validate_def bind_eq_None_conv)
  qed
  have ty: "EDGE_TYPE_RE_match ''PART_OF''"
    by (simp add: EDGE_TYPE_RE_match_def chomp_def newline_def is_upper_def)
  obtain es where es: "get_edges exec (node_id t) ''out'' (Some ''PART_OF'') s = (Inr es, s)"
    by (simp add: get_edges_def bindS_unfold run_edges ty)
  have get: "get_node exec cfg i False None s = (Inr (visible False (fetch exec (graph s) i)), s)" for i
    using assms(1) by (simp add: get_node_eq require_caller_context_def)
  show ?thesis
    by (auto simp: analyze_chain_topology_def bindS_unfold es get visible_def bad
        split: list.split option.split)
qed

lemma suppression_undecoded:
  assumes "\<not> no_delete_enforcement cfg" "undecoded_rows exec (graph s)"
  shows "\<exists>d. forS (\<lambda>task suppressed.
       bindS (analyze_chain_topology exec cfg task) (\<lambda>topology.
         returnS (dict_set (node_id task)
           (is_sequential topology \<and> \<not> is_first_actionable topology) suppressed))) tasks acc s = (Inr d, s) \<and>
    (\<forall>i. dict_get d i = (if i \<in> node_id ` set tasks then Some False else dict_get acc i))"
proof (induction tasks arbitrary: acc)
  case Nil
  then show ?case by simp
next
  case (Cons t ts)
  have "analyze_chain_topology exec cfg t s = (Inr (standalone (node_id t)), s)"
    using assms by (rule analyze_undecoded)
  with Cons [of "dict_set (node_id t) False acc"] show ?case
    by (auto simp: bindS_unfold standalone_def dict_simps)
qed

end

text \<open>Of the tasks of one sequential chain at most one is let through: two tasks whose
first PART_OF edge leads to the same parent are never both its first actionable one, on rows
that validate as the code reads them.\<close>

theorem one_chain_head:
  assumes "cypher_service exec"
    and "analyze_chain_topology exec cfg t s = (Inr a, s1)" "analyze_chain_topology exec cfg u s = (Inr b, s2)"
    and "is_sequential a" "is_sequential b" "chain_parent exec t s = chain_parent exec u s"
    and "is_first_actionable a" "is_first_actionable b"
  shows "node_id t = node_id u \<and> chain_head_id a = Some (node_id t)"
  using cypher_service.analyze_sequential [OF assms(1,2,4)]
    cypher_service.analyze_sequential [OF assms(1,3,5)] assms(6-8) by auto

text \<open>On rows the store really holds, where \<open>scoring\<close> is a JSON text, the topology code
recognises no sequential chain at all, because it validates the rows undecoded: every task is
standalone and \<open>apply_sequential_suppression\<close> suppresses nothing.\<close>

theorem topology_blind:
  assumes "cypher_service exec" "\<not> no_delete_enforcement cfg"
    and "undecoded_rows exec (graph s)"
  shows "analyze_chain_topology exec cfg t s = (Inr (standalone (node_id t)), s) \<and>
    (\<exists>d. apply_sequential_suppression exec cfg tasks s = (Inr d, s) \<and>
      (\<forall>i \<in> node_id ` set tasks. dict_get d i = Some False))"
  using cypher_service.analyze_undecoded [OF assms]
    cypher_service.suppression_undecoded [OF assms, where tasks = tasks and acc = "[]"]
  unfolding apply_sequential_suppression_def by auto

lemma one_task_scoring_text: "undecoded_rows mem_exec (graph (one_task_session t))"
  unfolding undecoded_rows_def
proof (intro allI impI)
  fix i p assume "fetch mem_exec (graph (one_task_session t)) i = Some p"
  then have "p = row_of (task_dump t)"
    by (auto simp: fetch_def one_task_session_def node_rows_def split: if_splits)
  moreover have "dict_get (row_of (task_dump t)) ''scoring'' = Some (PJson (ScoringBlock_dump (scoring t)))"
    by (simp only: dict_get_row_of task_dump_ok)
      (simp add: row_value_def task_dump_def codec_simps)
  ultimately show "\<exists>v. dict_get p ''scoring'' = Some v \<and> is_str v" by simp
qed

theorem topology_blind_witness:
  "analyze_chain_topology mem_exec admin_cfg (example_task TaskType.ATOMIC)
     (one_task_session (example_task TaskType.ATOMIC)) =
   (Inr (standalone ''TSK-AB-1234-ATM''), one_task_session (example_task TaskType.ATOMIC))"
proof -
  have "\<not> no_delete_enforcement admin_cfg" by (simp add: admin_cfg_def)
  moreover have "node_id (example_task TaskType.ATOMIC) = ''TSK-AB-1234-ATM''" by (simp add: example_defs)
  ultimately show ?thesis
    using topology_blind [OF mem.cypher_service_axioms _ one_task_scoring_text] by metis
qed

text \<open>A sequential chain on a store that keeps nested values, where the code does see it.\<close>

lemma validate_dump:
  assumes "TASK_ID_PATTERN_match (node_id t)" "\<forall>md. type_metadata t = Some md \<longrightarrow> metadata_ok md"
  shows "task_validate (dict_get (task_dump t)) = Some t"
  using assms unfolding task_validate_def
  by (simp add: task_dump_def codec_simps)

definition chain_parent_task :: TaskNode where
  "chain_parent_task = (example_task TaskType.COMPOSITE)\<lparr>node_id := ''TSK-AB-0001-CMP'',
     type_metadata := Some (CompositeMetadata [''TSK-AB-1234-ATM''] GateType.AND
       BreakdownStrategy.SEQUENTIAL True)\<rparr>"

definition chain_session :: "mem_graph session" where
  "chain_session = \<lparr>graph = \<lparr>vertices =
     [(''TaskComposite'', task_dump chain_parent_task),
      (''TaskAtomic'', task_dump (example_task TaskType.ATOMIC))],
     relations = [\<lparr>rel_id = 0, rel_type = ''PART_OF'', rel_src = ''TSK-AB-1234-ATM'',
       rel_tgt = ''TSK-AB-0001-CMP'', rel_props = []\<rparr>], next_rel = 1\<rparr>,
     spawned = [], notified = []\<rparr>"

lemma chain_example:
  "\<exists>a. analyze_chain_topology mem_exec admin_cfg (example_task TaskType.ATOMIC) chain_session =
     (Inr a, chain_session) \<and> is_sequential a \<and> is_first_actionable a"
proof -
  have id: "dict_get (task_dump u) ''id'' = Some (PStr (node_id u))"
    "dict_get (task_dump u) ''archived_at'' = Some (dump_opt PTime (archived_at u))" for u
    by (simp_all add: task_dump_def dict_get_Cons)
  have p: "task_validate (dict_get (task_dump chain_parent_task)) = Some chain_parent_task"
    by (rule validate_dump) (code_simp, simp add: chain_parent_task_def metadata_ok_def)
  have c: "task_validate (dict_get (task_dump (example_task TaskType.ATOMIC))) =
      Some (example_task TaskType.ATOMIC)"
    by (rule validate_dump) (code_simp, simp add: example_defs)
  have ty: "EDGE_TYPE_RE_match ''PART_OF''" "EDGE_TYPE_RE_match ''DEPENDS_ON''"
    by (simp_all add: EDGE_TYPE_RE_match_def chomp_def newline_def is_upper_def)
  have nid: "node_id chain_parent_task = ''TSK-AB-0001-CMP''"
    "node_id (example_task TaskType.ATOMIC) = ''TSK-AB-1234-ATM''"
    "archived_at chain_parent_task = None" "archived_at (example_task TaskType.ATOMIC) = None"
    "sequential_parent chain_parent_task" "state (example_task TaskType.ATOMIC) = TaskState.PENDING"
    by (simp_all add: chain_parent_task_def sequential_parent_def example_defs)
  have rd: "require_caller_context admin_cfg None = Inr ()"
    by (simp add: require_caller_context_def admin_cfg_def)
  have g: "get_node mem_exec admin_cfg ''TSK-AB-0001-CMP'' False None chain_session =
      (Inr (Some (task_dump chain_parent_task)), chain_session)"
    "get_node mem_exec admin_cfg ''TSK-AB-1234-ATM'' False None chain_session =
      (Inr (Some (task_dump (example_task TaskType.ATOMIC))), chain_session)"
    by (simp_all add: mem.get_node_eq rd fetch_def visible_def chain_session_def node_rows_def has_id_def
        id nid get_truthy_def dump_opt_def)
  have e: "get_edges mem_exec ''TSK-AB-1234-ATM'' ''out'' (Some ''PART_OF'') chain_session =
      (Inr [[(''_label'', PStr ''PART_OF''), (''_start_id'', PStr ''TSK-AB-1234-ATM''),
             (''_end_id'', PStr ''TSK-AB-0001-CMP'')]], chain_session)"
    "get_edges mem_exec ''TSK-AB-0001-CMP'' ''in'' (Some ''PART_OF'') chain_session =
      (Inr [[(''_label'', PStr ''PART_OF''), (''_start_id'', PStr ''TSK-AB-1234-ATM''),
             (''_end_id'', PStr ''TSK-AB-0001-CMP'')]], chain_session)"
    "get_edges mem_exec ''TSK-AB-1234-ATM'' ''out'' (Some ''DEPENDS_ON'') chain_session =
      (Inr [], chain_session)"
    by (simp_all add: get_edges_def bindS_unfold mem.run_edges ty chain_session_def rel_ok_def out_row_def
        in_row_def dict_set_def)
  show ?thesis
    by (simp add: analyze_chain_topology_def chain_head_def bindS_unfold nid e g p c edge_ref_def dict_get_Cons
        sibling_ids_of_def map_filter_simps Let_def)
qed

theorem one_chain_head_witness:
  "\<exists>a. analyze_chain_topology mem_exec admin_cfg (example_task TaskType.ATOMIC) chain_session =
     (Inr a, chain_session) \<and> chain_head_id a = Some (node_id (example_task TaskType.ATOMIC))"
proof -
  obtain a where a: "analyze_chain_topology mem_exec admin_cfg (example_task TaskType.ATOMIC) chain_session =
     (Inr a, chain_session)" "is_sequential a" "is_first_actionable a"
    using chain_example by blast
  from one_chain_head [OF mem.cypher_service_axioms a(1,1,2,2) refl a(3,3)] a(1) show ?thesis by blast
qed

end
