(* ===== verification/GC_Factors.thy ===== *)
theory GC_Factors
  imports GC_Values
begin

section \<open>The seven scoring factors (\<open>scoring/factors/\<close>)\<close>

text \<open>
  The pure factor functions. Their numbers are exact rationals; the decimal literals of the
  code are written as fractions. A parameter that may be an enum member or its string is the
  string. \<open>to_float\<close> of a text (\<open>float(s)\<close>) is an argument.
\<close>

definition timeline_urgency :: "rat \<Rightarrow> rat \<Rightarrow> rat" where
  "timeline_urgency days_remaining effort_days =
     (let base = (if days_remaining > 14 then 2 / 10
                  else if days_remaining > 7 then 4 / 10
                  else if days_remaining > 3 then 6 / 10
                  else if days_remaining > 1 then 85 / 100
                  else if days_remaining > 0 then 1
                  else 12 / 10);
          slack = days_remaining - effort_days
      in if slack < 0 then base + 30 / 100
         else if slack < 1 then base + 15 / 100
         else base)"

definition dependency_weight :: "int \<Rightarrow> int \<Rightarrow> rat" where
  "dependency_weight direct_dependents transitive_dependents =
     of_int direct_dependents + of_int transitive_dependents * (5 / 10)"

definition PRIORITY_MULTIPLIER :: "rat pydict" where
  "PRIORITY_MULTIPLIER = [(''P1'', 15 / 10), (''P2'', 13 / 10), (''P3'', 11 / 10)]"

definition critical_path_score :: "bool \<Rightarrow> string \<Rightarrow> rat" where
  "critical_path_score on_cp goal_priority =
     (if \<not> on_cp then 0 else 1 * dict_get_default PRIORITY_MULTIPLIER goal_priority 1)"

definition py_space :: "char \<Rightarrow> bool" where
  "py_space c \<longleftrightarrow> (of_char c :: nat) \<in> {9, 10, 11, 12, 13, 28, 29, 30, 31, 32, 133, 160}"

definition py_strip :: "string \<Rightarrow> string" where
  "py_strip s = rev (dropWhile py_space (rev (dropWhile py_space s)))"

definition ascii_upper :: "char \<Rightarrow> char" where
  "ascii_upper c = (if (of_char c :: nat) \<in> {97..122} then char_of ((of_char c :: nat) - 32) else c)"

definition BLOCKER_SCORES :: "rat pydict" where
  "BLOCKER_SCORES = [(''HARD'', 1), (''SOFT'', 6 / 10), (''NONE'', 0)]"

definition blocker_score :: "string \<Rightarrow> rat" where
  "blocker_score blocker_type =
     (let key = map ascii_upper (py_strip (if blocker_type = '''' then ''NONE'' else blocker_type))
      in dict_get_default BLOCKER_SCORES key 0)"

definition OVERRIDE_VALUES :: "rat option pydict" where
  "OVERRIDE_VALUES =
     [(''PRIORITIZE'', Some 1), (''DEPRIORITIZE'', Some (- 3 / 10)), (''SNOOZE'', None),
      (''PRIORITY'', Some 1), (''TOP'', Some 1), (''WATCH'', Some (5 / 10)),
      (''WAIT'', Some (- 3 / 10)), (''SNOOZED'', None)]"

definition human_override_score :: "string \<Rightarrow> rat option" where
  "human_override_score ot = dict_get_default OVERRIDE_VALUES ot (Some 0)"

definition clamp01 :: "rat \<Rightarrow> rat" where
  "clamp01 value = max 0 (min 1 value)"

definition resource_risk :: "rat \<Rightarrow> rat \<Rightarrow> rat \<Rightarrow> rat" where
  "resource_risk reliability load_factor risk_signals =
     (1 - clamp01 reliability) * (5 / 10) + clamp01 load_factor * (3 / 10)
       + clamp01 risk_signals * (2 / 10)"

text \<open>\<open>float(v)\<close>: \<open>None\<close> where it raises.\<close>

fun py_float :: "(string \<Rightarrow> rat option) \<Rightarrow> pval \<Rightarrow> rat option" where
  "py_float to_float (PInt i) = Some (of_int i)"
| "py_float to_float (PFloat r) = Some r"
| "py_float to_float (PBool b) = Some (if b then 1 else 0)"
| "py_float to_float (PStr s) = to_float s"
| "py_float to_float _ = None"

definition one_pressure :: "(string \<Rightarrow> rat option) \<Rightarrow> props \<Rightarrow> rat" where
  "one_pressure to_float c =
     (let threshold = dict_get_default c ''threshold'' PNone;
          current_value = dict_get_default c ''current_value'' PNone
      in if threshold = PNone \<or> current_value = PNone then 0
         else case (py_float to_float threshold, py_float to_float current_value) of
           (Some t, Some v) \<Rightarrow> if t = 0 then 0 else max 0 (min (v / t) 1)
         | _ \<Rightarrow> 0)"

definition constraint_pressure :: "(string \<Rightarrow> rat option) \<Rightarrow> props list \<Rightarrow> rat" where
  "constraint_pressure to_float constraints = sum_list (map (one_pressure to_float) constraints)"

subsection \<open>Bounds\<close>

lemma timeline_bounds: "2 / 10 \<le> timeline_urgency d e" "timeline_urgency d e \<le> 15 / 10"
  by (simp_all add: timeline_urgency_def Let_def)

lemma critical_path_bounds: "0 \<le> critical_path_score b k" "critical_path_score b k \<le> 15 / 10"
  by (simp_all add: critical_path_score_def dict_get_default_def PRIORITY_MULTIPLIER_def dict_simps)

lemma blocker_bounds: "0 \<le> blocker_score k" "blocker_score k \<le> 1"
  by (simp_all add: blocker_score_def dict_get_default_def BLOCKER_SCORES_def dict_simps Let_def)

lemma override_bounds: "human_override_score k = Some r \<Longrightarrow> - 3 / 10 \<le> r \<and> r \<le> 1"
  by (auto simp: human_override_score_def dict_get_default_def OVERRIDE_VALUES_def dict_simps
      split: if_splits)

lemma clamp01_bounds: "0 \<le> clamp01 x" "clamp01 x \<le> 1"
  by (simp_all add: clamp01_def)

lemma clamp01_mono: "x \<le> y \<Longrightarrow> clamp01 x \<le> clamp01 y"
  by (simp add: clamp01_def)

lemma resource_risk_bounds: "0 \<le> resource_risk r l s" "resource_risk r l s \<le> 1"
proof -
  have "0 \<le> clamp01 r" "clamp01 r \<le> 1" "0 \<le> clamp01 l" "clamp01 l \<le> 1" "0 \<le> clamp01 s" "clamp01 s \<le> 1"
    by (simp_all add: clamp01_bounds)
  then show "0 \<le> resource_risk r l s" "resource_risk r l s \<le> 1"
    by (simp_all add: resource_risk_def field_simps)
qed

lemma one_pressure_bounds: "0 \<le> one_pressure f c" "one_pressure f c \<le> 1"
  by (auto simp: one_pressure_def Let_def split: option.split)

lemma constraint_pressure_bounds:
  "0 \<le> constraint_pressure f cs" "constraint_pressure f cs \<le> of_nat (length cs)"
proof -
  show "0 \<le> constraint_pressure f cs"
    by (auto simp: constraint_pressure_def one_pressure_bounds intro!: sum_list_nonneg)
  show "constraint_pressure f cs \<le> of_nat (length cs)"
  proof (induction cs)
    case (Cons c cs)
    then show ?case using one_pressure_bounds(2) [of f c] by (simp add: constraint_pressure_def)
  qed (simp add: constraint_pressure_def)
qed

text \<open>Every factor stays within its documented range: urgency in 0.2 to 1.5, critical
path in 0 to 1.5, blocker and resource risk in 0 to 1, an override in -0.3 to 1, the constraint
pressure between 0 and the number of constraints, whatever the inputs (out-of-range
reliabilities, zero thresholds, unreadable values and unknown strings included).\<close>

theorem factor_ranges:
  "timeline_urgency d e \<in> {2 / 10..15 / 10} \<and> critical_path_score b k \<in> {0..15 / 10} \<and>
   blocker_score k \<in> {0..1} \<and> resource_risk x y z \<in> {0..1} \<and>
   constraint_pressure f cs \<in> {0..of_nat (length cs)} \<and>
   set_option (human_override_score k) \<subseteq> {- 3 / 10..1}"
  using timeline_bounds critical_path_bounds blocker_bounds resource_risk_bounds
    constraint_pressure_bounds override_bounds
  by (auto simp: elem_set)

text \<open>Urgency never falls as the deadline comes closer or the remaining effort grows,
across all brackets and both slack steps.\<close>

theorem timeline_urgency_mono:
  assumes "d' \<le> d" "e \<le> e'"
  shows "timeline_urgency d e \<le> timeline_urgency d' e'"
  using assms by (auto simp: timeline_urgency_def Let_def)

theorem timeline_urgency_mono_witness: "timeline_urgency 15 2 \<le> timeline_urgency 2 3"
  by (rule timeline_urgency_mono) simp_all

text \<open>Resource risk falls with reliability and rises with load and risk signals.\<close>

theorem resource_risk_mono:
  assumes "r' \<le> r" "l \<le> l'" "s \<le> s'"
  shows "resource_risk r l s \<le> resource_risk r' l' s'"
  using clamp01_mono [OF assms(1)] clamp01_mono [OF assms(2)] clamp01_mono [OF assms(3)]
  by (simp add: resource_risk_def field_simps)

theorem resource_risk_mono_witness: "resource_risk (9 / 10) 0 0 \<le> resource_risk (1 / 2) (1 / 2) 1"
  by (rule resource_risk_mono) simp_all

end
