(* ===== verification/GC_ScoreCache.thy ===== *)
theory GC_ScoreCache
  imports GC_Models
begin

section \<open>Score records and the score cache (\<open>models/scoring.py\<close>, \<open>scoring/cache.py\<close>)\<close>

text \<open>
  The records a scoring pass produces and the in-process cache of explanations. Storing an
  explanation keeps the object itself; the model keeps its value.
\<close>

subsection \<open>Records\<close>

record ScoreFactor =
  factor_name :: string
  raw_score :: rat
  weight :: rat
  weighted_score :: rat
  sf_plain_english :: string

record ScoreModifier =
  modifier_type :: string
  multiplier :: rat
  sm_plain_english :: string

record ScoreExplanation =
  ex_node_id :: string
  scored_at :: py_datetime
  ex_final_score :: rat
  ex_rank :: int
  factors :: "ScoreFactor list"
  modifiers :: "ScoreModifier list"
  summary :: string
  topology_note :: "string option"

record ActionQueueEntry =
  aq_node_id :: string
  aq_final_score :: rat
  aq_rank :: int
  recommended_action :: string
  autonomy_level :: AutonomyLevel
  explanation :: ScoreExplanation
  batched_with :: "string list"

subsection \<open>The cache\<close>

record ScoreCache =
  sc_store :: "ScoreExplanation pydict"
  last_full_rescore :: "py_datetime option"

definition empty_cache :: ScoreCache where
  "empty_cache = \<lparr>sc_store = [], last_full_rescore = None\<rparr>"

definition cache_get :: "ScoreCache \<Rightarrow> string \<Rightarrow> ScoreExplanation option" where
  "cache_get c task_id = dict_get (sc_store c) task_id"

definition cache_has :: "ScoreCache \<Rightarrow> string \<Rightarrow> bool" where
  "cache_has c task_id \<longleftrightarrow> task_id \<in> set (dict_keys (sc_store c))"

definition cache_set :: "string \<Rightarrow> ScoreExplanation \<Rightarrow> ScoreCache \<Rightarrow> ScoreCache" where
  "cache_set task_id e c = c\<lparr>sc_store := dict_set task_id e (sc_store c)\<rparr>"

definition invalidate :: "string \<Rightarrow> ScoreCache \<Rightarrow> ScoreCache" where
  "invalidate task_id c =
     (if cache_has c task_id then c\<lparr>sc_store := dict_pop task_id (sc_store c)\<rparr> else c)"

definition invalidate_upstream :: "string \<Rightarrow> string list \<Rightarrow> ScoreCache \<Rightarrow> ScoreCache" where
  "invalidate_upstream dependent_id upstream_ids c =
     fold invalidate upstream_ids (invalidate dependent_id c)"

definition invalidate_by_resource :: "string \<Rightarrow> string list \<Rightarrow> ScoreCache \<Rightarrow> ScoreCache" where
  "invalidate_by_resource resource_id task_ids c = fold invalidate task_ids c"

definition invalidate_all :: "py_datetime \<Rightarrow> ScoreCache \<Rightarrow> ScoreCache" where
  "invalidate_all now c = c\<lparr>sc_store := [], last_full_rescore := Some now\<rparr>"

definition cache_size :: "ScoreCache \<Rightarrow> nat" where
  "cache_size c = length (sc_store c)"

interpretation score_cache: kv_store cache_get cache_set invalidate
proof
  fix k k' :: string and v and m :: ScoreCache
  show "cache_get (cache_set k v m) k' = (if k' = k then Some v else cache_get m k')"
    by (simp add: cache_get_def cache_set_def dict_simps)
  show "cache_get (invalidate k m) k' = (if k' = k then None else cache_get m k')"
    using dict_get_eq_None [of "sc_store m" k]
    by (auto simp: cache_get_def invalidate_def cache_has_def dict_simps)
qed

lemma cache_has_iff: "cache_has c i \<longleftrightarrow> cache_get c i \<noteq> None"
  by (simp add: cache_has_def cache_get_def dict_get_eq_None)

text \<open>The invalidation calls drop exactly what they are for: after
\<open>invalidate_upstream\<close> the dependent and every upstream task must be rescored, after
\<open>invalidate_by_resource\<close> every task of the resource, after \<open>invalidate_all\<close> all, and every
other cached score is still served unchanged.\<close>

theorem invalidation_exact:
  "cache_get (invalidate_upstream d ups c) i = (if i = d \<or> i \<in> set ups then None else cache_get c i) \<and>
   cache_get (invalidate_by_resource r ts c) i = (if i \<in> set ts then None else cache_get c i) \<and>
   cache_get (invalidate_all now c) i = None \<and> cache_size (invalidate_all now c) = 0"
proof -
  have "cache_get (invalidate_all now c) i = None" "cache_size (invalidate_all now c) = 0"
    by (simp_all add: invalidate_all_def cache_get_def cache_size_def dict_get_Nil)
  then show ?thesis
    by (simp add: invalidate_upstream_def invalidate_by_resource_def score_cache.get_fold_del
        score_cache.get_del)
qed

end
