(* ===== verification/GC_Engine.thy ===== *)
theory GC_Engine
  imports GC_Topology GC_Factors GC_ScoreCache
begin

section \<open>The scoring engine (\<open>scoring/engine.py\<close>, \<open>scoring/action_queue.py\<close>)\<close>

text \<open>
  \<open>ScoringEngine\<close> with its cache, the explanation of one task, the ranked action queue and the
  write-back of the scores. Arithmetic is on exact rationals. The engine and the task objects
  are passed and returned; \<open>now\<close> is the clock reading, \<open>to_float\<close> is \<open>float\<close> on texts. The code
  shares one explanation object between cache and queue, so tasks with one id would share their
  rank; the theorems on the queue are about tasks with different ids.
\<close>

subsection \<open>Number formatting\<close>

definition round_half_even :: "rat \<Rightarrow> int" where
  "round_half_even x = (let f = \<lfloor>x\<rfloor>; d = x - of_int f
     in if d < 1 / 2 then f else if 1 / 2 < d then f + 1 else if even f then f else f + 1)"

text \<open>\<open>format(x, ".nf")\<close>\<close>

definition fixed :: "nat \<Rightarrow> rat \<Rightarrow> string" where
  "fixed n x = (let a = nat (round_half_even (\<bar>x\<bar> * 10 ^ n))
     in (if x < 0 then ''-'' else '''') @ dec_string (a div 10 ^ n) @
        (if n = 0 then '''' else ''.'' @ zfill n (dec_string (a mod 10 ^ n))))"

definition int_string :: "int \<Rightarrow> string" where
  "int_string i = (if i < 0 then ''-'' else '''') @ dec_string (nat \<bar>i\<bar>)"

subsection \<open>Engine and context\<close>

record ScoringContext =
  task_goal_priority :: "string pydict"
  task_direct_dependents :: "int pydict"
  task_transitive_dependents :: "int pydict"
  task_blocker_type :: "string pydict"
  task_resource_reliability :: "rat pydict"
  task_resource_load_factor :: "rat pydict"
  task_resource_risk_signals :: "rat pydict"
  task_constraints :: "props list pydict"
  sx_graph_repo :: "store_cfg option"
  sx_caller_context :: "CallerContext option"

record ScoringWeights =
  W1_timeline :: rat
  W2_dependencies :: rat
  W3_critical_path :: rat
  W4_blocker :: rat
  W5_override :: rat
  W6_resource_risk :: rat
  W7_constraint :: rat

record ScoringEngine =
  w1 :: rat
  w2 :: rat
  w3 :: rat
  w4 :: rat
  w5 :: rat
  w6 :: rat
  w7 :: rat
  cache :: ScoreCache

definition default_engine :: "ScoreCache option \<Rightarrow> ScoringEngine" where
  "default_engine c = \<lparr>w1 = 25 / 100, w2 = 20 / 100, w3 = 20 / 100, w4 = 15 / 100, w5 = 10 / 100,
     w6 = 5 / 100, w7 = 5 / 100, cache = (case c of None \<Rightarrow> empty_cache | Some c \<Rightarrow> c)\<rparr>"

definition learned :: "rat \<Rightarrow> rat \<Rightarrow> rat" where
  "learned value default_value = (if value > 0 then value else default_value)"

definition from_user :: "ScoringWeights option \<Rightarrow> ScoreCache option \<Rightarrow> ScoringEngine" where
  "from_user user_weights c =
     (case user_weights of None \<Rightarrow> default_engine c
      | Some sw \<Rightarrow>
         \<lparr>w1 = learned (W1_timeline sw) (25 / 100), w2 = learned (W2_dependencies sw) (20 / 100),
          w3 = learned (W3_critical_path sw) (20 / 100), w4 = learned (W4_blocker sw) (15 / 100),
          w5 = learned (W5_override sw) (10 / 100), w6 = learned (W6_resource_risk sw) (5 / 100),
          w7 = learned (W7_constraint sw) (5 / 100),
          cache = (case c of None \<Rightarrow> empty_cache | Some c \<Rightarrow> c)\<rparr>)"

subsection \<open>Scoring one task\<close>

definition days_remaining :: "py_datetime \<Rightarrow> TaskNode \<Rightarrow> rat" where
  "days_remaining now task = (case deadline (timeline task) of
     Some d \<Rightarrow> of_int (dt_instant d - dt_instant now) / of_int us_per_day | None \<Rightarrow> 999)"

definition effort_days :: "TaskNode \<Rightarrow> rat" where
  "effort_days task = (case estimated_effort_days (timeline task) of Some e \<Rightarrow> e | None \<Rightarrow> 0)"

definition goal_priority_of :: "ScoringContext \<Rightarrow> string \<Rightarrow> GoalPriority" where
  "goal_priority_of ctx tid =
     (case enum_of_value GoalPriority_members GoalPriority_value
             (dict_get_default (task_goal_priority ctx) tid (GoalPriority_value GoalPriority.P3)) of
        Some p \<Rightarrow> p | None \<Rightarrow> GoalPriority.P3)"

definition override_raw :: "TaskNode \<Rightarrow> rat" where
  "override_raw task =
     (case (is_overridden (override task), override_type (override task)) of
        (True, Some ot) \<Rightarrow> (case human_override_score (OverrideType_value ot) of Some v \<Rightarrow> v | None \<Rightarrow> 0)
      | _ \<Rightarrow> 0)"

definition timeline_plain_english :: "rat \<Rightarrow> rat \<Rightarrow> rat \<Rightarrow> string" where
  "timeline_plain_english days effort raw =
     (if days \<le> 0 then ''Task is overdue by '' @ fixed 1 \<bar>days\<bar> @ '' days''
      else let slack = days - effort
           in if slack < 0
              then ''Deadline in '' @ fixed 1 days @ '' days but '' @ fixed 1 effort @
                   '' days of effort remain -- negative slack''
              else ''Deadline in '' @ fixed 1 days @ '' days, '' @ fixed 1 effort @ '' days effort, '' @
                   fixed 1 slack @ '' days slack (urgency='' @ fixed 3 raw @ '')'')"

fun top_factor :: "ScoreFactor \<Rightarrow> ScoreFactor list \<Rightarrow> ScoreFactor" where
  "top_factor best [] = best"
| "top_factor best (f # fs) =
     (if weighted_score best < weighted_score f then top_factor f fs else top_factor best fs)"

definition build_summary :: "TaskNode \<Rightarrow> rat \<Rightarrow> ScoreFactor list \<Rightarrow> string" where
  "build_summary task final_score fs =
     (let top = top_factor (hd fs) (tl fs)
      in ''Task '' @ [CHR 0x27] @ title task @ [CHR 0x27] @ '' scored '' @ fixed 3 final_score @
         ''. Top factor: '' @ factor_name top @ '' (weighted '' @ fixed 3 (weighted_score top) @
         ''). State: '' @ TaskState_value (state task) @ ''.'')"

definition mk_factor :: "string \<Rightarrow> rat \<Rightarrow> rat \<Rightarrow> string \<Rightarrow> ScoreFactor" where
  "mk_factor name raw w txt = \<lparr>factor_name = name, raw_score = raw, weight = w,
     weighted_score = raw * w, sf_plain_english = txt\<rparr>"

definition factor_list ::
  "(string \<Rightarrow> rat option) \<Rightarrow> ScoringEngine \<Rightarrow> ScoringContext \<Rightarrow> py_datetime \<Rightarrow> TaskNode \<Rightarrow> ScoreFactor list" where
  "factor_list to_float eng ctx now task =
     (let tid = node_id task;
          days = days_remaining now task;
          effort = effort_days task;
          f1_raw = timeline_urgency days effort;
          direct_deps = dict_get_default (task_direct_dependents ctx) tid 0;
          trans_deps = dict_get_default (task_transitive_dependents ctx) tid 0;
          goal_priority = goal_priority_of ctx tid;
          blocker_type = dict_get_default (task_blocker_type ctx) tid ''NONE'';
          reliability = dict_get_default (task_resource_reliability ctx) tid (8 / 10);
          load = dict_get_default (task_resource_load_factor ctx) tid 0;
          signals = dict_get_default (task_resource_risk_signals ctx) tid 0;
          constraints = dict_get_default (task_constraints ctx) tid [];
          f7_raw = constraint_pressure to_float constraints
      in [mk_factor ''timeline_urgency'' f1_raw (w1 eng) (timeline_plain_english days effort f1_raw),
          mk_factor ''dependency_weight'' (dependency_weight direct_deps trans_deps) (w2 eng)
            (int_string direct_deps @ '' direct and '' @ int_string trans_deps @
             '' transitive downstream dependents''),
          mk_factor ''critical_path''
            (critical_path_score (on_critical_path task) (GoalPriority_value goal_priority)) (w3 eng)
            ((if on_critical_path task then ''On'' else ''Off'') @ '' critical path (goal priority: '' @
             GoalPriority_value goal_priority @ '')''),
          mk_factor ''blocker'' (blocker_score blocker_type) (w4 eng)
            (''Blocking edge strength: '' @ blocker_type),
          mk_factor ''human_override'' (override_raw task) (w5 eng)
            (''Human override: '' @
             (case override_type (override task) of Some ot \<Rightarrow> OverrideType_value ot | None \<Rightarrow> ''none'')),
          mk_factor ''resource_risk'' (resource_risk reliability load signals) (w6 eng)
            (''Resource reliability='' @ fixed 2 reliability @ '', load='' @ fixed 2 load @
             '', risk_signals='' @ fixed 2 signals),
          mk_factor ''constraint_pressure'' f7_raw (w7 eng)
            (dec_string (length constraints) @ '' active constraints, pressure='' @ fixed 3 f7_raw)])"

definition final_score_of :: "ScoreFactor list \<Rightarrow> rat" where
  "final_score_of fs = (let s = sum_list (map weighted_score fs) in if s < 0 then 0 else s)"

definition rollup_modifiers :: "TaskNode \<Rightarrow> ScoreModifier list" where
  "rollup_modifiers task =
     (let chain_rollup = chain_urgency_rollup (scoring task)
      in if chain_rollup > 0
         then [\<lparr>modifier_type = ''chain_urgency_rollup'', multiplier = 1,
                sm_plain_english = ''Urgency rollup from downstream chain tasks: '' @
                  ''effective urgency raised to '' @ fixed 3 chain_rollup\<rparr>]
         else [])"

definition updated_scoring ::
  "ScoringEngine \<Rightarrow> py_datetime \<Rightarrow> ScoreFactor list \<Rightarrow> rat \<Rightarrow> string \<Rightarrow> ScoringBlock \<Rightarrow> ScoringBlock" where
  "updated_scoring eng now fs final summ sb = sb\<lparr>
     sb_timeline_urgency := raw_score (fs ! 0), sb_dependency_weight := raw_score (fs ! 1),
     sb_critical_path := raw_score (fs ! 2), sb_blocker := raw_score (fs ! 3),
     sb_human_override := raw_score (fs ! 4), sb_resource_risk := raw_score (fs ! 5),
     sb_constraint_pressure := raw_score (fs ! 6),
     W1_timeline_weight := w1 eng, W2_dependencies_weight := w2 eng, W3_critical_path_weight := w3 eng,
     W4_blocker_weight := w4 eng, W5_override_weight := w5 eng, W6_resource_risk_weight := w6 eng,
     W7_constraint_weight := w7 eng, computed_priority := final, last_scored_at := Some now,
     score_reasoning := Some summ\<rparr>"

definition score_task ::
  "(string \<Rightarrow> rat option) \<Rightarrow> py_datetime \<Rightarrow> ScoringContext \<Rightarrow> TaskNode \<Rightarrow> ScoringEngine
     \<Rightarrow> ScoreExplanation \<times> TaskNode \<times> ScoringEngine" where
  "score_task to_float now ctx task eng =
     (case cache_get (cache eng) (node_id task) of
        Some cached \<Rightarrow> (cached, task, eng)
      | None \<Rightarrow>
         let fs = factor_list to_float eng ctx now task;
             final_score = final_score_of fs;
             summ = build_summary task final_score fs;
             expl = \<lparr>ex_node_id = node_id task, scored_at = now, ex_final_score = final_score,
                     ex_rank = 0, factors = fs, modifiers = rollup_modifiers task,
                     summary = summ, topology_note = None\<rparr>
         in (expl, task\<lparr>scoring := updated_scoring eng now fs final_score summ (scoring task)\<rparr>,
             eng\<lparr>cache := cache_set (node_id task) expl (cache eng)\<rparr>))"

subsection \<open>The action queue\<close>

definition ACTION_MAP :: "TaskType \<Rightarrow> string" where
  "ACTION_MAP tt = (case tt of
     TaskType.DELEGATED \<Rightarrow> ''SEND_FOLLOWUP'' | TaskType.FOLLOWUP \<Rightarrow> ''SEND_FOLLOWUP''
   | TaskType.APPROVAL \<Rightarrow> ''REQUEST_APPROVAL'' | TaskType.REVIEW \<Rightarrow> ''REQUEST_REVIEW''
   | TaskType.CHECKIN \<Rightarrow> ''SEND_CHECKIN'' | TaskType.DECISION \<Rightarrow> ''PRESENT_DECISION''
   | TaskType.RESEARCH \<Rightarrow> ''REVIEW_RESEARCH'' | TaskType.MILESTONE \<Rightarrow> ''NOTIFY_MILESTONE''
   | TaskType.COMPOSITE \<Rightarrow> ''BRIEF_HUMAN'' | TaskType.RECURRING \<Rightarrow> ''SPAWN_INSTANCE''
   | TaskType.ATOMIC \<Rightarrow> ''EXECUTE_TASK'')"

definition recommended_action_for :: "TaskNode \<Rightarrow> string" where
  "recommended_action_for task =
     (if state task = TaskState.BLOCKED then ''RESOLVE_BLOCKER''
      else if state task = TaskState.NEEDS_REVIEW then ''REQUEST_REVIEW''
      else if state task = TaskState.DELAYED then ''ESCALATE''
      else ACTION_MAP (task_type task))"

definition queue_entry :: "TaskNode \<Rightarrow> ScoreExplanation \<Rightarrow> ActionQueueEntry" where
  "queue_entry task e = \<lparr>aq_node_id = node_id task, aq_final_score = ex_final_score e,
     aq_rank = ex_rank e, recommended_action = recommended_action_for task,
     autonomy_level = level (autonomy task), explanation = e, batched_with = []\<rparr>"

definition build_action_queue :: "(TaskNode \<times> ScoreExplanation) list \<Rightarrow> ActionQueueEntry list" where
  "build_action_queue scored_tasks = map (\<lambda>(t, e). queue_entry t e) scored_tasks"

subsection \<open>Scoring all tasks\<close>

definition is_snoozed :: "TaskNode \<Rightarrow> bool" where
  "is_snoozed task \<longleftrightarrow> state task = TaskState.SNOOZED \<or>
     (is_overridden (override task) \<and> override_type (override task) = Some OverrideType.SNOOZE)"

definition scoreable_tasks :: "TaskNode list \<Rightarrow> TaskNode list" where
  "scoreable_tasks tasks = filter (\<lambda>t.
     state t \<notin> {TaskState.COMPLETE, TaskState.CANCELLED, TaskState.BLOCKED} \<and> \<not> is_snoozed t) tasks"

definition apply_rollup :: "rat pydict \<Rightarrow> TaskNode \<Rightarrow> TaskNode" where
  "apply_rollup rollup_scores task =
     (let rollup = dict_get_default rollup_scores (node_id task) 0
      in if rollup > sb_timeline_urgency (scoring task)
         then task\<lparr>scoring := (scoring task)\<lparr>chain_urgency_rollup := rollup\<rparr>\<rparr> else task)"

fun score_loop ::
  "(string \<Rightarrow> rat option) \<Rightarrow> py_datetime \<Rightarrow> ScoringContext \<Rightarrow> bool pydict \<Rightarrow> TaskNode list \<Rightarrow> ScoringEngine
     \<Rightarrow> (TaskNode \<times> ScoreExplanation option) list \<times> ScoringEngine" where
  "score_loop to_float now ctx suppressed [] eng = ([], eng)"
| "score_loop to_float now ctx suppressed (t # ts) eng =
     (if dict_get_default suppressed (node_id t) False
      then (case score_loop to_float now ctx suppressed ts eng of (r, eng') \<Rightarrow> ((t, None) # r, eng'))
      else (case score_task to_float now ctx t eng of (e, t', eng1) \<Rightarrow>
             (case score_loop to_float now ctx suppressed ts eng1 of (r, eng') \<Rightarrow>
                ((t', Some e) # r, eng'))))"

definition scored_pairs :: "(TaskNode \<times> ScoreExplanation option) list \<Rightarrow> ScoreExplanation list" where
  "scored_pairs r = List.map_filter snd r"

text \<open>\<open>enumerate(scored, start=1)\<close> after the sort.\<close>

definition ranked :: "ScoreExplanation list \<Rightarrow> ScoreExplanation list" where
  "ranked es = map (\<lambda>(i, e). e\<lparr>ex_rank := int i\<rparr>)
     (zip [1..<length es + 1] (sort_desc ex_final_score es))"

definition with_priority :: "TaskNode \<times> ScoreExplanation option \<Rightarrow> TaskNode" where
  "with_priority te = (case te of (t, None) \<Rightarrow> t
     | (t, Some e) \<Rightarrow> t\<lparr>scoring := (scoring t)\<lparr>computed_priority := ex_final_score e\<rparr>\<rparr>)"

text \<open>\<open>try: ... except Exception\<close> around the write of one score.\<close>

definition persist_score ::
  "'g database \<Rightarrow> store_cfg \<Rightarrow> CallerContext option \<Rightarrow> TaskNode pydict \<Rightarrow> ScoreExplanation \<Rightarrow> ('g, unit) op" where
  "persist_score exec cfg ctx by_id e =
     (case dict_get by_id (ex_node_id e) of None \<Rightarrow> returnS ()
      | Some task \<Rightarrow>
         (\<lambda>s. (Inr (), snd (update_node exec cfg (node_id task)
            [(''scoring'', ScoringBlock_dump (scoring task)),
             (''last_scored_at'', dump_opt PTime (last_scored_at (scoring task)))] ctx s))))"

definition queue_of :: "TaskNode pydict \<Rightarrow> ScoreExplanation list \<Rightarrow> py_error + ActionQueueEntry list" where
  "queue_of by_id es =
     (case those (map (\<lambda>e. map_option (\<lambda>t. (t, e)) (dict_get by_id (ex_node_id e))) es) of
        None \<Rightarrow> Inl (PyKeyError (ex_node_id (hd (filter (\<lambda>e. dict_get by_id (ex_node_id e) = None) es))))
      | Some ps \<Rightarrow> Inr (build_action_queue ps))"

definition score_all ::
  "'g database \<Rightarrow> (string \<Rightarrow> rat option) \<Rightarrow> py_datetime \<Rightarrow> ScoringContext \<Rightarrow> TaskNode list \<Rightarrow> ScoringEngine
     \<Rightarrow> ('g, (py_error + ActionQueueEntry list) \<times> TaskNode list \<times> ScoringEngine) op" where
  "score_all exec to_float now ctx tasks eng =
     (let scoreable = scoreable_tasks tasks
      in bindS (case sx_graph_repo ctx of None \<Rightarrow> returnS ([], [])
           | Some cfg \<Rightarrow>
              bindS (apply_sequential_suppression exec cfg scoreable) (\<lambda>suppressed.
              bindS (urgency_rollup exec cfg scoreable) (\<lambda>rollups. returnS (suppressed, rollups))))
         (\<lambda>(suppressed, rollup_scores).
      case score_loop to_float now ctx suppressed (map (apply_rollup rollup_scores) scoreable) eng of
        (results, eng1) \<Rightarrow>
          let ranked_explanations = ranked (scored_pairs results);
              final_tasks = map with_priority results;
              eng2 = eng1\<lparr>cache := fold (\<lambda>e. cache_set (ex_node_id e) e) ranked_explanations (cache eng1)\<rparr>;
              by_id = tasks_by_id final_tasks
          in case sx_graph_repo ctx of
               None \<Rightarrow> returnS
                 (if ranked_explanations \<noteq> [] then Inl (UnboundLocalError ''tasks_by_id'')
                  else queue_of by_id ranked_explanations, final_tasks, eng2)
             | Some cfg \<Rightarrow>
                 bindS (forS (\<lambda>e _. persist_score exec cfg (sx_caller_context ctx) by_id e)
                          ranked_explanations ())
                   (\<lambda>_. returnS (queue_of by_id ranked_explanations, final_tasks, eng2))))"

end
