(* ===== verification/GC_EngineLaws.thy ===== *)
theory GC_EngineLaws
  imports GC_Engine
begin

section \<open>What the scoring engine guarantees\<close>

text \<open>
  The score of one task, the use of the cache, and the action queue: its order, its ranks, which
  tasks it holds, when it cannot be built, and what building it writes to the store.
\<close>

subsection \<open>One score\<close>

lemma weighted_mk_factor [simp]: "weighted_score (mk_factor n r w t) = r * w"
  "raw_score (mk_factor n r w t) = r" "factor_name (mk_factor n r w t) = n"
  by (simp_all add: mk_factor_def)

definition engine_ok :: "ScoringEngine \<Rightarrow> bool" where
  "engine_ok e \<longleftrightarrow> 0 \<le> w1 e \<and> 0 \<le> w2 e \<and> 0 \<le> w3 e \<and> 0 \<le> w4 e \<and> 0 \<le> w5 e \<and> 0 \<le> w6 e \<and> 0 \<le> w7 e"

definition score_bound :: "ScoringEngine \<Rightarrow> ScoringContext \<Rightarrow> string \<Rightarrow> rat" where
  "score_bound eng ctx tid = 15 / 10 * w1 eng +
     max 0 (dependency_weight (dict_get_default (task_direct_dependents ctx) tid 0)
       (dict_get_default (task_transitive_dependents ctx) tid 0)) * w2 eng +
     15 / 10 * w3 eng + w4 eng + w5 eng + w6 eng +
     of_nat (length (dict_get_default (task_constraints ctx) tid [])) * w7 eng"

lemma override_raw_le: "override_raw t \<le> 1"
  using override_bounds
  by (auto simp: override_raw_def split: option.splits bool.splits)

lemma factor_sum_le:
  assumes "engine_ok eng"
  shows "sum_list (map weighted_score (factor_list to_float eng ctx now t)) \<le> score_bound eng ctx (node_id t)"
proof -
  note b = timeline_bounds(2) critical_path_bounds(2) blocker_bounds(2) override_raw_le
    resource_risk_bounds(2) constraint_pressure_bounds(2)
  have m: "x \<le> y \<Longrightarrow> 0 \<le> w \<Longrightarrow> x * w \<le> y * w" for x y w :: rat by (rule mult_right_mono)
  have one: "x \<le> 1 \<Longrightarrow> 0 \<le> w \<Longrightarrow> x * w \<le> w" for x w :: rat
    using mult_right_mono [of x 1 w] by simp
  show ?thesis
    using assms unfolding engine_ok_def score_bound_def factor_list_def Let_def
    by (simp only: list.map weighted_mk_factor sum_list.Cons sum_list.Nil add_0_right add.assoc)
      (intro add_mono m one; (rule b)?; simp)
qed

text \<open>A fresh score is the weighted sum of the seven raw factors cut off at 0, each raw
factor times the engine's weight; it is never negative and never above the bound the factor
ranges and weights give (0.975 for the default weights without dependents and constraints);
the task only changes in its scoring block, and the explanation is cached under its id.\<close>

theorem fresh_score:
  assumes "cache_get (cache eng) (node_id t) = None" "engine_ok eng"
    and "score_task to_float now ctx t eng = (e, t', eng')"
  shows "ex_final_score e = max 0 (\<Sum>f\<leftarrow>factors e. raw_score f * weight f) \<and>
    map weight (factors e) = [w1 eng, w2 eng, w3 eng, w4 eng, w5 eng, w6 eng, w7 eng] \<and>
    0 \<le> ex_final_score e \<and> ex_final_score e \<le> score_bound eng ctx (node_id t) \<and>
    ex_node_id e = node_id t \<and> t' = t\<lparr>scoring := scoring t'\<rparr> \<and>
    computed_priority (scoring t') = ex_final_score e \<and> cache_get (cache eng') (node_id t) = Some e"
proof -
  let ?fs = "factor_list to_float eng ctx now t"
  have e: "ex_final_score e = final_score_of ?fs" "factors e = ?fs" "ex_node_id e = node_id t"
    and t': "t' = t\<lparr>scoring := updated_scoring eng now ?fs (final_score_of ?fs)
        (build_summary t (final_score_of ?fs) ?fs) (scoring t)\<rparr>"
    and c: "cache_get (cache eng') (node_id t) = Some e"
    using assms(1,3) by (auto simp: score_task_def Let_def score_cache.get_put)
  have w: "(\<Sum>f\<leftarrow>?fs. raw_score f * weight f) = sum_list (map weighted_score ?fs)"
    "map weight ?fs = [w1 eng, w2 eng, w3 eng, w4 eng, w5 eng, w6 eng, w7 eng]"
    by (simp_all add: factor_list_def Let_def mk_factor_def)
  have f: "final_score_of ?fs = max 0 (sum_list (map weighted_score ?fs))"
    by (simp add: final_score_of_def Let_def)
  have "0 \<le> score_bound eng ctx (node_id t)"
    using assms(2) by (simp add: engine_ok_def score_bound_def)
  then show ?thesis
    using e t' c w f factor_sum_le [OF assms(2), of to_float ctx now t]
    by (simp add: updated_scoring_def)
qed

definition empty_context :: ScoringContext where
  "empty_context = \<lparr>task_goal_priority = [], task_direct_dependents = [],
     task_transitive_dependents = [], task_blocker_type = [], task_resource_reliability = [],
     task_resource_load_factor = [], task_resource_risk_signals = [], task_constraints = [],
     sx_graph_repo = None, sx_caller_context = None\<rparr>"

theorem fresh_score_witness:
  "\<exists>e t' eng'. score_task (\<lambda>_. None) (utc_dt 0) empty_context (example_task TaskType.ATOMIC)
      (default_engine None) = (e, t', eng') \<and> 0 \<le> ex_final_score e \<and>
    ex_final_score e \<le> 15 / 10 * (25 / 100) + 15 / 10 * (20 / 100) + 15 / 100 + 10 / 100 + 5 / 100"
proof -
  obtain e t' eng' where run: "score_task (\<lambda>_. None) (utc_dt 0) empty_context
      (example_task TaskType.ATOMIC) (default_engine None) = (e, t', eng')"
    by (metis prod_cases3)
  have "cache_get (cache (default_engine None)) (node_id (example_task TaskType.ATOMIC)) = None"
    "engine_ok (default_engine None)"
    by (simp_all add: default_engine_def empty_cache_def cache_get_def dict_get_Nil engine_ok_def)
  from fresh_score [OF this run] have "0 \<le> ex_final_score e \<and>
      ex_final_score e \<le> score_bound (default_engine None) empty_context (node_id (example_task TaskType.ATOMIC))"
    by blast
  moreover have "score_bound (default_engine None) empty_context (node_id (example_task TaskType.ATOMIC)) =
      15 / 10 * (25 / 100) + 15 / 10 * (20 / 100) + 15 / 100 + 10 / 100 + 5 / 100"
    by (simp add: score_bound_def empty_context_def default_engine_def dict_get_default_def
        dict_get_Nil dependency_weight_def)
  ultimately show ?thesis using run by (intro exI [of _ e] exI [of _ t'] exI [of _ eng']) metis
qed

lemma factor_list_cache: "factor_list f (eng\<lparr>cache := c\<rparr>) ctx now t = factor_list f eng ctx now t"
  by (cases eng) (simp only: factor_list_def ScoringEngine.simps)

text \<open>A cached score is served whatever changed in the meantime. Once a task has been
scored, every later call for a task with its id, in any context, at any time and however the
task looks by then, returns the same explanation and touches neither the task nor the engine;
after \<open>invalidate\<close> the next call scores it afresh.\<close>

theorem cached_score_served:
  assumes "score_task f1 now1 ctx1 t eng = (e, t', eng')" "node_id u = node_id t"
  shows "score_task f2 now2 ctx2 u eng' = (e, u, eng') \<and>
    fst (score_task f2 now2 ctx2 u (eng'\<lparr>cache := invalidate (node_id t) (cache eng')\<rparr>)) =
      (let fs = factor_list f2 eng' ctx2 now2 u in
       \<lparr>ex_node_id = node_id u, scored_at = now2, ex_final_score = final_score_of fs, ex_rank = 0,
        factors = fs, modifiers = rollup_modifiers u,
        summary = build_summary u (final_score_of fs) fs, topology_note = None\<rparr>)"
proof -
  have hit: "cache_get (cache eng') (node_id u) = Some e"
    using assms by (auto simp: score_task_def Let_def score_cache.get_put split: option.splits)
  define eng2 where "eng2 = eng'\<lparr>cache := invalidate (node_id t) (cache eng')\<rparr>"
  have miss: "cache_get (cache eng2) (node_id u) = None"
    using assms(2) by (simp add: eng2_def score_cache.get_del)
  have fs: "factor_list f2 eng2 ctx2 now2 u = factor_list f2 eng' ctx2 now2 u"
    unfolding eng2_def by (rule factor_list_cache)
  show ?thesis
    unfolding eng2_def [symmetric] score_task_def hit miss option.case fs Let_def by simp
qed

theorem cached_score_served_witness:
  "\<exists>e t' eng'. score_task (\<lambda>_. None) (utc_dt 0) empty_context (example_task TaskType.ATOMIC)
      (default_engine None) = (e, t', eng') \<and>
    fst (score_task (\<lambda>_. None) (utc_dt us_per_day) empty_context
      (example_task TaskType.ATOMIC\<lparr>on_critical_path := True\<rparr>) eng') = e"
proof -
  obtain e t' eng' where run: "score_task (\<lambda>_. None) (utc_dt 0) empty_context
      (example_task TaskType.ATOMIC) (default_engine None) = (e, t', eng')"
    by (metis prod_cases3)
  from cached_score_served [OF this, of "example_task TaskType.ATOMIC\<lparr>on_critical_path := True\<rparr>"] run
  show ?thesis by (auto simp: example_defs)
qed

text \<open>An engine made from a user's learned weights uses each weight that is positive and
the default of that factor otherwise, so every weight of it is positive.\<close>

theorem from_user_weights:
  "0 < w1 (from_user sw c) \<and> 0 < w2 (from_user sw c) \<and> 0 < w3 (from_user sw c) \<and>
   0 < w4 (from_user sw c) \<and> 0 < w5 (from_user sw c) \<and> 0 < w6 (from_user sw c) \<and>
   0 < w7 (from_user sw c) \<and> engine_ok (from_user sw c)"
  by (cases sw) (auto simp: from_user_def learned_def default_engine_def engine_ok_def)

subsection \<open>The score loop and the ranking\<close>

definition cache_ok :: "ScoreCache \<Rightarrow> bool" where
  "cache_ok c \<longleftrightarrow> (\<forall>i e. cache_get c i = Some e \<longrightarrow> ex_node_id e = i)"

lemma score_task_ids:
  assumes "score_task f now ctx t eng = (e, t', eng')" "cache_ok (cache eng)"
  shows "ex_node_id e = node_id t" "node_id t' = node_id t" "cache_ok (cache eng')"
    "state t' = state t" "override t' = override t"
  using assms by (auto simp: score_task_def Let_def cache_ok_def score_cache.get_put
      split: option.splits if_splits)

lemma score_loop_ids:
  assumes "score_loop f now ctx supp ts eng = (r, eng')" "cache_ok (cache eng)"
  shows "map (\<lambda>te. node_id (fst te)) r = map node_id ts \<and> cache_ok (cache eng') \<and>
    map ex_node_id (scored_pairs r) = filter (\<lambda>i. \<not> dict_get_default supp i False) (map node_id ts) \<and>
    (\<forall>te \<in> set r. \<forall>e. snd te = Some e \<longrightarrow> ex_node_id e = node_id (fst te))"
  using assms
proof (induction ts arbitrary: eng r eng')
  case Nil
  then show ?case by (simp add: scored_pairs_def map_filter_simps)
next
  case (Cons t ts)
  show ?case
  proof (cases "dict_get_default supp (node_id t) False")
    case True
    obtain r1 e1 where l: "score_loop f now ctx supp ts eng = (r1, e1)" by fastforce
    from Cons.IH [OF l Cons.prems(2)] Cons.prems(1) True l show ?thesis
      by (auto simp: scored_pairs_def map_filter_simps)
  next
    case False
    obtain e t' eng1 where s: "score_task f now ctx t eng = (e, t', eng1)" by (metis prod_cases3)
    obtain r1 e1 where l: "score_loop f now ctx supp ts eng1 = (r1, e1)" by fastforce
    note ids = score_task_ids [OF s Cons.prems(2)]
    from Cons.IH [OF l ids(3)] Cons.prems(1) False s l ids(1,2) show ?thesis
      by (auto simp: scored_pairs_def map_filter_simps)
  qed
qed

lemma node_id_rollup [simp]: "node_id (apply_rollup d t) = node_id t"
  by (simp add: apply_rollup_def Let_def)

lemma node_id_with_priority [simp]: "node_id (with_priority te) = node_id (fst te)"
  by (cases te) (simp add: with_priority_def split: option.split)

lemma length_ranked [simp]: "length (ranked es) = length es"
  by (cases es) (simp_all add: ranked_def del: upt_Suc)

lemma nth_ranked:
  assumes "i < length es"
  shows "ranked es ! i = (sort_desc ex_final_score es ! i)\<lparr>ex_rank := int i + 1\<rparr>"
proof -
  have "length [1..<length es + 1] = length es" "[1..<length es + 1] ! i = i + 1"
    using assms by (simp_all del: upt_Suc)
  then show ?thesis using assms by (simp add: ranked_def del: upt_Suc)
qed

lemma map_ranked: "(\<And>e k. f (e\<lparr>ex_rank := k\<rparr>) = f e) \<Longrightarrow> map f (ranked es) = map f (sort_desc ex_final_score es)"
  by (rule nth_equalityI) (simp_all add: nth_ranked)

lemma mset_ids_ranked: "mset (map ex_node_id (ranked es)) = mset (map ex_node_id es)"
proof -
  have "map ex_node_id (ranked es) = map ex_node_id (sort_desc ex_final_score es)"
    by (rule map_ranked) simp
  then show ?thesis by (metis mset_map mset_sort_desc)
qed

lemma foldl_dict_get:
  "dict_get (foldl (\<lambda>d t. dict_set (node_id t) t d) d0 ts) i \<noteq> None \<longleftrightarrow>
     i \<in> node_id ` set ts \<or> dict_get d0 i \<noteq> None"
  by (induction ts arbitrary: d0) (auto simp: dict_simps)

lemma tasks_by_id_id: "dict_get (tasks_by_id ts) i = Some t \<Longrightarrow> node_id t = i"
proof -
  have "\<forall>i t. dict_get d0 i = Some t \<longrightarrow> node_id t = i \<Longrightarrow>
      dict_get (foldl (\<lambda>d t. dict_set (node_id t) t d) d0 ts) i = Some t \<Longrightarrow> node_id t = i" for d0
  proof (induction ts arbitrary: d0)
    case (Cons a ts)
    have "\<forall>i t. dict_get (dict_set (node_id a) a d0) i = Some t \<longrightarrow> node_id t = i"
      using Cons.prems(1) by (simp add: dict_simps)
    from Cons.IH [OF this] Cons.prems(2) show ?case by simp
  qed simp
  from this [of "[]"] show "dict_get (tasks_by_id ts) i = Some t \<Longrightarrow> node_id t = i"
    by (simp add: tasks_by_id_def dict_simps)
qed

lemma tasks_by_id_known: "i \<in> node_id ` set ts \<Longrightarrow> \<exists>t. dict_get (tasks_by_id ts) i = Some t \<and> node_id t = i"
  using foldl_dict_get [of "[]" ts i] tasks_by_id_id [of ts i]
  by (auto simp: tasks_by_id_def)

lemma those_map_ex:
  "(\<And>x. x \<in> set xs \<Longrightarrow> f x \<noteq> None) \<Longrightarrow> those (map f xs) = Some (map (\<lambda>x. the (f x)) xs)"
  by (induction xs) (auto split: option.splits)

lemma queue_of_ok:
  assumes "ex_node_id ` set es \<subseteq> node_id ` set ts"
  shows "\<exists>q. queue_of (tasks_by_id ts) es = Inr q \<and> map aq_node_id q = map ex_node_id es \<and>
    map aq_rank q = map ex_rank es \<and> map aq_final_score q = map ex_final_score es \<and> map explanation q = es"
proof -
  have k: "\<exists>t. dict_get (tasks_by_id ts) (ex_node_id e) = Some t \<and> node_id t = ex_node_id e"
    if "e \<in> set es" for e
    using that assms tasks_by_id_known by blast
  let ?f = "\<lambda>e. map_option (\<lambda>t. (t, e)) (dict_get (tasks_by_id ts) (ex_node_id e))"
  have "those (map ?f es) = Some (map (\<lambda>e. the (?f e)) es)"
    by (rule those_map_ex) (use k in fastforce)
  then have "queue_of (tasks_by_id ts) es = Inr (build_action_queue (map (\<lambda>e. the (?f e)) es))"
    by (simp add: queue_of_def)
  moreover have "\<And>e. e \<in> set es \<Longrightarrow> \<exists>t. ?f e = Some (t, e) \<and> node_id t = ex_node_id e"
    using k by fastforce
  then have "\<And>e. e \<in> set es \<Longrightarrow> \<exists>t. the (?f e) = (t, e) \<and> node_id t = ex_node_id e"
    by (metis option.sel)
  then have "\<And>e. e \<in> set es \<Longrightarrow> aq_node_id (case the (?f e) of (t, e) \<Rightarrow> queue_entry t e) = ex_node_id e"
    "\<And>e. e \<in> set es \<Longrightarrow> explanation (case the (?f e) of (t, e) \<Rightarrow> queue_entry t e) = e"
    "\<And>e. e \<in> set es \<Longrightarrow> aq_rank (case the (?f e) of (t, e) \<Rightarrow> queue_entry t e) = ex_rank e"
    "\<And>e. e \<in> set es \<Longrightarrow> aq_final_score (case the (?f e) of (t, e) \<Rightarrow> queue_entry t e) = ex_final_score e"
    by (fastforce simp: queue_entry_def)+
  ultimately show ?thesis
    by (intro exI [of _ "build_action_queue (map (\<lambda>e. the (?f e)) es)"])
      (simp add: build_action_queue_def map_idI)
qed

subsection \<open>The queue\<close>

lemma scored_ranks:
  "map ex_rank (ranked es) = map int [1..<length es + 1]"
  "i \<le> j \<Longrightarrow> j < length es \<Longrightarrow> ex_final_score (ranked es ! j) \<le> ex_final_score (ranked es ! i)"
proof -
  show "map ex_rank (ranked es) = map int [1..<length es + 1]"
    by (rule nth_equalityI) (simp_all add: nth_ranked del: upt_Suc)
  show "i \<le> j \<Longrightarrow> j < length es \<Longrightarrow> ex_final_score (ranked es ! j) \<le> ex_final_score (ranked es ! i)"
    using sort_desc_nth [of i j es ex_final_score] by (simp add: nth_ranked)
qed

text \<open>The queue of one pass over tasks with consistent cache entries.\<close>

definition queue_sound :: "string list \<Rightarrow> ActionQueueEntry list \<Rightarrow> bool" where
  "queue_sound ids q \<longleftrightarrow> mset (map aq_node_id q) = mset ids \<and>
     map aq_rank q = map int [1..<length q + 1] \<and>
     (\<forall>i j. i \<le> j \<and> j < length q \<longrightarrow> aq_final_score (q ! j) \<le> aq_final_score (q ! i)) \<and>
     (\<forall>x \<in> set q. ex_node_id (explanation x) = aq_node_id x \<and> ex_rank (explanation x) = aq_rank x \<and>
        ex_final_score (explanation x) = aq_final_score x)"

lemma queue_of_sound:
  assumes loop: "score_loop f now ctx supp ts eng = (r, eng1)" and ok: "cache_ok (cache eng)"
  shows "\<exists>q. queue_of (tasks_by_id (map with_priority r)) (ranked (scored_pairs r)) = Inr q \<and>
    queue_sound (filter (\<lambda>i. \<not> dict_get_default supp i False) (map node_id ts)) q"
proof -
  let ?es = "scored_pairs r"
  note l = score_loop_ids [OF loop ok]
  have m: "mset (map ex_node_id (ranked ?es)) =
      mset (filter (\<lambda>i. \<not> dict_get_default supp i False) (map node_id ts))"
    using l by (simp only: mset_ids_ranked)
  have "node_id ` set (map with_priority r) = set (map (\<lambda>te. node_id (fst te)) r)"
    by (auto simp: image_image)
  also have "\<dots> = set (map node_id ts)" using l by simp
  finally have "ex_node_id ` set (ranked ?es) \<subseteq> node_id ` set (map with_priority r)"
    using arg_cong [OF m, of set_mset] by auto
  from queue_of_ok [OF this] obtain q where
    q: "queue_of (tasks_by_id (map with_priority r)) (ranked ?es) = Inr q"
      "map aq_node_id q = map ex_node_id (ranked ?es)" "map aq_rank q = map ex_rank (ranked ?es)"
      "map aq_final_score q = map ex_final_score (ranked ?es)" "map explanation q = ranked ?es" by blast
  have len: "length q = length ?es" using arg_cong [OF q(5), of length] by simp
  have at: "aq_node_id (q ! i) = ex_node_id (ranked ?es ! i)" "aq_rank (q ! i) = ex_rank (ranked ?es ! i)"
    "aq_final_score (q ! i) = ex_final_score (ranked ?es ! i)" "explanation (q ! i) = ranked ?es ! i"
    if "i < length q" for i
    using that len nth_map [of i q] nth_map [of i "ranked ?es"] q(2-5) by (metis length_ranked)+
  have "queue_sound (filter (\<lambda>i. \<not> dict_get_default supp i False) (map node_id ts)) q"
    unfolding queue_sound_def
  proof (intro conjI allI impI ballI)
    show "mset (map aq_node_id q) = mset (filter (\<lambda>i. \<not> dict_get_default supp i False) (map node_id ts))"
      using m q(2) by simp
    show "map aq_rank q = map int [1..<length q + 1]" using q(3) scored_ranks(1) len by simp
    fix i j assume "i \<le> j \<and> j < length q"
    then show "aq_final_score (q ! j) \<le> aq_final_score (q ! i)"
      using scored_ranks(2) [of i j ?es] at len by simp
  next
    fix x assume "x \<in> set q"
    then obtain i where "i < length q" "x = q ! i" by (auto simp: in_set_conv_nth)
    then show "ex_node_id (explanation x) = aq_node_id x" "ex_rank (explanation x) = aq_rank x"
      "ex_final_score (explanation x) = aq_final_score x" using at by simp_all
  qed
  with q(1) show ?thesis by blast
qed

lemma map_node_id_rollup: "map node_id (map (apply_rollup d) ts) = map node_id ts"
  by simp

text \<open>What a pass with a store gives, for every client of the engine.\<close>

lemma score_all_result:
  assumes "score_all exec to_float now ctx tasks eng s = (Inr (res, final, eng'), s')"
    and "sx_graph_repo ctx = Some cfg" "cache_ok (cache eng)"
  shows "\<exists>supp q. fst (apply_sequential_suppression exec cfg (scoreable_tasks tasks) s) = Inr supp \<and>
    res = Inr q \<and>
    queue_sound (filter (\<lambda>i. \<not> dict_get_default supp i False) (map node_id (scoreable_tasks tasks))) q"
proof -
  from assms(1,2) obtain supp s1 rollups s2 where
    a: "apply_sequential_suppression exec cfg (scoreable_tasks tasks) s = (Inr supp, s1)"
    and u: "urgency_rollup exec cfg (scoreable_tasks tasks) s1 = (Inr rollups, s2)"
    by (auto simp: score_all_def Let_def elim!: bindS_eqE split: prod.splits)
  obtain r eng1 where l: "score_loop to_float now ctx supp (map (apply_rollup rollups) (scoreable_tasks tasks)) eng = (r, eng1)"
    by fastforce
  have "res = queue_of (tasks_by_id (map with_priority r)) (ranked (scored_pairs r))"
    using assms(1,2) by (auto simp: score_all_def Let_def bindS_unfold a u l split: prod.splits sum.splits)
  with queue_of_sound [OF l assms(3)] a show ?thesis by (simp only: map_node_id_rollup) auto
qed


text \<open>Without a graph store the pass fails on every batch that has something to rank: the
log loop reads \<open>tasks_by_id\<close>, which is assigned before it only in the branch with a store, so
\<open>UnboundLocalError\<close> is raised; only a batch without a scoreable task gives the empty queue.\<close>

theorem score_all_without_store:
  assumes "sx_graph_repo ctx = None" "cache_ok (cache eng)"
  shows "\<exists>final eng'. score_all exec to_float now ctx tasks eng s =
    (Inr (if scoreable_tasks tasks = [] then Inr [] else Inl (UnboundLocalError ''tasks_by_id''),
      final, eng'), s)"
proof -
  let ?ts = "map (apply_rollup []) (scoreable_tasks tasks)"
  obtain r eng1 where l: "score_loop to_float now ctx [] ?ts eng = (r, eng1)" by fastforce
  have "map ex_node_id (scored_pairs r) = map node_id ?ts"
    using score_loop_ids [OF l assms(2)] by (simp add: dict_get_default_def dict_get_Nil)
  then have "scored_pairs r = [] \<longleftrightarrow> scoreable_tasks tasks = []" by (metis Nil_is_map_conv)
  then have emp: "ranked (scored_pairs r) = [] \<longleftrightarrow> scoreable_tasks tasks = []"
    by (metis length_0_conv length_ranked)
  have nopairs: "ranked (scored_pairs []) = []"
    by (simp add: ranked_def scored_pairs_def map_filter_simps)
  have nil: "queue_of d [] = Inr []" for d
    by (simp add: queue_of_def build_action_queue_def)
  show ?thesis
    by (cases "scoreable_tasks tasks = []")
      (simp_all add: score_all_def assms(1) l Let_def emp nil nopairs del: map_map)
qed

theorem score_all_without_store_witness:
  "\<exists>final eng'. score_all mem_exec (\<lambda>_. None) (utc_dt 0) empty_context
      [example_task TaskType.ATOMIC] (default_engine None) (one_task_session (example_task TaskType.ATOMIC)) =
    (Inr (Inl (UnboundLocalError ''tasks_by_id''), final, eng'), one_task_session (example_task TaskType.ATOMIC))"
proof -
  have "sx_graph_repo empty_context = None" "cache_ok (cache (default_engine None))"
    by (simp_all add: empty_context_def cache_ok_def default_engine_def empty_cache_def cache_get_def dict_get_Nil)
  moreover have "scoreable_tasks [example_task TaskType.ATOMIC] \<noteq> []"
    by (simp add: scoreable_tasks_def is_snoozed_def example_defs)
  ultimately show ?thesis
    using score_all_without_store [of empty_context "default_engine None" mem_exec "\<lambda>_. None" "utc_dt 0"
      "[example_task TaskType.ATOMIC]" "one_task_session (example_task TaskType.ATOMIC)"] by simp
qed

lemma persist_scores_return:
  "fst (forS (\<lambda>e _. persist_score exec cfg ctx by_id e) es u s) = Inr ()"
  by (induction es arbitrary: u s) (auto simp: persist_score_def bindS_unfold split: option.split)


subsection \<open>What a pass writes\<close>

text \<open>Two graphs that differ at most in the two properties a pass writes.\<close>

definition same_but_scores :: "'g database \<Rightarrow> 'g \<Rightarrow> 'g \<Rightarrow> bool" where
  "same_but_scores exec g g' \<longleftrightarrow> (\<forall>i k. k \<notin> {''scoring'', ''last_scored_at''} \<longrightarrow>
     map_option (\<lambda>p. dict_get p k) (fetch exec g' i) = map_option (\<lambda>p. dict_get p k) (fetch exec g i))"

context cypher_service
begin

lemma reads_only_analyze [intro, simp]: "reads_only (analyze_chain_topology exec cfg t)"
  unfolding analyze_chain_topology_def
  by (intro reads_only_bind)
    (auto simp del: io_simps split: list.split option.split prod.split intro!: reads_only_bind)

lemma reads_only_suppression [intro, simp]: "reads_only (apply_sequential_suppression exec cfg ts)"
  unfolding apply_sequential_suppression_def
  by (intro reads_only_forS reads_only_bind) (auto simp del: io_simps)

lemma reads_only_rollup [intro, simp]: "reads_only (urgency_rollup exec cfg ts)"
  unfolding urgency_rollup_def
  by (intro reads_only_forS reads_only_bind)
    (auto simp del: io_simps split: list.split option.split intro!: reads_only_bind)

lemma persist_score_frame:
  assumes "persist_score exec cfg ctx by_id e s = (r, s')"
  shows "same_but_scores exec (graph s) (graph s')"
proof (cases "dict_get by_id (ex_node_id e)")
  case None
  with assms show ?thesis by (simp add: persist_score_def same_but_scores_def)
next
  case (Some t)
  let ?upd = "[(''scoring'', ScoringBlock_dump (scoring t)),
     (''last_scored_at'', dump_opt PTime (last_scored_at (scoring t)))]"
  have "s' = snd (update_node exec cfg (node_id t) ?upd ctx s)"
    using assms Some by (simp add: persist_score_def)
  then obtain r1 where "update_node exec cfg (node_id t) ?upd ctx s = (r1, s')"
    by (metis prod.collapse)
  then show ?thesis
  proof (cases rule: update_node_cases)
    case written
    have ok: "keeps_id (node_id t) (set_lits ?upd)" "dict_ok ?upd"
      by (simp_all add: keeps_id_def set_lits_def dict_ok_def)
    show ?thesis
      by (auto simp: same_but_scores_def written(2) fetch_set [OF ok(1)] option.map_comp comp_def
          dict_get_set_props_dump [OF ok(2)] dict_get_Cons dict_get_Nil split: option.splits)
  qed (simp add: same_but_scores_def)
qed

lemma score_all_frame:
  assumes "score_all exec f now sctx tasks eng s = (r, s')"
  shows "same_but_scores exec (graph s) (graph s')"
proof (cases "sx_graph_repo sctx")
  case None
  with assms show ?thesis
    by (auto simp: score_all_def Let_def same_but_scores_def split: prod.splits)
next
  case (Some cfg)
  have tr: "same_but_scores exec a b \<Longrightarrow> same_but_scores exec b c \<Longrightarrow> same_but_scores exec a c" for a b c
    by (simp add: same_but_scores_def)
  have rf: "same_but_scores exec a a" for a by (simp add: same_but_scores_def)
  have loop: "same_but_scores exec (graph s1) (graph s2)"
    if "forS (\<lambda>e _. persist_score exec cfg (sx_caller_context sctx) by_id e) es u s1 = (x, s2)"
    for by_id es u s1 x s2
    by (rule forS_rel [OF _ _ _ that, where R = "\<lambda>a b. same_but_scores exec (graph a) (graph b)"])
      (auto intro: rf tr persist_score_frame)
  from assms Some show ?thesis
    by (auto simp: score_all_def Let_def elim!: bindS_eqE split: prod.splits
        dest!: reads_onlyD [OF reads_only_suppression] reads_onlyD [OF reads_only_rollup] loop
        intro: rf)
qed

end

text \<open>A scoring pass writes nothing but scores. On any database that keeps the laws of
Cypher, and whether the pass returns or raises, no property of any node other than \<open>scoring\<close> and
\<open>last_scored_at\<close> differs afterwards.\<close>

theorem score_all_writes_scores_only:
  assumes "cypher_service exec"
    and "score_all exec to_float now ctx tasks eng s = (r, s')" "k \<notin> {''scoring'', ''last_scored_at''}"
  shows "map_option (\<lambda>p. dict_get p k) (fetch exec (graph s') i) =
         map_option (\<lambda>p. dict_get p k) (fetch exec (graph s) i)"
  using cypher_service.score_all_frame [OF assms(1,2)] assms(3) by (simp add: same_but_scores_def)

theorem score_all_writes_scores_only_witness:
  "\<exists>r s'. score_all mem_exec (\<lambda>_. None) (utc_dt 0) (empty_context\<lparr>sx_graph_repo := Some agent_cfg\<rparr>)
      [example_task TaskType.ATOMIC] (default_engine None) (one_task_session (example_task TaskType.ATOMIC)) = (r, s') \<and>
    map_option (\<lambda>p. dict_get p ''state'') (fetch mem_exec (graph s') ''TSK-AB-1234-ATM'') =
    map_option (\<lambda>p. dict_get p ''state'')
      (fetch mem_exec (graph (one_task_session (example_task TaskType.ATOMIC))) ''TSK-AB-1234-ATM'')"
proof -
  obtain r s' where run: "score_all mem_exec (\<lambda>_. None) (utc_dt 0) (empty_context\<lparr>sx_graph_repo := Some agent_cfg\<rparr>)
      [example_task TaskType.ATOMIC] (default_engine None) (one_task_session (example_task TaskType.ATOMIC)) = (r, s')"
    by fastforce
  from score_all_writes_scores_only [OF mem.cypher_service_axioms run, of "''state''"] run
  show ?thesis by (intro exI [of _ r] exI [of _ s']) simp
qed

end
