(* ===== verification/GC_Scheduler.thy ===== *)
theory GC_Scheduler
  imports GC_Values
begin

section \<open>Triggers and their schedule (\<open>triggers/models.py\<close>, \<open>triggers/scheduler.py\<close>)\<close>

text \<open>
  The registry of trigger configurations, which of them are due, and the next firing time of
  a daily cron expression. A character stands for one of the first 256 code points, so
  \<open>isspace\<close> and \<open>int\<close> are those of Latin-1 text.
\<close>

subsection \<open>Data\<close>

datatype TriggerType = TIME_BASED | EVENT_BASED | INBOUND | ON_DEMAND

fun TriggerType_value :: "TriggerType \<Rightarrow> string" where
  "TriggerType_value TIME_BASED = ''TIME_BASED''"
| "TriggerType_value EVENT_BASED = ''EVENT_BASED''"
| "TriggerType_value INBOUND = ''INBOUND''"
| "TriggerType_value ON_DEMAND = ''ON_DEMAND''"

definition TriggerType_members :: "TriggerType list" where
  "TriggerType_members = [TIME_BASED, EVENT_BASED, INBOUND, ON_DEMAND]"

interpretation trigger_type_enum: str_enum TriggerType_members TriggerType_value
proof
  show "e \<in> set TriggerType_members" for e
    by (cases e) (simp_all add: TriggerType_members_def)
qed (simp add: TriggerType_members_def)

record TriggerEvent =
  ev_trigger_id :: string
  ev_trigger_type :: TriggerType
  ev_user_id :: string
  ev_payload :: props
  ev_created_at :: py_datetime
  ev_idempotency_key :: string
  ev_session_id :: string

record TriggerConfig =
  tc_trigger_id :: string
  tc_trigger_type :: TriggerType
  tc_user_id :: string
  tc_enabled :: bool
  tc_cron_expression :: "string option"
  tc_next_fire_at :: "py_datetime option"
  tc_last_fired_at :: "py_datetime option"
  tc_payload_template :: props

record FollowupConfig =
  fc_task_id :: string
  fc_base_cadence_days :: rat
  fc_complexity_factor :: rat
  fc_reliability_score :: rat
  fc_recency_bonus :: rat
  fc_next_followup_at :: "py_datetime option"

record FollowUpTiming =
  ft_task_id :: string
  ft_base_interval_hours :: rat
  ft_urgency_multiplier :: rat
  ft_confidence_adjustment :: rat
  ft_next_followup_at :: "py_datetime option"

definition effective_interval_hours :: "FollowUpTiming \<Rightarrow> rat" where
  "effective_interval_hours t =
     ft_base_interval_hours t * ft_urgency_multiplier t * ft_confidence_adjustment t"

subsection \<open>Reading a cron expression\<close>

definition is_space :: "char \<Rightarrow> bool" where
  "is_space c \<longleftrightarrow> (let n = (of_char c :: nat) in
     9 \<le> n \<and> n \<le> 13 \<or> 28 \<le> n \<and> n \<le> 32 \<or> n = 133 \<or> n = 160)"

definition py_strip :: "string \<Rightarrow> string" where
  "py_strip s = rev (dropWhile is_space (rev (dropWhile is_space s)))"

text \<open>\<open>str.split()\<close>: the maximal runs without white space.\<close>

function py_split :: "string \<Rightarrow> string list" where
  "py_split s = (case dropWhile is_space s of [] \<Rightarrow> []
     | c # cs \<Rightarrow> (c # takeWhile (\<lambda>x. \<not> is_space x) cs) # py_split (dropWhile (\<lambda>x. \<not> is_space x) cs))"
  by pat_completeness auto

termination
proof (relation "measure length")
  fix s c cs
  assume "dropWhile is_space s = c # cs"
  then have "length (c # cs) \<le> length s" by (metis length_dropWhile_le)
  moreover have "length (dropWhile (\<lambda>x. \<not> is_space x) cs) \<le> length cs" by (rule length_dropWhile_le)
  ultimately show "(dropWhile (\<lambda>x. \<not> is_space x) cs, s) \<in> measure length" by simp
qed simp

declare py_split.simps [simp del]

text \<open>\<open>int(s)\<close> on a field: an optional sign, then digits that single underscores may separate.\<close>

definition digit_val :: "char \<Rightarrow> int" where
  "digit_val c = of_char c - 48"

definition is_decimal :: "char \<Rightarrow> bool" where
  "is_decimal c \<longleftrightarrow> (let n = (of_char c :: nat) in 48 \<le> n \<and> n \<le> 57)"

fun int_digits :: "int \<Rightarrow> string \<Rightarrow> int option" where
  "int_digits n [] = Some n"
| "int_digits n (c # cs) =
     (if is_decimal c then int_digits (n * 10 + digit_val c) cs
      else if c = CHR ''_''
      then (case cs of [] \<Rightarrow> None
            | d # ds \<Rightarrow> if is_decimal d then int_digits (n * 10 + digit_val d) ds else None)
      else None)"

definition int_unsigned :: "string \<Rightarrow> int option" where
  "int_unsigned s = (case s of [] \<Rightarrow> None
     | c # cs \<Rightarrow> if is_decimal c then int_digits (digit_val c) cs else None)"

definition py_int :: "string \<Rightarrow> int option" where
  "py_int s = (case s of [] \<Rightarrow> None
     | c # cs \<Rightarrow> if c = CHR ''-'' then map_option uminus (int_unsigned cs)
         else if c = CHR ''+'' then int_unsigned cs else int_unsigned s)"

subsection \<open>Clock arithmetic\<close>

datatype cron_error = CronValueError string | CronOverflowError

definition ensure_utc :: "py_datetime \<Rightarrow> py_datetime" where
  "ensure_utc d = (if dt_off d = None then d\<lparr>dt_off := Some 0\<rparr> else d)"

text \<open>
  \<open>d.replace(hour=H, minute=M, second=0, microsecond=0)\<close>. An argument that does not fit a C
  \<open>int\<close> raises \<open>OverflowError\<close>, an hour or minute off the clock \<open>ValueError\<close>.
\<close>

definition fits_c_int :: "int \<Rightarrow> bool" where
  "fits_c_int n \<longleftrightarrow> - (2 ^ 31) \<le> n \<and> n < 2 ^ 31"

definition replace_clock :: "py_datetime \<Rightarrow> int \<Rightarrow> int \<Rightarrow> cron_error + py_datetime" where
  "replace_clock d H M =
     (if \<not> (fits_c_int H \<and> fits_c_int M) then Inl CronOverflowError
      else if \<not> (0 \<le> H \<and> H < 24) then Inl (CronValueError ''hour must be in 0..23'')
      else if \<not> (0 \<le> M \<and> M < 60) then Inl (CronValueError ''minute must be in 0..59'')
      else Inr (d\<lparr>dt_wall := dt_wall d - dt_wall d mod us_per_day + H * us_per_hour + M * us_per_minute\<rparr>))"

definition compute_next_cron :: "string \<Rightarrow> py_datetime \<Rightarrow> cron_error + py_datetime" where
  "compute_next_cron cron_expr after =
     (case py_split (py_strip cron_expr) of
        [minute_str, hour_str, day, month, dow] \<Rightarrow>
          if day \<noteq> ''*'' \<or> month \<noteq> ''*'' \<or> dow \<noteq> ''*''
          then Inl (CronValueError ''day-of-month, month, and day-of-week must be '*'.'')
          else (case (py_int minute_str, py_int hour_str) of
             (Some target_minute, Some target_hour) \<Rightarrow>
               bindE (replace_clock (ensure_utc after) target_hour target_minute) (\<lambda>base.
                 Inr (if dt_instant base \<le> dt_instant (ensure_utc after)
                      then base\<lparr>dt_wall := dt_wall base + us_per_day\<rparr> else base))
           | _ \<Rightarrow> Inl (CronValueError ''minute and hour must be integers.''))
      | _ \<Rightarrow> Inl (CronValueError ''expected 5 fields.''))"

subsection \<open>The registry\<close>

type_synonym scheduler = "TriggerConfig pydict"

definition register :: "TriggerConfig \<Rightarrow> scheduler \<Rightarrow> scheduler" where
  "register c ts = dict_set (tc_trigger_id c) c ts"

definition unregister :: "string \<Rightarrow> scheduler \<Rightarrow> scheduler" where
  "unregister i ts = dict_pop i ts"

definition is_due :: "py_datetime \<Rightarrow> TriggerConfig \<Rightarrow> bool" where
  "is_due now c \<longleftrightarrow> (if \<not> tc_enabled c then False
     else case tc_next_fire_at c of None \<Rightarrow> False
       | Some f \<Rightarrow> dt_instant (ensure_utc f) \<le> dt_instant (ensure_utc now))"

definition get_due_triggers :: "py_datetime \<Rightarrow> scheduler \<Rightarrow> TriggerConfig list" where
  "get_due_triggers now ts = filter (is_due now) (map snd ts)"

definition next_fire :: "TriggerConfig \<Rightarrow> py_datetime \<Rightarrow> cron_error + py_datetime option" where
  "next_fire c now = (case (tc_trigger_type c, tc_cron_expression c) of
     (TIME_BASED, Some cron) \<Rightarrow> bindE (compute_next_cron cron now) (\<lambda>t. Inr (Some t))
   | _ \<Rightarrow> Inr None)"

definition advance :: "string \<Rightarrow> py_datetime \<Rightarrow> scheduler \<Rightarrow> cron_error + scheduler" where
  "advance i now ts = (case dict_get ts i of None \<Rightarrow> Inr ts
     | Some c \<Rightarrow> bindE (next_fire c now) (\<lambda>nf.
         Inr (dict_set i (c\<lparr>tc_next_fire_at := nf, tc_last_fired_at := Some now\<rparr>) ts)))"

subsection \<open>Clock lemmas\<close>

lemma ensure_utc_simps [simp]:
  "dt_wall (ensure_utc d) = dt_wall d" "ensure_utc (ensure_utc d) = ensure_utc d"
  "dt_instant (ensure_utc d) = dt_instant d"
  by (auto simp: ensure_utc_def dt_instant_def)

lemma ensure_utc_aware [simp]: "\<exists>z. dt_off (ensure_utc d) = Some z"
  by (auto simp: ensure_utc_def)

lemma dt_instant_wall_update:
  "dt_instant (d\<lparr>dt_wall := w\<rparr>) = dt_instant d + (w - dt_wall d)"
  by (simp add: dt_instant_def)

lemma clock_in_day:
  fixes H M :: int
  assumes "0 \<le> H" "H < 24" "0 \<le> M" "M < 60"
  shows "0 \<le> H * us_per_hour + M * us_per_minute" "H * us_per_hour + M * us_per_minute < us_per_day"
  using assms by (simp_all add: us_units)

lemma next_multiple:
  fixes a c d w :: int
  assumes c: "0 \<le> c" "c < d" and w: "w mod d = c" "a < w"
  shows "a - a mod d + c \<le> a \<Longrightarrow> a - a mod d + c + d \<le> w"
    and "\<not> a - a mod d + c \<le> a \<Longrightarrow> a - a mod d + c \<le> w"
proof -
  have d: "0 < d" using c by simp
  have a: "a - a mod d = d * (a div d)" and w': "w = d * (w div d) + c"
    using w by (simp_all add: minus_mod_eq_mult_div flip: w(1))
  have le: "a div d \<le> w div d" using w(2) d by (simp add: zdiv_mono1)
  have "d * (a div d) \<le> d * (w div d)" using le d by simp
  then show "\<not> a - a mod d + c \<le> a \<Longrightarrow> a - a mod d + c \<le> w" using a w' by simp
  assume "a - a mod d + c \<le> a"
  then have "a div d \<noteq> w div d" using a w' w(2) by auto
  with le have "a div d + 1 \<le> w div d" by simp
  then have "d * (a div d + 1) \<le> d * (w div d)" using d by simp
  then have "d * (a div d) + d \<le> d * (w div d)" by (simp add: algebra_simps)
  with a w' show "a - a mod d + c + d \<le> w" by linarith
qed

text \<open>The specification: the first moment after \<open>a\<close> at which a clock in \<open>a\<close>'s zone shows H:M.\<close>

definition shows_clock :: "int \<Rightarrow> int \<Rightarrow> int \<Rightarrow> bool" where
  "shows_clock H M w \<longleftrightarrow> w mod us_per_day = H * us_per_hour + M * us_per_minute"

definition is_next_daily :: "int \<Rightarrow> int \<Rightarrow> py_datetime \<Rightarrow> py_datetime \<Rightarrow> bool" where
  "is_next_daily H M a t \<longleftrightarrow> dt_off t = dt_off a \<and> shows_clock H M (dt_wall t) \<and> dt_wall a < dt_wall t \<and>
     (\<forall>w. shows_clock H M w \<longrightarrow> dt_wall a < w \<longrightarrow> dt_wall t \<le> w)"

definition daily_cron :: "string \<Rightarrow> (int \<times> int) option" where
  "daily_cron s = (case py_split (py_strip s) of
     [m, h, d, mo, w] \<Rightarrow>
       if d = ''*'' \<and> mo = ''*'' \<and> w = ''*''
       then (case (py_int m, py_int h) of
          (Some M, Some H) \<Rightarrow> if H \<in> {0..<24} \<and> M \<in> {0..<60} then Some (H, M) else None
        | _ \<Rightarrow> None)
       else None
   | _ \<Rightarrow> None)"

lemma is_next_daily_unique: "is_next_daily H M a t \<Longrightarrow> is_next_daily H M a t' \<Longrightarrow> t = t'"
  unfolding is_next_daily_def by (metis order.antisym py_datetime.equality unit.exhaust)

lemma next_daily_step:
  assumes "0 \<le> H" "H < 24" "0 \<le> M" "M < 60"
    and b: "b = a\<lparr>dt_wall := dt_wall a - dt_wall a mod us_per_day + H * us_per_hour + M * us_per_minute\<rparr>"
  shows "is_next_daily H M a (if dt_instant b \<le> dt_instant a then b\<lparr>dt_wall := dt_wall b + us_per_day\<rparr> else b)"
proof -
  let ?c = "H * us_per_hour + M * us_per_minute"
  let ?b = "dt_wall a - dt_wall a mod us_per_day + ?c"
  have c: "0 \<le> ?c" "?c < us_per_day" using clock_in_day assms by blast+
  have b': "b = a\<lparr>dt_wall := ?b\<rparr>" by (simp add: b algebra_simps)
  have modb: "?b mod us_per_day = ?c"
    using c by (simp add: minus_mod_eq_mult_div)
  have le: "dt_instant b \<le> dt_instant a \<longleftrightarrow> ?b \<le> dt_wall a" by (simp add: b' dt_instant_wall_update)
  have "dt_wall a mod us_per_day < us_per_day" by (simp add: us_units)
  with c have later: "dt_wall a < ?b + us_per_day" by linarith
  have modb': "(?b + us_per_day) mod us_per_day = ?c" using modb by simp
  note least = next_multiple [OF c, where a = "dt_wall a"]
  have fields: "dt_wall b = ?b" "dt_off b = dt_off a" by (simp_all add: b' )
  show ?thesis
  proof (cases "?b \<le> dt_wall a")
    case True
    then show ?thesis
      unfolding is_next_daily_def shows_clock_def using least(1) modb' later
      by (simp add: le fields)
  next
    case False
    then show ?thesis
      unfolding is_next_daily_def shows_clock_def using least(2) modb
      by (simp add: le fields)
  qed
qed

lemma compute_next_cron_iff:
  "compute_next_cron e a = Inr t \<longleftrightarrow>
     (\<exists>H M. daily_cron e = Some (H, M) \<and> is_next_daily H M (ensure_utc a) t)"
proof -
  have upd: "dt_instant (b\<lparr>dt_wall := w\<rparr>) = w - dt_wall b + dt_instant b" for b :: py_datetime and w
    by (simp add: dt_instant_wall_update)
  have rc: "bindE (replace_clock (ensure_utc a) H M) (\<lambda>base.
        Inr (if dt_instant base \<le> dt_instant (ensure_utc a)
             then base\<lparr>dt_wall := dt_wall base + us_per_day\<rparr> else base)) = Inr t \<longleftrightarrow>
      0 \<le> H \<and> H < 24 \<and> 0 \<le> M \<and> M < 60 \<and> is_next_daily H M (ensure_utc a) t" for H M
  proof (cases "0 \<le> H \<and> H < 24 \<and> 0 \<le> M \<and> M < 60")
    case True
    let ?b = "(ensure_utc a)\<lparr>dt_wall := dt_wall (ensure_utc a) - dt_wall (ensure_utc a) mod us_per_day
        + H * us_per_hour + M * us_per_minute\<rparr>"
    have "replace_clock (ensure_utc a) H M = Inr ?b"
      using True by (simp add: replace_clock_def fits_c_int_def)
    then show ?thesis
      using True next_daily_step [of H M ?b "ensure_utc a"] is_next_daily_unique
      by (auto simp del: ensure_utc_simps)
  next
    case False
    then show ?thesis by (auto simp: replace_clock_def)
  qed
  show ?thesis
    unfolding compute_next_cron_def daily_cron_def
    by (auto simp: rc simp del: ensure_utc_simps split: list.splits option.splits if_splits)
qed

subsection \<open>Registry lemmas\<close>

text \<open>A registry maps every configuration's own id to it, which every operation keeps.\<close>

definition registry_ok :: "scheduler \<Rightarrow> bool" where
  "registry_ok ts \<longleftrightarrow> dict_ok ts \<and> (\<forall>(i, c) \<in> set ts. tc_trigger_id c = i)"

lemma registry_ok_get: "registry_ok ts \<Longrightarrow> dict_get ts i = Some c \<Longrightarrow> tc_trigger_id c = i"
  by (auto simp: registry_ok_def dest: dict_get_SomeD)

lemma registry_ok_iff:
  "registry_ok ts \<longleftrightarrow> dict_ok ts \<and> (\<forall>i c. dict_get ts i = Some c \<longrightarrow> tc_trigger_id c = i)"
  by (auto simp: registry_ok_def dict_get_Some_iff)

lemma registry_ok_set: "registry_ok ts \<Longrightarrow> tc_trigger_id c = i \<Longrightarrow> registry_ok (dict_set i c ts)"
  by (auto simp: registry_ok_iff dict_simps)

lemma registry_ok_ops:
  "registry_ok []" "registry_ok ts \<Longrightarrow> registry_ok (register c ts)"
  "registry_ok ts \<Longrightarrow> registry_ok (unregister i ts)"
  by (auto simp: registry_ok_iff register_def unregister_def dict_simps split: if_splits)

lemma advance_registry_ok: "registry_ok ts \<Longrightarrow> advance i now ts = Inr ts' \<Longrightarrow> registry_ok ts'"
  by (auto simp: advance_def bindE_Inr_iff split: option.splits
      intro!: registry_ok_set dest: registry_ok_get)

lemma due_iff:
  "registry_ok ts \<Longrightarrow> c \<in> set (get_due_triggers now ts) \<longleftrightarrow>
     dict_get ts (tc_trigger_id c) = Some c \<and> is_due now c"
  by (auto simp: get_due_triggers_def registry_ok_def dict_get_Some_iff) force+

lemma next_fire_later:
  assumes "next_fire c now = Inr (Some t)"
  shows "dt_instant now < dt_instant t"
proof -
  obtain e where "compute_next_cron e now = Inr t"
    using assms by (auto simp: next_fire_def bindE_Inr_iff split: TriggerType.splits option.splits)
  then obtain H M where "is_next_daily H M (ensure_utc now) t"
    by (auto simp: compute_next_cron_iff)
  then have "dt_off t = dt_off (ensure_utc now)" "dt_wall (ensure_utc now) < dt_wall t"
    by (simp_all add: is_next_daily_def)
  then have "dt_instant (ensure_utc now) < dt_instant t" by (simp add: dt_instant_def del: ensure_utc_simps)
  then show ?thesis by simp
qed

text \<open>A trigger that was advanced is not due again at the same moment.\<close>

lemma advanced_not_due:
  assumes "next_fire c now = Inr nf"
  shows "\<not> is_due now (c\<lparr>tc_next_fire_at := nf, tc_last_fired_at := Some now\<rparr>)"
  using next_fire_later [of c now] assms by (cases nf) (auto simp: is_due_def)

lemma advance_get:
  assumes "advance i now ts = Inr ts'"
  shows "dict_get ts' j = (case dict_get ts j of None \<Rightarrow> None
     | Some c \<Rightarrow> if j = i then (case next_fire c now of Inl e \<Rightarrow> None
           | Inr nf \<Rightarrow> Some (c\<lparr>tc_next_fire_at := nf, tc_last_fired_at := Some now\<rparr>))
         else Some c)"
  using assms
  by (auto simp: advance_def bindE_Inr_iff dict_simps split: option.splits sum.splits)

text \<open>
  Claim C19: the next firing time of a cron expression. \<open>_compute_next_cron\<close> accepts exactly the
  daily expressions \<open>M H * * *\<close> with a minute and an hour of the clock, and the time it returns
  is the first moment strictly after \<open>after\<close> at which a clock in the zone of \<open>after\<close> (UTC when it
  is naive) shows H:M; every other expression raises.
\<close>

theorem next_cron_spec:
  "compute_next_cron e a = Inr t \<longleftrightarrow>
     (\<exists>H M. daily_cron e = Some (H, M) \<and> is_next_daily H M (ensure_utc a) t)"
  by (rule compute_next_cron_iff)

end
