(* ===== verification/GC_Trigger.thy ===== *)
theory GC_Trigger
  imports GC_Scheduler GC_Ids "HOL-Library.List_Lexorder" "HOL-Library.Char_ord"
begin

section \<open>The trigger engine (\<open>triggers/engine.py\<close>) and follow-up timing (\<open>triggers/followup.py\<close>)\<close>

text \<open>
  Dispatch with its bounded memory of idempotency keys, one pass of the scheduled loop, the
  two other sources of events, and the follow-up intervals. The message broker is the argument
  \<open>publish\<close>, an operation that may raise; \<open>as_list\<close> is the order in which \<open>list(set)\<close> lists a
  set, about which Python promises nothing; \<open>uuid\<close> gives the identifiers of \<open>uuid.uuid4()\<close>.
  A message is the event itself, its JSON text is not modelled.
\<close>

subsection \<open>State\<close>

datatype trigger_error = CronRaised cron_error | PublishRaised string

record 'q trigger_engine =
  seen_keys :: "string set"
  broker :: 'q
  triggers :: scheduler

type_synonym 'q publisher = "string \<Rightarrow> TriggerEvent \<Rightarrow> ('q, string, unit) io"

type_synonym ('q, 'a) engine_op = "('q trigger_engine, trigger_error, 'a) io"

definition INBOUND_MESSAGES :: string where "INBOUND_MESSAGES = ''inbound_messages''"

definition TRIGGER_EVENTS :: string where "TRIGGER_EVENTS = ''trigger_events''"

definition SEEN_KEYS_MAX :: nat where "SEEN_KEYS_MAX = 10000"

definition SEEN_KEYS_TRIM_TO :: nat where "SEEN_KEYS_TRIM_TO = 5000"

definition new_engine :: "'q \<Rightarrow> scheduler \<Rightarrow> 'q trigger_engine" where
  "new_engine b ts = \<lparr>seen_keys = {}, broker = b, triggers = ts\<rparr>"

subsection \<open>Dispatch\<close>

definition remember :: "(string set \<Rightarrow> string list) \<Rightarrow> string \<Rightarrow> string set \<Rightarrow> string set" where
  "remember as_list key seen =
     (if key = [] then seen
      else let seen1 = insert key seen
           in if card seen1 > SEEN_KEYS_MAX
              then seen1 - set (take SEEN_KEYS_TRIM_TO (as_list seen1)) else seen1)"

definition broker_publish :: "'q publisher \<Rightarrow> TriggerEvent \<Rightarrow> ('q, unit) engine_op" where
  "broker_publish publish ev s = (case publish TRIGGER_EVENTS ev (broker s) of
     (Inl e, b) \<Rightarrow> (Inl (PublishRaised e), s\<lparr>broker := b\<rparr>)
   | (Inr u, b) \<Rightarrow> (Inr u, s\<lparr>broker := b\<rparr>))"

definition dispatch ::
  "(string set \<Rightarrow> string list) \<Rightarrow> 'q publisher \<Rightarrow> TriggerEvent \<Rightarrow> ('q, bool) engine_op" where
  "dispatch as_list publish ev s =
     (if ev_idempotency_key ev \<noteq> [] \<and> ev_idempotency_key ev \<in> seen_keys s then (Inr False, s)
      else bindS (broker_publish publish ev) (\<lambda>_. returnS True)
        (s\<lparr>seen_keys := remember as_list (ev_idempotency_key ev) (seen_keys s)\<rparr>))"

subsection \<open>Dates\<close>

text \<open>\<open>str(now.date())\<close>: the proleptic Gregorian date of a day number, as \<open>YYYY-MM-DD\<close>.\<close>

definition civil_from_days :: "int \<Rightarrow> int \<times> int \<times> int" where
  "civil_from_days n =
     (let z = n + 719468;
          era = z div 146097;
          doe = z mod 146097;
          yoe = (doe - doe div 1460 + doe div 36524 - doe div 146096) div 365;
          doy = doe - (365 * yoe + yoe div 4 - yoe div 100);
          mp = (5 * doy + 2) div 153;
          d = doy - (153 * mp + 2) div 5 + 1;
          mo = (if mp < 10 then mp + 3 else mp - 9)
      in (yoe + era * 400 + (if mo \<le> 2 then 1 else 0), mo, d))"

definition date_text :: "py_datetime \<Rightarrow> string" where
  "date_text t = (case civil_from_days (dt_wall t div us_per_day) of (y, mo, d) \<Rightarrow>
     zfill 4 (dec_string (nat y)) @ ''-'' @ zfill 2 (dec_string (nat mo)) @ ''-''
       @ zfill 2 (dec_string (nat d)))"

subsection \<open>Sources of events\<close>

definition scheduled_event :: "string \<Rightarrow> py_datetime \<Rightarrow> TriggerConfig \<Rightarrow> TriggerEvent" where
  "scheduled_event u now c =
     \<lparr>ev_trigger_id = ''TRIG-'' @ u, ev_trigger_type = tc_trigger_type c,
      ev_user_id = tc_user_id c, ev_payload = tc_payload_template c, ev_created_at = now,
      ev_idempotency_key = tc_trigger_id c @ '':'' @ date_text now, ev_session_id = []\<rparr>"

definition advance_op :: "string \<Rightarrow> py_datetime \<Rightarrow> ('q, unit) engine_op" where
  "advance_op i now s = (case advance i now (triggers s) of
     Inl e \<Rightarrow> (Inl (CronRaised e), s)
   | Inr ts \<Rightarrow> (Inr (), s\<lparr>triggers := ts\<rparr>))"

definition fire_trigger :: "(string set \<Rightarrow> string list) \<Rightarrow> 'q publisher \<Rightarrow> (nat \<Rightarrow> string) \<Rightarrow>
    py_datetime \<Rightarrow> nat \<times> TriggerConfig \<Rightarrow> unit \<Rightarrow> ('q, unit) engine_op" where
  "fire_trigger as_list publish uuid now = (\<lambda>(i, c) _.
     bindS (dispatch as_list publish (scheduled_event (uuid i) now c))
       (\<lambda>_. advance_op (tc_trigger_id c) now))"

text \<open>One pass of the scheduled loop, between two sleeps.\<close>

definition scheduled_tick :: "(string set \<Rightarrow> string list) \<Rightarrow> 'q publisher \<Rightarrow> (nat \<Rightarrow> string) \<Rightarrow>
    py_datetime \<Rightarrow> ('q, unit) engine_op" where
  "scheduled_tick as_list publish uuid now s =
     forS (fire_trigger as_list publish uuid now)
       (enumerate 0 (get_due_triggers now (triggers s))) () s"

definition fire_on_demand :: "(string set \<Rightarrow> string list) \<Rightarrow> 'q publisher \<Rightarrow> string \<Rightarrow>
    py_datetime \<Rightarrow> string \<Rightarrow> props option \<Rightarrow> ('q, TriggerEvent) engine_op" where
  "fire_on_demand as_list publish u now user payload =
     (let ev = \<lparr>ev_trigger_id = ''TRIG-'' @ u, ev_trigger_type = ON_DEMAND, ev_user_id = user,
            ev_payload = (case payload of None \<Rightarrow> [] | Some p \<Rightarrow> p), ev_created_at = now,
            ev_idempotency_key = [], ev_session_id = []\<rparr>
      in bindS (dispatch as_list publish ev) (\<lambda>_. returnS ev))"

definition consume_message :: "(string set \<Rightarrow> string list) \<Rightarrow> 'q publisher \<Rightarrow> string \<Rightarrow>
    py_datetime \<Rightarrow> string \<Rightarrow> ('q, bool) engine_op" where
  "consume_message as_list publish u now message =
     dispatch as_list publish \<lparr>ev_trigger_id = ''TRIG-'' @ u, ev_trigger_type = INBOUND,
       ev_user_id = [], ev_payload = [(''raw_message'', PStr message)], ev_created_at = now,
       ev_idempotency_key = [], ev_session_id = []\<rparr>"

subsection \<open>Follow-up intervals\<close>

definition compute_followup_timing :: "rat \<Rightarrow> rat \<Rightarrow> rat \<Rightarrow> rat \<Rightarrow> rat" where
  "compute_followup_timing base_cadence complexity_factor reliability recency_bonus =
     base_cadence * complexity_factor * (1 / max reliability (1 / 10)) * (1 - recency_bonus * (1 / 5))"

text \<open>\<open>timedelta\<close> rounds to whole microseconds, half to even.\<close>

definition round_half_even :: "rat \<Rightarrow> int" where
  "round_half_even r = (let f = \<lfloor>r\<rfloor>; d = r - of_int f
     in if d < 1 / 2 then f else if d > 1 / 2 then f + 1 else if even f then f else f + 1)"

definition add_days :: "py_datetime \<Rightarrow> rat \<Rightarrow> py_datetime" where
  "add_days t days = t\<lparr>dt_wall := dt_wall t + round_half_even (days * of_int us_per_day)\<rparr>"

definition compute_next_followup :: "py_datetime \<Rightarrow> FollowupConfig \<Rightarrow> py_datetime" where
  "compute_next_followup utcnow c = add_days utcnow
     (compute_followup_timing (fc_base_cadence_days c) (fc_complexity_factor c)
        (fc_reliability_score c) (fc_recency_bonus c))"

definition BASE_INTERVAL_HOURS :: rat where "BASE_INTERVAL_HOURS = 24"

definition MIN_INTERVAL_HOURS :: rat where "MIN_INTERVAL_HOURS = 4"

definition MAX_INTERVAL_HOURS :: rat where "MAX_INTERVAL_HOURS = 168"

definition URGENCY_MAP :: "rat pydict" where
  "URGENCY_MAP = [(''P1'', 1 / 2), (''P2'', 1), (''P3'', 2)]"

fun CONFIDENCE_MAP :: "ConfidenceLevel \<Rightarrow> rat" where
  "CONFIDENCE_MAP ConfidenceLevel.HIGH = 3 / 2"
| "CONFIDENCE_MAP ConfidenceLevel.MEDIUM = 1"
| "CONFIDENCE_MAP ConfidenceLevel.LOW = 1 / 2"

definition add_hours :: "py_datetime \<Rightarrow> rat \<Rightarrow> py_datetime" where
  "add_hours t hours = t\<lparr>dt_wall := dt_wall t + round_half_even (hours * of_int us_per_hour)\<rparr>"

definition calculate_followup :: "py_datetime \<Rightarrow> string \<Rightarrow> ConfidenceLevel \<Rightarrow> FollowUpTiming" where
  "calculate_followup utcnow task_priority conf =
     (let urgency = dict_get_default URGENCY_MAP task_priority 1;
          conf_adj = CONFIDENCE_MAP conf;
          raw = BASE_INTERVAL_HOURS * urgency * conf_adj;
          effective = max MIN_INTERVAL_HOURS (min MAX_INTERVAL_HOURS raw)
      in \<lparr>ft_task_id = [], ft_base_interval_hours = BASE_INTERVAL_HOURS,
          ft_urgency_multiplier = urgency, ft_confidence_adjustment = conf_adj,
          ft_next_followup_at = Some (add_hours utcnow effective)\<rparr>)"

subsection \<open>The memory of keys\<close>

definition bounded_keys :: "string set \<Rightarrow> bool" where
  "bounded_keys S \<longleftrightarrow> finite S \<and> card S \<le> SEEN_KEYS_MAX"

lemma remember_small:
  assumes "finite S" "card (insert key S) \<le> SEEN_KEYS_MAX"
  shows "remember as_list key S = (if key = [] then S else insert key S)"
  using assms by (simp add: remember_def Let_def)

lemma remember_bounded:
  assumes "enumerates as_list" "bounded_keys S"
  shows "bounded_keys (remember as_list key S)"
proof (cases "key = [] \<or> card (insert key S) \<le> SEEN_KEYS_MAX")
  case True
  then show ?thesis using assms(2) by (auto simp: remember_def bounded_keys_def Let_def)
next
  case False
  let ?S = "insert key S" and ?R = "set (take SEEN_KEYS_TRIM_TO (as_list (insert key S)))"
  have S: "finite S" "card S \<le> SEEN_KEYS_MAX" using assms(2) by (simp_all add: bounded_keys_def)
  have en: "set (as_list ?S) = ?S" "distinct (as_list ?S)"
    using assms(1) S by (simp_all add: enumerates_def)
  have "card ?R = min (card ?S) SEEN_KEYS_TRIM_TO"
    using en by (metis distinct_card distinct_take length_take)
  then have "card ?R = SEEN_KEYS_TRIM_TO"
    using False by (simp add: SEEN_KEYS_MAX_def SEEN_KEYS_TRIM_TO_def)
  moreover have "?R \<subseteq> ?S" using en(1) set_take_subset by fastforce
  moreover have "card ?S \<le> SEEN_KEYS_MAX + 1" using S by (metis Suc_eq_plus1 Suc_le_mono card_insert_le_m1 card_insert_if le_SucI)
  ultimately have "card (?S - ?R) \<le> SEEN_KEYS_MAX"
    using S by (simp add: card_Diff_subset SEEN_KEYS_MAX_def SEEN_KEYS_TRIM_TO_def)
  then show ?thesis
    using False S by (simp add: remember_def bounded_keys_def Let_def)
qed

lemma broker_publish_frame [frame_simps]:
  "seen_keys (snd (broker_publish publish ev s)) = seen_keys s"
  "triggers (snd (broker_publish publish ev s)) = triggers s"
  by (auto simp: broker_publish_def split: prod.splits sum.splits)

lemma dispatch_triggers [frame_simps]:
  "triggers (snd (dispatch as_list publish ev s)) = triggers s"
  by (auto simp: dispatch_def bindS_unfold broker_publish_def split: prod.splits sum.splits)

lemma dispatch_seen:
  "seen_keys (snd (dispatch as_list publish ev s)) = seen_keys s \<or>
   seen_keys (snd (dispatch as_list publish ev s)) = remember as_list (ev_idempotency_key ev) (seen_keys s)"
  by (auto simp: dispatch_def bindS_unfold broker_publish_def split: prod.splits sum.splits)

subsection \<open>Runs of dispatches\<close>

definition dispatch_all ::
  "(string set \<Rightarrow> string list) \<Rightarrow> 'q publisher \<Rightarrow> TriggerEvent list \<Rightarrow> ('q, unit) engine_op" where
  "dispatch_all as_list publish evs =
     forS (\<lambda>ev _. bindS (dispatch as_list publish ev) (\<lambda>_. returnS ())) evs ()"

definition publish_all :: "'q publisher \<Rightarrow> TriggerEvent list \<Rightarrow> ('q, string, unit) io" where
  "publish_all publish evs = forS (\<lambda>ev _. publish TRIGGER_EVENTS ev) evs ()"

text \<open>The events without a key, and of those with one the first with a key not in \<open>S\<close>.\<close>

definition first_events :: "string set \<Rightarrow> TriggerEvent list \<Rightarrow> TriggerEvent list" where
  "first_events S evs = nths evs {i. ev_idempotency_key (evs ! i) = [] \<or>
     ev_idempotency_key (evs ! i) \<notin> S \<union> ev_idempotency_key ` set (take i evs)}"

lemma first_events_simps:
  "first_events S [] = []"
  "first_events S (ev # evs) =
     (if ev_idempotency_key ev \<noteq> [] \<and> ev_idempotency_key ev \<in> S then first_events S evs
      else ev # first_events (insert (ev_idempotency_key ev) S) evs)"
  by (auto simp: first_events_def nths_Cons insert_absorb intro!: arg_cong2 [of _ _ _ _ nths])

lemma first_events_insert_empty: "first_events (insert [] S) evs = first_events S evs"
  by (auto simp: first_events_def intro!: arg_cong2 [of _ _ _ _ nths])

text \<open>
  Claim C21: deduplication. As long as the memory is not trimmed, dispatching a list of events
  publishes, in order, exactly the events without a key and the first event of every key not
  seen before, stops at the first publish that raises with the same error, and leaves the
  broker as publishing that shorter list would.
\<close>

theorem dispatch_publishes_first_events:
  assumes "finite (seen_keys s)"
    and "card (seen_keys s \<union> ev_idempotency_key ` set evs) \<le> SEEN_KEYS_MAX"
  shows "map_prod id broker (dispatch_all as_list publish evs s) =
     map_prod (map_sum PublishRaised id) id
       (publish_all publish (first_events (seen_keys s) evs) (broker s))"
  using assms
proof (induction evs arbitrary: s)
  case Nil
  then show ?case by (simp add: dispatch_all_def publish_all_def first_events_simps)
next
  case (Cons ev evs)
  let ?k = "ev_idempotency_key ev"
  show ?case
  proof (cases "?k \<noteq> [] \<and> ?k \<in> seen_keys s")
    case True
    then have "dispatch_all as_list publish (ev # evs) s = dispatch_all as_list publish evs s"
      by (simp add: dispatch_all_def dispatch_def bindS_unfold)
    moreover have "card (seen_keys s \<union> ev_idempotency_key ` set evs) \<le> SEEN_KEYS_MAX"
      using Cons.prems True by (simp add: insert_absorb)
    ultimately show ?thesis
      using Cons.IH [of s] Cons.prems(1) True by (simp add: first_events_simps)
  next
    case False
    let ?S = "if ?k = [] then seen_keys s else insert ?k (seen_keys s)"
    have "card (insert ?k (seen_keys s)) \<le> card (seen_keys s \<union> ev_idempotency_key ` set (ev # evs))"
      using Cons.prems(1) by (intro card_mono) auto
    then have S: "remember as_list ?k (seen_keys s) = ?S"
      using Cons.prems by (intro remember_small) auto
    have "card (?S \<union> ev_idempotency_key ` set evs)
        \<le> card (seen_keys s \<union> ev_idempotency_key ` set (ev # evs))"
      using Cons.prems(1) by (intro card_mono) (auto split: if_splits)
    then have card: "card (?S \<union> ev_idempotency_key ` set evs) \<le> SEEN_KEYS_MAX"
      using Cons.prems(2) by simp
    have tail: "first_events (seen_keys s) (ev # evs) = ev # first_events ?S evs"
      using False by (auto simp: first_events_simps first_events_insert_empty)
    obtain r b where pub: "publish TRIGGER_EVENTS ev (broker s) = (r, b)" by fastforce
    show ?thesis
    proof (cases r)
      case (Inl e)
      with pub tail False show ?thesis
        by (auto simp: dispatch_all_def publish_all_def dispatch_def broker_publish_def bindS_unfold)
    next
      case (Inr u)
      let ?s = "s\<lparr>seen_keys := ?S, broker := b\<rparr>"
      have "dispatch_all as_list publish (ev # evs) s = dispatch_all as_list publish evs ?s"
        using pub Inr False S
        by (auto simp: dispatch_all_def dispatch_def broker_publish_def bindS_unfold)
      moreover have "publish_all publish (ev # es) (broker s) = publish_all publish es b" for es
        using pub Inr by (simp add: publish_all_def bindS_unfold)
      ultimately show ?thesis
        using Cons.IH [of ?s] card Cons.prems(1) tail by simp
    qed
  qed
qed

text \<open>A broker that keeps its messages in a list, newest first, as Redis \<open>LPUSH\<close> does.\<close>

definition lpush :: "(string \<times> TriggerEvent) list publisher" where
  "lpush q ev b = (Inr (), (q, ev) # b)"

definition down :: "(string \<times> TriggerEvent) list publisher" where
  "down q ev b = (Inl ''ConnectionError'', b)"

definition sample_event :: "string \<Rightarrow> TriggerEvent" where
  "sample_event k = \<lparr>ev_trigger_id = ''TRIG-1'', ev_trigger_type = TIME_BASED, ev_user_id = ''USR-1'',
     ev_payload = [], ev_created_at = utc_dt 0, ev_idempotency_key = k, ev_session_id = []\<rparr>"

lemma dispatch_publishes_first_events_witness:
  "map_prod id broker (dispatch_all sorted_list_of_set lpush
       [sample_event ''a'', sample_event [], sample_event ''a'', sample_event []] (new_engine [] [])) =
     (Inr (), [(TRIGGER_EVENTS, sample_event []), (TRIGGER_EVENTS, sample_event []),
        (TRIGGER_EVENTS, sample_event ''a'')])"
  using dispatch_publishes_first_events [of "new_engine [] []"
      "[sample_event ''a'', sample_event [], sample_event ''a'', sample_event []]" sorted_list_of_set lpush]
  by (simp add: new_engine_def sample_event_def SEEN_KEYS_MAX_def first_events_simps
      publish_all_def lpush_def bindS_unfold card_insert_if)

text \<open>
  An event is lost when publishing it raises. The key is remembered before the
  broker is called, so after an exception (and no trim) dispatching the same event again does
  nothing and reports a duplicate, whatever the broker would answer now.
\<close>

theorem failed_publish_is_never_retried:
  assumes "dispatch as_list publish ev s = (Inl e, s')" "ev_idempotency_key ev \<noteq> []"
    and "finite (seen_keys s)" "card (seen_keys s) < SEEN_KEYS_MAX"
  shows "dispatch as_list publish' ev s' = (Inr False, s')"
proof -
  have "card (insert (ev_idempotency_key ev) (seen_keys s)) \<le> SEEN_KEYS_MAX"
    using assms(3,4) by (simp add: card_insert_if)
  then have "remember as_list (ev_idempotency_key ev) (seen_keys s)
      = insert (ev_idempotency_key ev) (seen_keys s)"
    using assms(2,3) by (simp add: remember_small)
  then have "ev_idempotency_key ev \<in> seen_keys s'"
    using assms(1) by (auto simp: dispatch_def bindS_unfold broker_publish_def
        split: if_splits prod.splits sum.splits)
  with assms(2) show ?thesis by (simp add: dispatch_def)
qed

lemma failed_publish_is_never_retried_witness:
  "dispatch sorted_list_of_set lpush (sample_event ''a'')
     (snd (dispatch sorted_list_of_set down (sample_event ''a'') (new_engine [] []))) =
   (Inr False, \<lparr>seen_keys = {''a''}, broker = [], triggers = []\<rparr>)"
  using failed_publish_is_never_retried [of sorted_list_of_set down "sample_event ''a''" "new_engine [] []"
      "PublishRaised ''ConnectionError''" "\<lparr>seen_keys = {''a''}, broker = [], triggers = []\<rparr>" lpush]
  by (simp add: new_engine_def sample_event_def SEEN_KEYS_MAX_def dispatch_def broker_publish_def
      bindS_unfold down_def remember_def Let_def)

subsection \<open>One pass of the loop\<close>

lemma fire_trigger_cases:
  assumes "fire_trigger as_list publish uuid now (i, c) u s = (r, s')"
  obtains (publish_raised) e where "r = Inl (PublishRaised e)" "triggers s' = triggers s"
      "\<exists>ev q. fst (publish TRIGGER_EVENTS ev q) = Inl e"
    | (cron_raised) e where "r = Inl (CronRaised e)" "triggers s' = triggers s"
      "advance (tc_trigger_id c) now (triggers s) = Inl e"
    | (fired) "r = Inr ()" "advance (tc_trigger_id c) now (triggers s) = Inr (triggers s')"
  using assms
  by (auto simp: fire_trigger_def bindS_unfold dispatch_def broker_publish_def advance_op_def
      split: if_splits prod.splits sum.splits) (metis fst_conv)+

lemma find_after: "find P xs = None \<Longrightarrow> find P (xs @ ys) = find P ys"
  by (induction xs) (auto split: if_splits)

definition advanced :: "py_datetime \<Rightarrow> TriggerConfig \<Rightarrow> TriggerConfig" where
  "advanced now c = (case next_fire c now of Inl e \<Rightarrow> c
     | Inr nf \<Rightarrow> c\<lparr>tc_next_fire_at := nf, tc_last_fired_at := Some now\<rparr>)"

lemma advanced_simps [simp]:
  "tc_trigger_id (advanced now c) = tc_trigger_id c" "tc_enabled (advanced now c) = tc_enabled c"
  by (simp_all add: advanced_def split: sum.splits)

lemma advance_InrD:
  assumes "advance (tc_trigger_id c) now ts = Inr ts'" "dict_get ts (tc_trigger_id c) = Some c"
  shows "ts' = dict_set (tc_trigger_id c) (advanced now c) ts" "\<exists>nf. next_fire c now = Inr nf"
  using assms by (auto simp: advance_def advanced_def bindE_Inr_iff)

lemma advance_InlD:
  assumes "advance (tc_trigger_id c) now ts = Inl e" "dict_get ts (tc_trigger_id c) = Some c"
  shows "next_fire c now = Inl e"
  using assms by (auto simp: advance_def bindE_Inl_iff)

text \<open>The loop over the due triggers advances each, up to the first whose cron is rejected.\<close>

definition advance_each :: "py_datetime \<Rightarrow> TriggerConfig list \<Rightarrow> scheduler \<Rightarrow> scheduler" where
  "advance_each now cs ts = fold (\<lambda>c. dict_set (tc_trigger_id c) (advanced now c)) cs ts"

lemma advance_each_get:
  assumes "distinct (map tc_trigger_id cs)"
  shows "dict_get (advance_each now cs ts) i =
     (case find (\<lambda>c. tc_trigger_id c = i) cs of None \<Rightarrow> dict_get ts i | Some c \<Rightarrow> Some (advanced now c))"
  using assms
proof (induction cs arbitrary: ts)
  case Nil
  then show ?case by (simp add: advance_each_def)
next
  case (Cons c cs)
  let ?ts = "dict_set (tc_trigger_id c) (advanced now c) ts"
  have step: "advance_each now (c # cs) ts = advance_each now cs ?ts"
    by (simp add: advance_each_def)
  have IH: "dict_get (advance_each now cs ?ts) i =
     (case find (\<lambda>c. tc_trigger_id c = i) cs of None \<Rightarrow> dict_get ?ts i | Some c \<Rightarrow> Some (advanced now c))"
    using Cons by simp
  show ?case
  proof (cases "tc_trigger_id c = i")
    case True
    with Cons.prems have "find (\<lambda>c. tc_trigger_id c = i) cs = None"
      by (metis (mono_tags, lifting) distinct.simps(2) find_None_iff image_eqI list.set_map list.simps(9))
    with True IH show ?thesis by (simp add: step dict_simps)
  next
    case False
    with IH show ?thesis by (auto simp: step dict_simps split: option.splits)
  qed
qed

lemma tick_loop:
  assumes "forS (fire_trigger as_list publish uuid now) (enumerate n cs) () s = (r, s')"
    and "distinct (map tc_trigger_id cs)" "\<forall>c \<in> set cs. dict_get (triggers s) (tc_trigger_id c) = Some c"
  shows "\<exists>cs1 cs2. cs = cs1 @ cs2 \<and> triggers s' = advance_each now cs1 (triggers s) \<and>
     (\<forall>c \<in> set cs1. \<exists>nf. next_fire c now = Inr nf) \<and>
     (r = Inr () \<and> cs2 = []
      \<or> (\<exists>e. r = Inl (PublishRaised e) \<and> (\<exists>ev q. fst (publish TRIGGER_EVENTS ev q) = Inl e))
      \<or> (\<exists>e c cs3. cs2 = c # cs3 \<and> r = Inl (CronRaised e) \<and> next_fire c now = Inl e))"
  using assms
proof (induction cs arbitrary: n s)
  case Nil
  then show ?case by (simp add: advance_each_def)
next
  case (Cons c cs)
  from Cons.prems(1) have run: "bindS (fire_trigger as_list publish uuid now (n, c) ())
      (forS (fire_trigger as_list publish uuid now) (enumerate (Suc n) cs)) s = (r, s')" by simp
  have c: "dict_get (triggers s) (tc_trigger_id c) = Some c" using Cons.prems(3) by simp
  from run show ?case
  proof (cases rule: bindS_eqE)
    case (raised e)
    from raised(1) show ?thesis
    proof (cases rule: fire_trigger_cases)
      case (publish_raised e')
      with raised show ?thesis
        by (intro exI [of _ "[]"] exI [of _ "c # cs"]) (auto simp: advance_each_def)
    next
      case (cron_raised e')
      with raised advance_InlD [OF _ c] show ?thesis
        by (intro exI [of _ "[]"] exI [of _ "c # cs"]) (auto simp: advance_each_def)
    qed simp
  next
    case (went_on u s1)
    from went_on(1) have adv: "advance (tc_trigger_id c) now (triggers s) = Inr (triggers s1)"
      by (cases rule: fire_trigger_cases) auto
    note ts1 = advance_InrD [OF adv c]
    have "tc_trigger_id d \<noteq> tc_trigger_id c" if "d \<in> set cs" for d
      using Cons.prems(2) that by (metis distinct.simps(2) image_eqI list.set_map list.simps(9))
    then have get: "\<forall>d \<in> set cs. dict_get (triggers s1) (tc_trigger_id d) = Some d"
      using Cons.prems(3) by (simp add: ts1(1) dict_simps)
    have run': "forS (fire_trigger as_list publish uuid now) (enumerate (Suc n) cs) () s1 = (r, s')"
      using went_on(2) by simp
    have dist: "distinct (map tc_trigger_id cs)" using Cons.prems(2) by simp
    from Cons.IH [OF run' dist get] obtain cs1 cs2 where
      "cs = cs1 @ cs2" "triggers s' = advance_each now cs1 (triggers s1)"
      "\<forall>c \<in> set cs1. \<exists>nf. next_fire c now = Inr nf"
      "r = Inr () \<and> cs2 = []
      \<or> (\<exists>e. r = Inl (PublishRaised e) \<and> (\<exists>ev q. fst (publish TRIGGER_EVENTS ev q) = Inl e))
      \<or> (\<exists>e c cs3. cs2 = c # cs3 \<and> r = Inl (CronRaised e) \<and> next_fire c now = Inl e)"
      by (elim exE conjE)
    then show ?thesis
      using ts1 by (intro exI [of _ "c # cs1"] exI [of _ cs2]) (simp add: advance_each_def)
  qed
qed

lemma due_distinct:
  assumes "registry_ok ts"
  shows "distinct (map tc_trigger_id (get_due_triggers now ts))"
proof -
  have "map (tc_trigger_id \<circ> snd) ts = map fst ts"
    using assms by (auto simp: registry_ok_def)
  then have "distinct (map tc_trigger_id (map snd ts))"
    using assms by (simp add: registry_ok_def dict_ok_def del: map_eq_conv)
  then show ?thesis unfolding get_due_triggers_def by (rule distinct_map_filter)
qed

lemma tick_split:
  assumes "registry_ok (triggers s)" "scheduled_tick as_list publish uuid now s = (r, s')"
  obtains cs1 cs2 where "get_due_triggers now (triggers s) = cs1 @ cs2"
    "triggers s' = advance_each now cs1 (triggers s)" "\<forall>c \<in> set cs1. \<exists>nf. next_fire c now = Inr nf"
    "r = Inr () \<and> cs2 = []
      \<or> (\<exists>e. r = Inl (PublishRaised e) \<and> (\<exists>ev q. fst (publish TRIGGER_EVENTS ev q) = Inl e))
      \<or> (\<exists>e c cs3. cs2 = c # cs3 \<and> r = Inl (CronRaised e) \<and> next_fire c now = Inl e)"
proof -
  have "\<forall>c \<in> set (get_due_triggers now (triggers s)). dict_get (triggers s) (tc_trigger_id c) = Some c"
    using assms(1) by (simp add: due_iff)
  from tick_loop [OF assms(2) [unfolded scheduled_tick_def] due_distinct [OF assms(1)] this]
  show ?thesis using that by blast
qed

lemma advance_each_due_get:
  assumes "registry_ok ts" "get_due_triggers now ts = cs1 @ cs2"
  shows "dict_get (advance_each now cs1 ts) i =
     map_option (\<lambda>c. if c \<in> set cs1 then advanced now c else c) (dict_get ts i)"
proof -
  have dist: "distinct (map tc_trigger_id cs1)"
    using due_distinct [OF assms(1), of now] assms(2) by simp
  have mem: "dict_get ts (tc_trigger_id c) = Some c" if "c \<in> set cs1" for c
    using assms that by (metis Un_iff due_iff set_append)
  show ?thesis
  proof (cases "find (\<lambda>c. tc_trigger_id c = i) cs1")
    case None
    then have "c \<notin> set cs1" if "dict_get ts i = Some c" for c
      using registry_ok_get [OF assms(1) that] by (auto simp: find_None_iff)
    with None show ?thesis
      by (cases "dict_get ts i") (simp_all add: advance_each_get [OF dist])
  next
    case (Some c)
    then have c: "c \<in> set cs1" "tc_trigger_id c = i" by (auto simp: find_Some_iff)
    with Some mem [OF c(1)] show ?thesis by (simp add: advance_each_get [OF dist])
  qed
qed

lemma advance_each_registry_ok:
  "registry_ok ts \<Longrightarrow> registry_ok (advance_each now cs ts)"
  unfolding advance_each_def by (induction cs arbitrary: ts) (simp_all add: registry_ok_set)

definition daily_trigger :: "string \<Rightarrow> string \<Rightarrow> TriggerConfig" where
  "daily_trigger i cron = \<lparr>tc_trigger_id = i, tc_trigger_type = TIME_BASED, tc_user_id = ''USR-1'',
     tc_enabled = True, tc_cron_expression = Some cron, tc_next_fire_at = Some (utc_dt 0),
     tc_last_fired_at = None, tc_payload_template = []\<rparr>"

definition sample_engine :: "string \<Rightarrow> (string \<times> TriggerEvent) list trigger_engine" where
  "sample_engine cron = new_engine [] (register (daily_trigger ''T1'' cron) [])"

lemmas sample_simps = sample_engine_def daily_trigger_def new_engine_def register_def dict_set_def
  scheduled_tick_def get_due_triggers_def is_due_def fire_trigger_def dispatch_def remember_def
  broker_publish_def bindS_unfold advance_op_def advance_def next_fire_def dict_get_def utc_dt_def
  dt_instant_def ensure_utc_def

lemma sample_registry_ok: "registry_ok (triggers (sample_engine cron))"
  by (simp add: sample_engine_def new_engine_def daily_trigger_def registry_ok_ops)

lemma sample_cron: "compute_next_cron ''0 8 * * *'' (utc_dt 0) = Inr (utc_dt (8 * us_per_hour))"
  by code_simp

lemma sample_bad_cron: "compute_next_cron ''0 24 * * *'' (utc_dt 0) =
    Inl (CronValueError ''hour must be in 0..23'')"
  by code_simp

text \<open>
  A pass that returns has fired everything that was due. Every trigger that was
  enabled and due got its \<open>last_fired_at\<close> set to the time of the pass and the next time its
  schedule gives (none without a cron), no other trigger changed, and nothing is due any more.
\<close>

theorem tick_clears_due:
  assumes "registry_ok (triggers s)" "scheduled_tick as_list publish uuid now s = (Inr (), s')"
  shows "get_due_triggers now (triggers s') = [] \<and>
     (\<forall>i. dict_get (triggers s') i = (case dict_get (triggers s) i of None \<Rightarrow> None
        | Some c \<Rightarrow> if is_due now c
            then (case next_fire c now of Inl e \<Rightarrow> None
              | Inr nf \<Rightarrow> Some (c\<lparr>tc_next_fire_at := nf, tc_last_fired_at := Some now\<rparr>))
            else Some c))"
proof -
  from tick_split [OF assms] obtain cs1 where cs1: "get_due_triggers now (triggers s) = cs1 @ []"
    "triggers s' = advance_each now cs1 (triggers s)" "\<forall>c \<in> set cs1. \<exists>nf. next_fire c now = Inr nf"
    by (metis Inl_Inr_False)
  have due: "c \<in> set cs1 \<longleftrightarrow> is_due now c" if "dict_get (triggers s) i = Some c" for i c
    using cs1(1) due_iff [OF assms(1), of c now] registry_ok_get [OF assms(1) that] that by simp
  have get: "dict_get (triggers s') i = (case dict_get (triggers s) i of None \<Rightarrow> None
        | Some c \<Rightarrow> if is_due now c
            then (case next_fire c now of Inl e \<Rightarrow> None
              | Inr nf \<Rightarrow> Some (c\<lparr>tc_next_fire_at := nf, tc_last_fired_at := Some now\<rparr>))
            else Some c)" for i
    using advance_each_due_get [OF assms(1) cs1(1), of i] cs1(2,3) due
    by (auto simp: advanced_def split: option.splits sum.splits) fastforce+
  have ok: "registry_ok (triggers s')"
    using cs1(2) advance_each_registry_ok [OF assms(1)] by simp
  have "c \<notin> set (get_due_triggers now (triggers s'))" for c
    using get [of "tc_trigger_id c"] advanced_not_due
    by (auto simp: due_iff [OF ok] split: option.splits if_splits sum.splits)
  with get show ?thesis by (metis list.set_intros(1) neq_Nil_conv)
qed

lemma tick_clears_due_witness:
  "\<exists>s'. scheduled_tick sorted_list_of_set lpush (\<lambda>_. []) (utc_dt 0) (sample_engine ''0 8 * * *'') = (Inr (), s')
     \<and> get_due_triggers (utc_dt 0) (triggers s') = []"
proof -
  obtain s' where "scheduled_tick sorted_list_of_set lpush (\<lambda>_. []) (utc_dt 0)
      (sample_engine ''0 8 * * *'') = (Inr (), s')"
    using sample_cron by (simp add: sample_simps lpush_def)
  with tick_clears_due [OF sample_registry_ok this] show ?thesis by blast
qed

text \<open>
  A rejected cron expression stops the loop for good. When no publish raises, a pass
  returns exactly if the schedule of every due trigger can be advanced; otherwise it raises
  the error of the first due trigger that cannot, and that trigger is still due afterwards.
\<close>

theorem tick_raises_on_bad_cron:
  assumes "registry_ok (triggers s)" and "\<And>ev q. \<exists>q'. publish TRIGGER_EVENTS ev q = (Inr (), q')"
    and "scheduled_tick as_list publish uuid now s = (r, s')"
  shows "case find (\<lambda>c. \<exists>e. next_fire c now = Inl e) (get_due_triggers now (triggers s)) of
       None \<Rightarrow> r = Inr ()
     | Some c \<Rightarrow> (\<exists>e. next_fire c now = Inl e \<and> r = Inl (CronRaised e)) \<and>
         c \<in> set (get_due_triggers now (triggers s'))"
proof -
  have total: "fst (publish TRIGGER_EVENTS ev q) \<noteq> Inl e" for ev q e
    using assms(2) [of ev q] by auto
  from tick_split [OF assms(1,3)] obtain cs1 cs2 where
    cs: "get_due_triggers now (triggers s) = cs1 @ cs2"
      "triggers s' = advance_each now cs1 (triggers s)" "\<forall>c \<in> set cs1. \<exists>nf. next_fire c now = Inr nf"
    and r: "r = Inr () \<and> cs2 = []
      \<or> (\<exists>e c cs3. cs2 = c # cs3 \<and> r = Inl (CronRaised e) \<and> next_fire c now = Inl e)"
    using total by metis
  have none: "find (\<lambda>c. \<exists>e. next_fire c now = Inl e) cs1 = None"
    using cs(3) by (auto simp: find_None_iff)
  from r show ?thesis
  proof (elim disjE exE conjE)
    assume "r = Inr ()" "cs2 = []"
    then show ?thesis using none by (simp add: cs(1))
  next
    fix e c cs3
    assume c: "cs2 = c # cs3" "r = Inl (CronRaised e)" "next_fire c now = Inl e"
    have get: "dict_get (triggers s) (tc_trigger_id c) = Some c" and "is_due now c"
      using due_iff [OF assms(1), of c now] by (simp_all add: cs(1) c(1))
    have "c \<notin> set cs1" using cs(3) c(3) by fastforce
    then have "dict_get (triggers s') (tc_trigger_id c) = Some c"
      using advance_each_due_get [OF assms(1) cs(1), of "tc_trigger_id c"] get by (simp add: cs(2))
    with \<open>is_due now c\<close> have "c \<in> set (get_due_triggers now (triggers s'))"
      using advance_each_registry_ok [OF assms(1), of now cs1] by (simp add: due_iff cs(2))
    moreover have "find (\<lambda>c. \<exists>e. next_fire c now = Inl e) (cs1 @ cs2) = Some c"
      using c(3) by (simp add: find_after [OF none] c(1)) 
    ultimately show ?thesis using c by (simp add: cs(1))
  qed
qed

lemma tick_raises_on_bad_cron_witness:
  "\<exists>s'. scheduled_tick sorted_list_of_set lpush (\<lambda>_. []) (utc_dt 0) (sample_engine ''0 24 * * *'') =
       (Inl (CronRaised (CronValueError ''hour must be in 0..23'')), s')
     \<and> daily_trigger ''T1'' ''0 24 * * *'' \<in> set (get_due_triggers (utc_dt 0) (triggers s'))"
proof -
  obtain r s' where run: "scheduled_tick sorted_list_of_set lpush (\<lambda>_. []) (utc_dt 0)
      (sample_engine ''0 24 * * *'') = (r, s')" by fastforce
  have due: "get_due_triggers (utc_dt 0) (triggers (sample_engine ''0 24 * * *'')) =
      [daily_trigger ''T1'' ''0 24 * * *'']"
    by (simp add: sample_simps)
  have bad: "next_fire (daily_trigger ''T1'' ''0 24 * * *'') (utc_dt 0) =
      Inl (CronValueError ''hour must be in 0..23'')"
    by (simp add: next_fire_def daily_trigger_def sample_bad_cron)
  have "\<exists>q'. lpush TRIGGER_EVENTS ev q = (Inr (), q')" for ev q
    by (simp add: lpush_def)
  from tick_raises_on_bad_cron [OF sample_registry_ok this run]
  show ?thesis using run by (simp add: due bad)
qed

subsection \<open>Every run\<close>

text \<open>
  The life of an engine: configurations come and go, and any of its three sources of events
  runs, with any answer of the broker. A pass that raises is a step too: its effects stay.
\<close>

inductive engine_step ::
  "(string set \<Rightarrow> string list) \<Rightarrow> 'q publisher \<Rightarrow> 'q trigger_engine \<Rightarrow> 'q trigger_engine \<Rightarrow> bool"
  for as_list publish where
  on_register: "engine_step as_list publish s (s\<lparr>triggers := register c (triggers s)\<rparr>)"
| on_unregister: "engine_step as_list publish s (s\<lparr>triggers := unregister i (triggers s)\<rparr>)"
| on_tick: "scheduled_tick as_list publish uuid now s = (r, s') \<Longrightarrow> engine_step as_list publish s s'"
| on_demand: "fire_on_demand as_list publish u now user payload s = (r, s') \<Longrightarrow>
    engine_step as_list publish s s'"
| on_message: "consume_message as_list publish u now message s = (r, s') \<Longrightarrow>
    engine_step as_list publish s s'"

definition engine_ok :: "'q trigger_engine \<Rightarrow> bool" where
  "engine_ok s \<longleftrightarrow> bounded_keys (seen_keys s) \<and> registry_ok (triggers s)"

lemma dispatch_ok:
  assumes "enumerates as_list" "engine_ok s" "dispatch as_list publish ev s = (r, s')"
  shows "engine_ok s'"
  using dispatch_seen [of as_list publish ev s] dispatch_triggers [of as_list publish ev s]
    remember_bounded [OF assms(1)] assms(2,3) by (auto simp: engine_ok_def)

lemma fire_trigger_ok:
  assumes "enumerates as_list" "engine_ok s" "fire_trigger as_list publish uuid now p u s = (r, s')"
  shows "engine_ok s'"
proof -
  obtain i c where p: "p = (i, c)" by fastforce
  obtain r1 s1 where d: "dispatch as_list publish (scheduled_event (uuid i) now c) s = (r1, s1)"
    by fastforce
  have "engine_ok s1" by (rule dispatch_ok [OF assms(1,2) d])
  with assms(3) d show ?thesis
    by (auto simp: p fire_trigger_def bindS_unfold advance_op_def engine_ok_def
        split: sum.splits intro: advance_registry_ok)
qed

lemma engine_step_ok:
  assumes "enumerates as_list" "engine_step as_list publish s s'" "engine_ok s"
  shows "engine_ok s'"
  using assms(2)
proof cases
  case (on_tick uuid now r)
  have "engine_ok s \<longrightarrow> engine_ok s'"
    using on_tick [unfolded scheduled_tick_def]
    by (rule forS_rel [where R = "\<lambda>a b. engine_ok a \<longrightarrow> engine_ok b", rotated 3])
      (auto intro: fire_trigger_ok [OF assms(1)])
  with assms(3) show ?thesis by simp
next
  case (on_demand u now user payload r)
  then show ?thesis
    by (auto simp: fire_on_demand_def bindS_unfold Let_def split: prod.splits sum.splits
        dest: dispatch_ok [OF assms(1,3)])
next
  case (on_message u now message r)
  then show ?thesis by (auto simp: consume_message_def intro: dispatch_ok [OF assms(1,3)])
qed (use assms(3) in \<open>auto simp: engine_ok_def registry_ok_ops\<close>)

text \<open>
  In every run, whatever the broker answers and whichever passes raise, the memory of
  idempotency keys stays finite with at most 10000 keys, and every registered configuration
  is filed under its own id, once.
\<close>

theorem engine_memory_bounded:
  assumes "enumerates as_list" "(engine_step as_list publish)\<^sup>*\<^sup>* (new_engine b []) s"
  shows "finite (seen_keys s) \<and> card (seen_keys s) \<le> 10000 \<and> registry_ok (triggers s)"
proof -
  from assms(2) have "engine_ok s"
  proof induction
    case base
    then show ?case by (simp add: engine_ok_def bounded_keys_def new_engine_def registry_ok_ops)
  next
    case (step s1 s2)
    then show ?case using engine_step_ok [OF assms(1)] by blast
  qed
  then show ?thesis by (simp add: engine_ok_def bounded_keys_def SEEN_KEYS_MAX_def)
qed

lemma engine_memory_bounded_witness:
  "\<exists>s. (engine_step sorted_list_of_set lpush)\<^sup>*\<^sup>* (new_engine [] []) s \<and>
     seen_keys s \<noteq> {} \<and> card (seen_keys s) \<le> 10000"
proof -
  have en: "enumerates (sorted_list_of_set :: string set \<Rightarrow> string list)"
    by (simp add: enumerates_def)
  let ?s = "snd (scheduled_tick sorted_list_of_set lpush (\<lambda>_. []) (utc_dt 0) (sample_engine ''0 8 * * *''))"
  have "engine_step sorted_list_of_set lpush (new_engine [] []) (sample_engine ''0 8 * * *'')"
    using on_register [of sorted_list_of_set lpush "new_engine [] []" "daily_trigger ''T1'' ''0 8 * * *''"]
    by (simp add: sample_engine_def new_engine_def)
  moreover have "engine_step sorted_list_of_set lpush (sample_engine ''0 8 * * *'') ?s"
    by (rule on_tick) (rule prod.collapse [symmetric])
  ultimately have run: "(engine_step sorted_list_of_set lpush)\<^sup>*\<^sup>* (new_engine [] []) ?s"
    by (meson converse_rtranclp_into_rtranclp r_into_rtranclp)
  have "seen_keys ?s \<noteq> {}"
    using sample_cron by (simp add: sample_simps lpush_def scheduled_event_def Let_def SEEN_KEYS_MAX_def)
  with run engine_memory_bounded [OF en run] show ?thesis by blast
qed

subsection \<open>Follow-up timing\<close>

text \<open>
  The clamp of \<open>FollowUpCalculator.calculate\<close> never binds: for every priority and
  confidence the next follow-up is set exactly \<open>effective_interval_hours\<close> after now, a value
  between 6 and 72 hours, so within the declared bounds of 4 and 168 hours.
\<close>

theorem followup_interval_exact:
  "let ft = calculate_followup now p conf
   in ft_next_followup_at ft = Some (add_hours now (effective_interval_hours ft)) \<and>
      6 \<le> effective_interval_hours ft \<and> effective_interval_hours ft \<le> 72"
  by (cases conf)
    (simp_all add: calculate_followup_def effective_interval_hours_def BASE_INTERVAL_HOURS_def
      MIN_INTERVAL_HOURS_def MAX_INTERVAL_HOURS_def URGENCY_MAP_def dict_get_default_def
      dict_simps Let_def)

lemma followup_reliability_antimono:
  assumes "0 \<le> base" "0 \<le> cf" "rb \<le> 5" "r1 \<le> r2"
  shows "compute_followup_timing base cf r2 rb \<le> compute_followup_timing base cf r1 rb"
proof -
  have "1 / max r2 (1 / 10) \<le> 1 / max r1 (1 / 10 :: rat)"
    using assms(4) by (intro divide_left_mono mult_pos_pos) (auto simp: max_def)
  then show ?thesis
    using assms(1-3) unfolding compute_followup_timing_def
    by (intro mult_right_mono mult_left_mono) auto
qed

lemma followup_recency_antimono:
  assumes "0 \<le> base" "0 \<le> cf" "b1 \<le> b2"
  shows "compute_followup_timing base cf r b2 \<le> compute_followup_timing base cf r b1"
  using assms unfolding compute_followup_timing_def
  by (intro mult_left_mono mult_nonneg_nonneg) auto

end
