(* ===== verification/GC_Purge.thy ===== *)
theory GC_Purge
  imports GC_StoreLaws
begin

section \<open>The purge worker (\<open>workers/purge_worker.py\<close>, \<open>workers/heartbeat.py\<close>)\<close>

text \<open>
  One cycle of the worker that hard-deletes archived nodes. The store, the audit log and Redis
  are arguments: operations on a world of any type that may raise. A candidate is an object
  with the fields of \<open>BaseNode\<close> or a property dict, on which \<open>getattr\<close> finds no field.
\<close>

subsection \<open>Data and collaborators\<close>

datatype candidate = NodeObject BaseNode | NodeDict props

datatype purge_error = PurgeTypeError

record PurgeResult =
  run_at :: py_datetime
  candidates_found :: nat
  purged_count :: nat
  skipped_count :: nat
  failed_count :: nat
  errors :: "string list"

record 'w redis_client =
  redis_set_nx :: "string \<Rightarrow> ('w, string, bool) io"
  redis_set :: "string \<Rightarrow> ('w, string, unit) io"
  redis_delete :: "string \<Rightarrow> ('w, string, unit) io"

record 'w purge_worker =
  list_candidates :: "('w, string, candidate list) io"
  store_delete :: "string \<Rightarrow> ('w, string, unit) io"
  audit_record :: "string \<Rightarrow> string \<Rightarrow> ('w, string, unit) io"
  redis :: "'w redis_client option"
  audit_actor_id :: string
  str_of :: "candidate \<Rightarrow> string"

definition new_result :: "py_datetime \<Rightarrow> PurgeResult" where
  "new_result now = \<lparr>run_at = now, candidates_found = 0, purged_count = 0, skipped_count = 0,
     failed_count = 0, errors = []\<rparr>"

definition LOCK_KEY :: string where "LOCK_KEY = ''worker:lock:purge_worker''"

definition HEARTBEAT_KEY :: string where "HEARTBEAT_KEY = ''worker:heartbeat:purge_worker''"

subsection \<open>Eligibility\<close>

definition later_than :: "py_datetime \<Rightarrow> py_datetime \<Rightarrow> purge_error + bool" where
  "later_than a b = (if (dt_off a = None) = (dt_off b = None)
     then Inr (dt_instant a > dt_instant b) else Inl PurgeTypeError)"

fun is_eligible :: "candidate \<Rightarrow> py_datetime \<Rightarrow> purge_error + bool" where
  "is_eligible (NodeDict d) now = Inr False"
| "is_eligible (NodeObject n) now =
     (case purge_after n of None \<Rightarrow> Inr False
      | Some t \<Rightarrow> bindE (later_than t now) (\<lambda>l.
          if l then Inr False else if legal_hold n then Inr False
          else if purge_cancelled_at n \<noteq> None then Inr False else Inr True))"

fun cand_id :: "(candidate \<Rightarrow> string) \<Rightarrow> candidate \<Rightarrow> string" where
  "cand_id str (NodeObject n) = (if node_id n = [] then str (NodeObject n) else node_id n)"
| "cand_id str (NodeDict d) = str (NodeDict d)"

subsection \<open>One cycle\<close>

definition purge_node :: "'w purge_worker \<Rightarrow> string \<Rightarrow> ('w, string, unit) io" where
  "purge_node pw nid = bindS (store_delete pw nid) (\<lambda>_. audit_record pw (audit_actor_id pw) nid)"

definition purge_step :: "'w purge_worker \<Rightarrow> py_datetime \<Rightarrow> candidate \<Rightarrow> PurgeResult \<Rightarrow>
    ('w, purge_error, PurgeResult) io" where
  "purge_step pw now c result w = (case is_eligible c now of
     Inl e \<Rightarrow> (Inl e, w)
   | Inr False \<Rightarrow> (Inr (result\<lparr>skipped_count := skipped_count result + 1\<rparr>), w)
   | Inr True \<Rightarrow> (case purge_node pw (cand_id (str_of pw) c) w of
       (Inl e, w') \<Rightarrow> (Inr (result\<lparr>failed_count := failed_count result + 1,
          errors := errors result @ [cand_id (str_of pw) c @ '': '' @ e]\<rparr>), w')
     | (Inr u, w') \<Rightarrow> (Inr (result\<lparr>purged_count := purged_count result + 1\<rparr>), w')))"

definition do_purge :: "'w purge_worker \<Rightarrow> py_datetime \<Rightarrow> PurgeResult \<Rightarrow>
    ('w, purge_error, PurgeResult) io" where
  "do_purge pw now result w = (case list_candidates pw w of
     (Inl e, w1) \<Rightarrow> (Inr (result\<lparr>errors := errors result @ [''candidate query failed'']\<rparr>), w1)
   | (Inr cs, w1) \<Rightarrow> forS (purge_step pw now) cs (result\<lparr>candidates_found := length cs\<rparr>) w1)"

definition acquire_lock :: "'w purge_worker \<Rightarrow> 'w \<Rightarrow> bool \<times> 'w" where
  "acquire_lock pw w = (case redis pw of None \<Rightarrow> (True, w)
     | Some r \<Rightarrow> (case redis_set_nx r LOCK_KEY w of
         (Inl e, w') \<Rightarrow> (True, w') | (Inr b, w') \<Rightarrow> (b, w')))"

definition release_lock :: "'w purge_worker \<Rightarrow> 'w \<Rightarrow> 'w" where
  "release_lock pw w = (case redis pw of None \<Rightarrow> w | Some r \<Rightarrow> snd (redis_delete r LOCK_KEY w))"

definition beat :: "'w purge_worker \<Rightarrow> 'w \<Rightarrow> 'w" where
  "beat pw w = (case redis pw of None \<Rightarrow> w | Some r \<Rightarrow> snd (redis_set r HEARTBEAT_KEY w))"

definition run_once :: "'w purge_worker \<Rightarrow> py_datetime \<Rightarrow> py_datetime \<Rightarrow>
    ('w, purge_error, PurgeResult) io" where
  "run_once pw now now' w = (case acquire_lock pw w of
     (False, w1) \<Rightarrow> (Inr (new_result now), w1)
   | (True, w1) \<Rightarrow> (case do_purge pw now' (new_result now) (beat pw w1) of
       (Inl e, w2) \<Rightarrow> (Inl e, release_lock pw w2)
     | (Inr res, w2) \<Rightarrow> (Inr res, release_lock pw (beat pw w2))))"

text \<open>
  The candidates of \<open>AgeGraphStore\<close>: \<open>list_nodes(label=None, ...)\<close>. Past the caller context,
  \<open>_KEY_RE.match(None)\<close> raises \<open>TypeError\<close> before any query is sent.
\<close>

definition list_nodes_label ::
  "'g database \<Rightarrow> store_cfg \<Rightarrow> string option \<Rightarrow> props \<Rightarrow> CallerContext option \<Rightarrow> ('g, props list) op" where
  "list_nodes_label exec cfg label filters ctx = (case label of
     Some l \<Rightarrow> list_nodes exec cfg l filters ctx
   | None \<Rightarrow> bindS (liftS (require_caller_context cfg ctx)) (\<lambda>_. raiseS PyTypeError))"

definition purge_filters :: "pval \<Rightarrow> props" where
  "purge_filters now = [(''archived_at__not_null'', PBool True), (''purge_after__lte'', now),
     (''legal_hold'', PBool False), (''purge_cancelled_at__null'', PBool True)]"

definition age_candidates ::
  "(py_error \<Rightarrow> string) \<Rightarrow> 'g database \<Rightarrow> store_cfg \<Rightarrow> pval \<Rightarrow> ('g session, string, candidate list) io" where
  "age_candidates exc_text exec cfg now s =
     (case list_nodes_label exec cfg None (purge_filters now) None s of
        (Inl e, s') \<Rightarrow> (Inl (exc_text e), s')
      | (Inr ds, s') \<Rightarrow> (Inr (map NodeDict ds), s'))"

subsection \<open>What a cycle does\<close>

fun eligible :: "py_datetime \<Rightarrow> candidate \<Rightarrow> bool" where
  "eligible now (NodeDict d) = False"
| "eligible now (NodeObject n) \<longleftrightarrow>
     (case purge_after n of None \<Rightarrow> False | Some t \<Rightarrow> dt_instant t \<le> dt_instant now) \<and>
     \<not> legal_hold n \<and> purge_cancelled_at n = None"

text \<open>Deadlines that Python can compare with the aware time of the run.\<close>

fun comparable :: "candidate \<Rightarrow> bool" where
  "comparable (NodeDict d) = True"
| "comparable (NodeObject n) = (\<forall>t. purge_after n = Some t \<longrightarrow> dt_off t \<noteq> None)"

lemma is_eligible_eq:
  "comparable c \<Longrightarrow> dt_off now \<noteq> None \<Longrightarrow> is_eligible c now = Inr (eligible now c)"
  by (cases c) (auto simp: later_than_def split: option.splits)

definition purge_each :: "'w purge_worker \<Rightarrow> candidate list \<Rightarrow> 'w \<Rightarrow> 'w" where
  "purge_each pw cs w = fold (\<lambda>c w. snd (purge_node pw (cand_id (str_of pw) c) w)) cs w"

lemma purge_loop:
  assumes "\<forall>c \<in> set cs. comparable c" "dt_off now \<noteq> None"
  shows "\<exists>res. forS (purge_step pw now) cs result w = (Inr res, purge_each pw (filter (eligible now) cs) w) \<and>
     candidates_found res = candidates_found result \<and>
     skipped_count res = skipped_count result + length (filter (\<lambda>c. \<not> eligible now c) cs) \<and>
     purged_count res + failed_count res =
       purged_count result + failed_count result + length (filter (eligible now) cs) \<and>
     length (errors res) + failed_count result = length (errors result) + failed_count res"
  using assms
proof (induction cs arbitrary: result w)
  case Nil
  then show ?case by (simp add: purge_each_def)
next
  case (Cons c cs)
  have el: "is_eligible c now = Inr (eligible now c)"
    using Cons.prems by (simp add: is_eligible_eq)
  obtain r w' where p: "purge_node pw (cand_id (str_of pw) c) w = (r, w')" by fastforce
  obtain res1 w1 where step: "purge_step pw now c result w = (Inr res1, w1)"
    by (cases r; cases "eligible now c") (auto simp: purge_step_def el p)
  have "w1 = (if eligible now c then w' else w)"
    "candidates_found res1 = candidates_found result"
    "skipped_count res1 = skipped_count result + (if eligible now c then 0 else 1)"
    "purged_count res1 + failed_count res1 =
       purged_count result + failed_count result + (if eligible now c then 1 else 0)"
    "length (errors res1) + failed_count result = length (errors result) + failed_count res1"
    using step by (auto simp: purge_step_def el p split: bool.splits sum.splits if_splits)
  then show ?case
    using Cons.IH [of res1 w1] Cons.prems step
    by (auto simp: bindS_unfold purge_each_def p)
qed


text \<open>A worker whose world is the list of deleted ids and the list of audited ids.\<close>

definition sample_node :: "string \<Rightarrow> bool \<Rightarrow> int \<Rightarrow> candidate" where
  "sample_node i hold t = NodeObject \<lparr>node_id = i, created_at = utc_dt 0, updated_at = utc_dt 0,
     version = 1, archived_at = Some (utc_dt 0), archived_by = None, archive_reason = None,
     purge_after = Some (utc_dt t), purge_cancelled_at = None, legal_hold = hold,
     hold_reason = None, hold_set_by = None, hold_set_at = None, link_status = None\<rparr>"

definition sample_worker :: "(string list \<times> string list) purge_worker" where
  "sample_worker = \<lparr>list_candidates = (\<lambda>w. (Inr [sample_node ''a'' False 5, sample_node ''b'' True 5,
       sample_node ''c'' False 20], w)),
     store_delete = (\<lambda>i (d, a). (Inr (), d @ [i], a)),
     audit_record = (\<lambda>who i (d, a). (Inr (), d, a @ [i])),
     redis = None, audit_actor_id = ''system:purge_worker'', str_of = (\<lambda>c. ''node'')\<rparr>"


text \<open>
  Over the graph store of this program the worker deletes nothing. Its query passes no
  label, which the store rejects with \<open>TypeError\<close> before any statement is sent, so every cycle
  ends with \<open>candidate query failed\<close> and the graph as it was; and were rows returned, they are
  property dicts, of which none is eligible: all are skipped.
\<close>

theorem purge_never_deletes_from_age:
  "do_purge (pw\<lparr>list_candidates := age_candidates exc_text exec cfg p\<rparr>) now (new_result t) s =
     (Inr ((new_result t)\<lparr>errors := [''candidate query failed'']\<rparr>), s) \<and>
   do_purge (pw'\<lparr>list_candidates := \<lambda>w. (Inr (map NodeDict ds), w)\<rparr>) now (new_result t) w =
     (Inr ((new_result t)\<lparr>candidates_found := length ds, skipped_count := length ds\<rparr>), w)"
proof -
  have skip: "forS (purge_step qw now) (map NodeDict ds) res w =
      (Inr (res\<lparr>skipped_count := skipped_count res + length ds\<rparr>), w)" for qw :: "'c purge_worker" and res w
    by (induction ds arbitrary: res) (simp_all add: bindS_unfold purge_step_def)
  show ?thesis
    by (simp add: do_purge_def age_candidates_def list_nodes_label_def bindS_unfold
        require_caller_context_def new_result_def skip)
qed

end
