(* ===== verification/GC_Dispatch.thy ===== *)
theory GC_Dispatch
  imports GC_Store
begin

section \<open>Dispatch planning (\<open>agent/dispatch_planner.py\<close>)\<close>

text \<open>
  The planner sorts the jobs of one round into tiers that may run in parallel. The query engine
  is the argument \<open>qe\<close> (for one task its outgoing DEPENDS_ON rows, or an exception),
  \<open>as_list\<close> the order in which Python lists a set.
\<close>

subsection \<open>Jobs\<close>

record AgentJobEvent =
  job_agent_id :: string
  job_task_id :: string
  job_session_id :: string
  job_user_id :: string
  job_agent_source :: string
  job_parent_task_id :: "string option"
  job_batch_id :: string
  job_instructions :: string
  job_dispatched_at :: py_datetime

definition assign_batch_id :: "AgentJobEvent list \<Rightarrow> string \<Rightarrow> AgentJobEvent list" where
  "assign_batch_id jobs b = map (\<lambda>j. j\<lparr>job_batch_id := b\<rparr>) jobs"

definition tier_batch_id :: "string \<Rightarrow> nat \<Rightarrow> string" where
  "tier_batch_id session i = ''batch-'' @ take 8 session @ ''-t'' @ dec_string i"

subsection \<open>Reading the dependencies\<close>

type_synonym 'e edge_query = "string \<Rightarrow> 'e + props list"

text \<open>\<open>edge.get("target_id") or edge.get("to_id") or edge.get("end_id")\<close>\<close>

definition edge_target :: "props \<Rightarrow> pval option" where
  "edge_target edge =
     (if get_truthy edge ''target_id'' then dict_get edge ''target_id''
      else if get_truthy edge ''to_id'' then dict_get edge ''to_id''
      else dict_get edge ''end_id'')"

definition dependency_target :: "string set \<Rightarrow> props \<Rightarrow> string option" where
  "dependency_target task_ids edge = (case edge_target edge of
     Some (PStr target) \<Rightarrow> if target \<noteq> [] \<and> target \<in> task_ids then Some target else None
   | _ \<Rightarrow> None)"

definition edges_of :: "string set \<Rightarrow> string \<Rightarrow> props list \<Rightarrow> (string \<times> string) list" where
  "edges_of task_ids t rows = map (Pair t) (List.map_filter (dependency_target task_ids) rows)"

text \<open>The loop stands in a \<open>try\<close>: an exception ends it, and what was found before is kept.\<close>

fun fetch_loop ::
  "'e edge_query \<Rightarrow> string set \<Rightarrow> string list \<Rightarrow> (string \<times> string) list" where
  "fetch_loop qe task_ids [] = []"
| "fetch_loop qe task_ids (t # ts) = (case qe t of
     Inl e \<Rightarrow> []
   | Inr rows \<Rightarrow> edges_of task_ids t rows @ fetch_loop qe task_ids ts)"

definition fetch_dependency_edges ::
  "(string set \<Rightarrow> string list) \<Rightarrow> 'e edge_query \<Rightarrow> string set \<Rightarrow> (string \<times> string) list" where
  "fetch_dependency_edges as_list qe task_ids = fetch_loop qe task_ids (as_list task_ids)"

subsection \<open>Kahn's algorithm\<close>

type_synonym degrees = "string \<Rightarrow> int"

definition in_degree :: "(string \<times> string) list \<Rightarrow> degrees" where
  "in_degree edges = foldl (\<lambda>d (from_id, to_id). d(from_id := d from_id + 1)) (\<lambda>_. 0) edges"

definition dependents_of :: "(string \<times> string) list \<Rightarrow> string \<Rightarrow> string list" where
  "dependents_of edges node = map fst (filter (\<lambda>(from_id, to_id). to_id = node) edges)"

definition release :: "degrees \<times> string list \<Rightarrow> string \<Rightarrow> degrees \<times> string list" where
  "release s dep = (let (d, queue) = s; d' = d(dep := d dep - 1)
     in (d', if d' dep = 0 then queue @ [dep] else queue))"

definition next_tier ::
  "(string \<times> string) list \<Rightarrow> string list \<Rightarrow> degrees \<Rightarrow> degrees \<times> string list" where
  "next_tier edges tier d = foldl (\<lambda>s node. foldl release s (dependents_of edges node)) (d, []) tier"

definition open_degree :: "(string \<times> string) list \<Rightarrow> degrees \<Rightarrow> nat" where
  "open_degree edges d = (\<Sum>t \<in> fst ` set edges. nat (d t))"

lemma next_tier_concat:
  "next_tier edges tier d = foldl release (d, []) (concat (map (dependents_of edges) tier))"
proof -
  have "foldl (\<lambda>s node. foldl release s (dependents_of edges node)) s tier =
      foldl release s (concat (map (dependents_of edges) tier))" for s
    by (induction tier arbitrary: s) simp_all
  then show ?thesis by (simp add: next_tier_def)
qed

lemma open_degree_upd:
  "t \<in> fst ` set edges \<Longrightarrow>
     open_degree edges (d(t := x)) + nat (d t) = open_degree edges d + nat x"
  unfolding open_degree_def by (subst (1 2) sum.remove [where x = t]) (auto intro!: sum.cong)

lemma release_pair:
  "release (d, q) t = (d(t := d t - 1), if d t = 1 then q @ [t] else q)"
  by (simp add: release_def Let_def)

text \<open>Every node that enters the queue costs one open degree.\<close>

lemma release_open_degree:
  assumes "set ds \<subseteq> fst ` set edges" "foldl release (d, q) ds = (d', q')"
  shows "open_degree edges d' + length q' \<le> open_degree edges d + length q"
  using assms
proof (induction ds arbitrary: d q)
  case Nil
  then show ?case by simp
next
  case (Cons t ds)
  let ?d = "d(t := d t - 1)" and ?q = "if d t = 1 then q @ [t] else q"
  have "open_degree edges d' + length q' \<le> open_degree edges ?d + length ?q"
    using Cons.prems by (intro Cons.IH) (simp_all only: release_pair foldl.simps list.set insert_subset)
  moreover have "open_degree edges ?d + length ?q \<le> open_degree edges d + length q"
    using open_degree_upd [of t edges d "d t - 1"] Cons.prems(1) by auto
  ultimately show ?case by simp
qed

lemma dependents_of_subset: "set (dependents_of edges n) \<subseteq> fst ` set edges"
  by (auto simp: dependents_of_def)

function kahn ::
  "(string \<times> string) list \<Rightarrow> string list \<Rightarrow> degrees \<Rightarrow> string list list \<times> degrees" where
  "kahn edges queue d =
     (if queue = [] then ([], d)
      else let tier = queue; (d', queue') = next_tier edges tier d;
               (tiers, d'') = kahn edges queue' d'
           in (tier # tiers, d''))"
  by pat_completeness auto

termination
proof (relation "measure (\<lambda>(edges, queue, d). open_degree edges d + (if queue = [] then 0 else 1))")
  fix edges queue tier x d' queue' and d :: degrees
  assume q: "queue \<noteq> []" "tier = queue" "x = next_tier edges tier d" "(d', queue') = x"
  have "open_degree edges d' + length queue' \<le> open_degree edges d + length ([] :: string list)"
  proof (rule release_open_degree)
    show "foldl release (d, []) (concat (map (dependents_of edges) tier)) = (d', queue')"
      using q by (simp flip: next_tier_concat)
  qed (auto dest: subsetD [OF dependents_of_subset])
  then show "((edges, queue', d'), edges, queue, d)
      \<in> measure (\<lambda>(edges, queue, d). open_degree edges d + (if queue = [] then 0 else 1))"
    using q(1) by (cases queue') auto
qed simp

declare kahn.simps [simp del]

text \<open>\<open>in_degree[from_id] += 1\<close> raises \<open>KeyError\<close> when an edge starts outside of \<open>task_ids\<close>.\<close>

datatype planner_error = PlannerKeyError string

definition topological_sort ::
  "string list \<Rightarrow> (string \<times> string) list \<Rightarrow> planner_error + string list list" where
  "topological_sort task_ids edges = (case find (\<lambda>e. fst e \<notin> set task_ids) edges of
     Some e \<Rightarrow> Inl (PlannerKeyError (fst e))
   | None \<Rightarrow>
       let d = in_degree edges; queue = filter (\<lambda>t. d t = 0) task_ids;
           (tiers, d') = kahn edges queue d; remaining = filter (\<lambda>t. d' t > 0) task_ids
       in Inr (if remaining \<noteq> [] then tiers @ [remaining] else tiers))"

subsection \<open>The plan\<close>

definition job_index :: "AgentJobEvent list \<Rightarrow> AgentJobEvent pydict" where
  "job_index jobs = foldl (\<lambda>d j. dict_set (job_task_id j) j d) [] jobs"

definition plan_tiers ::
  "string \<Rightarrow> AgentJobEvent pydict \<Rightarrow> string list list \<Rightarrow> AgentJobEvent list list" where
  "plan_tiers session idx tiers = filter (\<lambda>js. js \<noteq> []) (map (\<lambda>(i, tier).
     assign_batch_id (List.map_filter (dict_get idx) tier) (tier_batch_id session i)) (enumerate 0 tiers))"

definition plan :: "(string set \<Rightarrow> string list) \<Rightarrow> 'e edge_query \<Rightarrow> AgentJobEvent list \<Rightarrow> string \<Rightarrow>
    planner_error + AgentJobEvent list list" where
  "plan as_list qe jobs session =
     (if length jobs \<le> 1 then Inr [assign_batch_id jobs (tier_batch_id session 0)]
      else let task_ids = set (map job_task_id jobs);
               edges = fetch_dependency_edges as_list qe task_ids
           in if edges = [] then Inr [assign_batch_id jobs (tier_batch_id session 0)]
              else bindE (topological_sort (as_list task_ids) edges) (\<lambda>tiers.
                let result = plan_tiers session (job_index jobs) tiers
                in Inr (if result \<noteq> [] then result
                        else [assign_batch_id jobs (tier_batch_id session 0)])))"

subsection \<open>The invariant of the sort\<close>

text \<open>How many dependencies of \<open>t\<close> are not in \<open>P\<close>, the tasks already placed.\<close>

definition waiting :: "(string \<times> string) list \<Rightarrow> string set \<Rightarrow> string \<Rightarrow> nat" where
  "waiting edges P t = length (filter (\<lambda>e. fst e = t \<and> snd e \<notin> P) edges)"

lemma waiting_zero_iff: "waiting edges P t = 0 \<longleftrightarrow> (\<forall>b. (t, b) \<in> set edges \<longrightarrow> b \<in> P)"
  by (auto simp: waiting_def filter_empty_conv)

lemma in_degree_eq: "in_degree edges t = int (waiting edges {} t)"
proof -
  have "foldl (\<lambda>d (a, b). d(a := d a + 1)) d es t = d t + int (waiting es {} t)" for d :: degrees and es
    by (induction es arbitrary: d) (auto simp: waiting_def split: prod.splits)
  then show ?thesis by (simp add: in_degree_def)
qed

lemma count_dependents:
  "distinct tier \<Longrightarrow> count_list (concat (map (dependents_of edges) tier)) t =
     length (filter (\<lambda>e. fst e = t \<and> snd e \<in> set tier) edges)"
proof (induction tier)
  case Nil
  then show ?case by simp
next
  case (Cons n tier)
  have one: "count_list (dependents_of edges n) t = length (filter (\<lambda>e. fst e = t \<and> snd e = n) edges)"
    unfolding dependents_of_def by (induction edges) auto
  have "length (filter (\<lambda>e. fst e = t \<and> snd e \<in> set (n # tier)) edges) =
      length (filter (\<lambda>e. fst e = t \<and> snd e = n) edges) +
      length (filter (\<lambda>e. fst e = t \<and> snd e \<in> set tier) edges)"
    using Cons.prems by (induction edges) auto
  with one Cons show ?case by simp
qed

lemma waiting_split:
  assumes "P \<inter> Q = {}"
  shows "waiting edges P t = waiting edges (P \<union> Q) t
    + length (filter (\<lambda>e. fst e = t \<and> snd e \<in> Q) edges)"
  using assms unfolding waiting_def by (induction edges) auto

text \<open>Releasing a list lowers every counter by its number of occurrences; what reaches zero is
queued, once.\<close>

lemma release_fold:
  assumes "\<And>t. int (count_list ds t) \<le> d t" "foldl release (d, q) ds = (d', q')"
  shows "(\<forall>t. d' t = d t - int (count_list ds t)) \<and>
    (\<exists>new. q' = q @ new \<and> distinct new \<and> set new = {t \<in> set ds. d t = int (count_list ds t)})"
  using assms
proof (induction ds arbitrary: d q)
  case Nil
  then show ?case by simp
next
  case (Cons t ds)
  let ?d = "d(t := d t - 1)" and ?q = "if d t = 1 then q @ [t] else q"
  have step: "foldl release (?d, ?q) ds = (d', q')"
    using Cons.prems(2) by (simp only: foldl.simps release_pair)
  have le: "int (count_list ds u) \<le> ?d u" for u
    using Cons.prems(1) [of u] by (auto split: if_splits)
  from Cons.IH [OF le step] obtain new where
    d': "\<forall>u. d' u = ?d u - int (count_list ds u)" and
    q': "q' = ?q @ new" "distinct new" "set new = {u \<in> set ds. ?d u = int (count_list ds u)}"
    by blast
  have last: "d t = 1 \<Longrightarrow> t \<notin> set ds"
    using le [of t] by (auto simp: count_list_0_iff [symmetric])
  have "q' = q @ (if d t = 1 then t # new else new)" using q'(1) by simp
  moreover have "distinct (if d t = 1 then t # new else new)"
    using q'(2,3) last by auto
  moreover have "u \<in> set (if d t = 1 then t # new else new) \<longleftrightarrow>
      u \<in> set (t # ds) \<and> d u = int (count_list (t # ds) u)" for u
  proof (cases "u = t")
    case True
    have new: "t \<in> set new \<longleftrightarrow> t \<in> set ds \<and> d t - 1 = int (count_list ds t)" using q'(3) by simp
    have zero: "t \<notin> set ds \<Longrightarrow> count_list ds t = 0" by simp
    show ?thesis unfolding True using new zero last by (cases "d t = 1") auto
  next
    case False
    then show ?thesis using q'(3) by auto
  qed
  then have "set (if d t = 1 then t # new else new)
      = {u \<in> set (t # ds). d u = int (count_list (t # ds) u)}" by blast
  ultimately have "\<exists>new. q' = q @ new \<and> distinct new \<and>
      set new = {u \<in> set (t # ds). d u = int (count_list (t # ds) u)}" by blast
  moreover have "\<forall>u. d' u = d u - int (count_list (t # ds) u)" using d' by simp
  ultimately show ?case by blast
qed

text \<open>
  Between two tiers: \<open>P\<close> is placed, \<open>queue\<close> holds exactly the tasks whose dependencies are all
  placed and that are not placed themselves, and the counters say how many are missing.
\<close>

definition sort_inv ::
  "string set \<Rightarrow> (string \<times> string) list \<Rightarrow> string list \<Rightarrow> string list \<Rightarrow> degrees \<Rightarrow> bool" where
  "sort_inv ids edges P queue d \<longleftrightarrow> distinct (P @ queue) \<and>
     (\<forall>t. d t = int (waiting edges (set P) t)) \<and> set (P @ queue) = {t \<in> ids. d t = 0}"

lemma sort_inv_start:
  assumes "distinct task_ids"
  shows "sort_inv (set task_ids) edges [] (filter (\<lambda>t. in_degree edges t = 0) task_ids) (in_degree edges)"
  using assms by (auto simp: sort_inv_def in_degree_eq)

lemma sort_inv_step:
  assumes "sort_inv ids edges P queue d" "fst ` set edges \<subseteq> ids" "next_tier edges queue d = (d', queue')"
  shows "sort_inv ids edges (P @ queue) queue' d'"
    and "\<forall>t \<in> set queue'. \<exists>b \<in> set queue. (t, b) \<in> set edges"
proof -
  let ?ds = "concat (map (dependents_of edges) queue)"
  have inv: "distinct (P @ queue)" "\<And>t. d t = int (waiting edges (set P) t)"
    "set (P @ queue) = {t \<in> ids. d t = 0}"
    using assms(1) by (simp_all add: sort_inv_def)
  have dis: "set P \<inter> set queue = {}" "distinct queue" using inv(1) by auto
  have split: "d t = int (waiting edges (set (P @ queue)) t) + int (count_list ?ds t)" for t
    using waiting_split [OF dis(1), of edges t] by (simp add: inv(2) count_dependents [OF dis(2)])
  then have "int (count_list ?ds t) \<le> d t" for t by simp
  moreover have "foldl release (d, []) ?ds = (d', queue')"
    using assms(3) by (simp only: next_tier_concat)
  ultimately obtain new where
    d': "\<And>t. d' t = d t - int (count_list ?ds t)" and
    q': "queue' = new" "distinct new" "set new = {t \<in> set ?ds. d t = int (count_list ?ds t)}"
    using release_fold [of ?ds d "[]" d' queue'] unfolding append_Nil by blast
  have w: "d' t = int (waiting edges (set (P @ queue)) t)" for t
    using split [of t] d' [of t] by simp
  have pos: "t \<in> set ?ds \<longleftrightarrow> d t \<noteq> d' t" for t
    using d' [of t] by (simp add: count_list_0_iff)
  have new: "set queue' = {t. d t \<noteq> 0 \<and> d' t = 0}"
    using q'(1,3) d' pos by (auto simp: w)
  have ids: "set queue' \<subseteq> ids"
  proof
    fix t assume "t \<in> set queue'"
    then have "t \<in> set ?ds" using q' by simp
    then show "t \<in> ids" using dependents_of_subset [of edges] assms(2) by auto
  qed
  have "d' t = 0" if "d t = 0" for t using split [of t] that w [of t] by simp
  with new ids inv(3) have "set ((P @ queue) @ queue') = {t \<in> ids. d' t = 0}"
    by auto
  moreover have "distinct ((P @ queue) @ queue')"
    using inv(1,3) q'(1,2) new by auto
  ultimately show "sort_inv ids edges (P @ queue) queue' d'"
    using w by (simp add: sort_inv_def)
  show "\<forall>t \<in> set queue'. \<exists>b \<in> set queue. (t, b) \<in> set edges"
    using q'(1,3) by (auto simp: dependents_of_def)
qed

subsection \<open>The tiers\<close>

text \<open>Every task comes after all its dependencies, as early as they allow.\<close>

definition tiers_ok :: "string set \<Rightarrow> (string \<times> string) list \<Rightarrow> string list list \<Rightarrow> bool" where
  "tiers_ok P edges tiers \<longleftrightarrow> (\<forall>i < length tiers. tiers ! i \<noteq> [] \<and>
     (\<forall>a \<in> set (tiers ! i). \<forall>b. (a, b) \<in> set edges \<longrightarrow> b \<in> P \<union> set (concat (take i tiers))) \<and>
     (\<forall>a \<in> set (tiers ! i). 0 < i \<longrightarrow> (\<exists>b \<in> set (tiers ! (i - 1)). (a, b) \<in> set edges)))"

lemma tiers_ok_Nil [simp]: "tiers_ok P edges []"
  by (simp add: tiers_ok_def)

lemma tiers_ok_Cons:
  assumes "tier \<noteq> []" "\<forall>a \<in> set tier. \<forall>b. (a, b) \<in> set edges \<longrightarrow> b \<in> P"
    and "tiers_ok (P \<union> set tier) edges tiers"
    and "tiers \<noteq> [] \<Longrightarrow> \<forall>a \<in> set (hd tiers). \<exists>b \<in> set tier. (a, b) \<in> set edges"
  shows "tiers_ok P edges (tier # tiers)"
  unfolding tiers_ok_def
proof (intro allI impI)
  fix i assume i: "i < length (tier # tiers)"
  show "(tier # tiers) ! i \<noteq> [] \<and>
     (\<forall>a \<in> set ((tier # tiers) ! i). \<forall>b. (a, b) \<in> set edges \<longrightarrow>
        b \<in> P \<union> set (concat (take i (tier # tiers)))) \<and>
     (\<forall>a \<in> set ((tier # tiers) ! i). 0 < i \<longrightarrow>
        (\<exists>b \<in> set ((tier # tiers) ! (i - 1)). (a, b) \<in> set edges))"
  proof (cases i)
    case 0
    then show ?thesis using assms(1,2) by simp
  next
    case (Suc j)
    then have j: "j < length tiers" using i by simp
    have first: "j = 0 \<Longrightarrow> \<forall>a \<in> set (tiers ! j). \<exists>b \<in> set tier. (a, b) \<in> set edges"
      using assms(4) j by (cases tiers) auto
    from assms(3) j have ok: "tiers ! j \<noteq> []"
      "\<forall>a \<in> set (tiers ! j). \<forall>b. (a, b) \<in> set edges \<longrightarrow> b \<in> P \<union> set tier \<union> set (concat (take j tiers))"
      "\<forall>a \<in> set (tiers ! j). 0 < j \<longrightarrow> (\<exists>b \<in> set (tiers ! (j - 1)). (a, b) \<in> set edges)"
      by (simp_all add: tiers_ok_def)
    have "\<forall>a \<in> set (tiers ! j). \<exists>b \<in> set ((tier # tiers) ! j). (a, b) \<in> set edges"
      using first ok(3) by (cases j) auto
    with ok(1,2) Suc show ?thesis by auto
  qed
qed

lemma kahn_ok:
  assumes "sort_inv ids edges P queue d" "fst ` set edges \<subseteq> ids" "kahn edges queue d = (tiers, d')"
  shows "sort_inv ids edges (P @ concat tiers) [] d' \<and> tiers_ok (set P) edges tiers \<and>
    (tiers \<noteq> [] \<longrightarrow> hd tiers = queue)"
  using assms
proof (induction edges queue d arbitrary: P tiers d' rule: kahn.induct)
  case (1 edges queue d)
  show ?case
  proof (cases "queue = []")
    case True
    then show ?thesis using 1 by (simp add: kahn.simps)
  next
    case False
    obtain d1 queue1 where n: "next_tier edges queue d = (d1, queue1)" by fastforce
    obtain tiers1 where k: "kahn edges queue1 d1 = (tiers1, d')" "tiers = queue # tiers1"
      using "1.prems"(3) False by (auto simp: kahn.simps [of edges queue d] n split: prod.splits)
    note step = sort_inv_step [OF "1.prems"(1,2) n]
    have IH: "sort_inv ids edges ((P @ queue) @ concat tiers1) [] d'"
      "tiers_ok (set (P @ queue)) edges tiers1" "tiers1 \<noteq> [] \<longrightarrow> hd tiers1 = queue1"
      using "1.IH" [OF False refl n [symmetric] refl step(1) "1.prems"(2) k(1)] by simp_all
    have "\<forall>a \<in> set queue. \<forall>b. (a, b) \<in> set edges \<longrightarrow> b \<in> set P"
    proof (intro ballI)
      fix a assume "a \<in> set queue"
      then have "d a = 0" using "1.prems"(1) by (auto simp: sort_inv_def)
      then show "\<forall>b. (a, b) \<in> set edges \<longrightarrow> b \<in> set P"
        using "1.prems"(1) by (simp add: sort_inv_def waiting_zero_iff)
    qed
    then have "tiers_ok (set P) edges (queue # tiers1)"
      using IH(2,3) False step(2) by (intro tiers_ok_Cons) simp_all
    then show ?thesis using IH(1) k(2) by simp
  qed
qed

lemma open_tasks_cyclic:
  assumes "finite R" "R \<noteq> {}" "\<forall>a \<in> R. \<exists>b \<in> R. (a, b) \<in> E"
  shows "\<not> acyclic E"
proof
  assume "acyclic E"
  have "acyclic (E \<inter> R \<times> R)" using \<open>acyclic E\<close> by (rule acyclic_subset) simp
  then have "wf ((E \<inter> R \<times> R)\<inverse>)" using assms(1) by (intro finite_acyclic_wf_converse) auto
  from wfE_min' [OF this assms(2)] obtain a where "a \<in> R" "\<And>b. (b, a) \<in> (E \<inter> R \<times> R)\<inverse> \<Longrightarrow> b \<notin> R"
    by blast
  then show False using assms(3) by blast
qed

text \<open>
  For distinct tasks and dependencies among them the sort returns tiers that
  hold every task exactly once. Without a cycle no tier is empty, every task stands in a later
  tier than all its dependencies, and one with a number above 0 has a dependency in the tier
  just before, so no task could run earlier.
\<close>

lemma topological_sort_ok:
  assumes "distinct task_ids" "set edges \<subseteq> set task_ids \<times> set task_ids"
  shows "\<exists>tiers. topological_sort task_ids edges = Inr tiers \<and> mset (concat tiers) = mset task_ids \<and>
     [] \<notin> set tiers \<and> (acyclic (set edges) \<longrightarrow> tiers_ok {} edges tiers)"
proof -
  let ?ids = "set task_ids" and ?q = "filter (\<lambda>t. in_degree edges t = 0) task_ids"
  obtain ts d where k: "kahn edges ?q (in_degree edges) = (ts, d)" by fastforce
  have sub: "fst ` set edges \<subseteq> ?ids" using assms(2) by auto
  have inv: "sort_inv ?ids edges (concat ts) [] d" and ok: "tiers_ok {} edges ts"
    using kahn_ok [OF sort_inv_start [OF assms(1)] sub k] by simp_all
  let ?rest = "filter (\<lambda>t. d t > 0) task_ids"
  have placed: "distinct (concat ts)" "set (concat ts) = {t \<in> ?ids. d t = 0}"
    and d: "\<And>t. d t = int (waiting edges (set (concat ts)) t)"
    using inv unfolding sort_inv_def append_Nil2 by blast+
  have nn: "0 \<le> d t" for t using d [of t] by simp
  have "find (\<lambda>e. fst e \<notin> ?ids) edges = None"
    using sub by (auto simp: find_None_iff)
  then have res: "topological_sort task_ids edges = Inr (if ?rest \<noteq> [] then ts @ [?rest] else ts)"
    by (simp add: topological_sort_def k)
  have "set (concat ts) \<union> set ?rest = ?ids" "set (concat ts) \<inter> set ?rest = {}"
    unfolding placed(2) using nn by (auto simp: less_le) 
  then have "mset (concat ts @ ?rest) = mset task_ids"
    using placed(1) assms(1) by (intro set_eq_iff_mset_eq_distinct [THEN iffD1]) auto
  moreover have "[] \<notin> set ts"
    using ok by (auto simp: tiers_ok_def in_set_conv_nth)
  moreover have "?rest = []" if "acyclic (set edges)"
  proof (rule ccontr)
    assume "?rest \<noteq> []"
    have "\<exists>b \<in> set ?rest. (a, b) \<in> set edges" if "a \<in> set ?rest" for a
    proof -
      from that have "waiting edges (set (concat ts)) a \<noteq> 0" using d [of a] by simp
      then obtain b where b: "(a, b) \<in> set edges" "b \<notin> set (concat ts)"
        by (auto simp: waiting_zero_iff simp del: set_concat)
      then have "b \<in> ?ids" using assms(2) by auto
      with b(2) have "b \<in> set ?rest" unfolding placed(2) using nn [of b] by simp
      with b(1) show ?thesis by blast
    qed
    then show False
      using open_tasks_cyclic [OF finite_set, of ?rest "set edges"] \<open>?rest \<noteq> []\<close> that
      unfolding set_empty by blast
  qed
  ultimately show ?thesis
    using res ok by (cases "?rest = []") (auto simp del: mset_concat)
qed

subsection \<open>The plan\<close>

lemma dependency_target_iff:
  "dependency_target ids edge = Some b \<longleftrightarrow> b \<in> ids \<and> b \<noteq> [] \<and> edge_target edge = Some (PStr b)"
  by (cases "edge_target edge") (auto simp: dependency_target_def split: pval.splits)

lemma edges_of_mem:
  "(a, b) \<in> set (edges_of ids t rows) \<longleftrightarrow>
     a = t \<and> b \<in> ids \<and> b \<noteq> [] \<and> (\<exists>edge \<in> set rows. edge_target edge = Some (PStr b))"
  by (auto simp: edges_of_def map_filter_mem dependency_target_iff image_iff)

lemma fetch_loop_edges:
  assumes "\<And>t. \<exists>rows. qe t = Inr rows"
  shows "(a, b) \<in> set (fetch_loop qe ids ts) \<longleftrightarrow> a \<in> set ts \<and> b \<in> ids \<and> b \<noteq> [] \<and>
     (\<exists>rows. qe a = Inr rows \<and> (\<exists>edge \<in> set rows. edge_target edge = Some (PStr b)))"
proof (induction ts)
  case (Cons t ts)
  obtain rows where rows: "qe t = Inr rows" using assms by blast
  show ?case using Cons by (auto simp: rows edges_of_mem)
qed simp

lemma fetch_loop_subset: "set (fetch_loop qe ids ts) \<subseteq> set ts \<times> ids"
  by (induction ts) (auto simp: edges_of_mem split: sum.splits)

lemma job_index_get:
  assumes "distinct (map job_task_id jobs)"
  shows "dict_get (job_index jobs) i = find (\<lambda>j. job_task_id j = i) jobs"
proof -
  have "dict_get (foldl (\<lambda>d j. dict_set (job_task_id j) j d) d jobs) i =
      (case find (\<lambda>j. job_task_id j = i) jobs of None \<Rightarrow> dict_get d i | Some j \<Rightarrow> Some j)"
    if "distinct (map job_task_id jobs)" for d
    using that
  proof (induction jobs arbitrary: d)
    case (Cons j jobs)
    have "find (\<lambda>j. job_task_id j = job_task_id j') jobs = None" if "j' = j" for j'
      using Cons.prems that by (simp add: find_key_None)
    then show ?case using Cons by (auto simp: dict_simps split: option.splits)
  qed (simp add: dict_simps)
  then show ?thesis using assms by (simp add: job_index_def dict_simps split: option.splits)
qed

text \<open>The tier of a plan: the jobs of one tier of tasks, under the batch id of that tier.\<close>

definition tier_jobs :: "string \<Rightarrow> AgentJobEvent list \<Rightarrow> nat \<Rightarrow> string list \<Rightarrow> AgentJobEvent list" where
  "tier_jobs session jobs i tier = assign_batch_id
     (map (\<lambda>t. the (find (\<lambda>j. job_task_id j = t) jobs)) tier) (tier_batch_id session i)"

lemma plan_tiers_eq:
  assumes "distinct (map job_task_id jobs)" "[] \<notin> set tiers"
    and "set (concat tiers) \<subseteq> job_task_id ` set jobs"
  shows "plan_tiers session (job_index jobs) tiers = map (\<lambda>(i, tier). tier_jobs session jobs i tier) (enumerate 0 tiers)"
proof -
  have look: "List.map_filter (dict_get (job_index jobs)) tier
      = map (\<lambda>t. the (find (\<lambda>j. job_task_id j = t) jobs)) tier"
    if "set tier \<subseteq> job_task_id ` set jobs" for tier
    using that
  proof (induction tier)
    case (Cons t tier)
    then obtain j where "find (\<lambda>j. job_task_id j = t) jobs = Some j"
      using find_key_ex [of t job_task_id jobs] by auto
    with Cons show ?case by (simp add: map_filter_simps job_index_get [OF assms(1)])
  qed (simp add: map_filter_simps)
  have mem: "set tier \<subseteq> job_task_id ` set jobs \<and> tier \<noteq> []" if "(i, tier) \<in> set (enumerate 0 tiers)" for i tier
  proof -
    from that have "tier \<in> set tiers" by (auto simp: in_set_enumerate_eq)
    then show ?thesis using assms(2,3) by auto
  qed
  have "map (\<lambda>(i, tier). assign_batch_id (List.map_filter (dict_get (job_index jobs)) tier)
        (tier_batch_id session i)) (enumerate 0 tiers)
      = map (\<lambda>(i, tier). tier_jobs session jobs i tier) (enumerate 0 tiers)"
    using look mem by (auto simp: tier_jobs_def)
  moreover have "filter (\<lambda>js. js \<noteq> []) (map (\<lambda>(i, tier). tier_jobs session jobs i tier) (enumerate 0 tiers))
      = map (\<lambda>(i, tier). tier_jobs session jobs i tier) (enumerate 0 tiers)"
    using mem by (intro filter_True) (auto simp: tier_jobs_def assign_batch_id_def)
  ultimately show ?thesis by (simp only: plan_tiers_def)
qed

lemma tier_jobs_ids:
  assumes "set tier \<subseteq> job_task_id ` set jobs"
  shows "map job_task_id (tier_jobs session jobs i tier) = tier"
proof -
  have "job_task_id (the (find (\<lambda>j. job_task_id j = t) jobs)) = t" if "t \<in> set tier" for t
  proof -
    from that assms have "t \<in> job_task_id ` set jobs" by blast
    from find_key_ex [OF this] show ?thesis by auto
  qed
  then show ?thesis by (simp add: tier_jobs_def assign_batch_id_def o_def map_idI)
qed

text \<open>The dependencies among the jobs, as the rows of the query engine tell them.\<close>

definition job_deps :: "'e edge_query \<Rightarrow> AgentJobEvent list \<Rightarrow> (string \<times> string) set" where
  "job_deps qe jobs = {(a, b). a \<in> job_task_id ` set jobs \<and> b \<in> job_task_id ` set jobs \<and> b \<noteq> [] \<and>
     (\<exists>rows. qe a = Inr rows \<and> (\<exists>edge \<in> set rows. edge_target edge = Some (PStr b)))}"

definition plan_ok ::
  "(string \<times> string) set \<Rightarrow> AgentJobEvent list \<Rightarrow> string \<Rightarrow> AgentJobEvent list list \<Rightarrow> bool" where
  "plan_ok deps jobs session tiers \<longleftrightarrow>
     mset (map job_task_id (concat tiers)) = mset (map job_task_id jobs) \<and>
     (\<forall>i < length tiers. \<forall>j \<in> set (tiers ! i).
        (\<exists>j0 \<in> set jobs. j = j0\<lparr>job_batch_id := tier_batch_id session i\<rparr>) \<and>
        (\<forall>b. (job_task_id j, b) \<in> deps \<longrightarrow> (\<exists>k < i. b \<in> job_task_id ` set (tiers ! k))))"

lemma plan_ok_single:
  assumes "\<forall>j \<in> set jobs. \<forall>b. (job_task_id j, b) \<notin> deps"
  shows "plan_ok deps jobs session [assign_batch_id jobs (tier_batch_id session 0)]"
  using assms by (auto simp: plan_ok_def assign_batch_id_def o_def)

lemma plan_ok_tiers:
  assumes "distinct (map job_task_id jobs)" "mset (concat tiers) = mset (map job_task_id jobs)"
    and "tiers_ok {} edges tiers"
  shows "plan_ok (set edges) jobs session (map (\<lambda>(i, tier). tier_jobs session jobs i tier) (enumerate 0 tiers))"
proof -
  let ?js = "map (\<lambda>(i, tier). tier_jobs session jobs i tier) (enumerate 0 tiers)"
  have all: "set (concat tiers) = job_task_id ` set jobs"
    using arg_cong [OF assms(2), of set_mset] by (simp del: set_concat mset_concat)
  have sub: "set (tiers ! i) \<subseteq> job_task_id ` set jobs" if "i < length tiers" for i
    using that by (auto simp flip: all intro: nth_mem)
  have nth: "?js ! i = tier_jobs session jobs i (tiers ! i)" if "i < length tiers" for i
    using that by (simp add: nth_enumerate_eq)
  have ids: "map job_task_id (?js ! i) = tiers ! i" if "i < length tiers" for i
    using that by (simp only: nth tier_jobs_ids [OF sub])
  have "map (map job_task_id) ?js = tiers"
    using ids by (intro nth_equalityI) simp_all
  then have "map job_task_id (concat ?js) = concat tiers" by (simp only: map_concat)
  moreover have "\<exists>j0 \<in> set jobs. j = j0\<lparr>job_batch_id := tier_batch_id session i\<rparr>"
    if i: "i < length tiers" "j \<in> set (?js ! i)" for i j
  proof -
    from i(2) have "j \<in> set (tier_jobs session jobs i (tiers ! i))" by (simp only: nth [OF i(1)])
    then obtain t where t: "t \<in> set (tiers ! i)"
      "j = the (find (\<lambda>j. job_task_id j = t) jobs)\<lparr>job_batch_id := tier_batch_id session i\<rparr>"
      by (auto simp: tier_jobs_def assign_batch_id_def)
    from t(1) sub [OF i(1)] have "t \<in> job_task_id ` set jobs" by blast
    from find_key_ex [OF this] t(2) show ?thesis by auto
  qed
  moreover have "\<exists>k < i. b \<in> job_task_id ` set (?js ! k)"
    if i: "i < length tiers" "j \<in> set (?js ! i)" "(job_task_id j, b) \<in> set edges" for i j b
  proof -
    have "job_task_id j \<in> set (tiers ! i)" using i(1,2) ids by (metis image_eqI set_map)
    with assms(3) i(1,3) have "b \<in> set (concat (take i tiers))" by (auto simp: tiers_ok_def)
    then obtain tier where tier: "tier \<in> set (take i tiers)" "b \<in> set tier" by auto
    from tier(1) obtain k where "k < length (take i tiers)" "take i tiers ! k = tier"
      unfolding in_set_conv_nth by blast
    with tier(2) have k: "k < i" "b \<in> set (tiers ! k)" by simp_all
    then have "b \<in> job_task_id ` set (?js ! k)" using i(1) ids [of k] by (metis less_trans set_map)
    with k(1) show ?thesis by blast
  qed
  ultimately show ?thesis
    using assms(2) by (simp only: plan_ok_def length_map length_enumerate) blast
qed

lemma plan_orders:
  assumes "enumerates as_list" "distinct (map job_task_id jobs)" "\<And>t. \<exists>rows. qe t = Inr rows"
    and "acyclic (job_deps qe jobs)"
  shows "\<exists>tiers. plan as_list qe jobs session = Inr tiers \<and> plan_ok (job_deps qe jobs) jobs session tiers"
proof -
  let ?ids = "set (map job_task_id jobs)"
  let ?edges = "fetch_dependency_edges as_list qe ?ids"
  note en = enumeratesD [OF assms(1), of ?ids, OF finite_set]
  have edges: "set ?edges = job_deps qe jobs"
  proof (rule set_eqI)
    fix e show "e \<in> set ?edges \<longleftrightarrow> e \<in> job_deps qe jobs"
      by (cases e) (simp only: fetch_dependency_edges_def job_deps_def mem_Collect_eq prod.case
        fetch_loop_edges [OF assms(3)] en set_map [symmetric])
  qed
  show ?thesis
  proof (cases "length jobs \<le> 1 \<or> ?edges = []")
    case True
    have "\<forall>j \<in> set jobs. \<forall>b. (job_task_id j, b) \<notin> job_deps qe jobs"
    proof (cases "?edges = []")
      case True
      then show ?thesis using edges by auto
    next
      case False
      with True have "length jobs \<le> 1" by blast
      moreover have "(a, a) \<notin> job_deps qe jobs" for a using assms(4) by (auto simp: acyclic_def)
      ultimately show ?thesis by (cases jobs) (auto simp: job_deps_def)
    qed
    from plan_ok_single [OF this] show ?thesis using True by (auto simp: plan_def)
  next
    case False
    have "distinct (as_list ?ids)" "set ?edges \<subseteq> set (as_list ?ids) \<times> set (as_list ?ids)"
      using en edges by (auto simp: job_deps_def)
    from topological_sort_ok [OF this] obtain tiers where tiers:
      "topological_sort (as_list ?ids) ?edges = Inr tiers" "mset (concat tiers) = mset (as_list ?ids)"
      "[] \<notin> set tiers" "tiers_ok {} ?edges tiers"
      using assms(4) edges by auto
    have m: "mset (concat tiers) = mset (map job_task_id jobs)"
      using tiers(2) en assms(2) by (metis set_eq_iff_mset_eq_distinct)
    then have sub: "set (concat tiers) \<subseteq> job_task_id ` set jobs"
      by (metis mset_eq_setD order_refl set_map)
    note pt = plan_tiers_eq [OF assms(2) tiers(3) sub, of session]
    have "tiers \<noteq> []" using m False by (cases jobs) auto
    then have "enumerate 0 tiers \<noteq> []" by (metis length_0_conv length_enumerate)
    then have "plan as_list qe jobs session = Inr (plan_tiers session (job_index jobs) tiers)"
      using False tiers(1) by (simp add: plan_def Let_def pt)
    then show ?thesis using plan_ok_tiers [OF assms(2) m tiers(4)] edges by (simp add: pt)
  qed
qed

text \<open>
  The plan. When the task ids are distinct, the query engine answers and the
  dependencies among the jobs have no cycle, the plan holds every job exactly once, changed only
  by the batch id of its tier, and every task a job depends on stands in an earlier tier.
\<close>

theorem plan_respects_dependencies:
  assumes "enumerates as_list" "distinct (map job_task_id jobs)" "\<And>t. \<exists>rows. qe t = Inr rows"
    and "acyclic (job_deps qe jobs)"
  shows "\<exists>tiers. plan as_list qe jobs session = Inr tiers \<and> plan_ok (job_deps qe jobs) jobs session tiers"
  using assms by (rule plan_orders)

definition sample_job :: "string \<Rightarrow> AgentJobEvent" where
  "sample_job t = \<lparr>job_agent_id = ''agent'', job_task_id = t, job_session_id = ''s1'',
     job_user_id = ''USR-1'', job_agent_source = ''user'', job_parent_task_id = None,
     job_batch_id = [], job_instructions = [], job_dispatched_at = utc_dt 0\<rparr>"

definition sample_qe :: "string edge_query" where
  "sample_qe t = Inr (if t = ''A'' then [[(''target_id'', PStr ''C'')]] else [])"

lemma sample_deps: "job_deps sample_qe (map sample_job [''A'', ''B'', ''C'']) = {(''A'', ''C'')}"
  by (auto simp: job_deps_def sample_qe_def sample_job_def edge_target_def get_truthy_def dict_simps)

theorem plan_respects_dependencies_witness:
  "\<exists>tiers. plan sorted_list_of_set sample_qe (map sample_job [''A'', ''B'', ''C'']) ''s1'' = Inr tiers \<and>
     plan_ok {(''A'', ''C'')} (map sample_job [''A'', ''B'', ''C'']) ''s1'' tiers"
proof -
  have "enumerates (sorted_list_of_set :: string set \<Rightarrow> string list)"
    by (simp add: enumerates_def)
  moreover have "distinct (map job_task_id (map sample_job [''A'', ''B'', ''C'']))"
    by (simp add: sample_job_def)
  moreover have "\<exists>rows. sample_qe t = Inr rows" for t by (simp add: sample_qe_def)
  moreover have "acyclic (job_deps sample_qe (map sample_job [''A'', ''B'', ''C'']))"
    unfolding sample_deps by (simp add: acyclic_def trancl_insert)
  ultimately show ?thesis
    unfolding sample_deps [symmetric] by (rule plan_respects_dependencies)
qed

text \<open>
  With the query engine the program passes in, nothing is ordered. It has no
  \<open>get_edges\<close>, so every call raises \<open>AttributeError\<close>, which the planner swallows: all jobs end in
  one tier and start together, whatever the graph says.
\<close>

theorem plan_blind:
  "plan as_list (\<lambda>t. Inl e) jobs session = Inr [assign_batch_id jobs (tier_batch_id session 0)]"
proof -
  have "fetch_loop (\<lambda>t. Inl e) ids ts = []" for ids :: "string set" and ts
    by (cases ts) simp_all
  then show ?thesis by (simp add: plan_def fetch_dependency_edges_def)
qed

text \<open>The same happens with rows as the graph store returns them: they name their ends
\<open>_start_id\<close> and \<open>_end_id\<close>.\<close>

lemma plan_blind_store_rows:
  assumes rows: "\<And>t. \<exists>rows. qe t = Inr rows \<and> (\<forall>row \<in> set rows.
       dict_keys row = [''_label'', ''_start_id'', ''_end_id''])"
  shows "plan as_list qe jobs session = Inr [assign_batch_id jobs (tier_batch_id session 0)]"
proof -
  have none: "edge_target row = None" if "dict_keys row = [''_label'', ''_start_id'', ''_end_id'']" for row
  proof -
    have "dict_get row k = None" if "k \<in> {''target_id'', ''to_id'', ''end_id''}" for k
      using that \<open>dict_keys row = _\<close> by (auto simp: dict_get_eq_None)
    then show ?thesis by (simp add: edge_target_def get_truthy_def)
  qed
  have "fetch_loop qe ids ts = []" for ids ts
  proof (induction ts)
    case (Cons t ts)
    obtain rs where rs: "qe t = Inr rs"
      "\<forall>row \<in> set rs. dict_keys row = [''_label'', ''_start_id'', ''_end_id'']" using rows by blast
    have "p \<notin> set (edges_of ids t rs)" for p
      using rs(2) none by (cases p) (auto simp: edges_of_mem)
    then have "edges_of ids t rs = []" by (metis list.set_intros(1) neq_Nil_conv)
    with Cons rs(1) show ?case by simp
  qed simp
  then show ?thesis by (simp add: plan_def fetch_dependency_edges_def)
qed

end
