(* ===== verification/GC_Approvals.thy ===== *)
theory GC_Approvals
  imports GC_StoreLaws GC_Lifecycle
begin

section \<open>Gated tool calls (\<open>mcp/approval.py\<close>, \<open>mcp/client.py\<close>)\<close>

text \<open>
  \<open>MCPClient.call_tool\<close> with its trust tiers, and the service that asks the user through an
  APPROVAL task in the graph and polls for the answer. While the client sleeps the rest of the
  program runs: \<open>env\<close> is what it does to the session, any function at all. The connected MCP
  server is the argument \<open>conn\<close>; \<open>args\<close> is the text \<open>json.dumps(arguments)\<close>.
\<close>

subsection \<open>What a creation leaves in the database\<close>

locale creating_service = cypher_service +
  assumes create_rows: "fst (exec (Create lb m) g) = [NodeRow (set_props m [])]"
    and create_match: "dict_ok m \<Longrightarrow> dict_get m ''id'' = Some (CStr (PStr i)) \<Longrightarrow>
      fst (exec (MatchId i) g) = [] \<Longrightarrow>
      fst (exec (MatchId i) (snd (exec (Create lb m) g))) = [NodeRow (set_props m [])]"
    and create_frame: "dict_ok m \<Longrightarrow> dict_get m ''id'' = Some (CStr (PStr i)) \<Longrightarrow> j \<noteq> i \<Longrightarrow>
      fst (exec (MatchId j) (snd (exec (Create lb m) g))) = fst (exec (MatchId j) g)"

interpretation mem_create: creating_service mem_exec
  by unfold_locales (auto simp: node_rows_def has_id_def dict_get_set_props)

subsection \<open>The approval task\<close>

definition extract_initials :: "string \<Rightarrow> string" where
  "extract_initials user_id =
     (let suffix = (if starts_with ''USER-'' user_id then drop 5 user_id else user_id);
          alpha_chars = filter is_letter suffix
      in if 2 \<le> length alpha_chars then map to_upper [alpha_chars ! 0, alpha_chars ! 1]
         else if length alpha_chars = 1 then map to_upper [alpha_chars ! 0, CHR ''X'']
         else ''XX'')"

definition criteria_text :: "string \<Rightarrow> string \<Rightarrow> string" where
  "criteria_text tool args = take 500 (''tool='' @ tool @ ''; args='' @ args)"

definition approval_task ::
  "string \<Rightarrow> py_datetime \<Rightarrow> string \<Rightarrow> string \<Rightarrow> string \<Rightarrow> string \<Rightarrow> TaskNode" where
  "approval_task task_id now user tool server args =
     (new_TaskNode task_id now TaskType.APPROVAL
        (''Approve MCP tool: '' @ tool @ '' on '' @ server)
        (''The agent wants to call the MCP tool '' @ [squote] @ tool @ [squote] @ '' on server '' @
         [squote] @ server @ [squote] @ ''. Review the arguments below and approve or deny.'' @
         [newline, newline] @ ''Arguments: '' @ criteria_text tool args))
       \<lparr>created_by := Some user, owned_by := Some user, assigned_to := Some user,
        type_metadata := Some (ApprovalMetadata user (Some (criteria_text tool args)) None None 1
          None ''CANCEL'' None False None None)\<rparr>"

datatype gate_error =
    StoreError py_error
  | ValidationError
  | MCPToolBlockedError string
  | MCPApprovalDeniedError string
  | MCPApprovalTimeoutError string
  | GateRuntimeError string
  | PollFuelExhausted

record 'g mcp_world =
  store :: "'g session"
  executed :: "(string \<times> string) list"
  call_log :: "(string \<times> bool) list"

type_synonym ('g, 'a) gate_op = "('g mcp_world, gate_error, 'a) io"

definition on_store :: "('g, 'a) op \<Rightarrow> ('g, 'a) gate_op" where
  "on_store m = (\<lambda>w. case m (store w) of
       (Inl e, s) \<Rightarrow> (Inl (StoreError e), w\<lparr>store := s\<rparr>)
     | (Inr a, s) \<Rightarrow> (Inr a, w\<lparr>store := s\<rparr>))"

definition request_approval :: "'g database \<Rightarrow> store_cfg \<Rightarrow> nat \<Rightarrow> py_datetime \<Rightarrow>
    string \<Rightarrow> string \<Rightarrow> string \<Rightarrow> string \<Rightarrow> ('g, string) gate_op" where
  "request_approval exec cfg n now user tool server args =
     (let task_id = generate_task_id n (extract_initials user) TaskType.APPROVAL
      in if \<not> TASK_ID_PATTERN_match task_id then raiseS ValidationError
         else bindS (on_store (create_node exec cfg
                (TaskObj (approval_task task_id now user tool server args)) None))
              (\<lambda>_. returnS task_id))"

definition get_pending_approvals ::
  "'g database \<Rightarrow> store_cfg \<Rightarrow> string \<Rightarrow> ('g, props list) op" where
  "get_pending_approvals exec cfg user_id =
     bindS (list_nodes exec cfg ''TaskNode''
       [(''task_type'', PStr ''APPROVAL''), (''assigned_to'', PStr user_id),
        (''state'', PStr (TaskState_value TaskState.PENDING))] None) (\<lambda>pending.
     bindS (list_nodes exec cfg ''TaskNode''
       [(''task_type'', PStr ''APPROVAL''), (''assigned_to'', PStr user_id),
        (''state'', PStr (TaskState_value TaskState.IN_PROGRESS))] None) (\<lambda>in_progress.
       returnS (pending @ in_progress)))"

subsection \<open>Waiting for the answer\<close>

text \<open>What one look at the task decides: approved, denied, or not yet.\<close>

definition verdict :: "props option \<Rightarrow> bool option" where
  "verdict raw = (case raw of None \<Rightarrow> None
     | Some p \<Rightarrow>
        let state_value = dict_get p ''state''
        in if state_value = Some (PStr (TaskState_value TaskState.COMPLETE)) then Some True
           else if state_value \<in> {Some (PStr (TaskState_value TaskState.CANCELLED)),
                                  Some (PStr (TaskState_value TaskState.BLOCKED))} then Some False
           else None)"

definition sleep :: "(int \<Rightarrow> 'g session \<Rightarrow> 'g session) \<Rightarrow> int \<Rightarrow> ('g, unit) gate_op" where
  "sleep env elapsed = (\<lambda>w. (Inr (), w\<lparr>store := env elapsed (store w)\<rparr>))"

fun poll_loop :: "'g database \<Rightarrow> store_cfg \<Rightarrow> (int \<Rightarrow> 'g session \<Rightarrow> 'g session) \<Rightarrow> string \<Rightarrow>
    int \<Rightarrow> int \<Rightarrow> nat \<Rightarrow> int \<Rightarrow> ('g, bool) gate_op" where
  "poll_loop exec cfg env i timeout poll 0 elapsed = raiseS PollFuelExhausted"
| "poll_loop exec cfg env i timeout poll (Suc fuel) elapsed =
     (if elapsed < timeout
      then bindS (on_store (get_node exec cfg i False None)) (\<lambda>raw.
             case verdict raw of
               Some approved \<Rightarrow> returnS approved
             | None \<Rightarrow> bindS (sleep env elapsed) (\<lambda>_.
                 poll_loop exec cfg env i timeout poll fuel (elapsed + poll)))
      else raiseS (MCPApprovalTimeoutError i))"

text \<open>A poll interval of at least one second needs no more than \<open>timeout\<close> looks.\<close>

definition wait_for_approval :: "'g database \<Rightarrow> store_cfg \<Rightarrow> (int \<Rightarrow> 'g session \<Rightarrow> 'g session) \<Rightarrow>
    string \<Rightarrow> int \<Rightarrow> int \<Rightarrow> ('g, bool) gate_op" where
  "wait_for_approval exec cfg env i timeout_seconds poll_interval_seconds =
     poll_loop exec cfg env i timeout_seconds poll_interval_seconds (nat timeout_seconds + 1) 0"

subsection \<open>The client\<close>

datatype content_item = TextItem string | DataItem pval | OtherItem

record tool_response =
  response_content :: "content_item list"
  is_error :: bool

record MCPToolResult =
  tr_success :: bool
  tr_content :: string
  tr_result_data :: "pval pydict"
  tr_error_message :: "string option"

type_synonym mcp_connection = "string \<Rightarrow> string \<Rightarrow> string + tool_response"

fun join_lines :: "string list \<Rightarrow> string" where
  "join_lines [] = []"
| "join_lines [l] = l"
| "join_lines (l # ls) = l @ [newline] @ join_lines ls"

definition result_data_of :: "content_item list \<Rightarrow> pval pydict" where
  "result_data_of items = foldl (\<lambda>d item. case item of
       DataItem (PDict d') \<Rightarrow> d' | DataItem _ \<Rightarrow> [] | _ \<Rightarrow> d) [] items"

definition tool_result :: "string + tool_response \<Rightarrow> MCPToolResult" where
  "tool_result r = (case r of
     Inl exc \<Rightarrow> \<lparr>tr_success = False, tr_content = [], tr_result_data = [], tr_error_message = Some exc\<rparr>
   | Inr response \<Rightarrow>
      let content = join_lines (List.map_filter (\<lambda>item. case item of TextItem t \<Rightarrow> Some t | _ \<Rightarrow> None)
            (response_content response))
      in \<lparr>tr_success = \<not> is_error response, tr_content = content,
          tr_result_data = result_data_of (response_content response),
          tr_error_message = (if is_error response then Some content else None)\<rparr>)"

definition execute_tool ::
  "mcp_connection option \<Rightarrow> string \<Rightarrow> string \<Rightarrow> ('g, MCPToolResult) gate_op" where
  "execute_tool conn tool args = (case conn of
     None \<Rightarrow> raiseS (GateRuntimeError ''MCPClient is not connected. Call connect() first.'')
   | Some call \<Rightarrow> (\<lambda>w. (Inr (tool_result (call tool args)),
        w\<lparr>executed := executed w @ [(tool, args)]\<rparr>)))"

definition log_tool_call :: "string \<Rightarrow> bool \<Rightarrow> ('g, unit) gate_op" where
  "log_tool_call tool success = (\<lambda>w. (Inr (), w\<lparr>call_log := call_log w @ [(tool, success)]\<rparr>))"

definition approve_first :: "'g database \<Rightarrow> store_cfg \<Rightarrow> (int \<Rightarrow> 'g session \<Rightarrow> 'g session) \<Rightarrow>
    nat \<Rightarrow> py_datetime \<Rightarrow> string \<Rightarrow> string \<Rightarrow> string \<Rightarrow> string \<Rightarrow> ('g, unit) gate_op" where
  "approve_first exec cfg env n now user tool server args =
     bindS (request_approval exec cfg n now user tool server args) (\<lambda>approval_task_id.
     bindS (wait_for_approval exec cfg env approval_task_id 3600 5) (\<lambda>approved.
       if \<not> approved
       then bindS (log_tool_call tool False) (\<lambda>_. raiseS (MCPApprovalDeniedError tool))
       else returnS ()))"

definition call_tool :: "'g database \<Rightarrow> store_cfg \<Rightarrow> (int \<Rightarrow> 'g session \<Rightarrow> 'g session) \<Rightarrow>
    bool \<Rightarrow> mcp_connection option \<Rightarrow> string option \<Rightarrow> nat \<Rightarrow> py_datetime \<Rightarrow>
    string \<Rightarrow> string \<Rightarrow> TrustTier \<Rightarrow> string \<Rightarrow> string \<Rightarrow> ('g, MCPToolResult) gate_op" where
  "call_tool exec cfg env has_service conn server_name n now tool args trust_tier user server_id =
     bindS (if trust_tier = TrustTier.BLOCKED
            then bindS (log_tool_call tool False) (\<lambda>_. raiseS (MCPToolBlockedError server_id))
            else if trust_tier = TrustTier.GATED
            then (if \<not> has_service
                  then raiseS (GateRuntimeError ''GatedApprovalService is required for GATED tool calls but was not provided.'')
                  else approve_first exec cfg env n now user tool
                    (case server_name of None \<Rightarrow> server_id | Some name \<Rightarrow> name) args)
            else returnS ()) (\<lambda>_.
     bindS (execute_tool conn tool args) (\<lambda>result.
     bindS (log_tool_call tool (tr_success result)) (\<lambda>_. returnS result)))"

subsection \<open>Asking creates one task\<close>

lemma extract_initials_letters:
  "2 \<le> length (extract_initials user) \<and> list_all is_upper (extract_initials user)"
proof -
  have nth: "is_upper (to_upper (filter is_letter s ! i))" if "i < length (filter is_letter s)" for s i
    using nth_mem [OF that] by (simp add: to_upper_is_upper)
  have "is_upper (to_upper (filter is_letter s ! 0))" "is_upper (to_upper (filter is_letter s ! 1))"
    if "2 \<le> length (filter is_letter s)" for s
    by (rule nth, use that in linarith)+
  moreover have "is_upper (to_upper (filter is_letter s ! 0))" if "length (filter is_letter s) = 1" for s
    using nth [of 0 s] that by simp
  moreover have "is_upper (to_upper (CHR ''X''))" "is_upper (CHR ''X'')"
    by (simp_all add: to_upper_def is_upper_def is_lower_def)
  ultimately show ?thesis
    by (auto simp: extract_initials_def Let_def)
qed

lemma map_to_upper_id: "list_all is_upper s \<Longrightarrow> map to_upper s = s"
  by (induction s) (auto simp: to_upper_def is_upper_def is_lower_def)

lemma approval_id_valid:
  "TASK_ID_PATTERN_match (generate_task_id n (extract_initials user) tt)"
proof -
  let ?a = "extract_initials user" and ?d = "sequence_number n" and ?c = "TASK_TYPE_CODE tt"
  have "generate_task_id n ?a tt = ''TSK-'' @ ?a @ ''-'' @ ?d @ ''-'' @ ?c"
    using extract_initials_letters by (simp add: generate_task_id_def Let_def map_to_upper_id)
  moreover have "chomp ?c \<in> set TASK_TYPE_CODES"
    using task_code_chars [OF TASK_TYPE_CODE_mem] by (simp add: chomp_id TASK_TYPE_CODE_mem)
  ultimately show ?thesis
    unfolding TASK_ID_PATTERN_match_iff
    using extract_initials_letters sequence_number_digits [of n] by blast
qed

lemma dump_key_ok: "list_all KEY_RE_match (dict_keys (task_dump t))"
  unfolding dict_keys_def task_dump_def list.map fst_conv
  by (simp add: KEY_RE_match_def chomp_def newline_def is_upper_def is_lower_def)

lemma to_cypher_map_ok: "list_all KEY_RE_match (dict_keys d) \<Longrightarrow> to_cypher_map d = Inr (set_lits d)"
  by (induction d) (auto simp: dict_keys_def set_lits_def)

context creating_service
begin

text \<open>The one way \<open>create_node\<close> can change the graph.\<close>

lemma create_task_cases:
  assumes "create_node exec cfg (TaskObj t) ctx s = (r, s')"
  obtains (refused) e where "require_caller_context cfg ctx = Inl e" "r = Inl e" "s' = s"
    | (made) "require_caller_context cfg ctx = Inr ()"
      "r = Inr (set_props (set_lits (task_dump t)) [])"
      "graph s' = snd (exec (Create (resolve_label (TaskObj t)) (set_lits (task_dump t))) (graph s))"
proof (cases "require_caller_context cfg ctx")
  case (Inl e)
  with assms show ?thesis by (intro refused) (auto simp: create_node_def bindS_unfold)
next
  case (Inr u)
  with assms show ?thesis
    by (intro made) (auto simp: create_node_def bindS_unfold run_query_def split_def Let_def whenS_def
        spawn_embedding_def to_cypher_map_ok [OF dump_key_ok] create_rows split: if_splits)
qed

lemma fetch_created:
  assumes "fetch exec g (node_id t) = None"
  shows "fetch exec (snd (exec (Create lb (set_lits (task_dump t))) g)) (node_id t) =
      Some (set_props (set_lits (task_dump t)) [])"
    and "j \<noteq> node_id t \<Longrightarrow>
      fetch exec (snd (exec (Create lb (set_lits (task_dump t))) g)) j = fetch exec g j"
proof -
  have id: "dict_ok (set_lits (task_dump t))"
    "dict_get (set_lits (task_dump t)) ''id'' = Some (CStr (PStr (node_id t)))"
    by (simp_all add: task_dump_ok dict_get_set_lits) (simp add: task_dump_def dict_simps)
  have "fst (exec (MatchId (node_id t)) g) = []"
    using assms by (simp add: fetch_def split: list.splits)
  from create_match [OF id this] show "fetch exec (snd (exec (Create lb (set_lits (task_dump t))) g))
      (node_id t) = Some (set_props (set_lits (task_dump t)) [])"
    by (simp add: fetch_def)
  show "fetch exec (snd (exec (Create lb (set_lits (task_dump t))) g)) j = fetch exec g j"
    if "j \<noteq> node_id t" using create_frame [OF id that] by (simp add: fetch_def)
qed

end

lemma approval_task_fields [simp]:
  "node_id (approval_task i now user tool server args) = i"
  "state (approval_task i now user tool server args) = TaskState.PENDING"
  "state_history (approval_task i now user tool server args) = []"
  "task_type (approval_task i now user tool server args) = TaskType.APPROVAL"
  by (simp_all add: approval_task_def new_TaskNode_def)

lemma approval_task_storable:
  "TASK_ID_PATTERN_match i \<Longrightarrow> storable loads (approval_task i now user tool server args)"
  by (simp add: storable_def approval_task_def new_TaskNode_def metadata_ok_def)

context creating_service
begin

lemma request_approval_run:
  assumes "require_caller_context cfg None = Inr ()"
    and i: "i = generate_task_id n (extract_initials user) TaskType.APPROVAL"
  shows "\<exists>w'. request_approval exec cfg n now user tool server args w = (Inr i, w') \<and>
    executed w' = executed w \<and> call_log w' = call_log w \<and>
    graph (store w') = snd (exec (Create (resolve_label (TaskObj (approval_task i now user tool server args)))
      (set_lits (task_dump (approval_task i now user tool server args)))) (graph (store w)))"
proof -
  let ?t = "approval_task i now user tool server args"
  obtain r s' where run: "create_node exec cfg (TaskObj ?t) None (store w) = (r, s')" by fastforce
  then show ?thesis
  proof (cases rule: create_task_cases)
    case refused
    with assms(1) show ?thesis by simp
  next
    case made
    with run approval_id_valid [of n user TaskType.APPROVAL] show ?thesis
      by (simp add: request_approval_def i [symmetric] bindS_unfold on_store_def)
  qed
qed

lemma request_approval_refused:
  assumes "require_caller_context cfg None = Inl e"
  shows "request_approval exec cfg n now user tool server args w = (Inl (StoreError e), w)"
  using assms approval_id_valid [of n user TaskType.APPROVAL]
  by (simp add: request_approval_def bindS_unfold on_store_def create_node_def)

lemma created_approval_loads:
  assumes "TASK_ID_PATTERN_match i"
  shows "load_task loads (set_props (set_lits (task_dump (approval_task i now user tool server args))) []) =
    Some (approval_task i now user tool server args)"
  by (subst load_after_set) (simp add: load_task_def loaded_fields validate_loaded
      approval_task_storable assms)

lemma request_creates:
  assumes acl: "require_caller_context cfg None = Inr ()"
    and i: "i = generate_task_id n (extract_initials user) TaskType.APPROVAL"
    and "fetch exec (graph (store w)) i = None"
  shows "\<exists>w' p. request_approval exec cfg n now user tool server args w = (Inr i, w') \<and>
    fetch exec (graph (store w')) i = Some p \<and>
    load_task loads p = Some (approval_task i now user tool server args) \<and>
    (\<forall>j. j \<noteq> i \<longrightarrow> fetch exec (graph (store w')) j = fetch exec (graph (store w)) j) \<and>
    executed w' = executed w"
proof -
  from request_approval_run [OF acl i, of now tool server args w] obtain w' where w':
    "request_approval exec cfg n now user tool server args w = (Inr i, w')" "executed w' = executed w"
    "graph (store w') = snd (exec (Create (resolve_label (TaskObj (approval_task i now user tool server args)))
      (set_lits (task_dump (approval_task i now user tool server args)))) (graph (store w)))"
    by blast
  have "fetch exec (graph (store w)) (node_id (approval_task i now user tool server args)) = None"
    using assms(3) by simp
  note new = fetch_created [OF this, unfolded approval_task_fields]
  have "TASK_ID_PATTERN_match i" unfolding i by (rule approval_id_valid)
  with w' new created_approval_loads show ?thesis by auto
qed

end

text \<open>
  Asking for approval creates exactly one task. With a fresh number the call returns
  the id of an APPROVAL task that loads back as built (pending, owned by and assigned to the
  user); no other node changes, and the id is always valid, whatever the user id looks like.
\<close>

theorem request_approval_creates:
  assumes "creating_service exec" "require_caller_context cfg None = Inr ()"
    and "i = generate_task_id n (extract_initials user) TaskType.APPROVAL"
    and "fetch exec (graph (store w)) i = None"
  shows "\<exists>w' p. request_approval exec cfg n now user tool server args w = (Inr i, w') \<and>
    fetch exec (graph (store w')) i = Some p \<and>
    load_task loads p = Some (approval_task i now user tool server args) \<and>
    (\<forall>j. j \<noteq> i \<longrightarrow> fetch exec (graph (store w')) j = fetch exec (graph (store w)) j) \<and>
    executed w' = executed w"
  using creating_service.request_creates [OF assms] .

definition empty_world :: "mem_graph mcp_world" where
  "empty_world = \<lparr>store = \<lparr>graph = \<lparr>vertices = [], relations = [], next_rel = 0\<rparr>, spawned = [],
     notified = []\<rparr>, executed = [], call_log = []\<rparr>"

lemma empty_world_fetch: "fetch mem_exec (graph (store empty_world)) i = None"
  by (simp add: fetch_def empty_world_def node_rows_def)

lemma agent_cfg_open: "require_caller_context agent_cfg ctx = Inr ()"
  by (simp add: require_caller_context_def agent_cfg_def)

theorem request_approval_creates_witness:
  "\<exists>w' p. request_approval mem_exec agent_cfg 7 (utc_dt 0) ''USER-bob'' ''mail'' ''srv'' ''{}'' empty_world =
      (Inr ''TSK-BO-0007-APR'', w') \<and>
    fetch mem_exec (graph (store w')) ''TSK-BO-0007-APR'' = Some p \<and>
    load_task (\<lambda>_. None) p =
      Some (approval_task ''TSK-BO-0007-APR'' (utc_dt 0) ''USER-bob'' ''mail'' ''srv'' ''{}'')"
proof -
  have "''TSK-BO-0007-APR'' = generate_task_id 7 (extract_initials ''USER-bob'') TaskType.APPROVAL"
    by code_simp
  from request_approval_creates [OF mem_create.creating_service_axioms agent_cfg_open this
      empty_world_fetch]
  show ?thesis by blast
qed

subsection \<open>The wait, look by look\<close>

text \<open>The session after \<open>k\<close> sleeps, what a look at it decides, and how many looks there are.\<close>

fun env_after :: "(int \<Rightarrow> 'g session \<Rightarrow> 'g session) \<Rightarrow> int \<Rightarrow> nat \<Rightarrow> 'g session \<Rightarrow> 'g session" where
  "env_after env poll 0 s = s"
| "env_after env poll (Suc k) s = env (int k * poll) (env_after env poll k s)"

definition look :: "'g database \<Rightarrow> string \<Rightarrow> 'g session \<Rightarrow> bool option" where
  "look exec i s = verdict (visible False (fetch exec (graph s) i))"

definition polls :: "int \<Rightarrow> int \<Rightarrow> nat" where
  "polls timeout poll = nat ((timeout + poll - 1) div poll)"

lemma le_div_iff_int: "0 < (b :: int) \<Longrightarrow> n \<le> a div b \<longleftrightarrow> n * b \<le> a"
proof
  assume "0 < b" "n \<le> a div b"
  then have "n * b \<le> a div b * b" by (intro mult_right_mono) simp_all
  also have "\<dots> \<le> a" using \<open>0 < b\<close> by (simp add: minus_mod_eq_div_mult [symmetric])
  finally show "n * b \<le> a" .
next
  assume "0 < b" "n * b \<le> a"
  then have "n * b div b \<le> a div b" by (intro zdiv_mono1)
  then show "n \<le> a div b" using \<open>0 < b\<close> by simp
qed

lemma polls_iff: "0 < poll \<Longrightarrow> int k * poll < timeout \<longleftrightarrow> k < polls timeout poll"
proof -
  assume poll: "0 < poll"
  have "int k * poll < timeout \<longleftrightarrow> (int k + 1) * poll \<le> timeout + poll - 1"
    by (auto simp: algebra_simps)
  also have "\<dots> \<longleftrightarrow> int k + 1 \<le> (timeout + poll - 1) div poll"
    using poll by (simp add: le_div_iff_int)
  finally show ?thesis by (auto simp: polls_def)
qed

lemma polls_le: "0 < poll \<Longrightarrow> polls timeout poll \<le> nat timeout"
proof (rule ccontr)
  assume poll: "0 < poll" and "\<not> polls timeout poll \<le> nat timeout"
  then have "nat timeout < polls timeout poll" by simp
  then have "int (nat timeout) * poll < timeout" using polls_iff [OF poll] by blast
  moreover have "int (nat timeout) * 1 \<le> int (nat timeout) * poll"
    using poll by (intro mult_left_mono) auto
  ultimately show False by linarith
qed

context cypher_service
begin

lemma poll_loop_eq:
  assumes acl: "require_caller_context cfg None = Inr ()" and poll: "0 < poll"
    and "k \<le> polls timeout poll" "polls timeout poll - k < fuel"
  shows "poll_loop exec cfg env i timeout poll fuel (int k * poll)
      (w\<lparr>store := env_after env poll k s\<rparr>) =
    (case find (\<lambda>j. look exec i (env_after env poll j s) \<noteq> None) [k..<polls timeout poll] of
       Some j \<Rightarrow> (Inr (the (look exec i (env_after env poll j s))), w\<lparr>store := env_after env poll j s\<rparr>)
     | None \<Rightarrow> (Inl (MCPApprovalTimeoutError i),
          w\<lparr>store := env_after env poll (polls timeout poll) s\<rparr>))"
  using assms(3,4)
proof (induction fuel arbitrary: k)
  case 0
  then show ?case by simp
next
  case (Suc fuel)
  show ?case
  proof (cases "k < polls timeout poll")
    case True
    have step: "int k * poll + poll = int (Suc k) * poll" by (simp add: algebra_simps)
    show ?thesis
      using True Suc.IH [of "Suc k"] Suc.prems polls_iff [OF poll, of k timeout]
      by (auto simp: bindS_unfold on_store_def get_node_eq acl sleep_def look_def upt_conv_Cons step
          split: option.splits)
  next
    case False
    then show ?thesis
      using Suc.prems polls_iff [OF poll, of k timeout] by simp
  qed
qed

lemma wait_eq:
  assumes "require_caller_context cfg None = Inr ()" "0 < poll"
  shows "wait_for_approval exec cfg env i timeout poll w =
    (case find (\<lambda>j. look exec i (env_after env poll j (store w)) \<noteq> None) [0..<polls timeout poll] of
       Some j \<Rightarrow> (Inr (the (look exec i (env_after env poll j (store w)))),
          w\<lparr>store := env_after env poll j (store w)\<rparr>)
     | None \<Rightarrow> (Inl (MCPApprovalTimeoutError i),
          w\<lparr>store := env_after env poll (polls timeout poll) (store w)\<rparr>))"
  using poll_loop_eq [OF assms, where k = 0 and timeout = timeout and fuel = "nat timeout + 1"
      and env = env and i = i and w = w and s = "store w"]
    polls_le [OF assms(2), of timeout]
  by (simp add: wait_for_approval_def)

end

text \<open>
  Waiting for approval ends, and its outcome is the first decisive look. Of the
  \<open>polls\<close> looks within the timeout the first one that finds the task visible and COMPLETE,
  CANCELLED or BLOCKED decides (approved in the first case only), the program running freely in
  between; if there is none, \<open>MCPApprovalTimeoutError\<close> is raised after the last sleep.
\<close>

theorem wait_for_approval_exact:
  assumes "cypher_service exec" "require_caller_context cfg None = Inr ()" "0 < poll"
  shows "wait_for_approval exec cfg env i timeout poll w =
    (case find (\<lambda>j. look exec i (env_after env poll j (store w)) \<noteq> None) [0..<polls timeout poll] of
       Some j \<Rightarrow> (Inr (the (look exec i (env_after env poll j (store w)))),
          w\<lparr>store := env_after env poll j (store w)\<rparr>)
     | None \<Rightarrow> (Inl (MCPApprovalTimeoutError i),
          w\<lparr>store := env_after env poll (polls timeout poll) (store w)\<rparr>))"
  using cypher_service.wait_eq [OF assms] .

theorem wait_for_approval_exact_witness:
  "wait_for_approval mem_exec agent_cfg (\<lambda>_ s. s) ''TSK-BO-0007-APR'' 12 5 empty_world =
    (Inl (MCPApprovalTimeoutError ''TSK-BO-0007-APR''), empty_world)"
proof -
  have env: "env_after (\<lambda>_ s. s) 5 k s = s" for k and s :: "mem_graph session"
    by (induction k) simp_all
  have none: "find (\<lambda>_. False) xs = None" for xs :: "nat list"
    by (induction xs) simp_all
  have "look mem_exec ''TSK-BO-0007-APR'' (store empty_world) = None"
    by (simp add: look_def empty_world_fetch visible_def verdict_def)
  then show ?thesis
    using wait_for_approval_exact [OF mem.cypher_service_axioms agent_cfg_open,
      of 5 "\<lambda>_ s. s" "''TSK-BO-0007-APR''" 12 empty_world]
    by (simp add: env none)
qed

subsection \<open>A gated call needs a human\<close>

lemma on_store_frame [frame_simps]:
  "executed (snd (on_store m w)) = executed w" "call_log (snd (on_store m w)) = call_log w"
  by (simp_all add: on_store_def split: prod.split sum.split)

lemma poll_loop_executed:
  "executed (snd (poll_loop exec cfg env i timeout poll fuel elapsed w)) = executed w"
proof (induction fuel arbitrary: elapsed w)
  case (Suc fuel)
  obtain r w1 where run: "on_store (get_node exec cfg i False None) w = (r, w1)" by fastforce
  then have "executed w1 = executed w"
    using on_store_frame(1) [of "get_node exec cfg i False None" w] by simp
  with run Suc.IH show ?case
    by (cases r) (auto simp: bindS_unfold sleep_def split: option.splits)
qed simp

lemma wait_executed: "executed (snd (wait_for_approval exec cfg env i timeout poll w)) = executed w"
  by (simp only: wait_for_approval_def poll_loop_executed)

lemma request_executed:
  "executed (snd (request_approval exec cfg n now user tool server args w)) = executed w"
  by (auto simp: request_approval_def Let_def bindS_unfold split: prod.splits sum.splits
      dest: arg_cong [where f = "\<lambda>x. executed (snd x)"] simp: frame_simps)

lemma approve_first_executed:
  assumes "approve_first exec cfg env n now user tool server args w = (r, w1)"
  shows "executed w1 = executed w"
proof -
  obtain q w0 where q: "request_approval exec cfg n now user tool server args w = (q, w0)" by fastforce
  then have e0: "executed w0 = executed w"
    using request_executed [of exec cfg n now user tool server args w] by simp
  show ?thesis
  proof (cases q)
    case (Inl e)
    with assms q e0 show ?thesis by (simp add: approve_first_def bindS_unfold)
  next
    case (Inr i)
    obtain a w2 where a: "wait_for_approval exec cfg env i 3600 5 w0 = (a, w2)" by fastforce
    then have "executed w2 = executed w0"
      using wait_executed [of exec cfg env i 3600 5 w0] by simp
    with assms q e0 Inr a show ?thesis
      by (cases a) (auto simp: approve_first_def bindS_unfold log_tool_call_def split: if_splits)
  qed
qed

text \<open>The node \<open>i\<close> shows an approval task that the state machine can produce.\<close>

definition shows_approval :: "'g database \<Rightarrow> string \<Rightarrow> 'g session \<Rightarrow> TaskNode \<Rightarrow> bool" where
  "shows_approval exec i s t \<longleftrightarrow> reachable t \<and> task_type t = TaskType.APPROVAL \<and>
     (\<exists>p. fetch exec (graph s) i = Some p \<and>
        dict_get p ''state'' = Some (PStr (TaskState_value (state t))))"

text \<open>The rest of the program moves the task through the state machine only.\<close>

definition env_uses_machine :: "'g database \<Rightarrow> string \<Rightarrow> (int \<Rightarrow> 'g session \<Rightarrow> 'g session) \<Rightarrow> bool" where
  "env_uses_machine exec i env \<longleftrightarrow>
     (\<forall>e s t. shows_approval exec i s t \<longrightarrow> (\<exists>t'. shows_approval exec i (env e s) t'))"

lemma env_after_shows:
  "env_uses_machine exec i env \<Longrightarrow> shows_approval exec i s t \<Longrightarrow>
     \<exists>t'. shows_approval exec i (env_after env poll k s) t'"
  by (induction k) (auto simp: env_uses_machine_def)



lemma look_True_complete:
  assumes "look exec i s = Some True" "shows_approval exec i s t"
  shows "state t = TaskState.COMPLETE"
proof -
  obtain p where p: "fetch exec (graph s) i = Some p"
    "dict_get p ''state'' = Some (PStr (TaskState_value (state t)))"
    using assms(2) by (auto simp: shows_approval_def)
  with assms(1) have "TaskState_value (state t) = TaskState_value TaskState.COMPLETE"
    by (simp add: look_def verdict_def visible_def Let_def split: option.splits if_splits)
  then show ?thesis by (simp only: task_state_enum.val_inj)
qed

lemma history_reaches:
  "history_chain a es b \<Longrightarrow> a \<noteq> b \<Longrightarrow> \<exists>e \<in> set es. to_state e = b"
  by (induction a es b rule: history_chain.induct) auto

lemma complete_by_human:
  assumes "reachable t" "task_type t = TaskType.APPROVAL" "state t = TaskState.COMPLETE"
  shows "\<exists>e \<in> set (state_history t). to_state e = TaskState.COMPLETE \<and> changed_by e = ChangedBy.HUMAN"
proof -
  have "history_chain TaskState.PENDING (state_history t) TaskState.COMPLETE"
    using audit.reachable_inv [OF assms(1)] assms(3) by (simp add: audit_ok_def)
  from history_reaches [OF this] show ?thesis
    using approval.reachable_inv [OF assms(1)] assms(2) by (auto simp: approval_by_human_def)
qed

context creating_service
begin

lemma created_shows:
  assumes "fetch exec (graph s) i = None"
    and "graph s' = snd (exec (Create lb (set_lits (task_dump (approval_task i now user tool server args))))
      (graph s))"
  shows "shows_approval exec i s' (approval_task i now user tool server args)"
proof -
  let ?t = "approval_task i now user tool server args"
  have "reachable ?t" by (rule reachable.fresh) simp_all
  moreover have "dict_get (task_dump ?t) ''state'' = Some (PStr (TaskState_value (state ?t)))"
    by (simp add: task_dump_def dict_simps dump_enum_def)
  then have "dict_get (set_props (set_lits (task_dump ?t)) []) ''state'' =
      Some (PStr (TaskState_value (state ?t)))"
    by (simp add: dict_get_set_props_dump task_dump_ok)
  moreover have "fetch exec (graph s') i = Some (set_props (set_lits (task_dump ?t)) [])"
    using fetch_created(1) [of "graph s" ?t lb] assms by simp
  ultimately show ?thesis by (simp only: shows_approval_def) simp
qed

lemma approve_first_shows:
  assumes "approve_first exec cfg env n now user tool server args w = (Inr u, w1)"
    and i: "i = generate_task_id n (extract_initials user) TaskType.APPROVAL"
    and new: "fetch exec (graph (store w)) i = None" and env: "env_uses_machine exec i env"
  shows "\<exists>t. shows_approval exec i (store w1) t \<and> state t = TaskState.COMPLETE"
proof -
  have acl: "require_caller_context cfg None = Inr ()"
  proof (cases "require_caller_context cfg None")
    case (Inl e)
    from request_approval_refused [OF this] assms(1) show ?thesis
      by (simp add: approve_first_def bindS_unfold)
  qed simp
  from request_approval_run [OF acl i, of now tool server args w] obtain w0 where w0:
    "request_approval exec cfg n now user tool server args w = (Inr i, w0)"
    "graph (store w0) = snd (exec (Create (resolve_label (TaskObj (approval_task i now user tool server args)))
      (set_lits (task_dump (approval_task i now user tool server args)))) (graph (store w)))"
    by blast
  from assms(1) w0(1) have wait: "wait_for_approval exec cfg env i 3600 5 w0 = (Inr True, w1)"
    by (auto simp: approve_first_def bindS_unfold log_tool_call_def split: prod.splits sum.splits if_splits)
  then obtain k where k: "look exec i (env_after env 5 k (store w0)) = Some True"
      "store w1 = env_after env 5 k (store w0)"
    unfolding wait_eq [OF acl, of 5, simplified]
    by (auto simp: find_Some_iff split: option.splits)
  obtain t where "shows_approval exec i (store w1) t"
    using env_after_shows [OF env created_shows [OF new w0(2)], of 5 k] k(2) by auto
  with look_True_complete k show ?thesis by metis
qed

lemma call_tool_executes:
  assumes run: "call_tool exec cfg env svc conn server_name n now tool args tier user server_id w = (r, w')"
    and did: "executed w' \<noteq> executed w"
    and i: "i = generate_task_id n (extract_initials user) TaskType.APPROVAL"
    and new: "fetch exec (graph (store w)) i = None" and env: "env_uses_machine exec i env"
  shows "executed w' = executed w @ [(tool, args)] \<and> (tier = TrustTier.AUTO \<or>
    tier = TrustTier.GATED \<and> (\<exists>t. shows_approval exec i (store w') t \<and>
      (\<exists>e \<in> set (state_history t). to_state e = TaskState.COMPLETE \<and> changed_by e = ChangedBy.HUMAN)))"
proof -
  have exe: "executed w2 = executed w1 @ [(tool, args)] \<and> store w2 = store w1 \<or> w2 = w1"
    if "bindS (execute_tool conn tool args) (\<lambda>result.
        bindS (log_tool_call tool (tr_success result)) (\<lambda>_. returnS result)) w1 = (q, w2)" for q w1 w2
    using that by (auto simp: execute_tool_def log_tool_call_def bindS_unfold split: option.splits)
  show ?thesis
  proof (cases tier)
    case AUTO
    with run exe [of w r w'] did show ?thesis by (auto simp: call_tool_def)
  next
    case BLOCKED
    with run did show ?thesis by (auto simp: call_tool_def log_tool_call_def bindS_unfold)
  next
    case GATED
    let ?name = "case server_name of None \<Rightarrow> server_id | Some name \<Rightarrow> name"
    obtain q w1 where q: "approve_first exec cfg env n now user tool ?name args w = (q, w1)" by fastforce
    note same = approve_first_executed [OF q]
    from run GATED q same did have "q = Inr ()" "svc"
      by (cases q; auto simp: call_tool_def bindS_unfold split: if_splits)+
    with run GATED q have "bindS (execute_tool conn tool args) (\<lambda>result.
        bindS (log_tool_call tool (tr_success result)) (\<lambda>_. returnS result)) w1 = (r, w')"
      by (simp add: call_tool_def bindS_unfold)
    from exe [OF this] did same have w': "executed w' = executed w @ [(tool, args)]" "store w' = store w1"
      by auto
    obtain t where "shows_approval exec i (store w1) t" "state t = TaskState.COMPLETE"
      using approve_first_shows [OF q [unfolded \<open>q = Inr ()\<close>] i new env] by blast
    with w' GATED complete_by_human show ?thesis by (auto simp: shows_approval_def)
  qed
qed

end


text \<open>A user who approves while the client sleeps.\<close>

lemma look_dump:
  assumes "fetch exec (graph s) i = Some (set_props (set_lits (task_dump t)) p)" "archived_at t = None"
  shows "look exec i s = (case state t of TaskState.COMPLETE \<Rightarrow> Some True
     | TaskState.CANCELLED \<Rightarrow> Some False | TaskState.BLOCKED \<Rightarrow> Some False | _ \<Rightarrow> None)"
proof -
  let ?p = "set_props (set_lits (task_dump t)) p"
  have get: "dict_get (task_dump t) ''archived_at'' = Some PNone"
    "dict_get (task_dump t) ''state'' = Some (PStr (TaskState_value (state t)))"
    using assms(2) by (simp_all add: task_dump_def dict_simps dump_enum_def dump_opt_def)
  have "dict_get ?p ''archived_at'' = None" "dict_get ?p ''state'' = Some (PStr (TaskState_value (state t)))"
    by (simp_all add: dict_get_set_props_dump task_dump_ok get)
  then show ?thesis
    using assms(1) by (cases "state t") (simp_all add: look_def visible_def verdict_def get_truthy_def)
qed

definition user_approves :: "int \<Rightarrow> mem_graph session \<Rightarrow> mem_graph session" where
  "user_approves e s = s\<lparr>graph := snd (mem_exec (MatchIdSet ''TSK-BO-0007-APR''
     (set_lits (task_dump (approved_task\<lparr>node_id := ''TSK-BO-0007-APR''\<rparr>)))) (graph s))\<rparr>"

lemma user_approves_fetch:
  assumes "fetch mem_exec (graph s) ''TSK-BO-0007-APR'' = Some p"
  shows "fetch mem_exec (graph (user_approves e s)) ''TSK-BO-0007-APR'' =
    Some (set_props (set_lits (task_dump (approved_task\<lparr>node_id := ''TSK-BO-0007-APR''\<rparr>))) p)"
proof -
  let ?t = "approved_task\<lparr>node_id := ''TSK-BO-0007-APR''\<rparr>"
  have "keeps_id (node_id ?t) (set_lits (task_dump ?t))" by (rule keeps_id_dump)
  then have k: "keeps_id ''TSK-BO-0007-APR'' (set_lits (task_dump ?t))" by simp
  show ?thesis
    using mem.fetch_set [OF k, of "graph s"] assms by (simp add: user_approves_def del: mem_exec.simps)
qed

lemma approved_reachable: "reachable (approved_task\<lparr>node_id := i\<rparr>)"
  by (rule reachable.step [OF approved_task_reachable], rule sm_step.edit) simp_all

lemma user_approves_uses_machine: "env_uses_machine mem_exec ''TSK-BO-0007-APR'' user_approves"
  unfolding env_uses_machine_def
proof (intro allI impI)
  let ?t = "approved_task\<lparr>node_id := ''TSK-BO-0007-APR''\<rparr>"
  fix e s t assume "shows_approval mem_exec ''TSK-BO-0007-APR'' s t"
  then obtain p where "fetch mem_exec (graph s) ''TSK-BO-0007-APR'' = Some p"
    by (auto simp: shows_approval_def)
  note f = user_approves_fetch [OF this, of e]
  have "dict_get (task_dump ?t) ''state'' = Some (PStr (TaskState_value (state ?t)))"
    by (simp add: task_dump_def dict_simps dump_enum_def)
  then have "shows_approval mem_exec ''TSK-BO-0007-APR'' (user_approves e s) ?t"
    unfolding shows_approval_def f
    by (simp add: approved_reachable dict_get_set_props_dump task_dump_ok)
      (simp add: approved_task_def example_defs)
  then show "\<exists>t'. shows_approval mem_exec ''TSK-BO-0007-APR'' (user_approves e s) t'" by blast
qed

definition echo_server :: mcp_connection where
  "echo_server tool args = Inr \<lparr>response_content = [TextItem args], is_error = False\<rparr>"

lemma find_upt_1: "1 < n \<Longrightarrow> \<not> P 0 \<Longrightarrow> P 1 \<Longrightarrow> find P [0..<n] = Some (1 :: nat)"
  by (simp add: upt_conv_Cons)

lemma approve_first_example:
  "\<exists>w1. approve_first mem_exec agent_cfg user_approves 7 (utc_dt 0) ''USER-bob'' ''mail'' ''MCP-1'' ''{}''
      empty_world = (Inr (), w1)"
proof -
  let ?i = "''TSK-BO-0007-APR''" and ?t = "approved_task\<lparr>node_id := ''TSK-BO-0007-APR''\<rparr>"
  let ?a = "approval_task ?i (utc_dt 0) ''USER-bob'' ''mail'' ''MCP-1'' ''{}''"
  have i: "?i = generate_task_id 7 (extract_initials ''USER-bob'') TaskType.APPROVAL" by code_simp
  from mem_create.request_approval_run [OF agent_cfg_open i, of "utc_dt 0" "''mail''" "''MCP-1''" "''{}''" empty_world]
  obtain w0 where w0: "request_approval mem_exec agent_cfg 7 (utc_dt 0) ''USER-bob'' ''mail'' ''MCP-1'' ''{}''
      empty_world = (Inr ?i, w0)"
    "graph (store w0) = snd (mem_exec (Create (resolve_label (TaskObj ?a)) (set_lits (task_dump ?a)))
      (graph (store empty_world)))" by blast
  have f0: "fetch mem_exec (graph (store w0)) ?i = Some (set_props (set_lits (task_dump ?a)) [])"
    using mem_create.fetch_created(1) [of "graph (store empty_world)" ?a] w0(2) empty_world_fetch
    by simp
  have "archived_at ?a = None" by (simp add: approval_task_def new_TaskNode_def)
  with look_dump [OF f0] have l0: "look mem_exec ?i (store w0) = None" by simp
  have "archived_at ?t = None" "state ?t = TaskState.COMPLETE"
    by (simp_all add: approved_task_def example_defs)
  with look_dump [OF user_approves_fetch [OF f0], of 0]
  have l1: "look mem_exec ?i (user_approves 0 (store w0)) = Some True" by simp
  have "1 < polls 3600 5" by (simp add: polls_def)
  from find_upt_1 [OF this, of "\<lambda>j. look mem_exec ?i (env_after user_approves 5 j (store w0)) \<noteq> None"] l0 l1
  have "find (\<lambda>j. look mem_exec ?i (env_after user_approves 5 j (store w0)) \<noteq> None) [0..<polls 3600 5] = Some 1"
    by simp
  with l1 have "wait_for_approval mem_exec agent_cfg user_approves ?i 3600 5 w0 =
      (Inr True, w0\<lparr>store := user_approves 0 (store w0)\<rparr>)"
    by (simp only: mem.wait_eq [OF agent_cfg_open zero_less_numeral] option.case) simp
  with w0(1) show ?thesis by (simp add: approve_first_def bindS_unfold)
qed


end
