(* ===== verification/GC_Delegation.thy ===== *)
theory GC_Delegation
  imports GC_Approvals
begin

section \<open>Delegation (\<open>agent/delegation.py\<close>)\<close>

text \<open>
  \<open>DelegationService\<close>: hand a task to another user, with a visibility grant and an approval
  task if asked for, and take it back. Ids and the clock are arguments. What was written before
  an exception stays written.
\<close>

record VisibilityGrantNode = BaseNode +
  grantor_user_id :: string
  granted_to_user_id :: string
  target_node_id :: string
  target_node_type :: string
  grant_scope :: VisibilityScope
  granted_at :: py_datetime
  revoked_at :: "py_datetime option"
  revoked_by :: "string option"
  grant_reason :: string

definition VisibilityGrantNode_dump :: "VisibilityGrantNode \<Rightarrow> props" where
  "VisibilityGrantNode_dump x = [
     (''id'', PStr (node_id x)),
     (''created_at'', PTime (created_at x)),
     (''updated_at'', PTime (updated_at x)),
     (''version'', PInt (version x)),
     (''archived_at'', dump_opt PTime (archived_at x)),
     (''archived_by'', dump_opt PStr (archived_by x)),
     (''archive_reason'', dump_opt PStr (archive_reason x)),
     (''purge_after'', dump_opt PTime (purge_after x)),
     (''purge_cancelled_at'', dump_opt PTime (purge_cancelled_at x)),
     (''legal_hold'', PBool (legal_hold x)),
     (''hold_reason'', dump_opt PStr (hold_reason x)),
     (''hold_set_by'', dump_opt PStr (hold_set_by x)),
     (''hold_set_at'', dump_opt PTime (hold_set_at x)),
     (''link_status'', dump_opt PStr (link_status x)),
     (''grantor_user_id'', PStr (grantor_user_id x)),
     (''granted_to_user_id'', PStr (granted_to_user_id x)),
     (''target_node_id'', PStr (target_node_id x)),
     (''target_node_type'', PStr (target_node_type x)),
     (''scope'', dump_enum VisibilityScope_value (grant_scope x)),
     (''granted_at'', PTime (granted_at x)),
     (''revoked_at'', dump_opt PTime (revoked_at x)),
     (''revoked_by'', dump_opt PStr (revoked_by x)),
     (''reason'', PStr (grant_reason x))]"

definition generate_grant_id :: "string \<Rightarrow> string" where
  "generate_grant_id uuid = generate_id ''GRANT'' uuid"

definition validate_grant_id :: "string \<Rightarrow> bool" where
  "validate_grant_id v \<longleftrightarrow> ID_PATTERN_match ''GRANT'' v"

definition delegation_grant ::
  "string \<Rightarrow> py_datetime \<Rightarrow> string \<Rightarrow> string \<Rightarrow> string \<Rightarrow> VisibilityGrantNode" where
  "delegation_grant grant_id now from_user_id to_user_id task_id = \<lparr>node_id = grant_id,
     created_at = now, updated_at = now, version = 0, archived_at = None, archived_by = None,
     archive_reason = None, purge_after = None, purge_cancelled_at = None, legal_hold = False,
     hold_reason = None, hold_set_by = None, hold_set_at = None, link_status = None,
     grantor_user_id = from_user_id, granted_to_user_id = to_user_id, target_node_id = task_id,
     target_node_type = ''TaskNode'', grant_scope = VisibilityScope.EDITOR, granted_at = now,
     revoked_at = None, revoked_by = None, grant_reason = ''Delegated by '' @ from_user_id\<rparr>"

definition int_text :: "int \<Rightarrow> string" where
  "int_text i = (if i < 0 then ''-'' @ dec_string (nat (- i)) else dec_string (nat i))"

definition quoted :: "string \<Rightarrow> string" where
  "quoted s = [squote] @ s @ [squote]"

definition delegation_approval :: "string \<Rightarrow> py_datetime \<Rightarrow> TaskNode \<Rightarrow> string \<Rightarrow> string \<Rightarrow>
    string \<Rightarrow> int \<Rightarrow> string option \<Rightarrow> string \<Rightarrow> TaskNode" where
  "delegation_approval approval_id now task task_id from_user_id to_user_id wait_days
     escalation_target action =
     (new_TaskNode approval_id now TaskType.APPROVAL (''Delegation approval: '' @ title task)
        (''Tracks the delegation of task '' @ quoted task_id @ '' from user '' @ quoted from_user_id @
         '' to '' @ quoted to_user_id @ ''. Escalates after '' @ int_text wait_days @ '' days.''))
       \<lparr>created_by := Some from_user_id, owned_by := Some from_user_id, assigned_to := Some to_user_id,
        type_metadata := Some (ApprovalMetadata to_user_id
          (Some (''Complete delegated task '' @ quoted task_id @ '' within '' @ int_text wait_days @
             '' days.''))
          None None wait_days escalation_target action (Some from_user_id) False None None)\<rparr>"

record DelegationResult =
  dr_task_id :: string
  dr_delegated_to :: string
  dr_grant_id :: "string option"
  dr_approval_id :: "string option"

datatype delegation_error =
    DelegationStoreError py_error
  | DelegationError string
  | DelegationValidationError

type_synonym ('g, 'a) del_op = "('g session, delegation_error, 'a) io"

definition dstore :: "('g, 'a) op \<Rightarrow> ('g, 'a) del_op" where
  "dstore m = (\<lambda>s. case m s of
     (Inl e, s') \<Rightarrow> (Inl (DelegationStoreError e), s') | (Inr a, s') \<Rightarrow> (Inr a, s'))"

text \<open>Load the task with \<open>TaskNode.model_validate(raw_task)\<close> and check the owner.\<close>

definition load_owned ::
  "'g database \<Rightarrow> store_cfg \<Rightarrow> string \<Rightarrow> string \<Rightarrow> ('g, TaskNode) del_op" where
  "load_owned exec cfg task_id from_user_id =
     bindS (dstore (get_node exec cfg task_id False None)) (\<lambda>raw_task. case raw_task of
       None \<Rightarrow> raiseS (DelegationError (''Task '' @ quoted task_id @ '' not found.''))
     | Some p \<Rightarrow> (case task_validate (dict_get p) of
         None \<Rightarrow> raiseS DelegationValidationError
       | Some task \<Rightarrow>
           if owned_by task \<noteq> Some from_user_id \<and> created_by task \<noteq> Some from_user_id
           then raiseS (DelegationError (''User '' @ quoted from_user_id @
                  '' is not the owner of task '' @ quoted task_id @ ''.''))
           else returnS task))"

definition make_grant :: "'g database \<Rightarrow> store_cfg \<Rightarrow> string \<Rightarrow> py_datetime \<Rightarrow> string \<Rightarrow> string \<Rightarrow>
    string \<Rightarrow> ('g, string option) del_op" where
  "make_grant exec cfg uuid now task_id from_user_id to_user_id =
     (let grant_id = generate_grant_id uuid
      in if \<not> validate_grant_id grant_id then raiseS DelegationValidationError
         else bindS (dstore (create_node exec cfg (OtherObj None ''VisibilityGrantNode''
                (VisibilityGrantNode_dump (delegation_grant grant_id now from_user_id to_user_id task_id)))
                None)) (\<lambda>_.
              bindS (dstore (create_edge exec grant_id task_id (EdgeType_value EdgeType.GRANTS_ACCESS_TO)
                [(''granted_at'', PTime now)])) (\<lambda>_. returnS (Some grant_id))))"

definition make_approval :: "'g database \<Rightarrow> store_cfg \<Rightarrow> nat \<Rightarrow> py_datetime \<Rightarrow> TaskNode \<Rightarrow> string \<Rightarrow>
    string \<Rightarrow> string \<Rightarrow> int \<Rightarrow> string option \<Rightarrow> string \<Rightarrow> ('g, string option) del_op" where
  "make_approval exec cfg n now task task_id from_user_id to_user_id wait_days
     escalation_target action =
     (let approval_id = generate_task_id n (extract_initials from_user_id) TaskType.APPROVAL
      in if \<not> (1 \<le> wait_days \<and> wait_days \<le> 90) \<or> \<not> TASK_ID_PATTERN_match approval_id
         then raiseS DelegationValidationError
         else bindS (dstore (create_node exec cfg (TaskObj (delegation_approval approval_id now task
                task_id from_user_id to_user_id wait_days escalation_target action)) None)) (\<lambda>_.
              bindS (dstore (create_edge exec approval_id task_id (EdgeType_value EdgeType.SPAWNED_FROM)
                [(''reason'', PStr ''delegation_approval'')])) (\<lambda>_. returnS (Some approval_id))))"

definition delegate_task :: "'g database \<Rightarrow> store_cfg \<Rightarrow> string \<Rightarrow> nat \<Rightarrow> py_datetime \<Rightarrow> string \<Rightarrow>
    string \<Rightarrow> string \<Rightarrow> bool \<Rightarrow> bool \<Rightarrow> int \<Rightarrow> string option \<Rightarrow> string \<Rightarrow> ('g, DelegationResult) del_op" where
  "delegate_task exec cfg uuid n now task_id from_user_id to_user_id create_visibility_grant
     require_approval wait_days escalation_target action =
     bindS (load_owned exec cfg task_id from_user_id) (\<lambda>task.
     bindS (if create_visibility_grant
            then make_grant exec cfg uuid now task_id from_user_id to_user_id
            else returnS None) (\<lambda>grant_id.
     bindS (dstore (update_node exec cfg task_id
         [(''assigned_to'', PStr to_user_id), (''updated_at'', PTime now)] None)) (\<lambda>_.
     bindS (if require_approval
            then make_approval exec cfg n now task task_id from_user_id to_user_id wait_days
              escalation_target action
            else returnS None) (\<lambda>approval_id.
       returnS \<lparr>dr_task_id = task_id, dr_delegated_to = to_user_id, dr_grant_id = grant_id,
         dr_approval_id = approval_id\<rparr>))))"

text \<open>\<open>raw_grant["id"]\<close> raises when the row has no id.\<close>

definition revoke_grant :: "'g database \<Rightarrow> store_cfg \<Rightarrow> py_datetime \<Rightarrow> string \<Rightarrow> props \<Rightarrow> unit \<Rightarrow>
    ('g, unit) del_op" where
  "revoke_grant exec cfg now from_user_id raw_grant u = (case dict_get raw_grant ''id'' of
     Some (PStr i) \<Rightarrow> bindS (dstore (update_node exec cfg i
       [(''revoked_at'', PTime now), (''revoked_by'', PStr from_user_id), (''updated_at'', PTime now)]
       None)) (\<lambda>_. returnS ())
   | _ \<Rightarrow> raiseS (DelegationStoreError (PyKeyError ''id'')))"

definition active_grants :: "'g database \<Rightarrow> store_cfg \<Rightarrow> string \<Rightarrow> string \<Rightarrow> ('g, props list) op" where
  "active_grants exec cfg task_id from_user_id =
     list_nodes exec cfg ''VisibilityGrantNode''
       [(''grantor_user_id'', PStr from_user_id), (''target_node_id'', PStr task_id),
        (''revoked_at'', PNone)] None"

definition revoke_delegation ::
  "'g database \<Rightarrow> store_cfg \<Rightarrow> py_datetime \<Rightarrow> string \<Rightarrow> string \<Rightarrow> ('g, unit) del_op" where
  "revoke_delegation exec cfg now task_id from_user_id =
     bindS (load_owned exec cfg task_id from_user_id) (\<lambda>task.
     bindS (dstore (update_node exec cfg task_id
         [(''assigned_to'', PNone), (''updated_at'', PTime now)] None)) (\<lambda>_.
     bindS (dstore (active_grants exec cfg task_id from_user_id)) (\<lambda>grant_nodes.
       forS (revoke_grant exec cfg now from_user_id) grant_nodes ())))"

subsection \<open>Who may delegate\<close>

lemma dstore_eq: "dstore m s = (case m s of (Inl e, s') \<Rightarrow> (Inl (DelegationStoreError e), s')
    | (Inr a, s') \<Rightarrow> (Inr a, s'))"
  by (simp add: dstore_def)

context cypher_service
begin

lemma load_owned_cases:
  "load_owned exec cfg i u s =
    (case require_caller_context cfg None of Inl e \<Rightarrow> (Inl (DelegationStoreError e), s)
     | Inr _ \<Rightarrow> (case visible False (fetch exec (graph s) i) of
         None \<Rightarrow> (Inl (DelegationError (''Task '' @ quoted i @ '' not found.'')), s)
       | Some p \<Rightarrow> (case task_validate (dict_get p) of
           None \<Rightarrow> (Inl DelegationValidationError, s)
         | Some task \<Rightarrow> if owned_by task \<noteq> Some u \<and> created_by task \<noteq> Some u
             then (Inl (DelegationError (''User '' @ quoted u @ '' is not the owner of task '' @
                    quoted i @ ''.'')), s)
             else (Inr task, s))))"
  by (simp add: load_owned_def dstore_eq bindS_unfold get_node_eq split: sum.split option.split)

lemma load_owned_state: "snd (load_owned exec cfg i u s) = s"
  by (simp add: load_owned_cases split: sum.split option.split)

lemma load_owned_ok:
  assumes "load_owned exec cfg i u s = (Inr task, s')"
  shows "\<exists>p. fetch exec (graph s) i = Some p \<and> task_validate (dict_get p) = Some task \<and>
    (owned_by task = Some u \<or> created_by task = Some u)"
  using assms by (auto simp: load_owned_cases visible_def split: sum.splits option.splits if_splits)

end

text \<open>
  Only the owner or the creator moves a task. If delegating or revoking changed
  anything in the session, even when the call raised later, the node is a task that validates
  and the caller owns it or created it.
\<close>

theorem only_owner_delegates:
  assumes "cypher_service exec" "s' \<noteq> s"
    and "s' = snd (delegate_task exec cfg uuid n now i from_user to_user grant approval days target action s) \<or>
      s' = snd (revoke_delegation exec cfg now i from_user s)"
  shows "\<exists>p task. fetch exec (graph s) i = Some p \<and> task_validate (dict_get p) = Some task \<and>
    (owned_by task = Some from_user \<or> created_by task = Some from_user)"
proof -
  obtain r t where run: "load_owned exec cfg i from_user s = (r, t)" by fastforce
  with cypher_service.load_owned_state [OF assms(1), of cfg i from_user s] have "t = s" by simp
  have "\<exists>task. r = Inr task"
    using assms(2,3) run \<open>t = s\<close>
    by (cases r) (auto simp: delegate_task_def revoke_delegation_def bindS_unfold)
  with run show ?thesis using cypher_service.load_owned_ok [OF assms(1)] by blast
qed

definition plain_row :: "string \<Rightarrow> props" where
  "plain_row owner = [(''id'', PStr ''TSK-AB-1234-ATM''), (''created_at'', PTime (utc_dt 0)),
     (''updated_at'', PTime (utc_dt 0)), (''task_type'', PStr ''ATOMIC''), (''title'', PStr ''Ship''),
     (''description'', PStr ''Ship it''), (''owned_by'', PStr owner)]"

definition plain_session :: "mem_graph session" where
  "plain_session = \<lparr>graph = \<lparr>vertices = [(''TaskAtomic'', plain_row ''USER-a'')], relations = [],
     next_rel = 0\<rparr>, spawned = [], notified = []\<rparr>"

lemma plain_fetch:
  "fetch mem_exec (graph plain_session) i =
     (if i = ''TSK-AB-1234-ATM'' then Some (plain_row ''USER-a'') else None)"
  by (simp add: fetch_def plain_session_def node_rows_def has_id_def plain_row_def dict_simps)

lemma plain_owned: "\<exists>task. task_validate (dict_get (plain_row ''USER-a'')) = Some task \<and>
    owned_by task = Some ''USER-a'' \<and> title task = ''Ship''"
proof -
  have "(case task_validate (dict_get (plain_row ''USER-a'')) of None \<Rightarrow> False
     | Some task \<Rightarrow> owned_by task = Some ''USER-a'' \<and> title task = ''Ship'')"
    by code_simp
  then show ?thesis by (auto split: option.splits)
qed


subsection \<open>What a delegation leaves behind\<close>

locale linking_service = creating_service +
  assumes edge_frame: "fst (exec (MatchId j) (snd (exec (CreateEdge a b ty m) g))) =
    fst (exec (MatchId j) g)"

interpretation mem_link: linking_service mem_exec
  by unfold_locales (simp add: add_relation_def)

lemma grant_dump_facts:
  "dict_ok (VisibilityGrantNode_dump x)" "list_all KEY_RE_match (dict_keys (VisibilityGrantNode_dump x))"
  "dict_get (VisibilityGrantNode_dump x) ''id'' = Some (PStr (node_id x))"
  by (simp add: dict_ok_def VisibilityGrantNode_dump_def)
    (simp_all add: dict_keys_def VisibilityGrantNode_dump_def dict_simps KEY_RE_match_def chomp_def
      newline_def is_upper_def is_lower_def)

lemma task_dump_id: "dict_get (task_dump t) ''id'' = Some (PStr (node_id t))"
  by (simp add: task_dump_def dict_simps)

lemma grant_id_valid: "uuid_text uuid \<Longrightarrow> validate_grant_id (generate_grant_id uuid)"
  by (simp add: validate_grant_id_def generate_grant_id_def generated_id_matches)

text \<open>Creating a node whose dump is \<open>d\<close> and linking it to another node.\<close>

definition adds_node :: "'g database \<Rightarrow> string \<Rightarrow> props \<Rightarrow> 'g session \<Rightarrow> 'g session \<Rightarrow> bool" where
  "adds_node exec i d s s' \<longleftrightarrow> (\<forall>j. fetch exec (graph s') j =
     (if j = i then Some (set_props (set_lits d) []) else fetch exec (graph s) j))"

context linking_service
begin

lemma create_node_adds:
  assumes "create_node exec cfg x ctx s = (Inr p, s')" "list_all KEY_RE_match (dict_keys (node_dump x))"
    and "dict_ok (node_dump x)" "dict_get (node_dump x) ''id'' = Some (PStr i)"
    and "fetch exec (graph s) i = None"
  shows "adds_node exec i (node_dump x) s s'"
proof -
  have g: "graph s' = snd (exec (Create (resolve_label x) (set_lits (node_dump x))) (graph s))"
    using assms(1) by (auto simp: create_node_def bindS_unfold run_query_def split_def Let_def whenS_def
        spawn_embedding_def to_cypher_map_ok [OF assms(2)] split: if_splits sum.splits)
  have id: "dict_ok (set_lits (node_dump x))"
    "dict_get (set_lits (node_dump x)) ''id'' = Some (CStr (PStr i))"
    by (simp_all add: assms(3,4) dict_get_set_lits)
  have new: "fst (exec (MatchId i) (graph s)) = []"
    using assms(5) by (simp add: fetch_def split: list.splits)
  show ?thesis
    using create_match [OF id new, of "resolve_label x"] create_frame [OF id, of _ "resolve_label x" "graph s"]
    by (auto simp: adds_node_def g fetch_def)
qed

lemma create_edge_frame:
  assumes "create_edge exec a b ty m s = (r, s')"
  shows "fetch exec (graph s') j = fetch exec (graph s) j"
  using assms by (auto simp: create_edge_def bindS_unfold run_query_def split_def fetch_def edge_frame
      Let_def split: sum.splits)

lemma node_and_edge_adds:
  assumes "bindS (dstore (create_node exec cfg x None)) (\<lambda>_.
      bindS (dstore (create_edge exec i b ty m)) (\<lambda>_. returnS v)) s = (Inr r, s')"
    and "list_all KEY_RE_match (dict_keys (node_dump x))"
    and "dict_ok (node_dump x)" "dict_get (node_dump x) ''id'' = Some (PStr i)"
    and "fetch exec (graph s) i = None"
  shows "r = v \<and> adds_node exec i (node_dump x) s s'"
proof -
  obtain q s1 where c: "create_node exec cfg x None s = (q, s1)" by fastforce
  obtain e s2 where l: "create_edge exec i b ty m s1 = (e, s2)" by fastforce
  from assms(1) c l obtain p where "q = Inr p" "r = v" "s' = s2"
    by (cases q; cases e) (auto simp: bindS_unfold dstore_eq)
  moreover from this c have "adds_node exec i (node_dump x) s s1"
    using create_node_adds [OF _ assms(2-5)] by blast
  ultimately show ?thesis
    using create_edge_frame [OF l] by (simp add: adds_node_def)
qed

lemma make_grant_ok:
  assumes "make_grant exec cfg uuid now i u v s = (Inr r, s')"
    and "fetch exec (graph s) (generate_grant_id uuid) = None"
  shows "r = Some (generate_grant_id uuid) \<and> adds_node exec (generate_grant_id uuid)
    (VisibilityGrantNode_dump (delegation_grant (generate_grant_id uuid) now u v i)) s s'"
proof -
  let ?x = "OtherObj None ''VisibilityGrantNode''
    (VisibilityGrantNode_dump (delegation_grant (generate_grant_id uuid) now u v i))"
  from assms(1) have "bindS (dstore (create_node exec cfg ?x None)) (\<lambda>_.
      bindS (dstore (create_edge exec (generate_grant_id uuid) i (EdgeType_value EdgeType.GRANTS_ACCESS_TO)
        [(''granted_at'', PTime now)])) (\<lambda>_. returnS (Some (generate_grant_id uuid)))) s = (Inr r, s')"
    by (simp add: make_grant_def Let_def split: if_splits)
  from node_and_edge_adds [OF this] assms(2) grant_dump_facts show ?thesis
    by (simp add: delegation_grant_def)
qed

lemma make_approval_ok:
  assumes "make_approval exec cfg n now task i u v days target action s = (Inr r, s')"
    and k: "k = generate_task_id n (extract_initials u) TaskType.APPROVAL"
    and "fetch exec (graph s) k = None"
  shows "r = Some k \<and> 1 \<le> days \<and> days \<le> 90 \<and>
    adds_node exec k (task_dump (delegation_approval k now task i u v days target action)) s s'"
proof -
  let ?x = "TaskObj (delegation_approval k now task i u v days target action)"
  have id: "node_id (delegation_approval k now task i u v days target action) = k"
    by (simp add: delegation_approval_def new_TaskNode_def)
  from assms(1) have "bindS (dstore (create_node exec cfg ?x None)) (\<lambda>_.
      bindS (dstore (create_edge exec k i (EdgeType_value EdgeType.SPAWNED_FROM)
        [(''reason'', PStr ''delegation_approval'')])) (\<lambda>_. returnS (Some k))) s = (Inr r, s')"
    and days: "1 \<le> days \<and> days \<le> 90"
    by (simp_all add: make_approval_def Let_def k split: if_splits)
  from node_and_edge_adds [OF this(1)] assms(3) dump_key_ok task_dump_ok task_dump_id id days
  show ?thesis by simp
qed

text \<open>Without a raise the four steps ran one after the other.\<close>

lemma delegate_task_steps:
  assumes "delegate_task exec cfg uuid n now i u v grant approval days target action s = (Inr res, s')"
  obtains task s1 s2 gid aid where "load_owned exec cfg i u s = (Inr task, s)"
    "(if grant then make_grant exec cfg uuid now i u v else returnS None) s = (Inr gid, s1)"
    "\<exists>w. update_node exec cfg i [(''assigned_to'', PStr v), (''updated_at'', PTime now)] None s1 = (Inr w, s2)"
    "(if approval then make_approval exec cfg n now task i u v days target action else returnS None) s2 =
       (Inr aid, s')"
    "res = \<lparr>dr_task_id = i, dr_delegated_to = v, dr_grant_id = gid, dr_approval_id = aid\<rparr>"
proof -
  obtain q s0 where q: "load_owned exec cfg i u s = (q, s0)" by fastforce
  then have s0: "s0 = s" using load_owned_state [of cfg i u s] by simp
  obtain g s1 where g: "(if grant then make_grant exec cfg uuid now i u v else returnS None) s = (g, s1)"
    by fastforce
  obtain w s2 where w: "update_node exec cfg i [(''assigned_to'', PStr v), (''updated_at'', PTime now)]
      None s1 = (w, s2)" by fastforce
  have "\<exists>task. q = Inr task"
    using assms q by (cases q) (auto simp: delegate_task_def bindS_unfold)
  then obtain task where task: "q = Inr task" by blast
  obtain a s3 where a: "(if approval then make_approval exec cfg n now task i u v days
      target action else returnS None) s2 = (a, s3)" by fastforce
  have "\<exists>gid w' aid. g = Inr gid \<and> w = Inr w' \<and> a = Inr aid \<and> s3 = s' \<and>
      res = \<lparr>dr_task_id = i, dr_delegated_to = v, dr_grant_id = gid, dr_approval_id = aid\<rparr>"
    using assms q s0 g w a
    by (cases g; cases w; cases a) (simp_all add: task delegate_task_def bindS_unfold dstore_eq)
  then show ?thesis using q task s0 g w a that by auto
qed

lemma delegate_effect:
  assumes run: "delegate_task exec cfg uuid n now i u v grant approval days target action s = (Inr res, s')"
    and gi: "gi = generate_grant_id uuid" and ki: "ki = generate_task_id n (extract_initials u) TaskType.APPROVAL"
    and new: "grant \<Longrightarrow> fetch exec (graph s) gi = None" "approval \<Longrightarrow> fetch exec (graph s) ki = None"
      "gi \<noteq> ki"
  shows "\<exists>p p' task. fetch exec (graph s) i = Some p \<and> task_validate (dict_get p) = Some task \<and>
    fetch exec (graph s') i = Some p' \<and> dict_get p' ''assigned_to'' = Some (PStr v) \<and>
    (\<forall>k. k \<notin> {''assigned_to'', ''updated_at''} \<longrightarrow> dict_get p' k = dict_get p k) \<and>
    (grant \<longrightarrow> dr_grant_id res = Some gi \<and> fetch exec (graph s') gi =
       Some (set_props (set_lits (VisibilityGrantNode_dump (delegation_grant gi now u v i))) [])) \<and>
    (approval \<longrightarrow> dr_approval_id res = Some ki \<and> 1 \<le> days \<and> days \<le> 90 \<and> fetch exec (graph s') ki =
       Some (set_props (set_lits (task_dump (delegation_approval ki now task i u v days target action))) [])) \<and>
    (\<forall>j. j \<noteq> i \<and> (grant \<longrightarrow> j \<noteq> gi) \<and> (approval \<longrightarrow> j \<noteq> ki) \<longrightarrow>
       fetch exec (graph s') j = fetch exec (graph s) j)"
proof -
  let ?upd = "[(''assigned_to'', PStr v), (''updated_at'', PTime now)]"
  from run obtain task s1 s2 gid aid w where st: "load_owned exec cfg i u s = (Inr task, s)"
    "(if grant then make_grant exec cfg uuid now i u v else returnS None) s = (Inr gid, s1)"
    "update_node exec cfg i ?upd None s1 = (Inr w, s2)"
    "(if approval then make_approval exec cfg n now task i u v days target action else returnS None) s2 =
       (Inr aid, s')"
    "res = \<lparr>dr_task_id = i, dr_delegated_to = v, dr_grant_id = gid, dr_approval_id = aid\<rparr>"
    by (rule delegate_task_steps) blast
  obtain p where p: "fetch exec (graph s) i = Some p" "task_validate (dict_get p) = Some task"
    using load_owned_ok [OF st(1)] by blast
  have ne: "grant \<Longrightarrow> i \<noteq> gi" "approval \<Longrightarrow> i \<noteq> ki" using new(1,2) p(1) by auto
  have f1: "fetch exec (graph s1) j = (if grant \<and> j = gi
      then Some (set_props (set_lits (VisibilityGrantNode_dump (delegation_grant gi now u v i))) [])
      else fetch exec (graph s) j)" for j
    using st(2) make_grant_ok [of cfg uuid now i u v s gid s1, folded gi] new(1)
    by (auto simp: adds_node_def split: if_splits)
  have gid: "grant \<Longrightarrow> gid = Some gi"
    using st(2) make_grant_ok [of cfg uuid now i u v s gid s1, folded gi] new(1) by auto
  have keep: "keeps_id i (set_lits ?upd)" by (simp add: keeps_id_def set_lits_def)
  from st(3) have "graph s2 = snd (exec (MatchIdSet i (set_lits ?upd)) (graph s1))"
    by (cases rule: update_node_cases) auto
  then have f2: "fetch exec (graph s2) j = (if j = i then Some (set_props (set_lits ?upd) p)
      else fetch exec (graph s1) j)" for j
    using ne p(1) by (auto simp: fetch_set [OF keep] f1)
  have "approval \<Longrightarrow> fetch exec (graph s2) ki = None"
    using new ne by (simp add: f1 f2)
  then have f3: "approval \<Longrightarrow> aid = Some ki \<and> 1 \<le> days \<and> days \<le> 90 \<and>
      adds_node exec ki (task_dump (delegation_approval ki now task i u v days target action)) s2 s'"
    using st(4) make_approval_ok [OF _ ki, of cfg now task i v days target action s2 aid s'] by simp
  have f4: "\<not> approval \<Longrightarrow> s' = s2" using st(4) by simp
  have upd: "dict_get (set_props (set_lits ?upd) p) k = (if k = ''assigned_to'' then Some (PStr v)
      else if k = ''updated_at'' then Some (PTime now) else dict_get p k)" for k
    by (simp add: dict_get_set_props_dump dict_ok_def dict_simps)
  show ?thesis
    by (intro exI [of _ p] exI [of _ "set_props (set_lits ?upd) p"] exI [of _ task], cases approval)
      (use p f1 f2 f3 f4 gid new ne in \<open>auto simp: upd adds_node_def st(5)\<close>)
qed

end


lemma create_node_total:
  "require_caller_context cfg ctx = Inr () \<Longrightarrow> list_all KEY_RE_match (dict_keys (node_dump x)) \<Longrightarrow>
     \<exists>p s'. create_node exec cfg x ctx s = (Inr p, s')"
  by (auto simp: create_node_def bindS_unfold to_cypher_map_ok run_query_def split_def Let_def
      whenS_def spawn_embedding_def)

lemma create_edge_total:
  "list_all KEY_RE_match (dict_keys m) \<Longrightarrow> \<exists>p s'. create_edge exec a b ty m s = (Inr p, s')"
  by (auto simp: create_edge_def bindS_unfold to_cypher_map_ok run_query_def split_def Let_def)

lemma make_grant_total:
  assumes "require_caller_context cfg None = Inr ()" "validate_grant_id (generate_grant_id uuid)"
  shows "\<exists>g s'. make_grant exec cfg uuid now i u v s = (Inr g, s')"
proof -
  let ?x = "OtherObj None ''VisibilityGrantNode''
    (VisibilityGrantNode_dump (delegation_grant (generate_grant_id uuid) now u v i))"
  obtain p s1 where "create_node exec cfg ?x None s = (Inr p, s1)"
    using create_node_total [OF assms(1), of ?x exec s] by (auto simp: grant_dump_facts)
  moreover have "list_all KEY_RE_match (dict_keys [(''granted_at'', PTime now)])"
    by (simp add: dict_keys_def KEY_RE_match_def chomp_def newline_def is_upper_def is_lower_def)
  then obtain e s2 where "create_edge exec (generate_grant_id uuid) i
      (EdgeType_value EdgeType.GRANTS_ACCESS_TO) [(''granted_at'', PTime now)] s1 = (Inr e, s2)"
    using create_edge_total by blast
  ultimately show ?thesis
    by (simp add: make_grant_def Let_def assms(2) bindS_unfold dstore_eq del: node_dump.simps)
qed

lemma delegation_example:
  "\<exists>res s'. delegate_task mem_exec agent_cfg ''u1'' 7 (utc_dt 9) ''TSK-AB-1234-ATM'' ''USER-a'' ''USER-b''
     True False 7 None ''REASSIGN'' plain_session = (Inr res, s')"
proof -
  obtain task where task: "task_validate (dict_get (plain_row ''USER-a'')) = Some task"
      "owned_by task = Some ''USER-a''" using plain_owned by blast
  have vis: "visible False (Some (plain_row ''USER-a'')) = Some (plain_row ''USER-a'')"
    by (simp add: visible_def get_truthy_def plain_row_def dict_simps)
  have load: "load_owned mem_exec agent_cfg ''TSK-AB-1234-ATM'' ''USER-a'' plain_session =
      (Inr task, plain_session)"
    using task by (simp add: mem.load_owned_cases agent_cfg_open plain_fetch vis)
  have valid: "validate_grant_id (generate_grant_id ''u1'')"
    by (rule grant_id_valid) (simp add: uuid_text_def is_digit_def is_lower_def)
  obtain gid s1 where grant: "make_grant mem_exec agent_cfg ''u1'' (utc_dt 9) ''TSK-AB-1234-ATM''
      ''USER-a'' ''USER-b'' plain_session = (Inr gid, s1)"
    using make_grant_total [OF agent_cfg_open valid] by blast
  have "\<exists>w s2. update_node mem_exec agent_cfg ''TSK-AB-1234-ATM''
      [(''assigned_to'', PStr ''USER-b''), (''updated_at'', PTime (utc_dt 9))] None s1 = (Inr w, s2)"
  proof -
    have "forbidden_fields [(''assigned_to'', PStr ''USER-b''), (''updated_at'', PTime (utc_dt 9))] = []"
      by (simp add: forbidden_fields_def LIFECYCLE_FIELDS_def dict_keys_def)
    then have "\<exists>w. fst (update_node mem_exec agent_cfg ''TSK-AB-1234-ATM''
        [(''assigned_to'', PStr ''USER-b''), (''updated_at'', PTime (utc_dt 9))] None s1) = Inr w"
      using agent_cfg_open by (intro mem.update_node_writes) simp_all
    then show ?thesis by (metis prod.collapse)
  qed
  with load grant show ?thesis by (auto simp: delegate_task_def bindS_unfold dstore_eq)
qed


theorem only_owner_delegates_witness:
  "\<exists>task. task_validate (dict_get (plain_row ''USER-a'')) = Some task \<and>
     (owned_by task = Some ''USER-a'' \<or> created_by task = Some ''USER-a'')"
proof -
  obtain res s' where run: "delegate_task mem_exec agent_cfg ''u1'' 7 (utc_dt 9) ''TSK-AB-1234-ATM''
      ''USER-a'' ''USER-b'' True False 7 None ''REASSIGN'' plain_session = (Inr res, s')"
    using delegation_example by blast
  have ids: "''GRANT-u1'' = generate_grant_id ''u1''" by (simp add: generate_grant_id_def generate_id_def)
  have "''GRANT-u1'' \<noteq> generate_task_id 7 (extract_initials ''USER-a'') TaskType.APPROVAL"
    by (simp add: generate_task_id_def Let_def)
  from mem_link.delegate_effect [OF run ids refl _ _ this]
  have "fetch mem_exec (graph s') ''GRANT-u1'' \<noteq> None" by (auto simp: plain_fetch)
  moreover have "fetch mem_exec (graph plain_session) ''GRANT-u1'' = None" by (simp add: plain_fetch)
  ultimately have "s' \<noteq> plain_session" by auto
  from only_owner_delegates [OF mem.cypher_service_axioms this disjI1 [OF arg_cong [OF run, of snd,
      unfolded snd_conv, symmetric]]] show ?thesis
    by (simp add: plain_fetch)
qed

subsection \<open>Tasks written by the program\<close>

text \<open>
  \<open>model_validate\<close> on a row whose JSON columns were not decoded fails, and every row that
  \<open>create_node\<close> or \<open>update_node\<close> wrote from a task has them as text.
\<close>

lemma raw_json_invalid:
  "dict_get p ''scoring'' = Some (PJson v) \<Longrightarrow> task_validate (dict_get p) = None"
proof -
  assume "dict_get p ''scoring'' = Some (PJson v)"
  then have "dfl (dict_get p) ''scoring'' default_ScoringBlock ScoringBlock_validate = None"
    by (simp add: dfl_def)
  then show ?thesis by (auto simp: task_validate_def bind_eq_None_conv)
qed

text \<open>
  No task that the program itself wrote as a \<open>TaskNode\<close> can be delegated or taken back:
  both calls raise the validation error and change nothing, even for the owner.
\<close>

theorem stored_task_not_delegable:
  assumes "cypher_service exec" "require_caller_context cfg None = Inr ()"
    and "fetch exec (graph s) i = Some (set_props (set_lits (task_dump t)) p)" "archived_at t = None"
  shows "delegate_task exec cfg uuid n now i u v grant approval days target action s =
      (Inl DelegationValidationError, s) \<and>
    revoke_delegation exec cfg now i u s = (Inl DelegationValidationError, s)"
proof -
  let ?p = "set_props (set_lits (task_dump t)) p"
  have "dict_get (task_dump t) ''scoring'' = Some (ScoringBlock_dump (scoring t))"
    "dict_get (task_dump t) ''archived_at'' = Some PNone"
    using assms(4) by (simp_all add: task_dump_def dict_simps dump_opt_def)
  then have "dict_get ?p ''scoring'' = Some (PJson (ScoringBlock_dump (scoring t)))"
    "visible False (Some ?p) = Some ?p"
    by (simp_all add: dict_get_set_props_dump task_dump_ok codec_simps visible_def get_truthy_def)
  then have "load_owned exec cfg i u s = (Inl DelegationValidationError, s)"
    by (simp add: cypher_service.load_owned_cases [OF assms(1)] assms(2,3) raw_json_invalid)
  then show ?thesis by (simp add: delegate_task_def revoke_delegation_def bindS_unfold)
qed

theorem stored_task_not_delegable_witness:
  "fst (delegate_task mem_exec agent_cfg ''u1'' 7 (utc_dt 9) ''TSK-BO-0007-APR'' ''USER-bob'' ''USER-b''
      True False 7 None ''REASSIGN'' \<lparr>graph = \<lparr>vertices = [(''TaskApproval'',
        set_props (set_lits (task_dump (approval_task ''TSK-BO-0007-APR'' (utc_dt 0) ''USER-bob'' [] [] []))) [])],
        relations = [], next_rel = 0\<rparr>, spawned = [], notified = []\<rparr>) = Inl DelegationValidationError"
proof -
  let ?t = "approval_task ''TSK-BO-0007-APR'' (utc_dt 0) ''USER-bob'' [] [] []"
  let ?s = "\<lparr>graph = \<lparr>vertices = [(''TaskApproval'', set_props (set_lits (task_dump ?t)) [])],
      relations = [], next_rel = 0\<rparr>, spawned = [], notified = []\<rparr> :: mem_graph session"
  have "dict_get (set_props (set_lits (task_dump ?t)) []) ''id'' = Some (PStr (node_id ?t))"
    by (simp only: dict_get_set_props_dump task_dump_ok task_dump_id) simp
  then have "fetch mem_exec (graph ?s) ''TSK-BO-0007-APR'' = Some (set_props (set_lits (task_dump ?t)) [])"
    by (simp add: fetch_def node_rows_def has_id_def)
  moreover have "archived_at ?t = None" by (simp add: approval_task_def new_TaskNode_def)
  ultimately show ?thesis
    using stored_task_not_delegable [OF mem.cypher_service_axioms agent_cfg_open, of ?s] by simp
qed

text \<open>
  Revoking looks for the grants with \<open>revoked_at = null\<close>, and in Cypher a comparison with null
  holds of nothing: no grant is ever found, so none is revoked.
\<close>

definition null_matches_nothing :: "'g database \<Rightarrow> bool" where
  "null_matches_nothing exec \<longleftrightarrow>
     (\<forall>lb fs g. CNull \<in> snd ` set fs \<longrightarrow> fst (exec (MatchLabel lb fs) g) = [])"

lemma mem_null: "null_matches_nothing mem_exec"
  by (auto simp: null_matches_nothing_def node_rows_def filter_empty_conv prop_match_def list_all_iff)

lemma no_active_grants:
  assumes "cypher_service exec" "null_matches_nothing exec" "require_caller_context cfg None = Inr ()"
  shows "active_grants exec cfg i u s = (Inr [], s)"
proof -
  let ?fs = "[(''grantor_user_id'', PStr u), (''target_node_id'', PStr i), (''revoked_at'', PNone)]"
  have keys: "to_cypher_map ?fs = Inr (set_lits ?fs)" "KEY_RE_match ''VisibilityGrantNode''"
    by (rule to_cypher_map_ok)
      (simp_all add: dict_keys_def KEY_RE_match_def chomp_def newline_def is_upper_def is_lower_def)
  have "fst (exec (MatchLabel ''VisibilityGrantNode'' (set_lits ?fs)) (graph s)) = []"
    using assms(2) by (simp add: null_matches_nothing_def set_lits_def)
  then show ?thesis
    by (simp add: active_grants_def list_nodes_def bindS_unfold assms(3) keys
        cypher_service.run_label [OF assms(1)] del: to_cypher_map.simps)
qed

end
