(* ===== verification/GC_AgentKeys.thy ===== *)
theory GC_AgentKeys
  imports GC_StoreLaws
begin

section \<open>A2A keys (\<open>a2a/key_manager.py\<close>, \<open>a2a/middleware.py\<close>)\<close>

text \<open>
  Agents of other systems authenticate with a key whose SHA-256 digest is kept on their
  \<open>ResourceNode\<close>. \<open>sha\<close> is the digest of a text (any function: no theorem needs it to be
  injective), \<open>rnd\<close> the random part of a key, \<open>from_iso\<close> what \<open>datetime.fromisoformat\<close> makes of
  a text that no \<open>isoformat\<close> call wrote.
\<close>

subsection \<open>Updates and label queries\<close>

definition set_row_of :: "string \<Rightarrow> cypher_lit pydict \<Rightarrow> row \<Rightarrow> row" where
  "set_row_of i upd r =
     (if dict_get (extract_properties r) ''id'' = Some (PStr i) then set_row upd r else r)"

text \<open>Nothing is assumed of the order of the rows, which an update may change.\<close>

locale labelled_service = cypher_service +
  assumes set_label: "keeps_id i upd \<Longrightarrow> dict_ok upd \<Longrightarrow>
      set (dict_keys fs) \<inter> set (dict_keys upd) = {} \<Longrightarrow>
      set (fst (exec (MatchLabel lb fs) (snd (exec (MatchIdSet i upd) g)))) =
        set_row_of i upd ` set (fst (exec (MatchLabel lb fs) g))"

lemma prop_match_set:
  assumes "dict_ok upd" "set (dict_keys fs) \<inter> set (dict_keys upd) = {}"
  shows "prop_match fs (lb, set_props upd p) = prop_match fs (lb, p)"
proof -
  have "dict_get (set_props upd p) k = dict_get p k" if "k \<in> set (dict_keys fs)" for k
  proof -
    have "dict_get upd k = None" using assms(2) that by (auto simp: dict_get_eq_None)
    then show ?thesis using assms(1) by (simp add: dict_get_set_props)
  qed
  moreover have "fst x \<in> set (dict_keys fs)" if "x \<in> set fs" for x
    using that by (simp add: dict_keys_def)
  ultimately show ?thesis by (auto simp: prop_match_def list_all_iff)
qed

interpretation mem_label: labelled_service mem_exec
proof
  fix i lb :: string and upd fs :: "cypher_lit pydict" and g :: mem_graph
  assume k: "keeps_id i upd" and ok: "dict_ok upd" "set (dict_keys fs) \<inter> set (dict_keys upd) = {}"
  let ?h = "\<lambda>v. if has_id i v then (fst v, set_props upd (snd v)) else v"
  have same: "fst (?h v) = lb \<and> prop_match fs (?h v) \<longleftrightarrow> fst v = lb \<and> prop_match fs v" for v
    using prop_match_set [OF ok] by (cases v) auto
  have row: "NodeRow (snd (?h v)) = set_row_of i upd (NodeRow (snd v))" for v
    by (simp add: set_row_of_def has_id_def)
  have "filter (\<lambda>v. fst v = lb \<and> prop_match fs v) (map ?h vs) =
      map ?h (filter (\<lambda>v. fst v = lb \<and> prop_match fs v) vs)" for vs
    by (induction vs) (use same in auto)
  then show "set (fst (mem_exec (MatchLabel lb fs) (snd (mem_exec (MatchIdSet i upd) g)))) =
      set_row_of i upd ` set (fst (mem_exec (MatchLabel lb fs) g))"
    by (simp add: node_rows_def image_image row)
qed

subsection \<open>The key manager\<close>

definition KEY_PREFIX :: string where "KEY_PREFIX = ''wg_agent_''"

definition RESOURCE_LABEL :: string where "RESOURCE_LABEL = ''ResourceNode''"

definition AGENT_RESOURCE_TYPE :: string where "AGENT_RESOURCE_TYPE = ''AI_AGENT''"

record A2AKeyRef =
  key_id :: string
  ref_agent_name :: pval
  ref_user_id :: string
  ref_created_at :: py_datetime
  resource_node_id :: string

definition generate_key :: "(string \<Rightarrow> string) \<Rightarrow> string \<Rightarrow> string \<times> string" where
  "generate_key sha rnd = (let plaintext = KEY_PREFIX @ rnd in (plaintext, sha plaintext))"

text \<open>
  \<open>create_node\<close> calls \<open>model_dump\<close> on what it gets. A dict has no such method.
\<close>

definition create_node_from_dict :: "store_cfg \<Rightarrow> props \<Rightarrow> CallerContext option \<Rightarrow> ('g, props) op" where
  "create_node_from_dict cfg d ctx =
     bindS (liftS (require_caller_context cfg ctx)) (\<lambda>_. raiseS PyAttributeError)"

definition agent_node_data :: "string \<Rightarrow> py_datetime \<Rightarrow> string \<Rightarrow> string \<Rightarrow> string \<Rightarrow> string \<Rightarrow>
    string option \<Rightarrow> props" where
  "agent_node_data nid now user_id key_hash agent_name descr callback_url =
     [(''id'', PStr nid), (''resource_type'', PStr AGENT_RESOURCE_TYPE), (''name'', PStr agent_name),
      (''contact'', dump_opt PStr callback_url), (''created_at'', PTime now), (''updated_at'', PTime now),
      (''version'', PInt 0), (''api_key_hash'', PStr key_hash), (''user_id'', PStr user_id),
      (''description'', PStr descr), (''callback_url'', dump_opt PStr callback_url),
      (''agent_name'', PStr agent_name)]"

definition register_agent :: "store_cfg \<Rightarrow> (string \<Rightarrow> string) \<Rightarrow> string \<Rightarrow> string \<Rightarrow> py_datetime \<Rightarrow> string \<Rightarrow>
    string \<Rightarrow> string \<Rightarrow> string option \<Rightarrow> ('g, A2AKeyRef \<times> string) op" where
  "register_agent cfg sha rnd uuid now user_id agent_name descr callback_url =
     (let (plaintext, key_hash) = generate_key sha rnd; nid = generate_resource_id uuid
      in bindS (create_node_from_dict cfg
             (agent_node_data nid now user_id key_hash agent_name descr callback_url) None)
           (\<lambda>_. returnS (\<lparr>key_id = nid, ref_agent_name = PStr agent_name, ref_user_id = user_id,
              ref_created_at = now, resource_node_id = nid\<rparr>, plaintext)))"

definition require_owner ::
  "'g database \<Rightarrow> store_cfg \<Rightarrow> string \<Rightarrow> string \<Rightarrow> ('g, unit) op" where
  "require_owner exec cfg user_id kid =
     bindS (get_node exec cfg kid False None) (\<lambda>node. case node of
       None \<Rightarrow> raiseS (PyKeyError kid)
     | Some p \<Rightarrow> if dict_get p ''user_id'' \<noteq> Some (PStr user_id) then raiseS (PyKeyError kid)
                 else returnS ())"

definition rotate_key :: "'g database \<Rightarrow> store_cfg \<Rightarrow> (string \<Rightarrow> string) \<Rightarrow> string \<Rightarrow> py_datetime \<Rightarrow> string \<Rightarrow>
    string \<Rightarrow> ('g, string \<times> string) op" where
  "rotate_key exec cfg sha rnd now user_id kid =
     bindS (require_owner exec cfg user_id kid) (\<lambda>_.
     let (new_plaintext, new_hash) = generate_key sha rnd
     in bindS (update_node exec cfg kid [(''api_key_hash'', PStr new_hash), (''updated_at'', PTime now)] None)
          (\<lambda>_. returnS (new_plaintext, new_hash)))"

definition revoke_key ::
  "'g database \<Rightarrow> store_cfg \<Rightarrow> py_datetime \<Rightarrow> string \<Rightarrow> string \<Rightarrow> ('g, unit) op" where
  "revoke_key exec cfg now user_id kid =
     bindS (require_owner exec cfg user_id kid) (\<lambda>_.
     bindS (update_node exec cfg kid [(''api_key_hash'', PNone), (''updated_at'', PTime now)] None)
       (\<lambda>_. returnS ()))"

text \<open>\<open>stored_hash\<close> empty, absent or not a text: the node is skipped.\<close>

definition hash_matches :: "string \<Rightarrow> props \<Rightarrow> bool" where
  "hash_matches h p \<longleftrightarrow> h \<noteq> [] \<and> dict_get p ''api_key_hash'' = Some (PStr h)"

definition first_match :: "string \<Rightarrow> props list \<Rightarrow> pval option" where
  "first_match h nodes = (case find (hash_matches h) nodes of
     None \<Rightarrow> None
   | Some p \<Rightarrow> (case dict_get p ''user_id'' of Some v \<Rightarrow> if v = PNone then None else Some v | None \<Rightarrow> None))"

definition verify_key :: "'g database \<Rightarrow> store_cfg \<Rightarrow> (string \<Rightarrow> string) \<Rightarrow> string \<Rightarrow> ('g, pval option) op" where
  "verify_key exec cfg sha plaintext_key s =
     (if plaintext_key = [] \<or> \<not> starts_with KEY_PREFIX plaintext_key then (Inr None, s)
      else (case list_nodes exec cfg RESOURCE_LABEL [(''resource_type'', PStr AGENT_RESOURCE_TYPE)] None s of
          (Inl e, s') \<Rightarrow> (Inr None, s')
        | (Inr nodes, s') \<Rightarrow> (Inr (first_match (sha plaintext_key) nodes), s')))"

definition created_at_of :: "(string \<Rightarrow> py_datetime option) \<Rightarrow> py_datetime \<Rightarrow> props \<Rightarrow> py_datetime" where
  "created_at_of from_iso now p = (case dict_get p ''created_at'' of
     Some (PTime t) \<Rightarrow> t
   | Some (PStr txt) \<Rightarrow> (case from_iso txt of Some t \<Rightarrow> t | None \<Rightarrow> now)
   | _ \<Rightarrow> now)"

definition key_ref_of :: "(string \<Rightarrow> py_datetime option) \<Rightarrow> py_datetime \<Rightarrow> string \<Rightarrow> props \<Rightarrow> A2AKeyRef" where
  "key_ref_of from_iso now user_id p =
     (let nid = (case dict_get p ''id'' of Some (PStr i) \<Rightarrow> i | _ \<Rightarrow> '''')
      in \<lparr>key_id = nid,
          ref_agent_name = (if get_truthy p ''agent_name'' then dict_get_default p ''agent_name'' PNone
                            else dict_get_default p ''name'' (PStr '''')),
          ref_user_id = user_id, ref_created_at = created_at_of from_iso now p, resource_node_id = nid\<rparr>)"

text \<open>Comparing naive with aware times raises; the sort makes such a comparison when both occur.\<close>

definition sort_refs :: "A2AKeyRef list \<Rightarrow> py_error + A2AKeyRef list" where
  "sort_refs refs =
     (if list_ex (\<lambda>r. dt_off (ref_created_at r) = None) refs \<and>
         list_ex (\<lambda>r. dt_off (ref_created_at r) \<noteq> None) refs
      then Inl PyTypeError else Inr (sort_key (\<lambda>r. dt_instant (ref_created_at r)) refs))"

definition list_agents :: "'g database \<Rightarrow> store_cfg \<Rightarrow> (string \<Rightarrow> py_datetime option) \<Rightarrow> py_datetime \<Rightarrow>
    string \<Rightarrow> ('g, A2AKeyRef list) op" where
  "list_agents exec cfg from_iso now user_id s =
     (case list_nodes exec cfg RESOURCE_LABEL
          [(''user_id'', PStr user_id), (''resource_type'', PStr AGENT_RESOURCE_TYPE)] None s of
        (Inl e, s') \<Rightarrow> (Inr [], s')
      | (Inr nodes, s') \<Rightarrow> (sort_refs (map (key_ref_of from_iso now user_id)
            (filter (\<lambda>p. get_truthy p ''api_key_hash'') nodes)), s'))"

datatype http_error = HTTPException nat string

definition require_a2a_auth ::
  "'g database \<Rightarrow> store_cfg \<Rightarrow> (string \<Rightarrow> string) \<Rightarrow> string option \<Rightarrow> ('g session, http_error, pval) io" where
  "require_a2a_auth exec cfg sha api_key s = (case api_key of
     None \<Rightarrow> (Inl (HTTPException 403 ''Missing X-Agent-Api-Key header''), s)
   | Some k \<Rightarrow> if k = [] then (Inl (HTTPException 403 ''Missing X-Agent-Api-Key header''), s)
       else (case verify_key exec cfg sha k s of
           (Inr (Some user_id), s') \<Rightarrow> (Inr user_id, s')
         | (_, s') \<Rightarrow> (Inl (HTTPException 403 ''Invalid or revoked API key''), s')))"

subsection \<open>What a key opens\<close>

definition agent_filter :: "cypher_lit pydict" where
  "agent_filter = [(''resource_type'', CStr (PStr AGENT_RESOURCE_TYPE))]"

definition agent_rows :: "'g database \<Rightarrow> 'g session \<Rightarrow> props set" where
  "agent_rows exec s = extract_properties ` set (fst (exec (MatchLabel RESOURCE_LABEL agent_filter) (graph s)))"

text \<open>The key \<open>k\<close> is the current key of the agent node \<open>p\<close>.\<close>

definition opens :: "'g database \<Rightarrow> (string \<Rightarrow> string) \<Rightarrow> 'g session \<Rightarrow> string \<Rightarrow> props \<Rightarrow> bool" where
  "opens exec sha s k p \<longleftrightarrow> starts_with KEY_PREFIX k \<and> p \<in> agent_rows exec s \<and> hash_matches (sha k) p"

lemma first_match_Some:
  "first_match h ps = Some v \<Longrightarrow> v \<noteq> PNone \<and>
     (\<exists>p \<in> set ps. hash_matches h p \<and> dict_get p ''user_id'' = Some v)"
  by (auto simp: first_match_def find_Some_iff split: option.splits if_splits)

lemma first_match_None:
  assumes "first_match h ps = None" "p \<in> set ps" "hash_matches h p"
  shows "\<exists>q \<in> set ps. hash_matches h q \<and> (\<forall>v. dict_get q ''user_id'' = Some v \<longrightarrow> v = PNone)"
  using assms by (auto simp: first_match_def find_Some_iff find_None_iff split: option.splits if_splits)

lemma starts_with_Nil: "starts_with p [] \<longleftrightarrow> p = []"
  by (simp add: starts_with_def)

lemma KEY_PREFIX_ne: "KEY_PREFIX \<noteq> []"
  by (simp add: KEY_PREFIX_def)

context cypher_service
begin

lemma list_agent_nodes:
  "list_nodes exec cfg RESOURCE_LABEL [(''resource_type'', PStr AGENT_RESOURCE_TYPE)] None s =
    (case require_caller_context cfg None of Inl e \<Rightarrow> (Inl e, s)
     | Inr _ \<Rightarrow> (Inr (map extract_properties
          (fst (exec (MatchLabel RESOURCE_LABEL agent_filter) (graph s)))), s))"
proof -
  have "KEY_RE_match RESOURCE_LABEL" "KEY_RE_match ''resource_type''"
    by (simp_all add: RESOURCE_LABEL_def KEY_RE_match_def chomp_def newline_def is_upper_def is_lower_def)
  moreover have "RESOURCE_LABEL \<noteq> ''TaskNode''" by (simp add: RESOURCE_LABEL_def)
  ultimately show ?thesis
    by (simp add: list_nodes_def bindS_unfold run_label agent_filter_def split: sum.split)
qed

lemma verify_key_eq:
  "verify_key exec cfg sha k s =
    (Inr (if require_caller_context cfg None = Inr () \<and> starts_with KEY_PREFIX k
          then first_match (sha k) (map extract_properties
             (fst (exec (MatchLabel RESOURCE_LABEL agent_filter) (graph s))))
          else None), s)"
  using KEY_PREFIX_ne
  by (cases "require_caller_context cfg None")
    (auto simp: verify_key_def list_agent_nodes starts_with_Nil)

lemma verify_key_sound:
  assumes "verify_key exec cfg sha k s = (Inr (Some u), s')"
  shows "s' = s \<and> (\<exists>p. opens exec sha s k p \<and> dict_get p ''user_id'' = Some u)"
  using assms first_match_Some [of "sha k"]
  by (fastforce simp: verify_key_eq opens_def agent_rows_def split: if_splits)

lemma verify_key_complete:
  assumes acl: "require_caller_context cfg None = Inr ()" and "opens exec sha s k p"
    and users: "\<And>q. opens exec sha s k q \<Longrightarrow> dict_get q ''user_id'' = Some u" and "u \<noteq> PNone"
  shows "verify_key exec cfg sha k s = (Inr (Some u), s)"
proof -
  let ?ps = "map extract_properties (fst (exec (MatchLabel RESOURCE_LABEL agent_filter) (graph s)))"
  have k: "starts_with KEY_PREFIX k" and p: "p \<in> set ?ps" "hash_matches (sha k) p"
    using assms(2) by (auto simp: opens_def agent_rows_def)
  have all: "dict_get q ''user_id'' = Some u" if "q \<in> set ?ps" "hash_matches (sha k) q" for q
    using that k by (intro users) (auto simp: opens_def agent_rows_def)
  have "first_match (sha k) ?ps = Some u"
  proof (cases "first_match (sha k) ?ps")
    case None
    from first_match_None [OF this p] all assms(4) show ?thesis by blast
  next
    case (Some v)
    from first_match_Some [OF this] all show ?thesis using Some by auto
  qed
  then show ?thesis by (simp add: verify_key_eq acl k)
qed

lemma require_owner_cases:
  "require_owner exec cfg u i s =
    (case require_caller_context cfg None of Inl e \<Rightarrow> (Inl e, s)
     | Inr _ \<Rightarrow> (case visible False (fetch exec (graph s) i) of
         None \<Rightarrow> (Inl (PyKeyError i), s)
       | Some p \<Rightarrow> if dict_get p ''user_id'' \<noteq> Some (PStr u) then (Inl (PyKeyError i), s)
                   else (Inr (), s)))"
  by (simp add: require_owner_def bindS_unfold get_node_eq split: sum.split option.split)

text \<open>Both operations are one update by the owner, or nothing.\<close>

lemma owner_update:
  assumes "bindS (require_owner exec cfg u i) (\<lambda>_. bindS (update_node exec cfg i upd None) (\<lambda>_. returnS v)) s
      = (Inr r, s')"
  shows "r = v \<and> graph s' = snd (exec (MatchIdSet i (set_lits upd)) (graph s)) \<and>
    (\<exists>p. fetch exec (graph s) i = Some p \<and> dict_get p ''user_id'' = Some (PStr u))"
proof -
  obtain q s1 where q: "require_owner exec cfg u i s = (q, s1)" by fastforce
  then have s1: "s1 = s" by (auto simp: require_owner_cases split: sum.splits option.splits if_splits)
  obtain w s2 where w: "update_node exec cfg i upd None s = (w, s2)" by fastforce
  have "q = Inr () \<and> (\<exists>w'. w = Inr w') \<and> s' = s2 \<and> r = v"
    using assms q w s1 by (cases q; cases w) (auto simp: bindS_unfold)
  with q w s1 show ?thesis
    by (auto elim!: update_node_cases simp: require_owner_cases visible_def
        split: sum.splits option.splits if_splits)
qed

end

context labelled_service
begin

lemma agent_rows_set:
  assumes "keeps_id i upd" "dict_ok upd" "''resource_type'' \<notin> set (dict_keys upd)"
    and "graph s' = snd (exec (MatchIdSet i upd) (graph s))"
  shows "agent_rows exec s' = (\<lambda>p. if dict_get p ''id'' = Some (PStr i) then set_props upd p else p) `
    agent_rows exec s"
proof -
  have "set (dict_keys agent_filter) \<inter> set (dict_keys upd) = {}"
    using assms(3) by (simp add: agent_filter_def dict_keys_def)
  note rows = set_label [OF assms(1,2) this, of RESOURCE_LABEL "graph s"]
  have "extract_properties (set_row_of i upd r) = (\<lambda>p. if dict_get p ''id'' = Some (PStr i)
      then set_props upd p else p) (extract_properties r)" for r
    by (simp add: set_row_of_def)
  then show ?thesis by (simp only: agent_rows_def assms(4) rows image_image)
qed

text \<open>After the update of the hash of node \<open>i\<close>, a key opens other nodes as before, and node \<open>i\<close>
exactly when it has the new hash.\<close>

lemma opens_after:
  assumes "graph s' = snd (exec (MatchIdSet i (set_lits [(''api_key_hash'', v), (''updated_at'', PTime now)]))
      (graph s))"
    and "opens exec sha s' k p"
  shows "(opens exec sha s k p \<and> dict_get p ''id'' \<noteq> Some (PStr i)) \<or>
    (dict_get p ''id'' = Some (PStr i) \<and> v \<noteq> PNone \<and> stored v = PStr (sha k))"
proof -
  let ?upd = "set_lits [(''api_key_hash'', v), (''updated_at'', PTime now)]"
  have ok: "keeps_id i ?upd" "dict_ok ?upd" "''resource_type'' \<notin> set (dict_keys ?upd)"
    by (simp_all add: keeps_id_def set_lits_def dict_ok_def dict_keys_def)
  have get: "dict_get (set_props ?upd q) x = (if x = ''api_key_hash'' then (if v = PNone then None else Some (stored v))
      else if x = ''updated_at'' then Some (PTime now) else dict_get q x)" for q x
    by (simp add: dict_get_set_props_dump dict_ok_def dict_simps)
  from assms(2) obtain q where q: "q \<in> agent_rows exec s"
    "p = (if dict_get q ''id'' = Some (PStr i) then set_props ?upd q else q)"
    by (auto simp: opens_def agent_rows_set [OF ok assms(1)])
  show ?thesis
    using assms(2) q by (auto simp: opens_def hash_matches_def get split: if_splits)
qed

lemma rotated:
  assumes "rotate_key exec cfg sha rnd now u i s = (Inr (new, h), s')"
  shows "new = KEY_PREFIX @ rnd \<and> h = sha new \<and>
    (\<exists>p. fetch exec (graph s) i = Some p \<and> dict_get p ''user_id'' = Some (PStr u)) \<and>
    (\<forall>k p. opens exec sha s' k p \<longrightarrow>
       (opens exec sha s k p \<and> dict_get p ''id'' \<noteq> Some (PStr i)) \<or>
       (dict_get p ''id'' = Some (PStr i) \<and> sha k = h))"
proof -
  from assms have "bindS (require_owner exec cfg u i) (\<lambda>_. bindS (update_node exec cfg i
      [(''api_key_hash'', PStr (sha (KEY_PREFIX @ rnd))), (''updated_at'', PTime now)] None)
      (\<lambda>_. returnS (KEY_PREFIX @ rnd, sha (KEY_PREFIX @ rnd)))) s = (Inr (new, h), s')"
    by (simp add: rotate_key_def generate_key_def Let_def)
  note st = owner_update [OF this]
  then have g: "graph s' = snd (exec (MatchIdSet i (set_lits [(''api_key_hash'',
      PStr (sha (KEY_PREFIX @ rnd))), (''updated_at'', PTime now)])) (graph s))" by blast
  have n: "new = KEY_PREFIX @ rnd" "h = sha new" using st by simp_all
  have "(opens exec sha s k p \<and> dict_get p ''id'' \<noteq> Some (PStr i)) \<or>
      (dict_get p ''id'' = Some (PStr i) \<and> sha k = h)"
    if o: "opens exec sha s' k p" for k p
    using opens_after [OF g o] n by auto
  with st n show ?thesis by blast
qed

lemma revoked:
  assumes "revoke_key exec cfg now u i s = (Inr r, s')" "opens exec sha s' k p"
  shows "opens exec sha s k p \<and> dict_get p ''id'' \<noteq> Some (PStr i)"
  using owner_update [OF assms(1) [unfolded revoke_key_def]] opens_after [of s' i PNone now s, OF _ assms(2)]
  by auto

end

text \<open>
  Only keys that are current authenticate. When \<open>verify_key\<close> names a user, the key has
  the prefix and its digest is the stored one of an agent node of that user; when the owners of
  all nodes with that digest agree, it does name that user. It changes nothing.
\<close>

theorem verify_key_exact:
  assumes "cypher_service exec" "require_caller_context cfg None = Inr ()"
    and "\<And>p q. opens exec sha s k p \<Longrightarrow> opens exec sha s k q \<Longrightarrow>
      dict_get p ''user_id'' = dict_get q ''user_id''"
  shows "verify_key exec cfg sha k s = (Inr (Some u), s') \<longleftrightarrow>
    s' = s \<and> u \<noteq> PNone \<and> (\<exists>p. opens exec sha s k p \<and> dict_get p ''user_id'' = Some u)"
proof
  assume v: "verify_key exec cfg sha k s = (Inr (Some u), s')"
  then have "u \<noteq> PNone"
    using first_match_Some by (fastforce simp: cypher_service.verify_key_eq [OF assms(1)] split: if_splits)
  then show "s' = s \<and> u \<noteq> PNone \<and> (\<exists>p. opens exec sha s k p \<and> dict_get p ''user_id'' = Some u)"
    using cypher_service.verify_key_sound [OF assms(1) v] by blast
next
  assume "s' = s \<and> u \<noteq> PNone \<and> (\<exists>p. opens exec sha s k p \<and> dict_get p ''user_id'' = Some u)"
  then show "verify_key exec cfg sha k s = (Inr (Some u), s')"
    using cypher_service.verify_key_complete [OF assms(1,2)] assms(3) by metis
qed


text \<open>Two agents of two users, in memory; digests are spelled backwards.\<close>

definition backwards :: "string \<Rightarrow> string" where
  "backwards k = rev k"

lemma backwards_simps [simp]: "backwards a = backwards b \<longleftrightarrow> a = b" "backwards a = [] \<longleftrightarrow> a = []"
  by (simp_all add: backwards_def)

definition key_row :: "string \<Rightarrow> string \<Rightarrow> string \<Rightarrow> string \<times> props" where
  "key_row i u h = (''ResourceNode'', [(''id'', PStr i), (''resource_type'', PStr ''AI_AGENT''),
     (''user_id'', PStr u), (''api_key_hash'', PStr h)])"

definition key_session :: "mem_graph session" where
  "key_session = \<lparr>graph = \<lparr>vertices = [key_row ''RES-1'' ''USER-a'' (backwards (KEY_PREFIX @ ''one'')),
     key_row ''RES-2'' ''USER-b'' (backwards (KEY_PREFIX @ ''two''))], relations = [], next_rel = 0\<rparr>,
     spawned = [], notified = []\<rparr>"

lemma key_session_rows:
  "agent_rows mem_exec key_session = {snd (key_row ''RES-1'' ''USER-a'' (backwards (KEY_PREFIX @ ''one''))),
     snd (key_row ''RES-2'' ''USER-b'' (backwards (KEY_PREFIX @ ''two'')))}"
  by (simp add: agent_rows_def key_session_def key_row_def node_rows_def prop_match_def agent_filter_def
      RESOURCE_LABEL_def AGENT_RESOURCE_TYPE_def dict_simps)

lemma key_session_opens:
  "opens mem_exec backwards key_session k p \<longleftrightarrow>
     (k = KEY_PREFIX @ ''one'' \<and> p = snd (key_row ''RES-1'' ''USER-a'' (backwards (KEY_PREFIX @ ''one'')))) \<or>
     (k = KEY_PREFIX @ ''two'' \<and> p = snd (key_row ''RES-2'' ''USER-b'' (backwards (KEY_PREFIX @ ''two''))))"
  by (auto simp: opens_def key_session_rows hash_matches_def key_row_def dict_simps starts_with_def)

lemma agent_open: "require_caller_context agent_cfg None = Inr ()"
  by (simp add: require_caller_context_def agent_cfg_def)

theorem verify_key_exact_witness:
  "verify_key mem_exec agent_cfg backwards (KEY_PREFIX @ ''two'') key_session =
     (Inr (Some (PStr ''USER-b'')), key_session)"
  by (subst verify_key_exact [OF mem.cypher_service_axioms agent_open])
    (auto simp: key_session_opens key_row_def dict_simps)

lemma key_update_total:
  assumes "fetch mem_exec (graph s) i = Some p" "dict_get p ''user_id'' = Some (PStr u)"
    "dict_get p ''archived_at'' = None" "forbidden_fields upd = []" "upd \<noteq> []"
  shows "\<exists>s'. bindS (require_owner mem_exec agent_cfg u i) (\<lambda>_.
    bindS (update_node mem_exec agent_cfg i upd None) (\<lambda>_. returnS v)) s = (Inr v, s')"
proof -
  have "require_owner mem_exec agent_cfg u i s = (Inr (), s)"
    using assms by (simp add: mem.require_owner_cases agent_open visible_def get_truthy_def)
  moreover obtain w where "fst (update_node mem_exec agent_cfg i upd None s) = Inr w"
    using mem.update_node_writes [OF agent_open assms(5)] assms(4) by blast
  ultimately show ?thesis
    by (cases "update_node mem_exec agent_cfg i upd None s") (auto simp: bindS_unfold)
qed


text \<open>
  With the store the program makes, no agent can be registered. \<open>register_agent\<close> hands
  \<open>create_node\<close> a dict, which has no \<open>model_dump\<close>: it never returns and changes nothing.
\<close>

lemma register_agent_fails:
  "\<exists>e. register_agent cfg sha rnd uuid now u agent_name descr url s = (Inl e, s)"
  by (cases "require_caller_context cfg None")
    (simp_all add: register_agent_def create_node_from_dict_def generate_key_def Let_def bindS_unfold)

text \<open>The guard of the A2A routes lets exactly the requests through that \<open>verify_key\<close> accepts.\<close>

lemma require_a2a_auth_iff:
  "cypher_service exec \<Longrightarrow> require_a2a_auth exec cfg sha (Some k) s = (Inr u, s') \<longleftrightarrow>
     verify_key exec cfg sha k s = (Inr (Some u), s')"
  by (auto simp: require_a2a_auth_def verify_key_def split: prod.splits sum.splits option.splits if_splits)

end
