(* ===== verification/GC_Text.thy ===== *)
theory GC_Text
  imports GC_Ids
begin

section \<open>Python's text operations\<close>

text \<open>
  \<open>splitlines\<close>, \<open>strip\<close>, \<open>split\<close>, \<open>join\<close> and \<open>lower\<close> on texts of characters below 256.
\<close>

definition carriage :: char where "carriage = CHR 0x0D"

text \<open>The characters at which \<open>splitlines\<close> breaks, and those that \<open>strip\<close> removes.\<close>

definition is_break :: "char \<Rightarrow> bool" where
  "is_break c \<longleftrightarrow> c \<in> {newline, carriage, CHR 0x0B, CHR 0x0C, CHR 0x1C, CHR 0x1D, CHR 0x1E, CHR 0x85}"

definition is_space :: "char \<Rightarrow> bool" where
  "is_space c \<longleftrightarrow> is_break c \<or> c \<in> {CHR 0x09, CHR 0x1F, CHR 0x20, CHR 0xA0}"

fun splitlines_from :: "string \<Rightarrow> string \<Rightarrow> string list" where
  "splitlines_from cur [] = (if cur = [] then [] else [cur])"
| "splitlines_from cur (c # s) =
     (if c = carriage
      then cur # (case s of [] \<Rightarrow> []
                  | d # s' \<Rightarrow> if d = newline then splitlines_from [] s' else splitlines_from [] (d # s'))
      else if is_break c then cur # splitlines_from [] s
      else splitlines_from (cur @ [c]) s)"

definition splitlines :: "string \<Rightarrow> string list" where
  "splitlines s = splitlines_from [] s"

definition rstrip_newlines :: "string \<Rightarrow> string" where
  "rstrip_newlines s = rev (dropWhile (\<lambda>c. c = newline) (rev s))"

definition strip :: "string \<Rightarrow> string" where
  "strip s = rev (dropWhile is_space (rev (dropWhile is_space s)))"

lemma break_simps [simp]: "is_break newline" "is_break carriage" "newline \<noteq> carriage" "carriage \<noteq> newline"
  by (simp_all add: is_break_def newline_def carriage_def)

lemma strip_Nil [simp]: "strip [] = []"
  by (simp add: strip_def)

lemma splitlines_append:
  "splitlines_from cur (a @ newline # b) = splitlines_from cur (a @ [newline]) @ splitlines_from [] b"
proof (induction cur a rule: splitlines_from.induct)
  case (2 cur c s)
  show ?case
  proof (cases "c = carriage")
    case True
    then show ?thesis
      using 2(1,2) by (cases s) auto
  next
    case False
    then show ?thesis using 2(3,4) by auto
  qed
qed simp

lemma splitlines_one:
  "list_all (\<lambda>c. \<not> is_break c) l \<Longrightarrow> splitlines_from cur (l @ [newline]) = [cur @ l]"
proof (induction l arbitrary: cur)
  case (Cons c l)
  then have "c \<noteq> carriage" by auto
  with Cons show ?case by simp
qed simp

text \<open>\<open>s.split(sep)\<close> for a separator of one character: never empty, \<open>''\<close> gives one empty part.\<close>

fun split_on :: "char \<Rightarrow> string \<Rightarrow> string list" where
  "split_on sep [] = [[]]"
| "split_on sep (c # s) = (if c = sep then [] # split_on sep s
     else (case split_on sep s of [] \<Rightarrow> [[c]] | p # ps \<Rightarrow> (c # p) # ps))"

lemma split_on_ne [simp]: "split_on sep s \<noteq> []"
  by (induction s) (auto split: list.split)

text \<open>\<open>sep.join(parts)\<close>\<close>

fun join_with :: "string \<Rightarrow> string list \<Rightarrow> string" where
  "join_with sep [] = []"
| "join_with sep [p] = p"
| "join_with sep (p # ps) = p @ sep @ join_with sep ps"

lemma join_with_split: "join_with [sep] (split_on sep s) = s"
proof (induction s)
  case (Cons c s)
  then show ?case
    by (cases "split_on sep s"; cases "tl (split_on sep s)") (auto split: list.splits)
qed simp

text \<open>\<open>p in s\<close>\<close>

fun has_substring :: "string \<Rightarrow> string \<Rightarrow> bool" where
  "has_substring p [] = (p = [])"
| "has_substring p (c # s) = (starts_with p (c # s) \<or> has_substring p s)"

lemma strip_ends:
  assumes "strip s \<noteq> []"
  shows "\<not> is_space (hd (strip s))" "\<not> is_space (last (strip s))"
proof -
  let ?t = "dropWhile is_space s"
  have last: "\<not> is_space (last (rev (dropWhile is_space (rev x))))" if "rev (dropWhile is_space (rev x)) \<noteq> []" for x
    using that hd_dropWhile [of is_space "rev x"] by (simp add: last_rev)
  from last [of ?t] show "\<not> is_space (last (strip s))" using assms by (simp add: strip_def)
  have "hd (rev (dropWhile is_space (rev x))) = hd x" if "rev (dropWhile is_space (rev x)) \<noteq> []" for x
  proof -
    have "x = rev (dropWhile is_space (rev x)) @ rev (takeWhile is_space (rev x))"
      by (metis rev_append rev_rev_ident takeWhile_dropWhile_id)
    then show ?thesis using that by (metis hd_append2)
  qed
  moreover have "?t \<noteq> []" using assms by (metis dropWhile.simps(1) rev.simps(1) strip_def)
  ultimately show "\<not> is_space (hd (strip s))"
    using assms hd_dropWhile [of is_space s] by (auto simp: strip_def)
qed

lemma strip_id:
  assumes "s \<noteq> []" "\<not> is_space (hd s)" "\<not> is_space (last s)"
  shows "strip s = s"
proof -
  have "dropWhile is_space s = s" using assms by (cases s) auto
  moreover have "dropWhile is_space (rev s) = rev s" using assms by (cases s rule: rev_cases) auto
  ultimately show ?thesis by (simp add: strip_def)
qed

end
