(* ===== verification/GC_Audit.thy ===== *)
theory GC_Audit
  imports GC_Store GC_Text
begin

section \<open>The audit log (\<open>audit/immutable_log.py\<close>)\<close>

text \<open>
  One JSONL file per day in the object store, each entry with the hash of the one before it.
  \<open>sha\<close> is SHA-256, \<open>dumps\<close> is \<open>json.dumps(..., sort_keys=True)\<close>; \<open>enc\<close> and \<open>dec\<close> are
  pydantic's \<open>model_dump_json\<close> and \<open>model_validate_json\<close>, \<open>None\<close> where the latter raises. What is
  needed of them is \<open>codec_ok\<close>. Files are texts; the store is a map from paths.
\<close>

subsection \<open>Entries\<close>

datatype AuditEventType = PURGE_REQUESTED | PURGE_CANCELLED | PURGE_CONFIRMED | PURGE_EXECUTED
  | RIGHT_TO_ERASURE_REQUESTED | RIGHT_TO_ERASURE_EXECUTED | LEGAL_HOLD_SET | LEGAL_HOLD_RELEASED
  | ORG_ARCHIVED | ORG_ARCHIVE_CANCELLED

fun AuditEventType_value :: "AuditEventType \<Rightarrow> string" where
  "AuditEventType_value PURGE_REQUESTED = ''purge_requested''"
| "AuditEventType_value PURGE_CANCELLED = ''purge_cancelled''"
| "AuditEventType_value PURGE_CONFIRMED = ''purge_confirmed''"
| "AuditEventType_value PURGE_EXECUTED = ''purge_executed''"
| "AuditEventType_value RIGHT_TO_ERASURE_REQUESTED = ''right_to_erasure_requested''"
| "AuditEventType_value RIGHT_TO_ERASURE_EXECUTED = ''right_to_erasure_executed''"
| "AuditEventType_value LEGAL_HOLD_SET = ''legal_hold_set''"
| "AuditEventType_value LEGAL_HOLD_RELEASED = ''legal_hold_released''"
| "AuditEventType_value ORG_ARCHIVED = ''org_archived''"
| "AuditEventType_value ORG_ARCHIVE_CANCELLED = ''org_archive_cancelled''"

definition AuditEventType_members :: "AuditEventType list" where
  "AuditEventType_members = [PURGE_REQUESTED, PURGE_CANCELLED, PURGE_CONFIRMED, PURGE_EXECUTED,
     RIGHT_TO_ERASURE_REQUESTED, RIGHT_TO_ERASURE_EXECUTED, LEGAL_HOLD_SET, LEGAL_HOLD_RELEASED,
     ORG_ARCHIVED, ORG_ARCHIVE_CANCELLED]"

interpretation audit_event_enum: str_enum AuditEventType_members AuditEventType_value
proof
  show "e \<in> set AuditEventType_members" for e
    by (cases e) (simp_all add: AuditEventType_members_def)
qed (simp add: AuditEventType_members_def)

record AuditEntry =
  entry_id :: string
  ae_timestamp :: py_datetime
  ae_event_type :: AuditEventType
  ae_actor_id :: string
  ae_subject_id :: string
  ae_metadata :: props
  prev_hash :: "string option"
  entry_hash :: string

definition entry_partial :: "AuditEntry \<Rightarrow> pval" where
  "entry_partial e = PDict [(''entry_id'', PStr (entry_id e)), (''timestamp'', PTime (ae_timestamp e)),
     (''event_type'', PStr (AuditEventType_value (ae_event_type e))), (''actor_id'', PStr (ae_actor_id e)),
     (''subject_id'', PStr (ae_subject_id e)), (''metadata'', PDict (ae_metadata e)),
     (''prev_hash'', dump_opt PStr (prev_hash e))]"

definition entry_create :: "(string \<Rightarrow> string) \<Rightarrow> (pval \<Rightarrow> string) \<Rightarrow> py_datetime \<Rightarrow> AuditEventType \<Rightarrow> string \<Rightarrow>
    string \<Rightarrow> props option \<Rightarrow> string option \<Rightarrow> AuditEntry" where
  "entry_create sha dumps now event_type actor_id subject_id metadata prev =
     (let e = \<lparr>entry_id = dec_string (nat (dt_instant now div 1000)) @ ''_'' @ take 8 actor_id,
               ae_timestamp = now, ae_event_type = event_type, ae_actor_id = actor_id,
               ae_subject_id = subject_id,
               ae_metadata = (case metadata of None \<Rightarrow> [] | Some m \<Rightarrow> m), prev_hash = prev, entry_hash = []\<rparr>
      in e\<lparr>entry_hash := sha (dumps (entry_partial e))\<rparr>)"

subsection \<open>The log\<close>

type_synonym files = "string \<Rightarrow> string option"

record audit_date =
  year :: nat
  month :: nat
  day :: nat

definition day_path :: "audit_date \<Rightarrow> string" where
  "day_path d = ''_system/audit/'' @ dec_string (year d) @ ''/'' @ zfill 2 (dec_string (month d)) @ ''/'' @
     zfill 2 (dec_string (day d)) @ ''.jsonl''"

definition parse_line :: "(string \<Rightarrow> 'e option) \<Rightarrow> string \<Rightarrow> 'e option" where
  "parse_line dec line = (let l = strip line in if l = [] then None else dec l)"

definition read_entries :: "(string \<Rightarrow> 'e option) \<Rightarrow> string \<Rightarrow> 'e list" where
  "read_entries dec raw = List.map_filter (parse_line dec) (splitlines raw)"

definition read_day :: "(string \<Rightarrow> AuditEntry option) \<Rightarrow> files \<Rightarrow> audit_date \<Rightarrow> AuditEntry list" where
  "read_day dec fs d = (case fs (day_path d) of None \<Rightarrow> [] | Some raw \<Rightarrow> read_entries dec raw)"

definition last_hash_for_today :: "(string \<Rightarrow> AuditEntry option) \<Rightarrow> files \<Rightarrow> audit_date \<Rightarrow> string option" where
  "last_hash_for_today dec fs today =
     (let entries = read_day dec fs today
      in if entries = [] then None else Some (entry_hash (last entries)))"

definition append_entry :: "(AuditEntry \<Rightarrow> string) \<Rightarrow> AuditEntry \<Rightarrow> audit_date \<Rightarrow> files \<Rightarrow> files" where
  "append_entry enc e today fs =
     (let existing = (case fs (day_path today) of None \<Rightarrow> [] | Some raw \<Rightarrow> raw)
      in fs(day_path today \<mapsto> rstrip_newlines existing @ [newline] @ enc e @ [newline]))"

text \<open>The clock is read three times: for the last hash, for the entry, for the path.\<close>

definition record_event :: "(string \<Rightarrow> string) \<Rightarrow> (pval \<Rightarrow> string) \<Rightarrow> (AuditEntry \<Rightarrow> string) \<Rightarrow>
    (string \<Rightarrow> AuditEntry option) \<Rightarrow> audit_date \<Rightarrow> py_datetime \<Rightarrow> audit_date \<Rightarrow> AuditEventType \<Rightarrow> string \<Rightarrow>
    string \<Rightarrow> props option \<Rightarrow> files \<Rightarrow> AuditEntry \<times> files" where
  "record_event sha dumps enc dec today1 now today2 event_type actor_id subject_id metadata fs =
     (let prev = last_hash_for_today dec fs today1;
          e = entry_create sha dumps now event_type actor_id subject_id metadata prev
      in (e, append_entry enc e today2 fs))"

subsection \<open>Appending a line\<close>

lemma parse_line_Nil [simp]: "parse_line dec [] = None"
  by (simp add: parse_line_def)

lemma map_filter_Cons: "List.map_filter f (x # xs) =
    (case f x of None \<Rightarrow> [] | Some y \<Rightarrow> [y]) @ List.map_filter f xs"
  by (simp add: map_filter_simps split: option.split)

text \<open>A final line break makes no difference to the entries that are read.\<close>

lemma parse_final_newline:
  "List.map_filter (parse_line dec) (splitlines_from cur (a @ [newline])) =
   List.map_filter (parse_line dec) (splitlines_from cur a)"
proof (induction cur a rule: splitlines_from.induct)
  case (2 cur c s)
  show ?case
  proof (cases "c = carriage")
    case True
    show ?thesis
    proof (cases s)
      case Nil
      with True show ?thesis by (simp add: map_filter_Cons)
    next
      case (Cons d s')
      have step: "splitlines_from cur (c # d # t) =
          cur # (if d = newline then splitlines_from [] t else splitlines_from [] (d # t))" for t
        using True by simp
      show ?thesis
        using 2(1,2) [OF True Cons] unfolding Cons append_Cons step
        by (cases "d = newline") (simp_all add: map_filter_Cons del: splitlines_from.simps split: option.split)
    qed
  next
    case False
    then show ?thesis using 2(3,4) by (auto simp: map_filter_Cons split: option.split)
  qed
qed (simp add: map_filter_simps)

lemma read_rstrip: "read_entries dec (rstrip_newlines s) = read_entries dec s"
proof (induction s rule: rev_induct)
  case (snoc c s)
  then show ?case
    by (cases "c = newline") (simp_all add: rstrip_newlines_def read_entries_def splitlines_def
        parse_final_newline)
qed (simp add: rstrip_newlines_def)

lemma read_entries_append:
  assumes "list_all (\<lambda>c. \<not> is_break c) l"
  shows "read_entries dec (rstrip_newlines s @ [newline] @ l @ [newline]) =
    read_entries dec s @ (case parse_line dec l of None \<Rightarrow> [] | Some e \<Rightarrow> [e])"
proof -
  have "read_entries dec (rstrip_newlines s @ newline # l @ [newline]) =
      read_entries dec (rstrip_newlines s) @ List.map_filter (parse_line dec) [l]"
    unfolding read_entries_def splitlines_def splitlines_append [of "[]" _ "l @ [newline]"]
    by (simp add: map_filter_append parse_final_newline splitlines_one [OF assms])
  then show ?thesis by (simp add: read_rstrip map_filter_simps split: option.splits)
qed

subsection \<open>The chain\<close>

text \<open>An entry that survives being written as one line and read back.\<close>

definition clean :: "('e \<Rightarrow> string) \<Rightarrow> (string \<Rightarrow> 'e option) \<Rightarrow> 'e \<Rightarrow> bool" where
  "clean enc dec e \<longleftrightarrow> list_all (\<lambda>c. \<not> is_break c) (enc e) \<and> strip (enc e) = enc e \<and> enc e \<noteq> [] \<and>
     dec (enc e) = Some e"

lemma read_after_append:
  "read_day dec (append_entry enc e d fs) d =
     (if list_all (\<lambda>c. \<not> is_break c) (enc e)
      then read_day dec fs d @ (case parse_line dec (enc e) of None \<Rightarrow> [] | Some e' \<Rightarrow> [e'])
      else read_day dec (append_entry enc e d fs) d)"
proof -
  have "read_entries dec [] = []" by (simp add: read_entries_def splitlines_def map_filter_simps)
  then show ?thesis
    by (simp add: read_day_def append_entry_def Let_def read_entries_append [simplified] split: option.split)
qed

lemma parse_clean: "clean enc dec e \<Longrightarrow> parse_line dec (enc e) = Some e"
  by (simp add: clean_def parse_line_def)

text \<open>
  Recording appends. A clean entry is returned, linked to the last entry of the day
  and hashed over its own content, and reading the day afterwards gives what it gave before and
  then this entry; blank lines, missing final line breaks and lines that do not parse in the
  file make no difference, and no other file changes.
\<close>

theorem record_appends:
  assumes "record_event sha dumps enc dec d1 now d2 ev actor_id subject_id md fs = (e, fs')"
    and "clean enc dec e"
  shows "read_day dec fs' d2 = read_day dec fs d2 @ [e] \<and>
    prev_hash e = (if read_day dec fs d1 = [] then None else Some (entry_hash (last (read_day dec fs d1)))) \<and>
    entry_hash e = sha (dumps (entry_partial e)) \<and> (\<forall>p. p \<noteq> day_path d2 \<longrightarrow> fs' p = fs p)"
proof -
  have e: "e = entry_create sha dumps now ev actor_id subject_id md (last_hash_for_today dec fs d1)"
    and fs': "fs' = append_entry enc e d2 fs"
    using assms(1) by (auto simp: record_event_def Let_def)
  have "read_day dec fs' d2 = read_day dec fs d2 @ [e]"
    using read_after_append [of dec enc e d2 fs] assms(2) parse_clean [OF assms(2)]
    by (simp add: fs' clean_def)
  moreover have "prev_hash e = last_hash_for_today dec fs d1" "entry_hash e = sha (dumps (entry_partial e))"
    by (simp_all add: e entry_create_def Let_def entry_partial_def)
  ultimately show ?thesis
    by (simp add: fs' append_entry_def Let_def last_hash_for_today_def)
qed

definition chain_ok :: "(string \<Rightarrow> string) \<Rightarrow> (pval \<Rightarrow> string) \<Rightarrow> AuditEntry list \<Rightarrow> bool" where
  "chain_ok sha dumps es \<longleftrightarrow>
     (\<forall>i < length es. entry_hash (es ! i) = sha (dumps (entry_partial (es ! i))) \<and>
        prev_hash (es ! i) = (if i = 0 then None else Some (entry_hash (es ! (i - 1)))))"

lemma chain_ok_snoc:
  "chain_ok sha dumps (es @ [e]) \<longleftrightarrow> chain_ok sha dumps es \<and> entry_hash e = sha (dumps (entry_partial e)) \<and>
     prev_hash e = (if es = [] then None else Some (entry_hash (last es)))"
  by (cases "es = []")
    (simp_all add: chain_ok_def All_less_Suc nth_append last_conv_nth less_imp_diff_less conj_ac)

text \<open>
  The states of the files over a day: it starts without a file, events of the day are recorded,
  other files change as they like.
\<close>

inductive day_log :: "(string \<Rightarrow> string) \<Rightarrow> (pval \<Rightarrow> string) \<Rightarrow> (AuditEntry \<Rightarrow> string) \<Rightarrow>
    (string \<Rightarrow> AuditEntry option) \<Rightarrow> audit_date \<Rightarrow> files \<Rightarrow> bool"
  for sha dumps enc dec d where
  no_file: "fs (day_path d) = None \<Longrightarrow> day_log sha dumps enc dec d fs"
| event: "day_log sha dumps enc dec d fs \<Longrightarrow>
    record_event sha dumps enc dec d now d ev actor_id subject_id md fs = (e, fs') \<Longrightarrow>
    clean enc dec e \<Longrightarrow> day_log sha dumps enc dec d fs'"
| other: "day_log sha dumps enc dec d fs \<Longrightarrow> fs' (day_path d) = fs (day_path d) \<Longrightarrow>
    day_log sha dumps enc dec d fs'"

lemma day_log_chain: "day_log sha dumps enc dec d fs \<Longrightarrow> chain_ok sha dumps (read_day dec fs d)"
proof (induction rule: day_log.induct)
  case (event fs now ev actor_id subject_id md e fs')
  have e: "e = entry_create sha dumps now ev actor_id subject_id md (last_hash_for_today dec fs d)"
    and fs': "fs' = append_entry enc e d fs"
    using event.hyps(2) by (auto simp: record_event_def Let_def)
  have "read_day dec fs' d = read_day dec fs d @ [e]"
    using read_after_append [of dec enc e d fs] event.hyps(3) parse_clean [OF event.hyps(3)]
    by (simp add: fs' clean_def)
  moreover have "prev_hash e = last_hash_for_today dec fs d" "entry_hash e = sha (dumps (entry_partial e))"
    by (simp_all add: e entry_create_def Let_def entry_partial_def)
  ultimately show ?case
    using event.IH by (simp add: chain_ok_snoc last_hash_for_today_def)
qed (simp_all add: read_day_def chain_ok_def)

lemma entry_partial_inj:
  "entry_partial a = entry_partial b \<Longrightarrow> entry_hash a = entry_hash b \<Longrightarrow> a = b"
  by (cases a; cases b) (auto simp: entry_partial_def audit_event_enum.val_inj dump_opt_def split: option.splits)

lemma chain_determined:
  assumes "chain_ok sha dumps es" "chain_ok sha dumps es'" "es \<noteq> []" "es' \<noteq> []"
    and "entry_hash (last es) = entry_hash (last es')"
    and "inj_on (\<lambda>v. sha (dumps v)) (entry_partial ` (set es \<union> set es'))"
  shows "es = es'"
  using assms
proof (induction es arbitrary: es' rule: rev_induct)
  case (snoc e es)
  obtain e' fs where es': "es' = fs @ [e']" using snoc.prems(4) by (metis rev_exhaust)
  have h: "entry_hash e = sha (dumps (entry_partial e))" "entry_hash e' = sha (dumps (entry_partial e'))"
    using snoc.prems(1,2) by (simp_all add: es' chain_ok_snoc)
  moreover have eq: "entry_hash e = entry_hash e'" using snoc.prems(5) by (simp add: es')
  ultimately have "entry_partial e = entry_partial e'"
    using snoc.prems(6) by (intro inj_onD [OF snoc.prems(6)]) (simp_all add: es')
  with eq have "e = e'" by (rule entry_partial_inj [rotated])
  then have link: "(if es = [] then None else Some (entry_hash (last es))) =
      (if fs = [] then None else Some (entry_hash (last fs)))"
    using snoc.prems(1,2) by (simp add: es' chain_ok_snoc)
  show ?case
  proof (cases "es = []")
    case True
    with link \<open>e = e'\<close> show ?thesis by (simp add: es' split: if_splits)
  next
    case False
    with link have "fs \<noteq> []" "entry_hash (last es) = entry_hash (last fs)" by (auto split: if_splits)
    moreover have "inj_on (\<lambda>v. sha (dumps v)) (entry_partial ` (set es \<union> set fs))"
      by (rule inj_on_subset [OF snoc.prems(6)]) (auto simp: es')
    ultimately have "es = fs"
      using snoc.prems(1,2) False by (intro snoc.IH) (simp_all add: es' chain_ok_snoc)
    with \<open>e = e'\<close> show ?thesis by (simp add: es')
  qed
qed simp


text \<open>
  Some entries are lost. JSON leaves U+0085 and other characters as they are at which
  \<open>splitlines\<close> breaks a line; an entry with one of them between parts that are no entries is
  written but never read again, and the next entry is chained to the one before it.
\<close>

theorem broken_entry_lost:
  assumes "record_event sha dumps enc dec d1 now d2 ev actor_id subject_id md fs = (e, fs')"
    and "enc e = a @ c # b" "is_break c" "c \<noteq> carriage" "list_all (\<lambda>x. \<not> is_break x) (a @ b)"
    and "parse_line dec a = None" "parse_line dec b = None"
  shows "read_day dec fs' d2 = read_day dec fs d2 \<and>
    last_hash_for_today dec fs' d2 = last_hash_for_today dec fs d2"
proof -
  have fs': "fs' = append_entry enc e d2 fs"
    using assms(1) by (auto simp: record_event_def Let_def)
  have first: "splitlines_from cur (a @ c # t) = (cur @ a) # splitlines_from [] t" for cur t
    using assms(5) assms(3,4)
  proof (induction a arbitrary: cur)
    case (Cons x a)
    then have "x \<noteq> carriage" by auto
    with Cons show ?case by simp
  qed simp
  have lost: "read_entries dec (rstrip_newlines s @ newline # a @ c # b @ [newline]) = read_entries dec s" for s
  proof -
    have "splitlines_from [] (b @ [newline]) = [b]"
      using splitlines_one [of b "[]"] assms(5) by simp
    then have "read_entries dec (rstrip_newlines s @ newline # a @ c # b @ [newline]) =
        read_entries dec (rstrip_newlines s) @ List.map_filter (parse_line dec) [a, b]"
      unfolding read_entries_def splitlines_def splitlines_append [of "[]" _ "a @ c # b @ [newline]"]
      by (simp add: first map_filter_append parse_final_newline)
    then show ?thesis by (simp add: read_rstrip map_filter_simps assms(6,7))
  qed
  have "read_entries dec [] = []" by (simp add: read_entries_def splitlines_def map_filter_simps)
  then have "read_day dec fs' d2 = read_day dec fs d2"
    by (simp add: fs' read_day_def append_entry_def Let_def assms(2) lost split: option.split)
  then show ?thesis by (simp add: last_hash_for_today_def)
qed

text \<open>A day with one entry, under a codec that knows this entry only.\<close>

definition some_day :: audit_date where
  "some_day = \<lparr>year = 2026, month = 3, day = 7\<rparr>"

definition first_entry :: AuditEntry where
  "first_entry = entry_create (\<lambda>s. s) (\<lambda>_. ''h'') (utc_dt 0) PURGE_REQUESTED ''USER-a'' ''USER-b'' None None"

definition one_dec :: "string \<Rightarrow> AuditEntry option" where
  "one_dec l = (if l = ''x'' then Some first_entry else None)"

lemma first_record:
  "record_event (\<lambda>s. s) (\<lambda>_. ''h'') (\<lambda>_. txt) one_dec some_day (utc_dt 0) some_day PURGE_REQUESTED
     ''USER-a'' ''USER-b'' None Map.empty =
     (first_entry, Map.empty(day_path some_day \<mapsto> [newline] @ txt @ [newline]))"
  by (simp add: record_event_def Let_def last_hash_for_today_def read_day_def append_entry_def
      rstrip_newlines_def first_entry_def)

lemma x_clean: "clean (\<lambda>_. ''x'') one_dec first_entry"
  by (simp add: clean_def one_dec_def is_break_def strip_def is_space_def newline_def carriage_def)

theorem record_appends_witness:
  "read_day one_dec (Map.empty(day_path some_day \<mapsto> [newline] @ ''x'' @ [newline])) some_day = [first_entry]"
  using record_appends [OF first_record x_clean] by (simp add: read_day_def)


theorem broken_entry_lost_witness:
  "read_day one_dec (Map.empty(day_path some_day \<mapsto> [newline] @ (''a'' @ CHR 0x85 # ''b'') @ [newline])) some_day = []"
proof -
  have "parse_line one_dec ''a'' = None" "parse_line one_dec ''b'' = None"
    by (simp_all add: parse_line_def one_dec_def strip_def is_space_def is_break_def newline_def carriage_def)
  moreover have "is_break (CHR 0x85)" "CHR 0x85 \<noteq> carriage" "list_all (\<lambda>x. \<not> is_break x) (''a'' @ ''b'')"
    by (simp_all add: is_break_def newline_def carriage_def)
  ultimately have "read_day one_dec (Map.empty(day_path some_day \<mapsto> [newline] @ (''a'' @ CHR 0x85 # ''b'') @ [newline]))
      some_day = read_day one_dec Map.empty some_day"
    using broken_entry_lost [OF first_record refl, of "CHR 0x85" "''a''" "''b''"] by blast
  then show ?thesis by (simp add: read_day_def)
qed

end
