(* ===== verification/GC_RateLimit.thy ===== *)
theory GC_RateLimit
  imports GC_Store GC_Text "HOL-Library.Finite_Map" "HOL-Library.Countable"
begin

section \<open>Rate limiting (\<open>gateway/rate_limiter.py\<close>)\<close>

text \<open>
  The sliding window over Redis sorted sets. Redis is not part of the repository: the commands
  the code sends are the fields of \<open>redis_ops\<close>, and what they do to the members of a sorted set
  is the locale \<open>sorted_sets\<close>, which lists in memory satisfy. Time is in seconds. A key that
  expired holds scores outside of every later window only, so its expiry changes no answer.
\<close>

subsection \<open>Redis\<close>

record 'r redis_ops =
  zremrangebyscore :: "string \<Rightarrow> rat \<Rightarrow> rat \<Rightarrow> 'r \<Rightarrow> 'r"
  zadd :: "string \<Rightarrow> string \<Rightarrow> rat \<Rightarrow> 'r \<Rightarrow> 'r"
  zcard :: "string \<Rightarrow> 'r \<Rightarrow> nat"
  expire :: "string \<Rightarrow> int \<Rightarrow> 'r \<Rightarrow> 'r"

locale sorted_sets =
  fixes ops :: "'r redis_ops" and members :: "'r \<Rightarrow> string \<Rightarrow> string \<Rightarrow> rat option"
  assumes members_zrem: "members (zremrangebyscore ops k lo hi r) k' m =
      (case members r k' m of None \<Rightarrow> None
       | Some s \<Rightarrow> if k' = k \<and> lo \<le> s \<and> s \<le> hi then None else Some s)"
    and members_zadd: "members (zadd ops k m s r) k' m' =
      (if k' = k \<and> m' = m then Some s else members r k' m')"
    and members_expire: "members (expire ops k n r) = members r"
    and zcard_dom: "zcard ops k r = card (dom (members r k))"
    and finite_dom: "finite (dom (members r k))"

type_synonym mem_redis = "(string \<times> string, rat) fmap"

definition mem_redis_ops :: "mem_redis redis_ops" where
  "mem_redis_ops = \<lparr>
     zremrangebyscore = (\<lambda>k lo hi r. fmfilter (\<lambda>km. case fmlookup r km of None \<Rightarrow> False
        | Some s \<Rightarrow> \<not> (fst km = k \<and> lo \<le> s \<and> s \<le> hi)) r),
     zadd = (\<lambda>k m s r. fmupd (k, m) s r),
     zcard = (\<lambda>k r. card (snd ` fset (ffilter (\<lambda>km. fst km = k) (fmdom r)))),
     expire = (\<lambda>k n r. r)\<rparr>"

definition mem_members :: "mem_redis \<Rightarrow> string \<Rightarrow> string \<Rightarrow> rat option" where
  "mem_members r k m = fmlookup r (k, m)"

interpretation mem_sets: sorted_sets mem_redis_ops mem_members
proof
  have dom: "dom (mem_members r k) = snd ` fset (ffilter (\<lambda>km. fst km = k) (fmdom r))" for r k
    by (force simp: mem_members_def fmlookup_dom_iff image_iff)
  show "zcard mem_redis_ops k r = card (dom (mem_members r k))" for k r
    by (simp add: dom mem_redis_ops_def)
  show "finite (dom (mem_members r k))" for r k by (simp add: dom)
qed (auto simp: mem_redis_ops_def mem_members_def split: option.splits)

subsection \<open>The limiter\<close>

definition RATE_LIMITS :: "(int \<times> int) pydict" where
  "RATE_LIMITS = [(''unauthenticated'', (30, 60)), (''authenticated'', (300, 60)),
     (''a2a'', (60, 60)), (''webhook'', (120, 60))]"

definition redis_key_of :: "string \<Rightarrow> string" where
  "redis_key_of key = ''ratelimit:'' @ key"

text \<open>\<open>up\<close> tells whether Redis answers; \<open>str\<close> is the text of a float.\<close>

definition is_allowed :: "'r redis_ops \<Rightarrow> (rat \<Rightarrow> string) \<Rightarrow> bool \<Rightarrow> rat \<Rightarrow> string \<Rightarrow> int \<Rightarrow> int \<Rightarrow> 'r \<Rightarrow>
    (bool \<times> int) \<times> 'r" where
  "is_allowed ops str up now key limit window_seconds r =
     (if \<not> up then ((True, limit), r)
      else let window_start = now - of_int window_seconds;
               redis_key = redis_key_of key;
               r1 = zremrangebyscore ops redis_key 0 window_start r;
               r2 = zadd ops redis_key (str now) now r1;
               count = int (zcard ops redis_key r2);
               r3 = expire ops redis_key (window_seconds + 1) r2
           in ((count \<le> limit, max 0 (limit - count)), r3))"

subsection \<open>The middleware\<close>

record http_request =
  req_path :: string
  x_real_ip :: "string option"
  x_forwarded_for :: "string option"
  client_host :: "string option"
  x_agent_api_key :: "string option"
  authorization :: "string option"

definition or_else :: "string option \<Rightarrow> string option \<Rightarrow> string option" where
  "or_else a b = (case a of None \<Rightarrow> b | Some s \<Rightarrow> if s = [] then b else a)"

definition client_ip :: "http_request \<Rightarrow> string" where
  "client_ip q =
     (let forwarded = strip (hd (split_on (CHR '','') (case x_forwarded_for q of None \<Rightarrow> [] | Some s \<Rightarrow> s)));
          ip = or_else (x_real_ip q) (or_else (Some forwarded) (client_host q))
      in case ip of None \<Rightarrow> ''unknown'' | Some s \<Rightarrow> if s = [] then ''unknown'' else s)"

text \<open>
  \<open>payload\<close> is what base64 and JSON make of the middle part of a token (\<open>None\<close> where they raise),
  \<open>text\<close> the text an f-string makes of a value.
\<close>

definition token_sub :: "(string \<Rightarrow> pval option) \<Rightarrow> (pval \<Rightarrow> string) \<Rightarrow> string \<Rightarrow> string \<Rightarrow> string option" where
  "token_sub payload text header ip = (case split_on (CHR ''.'') header of
     _ # part # _ \<Rightarrow> (case payload part of
         Some (PDict d) \<Rightarrow> Some (text (dict_get_default d ''sub'' (PStr ip)))
       | _ \<Rightarrow> None)
   | _ \<Rightarrow> None)"

definition limit_of :: "string \<Rightarrow> int \<times> int" where
  "limit_of category = the (dict_get RATE_LIMITS category)"

definition exempt :: "http_request \<Rightarrow> bool" where
  "exempt q \<longleftrightarrow> starts_with ''/auth/'' (req_path q) \<or> req_path q = ''/health''"

definition bucket :: "(string \<Rightarrow> pval option) \<Rightarrow> (pval \<Rightarrow> string) \<Rightarrow> http_request \<Rightarrow> string \<times> string" where
  "bucket payload text q =
     (let ip = client_ip q
      in if starts_with ''/webhooks/'' (req_path q) then (''webhook:'' @ ip, ''webhook'')
         else if starts_with ''/api/v1/task-update'' (req_path q)
         then (''a2a:'' @ take 16 (case x_agent_api_key q of None \<Rightarrow> ip | Some k \<Rightarrow> k), ''a2a'')
         else let auth = (case authorization q of None \<Rightarrow> [] | Some a \<Rightarrow> a)
              in if starts_with ''Bearer '' auth
                 then (case token_sub payload text auth ip of
                     Some sub \<Rightarrow> (''user:'' @ sub, ''authenticated'')
                   | None \<Rightarrow> (''ip:'' @ ip, ''unauthenticated''))
                 else (''ip:'' @ ip, ''unauthenticated''))"

datatype http_answer = TooManyRequests int | Passed "int option"

definition rate_dispatch :: "'r redis_ops \<Rightarrow> (rat \<Rightarrow> string) \<Rightarrow> (string \<Rightarrow> pval option) \<Rightarrow> (pval \<Rightarrow> string) \<Rightarrow>
    bool \<Rightarrow> rat \<Rightarrow> http_request \<Rightarrow> 'r \<Rightarrow> http_answer \<times> 'r" where
  "rate_dispatch ops str payload text up now q r =
     (if exempt q then (Passed None, r)
      else let (key, category) = bucket payload text q; (limit, window) = limit_of category;
               ((allowed, remaining), r') = is_allowed ops str up now key limit window r
           in (if \<not> allowed then TooManyRequests window else Passed (Some remaining), r'))"

subsection \<open>The window\<close>

text \<open>Requests at the times \<open>ts\<close>, in this order, on one bucket while Redis answers.\<close>

fun serve :: "'r redis_ops \<Rightarrow> (rat \<Rightarrow> string) \<Rightarrow> string \<Rightarrow> int \<Rightarrow> int \<Rightarrow> rat list \<Rightarrow> 'r \<Rightarrow> (bool \<times> int) list \<times> 'r" where
  "serve ops str key limit w [] r = ([], r)"
| "serve ops str key limit w (t # ts) r =
     (let (a, r1) = is_allowed ops str True t key limit w r; (as, r2) = serve ops str key limit w ts r1
      in (a # as, r2))"

definition in_window :: "rat list \<Rightarrow> rat \<Rightarrow> int \<Rightarrow> rat set" where
  "in_window past t w = {u \<in> set past. t - of_int w < u}"

definition answer_for :: "int \<Rightarrow> nat \<Rightarrow> bool \<times> int" where
  "answer_for limit c = (int c \<le> limit, max 0 (limit - int c))"

text \<open>The set holds the past times, at least those that are still in the window of all others.\<close>

definition window_inv :: "(rat \<Rightarrow> string) \<Rightarrow> int \<Rightarrow> rat list \<Rightarrow> (string \<Rightarrow> rat option) \<Rightarrow> bool" where
  "window_inv str w past M \<longleftrightarrow>
     (\<forall>m s. M m = Some s \<longrightarrow> s \<in> set past \<and> m = str s) \<and>
     (\<forall>t \<in> set past. (\<forall>u \<in> set past. u - of_int w < t) \<longrightarrow> M (str t) = Some t)"

context sorted_sets
begin

lemma is_allowed_members:
  assumes "is_allowed ops str True t key limit w r = (a, r')"
  shows "a = answer_for limit (card (dom (members r' (redis_key_of key)))) \<and>
    members r' (redis_key_of key) m = (if m = str t then Some t
      else case members r (redis_key_of key) m of None \<Rightarrow> None
           | Some s \<Rightarrow> if 0 \<le> s \<and> s \<le> t - of_int w then None else Some s)"
  using assms by (auto simp: is_allowed_def Let_def members_expire members_zadd members_zrem zcard_dom
      answer_for_def split: option.split)

lemma window_step:
  assumes I: "window_inv str w past (members r (redis_key_of key))" and w: "0 < w"
    and later: "\<forall>u \<in> set past. 0 \<le> u \<and> u < t" and inj: "inj str"
    and run: "is_allowed ops str True t key limit w r = (a, r')"
  shows "a = answer_for limit (card (in_window (past @ [t]) t w)) \<and>
    window_inv str w (past @ [t]) (members r' (redis_key_of key))"
proof -
  let ?M = "members r (redis_key_of key)" and ?M' = "members r' (redis_key_of key)"
  note M' = is_allowed_members [OF run]
  have wpos: "(0 :: rat) < of_int w" using w by simp
  have "?M' m = Some s \<longleftrightarrow> m = str s \<and> s \<in> in_window (past @ [t]) t w" for m s
  proof (cases "m = str t")
    case True
    then show ?thesis using M' wpos inj by (auto simp: in_window_def inj_def)
  next
    case False
    have "?M m = Some s \<and> t - of_int w < s \<longleftrightarrow> m = str s \<and> s \<in> set past \<and> t - of_int w < s"
    proof
      assume "m = str s \<and> s \<in> set past \<and> t - of_int w < s"
      moreover from this later have "\<forall>u \<in> set past. u - of_int w < s" by fastforce
      ultimately show "?M m = Some s \<and> t - of_int w < s" using I by (auto simp: window_inv_def)
    qed (use I in \<open>auto simp: window_inv_def\<close>)
    moreover have "?M' m = Some s \<longleftrightarrow> ?M m = Some s \<and> t - of_int w < s"
      using M' False I later by (auto simp: window_inv_def split: option.splits if_splits)
    moreover have "s \<noteq> t \<or> m \<noteq> str s" using False by auto
    ultimately show ?thesis using False by (auto simp: in_window_def)
  qed
  note M'_iff = this
  have "dom ?M' = str ` in_window (past @ [t]) t w"
    by (auto simp: M'_iff image_iff dom_def)
  then have "card (dom ?M') = card (in_window (past @ [t]) t w)"
    using card_image [of str] inj by (metis inj_on_subset subset_UNIV)
  moreover have "window_inv str w (past @ [t]) ?M'"
    unfolding window_inv_def M'_iff by (auto simp: in_window_def)
  ultimately show ?thesis using M' by simp
qed

lemma serve_answers:
  assumes "window_inv str w past (members r (redis_key_of key))" "0 < w" "inj str"
    and "sorted_wrt (<) (past @ ts)" "\<forall>u \<in> set (past @ ts). 0 \<le> u" "i < length ts"
  shows "fst (serve ops str key limit w ts r) ! i =
    answer_for limit (card (in_window (past @ take (Suc i) ts) (ts ! i) w))"
  using assms
proof (induction ts arbitrary: past r i)
  case (Cons t ts)
  obtain a r1 where a: "is_allowed ops str True t key limit w r = (a, r1)" by fastforce
  have "\<forall>u \<in> set past. 0 \<le> u \<and> u < t"
    using Cons.prems(4,5) by (auto simp: sorted_wrt_append)
  note st = window_step [OF Cons.prems(1,2) this Cons.prems(3) a]
  show ?case
  proof (cases i)
    case 0
    with st a show ?thesis by (simp add: split_def Let_def)
  next
    case (Suc j)
    have "fst (serve ops str key limit w ts r1) ! j =
        answer_for limit (card (in_window ((past @ [t]) @ take (Suc j) ts) (ts ! j) w))"
      using st Cons.prems Suc by (intro Cons.IH) simp_all
    with a Suc show ?thesis by (simp add: split_def Let_def)
  qed
qed simp

end


text \<open>
  No window of the length of the limit, wherever it starts, holds more allowed requests
  of one bucket than the limit, refused ones not counted, at any sequence of increasing times.
\<close>

theorem rate_bounded:
  assumes "sorted_sets ops members" "members r (redis_key_of key) = Map.empty" "0 < w" "inj str"
    and "sorted_wrt (<) ts" "\<forall>u \<in> set ts. 0 \<le> u" "0 \<le> limit"
  shows "int (card {i. i < length ts \<and> fst (fst (serve ops str key limit w ts r) ! i) \<and>
      x < ts ! i \<and> ts ! i \<le> x + of_int w}) \<le> limit"
proof -
  let ?A = "{i. i < length ts \<and> fst (fst (serve ops str key limit w ts r) ! i) \<and>
      x < ts ! i \<and> ts ! i \<le> x + of_int w}"
  have fin: "finite ?A" by simp
  show ?thesis
  proof (cases "?A = {}")
    case True
    then show ?thesis using assms(7) by (metis card.empty of_nat_0)
  next
    case False
    define m where "m = Max ?A"
    have m: "m \<in> ?A" and max: "\<And>i. i \<in> ?A \<Longrightarrow> i \<le> m"
      using Max_in [OF fin False] Max_ge [OF fin] by (simp_all add: m_def)
    have "fst (serve ops str key limit w ts r) ! m =
        answer_for limit (card (in_window (take (Suc m) ts) (ts ! m) w))"
      using sorted_sets.serve_answers [OF assms(1) _ assms(3,4), of "[]" r key ts m limit] assms(2,5,6) m
      by (simp add: window_inv_def)
    with m have le: "int (card (in_window (take (Suc m) ts) (ts ! m) w)) \<le> limit"
      by (simp add: answer_for_def)
    have "inj_on ((!) ts) ?A"
      using assms(5) by (intro inj_on_nth) (auto simp: strict_sorted_iff)
    then have "card ?A = card ((!) ts ` ?A)" by (simp only: card_image)
    also have "\<dots> \<le> card (in_window (take (Suc m) ts) (ts ! m) w)"
    proof (rule card_mono)
      show "finite (in_window (take (Suc m) ts) (ts ! m) w)" by (simp add: in_window_def)
      show "(!) ts ` ?A \<subseteq> in_window (take (Suc m) ts) (ts ! m) w"
      proof
        fix u assume "u \<in> (!) ts ` ?A"
        then obtain i where i: "i \<in> ?A" "u = ts ! i" by blast
        from max [OF i(1)] i m have "u \<in> set (take (Suc m) ts)"
          by (auto simp: in_set_conv_nth intro!: exI [of _ i])
        with i m show "u \<in> in_window (take (Suc m) ts) (ts ! m) w" by (auto simp: in_window_def)
      qed
    qed
    finally show ?thesis using le by linarith
  qed
qed

text \<open>
  Requests of one bucket with the same clock value count once: the second gets the answer
  of the first, whatever happened before, so any number of them passes where one does.
\<close>

theorem same_instant_counted_once:
  assumes "sorted_sets ops members"
    and "is_allowed ops str True t key limit w r = (a, r1)" "is_allowed ops str True t key limit w r1 = (b, r2)"
    and "0 < w"
  shows "b = a"
proof -
  note m = sorted_sets.is_allowed_members [OF assms(1,2)] sorted_sets.is_allowed_members [OF assms(1,3)]
  have "members r2 (redis_key_of key) x = members r1 (redis_key_of key) x" for x
    using m(1) [of x] m(2) [of x] assms(4) by (auto split: option.splits if_splits)
  then have "members r2 (redis_key_of key) = members r1 (redis_key_of key)" by blast
  with m(1) [of "[]"] m(2) [of "[]"] show ?thesis by (metis (no_types))
qed

text \<open>Some injective text of a rational, for the instances.\<close>

definition unary :: "rat \<Rightarrow> string" where
  "unary q = replicate (to_nat q) (CHR ''1'')"

lemma unary_inj: "inj unary"
  by (rule injI) (simp add: unary_def)

lemma in_window_filter: "in_window past t w = set (filter (\<lambda>u. t - of_int w < u) past)"
  by (auto simp: in_window_def)

lemma fresh_bucket: "mem_members fmempty k = Map.empty"
  by (simp add: mem_members_def fun_eq_iff)


theorem rate_bounded_witness:
  "int (card {i. i < length [0, 10, 65 :: rat] \<and>
      fst (fst (serve mem_redis_ops unary ''ip:1.2.3.4'' 1 60 [0, 10, 65] fmempty) ! i) \<and>
      -1 < [0, 10, 65 :: rat] ! i \<and> [0, 10, 65 :: rat] ! i \<le> -1 + of_int 60}) \<le> 1"
  by (rule rate_bounded [OF mem_sets.sorted_sets_axioms fresh_bucket]) (simp_all add: unary_inj)

theorem same_instant_counted_once_witness:
  "fst (is_allowed mem_redis_ops unary True 5 ''ip:1.2.3.4'' 1 60
     (snd (is_allowed mem_redis_ops unary True 5 ''ip:1.2.3.4'' 1 60 fmempty))) =
   fst (is_allowed mem_redis_ops unary True 5 ''ip:1.2.3.4'' 1 60 fmempty)"
  by (rule same_instant_counted_once [OF mem_sets.sorted_sets_axioms prod.collapse [symmetric]
        prod.collapse [symmetric]]) simp

end
