(* ===== verification/GC_Membership.thy ===== *)
theory GC_Membership
  imports GC_StoreLaws
begin

section \<open>Membership (\<open>cascade/membership.py\<close>, \<open>cascade/detachment.py\<close>, \<open>identity/directory.py\<close>)\<close>

text \<open>
  What happens when a user joins or leaves an organisation: the directory row, and the contacts
  of others that point to the user. The directory is an SQL table with the key (user, org);
  \<open>pool\<close> tells whether the statements succeed. \<open>chars\<close> gives the characters of a text that
  another part of the program wrote (a time or a JSON text), \<open>str\<close> is Python's \<open>str\<close>.
\<close>

subsection \<open>The directory\<close>

record DirectoryEntry =
  de_user_id :: pval
  de_org_id :: string
  de_display_name :: pval
  de_emails :: "pval list"
  de_identities :: pval
  de_aliases :: "pval list"
  de_visibility :: pval

type_synonym directory = "string \<times> string \<Rightarrow> DirectoryEntry option"

definition dir_upsert :: "bool \<Rightarrow> string \<times> string \<Rightarrow> DirectoryEntry \<Rightarrow> directory \<Rightarrow> directory" where
  "dir_upsert pool key entry d = (if pool then d(key \<mapsto> entry) else d)"

definition dir_remove :: "bool \<Rightarrow> string \<Rightarrow> string \<Rightarrow> directory \<Rightarrow> directory" where
  "dir_remove pool user_id org_id d = (if pool then d((user_id, org_id) := None) else d)"

definition dir_get_by_user_id :: "bool \<Rightarrow> string \<Rightarrow> string list \<Rightarrow> directory \<Rightarrow> DirectoryEntry set" where
  "dir_get_by_user_id pool user_id caller_org_ids d =
     (if caller_org_ids = [] \<or> user_id = [] \<or> \<not> pool then {}
      else {e. \<exists>org_id \<in> set caller_org_ids. d (user_id, org_id) = Some e})"

text \<open>\<open>list(v)\<close>, \<open>v or {}\<close> and \<open>v or []\<close>\<close>

definition as_list :: "(pval \<Rightarrow> string) \<Rightarrow> pval \<Rightarrow> py_error + pval list" where
  "as_list chars v = (case v of
     PList vs \<Rightarrow> Inr vs
   | PDict d \<Rightarrow> Inr (map PStr (dict_keys d))
   | PStr s \<Rightarrow> Inr (map (\<lambda>c. PStr [c]) s)
   | _ \<Rightarrow> if is_str v then Inr (map (\<lambda>c. PStr [c]) (chars v)) else Inl PyTypeError)"

definition or_default :: "props \<Rightarrow> string \<Rightarrow> pval \<Rightarrow> pval" where
  "or_default p k d = (if get_truthy p k then dict_get_default p k d else d)"

definition alias_value :: "(pval \<Rightarrow> string) \<Rightarrow> pval \<Rightarrow> pval" where
  "alias_value str a = (case a of PDict d \<Rightarrow> dict_get_default d ''value'' (PStr []) | _ \<Rightarrow> PStr (str a))"

definition build_directory_entry ::
  "(pval \<Rightarrow> string) \<Rightarrow> (pval \<Rightarrow> string) \<Rightarrow> props \<Rightarrow> string \<Rightarrow> py_error + DirectoryEntry" where
  "build_directory_entry chars str user_raw org_id =
     (let ids = or_default user_raw ''identities'' (PDict []);
          mails = (case ids of PDict d \<Rightarrow> dict_get_default d ''emails'' (PList []) | _ \<Rightarrow> PList []);
          prefs = or_default user_raw ''preferences'' (PDict []);
          discoverability = (case prefs of PDict d \<Rightarrow> dict_get_default d ''discoverability'' (PStr ''org_default'')
                             | _ \<Rightarrow> PStr ''org_default'')
      in bindE (as_list chars (or_default user_raw ''aliases'' (PList []))) (\<lambda>aliases.
         bindE (as_list chars mails) (\<lambda>emails.
           Inr \<lparr>de_user_id = dict_get_default user_raw ''id'' (PStr []), de_org_id = org_id,
                de_display_name = dict_get_default user_raw ''name'' (PStr []), de_emails = emails,
                de_identities = ids, de_aliases = map (alias_value str) aliases,
                de_visibility = discoverability\<rparr>)))"

subsection \<open>The cascade\<close>

record 'g member_world =
  mw_store :: "'g session"
  mw_directory :: directory

definition on_member_added :: "'g database \<Rightarrow> store_cfg \<Rightarrow> (pval \<Rightarrow> string) \<Rightarrow> (pval \<Rightarrow> string) \<Rightarrow> bool \<Rightarrow> bool \<Rightarrow>
    string \<Rightarrow> string \<Rightarrow> 'g member_world \<Rightarrow> 'g member_world" where
  "on_member_added exec cfg chars str has_directory pool user_id org_id w =
     (if \<not> has_directory then w
      else case get_node exec cfg user_id False None (mw_store w) of
          (Inr (Some user_raw), s) \<Rightarrow>
            (case build_directory_entry chars str user_raw org_id of
               Inr entry \<Rightarrow> w\<lparr>mw_store := s,
                 mw_directory := dir_upsert pool (user_id, org_id) entry (mw_directory w)\<rparr>
             | Inl e \<Rightarrow> w\<lparr>mw_store := s\<rparr>)
        | (r, s) \<Rightarrow> w\<lparr>mw_store := s\<rparr>)"

definition detached :: props where
  "detached = [(''link_status'', PStr ''detached_org_left'')]"

definition detach_shadow :: "'g database \<Rightarrow> store_cfg \<Rightarrow> props \<Rightarrow> unit \<Rightarrow> ('g, unit) op" where
  "detach_shadow exec cfg shadow u =
     (if \<not> get_truthy shadow ''id'' then returnS ()
      else case dict_get shadow ''id'' of
          Some (PStr i) \<Rightarrow> bindS (update_node exec cfg i detached None) (\<lambda>_. returnS ())
        | _ \<Rightarrow> raiseS PyAttributeError)"

text \<open>The loop stands in a \<open>try\<close>: the first exception ends it and is only logged.\<close>

definition shadows_of :: "'g database \<Rightarrow> store_cfg \<Rightarrow> string \<Rightarrow> ('g, props list) op" where
  "shadows_of exec cfg user_id = list_nodes exec cfg ''ResourceNode'' [(''linked_user_id'', PStr user_id)] None"

definition detach_resource_shadows :: "'g database \<Rightarrow> store_cfg \<Rightarrow> string \<Rightarrow> 'g session \<Rightarrow> 'g session" where
  "detach_resource_shadows exec cfg user_id s =
     snd (bindS (shadows_of exec cfg user_id) (\<lambda>shadows. forS (detach_shadow exec cfg) shadows ()) s)"

definition on_member_removed :: "'g database \<Rightarrow> store_cfg \<Rightarrow> bool \<Rightarrow> bool \<Rightarrow> string \<Rightarrow> string \<Rightarrow>
    'g member_world \<Rightarrow> 'g member_world" where
  "on_member_removed exec cfg has_directory pool user_id org_id w =
     w\<lparr>mw_directory := (if has_directory then dir_remove pool user_id org_id (mw_directory w)
                        else mw_directory w),
       mw_store := detach_resource_shadows exec cfg user_id (mw_store w)\<rparr>"

text \<open>The events of \<open>DirectoryIndexer\<close>; an absent field is the empty text.\<close>

record membership_event =
  ev_kind :: string
  ev_user :: string
  ev_org :: string

definition indexer_dispatch :: "'g database \<Rightarrow> store_cfg \<Rightarrow> (pval \<Rightarrow> string) \<Rightarrow> (pval \<Rightarrow> string) \<Rightarrow> bool \<Rightarrow> bool \<Rightarrow>
    membership_event \<Rightarrow> 'g member_world \<Rightarrow> 'g member_world" where
  "indexer_dispatch exec cfg chars str has_directory pool ev w =
     (if ev_user ev = [] \<or> ev_org ev = [] then w
      else if ev_kind ev = ''member_added''
      then on_member_added exec cfg chars str has_directory pool (ev_user ev) (ev_org ev) w
      else if ev_kind ev = ''member_removed''
      then on_member_removed exec cfg has_directory pool (ev_user ev) (ev_org ev) w
      else if ev_kind ev = ''profile_updated''
      then on_member_added exec cfg chars str has_directory pool (ev_user ev) (ev_org ev) w
      else w)"

text \<open>\<open>DetachmentCascade.detach\<close>; the snapshot goes to the object store, \<open>stamp\<close> names it.\<close>

definition detach :: "'g database \<Rightarrow> store_cfg \<Rightarrow> (props \<Rightarrow> string) \<Rightarrow> (py_datetime \<Rightarrow> string) \<Rightarrow> bool \<Rightarrow>
    py_datetime \<Rightarrow> string \<Rightarrow> string \<Rightarrow> 'g session \<times> (string \<Rightarrow> string option) \<Rightarrow>
    'g session \<times> (string \<Rightarrow> string option)" where
  "detach exec cfg dumps stamp has_storage now nid why w =
     (case update_node exec cfg nid [(''link_status'', PStr ''detached_org_left''),
          (''detached_at'', PTime now), (''detach_reason'', PStr why)] None (fst w) of
        (Inl e, s) \<Rightarrow> (s, snd w)
      | (Inr _, s) \<Rightarrow>
          if \<not> has_storage then (s, snd w)
          else (case get_node exec cfg nid False None s of
              (Inr (Some raw), s') \<Rightarrow> (s', (snd w)(''_system/detachments/'' @ nid @ ''/'' @ stamp now @ ''.json'' \<mapsto>
                 dumps [(''node_id'', PStr nid), (''detached_at'', PTime now), (''snapshot'', PDict raw)]))
            | (r, s') \<Rightarrow> (s', snd w)))"

subsection \<open>Detaching\<close>

lemma detached_lits [simp]: "dict_ok (set_lits detached)" "keeps_id i (set_lits detached)"
  by (simp_all add: detached_def set_lits_def dict_ok_def keeps_id_def)

lemma get_detached: "dict_get (set_props (set_lits detached) p) k =
    (if k = ''link_status'' then Some (PStr ''detached_org_left'') else dict_get p k)"
  by (simp add: dict_get_set_props_dump detached_def dict_ok_def dict_simps)

lemma link_status_forbidden: "k = ''link_status'' \<Longrightarrow> forbidden_fields ((k, v) # upd) \<noteq> []"
  using forbidden_fields_Nil [of "(k, v) # upd" k] by (auto simp: LIFECYCLE_FIELDS_def dict_get_Cons)

definition shadow_ids :: "props list \<Rightarrow> string set" where
  "shadow_ids shadows = {i. \<exists>p \<in> set shadows. dict_get p ''id'' = Some (PStr i) \<and> i \<noteq> []}"

context cypher_service
begin

lemma shadows_of_run:
  "\<exists>r. shadows_of exec cfg u s = (r, s)"
proof -
  have "KEY_RE_match ''ResourceNode''" "KEY_RE_match ''linked_user_id''"
    by (simp_all add: KEY_RE_match_def chomp_def newline_def is_upper_def is_lower_def)
  then show ?thesis
    by (cases "require_caller_context cfg None")
      (simp_all add: shadows_of_def list_nodes_def bindS_unfold run_label)
qed

lemma agent_detach_refused:
  assumes "principal_name cfg = ''agent_principal''"
  shows "snd (detach_shadow exec cfg p u s) = s"
proof -
  have "snd (update_node exec cfg i detached None s) = s" for i
  proof (cases "require_caller_context cfg None")
    case (Inr x)
    then show ?thesis
      using update_node_refuses [of cfg None detached i s] assms link_status_forbidden
      by (simp add: detached_def)
  qed (simp add: update_node_def bindS_unfold)
  then show ?thesis
    by (simp add: detach_shadow_def bindS_unfold split: option.split pval.split prod.split sum.split)
      (metis snd_conv)
qed

lemma agent_never_detaches_shadow:
  assumes "principal_name cfg = ''agent_principal''"
  shows "detach_resource_shadows exec cfg u s = s"
proof -
  have "snd (forS (detach_shadow exec cfg) ps () t) = t" for ps t
  proof -
    obtain r t' where "forS (detach_shadow exec cfg) ps () t = (r, t')" by fastforce
    moreover from this have "t = t'"
      by (rule forS_rel [where R = "(=)", rotated -1]) (use agent_detach_refused [OF assms] in \<open>auto, metis snd_conv\<close>)
    ultimately show ?thesis by simp
  qed
  then show ?thesis
    using shadows_of_run [of cfg u s] by (auto simp: detach_resource_shadows_def bindS_unfold split: sum.split)
qed

lemma detach_one:
  assumes "principal_name cfg \<noteq> ''agent_principal''" "require_caller_context cfg None = Inr ()"
    and "dict_get p ''id'' = Some (PStr i)"
  shows "\<exists>t'. detach_shadow exec cfg p u t = (Inr (), t') \<and>
    (\<forall>j. fetch exec (graph t') j = (if j = i \<and> i \<noteq> [] then map_option (set_props (set_lits detached))
       (fetch exec (graph t) j) else fetch exec (graph t) j))"
proof (cases "i = []")
  case True
  with assms(3) show ?thesis by (simp add: detach_shadow_def get_truthy_def)
next
  case False
  obtain r t' where run: "update_node exec cfg i detached None t = (r, t')" by fastforce
  have "detached \<noteq> []" by (simp add: detached_def)
  with update_node_writes [OF assms(2) this, of i t] run assms(1) obtain v where v: "r = Inr v" by auto
  from run v have "graph t' = snd (exec (MatchIdSet i (set_lits detached)) (graph t))"
    by (cases rule: update_node_cases) auto
  then show ?thesis
    using run v False assms(3) by (simp add: detach_shadow_def get_truthy_def bindS_unfold fetch_set)
qed

lemma detach_all:
  assumes "principal_name cfg \<noteq> ''agent_principal''" "require_caller_context cfg None = Inr ()"
    and "\<forall>p \<in> set ps. \<exists>i. dict_get p ''id'' = Some (PStr i)"
  shows "\<exists>t'. forS (detach_shadow exec cfg) ps () t = (Inr (), t') \<and>
    (\<forall>j k. map_option (\<lambda>p. dict_get p k) (fetch exec (graph t') j) =
       map_option (\<lambda>p. if j \<in> shadow_ids ps \<and> k = ''link_status'' then Some (PStr ''detached_org_left'')
         else dict_get p k) (fetch exec (graph t) j))"
  using assms(3)
proof (induction ps arbitrary: t)
  case Nil
  then show ?case by (simp add: shadow_ids_def)
next
  case (Cons p ps)
  obtain i where i: "dict_get p ''id'' = Some (PStr i)" using Cons.prems by auto
  obtain t1 where t1: "detach_shadow exec cfg p () t = (Inr (), t1)"
    "\<And>j. fetch exec (graph t1) j = (if j = i \<and> i \<noteq> [] then map_option (set_props (set_lits detached))
       (fetch exec (graph t) j) else fetch exec (graph t) j)"
    using detach_one [OF assms(1,2) i, of "()" t] by blast
  obtain t' where t': "forS (detach_shadow exec cfg) ps () t1 = (Inr (), t')"
    "\<And>j k. map_option (\<lambda>p. dict_get p k) (fetch exec (graph t') j) =
       map_option (\<lambda>p. if j \<in> shadow_ids ps \<and> k = ''link_status'' then Some (PStr ''detached_org_left'')
         else dict_get p k) (fetch exec (graph t1) j)"
    using Cons.IH [of t1] Cons.prems by auto
  have ids: "shadow_ids (p # ps) = (if i = [] then shadow_ids ps else insert i (shadow_ids ps))"
    using i by (auto simp: shadow_ids_def)
  show ?case
    using t1 t' by (auto simp: bindS_unfold ids option.map_comp comp_def get_detached split: if_splits
      intro!: option.map_cong0)
qed

end

text \<open>
  When a member leaves, a store that may write lifecycle fields marks every contact that
  is linked to the user as detached, in the order found, and changes no other field of any node;
  the directory row goes.
\<close>

theorem member_removal_detaches:
  assumes "cypher_service exec" "principal_name cfg \<noteq> ''agent_principal''"
    and "require_caller_context cfg None = Inr ()" "shadows_of exec cfg u (mw_store w) = (Inr shadows, mw_store w)"
    and "\<forall>p \<in> set shadows. \<exists>i. dict_get p ''id'' = Some (PStr i)"
  shows "mw_directory (on_member_removed exec cfg True True u org w) = (mw_directory w)((u, org) := None) \<and>
    (\<forall>j k. map_option (\<lambda>p. dict_get p k)
         (fetch exec (graph (mw_store (on_member_removed exec cfg True True u org w))) j) =
       map_option (\<lambda>p. if j \<in> shadow_ids shadows \<and> k = ''link_status'' then Some (PStr ''detached_org_left'')
         else dict_get p k) (fetch exec (graph (mw_store w)) j))"
proof -
  obtain t' where t': "forS (detach_shadow exec cfg) shadows () (mw_store w) = (Inr (), t')"
    "\<And>j k. map_option (\<lambda>p. dict_get p k) (fetch exec (graph t') j) =
       map_option (\<lambda>p. if j \<in> shadow_ids shadows \<and> k = ''link_status'' then Some (PStr ''detached_org_left'')
         else dict_get p k) (fetch exec (graph (mw_store w)) j)"
    using cypher_service.detach_all [OF assms(1-3,5), of "mw_store w"] by blast
  then show ?thesis
    using assms(4) by (simp add: on_member_removed_def dir_remove_def detach_resource_shadows_def bindS_unfold)
qed

text \<open>
  With the store the program makes nothing is ever detached. \<open>link_status\<close> is one of the
  fields its principal may not write; the exception is caught and logged: when a member leaves,
  and when \<open>DetachmentCascade.detach\<close> is called, every contact keeps its link.
\<close>

theorem agent_never_detaches:
  assumes "cypher_service exec" "create_graph_store backend enforcement = Inr cfg"
  shows "mw_store (on_member_removed exec cfg has_directory pool u org w) = mw_store w \<and>
    detach exec cfg dumps stamp has_storage now i why v = v"
proof -
  have agent: "principal_name cfg = ''agent_principal''"
    using assms(2) by (auto simp: create_graph_store_def split: if_splits)
  let ?upd = "[(''link_status'', PStr ''detached_org_left''), (''detached_at'', PTime now), (''detach_reason'', PStr why)]"
  have "\<exists>e. update_node exec cfg i ?upd None (fst v) = (Inl e, fst v)"
  proof (cases "require_caller_context cfg None")
    case (Inr x)
    then show ?thesis
      using cypher_service.update_node_refuses [OF assms(1), of cfg None ?upd i "fst v"] agent
        link_status_forbidden by simp
  qed (simp add: update_node_def bindS_unfold)
  then show ?thesis
    using cypher_service.agent_never_detaches_shadow [OF assms(1) agent]
    by (auto simp: detach_def on_member_removed_def)
qed

subsection \<open>The directory follows the events\<close>

text \<open>The abstract directory is the set of (user, organisation) pairs.\<close>

definition abs_event :: "membership_event \<Rightarrow> (string \<times> string) set \<Rightarrow> (string \<times> string) set" where
  "abs_event ev M =
     (if ev_user ev = [] \<or> ev_org ev = [] then M
      else if ev_kind ev \<in> {''member_added'', ''profile_updated''} then insert (ev_user ev, ev_org ev) M
      else if ev_kind ev = ''member_removed'' then M - {(ev_user ev, ev_org ev)}
      else M)"

text \<open>The user can be read, and the entry can be built.\<close>

definition listable :: "'g database \<Rightarrow> store_cfg \<Rightarrow> (pval \<Rightarrow> string) \<Rightarrow> (pval \<Rightarrow> string) \<Rightarrow> 'g session \<Rightarrow>
    membership_event \<Rightarrow> bool" where
  "listable exec cfg chars str s ev \<longleftrightarrow> (\<exists>p entry. visible False (fetch exec (graph s) (ev_user ev)) = Some p \<and>
     build_directory_entry chars str p (ev_org ev) = Inr entry)"

lemma indexer_dispatch_abs:
  assumes "cypher_service exec" "principal_name cfg = ''agent_principal''"
    and "require_caller_context cfg None = Inr ()" "listable exec cfg chars str (mw_store w) ev"
  shows "mw_store (indexer_dispatch exec cfg chars str True True ev w) = mw_store w \<and>
    dom (mw_directory (indexer_dispatch exec cfg chars str True True ev w)) = abs_event ev (dom (mw_directory w))"
  using assms(4) cypher_service.agent_never_detaches_shadow [OF assms(1,2), of "ev_user ev" "mw_store w"]
  by (auto simp: listable_def indexer_dispatch_def on_member_added_def on_member_removed_def
      cypher_service.get_node_eq [OF assms(1)] assms(3) dir_upsert_def dir_remove_def abs_event_def)

text \<open>
  Claim C32: the directory refines the set of memberships. With the store the program makes, and as
  long as the users of the events can be read and listed, the rows after any sequence of events
  are those of the abstract set that adds, keeps and removes pairs; the graph stays as it is.
\<close>

theorem directory_refines_membership:
  assumes "cypher_service exec" "principal_name cfg = ''agent_principal''"
    and "require_caller_context cfg None = Inr ()"
    and "\<forall>ev \<in> set evs. listable exec cfg chars str (mw_store w) ev"
  shows "dom (mw_directory (fold (indexer_dispatch exec cfg chars str True True) evs w)) =
      fold abs_event evs (dom (mw_directory w)) \<and>
    mw_store (fold (indexer_dispatch exec cfg chars str True True) evs w) = mw_store w"
  using assms(4)
proof (induction evs arbitrary: w)
  case (Cons ev evs)
  have "listable exec cfg chars str (mw_store w) ev" using Cons.prems by simp
  note st = indexer_dispatch_abs [OF assms(1-3) this]
  from Cons.IH [of "indexer_dispatch exec cfg chars str True True ev w"] Cons.prems st
  show ?case by simp
qed simp

definition shadow_row :: props where
  "shadow_row = [(''id'', PStr ''RES-1''), (''linked_user_id'', PStr ''USER-a''), (''link_status'', PStr ''linked'')]"

definition member_session :: "mem_graph session" where
  "member_session = \<lparr>graph = \<lparr>vertices = [(''UserNode'', [(''id'', PStr ''USER-a''), (''name'', PStr ''Ann'')]),
     (''ResourceNode'', shadow_row)], relations = [], next_rel = 0\<rparr>, spawned = [], notified = []\<rparr>"

definition member_start :: "mem_graph member_world" where
  "member_start = \<lparr>mw_store = member_session, mw_directory = Map.empty\<rparr>"

lemma member_fetch:
  "fetch mem_exec (graph member_session) ''USER-a'' = Some [(''id'', PStr ''USER-a''), (''name'', PStr ''Ann'')]"
  "fetch mem_exec (graph member_session) ''RES-1'' = Some shadow_row"
  by (simp_all add: fetch_def member_session_def node_rows_def has_id_def shadow_row_def dict_simps)

theorem member_removal_detaches_witness:
  "map_option (\<lambda>p. dict_get p ''link_status'') (fetch mem_exec
     (graph (mw_store (on_member_removed mem_exec admin_cfg True True ''USER-a'' ''ORG-1'' member_start))) ''RES-1'') =
   Some (Some (PStr ''detached_org_left''))"
proof -
  have "KEY_RE_match ''ResourceNode''" "KEY_RE_match ''linked_user_id''"
    by (simp_all add: KEY_RE_match_def chomp_def newline_def is_upper_def is_lower_def)
  then have "shadows_of mem_exec admin_cfg ''USER-a'' (mw_store member_start) = (Inr [shadow_row], mw_store member_start)"
    by (simp add: shadows_of_def list_nodes_def bindS_unfold require_caller_context_def admin_cfg_def
        run_query_def member_start_def member_session_def node_rows_def prop_match_def shadow_row_def dict_simps)
  moreover have "principal_name admin_cfg \<noteq> ''agent_principal''" "require_caller_context admin_cfg None = Inr ()"
    by (simp_all add: admin_cfg_def require_caller_context_def)
  moreover have "\<forall>p \<in> set [shadow_row]. \<exists>i. dict_get p ''id'' = Some (PStr i)"
    "''RES-1'' \<in> shadow_ids [shadow_row]"
    by (simp_all add: shadow_row_def shadow_ids_def dict_simps)
  ultimately show ?thesis
    using member_removal_detaches [OF mem.cypher_service_axioms, of admin_cfg "''USER-a''" member_start "[shadow_row]"]
      member_fetch(2) by (simp add: member_start_def)
qed

theorem agent_never_detaches_witness:
  "\<exists>cfg. create_graph_store ''age'' False = Inr cfg \<and>
     mw_store (on_member_removed mem_exec cfg True True ''USER-a'' ''ORG-1'' member_start) = member_session"
proof -
  obtain cfg where "create_graph_store ''age'' False = Inr cfg" by (simp add: create_graph_store_def)
  with agent_never_detaches [OF mem.cypher_service_axioms this, of True True "''USER-a''" "''ORG-1''" member_start]
  show ?thesis by (auto simp: member_start_def)
qed

theorem directory_refines_membership_witness:
  "dom (mw_directory (fold (indexer_dispatch mem_exec agent_cfg (\<lambda>_. []) (\<lambda>_. []) True True)
     [\<lparr>ev_kind = ''member_added'', ev_user = ''USER-a'', ev_org = ''ORG-1''\<rparr>,
      \<lparr>ev_kind = ''profile_updated'', ev_user = ''USER-a'', ev_org = ''ORG-2''\<rparr>,
      \<lparr>ev_kind = ''member_removed'', ev_user = ''USER-a'', ev_org = ''ORG-1''\<rparr>] member_start)) =
   {(''USER-a'', ''ORG-2'')}"
proof -
  have "listable mem_exec agent_cfg (\<lambda>_. []) (\<lambda>_. []) member_session ev" if "ev_user ev = ''USER-a''" for ev
    using that by (simp add: listable_def member_fetch visible_def get_truthy_def dict_simps
        build_directory_entry_def Let_def or_default_def dict_get_default_def as_list_def)
  then have "\<forall>ev \<in> set [\<lparr>ev_kind = ''member_added'', ev_user = ''USER-a'', ev_org = ''ORG-1''\<rparr>,
      \<lparr>ev_kind = ''profile_updated'', ev_user = ''USER-a'', ev_org = ''ORG-2''\<rparr>,
      \<lparr>ev_kind = ''member_removed'', ev_user = ''USER-a'', ev_org = ''ORG-1''\<rparr>].
      listable mem_exec agent_cfg (\<lambda>_. []) (\<lambda>_. []) (mw_store member_start) ev"
    by (simp add: member_start_def)
  from directory_refines_membership [OF mem.cypher_service_axioms _ _ this] show ?thesis
    by (auto simp: agent_cfg_def require_caller_context_def abs_event_def member_start_def)
qed

end
