(* ===== verification/GC_Migrations.thy ===== *)
theory GC_Migrations
  imports GC_Store
begin

section \<open>Schema migrations (\<open>migrations/runner.py\<close>, \<open>migrations/models.py\<close>)\<close>

text \<open>
  Forward-only migrations of the PostgreSQL schema with a tracking table. The schema is of any
  type; \<open>run_sql\<close> executes the DDL of a migration on it or raises. A statement and the row that
  records it are one transaction. \<open>can_record\<close> tells whether the failure row of a version can be
  written, which the code tries and does not insist on.
\<close>

datatype MigrationStatus = PENDING | APPLIED | FAILED | SKIPPED

record Migration =
  mig_version :: string
  mig_name :: string
  mig_description :: string
  sql_up :: string
  is_destructive :: bool

record mig_row =
  row_name :: string
  row_applied_at :: py_datetime
  row_status :: MigrationStatus

record 'd mig_db =
  db_schema :: 'd
  tracking :: "mig_row pydict option"

datatype mig_error = MigrationError string | UndefinedTable

definition ensure_migrations_table :: "'d mig_db \<Rightarrow> 'd mig_db" where
  "ensure_migrations_table db = (case tracking db of None \<Rightarrow> db\<lparr>tracking := Some []\<rparr> | Some _ \<Rightarrow> db)"

definition get_applied_versions :: "'d mig_db \<Rightarrow> mig_error + string set" where
  "get_applied_versions db = (case tracking db of
     None \<Rightarrow> Inl UndefinedTable
   | Some rows \<Rightarrow> Inr {v. \<exists>r. dict_get rows v = Some r \<and> row_status r = APPLIED})"

text \<open>\<open>INSERT ... ON CONFLICT (version) DO UPDATE\<close>: the name of a known version stays.\<close>

definition insert_record :: "Migration \<Rightarrow> py_datetime \<Rightarrow> MigrationStatus \<Rightarrow> 'd mig_db \<Rightarrow> mig_error + 'd mig_db" where
  "insert_record m now st db = (case tracking db of
     None \<Rightarrow> Inl UndefinedTable
   | Some rows \<Rightarrow>
      let nm = (case dict_get rows (mig_version m) of None \<Rightarrow> mig_name m | Some r \<Rightarrow> row_name r)
      in Inr (db\<lparr>tracking := Some (dict_set (mig_version m)
           \<lparr>row_name = nm, row_applied_at = now, row_status = st\<rparr> rows)\<rparr>))"

definition record_failure :: "(string \<Rightarrow> bool) \<Rightarrow> Migration \<Rightarrow> py_datetime \<Rightarrow> 'd mig_db \<Rightarrow> 'd mig_db" where
  "record_failure can_record m now db =
     (if \<not> can_record (mig_version m) then db
      else case insert_record m now FAILED db of Inl e \<Rightarrow> db | Inr db' \<Rightarrow> db')"

definition apply_one :: "(string \<Rightarrow> 'd \<Rightarrow> string + 'd) \<Rightarrow> (string \<Rightarrow> bool) \<Rightarrow> py_datetime \<Rightarrow> Migration \<Rightarrow>
    ('d mig_db, mig_error, MigrationStatus) io" where
  "apply_one run_sql can_record now m db =
     (if is_destructive m then (Inl (MigrationError (mig_version m)), db)
      else case get_applied_versions db of
          Inl e \<Rightarrow> (Inl e, db)
        | Inr applied \<Rightarrow>
            if mig_version m \<in> applied then (Inr SKIPPED, db)
            else case bindE (case run_sql (sql_up m) (db_schema db) of Inl e \<Rightarrow> Inl (MigrationError e)
                               | Inr sc \<Rightarrow> Inr (db\<lparr>db_schema := sc\<rparr>))
                        (insert_record m now APPLIED) of
                Inr db' \<Rightarrow> (Inr APPLIED, db')
              | Inl e \<Rightarrow> (Inl (MigrationError (mig_version m)), record_failure can_record m now db))"

fun apply_loop :: "(string \<Rightarrow> 'd \<Rightarrow> string + 'd) \<Rightarrow> (string \<Rightarrow> bool) \<Rightarrow> py_datetime \<Rightarrow> Migration list \<Rightarrow>
    (Migration \<times> MigrationStatus) list \<Rightarrow> ('d mig_db, mig_error, (Migration \<times> MigrationStatus) list) io" where
  "apply_loop run_sql can_record now [] results db = (Inr results, db)"
| "apply_loop run_sql can_record now (m # ms) results db =
     (case apply_one run_sql can_record now m db of
        (Inr status, db') \<Rightarrow> apply_loop run_sql can_record now ms (results @ [(m, status)]) db'
      | (Inl (MigrationError e), db') \<Rightarrow> (Inr (results @ [(m, FAILED)]), db')
      | (Inl UndefinedTable, db') \<Rightarrow> (Inl UndefinedTable, db'))"

definition apply_all :: "(string \<Rightarrow> 'd \<Rightarrow> string + 'd) \<Rightarrow> (string \<Rightarrow> bool) \<Rightarrow> py_datetime \<Rightarrow> Migration list \<Rightarrow>
    ('d mig_db, mig_error, (Migration \<times> MigrationStatus) list) io" where
  "apply_all run_sql can_record now migrations =
     apply_loop run_sql can_record now (sort_key mig_version migrations) []"

subsection \<open>Where a database stands\<close>

fun run_all :: "(string \<Rightarrow> 'd \<Rightarrow> string + 'd) \<Rightarrow> Migration list \<Rightarrow> 'd \<Rightarrow> 'd option" where
  "run_all run_sql [] sc = Some sc"
| "run_all run_sql (m # ms) sc = (case run_sql (sql_up m) sc of Inl e \<Rightarrow> None | Inr sc' \<Rightarrow> run_all run_sql ms sc')"

lemma run_all_append:
  "run_all run_sql (ms @ [m]) sc = (case run_all run_sql ms sc of None \<Rightarrow> None
     | Some sc' \<Rightarrow> (case run_sql (sql_up m) sc' of Inl e \<Rightarrow> None | Inr sc'' \<Rightarrow> Some sc''))"
  by (induction ms arbitrary: sc) (auto split: sum.splits)

text \<open>
  The first \<open>k\<close> migrations of \<open>ms\<close>, and no others of it, were applied to \<open>s0\<close>, and the table says so.
\<close>

definition stands_at :: "(string \<Rightarrow> 'd \<Rightarrow> string + 'd) \<Rightarrow> 'd \<Rightarrow> Migration list \<Rightarrow> nat \<Rightarrow> 'd mig_db \<Rightarrow> bool" where
  "stands_at run_sql s0 ms k db \<longleftrightarrow> k \<le> length ms \<and>
     run_all run_sql (take k ms) s0 = Some (db_schema db) \<and>
     list_all (\<lambda>m. \<not> is_destructive m) (take k ms) \<and>
     (\<exists>applied. get_applied_versions db = Inr applied \<and>
        (\<forall>m \<in> set (take k ms). mig_version m \<in> applied) \<and> (\<forall>m \<in> set (drop k ms). mig_version m \<notin> applied))"

definition blocked :: "(string \<Rightarrow> 'd \<Rightarrow> string + 'd) \<Rightarrow> Migration \<Rightarrow> 'd \<Rightarrow> bool" where
  "blocked run_sql m sc \<longleftrightarrow> is_destructive m \<or> (\<exists>e. run_sql (sql_up m) sc = Inl e)"

lemma applied_iff: "get_applied_versions db = Inr applied \<longleftrightarrow>
    (\<exists>rows. tracking db = Some rows \<and> applied = {v. \<exists>r. dict_get rows v = Some r \<and> row_status r = APPLIED})"
  by (auto simp: get_applied_versions_def split: option.splits)

lemma record_failure_applied:
  assumes "get_applied_versions db = Inr applied" "mig_version m \<notin> applied"
  shows "get_applied_versions (record_failure can_record m now db) = Inr applied \<and>
    db_schema (record_failure can_record m now db) = db_schema db"
proof -
  obtain rows where rows: "tracking db = Some rows"
    "applied = {v. \<exists>r. dict_get rows v = Some r \<and> row_status r = APPLIED}"
    using assms(1) by (auto simp: applied_iff)
  then show ?thesis
    using assms by (auto simp: record_failure_def insert_record_def Let_def applied_iff dict_simps)
qed

lemma apply_one_skips:
  assumes "\<not> is_destructive m" "get_applied_versions db = Inr applied" "mig_version m \<in> applied"
  shows "apply_one run_sql can_record now m db = (Inr SKIPPED, db)"
  using assms by (simp add: apply_one_def)

lemma apply_one_applies:
  assumes "get_applied_versions db = Inr applied" "mig_version m \<notin> applied"
    and "\<not> is_destructive m" "run_sql (sql_up m) (db_schema db) = Inr sc"
  shows "\<exists>db'. apply_one run_sql can_record now m db = (Inr APPLIED, db') \<and> db_schema db' = sc \<and>
    get_applied_versions db' = Inr (insert (mig_version m) applied)"
proof -
  obtain rows where rows: "tracking db = Some rows"
    "applied = {v. \<exists>r. dict_get rows v = Some r \<and> row_status r = APPLIED}"
    using assms(1) by (auto simp: applied_iff)
  let ?row = "\<lparr>row_name = (case dict_get rows (mig_version m) of None \<Rightarrow> mig_name m | Some r \<Rightarrow> row_name r),
      row_applied_at = now, row_status = APPLIED\<rparr>"
  let ?db' = "db\<lparr>db_schema := sc, tracking := Some (dict_set (mig_version m) ?row rows)\<rparr>"
  have "insert_record m now APPLIED (db\<lparr>db_schema := sc\<rparr>) = Inr ?db'"
    by (simp add: insert_record_def rows(1))
  then have "apply_one run_sql can_record now m db = (Inr APPLIED, ?db')"
    by (simp add: apply_one_def assms)
  moreover have "get_applied_versions ?db' = Inr (insert (mig_version m) applied)"
    by (auto simp: applied_iff rows dict_simps)
  ultimately show ?thesis by auto
qed

lemma apply_one_fails:
  assumes "get_applied_versions db = Inr applied" "mig_version m \<notin> applied" "blocked run_sql m (db_schema db)"
  shows "\<exists>e db'. apply_one run_sql can_record now m db = (Inl (MigrationError e), db') \<and>
    db_schema db' = db_schema db \<and> get_applied_versions db' = Inr applied"
proof (cases "is_destructive m")
  case True
  with assms(1) show ?thesis by (simp add: apply_one_def)
next
  case False
  with assms obtain e where "run_sql (sql_up m) (db_schema db) = Inl e" by (auto simp: blocked_def)
  with False assms record_failure_applied [OF assms(1,2)] show ?thesis by (simp add: apply_one_def)
qed

lemma apply_loop_skips:
  assumes "get_applied_versions db = Inr applied"
    and "\<forall>m \<in> set ms. \<not> is_destructive m \<and> mig_version m \<in> applied"
  shows "apply_loop run_sql can_record now (ms @ rest) results db =
    apply_loop run_sql can_record now rest (results @ map (\<lambda>m. (m, SKIPPED)) ms) db"
  using assms(2) by (induction ms arbitrary: results) (simp_all add: apply_one_skips assms(1))

text \<open>The part of the loop behind the applied migrations.\<close>

lemma apply_loop_rest:
  assumes "distinct (map mig_version ms)" "stands_at run_sql s0 ms k db"
  shows "\<exists>k' db'. k \<le> k' \<and> stands_at run_sql s0 ms k' db' \<and>
    apply_loop run_sql can_record now (drop k ms) results db =
      (Inr (results @ map (\<lambda>m. (m, APPLIED)) (drop k (take k' ms)) @
         (if k' < length ms then [(ms ! k', FAILED)] else [])), db') \<and>
    (k' < length ms \<longrightarrow> blocked run_sql (ms ! k') (db_schema db'))"
  using assms(2)
proof (induction "length ms - k" arbitrary: k db results)
  case 0
  then have "k = length ms" by (simp add: stands_at_def)
  with 0 show ?case by (intro exI [of _ k] exI [of _ db]) simp
next
  case (Suc n)
  then have k: "k < length ms" by simp
  define m where "m = ms ! k"
  have dk: "drop k ms = m # drop (Suc k) ms" using k by (simp add: m_def Cons_nth_drop_Suc)
  obtain applied where ap: "get_applied_versions db = Inr applied"
      "\<forall>m \<in> set (take k ms). mig_version m \<in> applied" "\<forall>m \<in> set (drop k ms). mig_version m \<notin> applied"
    using Suc.prems by (auto simp: stands_at_def)
  have new: "mig_version m \<notin> applied" using ap(3) dk by simp
  show ?case
  proof (cases "blocked run_sql m (db_schema db)")
    case True
    from apply_one_fails [OF ap(1) new True] obtain e db' where db':
      "apply_one run_sql can_record now m db = (Inl (MigrationError e), db')"
      "db_schema db' = db_schema db" "get_applied_versions db' = Inr applied" by blast
    then have "stands_at run_sql s0 ms k db'"
      using Suc.prems ap by (simp add: stands_at_def)
    then show ?thesis
      using db' True k by (intro exI [of _ k] exI [of _ db']) (simp add: dk m_def)
  next
    case False
    then obtain sc where sc: "\<not> is_destructive m" "run_sql (sql_up m) (db_schema db) = Inr sc"
      by (cases "run_sql (sql_up m) (db_schema db)") (auto simp: blocked_def)
    from apply_one_applies [where run_sql = run_sql, OF ap(1) new sc] obtain db1 where db1:
      "apply_one run_sql can_record now m db = (Inr APPLIED, db1)" "db_schema db1 = sc"
      "get_applied_versions db1 = Inr (insert (mig_version m) applied)" by blast
    have tk: "take (Suc k) ms = take k ms @ [m]" using k by (simp add: m_def take_Suc_conv_app_nth)
    have fresh: "\<forall>m' \<in> set (drop (Suc k) ms). mig_version m' \<noteq> mig_version m"
    proof -
      have "distinct (map mig_version (drop k ms))" using assms(1) by (simp add: drop_map [symmetric])
      then have "mig_version m \<notin> mig_version ` set (drop (Suc k) ms)" by (simp add: dk)
      then show ?thesis by (metis image_eqI)
    qed
    have "stands_at run_sql s0 ms (Suc k) db1"
      using Suc.prems sc db1 ap k fresh
      by (auto simp: stands_at_def tk run_all_append dk)
    moreover have "n = length ms - Suc k" using Suc.hyps(2) by simp
    ultimately obtain k' db' where IH: "Suc k \<le> k'" "stands_at run_sql s0 ms k' db'"
      "apply_loop run_sql can_record now (drop (Suc k) ms) (results @ [(m, APPLIED)]) db1 =
        (Inr ((results @ [(m, APPLIED)]) @ map (\<lambda>m. (m, APPLIED)) (drop (Suc k) (take k' ms)) @
          (if k' < length ms then [(ms ! k', FAILED)] else [])), db')"
      "k' < length ms \<longrightarrow> blocked run_sql (ms ! k') (db_schema db')"
      using Suc.hyps(1) by blast
    have "drop k (take k' ms) = m # drop (Suc k) (take k' ms)"
      using IH(1) k by (simp add: m_def Cons_nth_drop_Suc [symmetric])
    then show ?thesis
      using IH db1(1) by (intro exI [of _ k'] exI [of _ db']) (simp add: dk)
  qed
qed

text \<open>
  Claim C23: what a run of the migrations does, first run, resumed run and repeated run alike. From a
  database that stands at some point of the catalogue, in whatever order the list names it, the
  run skips what was applied, applies what follows in version order up to the first migration
  that is destructive or whose DDL fails, reports it as FAILED and stops; the database then
  stands at that point, the failed migration having left no trace in the schema.
\<close>

theorem migrations_resume:
  assumes "distinct (map mig_version migrations)" "ms = sort_key mig_version migrations"
    and "stands_at run_sql s0 ms k db"
  shows "\<exists>k' db'. k \<le> k' \<and> stands_at run_sql s0 ms k' db' \<and>
    apply_all run_sql can_record now migrations db =
      (Inr (map (\<lambda>m. (m, SKIPPED)) (take k ms) @ map (\<lambda>m. (m, APPLIED)) (drop k (take k' ms)) @
         (if k' < length ms then [(ms ! k', FAILED)] else [])), db') \<and>
    (k' < length ms \<longrightarrow> blocked run_sql (ms ! k') (db_schema db'))"
proof -
  have d: "distinct (map mig_version ms)"
    using assms(1,2) by (metis mset_map mset_sort mset_eq_imp_distinct_iff)
  obtain applied where "get_applied_versions db = Inr applied"
      "\<forall>m \<in> set (take k ms). \<not> is_destructive m \<and> mig_version m \<in> applied"
    using assms(3) by (auto simp: stands_at_def list_all_iff)
  from apply_loop_skips [OF this, of run_sql can_record now "drop k ms" "[]"]
  have "apply_all run_sql can_record now migrations db =
      apply_loop run_sql can_record now (drop k ms) (map (\<lambda>m. (m, SKIPPED)) (take k ms)) db"
    by (simp add: apply_all_def assms(2))
  with apply_loop_rest [OF d assms(3), of can_record now "map (\<lambda>m. (m, SKIPPED)) (take k ms)"]
  show ?thesis by simp
qed

definition mig :: "string \<Rightarrow> Migration" where
  "mig v = \<lparr>mig_version = v, mig_name = v, mig_description = [], sql_up = v, is_destructive = False\<rparr>"

definition run_demo :: "string \<Rightarrow> string list \<Rightarrow> string + string list" where
  "run_demo q d = (if q = ''c'' then Inl ''down'' else Inr (d @ [q]))"

definition db_demo :: "string list mig_db" where
  "db_demo = \<lparr>db_schema = [''a''], tracking =
     Some [(''a'', \<lparr>row_name = ''a'', row_applied_at = utc_dt 0, row_status = APPLIED\<rparr>)]\<rparr>"

lemma db_demo_stands: "stands_at run_demo [] [mig ''a'', mig ''b'', mig ''c''] 1 db_demo"
  by (simp add: stands_at_def mig_def get_applied_versions_def dict_simps db_demo_def run_demo_def)

theorem migrations_resume_witness:
  "\<exists>k' db'. 1 \<le> k' \<and> stands_at run_demo [] [mig ''a'', mig ''b'', mig ''c''] k' db'"
proof -
  have d: "distinct (map mig_version [mig ''c'', mig ''a'', mig ''b''])" by (simp add: mig_def)
  have s: "[mig ''a'', mig ''b'', mig ''c''] = sort_key mig_version [mig ''c'', mig ''a'', mig ''b'']"
    by code_simp
  show ?thesis
    using migrations_resume [OF d s db_demo_stands, of "\<lambda>v. True" "utc_dt 0"] by blast
qed

end
