(* ===== verification/GC_Paths.thy ===== *)
theory GC_Paths
  imports GC_Store GC_Text
begin

section \<open>Storage paths (\<open>infra/storage.py\<close>)\<close>

text \<open>
  Every object of a user lives under the prefix of the user. \<open>StoragePaths\<close> builds the paths, one
  function per kind of object, from segments it validates; \<open>UserWriteScopedStorageClient\<close>
  lets a caller write and delete below one prefix only. The bucket is a map from keys to
  contents, as the docstrings of \<open>StorageClient\<close> describe it.
\<close>

datatype path_error =
    EmptyPath string
  | PathSeparator string
  | TraversalToken string
  | NullByte string
  | NotRelative string
  | PermissionError string

definition backslash :: char where "backslash = CHR 0x5C"

definition replace_char :: "char \<Rightarrow> char \<Rightarrow> string \<Rightarrow> string" where
  "replace_char a b s = map (\<lambda>c. if c = a then b else c) s"

definition validate_segment :: "string \<Rightarrow> string \<Rightarrow> path_error + string" where
  "validate_segment value field_name =
     (let segment = strip value
      in if segment = [] then Inl (EmptyPath field_name)
         else if CHR ''/'' \<in> set segment \<or> backslash \<in> set segment then Inl (PathSeparator field_name)
         else if segment \<in> {''.'', ''..''} \<or> has_substring ''..'' segment then Inl (TraversalToken field_name)
         else if CHR 0x00 \<in> set segment then Inl (NullByte field_name)
         else Inr segment)"

fun validate_parts :: "string list \<Rightarrow> string \<Rightarrow> path_error + string list" where
  "validate_parts [] field_name = Inr []"
| "validate_parts (part # parts) field_name =
     bindE (validate_segment part field_name) (\<lambda>s.
     bindE (validate_parts parts field_name) (\<lambda>ss. Inr (s # ss)))"

definition validate_relative_path :: "string \<Rightarrow> string \<Rightarrow> path_error + string" where
  "validate_relative_path value field_name =
     (let normalized = replace_char backslash (CHR ''/'') (strip value)
      in if normalized = [] then Inl (EmptyPath field_name)
         else if hd normalized = CHR ''/'' \<or> last normalized = CHR ''/'' then Inl (NotRelative field_name)
         else bindE (validate_parts (split_on (CHR ''/'') normalized) field_name)
                (\<lambda>segments. Inr (join_with ''/'' segments)))"

subsection \<open>The paths\<close>

definition system_skill_definition :: "string \<Rightarrow> path_error + string" where
  "system_skill_definition skill_name =
     bindE (validate_segment skill_name ''skill_name'') (\<lambda>skill.
       Inr (''system/skills/definitions/'' @ skill @ ''/SKILL.md''))"

definition system_skills_prefix :: "string" where
  "system_skills_prefix = ''system/skills/definitions/''"

definition user_root :: "string \<Rightarrow> path_error + string" where
  "user_root user_id =
     bindE (validate_segment user_id ''user_id'') (\<lambda>user.
       Inr (user @ ''/''))"

definition user_config :: "string \<Rightarrow> path_error + string" where
  "user_config user_id =
     bindE (validate_segment user_id ''user_id'') (\<lambda>user.
       Inr (user @ ''/config.json''))"

definition user_scoring_weights :: "string \<Rightarrow> path_error + string" where
  "user_scoring_weights user_id =
     bindE (validate_segment user_id ''user_id'') (\<lambda>user.
       Inr (user @ ''/scoring_weights.json''))"

definition chat_history :: "string \<Rightarrow> path_error + string" where
  "chat_history user_id =
     bindE (validate_segment user_id ''user_id'') (\<lambda>user.
       Inr (user @ ''/chat/history.json''))"

definition agent_root :: "string \<Rightarrow> string \<Rightarrow> path_error + string" where
  "agent_root user_id agent_id =
     bindE (validate_segment user_id ''user_id'') (\<lambda>user.
     bindE (validate_segment agent_id ''agent_id'') (\<lambda>agent.
       Inr (user @ ''/agents/'' @ agent @ ''/'')))"

definition agent_profile :: "string \<Rightarrow> string \<Rightarrow> path_error + string" where
  "agent_profile user_id agent_id =
     bindE (validate_segment user_id ''user_id'') (\<lambda>user.
     bindE (validate_segment agent_id ''agent_id'') (\<lambda>agent.
       Inr (user @ ''/agents/'' @ agent @ ''/profile.md'')))"

definition agent_config :: "string \<Rightarrow> string \<Rightarrow> path_error + string" where
  "agent_config user_id agent_id =
     bindE (validate_segment user_id ''user_id'') (\<lambda>user.
     bindE (validate_segment agent_id ''agent_id'') (\<lambda>agent.
       Inr (user @ ''/agents/'' @ agent @ ''/config.json'')))"

definition agent_memory_root :: "string \<Rightarrow> string \<Rightarrow> path_error + string" where
  "agent_memory_root user_id agent_id =
     bindE (validate_segment user_id ''user_id'') (\<lambda>user.
     bindE (validate_segment agent_id ''agent_id'') (\<lambda>agent.
       Inr (user @ ''/agents/'' @ agent @ ''/memory/'')))"

definition agent_memory_working :: "string \<Rightarrow> string \<Rightarrow> path_error + string" where
  "agent_memory_working user_id agent_id =
     bindE (validate_segment user_id ''user_id'') (\<lambda>user.
     bindE (validate_segment agent_id ''agent_id'') (\<lambda>agent.
       Inr (user @ ''/agents/'' @ agent @ ''/memory/working/context.md'')))"

definition agent_memory_working_archive_prefix :: "string \<Rightarrow> string \<Rightarrow> path_error + string" where
  "agent_memory_working_archive_prefix user_id agent_id =
     bindE (validate_segment user_id ''user_id'') (\<lambda>user.
     bindE (validate_segment agent_id ''agent_id'') (\<lambda>agent.
       Inr (user @ ''/agents/'' @ agent @ ''/memory/working/archive/'')))"

definition agent_memory_working_archive_entry :: "string \<Rightarrow> string \<Rightarrow> string \<Rightarrow> path_error + string" where
  "agent_memory_working_archive_entry user_id agent_id entry_name =
     bindE (validate_segment user_id ''user_id'') (\<lambda>user.
     bindE (validate_segment agent_id ''agent_id'') (\<lambda>agent.
     bindE (validate_segment entry_name ''entry_name'') (\<lambda>entry.
       Inr (user @ ''/agents/'' @ agent @ ''/memory/working/archive/'' @ entry))))"

definition agent_intelligence_archive :: "string \<Rightarrow> string \<Rightarrow> string \<Rightarrow> string \<Rightarrow> path_error + string" where
  "agent_intelligence_archive user_id agent_id task_id date =
     bindE (validate_segment user_id ''user_id'') (\<lambda>user.
     bindE (validate_segment agent_id ''agent_id'') (\<lambda>agent.
     bindE (validate_segment task_id ''task_id'') (\<lambda>task.
     bindE (validate_segment date ''date'') (\<lambda>date_segment.
       Inr (user @ ''/agents/'' @ agent @ ''/intelligence/archive/'' @ task @ ''/'' @ date_segment @ ''.md'')))))"

definition agent_memory_episodic_prefix :: "string \<Rightarrow> string \<Rightarrow> path_error + string" where
  "agent_memory_episodic_prefix user_id agent_id =
     bindE (validate_segment user_id ''user_id'') (\<lambda>user.
     bindE (validate_segment agent_id ''agent_id'') (\<lambda>agent.
       Inr (user @ ''/agents/'' @ agent @ ''/memory/episodic/'')))"

definition agent_memory_episodic_entry :: "string \<Rightarrow> string \<Rightarrow> string \<Rightarrow> path_error + string" where
  "agent_memory_episodic_entry user_id agent_id entry_name =
     bindE (validate_segment user_id ''user_id'') (\<lambda>user.
     bindE (validate_segment agent_id ''agent_id'') (\<lambda>agent.
     bindE (validate_segment entry_name ''entry_name'') (\<lambda>entry.
       Inr (user @ ''/agents/'' @ agent @ ''/memory/episodic/'' @ entry))))"

definition agent_memory_episodic_archive_prefix :: "string \<Rightarrow> string \<Rightarrow> path_error + string" where
  "agent_memory_episodic_archive_prefix user_id agent_id =
     bindE (validate_segment user_id ''user_id'') (\<lambda>user.
     bindE (validate_segment agent_id ''agent_id'') (\<lambda>agent.
       Inr (user @ ''/agents/'' @ agent @ ''/memory/episodic/archive/'')))"

definition agent_memory_episodic_archive_entry :: "string \<Rightarrow> string \<Rightarrow> string \<Rightarrow> path_error + string" where
  "agent_memory_episodic_archive_entry user_id agent_id entry_name =
     bindE (validate_segment user_id ''user_id'') (\<lambda>user.
     bindE (validate_segment agent_id ''agent_id'') (\<lambda>agent.
     bindE (validate_segment entry_name ''entry_name'') (\<lambda>entry.
       Inr (user @ ''/agents/'' @ agent @ ''/memory/episodic/archive/'' @ entry))))"

definition agent_memory_semantic_prefix :: "string \<Rightarrow> string \<Rightarrow> path_error + string" where
  "agent_memory_semantic_prefix user_id agent_id =
     bindE (validate_segment user_id ''user_id'') (\<lambda>user.
     bindE (validate_segment agent_id ''agent_id'') (\<lambda>agent.
       Inr (user @ ''/agents/'' @ agent @ ''/memory/semantic/'')))"

definition agent_memory_semantic_topic :: "string \<Rightarrow> string \<Rightarrow> string \<Rightarrow> path_error + string" where
  "agent_memory_semantic_topic user_id agent_id topic =
     bindE (validate_segment user_id ''user_id'') (\<lambda>user.
     bindE (validate_segment agent_id ''agent_id'') (\<lambda>agent.
     bindE (validate_segment topic ''topic'') (\<lambda>topic_segment.
       Inr (user @ ''/agents/'' @ agent @ ''/memory/semantic/'' @ topic_segment @ ''.md''))))"

definition agent_memory_semantic_index :: "string \<Rightarrow> string \<Rightarrow> path_error + string" where
  "agent_memory_semantic_index user_id agent_id =
     bindE (validate_segment user_id ''user_id'') (\<lambda>user.
     bindE (validate_segment agent_id ''agent_id'') (\<lambda>agent.
       Inr (user @ ''/agents/'' @ agent @ ''/memory/semantic/_index.json'')))"

definition skill_registry_sources :: "string \<Rightarrow> path_error + string" where
  "skill_registry_sources user_id =
     bindE (validate_segment user_id ''user_id'') (\<lambda>user.
       Inr (user @ ''/skills/registry/sources.json''))"

definition skill_registry_installed :: "string \<Rightarrow> path_error + string" where
  "skill_registry_installed user_id =
     bindE (validate_segment user_id ''user_id'') (\<lambda>user.
       Inr (user @ ''/skills/registry/installed.json''))"

definition skill_cache :: "string \<Rightarrow> string \<Rightarrow> string \<Rightarrow> path_error + string" where
  "skill_cache user_id source_hash8 skill_name =
     bindE (validate_segment user_id ''user_id'') (\<lambda>user.
     bindE (validate_segment source_hash8 ''source_hash8'') (\<lambda>source_hash.
     bindE (validate_segment skill_name ''skill_name'') (\<lambda>skill.
       Inr (user @ ''/skills/cache/'' @ source_hash @ ''/'' @ skill @ ''/SKILL.md''))))"

definition skill_authored :: "string \<Rightarrow> string \<Rightarrow> path_error + string" where
  "skill_authored user_id skill_id =
     bindE (validate_segment user_id ''user_id'') (\<lambda>user.
     bindE (validate_segment skill_id ''skill_id'') (\<lambda>skill.
       Inr (user @ ''/skills/authored/'' @ skill @ ''/SKILL.md'')))"

definition skill_authored_prefix :: "string \<Rightarrow> path_error + string" where
  "skill_authored_prefix user_id =
     bindE (validate_segment user_id ''user_id'') (\<lambda>user.
       Inr (user @ ''/skills/authored/''))"

definition skill_executions :: "string \<Rightarrow> string \<Rightarrow> path_error + string" where
  "skill_executions user_id skill_id =
     bindE (validate_segment user_id ''user_id'') (\<lambda>user.
     bindE (validate_segment skill_id ''skill_id'') (\<lambda>skill.
       Inr (user @ ''/skills/executions/'' @ skill @ ''.json'')))"

definition mcp_servers_prefix :: "string \<Rightarrow> path_error + string" where
  "mcp_servers_prefix user_id =
     bindE (validate_segment user_id ''user_id'') (\<lambda>user.
       Inr (user @ ''/mcp/servers/''))"

definition mcp_server :: "string \<Rightarrow> string \<Rightarrow> path_error + string" where
  "mcp_server user_id server_id =
     bindE (validate_segment user_id ''user_id'') (\<lambda>user.
     bindE (validate_segment server_id ''server_id'') (\<lambda>server.
       Inr (user @ ''/mcp/servers/'' @ server @ ''.json'')))"

definition attachment :: "string \<Rightarrow> string \<Rightarrow> string \<Rightarrow> string \<Rightarrow> string \<Rightarrow> path_error + string" where
  "attachment user_id channel date_str msg_id filename =
     bindE (validate_segment user_id ''user_id'') (\<lambda>user.
     bindE (validate_segment channel ''channel'') (\<lambda>channel_segment.
     bindE (validate_segment date_str ''date_str'') (\<lambda>date_segment.
     bindE (validate_segment (replace_char (CHR ''/'') (CHR ''_'') msg_id) ''msg_id'') (\<lambda>safe_msg_id.
     bindE (validate_segment filename ''filename'') (\<lambda>file_segment.
       Inr (user @ ''/attachments/'' @ channel_segment @ ''/'' @ date_segment @ ''/'' @ safe_msg_id @ ''/'' @ file_segment))))))"

definition attachments_prefix :: "string \<Rightarrow> path_error + string" where
  "attachments_prefix user_id =
     bindE (validate_segment user_id ''user_id'') (\<lambda>user.
       Inr (user @ ''/attachments/''))"

definition session_root :: "string \<Rightarrow> string \<Rightarrow> path_error + string" where
  "session_root user_id session_id =
     bindE (validate_segment user_id ''user_id'') (\<lambda>user.
     bindE (validate_segment session_id ''session_id'') (\<lambda>session.
       Inr (user @ ''/sessions/'' @ session @ ''/'')))"

definition session_context :: "string \<Rightarrow> string \<Rightarrow> path_error + string" where
  "session_context user_id session_id =
     bindE (validate_segment user_id ''user_id'') (\<lambda>user.
     bindE (validate_segment session_id ''session_id'') (\<lambda>session.
       Inr (user @ ''/sessions/'' @ session @ ''/context.md'')))"

definition session_events_prefix :: "string \<Rightarrow> string \<Rightarrow> path_error + string" where
  "session_events_prefix user_id session_id =
     bindE (validate_segment user_id ''user_id'') (\<lambda>user.
     bindE (validate_segment session_id ''session_id'') (\<lambda>session.
       Inr (user @ ''/sessions/'' @ session @ ''/events/'')))"

definition session_event :: "string \<Rightarrow> string \<Rightarrow> string \<Rightarrow> path_error + string" where
  "session_event user_id session_id event_id =
     bindE (validate_segment user_id ''user_id'') (\<lambda>user.
     bindE (validate_segment session_id ''session_id'') (\<lambda>session.
     bindE (validate_segment event_id ''event_id'') (\<lambda>event.
       Inr (user @ ''/sessions/'' @ session @ ''/events/'' @ event @ ''.json''))))"

definition session_outputs_prefix :: "string \<Rightarrow> string \<Rightarrow> path_error + string" where
  "session_outputs_prefix user_id session_id =
     bindE (validate_segment user_id ''user_id'') (\<lambda>user.
     bindE (validate_segment session_id ''session_id'') (\<lambda>session.
       Inr (user @ ''/sessions/'' @ session @ ''/outputs/'')))"

definition session_output :: "string \<Rightarrow> string \<Rightarrow> string \<Rightarrow> path_error + string" where
  "session_output user_id session_id artifact_name =
     bindE (validate_segment user_id ''user_id'') (\<lambda>user.
     bindE (validate_segment session_id ''session_id'') (\<lambda>session.
     bindE (validate_segment artifact_name ''artifact_name'') (\<lambda>artifact.
       Inr (user @ ''/sessions/'' @ session @ ''/outputs/'' @ artifact))))"

definition system_prompt_header :: "string" where
  "system_prompt_header = ''system/prompts/system_header.md''"

definition system_prompts_prefix :: "string" where
  "system_prompts_prefix = ''system/prompts/''"

definition system_onboarding_prompts :: "string" where
  "system_onboarding_prompts = ''system/prompts/onboarding.md''"

definition system_knowledge :: "string \<Rightarrow> path_error + string" where
  "system_knowledge topic =
     bindE (validate_segment topic ''topic'') (\<lambda>topic_segment.
       Inr (''system/knowledge/'' @ topic_segment @ ''.md''))"

definition system_knowledge_prefix :: "string" where
  "system_knowledge_prefix = ''system/knowledge/''"

definition system_agent_root :: "string \<Rightarrow> path_error + string" where
  "system_agent_root agent_id =
     bindE (validate_segment agent_id ''agent_id'') (\<lambda>agent.
       Inr (''system/agents/'' @ agent @ ''/''))"

definition system_agent_profile :: "string \<Rightarrow> path_error + string" where
  "system_agent_profile agent_id =
     bindE (validate_segment agent_id ''agent_id'') (\<lambda>agent.
       Inr (''system/agents/'' @ agent @ ''/profile.md''))"

definition system_agent_manifest :: "string \<Rightarrow> path_error + string" where
  "system_agent_manifest agent_id =
     bindE (validate_segment agent_id ''agent_id'') (\<lambda>agent.
       Inr (''system/agents/'' @ agent @ ''/manifest.json''))"

definition system_agent_config :: "string \<Rightarrow> path_error + string" where
  "system_agent_config agent_id =
     bindE (validate_segment agent_id ''agent_id'') (\<lambda>agent.
       Inr (''system/agents/'' @ agent @ ''/config.json''))"

definition system_agents_prefix :: "string" where
  "system_agents_prefix = ''system/agents/''"

definition agent_manifest :: "string \<Rightarrow> string \<Rightarrow> path_error + string" where
  "agent_manifest user_id agent_id =
     bindE (validate_segment user_id ''user_id'') (\<lambda>user.
     bindE (validate_segment agent_id ''agent_id'') (\<lambda>agent.
       Inr (user @ ''/agents/'' @ agent @ ''/manifest.json'')))"

definition agents_prefix :: "string \<Rightarrow> path_error + string" where
  "agents_prefix user_id =
     bindE (validate_segment user_id ''user_id'') (\<lambda>user.
       Inr (user @ ''/agents/''))"

definition agent_inbox_recent_prefix :: "string \<Rightarrow> string \<Rightarrow> path_error + string" where
  "agent_inbox_recent_prefix user_id agent_id =
     bindE (validate_segment user_id ''user_id'') (\<lambda>user.
     bindE (validate_segment agent_id ''agent_id'') (\<lambda>agent.
       Inr (user @ ''/agents/'' @ agent @ ''/inbox/recent/'')))"

definition agent_inbox_recent :: "string \<Rightarrow> string \<Rightarrow> string \<Rightarrow> path_error + string" where
  "agent_inbox_recent user_id agent_id entry_name =
     bindE (validate_segment user_id ''user_id'') (\<lambda>user.
     bindE (validate_segment agent_id ''agent_id'') (\<lambda>agent.
     bindE (validate_segment entry_name ''entry_name'') (\<lambda>entry.
       Inr (user @ ''/agents/'' @ agent @ ''/inbox/recent/'' @ entry))))"

definition agent_inbox_archive :: "string \<Rightarrow> string \<Rightarrow> string \<Rightarrow> path_error + string" where
  "agent_inbox_archive user_id agent_id entry_name =
     bindE (validate_segment user_id ''user_id'') (\<lambda>user.
     bindE (validate_segment agent_id ''agent_id'') (\<lambda>agent.
     bindE (validate_segment entry_name ''entry_name'') (\<lambda>entry.
       Inr (user @ ''/agents/'' @ agent @ ''/inbox/archive/'' @ entry))))"

definition user_log_path :: "string \<Rightarrow> string \<Rightarrow> string \<Rightarrow> string \<Rightarrow> path_error + string" where
  "user_log_path user_id service hour_key extension =
     bindE (validate_segment user_id ''user_id'') (\<lambda>user.
     bindE (validate_segment service ''service'') (\<lambda>service_segment.
     bindE (validate_relative_path hour_key ''hour_key'') (\<lambda>hour_path.
     bindE (validate_segment extension ''extension'') (\<lambda>ext.
       Inr (user @ ''/logs/'' @ service_segment @ ''/'' @ hour_path @ ''.'' @ ext)))))"

definition system_log_path :: "string \<Rightarrow> string \<Rightarrow> string \<Rightarrow> path_error + string" where
  "system_log_path service hour_key extension =
     bindE (validate_segment service ''service'') (\<lambda>service_segment.
     bindE (validate_relative_path hour_key ''hour_key'') (\<lambda>hour_path.
     bindE (validate_segment extension ''extension'') (\<lambda>ext.
       Inr (''system/logs/'' @ service_segment @ ''/'' @ hour_path @ ''.'' @ ext))))"

definition conversation_thread :: "string \<Rightarrow> string \<Rightarrow> string \<Rightarrow> string \<Rightarrow> path_error + string" where
  "conversation_thread user_id counterparty_id channel thread_id =
     bindE (validate_segment user_id ''user_id'') (\<lambda>user.
     bindE (validate_segment counterparty_id ''counterparty_id'') (\<lambda>counterparty.
     bindE (validate_segment channel ''channel'') (\<lambda>chan.
     bindE (validate_segment thread_id ''thread_id'') (\<lambda>thread.
       Inr (user @ ''/conversations/'' @ counterparty @ ''/'' @ chan @ ''/'' @ thread @ ''.jsonl'')))))"

definition conversation_index :: "string \<Rightarrow> path_error + string" where
  "conversation_index user_id =
     bindE (validate_segment user_id ''user_id'') (\<lambda>user.
       Inr (user @ ''/conversations/index.json''))"

definition conversation_counterparty_dir :: "string \<Rightarrow> string \<Rightarrow> path_error + string" where
  "conversation_counterparty_dir user_id counterparty_id =
     bindE (validate_segment user_id ''user_id'') (\<lambda>user.
     bindE (validate_segment counterparty_id ''counterparty_id'') (\<lambda>counterparty.
       Inr (user @ ''/conversations/'' @ counterparty @ ''/'')))"

definition conversation_legacy_archive :: "string \<Rightarrow> path_error + string" where
  "conversation_legacy_archive user_id =
     bindE (validate_segment user_id ''user_id'') (\<lambda>user.
       Inr (user @ ''/conversations/.legacy/chat-history.json.archived''))"

definition agent_policy :: "string \<Rightarrow> string \<Rightarrow> string \<Rightarrow> path_error + string" where
  "agent_policy user_id agent_id policy_name =
     bindE (validate_segment user_id ''user_id'') (\<lambda>user.
     bindE (validate_segment agent_id ''agent_id'') (\<lambda>agent.
     bindE (validate_segment policy_name ''policy_name'') (\<lambda>policy.
       Inr (user @ ''/agents/'' @ agent @ ''/policies/'' @ policy @ ''.md''))))"

definition agent_policies_prefix :: "string \<Rightarrow> string \<Rightarrow> path_error + string" where
  "agent_policies_prefix user_id agent_id =
     bindE (validate_segment user_id ''user_id'') (\<lambda>user.
     bindE (validate_segment agent_id ''agent_id'') (\<lambda>agent.
       Inr (user @ ''/agents/'' @ agent @ ''/policies/'')))"

definition outbound_profile :: "string \<Rightarrow> string \<Rightarrow> path_error + string" where
  "outbound_profile user_id agent_id =
     bindE (validate_segment user_id ''user_id'') (\<lambda>user.
     bindE (validate_segment agent_id ''agent_id'') (\<lambda>agent.
       Inr (user @ ''/agents/'' @ agent @ ''/outbound_profile.md'')))"

definition working_context :: "string \<Rightarrow> string \<Rightarrow> path_error + string" where
  "working_context user_id agent_id =
     bindE (validate_segment user_id ''user_id'') (\<lambda>user.
     bindE (validate_segment agent_id ''agent_id'') (\<lambda>agent.
       Inr (user @ ''/agents/'' @ agent @ ''/working/context.md'')))"

subsection \<open>What belongs to a user, and what to the system\<close>

text \<open>A path some function built for \<open>user_id\<close>, and one built without a user.\<close>

inductive user_path :: "string \<Rightarrow> string \<Rightarrow> bool" where
  "user_root user_id = Inr p \<Longrightarrow> user_path user_id p"
| "user_config user_id = Inr p \<Longrightarrow> user_path user_id p"
| "user_scoring_weights user_id = Inr p \<Longrightarrow> user_path user_id p"
| "chat_history user_id = Inr p \<Longrightarrow> user_path user_id p"
| "agent_root user_id agent_id = Inr p \<Longrightarrow> user_path user_id p"
| "agent_profile user_id agent_id = Inr p \<Longrightarrow> user_path user_id p"
| "agent_config user_id agent_id = Inr p \<Longrightarrow> user_path user_id p"
| "agent_memory_root user_id agent_id = Inr p \<Longrightarrow> user_path user_id p"
| "agent_memory_working user_id agent_id = Inr p \<Longrightarrow> user_path user_id p"
| "agent_memory_working_archive_prefix user_id agent_id = Inr p \<Longrightarrow> user_path user_id p"
| "agent_memory_working_archive_entry user_id agent_id entry_name = Inr p \<Longrightarrow> user_path user_id p"
| "agent_intelligence_archive user_id agent_id task_id date = Inr p \<Longrightarrow> user_path user_id p"
| "agent_memory_episodic_prefix user_id agent_id = Inr p \<Longrightarrow> user_path user_id p"
| "agent_memory_episodic_entry user_id agent_id entry_name = Inr p \<Longrightarrow> user_path user_id p"
| "agent_memory_episodic_archive_prefix user_id agent_id = Inr p \<Longrightarrow> user_path user_id p"
| "agent_memory_episodic_archive_entry user_id agent_id entry_name = Inr p \<Longrightarrow> user_path user_id p"
| "agent_memory_semantic_prefix user_id agent_id = Inr p \<Longrightarrow> user_path user_id p"
| "agent_memory_semantic_topic user_id agent_id topic = Inr p \<Longrightarrow> user_path user_id p"
| "agent_memory_semantic_index user_id agent_id = Inr p \<Longrightarrow> user_path user_id p"
| "skill_registry_sources user_id = Inr p \<Longrightarrow> user_path user_id p"
| "skill_registry_installed user_id = Inr p \<Longrightarrow> user_path user_id p"
| "skill_cache user_id source_hash8 skill_name = Inr p \<Longrightarrow> user_path user_id p"
| "skill_authored user_id skill_id = Inr p \<Longrightarrow> user_path user_id p"
| "skill_authored_prefix user_id = Inr p \<Longrightarrow> user_path user_id p"
| "skill_executions user_id skill_id = Inr p \<Longrightarrow> user_path user_id p"
| "mcp_servers_prefix user_id = Inr p \<Longrightarrow> user_path user_id p"
| "mcp_server user_id server_id = Inr p \<Longrightarrow> user_path user_id p"
| "attachment user_id channel date_str msg_id filename = Inr p \<Longrightarrow> user_path user_id p"
| "attachments_prefix user_id = Inr p \<Longrightarrow> user_path user_id p"
| "session_root user_id session_id = Inr p \<Longrightarrow> user_path user_id p"
| "session_context user_id session_id = Inr p \<Longrightarrow> user_path user_id p"
| "session_events_prefix user_id session_id = Inr p \<Longrightarrow> user_path user_id p"
| "session_event user_id session_id event_id = Inr p \<Longrightarrow> user_path user_id p"
| "session_outputs_prefix user_id session_id = Inr p \<Longrightarrow> user_path user_id p"
| "session_output user_id session_id artifact_name = Inr p \<Longrightarrow> user_path user_id p"
| "agent_manifest user_id agent_id = Inr p \<Longrightarrow> user_path user_id p"
| "agents_prefix user_id = Inr p \<Longrightarrow> user_path user_id p"
| "agent_inbox_recent_prefix user_id agent_id = Inr p \<Longrightarrow> user_path user_id p"
| "agent_inbox_recent user_id agent_id entry_name = Inr p \<Longrightarrow> user_path user_id p"
| "agent_inbox_archive user_id agent_id entry_name = Inr p \<Longrightarrow> user_path user_id p"
| "user_log_path user_id service hour_key extension = Inr p \<Longrightarrow> user_path user_id p"
| "conversation_thread user_id counterparty_id channel thread_id = Inr p \<Longrightarrow> user_path user_id p"
| "conversation_index user_id = Inr p \<Longrightarrow> user_path user_id p"
| "conversation_counterparty_dir user_id counterparty_id = Inr p \<Longrightarrow> user_path user_id p"
| "conversation_legacy_archive user_id = Inr p \<Longrightarrow> user_path user_id p"
| "agent_policy user_id agent_id policy_name = Inr p \<Longrightarrow> user_path user_id p"
| "agent_policies_prefix user_id agent_id = Inr p \<Longrightarrow> user_path user_id p"
| "outbound_profile user_id agent_id = Inr p \<Longrightarrow> user_path user_id p"
| "working_context user_id agent_id = Inr p \<Longrightarrow> user_path user_id p"

inductive system_path :: "string \<Rightarrow> bool" where
  "system_skill_definition skill_name = Inr p \<Longrightarrow> system_path p"
| "system_path system_skills_prefix"
| "system_path system_prompt_header"
| "system_path system_prompts_prefix"
| "system_path system_onboarding_prompts"
| "system_knowledge topic = Inr p \<Longrightarrow> system_path p"
| "system_path system_knowledge_prefix"
| "system_agent_root agent_id = Inr p \<Longrightarrow> system_path p"
| "system_agent_profile agent_id = Inr p \<Longrightarrow> system_path p"
| "system_agent_manifest agent_id = Inr p \<Longrightarrow> system_path p"
| "system_agent_config agent_id = Inr p \<Longrightarrow> system_path p"
| "system_path system_agents_prefix"
| "system_log_path service hour_key extension = Inr p \<Longrightarrow> system_path p"

lemmas user_path_defs =
  user_root_def user_config_def user_scoring_weights_def chat_history_def agent_root_def
  agent_profile_def agent_config_def agent_memory_root_def agent_memory_working_def
  agent_memory_working_archive_prefix_def agent_memory_working_archive_entry_def
  agent_intelligence_archive_def agent_memory_episodic_prefix_def agent_memory_episodic_entry_def
  agent_memory_episodic_archive_prefix_def agent_memory_episodic_archive_entry_def
  agent_memory_semantic_prefix_def agent_memory_semantic_topic_def
  agent_memory_semantic_index_def skill_registry_sources_def skill_registry_installed_def
  skill_cache_def skill_authored_def skill_authored_prefix_def skill_executions_def
  mcp_servers_prefix_def mcp_server_def attachment_def attachments_prefix_def session_root_def
  session_context_def session_events_prefix_def session_event_def session_outputs_prefix_def
  session_output_def agent_manifest_def agents_prefix_def agent_inbox_recent_prefix_def
  agent_inbox_recent_def agent_inbox_archive_def user_log_path_def conversation_thread_def
  conversation_index_def conversation_counterparty_dir_def conversation_legacy_archive_def
  agent_policy_def agent_policies_prefix_def outbound_profile_def working_context_def

lemmas system_path_defs =
  system_skill_definition_def system_skills_prefix_def system_prompt_header_def
  system_prompts_prefix_def system_onboarding_prompts_def system_knowledge_def
  system_knowledge_prefix_def system_agent_root_def system_agent_profile_def
  system_agent_manifest_def system_agent_config_def system_agents_prefix_def system_log_path_def

text \<open>What validation leaves of a segment.\<close>

definition seg_ok :: "string \<Rightarrow> bool" where
  "seg_ok s \<longleftrightarrow> s \<noteq> [] \<and> \<not> is_space (hd s) \<and> \<not> is_space (last s) \<and> CHR ''/'' \<notin> set s \<and> backslash \<notin> set s"

lemma validate_segment_ok: "validate_segment v f = Inr s \<Longrightarrow> s = strip v \<and> seg_ok s"
  by (auto simp: validate_segment_def Let_def seg_ok_def strip_ends split: if_splits)

lemma bindE_Inr: "bindE m f = Inr b \<longleftrightarrow> (\<exists>a. m = Inr a \<and> f a = Inr b)"
  by (cases m) auto

lemma join_ok:
  "list_all seg_ok ss \<Longrightarrow> ss \<noteq> [] \<Longrightarrow>
    join_with ''/'' ss \<noteq> [] \<and> \<not> is_space (last (join_with ''/'' ss)) \<and> backslash \<notin> set (join_with ''/'' ss)"
  by (induction "''/'' :: string" ss rule: join_with.induct) (auto simp: seg_ok_def backslash_def)

lemma validate_parts_ok: "validate_parts ps f = Inr ss \<Longrightarrow> list_all seg_ok ss \<and> length ss = length ps"
proof (induction ps arbitrary: ss)
  case (Cons p ps)
  then obtain s ss' where "validate_segment p f = Inr s" "validate_parts ps f = Inr ss'" "ss = s # ss'"
    by (auto simp: bindE_Inr)
  with Cons.IH validate_segment_ok show ?case by auto
qed simp

lemma validate_relative_ok:
  assumes "validate_relative_path v f = Inr s"
  shows "s \<noteq> [] \<and> \<not> is_space (last s) \<and> backslash \<notin> set s"
proof -
  from assms obtain ss n where ss: "validate_parts (split_on (CHR ''/'') n) f = Inr ss" "s = join_with ''/'' ss"
    by (auto simp: validate_relative_path_def Let_def bindE_Inr split: if_splits)
  then have "ss \<noteq> []" using validate_parts_ok [OF ss(1)] by (cases ss) auto
  with join_ok ss validate_parts_ok [OF ss(1)] show ?thesis by simp
qed

definition below :: "string \<Rightarrow> string \<Rightarrow> bool" where
  "below u p \<longleftrightarrow> seg_ok u \<and> (\<exists>rest. p = u @ CHR ''/'' # rest) \<and> \<not> is_space (last p) \<and> backslash \<notin> set p"

lemma space_simps [simp]:
  "\<not> is_space (CHR ''/'')" "\<not> is_space (CHR ''d'')" "\<not> is_space (CHR ''n'')" "\<not> is_space (CHR ''l'')"
  by (simp_all add: is_space_def is_break_def newline_def carriage_def)

lemma user_path_below: "user_path u p \<Longrightarrow> below (strip u) p"
  by (erule user_path.cases)
    (auto simp: user_path_defs bindE_Inr below_def backslash_def seg_ok_def
      dest!: validate_segment_ok validate_relative_ok)

lemma system_path_below: "system_path p \<Longrightarrow> below ''system'' p"
  by (erule system_path.cases)
    (auto simp: system_path_defs bindE_Inr below_def backslash_def seg_ok_def is_space_def is_break_def newline_def carriage_def
      dest!: validate_segment_ok validate_relative_ok)

lemma below_unique: "below u p \<Longrightarrow> below v p \<Longrightarrow> u = v"
proof -
  assume "below u p" "below v p"
  then obtain r r' where p: "p = u @ CHR ''/'' # r" "p = v @ CHR ''/'' # r'"
    and u: "CHR ''/'' \<notin> set u" "CHR ''/'' \<notin> set v"
    by (auto simp: below_def seg_ok_def)
  have "takeWhile (\<lambda>c. c \<noteq> CHR ''/'') p = u" unfolding p(1) using u(1) by (subst takeWhile_append2) auto
  moreover have "takeWhile (\<lambda>c. c \<noteq> CHR ''/'') p = v" unfolding p(2) using u(2) by (subst takeWhile_append2) auto
  ultimately show "u = v" by simp
qed

subsection \<open>The client that writes for one user\<close>

type_synonym bucket = "string \<Rightarrow> string option"

record scoped_client =
  sc_user_id :: string
  sc_user_root :: string

definition scoped_init :: "string \<Rightarrow> path_error + scoped_client" where
  "scoped_init user_id =
     bindE (validate_segment user_id ''user_id'') (\<lambda>uid.
     bindE (user_root uid) (\<lambda>root. Inr \<lparr>sc_user_id = uid, sc_user_root = root\<rparr>))"

definition normalize_path :: "string \<Rightarrow> path_error + string" where
  "normalize_path path =
     (let normalized = replace_char backslash (CHR ''/'') (strip path)
      in if normalized = [] then Inl (EmptyPath ''path'') else Inr normalized)"

definition assert_write_scope :: "scoped_client \<Rightarrow> string \<Rightarrow> path_error + string" where
  "assert_write_scope c path =
     bindE (normalize_path path) (\<lambda>normalized.
       if starts_with (sc_user_root c) normalized then Inr normalized else Inl (PermissionError normalized))"

definition scoped_read :: "scoped_client \<Rightarrow> string \<Rightarrow> bucket \<Rightarrow> path_error + string option" where
  "scoped_read c path fs = bindE (normalize_path path) (\<lambda>p. Inr (fs p))"

definition scoped_exists :: "scoped_client \<Rightarrow> string \<Rightarrow> bucket \<Rightarrow> path_error + bool" where
  "scoped_exists c path fs = bindE (normalize_path path) (\<lambda>p. Inr (fs p \<noteq> None))"

definition scoped_list :: "scoped_client \<Rightarrow> string \<Rightarrow> bucket \<Rightarrow> path_error + string set" where
  "scoped_list c path fs = bindE (normalize_path path) (\<lambda>p. Inr {k \<in> dom fs. starts_with p k})"

definition scoped_write :: "scoped_client \<Rightarrow> string \<Rightarrow> string \<Rightarrow> bucket \<Rightarrow> (path_error + unit) \<times> bucket" where
  "scoped_write c path data fs = (case assert_write_scope c path of
     Inl e \<Rightarrow> (Inl e, fs) | Inr allowed \<Rightarrow> (Inr (), fs(allowed \<mapsto> data)))"

definition scoped_delete :: "scoped_client \<Rightarrow> string \<Rightarrow> bucket \<Rightarrow> (path_error + unit) \<times> bucket" where
  "scoped_delete c path fs = (case assert_write_scope c path of
     Inl e \<Rightarrow> (Inl e, fs) | Inr allowed \<Rightarrow> (Inr (), fs(allowed := None)))"

datatype storage_call = WriteCall string string | DeleteCall string

fun storage_step :: "scoped_client \<Rightarrow> storage_call \<Rightarrow> bucket \<Rightarrow> bucket" where
  "storage_step c (WriteCall path data) fs = snd (scoped_write c path data fs)"
| "storage_step c (DeleteCall path) fs = snd (scoped_delete c path fs)"

lemma scoped_init_Inr: "scoped_init v = Inr c \<Longrightarrow>
    seg_ok (strip v) \<and> sc_user_root c = strip v @ ''/''"
proof -
  assume "scoped_init v = Inr c"
  then obtain uid root where c: "validate_segment v ''user_id'' = Inr uid" "user_root uid = Inr root"
    "c = \<lparr>sc_user_id = uid, sc_user_root = root\<rparr>"
    by (auto simp: scoped_init_def bindE_Inr)
  have uid: "uid = strip v" "seg_ok uid" using validate_segment_ok [OF c(1)] by auto
  then have "strip uid = uid" by (simp add: seg_ok_def strip_id)
  moreover have "root = strip uid @ ''/''"
    using c(2) by (auto simp: user_root_def bindE_Inr dest: validate_segment_ok)
  ultimately show ?thesis using c(3) uid by simp
qed

lemma replace_char_id: "a \<notin> set s \<Longrightarrow> replace_char a b s = s"
  by (induction s) (auto simp: replace_char_def)

lemma normalize_below: "below u p \<Longrightarrow> normalize_path p = Inr p"
proof -
  assume b: "below u p"
  then have "strip p = p" by (intro strip_id) (auto simp: below_def seg_ok_def)
  with b show ?thesis by (auto simp: normalize_path_def Let_def below_def replace_char_id)
qed

lemma starts_with_append: "starts_with p s \<longleftrightarrow> (\<exists>r. s = p @ r)"
  by (auto simp: starts_with_def prefix_def)

lemma scope_of_below:
  assumes "scoped_init v = Inr c" "below u p"
  shows "assert_write_scope c p = (if u = strip v then Inr p else Inl (PermissionError p))"
proof -
  have "starts_with (sc_user_root c) p \<longleftrightarrow> u = strip v"
  proof
    assume "starts_with (sc_user_root c) p"
    then have "below (strip v) p"
      using scoped_init_Inr [OF assms(1)] assms(2) by (auto simp: starts_with_append below_def)
    with below_unique assms(2) show "u = strip v" by blast
  next
    assume "u = strip v"
    with assms(2) scoped_init_Inr [OF assms(1)] show "starts_with (sc_user_root c) p"
      by (auto simp: starts_with_append below_def)
  qed
  then show ?thesis by (simp add: assert_write_scope_def normalize_below [OF assms(2)])
qed


text \<open>A user called \<open>system\<close> may write the prompts and agents of the system.\<close>

lemma system_named_user:
  assumes "scoped_init ''system'' = Inr c" "system_path q"
  shows "scoped_write c q data fs = (Inr (), fs(q \<mapsto> data))"
proof -
  have "strip ''system'' = ''system''"
    by (rule strip_id) (simp_all add: is_space_def is_break_def newline_def carriage_def)
  with scope_of_below [OF assms(1) system_path_below [OF assms(2)]] show ?thesis
    by (simp add: scoped_write_def)
qed

lemma split_on_segment: "sep \<notin> set a \<Longrightarrow> split_on sep (a @ sep # b) = a # split_on sep b"
  by (induction a) auto

lemma split_on_last: "sep \<notin> set a \<Longrightarrow> split_on sep a = [a]"
  by (induction a) auto

text \<open>
  Two threads share a conversation log only if user, counterparty, channel and thread are
  the same up to surrounding blanks.
\<close>

theorem conversation_thread_injective:
  assumes "conversation_thread u c ch t = Inr p" "conversation_thread u' c' ch' t' = Inr p"
  shows "strip u = strip u' \<and> strip c = strip c' \<and> strip ch = strip ch' \<and> strip t = strip t'"
proof -
  have parts: "split_on (CHR ''/'') p = [strip u, ''conversations'', strip c, strip ch, strip t @ ''.jsonl'']"
    if "conversation_thread u c ch t = Inr p" for u c ch t
    using that by (auto simp: conversation_thread_def bindE_Inr seg_ok_def split_on_segment split_on_last
        dest!: validate_segment_ok)
  from parts [OF assms(1)] parts [OF assms(2)] show ?thesis by simp
qed

lemma demo_init: "scoped_init ''u1'' = Inr \<lparr>sc_user_id = ''u1'', sc_user_root = ''u1/''\<rparr>"
  by (simp add: scoped_init_def validate_segment_def user_root_def strip_def is_space_def is_break_def
      newline_def carriage_def backslash_def starts_with_def)


theorem conversation_thread_injective_witness:
  "\<exists>p. conversation_thread ''u1'' ''r1'' ''email'' ''t1'' = Inr p \<and> strip ''u1 '' = strip ''u1''"
proof -
  obtain p where p: "conversation_thread ''u1'' ''r1'' ''email'' ''t1'' = Inr p"
    "conversation_thread ''u1 '' ''r1'' ''email'' ''t1'' = Inr p"
    by (simp add: conversation_thread_def validate_segment_def strip_def is_space_def is_break_def
        newline_def carriage_def backslash_def starts_with_def)
  with conversation_thread_injective [OF p(2) p(1)] show ?thesis by auto
qed

end
