(* ===== verification/GC_Escalation.thy ===== *)
theory GC_Escalation
  imports GC_Delegation
begin

section \<open>Escalation (\<open>agent/escalation.py\<close>)\<close>

text \<open>
  \<open>EscalationService\<close> acts on approval tasks nobody answered in time: it reassigns them through the
  delegation service, cancels them, or completes them. \<open>OwnerOfflineEscalationQueue\<close> holds the
  decisions an absent owner has to take, in a cache of the process and a table the processes
  share, until the owner answers or the conservative fallback fires.
\<close>

subsection \<open>Approvals nobody answered\<close>

record EscalationEvent =
  ev_task_id :: string
  ev_action_taken :: string
  ev_escalated_at :: py_datetime
  ev_escalated_to :: "string option"

datatype escalation_error =
    EscalationError string
  | EscalationStore py_error
  | EscalationValidation
  | EscalationDelegation delegation_error

type_synonym ('g, 'a) esc_op = "('g session, escalation_error, 'a) io"

definition estore :: "('g, 'a) op \<Rightarrow> ('g, 'a) esc_op" where
  "estore m = (\<lambda>s. case m s of
     (Inl e, s') \<Rightarrow> (Inl (EscalationStore e), s') | (Inr a, s') \<Rightarrow> (Inr a, s'))"

definition edelegate :: "('g, 'a) del_op \<Rightarrow> ('g, 'a) esc_op" where
  "edelegate m = (\<lambda>s. case m s of
     (Inl e, s') \<Rightarrow> (Inl (EscalationDelegation e), s') | (Inr a, s') \<Rightarrow> (Inr a, s'))"

text \<open>\<open>delegate_task\<close> reads the clock itself, at \<open>dnow\<close>.\<close>

definition escalate_reassign :: "'g database \<Rightarrow> store_cfg \<Rightarrow> string \<Rightarrow> nat \<Rightarrow> py_datetime \<Rightarrow> TaskNode \<Rightarrow>
    string option \<Rightarrow> string \<Rightarrow> int \<Rightarrow> py_datetime \<Rightarrow> ('g, EscalationEvent) esc_op" where
  "escalate_reassign exec cfg uuid n dnow task target owner_id wait_days now =
     (case target of
        Some to_user \<Rightarrow>
          if to_user = [] then raiseS (EscalationError (node_id task))
          else bindS (edelegate (delegate_task exec cfg uuid n dnow (node_id task) owner_id to_user
                 True False wait_days None ''REASSIGN'')) (\<lambda>_.
               bindS (estore (update_node exec cfg (node_id task) [(''updated_at'', PTime now)] None)) (\<lambda>_.
                 returnS \<lparr>ev_task_id = node_id task, ev_action_taken = ''REASSIGNED'',
                   ev_escalated_at = now, ev_escalated_to = Some to_user\<rparr>))
      | None \<Rightarrow> raiseS (EscalationError (node_id task)))"

definition escalate_cancel ::
  "'g database \<Rightarrow> store_cfg \<Rightarrow> TaskNode \<Rightarrow> py_datetime \<Rightarrow> ('g, EscalationEvent) esc_op" where
  "escalate_cancel exec cfg task now =
     bindS (estore (update_node exec cfg (node_id task)
       [(''state'', PStr (TaskState_value TaskState.CANCELLED)), (''updated_at'', PTime now)] None)) (\<lambda>_.
     returnS \<lparr>ev_task_id = node_id task, ev_action_taken = ''CANCELLED'', ev_escalated_at = now,
       ev_escalated_to = None\<rparr>)"

definition escalate_auto_approve ::
  "'g database \<Rightarrow> store_cfg \<Rightarrow> TaskNode \<Rightarrow> py_datetime \<Rightarrow> ('g, EscalationEvent) esc_op" where
  "escalate_auto_approve exec cfg task now =
     bindS (estore (update_node exec cfg (node_id task)
       [(''state'', PStr (TaskState_value TaskState.COMPLETE)), (''updated_at'', PTime now)] None)) (\<lambda>_.
     returnS \<lparr>ev_task_id = node_id task, ev_action_taken = ''AUTO_APPROVED'', ev_escalated_at = now,
       ev_escalated_to = None\<rparr>)"

text \<open>\<open>x or y\<close> on optional texts.\<close>

definition or_text :: "string option \<Rightarrow> string \<Rightarrow> string" where
  "or_text x y = (case x of Some s \<Rightarrow> if s = [] then y else s | None \<Rightarrow> y)"

text \<open>
  The metadata dict is given by the entries the code reads: action, target and days.
\<close>

definition escalate_loaded :: "'g database \<Rightarrow> store_cfg \<Rightarrow> string \<Rightarrow> nat \<Rightarrow> py_datetime \<Rightarrow> py_datetime \<Rightarrow>
    string \<Rightarrow> string option \<Rightarrow> string option \<Rightarrow> int \<Rightarrow> TaskNode \<Rightarrow> ('g, EscalationEvent) esc_op" where
  "escalate_loaded exec cfg uuid n dnow now task_id action target wait_days task =
     (let act = map to_upper (or_text action ''REASSIGN'');
          owner_id = or_text (owned_by task) (or_text (created_by task) ''SYSTEM'')
      in if act = ''REASSIGN'' then escalate_reassign exec cfg uuid n dnow task target owner_id wait_days now
         else if act = ''CANCEL'' then escalate_cancel exec cfg task now
         else if act = ''AUTO_APPROVE'' then escalate_auto_approve exec cfg task now
         else raiseS (EscalationError task_id))"

definition escalate_task :: "'g database \<Rightarrow> store_cfg \<Rightarrow> string \<Rightarrow> nat \<Rightarrow> py_datetime \<Rightarrow> py_datetime \<Rightarrow>
    string \<Rightarrow> string option \<Rightarrow> string option \<Rightarrow> int \<Rightarrow> ('g, EscalationEvent) esc_op" where
  "escalate_task exec cfg uuid n dnow now task_id action target wait_days =
     bindS (estore (get_node exec cfg task_id False None)) (\<lambda>raw_task. case raw_task of
       None \<Rightarrow> raiseS (EscalationError task_id)
     | Some p \<Rightarrow> (case task_validate (dict_get p) of
         None \<Rightarrow> raiseS EscalationValidation
       | Some task \<Rightarrow> escalate_loaded exec cfg uuid n dnow now task_id action target wait_days task))"

text \<open>
  Every escalation of a run reads the clock again, at times \<open>clock\<close> gives. Comparing the aware clock with a naive
  \<open>created_at\<close> raises.
\<close>

definition overdue :: "py_datetime \<Rightarrow> TaskNode \<Rightarrow> int \<Rightarrow> py_error + bool" where
  "overdue now task wait_days =
     (if dt_off (created_at task) = None then Inl PyTypeError
      else Inr (dt_instant (created_at task) + wait_days * us_per_day \<le> dt_instant now))"

definition escalate_candidate :: "'g database \<Rightarrow> store_cfg \<Rightarrow> (string \<Rightarrow> string) \<Rightarrow> nat \<Rightarrow>
    (string \<Rightarrow> py_datetime \<times> py_datetime) \<Rightarrow> py_datetime \<Rightarrow> props \<Rightarrow> EscalationEvent list \<Rightarrow> ('g, EscalationEvent list) esc_op" where
  "escalate_candidate exec cfg uuid n clock now raw_node events =
     (case task_validate (dict_get raw_node) of
        None \<Rightarrow> raiseS EscalationValidation
      | Some task \<Rightarrow>
          if state task \<notin> {TaskState.PENDING, TaskState.IN_PROGRESS} then returnS events
          else (case type_metadata task of
              Some (ApprovalMetadata ap cr apat rj wait_days target action db ar asub ak) \<Rightarrow>
                bindS (liftS (case overdue now task wait_days of Inl e \<Rightarrow> Inl (EscalationStore e) | Inr b \<Rightarrow> Inr b)) (\<lambda>due.
                if \<not> due then returnS events
                else bindS (escalate_task exec cfg (uuid (node_id task)) n (fst (clock (node_id task)))
                       (snd (clock (node_id task))) (node_id task) (Some action) target wait_days) (\<lambda>event. returnS (events @ [event])))
            | _ \<Rightarrow> returnS events))"

definition check_and_escalate :: "'g database \<Rightarrow> store_cfg \<Rightarrow> (string \<Rightarrow> string) \<Rightarrow> nat \<Rightarrow>
    (string \<Rightarrow> py_datetime \<times> py_datetime) \<Rightarrow> py_datetime \<Rightarrow> string \<Rightarrow> ('g, EscalationEvent list) esc_op" where
  "check_and_escalate exec cfg uuid n clock now user_id =
     bindS (estore (list_nodes exec cfg ''TaskNode''
       [(''task_type'', PStr (TaskType_value TaskType.APPROVAL)), (''assigned_to'', PStr user_id)] None))
     (\<lambda>candidate_nodes. forS (escalate_candidate exec cfg uuid n clock now) candidate_nodes [])"

subsection \<open>What an escalation does\<close>

lemma estore_eq: "estore m s = (case m s of (Inl e, s') \<Rightarrow> (Inl (EscalationStore e), s')
    | (Inr a, s') \<Rightarrow> (Inr a, s'))"
  by (simp add: estore_def)

lemma validated_id: "task_validate g = Some t \<Longrightarrow> g ''id'' = Some (PStr (node_id t))"
proof -
  have "dec_task_id v = Some i \<Longrightarrow> v = PStr i" for v i
    by (cases v) (auto split: if_splits)
  then show "task_validate g = Some t \<Longrightarrow> g ''id'' = Some (PStr (node_id t))"
    by (auto simp: task_validate_def bind_eq_Some_conv req_def)
qed

lemma validate_restated:
  assumes "task_validate g = Some t" "\<And>k. k \<notin> {''state'', ''updated_at''} \<Longrightarrow> h k = g k"
    and "h ''state'' = Some (PStr (TaskState_value x))" "h ''updated_at'' = Some (PTime now)"
  shows "task_validate h = Some (t\<lparr>state := x, updated_at := now\<rparr>)"
  using assms(1) by (auto simp: task_validate_def req_def dfl_def bind_eq_Some_conv assms(2-4))

definition state_write :: "TaskState \<Rightarrow> py_datetime \<Rightarrow> props" where
  "state_write x now = [(''state'', PStr (TaskState_value x)), (''updated_at'', PTime now)]"

lemma state_write_facts: "forbidden_fields (state_write x now) = []" "dict_ok (state_write x now)"
  "keeps_id i (set_lits (state_write x now))" "state_write x now \<noteq> []"
  by (simp_all add: state_write_def forbidden_fields_def LIFECYCLE_FIELDS_def dict_keys_def dict_ok_def
      keeps_id_def set_lits_def)

context cypher_service
begin

lemma state_write_run:
  assumes "require_caller_context cfg None = Inr ()"
  shows "\<exists>v s'. update_node exec cfg i (state_write x now) None s = (Inr v, s') \<and>
    (\<forall>j. fetch exec (graph s') j = (if j = i then map_option (set_props (set_lits (state_write x now)))
       (fetch exec (graph s) i) else fetch exec (graph s) j))"
proof -
  obtain r s' where run: "update_node exec cfg i (state_write x now) None s = (r, s')" by fastforce
  obtain v where r: "r = Inr v"
    using update_node_writes [OF assms state_write_facts(4), where i = i and s = s] state_write_facts(1) run
    by (metis fst_conv)
  from run show ?thesis
  proof (cases rule: update_node_cases)
    case written
    with run r show ?thesis by (simp add: fetch_set state_write_facts)
  qed (use r in simp)
qed

text \<open>The row behind a state update decodes to the task with that state.\<close>

lemma restated_row:
  assumes "task_validate (dict_get p) = Some task"
  shows "task_validate (dict_get (set_props (set_lits (state_write x now)) p)) =
    Some (task\<lparr>state := x, updated_at := now\<rparr>)"
proof (rule validate_restated [OF assms])
  let ?q = "set_props (set_lits (state_write x now)) p"
  have q: "dict_get ?q k = (case dict_get (state_write x now) k of None \<Rightarrow> dict_get p k
      | Some v \<Rightarrow> if v = PNone then None else Some (stored v))" for k
    by (rule dict_get_set_props_dump [OF state_write_facts(2)])
  show "dict_get ?q k = dict_get p k" if "k \<notin> {''state'', ''updated_at''}" for k
    using that by (simp add: q) (simp add: state_write_def dict_simps)
  show "dict_get ?q ''state'' = Some (PStr (TaskState_value x))" "dict_get ?q ''updated_at'' = Some (PTime now)"
    by (simp_all add: q) (simp_all add: state_write_def dict_simps)
qed

lemma escalate_task_run:
  assumes "require_caller_context cfg None = Inr ()"
    and "fetch exec (graph s) i = Some p" "\<not> get_truthy p ''archived_at''"
    and "task_validate (dict_get p) = Some task"
  shows "map to_upper (or_text action ''REASSIGN'') = ''CANCEL'' \<Longrightarrow>
      escalate_task exec cfg uuid n dnow now i action target days s = escalate_cancel exec cfg task now s"
    and "map to_upper (or_text action ''REASSIGN'') = ''AUTO_APPROVE'' \<Longrightarrow>
      escalate_task exec cfg uuid n dnow now i action target days s = escalate_auto_approve exec cfg task now s"
  using assms by (simp_all add: escalate_task_def escalate_loaded_def bindS_unfold estore_eq get_node_eq visible_def)

end

lemma history_chain_unique: "history_chain a h x \<Longrightarrow> history_chain a h y \<Longrightarrow> x = y"
  by (induction h arbitrary: a) auto

text \<open>
  An approval that timed out is completed behind the state machine's back. With action
  AUTO_APPROVE the stored task gets the state COMPLETE whatever its state was, without history
  entry, completion stamp or guard, also with the store bound to the agent; no sequence of
  requests to the state machine leads to such a task. The machine lets only a human
  complete an approval.
\<close>

theorem auto_approval_bypasses_machine:
  assumes "cypher_service exec" "require_caller_context cfg None = Inr ()"
    and "fetch exec (graph s) i = Some p" "\<not> get_truthy p ''archived_at''"
    and "task_validate (dict_get p) = Some task" "reachable task" "state task \<noteq> TaskState.COMPLETE"
    and "map to_upper (or_text action ''REASSIGN'') = ''AUTO_APPROVE''"
  shows "\<exists>ev s' p' task'. escalate_task exec cfg uuid n dnow now i action target days s = (Inr ev, s') \<and>
    fetch exec (graph s') i = Some p' \<and> task_validate (dict_get p') = Some task' \<and>
    state task' = TaskState.COMPLETE \<and> state_history task' = state_history task \<and>
    timeline task' = timeline task \<and> \<not> reachable task'"
proof -
  have i: "node_id task = i"
    using validated_id [OF assms(5)] cypher_service.fetch_id [OF assms(1,3)] by simp
  obtain v s' where run: "update_node exec cfg i (state_write TaskState.COMPLETE now) None s = (Inr v, s')"
    "\<And>j. fetch exec (graph s') j = (if j = i then map_option (set_props (set_lits (state_write TaskState.COMPLETE now)))
       (fetch exec (graph s) i) else fetch exec (graph s) j)"
    using cypher_service.state_write_run [OF assms(1,2)] by blast
  let ?task' = "task\<lparr>state := TaskState.COMPLETE, updated_at := now\<rparr>"
  have "history_chain TaskState.PENDING (state_history task) (state task)"
    using audit.reachable_inv [OF assms(6)] by (simp add: audit_ok_def)
  then have "\<not> reachable ?task'"
    using audit.reachable_inv [of ?task'] assms(7) history_chain_unique by (auto simp: audit_ok_def)
  moreover have "escalate_auto_approve exec cfg task now s = (Inr \<lparr>ev_task_id = i, ev_action_taken = ''AUTO_APPROVED'',
      ev_escalated_at = now, ev_escalated_to = None\<rparr>, s')"
    using run(1) by (simp add: escalate_auto_approve_def bindS_unfold estore_eq i state_write_def)
  ultimately show ?thesis
    using cypher_service.escalate_task_run(2) [OF assms(1-5,8)]
      cypher_service.restated_row [OF assms(1,5)] run(2) [of i] assms(3) by simp
qed

definition approval_row :: props where
  "approval_row = [(''id'', PStr ''TSK-AB-1234-APR''), (''created_at'', PTime (utc_dt 0)),
     (''updated_at'', PTime (utc_dt 0)), (''task_type'', PStr ''APPROVAL''), (''title'', PStr ''Pay''),
     (''description'', PStr ''Pay it''), (''assigned_to'', PStr ''USER-a'')]"

definition approval_session :: "mem_graph session" where
  "approval_session = \<lparr>graph = \<lparr>vertices = [(''TaskApproval'', approval_row)], relations = [],
     next_rel = 0\<rparr>, spawned = [], notified = []\<rparr>"

lemma approval_fetch: "fetch mem_exec (graph approval_session) ''TSK-AB-1234-APR'' = Some approval_row"
  by (simp add: fetch_def approval_session_def node_rows_def has_id_def approval_row_def dict_simps)

lemma approval_validates: "\<exists>task. task_validate (dict_get approval_row) = Some task \<and>
    state task = TaskState.PENDING \<and> state_history task = []"
proof -
  have "(case task_validate (dict_get approval_row) of None \<Rightarrow> False
     | Some task \<Rightarrow> state task = TaskState.PENDING \<and> state_history task = [])"
    by code_simp
  then show ?thesis by (auto split: option.splits)
qed

theorem auto_approval_bypasses_machine_witness:
  "\<exists>(s' :: mem_graph session) p' task'. fetch mem_exec (graph s') ''TSK-AB-1234-APR'' = Some p' \<and>
     task_validate (dict_get p') = Some task' \<and> state task' = TaskState.COMPLETE \<and> \<not> reachable task'"
proof -
  obtain task where t: "task_validate (dict_get approval_row) = Some task" "state task = TaskState.PENDING"
    "state_history task = []"
    using approval_validates by blast
  have acl: "require_caller_context agent_cfg None = Inr ()"
    by (simp add: agent_cfg_def require_caller_context_def)
  have live: "\<not> get_truthy approval_row ''archived_at''"
    by (simp add: approval_row_def get_truthy_def dict_simps)
  have act: "map to_upper (or_text (Some ''auto_approve'') ''REASSIGN'') = ''AUTO_APPROVE''"
    by code_simp
  have "state task \<noteq> TaskState.COMPLETE" using t(2) by simp
  from auto_approval_bypasses_machine [OF mem.cypher_service_axioms acl approval_fetch live t(1)
      reachable.fresh [OF t(2,3)] this act, where uuid = "[]" and n = 0 and dnow = "utc_dt 0"
      and now = "utc_dt 0" and target = None and days = 1]
  show ?thesis by blast
qed

text \<open>Which candidates are due.\<close>

definition is_due :: "py_datetime \<Rightarrow> TaskNode \<Rightarrow> bool" where
  "is_due now task \<longleftrightarrow> state task \<in> {TaskState.PENDING, TaskState.IN_PROGRESS} \<and>
     (case type_metadata task of
        Some (ApprovalMetadata ap cr apat rj days target action db ar asub ak) \<Rightarrow>
          dt_instant (created_at task) + days * us_per_day \<le> dt_instant now
      | _ \<Rightarrow> False)"

lemma bindS_InrD: "bindS m f s = (Inr b, t) \<Longrightarrow> \<exists>a u. m s = (Inr a, u) \<and> f a u = (Inr b, t)"
  by (auto simp: bindS_unfold split: prod.splits sum.splits)

lemma escalated_id:
  assumes "cypher_service exec"
    and "escalate_task exec cfg uuid n dnow now i action target days s = (Inr ev, s')"
  shows "ev_task_id ev = i"
proof -
  obtain p task where p: "fetch exec (graph s) i = Some p" "task_validate (dict_get p) = Some task"
    and run: "escalate_loaded exec cfg uuid n dnow now i action target days task s = (Inr ev, s')"
    using assms(2) by (auto simp: escalate_task_def bindS_unfold estore_eq cypher_service.get_node_eq [OF assms(1)]
        visible_def split: sum.splits option.splits if_splits)
  have i: "node_id task = i"
    using validated_id [OF p(2)] cypher_service.fetch_id [OF assms(1) p(1)] by simp
  have "ev_task_id ev = i" if "escalate_reassign exec cfg uuid n dnow task target u days now s = (Inr ev, s')" for u
    using that by (auto simp: escalate_reassign_def i dest!: bindS_InrD split: option.splits if_splits)
  moreover have "ev_task_id ev = i" if "escalate_cancel exec cfg task now s = (Inr ev, s')"
    using that by (auto simp: escalate_cancel_def i dest!: bindS_InrD)
  moreover have "ev_task_id ev = i" if "escalate_auto_approve exec cfg task now s = (Inr ev, s')"
    using that by (auto simp: escalate_auto_approve_def i dest!: bindS_InrD)
  ultimately show ?thesis
    using run by (auto simp: escalate_loaded_def Let_def split: if_splits)
qed

lemma candidate_step:
  assumes "cypher_service exec"
    and "escalate_candidate exec cfg uuid n clock now p evs s = (Inr evs', s')"
  shows "\<exists>task. task_validate (dict_get p) = Some task \<and>
    map ev_task_id evs' = map ev_task_id evs @ (if is_due now task then [node_id task] else [])"
proof -
  obtain task where task: "task_validate (dict_get p) = Some task"
    using assms(2) by (auto simp: escalate_candidate_def split: option.splits)
  note run = assms(2) [unfolded escalate_candidate_def task option.case]
  have "map ev_task_id evs' = map ev_task_id evs @ (if is_due now task then [node_id task] else [])"
  proof (cases "state task \<in> {TaskState.PENDING, TaskState.IN_PROGRESS}")
    case False
    with run show ?thesis by (simp add: is_due_def)
  next
    case open_state: True
    show ?thesis
    proof (cases "type_metadata task")
      case None
      with run open_state show ?thesis by (auto simp: is_due_def split: if_splits)
    next
      case (Some md)
      show ?thesis
      proof (cases md)
        case (ApprovalMetadata ap cr apat rj days target action db ar asub ak)
        have due: "is_due now task = (dt_instant (created_at task) + days * us_per_day \<le> dt_instant now)"
          using open_state Some ApprovalMetadata by (auto simp: is_due_def)
        from run open_state Some ApprovalMetadata obtain b where
          b: "overdue now task days = Inr b"
          and go: "(if \<not> b then returnS evs else bindS (escalate_task exec cfg (uuid (node_id task)) n
             (fst (clock (node_id task))) (snd (clock (node_id task))) (node_id task) (Some action) target days)
             (\<lambda>event. returnS (evs @ [event]))) s = (Inr evs', s')"
          by (auto dest!: bindS_InrD split: sum.splits)
        have "b = is_due now task" using b due by (auto simp: overdue_def split: if_splits)
        then show ?thesis
          using go escalated_id [OF assms(1)] by (auto dest!: bindS_InrD split: if_splits)
      qed (use run open_state Some in \<open>auto simp: is_due_def\<close>)
    qed
  qed
  with task show ?thesis by blast
qed


definition due_row :: props where
  "due_row = approval_row @ [(''type_metadata'', TypeMetadata_dump
     (ApprovalMetadata ''USER-a'' None None None 2 None ''cancel'' None False None None))]"

definition due_session :: "mem_graph session" where
  "due_session = \<lparr>graph = \<lparr>vertices = [(''TaskApproval'', due_row)], relations = [],
     next_rel = 0\<rparr>, spawned = [], notified = []\<rparr>"

lemma due_listed:
  "list_nodes mem_exec agent_cfg ''TaskNode'' [(''task_type'', PStr (TaskType_value TaskType.APPROVAL)),
      (''assigned_to'', PStr ''USER-a'')] None due_session = (Inr [due_row], due_session)"
proof -
  have "KEY_RE_match ''task_type''" "KEY_RE_match ''assigned_to''"
    by (simp_all add: KEY_RE_match_def chomp_def newline_def is_upper_def is_lower_def)
  then show ?thesis
    by (simp add: list_nodes_def bindS_unfold require_caller_context_def agent_cfg_def run_query_def
        due_session_def node_rows_def prop_match_def due_row_def approval_row_def dict_simps is_task_vertex_def starts_with_def)
qed

lemma due_runs:
  "\<exists>events s'. check_and_escalate mem_exec agent_cfg (\<lambda>_. []) 0 (\<lambda>_. (utc_dt 0, utc_dt 0))
     (utc_dt (3 * us_per_day)) ''USER-a'' due_session = (Inr events, s')"
proof -
  have "(case check_and_escalate mem_exec agent_cfg (\<lambda>_. []) 0 (\<lambda>_. (utc_dt 0, utc_dt 0))
     (utc_dt (3 * us_per_day)) ''USER-a'' due_session of (Inr events, s') \<Rightarrow> True | _ \<Rightarrow> False)"
    by code_simp
  then show ?thesis by (auto split: prod.splits sum.splits)
qed

lemma due_task: "\<exists>task. task_validate (dict_get due_row) = Some task \<and> node_id task = ''TSK-AB-1234-APR'' \<and>
    is_due (utc_dt (3 * us_per_day)) task"
proof -
  have "(case task_validate (dict_get due_row) of None \<Rightarrow> False
     | Some task \<Rightarrow> node_id task = ''TSK-AB-1234-APR'' \<and> is_due (utc_dt (3 * us_per_day)) task)"
    by code_simp
  then show ?thesis by (auto split: option.splits)
qed


text \<open>
  A candidate the store wrote does not validate, and an archived candidate is listed but not found
  again: either ends the whole check, and the approvals behind it wait on.
\<close>

lemma archived_candidate_raises:
  assumes "cypher_service exec" "require_caller_context cfg None = Inr ()"
    and "task_validate (dict_get p) = Some task" "fetch exec (graph s) (node_id task) = Some q"
    and "get_truthy q ''archived_at''"
    and "is_due now task" "dt_off (created_at task) \<noteq> None"
  shows "forS (escalate_candidate exec cfg uuid n clock now) (p # rest) events s =
    (Inl (EscalationError (node_id task)), s)"
proof -
  obtain ap cr apat rj days target action db ar asub ak where
    md: "type_metadata task = Some (ApprovalMetadata ap cr apat rj days target action db ar asub ak)"
    using assms(6) by (auto simp: is_due_def split: option.splits TypeMetadata.splits)
  then have "overdue now task days = Inr True"
    using assms(6,7) by (simp add: is_due_def overdue_def)
  moreover have "escalate_task exec cfg u n d1 d2 (node_id task) act target days s =
      (Inl (EscalationError (node_id task)), s)" for u d1 d2 act
    using assms(2,4,5) by (simp add: escalate_task_def bindS_unfold estore_eq
        cypher_service.get_node_eq [OF assms(1)] visible_def)
  ultimately show ?thesis
    using assms(3,6) md by (auto simp: escalate_candidate_def bindS_unfold is_due_def)
qed

subsection \<open>Decisions an absent owner has to take\<close>

text \<open>
  A queue is the cache of one process and the table all share. Rows come back as the decisions that
  were written, in the order of the table. \<open>up\<close> tells for each statement whether the database
  answers; a failing statement raises and the code goes on.
\<close>

record PendingDecision =
  pd_id :: string
  pd_user_id :: string
  context_ref :: string
  prompt :: string
  proposed_action :: pval
  pd_created_at :: py_datetime
  expires_at :: "py_datetime option"
  resolved_at :: "py_datetime option"
  resolution :: "string option"

record decision_queue =
  cache :: "PendingDecision pydict"
  queue_table :: "PendingDecision pydict"

definition persist_insert :: "bool \<Rightarrow> PendingDecision \<Rightarrow> decision_queue \<Rightarrow> decision_queue" where
  "persist_insert up d q =
     (if \<not> up \<or> dict_get (queue_table q) (pd_id d) \<noteq> None then q
      else q\<lparr>queue_table := queue_table q @ [(pd_id d, d)]\<rparr>)"

definition persist_update :: "bool \<Rightarrow> PendingDecision \<Rightarrow> decision_queue \<Rightarrow> decision_queue" where
  "persist_update up d q = (case dict_get (queue_table q) (pd_id d) of
     Some row \<Rightarrow> if up then q\<lparr>queue_table := dict_set (pd_id d)
         (row\<lparr>resolved_at := resolved_at d, resolution := resolution d\<rparr>) (queue_table q)\<rparr> else q
   | None \<Rightarrow> q)"

definition load_from_db :: "bool \<Rightarrow> string \<Rightarrow> decision_queue \<Rightarrow> PendingDecision option" where
  "load_from_db up i q = (if up then dict_get (queue_table q) i else None)"

definition load_pending_from_db :: "bool \<Rightarrow> string \<Rightarrow> decision_queue \<Rightarrow> PendingDecision list" where
  "load_pending_from_db up u q =
     (if up then filter (\<lambda>d. pd_user_id d = u \<and> resolved_at d = None) (map snd (queue_table q)) else [])"

definition load_all_unresolved_from_db :: "bool \<Rightarrow> decision_queue \<Rightarrow> PendingDecision list" where
  "load_all_unresolved_from_db up q =
     (if up then filter (\<lambda>d. resolved_at d = None) (map snd (queue_table q)) else [])"

definition enqueue :: "bool \<Rightarrow> bool \<Rightarrow> int \<Rightarrow> string \<Rightarrow> py_datetime \<Rightarrow> py_datetime \<Rightarrow> string \<Rightarrow> string \<Rightarrow> string \<Rightarrow>
    pval \<Rightarrow> int option \<Rightarrow> decision_queue \<Rightarrow> PendingDecision \<times> decision_queue" where
  "enqueue pool up default_wait uuid now1 now2 user_id ref question action wait_hours q =
     (let hours = (case wait_hours of None \<Rightarrow> default_wait | Some h \<Rightarrow> h);
          d = \<lparr>pd_id = uuid, pd_user_id = user_id, context_ref = ref, prompt = question,
               proposed_action = action, pd_created_at = now2,
               expires_at = Some (now1\<lparr>dt_wall := dt_wall now1 + hours * us_per_hour\<rparr>),
               resolved_at = None, resolution = None\<rparr>;
          q' = q\<lparr>cache := dict_set uuid d (cache q)\<rparr>
      in (d, if pool then persist_insert up d q' else q'))"

definition close_decision :: "py_datetime \<Rightarrow> string \<Rightarrow> PendingDecision \<Rightarrow> PendingDecision" where
  "close_decision now label d = d\<lparr>resolved_at := Some now, resolution := Some label\<rparr>"

definition resolve :: "bool \<Rightarrow> bool \<Rightarrow> py_datetime \<Rightarrow> string \<Rightarrow> string \<Rightarrow> decision_queue \<Rightarrow>
    bool \<times> decision_queue" where
  "resolve pool up now i label q = (case dict_get (cache q) i of
     Some d \<Rightarrow>
       let d' = close_decision now label d; q' = q\<lparr>cache := dict_set i d' (cache q)\<rparr>
       in (True, if pool then persist_update up d' q' else q')
   | None \<Rightarrow>
       (case (if pool then load_from_db up i q else None) of
          None \<Rightarrow> (False, q)
        | Some d \<Rightarrow> (True, if pool then persist_update up (close_decision now label d) q else q)))"

definition add_unseen :: "PendingDecision list \<Rightarrow> string set \<Rightarrow> decision_queue \<Rightarrow> decision_queue" where
  "add_unseen rows seen q = q\<lparr>cache := foldl (\<lambda>c d. dict_set (pd_id d) d c) (cache q)
     (filter (\<lambda>d. pd_id d \<notin> seen) rows)\<rparr>"

definition list_pending :: "bool \<Rightarrow> bool \<Rightarrow> string \<Rightarrow> decision_queue \<Rightarrow> PendingDecision list \<times> decision_queue" where
  "list_pending pool up u q =
     (let pending = filter (\<lambda>d. pd_user_id d = u \<and> resolved_at d = None) (map snd (cache q));
          rows = (if pool then load_pending_from_db up u q else []);
          seen = pd_id ` set pending
      in (sort_key (\<lambda>d. dt_instant (pd_created_at d)) (pending @ filter (\<lambda>d. pd_id d \<notin> seen) rows),
          add_unseen rows seen q))"

definition expired :: "py_datetime \<Rightarrow> PendingDecision \<Rightarrow> bool" where
  "expired now d \<longleftrightarrow> resolved_at d = None \<and>
     (case expires_at d of None \<Rightarrow> False | Some e \<Rightarrow> dt_instant e \<le> dt_instant now)"

definition apply_fallback :: "bool \<Rightarrow> bool \<Rightarrow> py_datetime \<Rightarrow> PendingDecision \<Rightarrow> decision_queue \<Rightarrow> decision_queue" where
  "apply_fallback pool up now d q =
     (let d' = close_decision now ''fallback_conservative'' d;
          q' = q\<lparr>cache := dict_set (pd_id d) d' (cache q)\<rparr>
      in if pool then persist_update up d' q' else q')"

fun expire_loop :: "bool \<Rightarrow> bool \<Rightarrow> py_datetime \<Rightarrow> PendingDecision list \<Rightarrow> decision_queue \<Rightarrow>
    PendingDecision list \<times> decision_queue" where
  "expire_loop pool up now [] q = ([], q)"
| "expire_loop pool up now (d # ds) q =
     (if \<not> expired now d then expire_loop pool up now ds q
      else let (fired, q') = expire_loop pool up now ds (apply_fallback pool up now d q)
           in (close_decision now ''fallback_conservative'' d # fired, q'))"

definition process_expired :: "bool \<Rightarrow> bool \<Rightarrow> py_datetime \<Rightarrow> decision_queue \<Rightarrow>
    PendingDecision list \<times> decision_queue" where
  "process_expired pool up now q =
     (let cached = map snd (cache q);
          rows = (if pool then load_all_unresolved_from_db up q else []);
          seen = pd_id ` set cached
      in expire_loop pool up now (cached @ filter (\<lambda>d. pd_id d \<notin> seen) rows) (add_unseen rows seen q))"

subsection \<open>What the fallback closes\<close>

abbreviation by_fallback :: "py_datetime \<Rightarrow> PendingDecision \<Rightarrow> PendingDecision" where
  "by_fallback now \<equiv> close_decision now ''fallback_conservative''"

lemma close_id [simp]: "pd_id (close_decision now l d) = pd_id d"
  by (simp add: close_decision_def)

lemma not_expired_closed [simp]: "\<not> expired now (close_decision t l d)"
  by (simp add: expired_def close_decision_def)

lemma apply_fallback_gets:
  "dict_get (queue_table (apply_fallback True True now d q)) k =
     (if k = pd_id d then map_option (by_fallback now) (dict_get (queue_table q) k) else dict_get (queue_table q) k)"
  "dict_get (cache (apply_fallback True True now d q)) k =
     (if k = pd_id d then Some (by_fallback now d) else dict_get (cache q) k)"
  by (auto simp: apply_fallback_def Let_def persist_update_def close_decision_def dict_simps split: option.split)

lemma expire_loop_step:
  "expired now d \<Longrightarrow> expire_loop pool up now (d # ds) q =
     (by_fallback now d # fst (expire_loop pool up now ds (apply_fallback pool up now d q)),
      snd (expire_loop pool up now ds (apply_fallback pool up now d q)))"
  by (simp add: split_def Let_def)

declare expire_loop.simps(2) [simp del]

lemma expire_loop_skip:
  "\<not> expired now d \<Longrightarrow> expire_loop pool up now (d # ds) q = expire_loop pool up now ds q"
  by (simp add: expire_loop.simps(2))

lemma expire_loop_fired: "fst (expire_loop pool up now ds q) = map (by_fallback now) (filter (expired now) ds)"
  by (induction ds arbitrary: q) (simp_all add: expire_loop_step expire_loop_skip)

lemma expire_loop_table:
  "distinct (map pd_id ds) \<Longrightarrow>
    dict_get (queue_table (snd (expire_loop True True now ds q))) k =
      (if k \<in> pd_id ` set (filter (expired now) ds) then map_option (by_fallback now) (dict_get (queue_table q) k)
       else dict_get (queue_table q) k)"
proof (induction ds arbitrary: q)
  case (Cons d ds)
  then show ?case
    by (cases "expired now d") (auto simp: expire_loop_step expire_loop_skip apply_fallback_gets)
qed simp

lemma expire_loop_cache_other:
  "k \<notin> pd_id ` set (filter (expired now) ds) \<Longrightarrow>
    dict_get (cache (snd (expire_loop True True now ds q))) k = dict_get (cache q) k"
proof (induction ds arbitrary: q)
  case (Cons d ds)
  then show ?case
    by (cases "expired now d") (auto simp: expire_loop_step expire_loop_skip apply_fallback_gets)
qed simp

lemma expire_loop_cache:
  "distinct (map pd_id ds) \<Longrightarrow> d \<in> set ds \<Longrightarrow> expired now d \<Longrightarrow>
    dict_get (cache (snd (expire_loop True True now ds q))) (pd_id d) = Some (by_fallback now d)"
proof (induction ds arbitrary: q)
  case (Cons c ds)
  show ?case
  proof (cases "d = c")
    case True
    have "pd_id c \<notin> pd_id ` set (filter (expired now) ds)" using Cons.prems(1) by auto
    from expire_loop_cache_other [OF this] show ?thesis
      using True Cons.prems(3) by (simp add: expire_loop_step apply_fallback_gets)
  next
    case False
    with Cons show ?thesis
      by (cases "expired now c") (auto simp: expire_loop_step expire_loop_skip)
  qed
qed simp

definition queue_ok :: "decision_queue \<Rightarrow> bool" where
  "queue_ok q \<longleftrightarrow> dict_ok (cache q) \<and> dict_ok (queue_table q) \<and>
     list_all (\<lambda>(k, d). k = pd_id d) (cache q) \<and> list_all (\<lambda>(k, d). k = pd_id d) (queue_table q)"

text \<open>The cache of the process holds nothing the table would contradict.\<close>

definition coherent :: "decision_queue \<Rightarrow> bool" where
  "coherent q \<longleftrightarrow> (\<forall>k d. dict_get (cache q) k = Some d \<longrightarrow> dict_get (queue_table q) k = Some d)"

lemma keyed_by_id:
  assumes "dict_ok D" "list_all (\<lambda>(k, d). k = pd_id d) D"
  shows "distinct (map pd_id (map snd D))" "d \<in> set (map snd D) \<longleftrightarrow> dict_get D (pd_id d) = Some d"
    "dict_get D k = Some d \<Longrightarrow> k = pd_id d"
proof -
  have key: "map pd_id (map snd D) = map fst D" using assms(2) by (induction D) auto
  show "distinct (map pd_id (map snd D))" unfolding key using assms(1) by (simp add: dict_ok_def)
  show k: "k = pd_id d" if "dict_get D k = Some d" for k
    using dict_get_SomeD [OF that] assms(2) by (auto simp: list_all_iff)
  show "d \<in> set (map snd D) \<longleftrightarrow> dict_get D (pd_id d) = Some d"
  proof
    assume "d \<in> set (map snd D)"
    then obtain k where "(k, d) \<in> set D" by auto
    moreover from this have "k = pd_id d" using assms(2) by (auto simp: list_all_iff)
    ultimately show "dict_get D (pd_id d) = Some d" using assms(1) by (simp add: dict_get_Some_iff)
  next
    assume "dict_get D (pd_id d) = Some d"
    from dict_get_SomeD [OF this] show "d \<in> set (map snd D)" by force
  qed
qed

text \<open>What \<open>process_expired\<close> goes through: the cache, then what only the table has.\<close>

definition candidates :: "decision_queue \<Rightarrow> PendingDecision list" where
  "candidates q = map snd (cache q) @ filter (\<lambda>d. pd_id d \<notin> pd_id ` set (map snd (cache q)))
     (load_all_unresolved_from_db True q)"

lemma distinct_unseen:
  "distinct (map f xs) \<Longrightarrow> distinct (map f ys) \<Longrightarrow> distinct (map f (xs @ filter (\<lambda>y. f y \<notin> f ` set xs) ys))"
  by (auto simp: distinct_map_filter) (metis image_eqI)

lemma candidates_distinct: "queue_ok q \<Longrightarrow> distinct (map pd_id (candidates q))"
proof -
  assume ok: "queue_ok q"
  have "distinct (map pd_id (map snd (queue_table q)))" and c: "distinct (map pd_id (map snd (cache q)))"
    using keyed_by_id(1) [of "queue_table q"] keyed_by_id(1) [of "cache q"] ok by (simp_all add: queue_ok_def)
  then have "distinct (map pd_id (load_all_unresolved_from_db True q))"
    unfolding load_all_unresolved_from_db_def if_True by (intro distinct_map_filter)
  with c show ?thesis unfolding candidates_def by (rule distinct_unseen)
qed

lemma process_expired_eq:
  "process_expired True True now q =
    expire_loop True True now (candidates q)
      (add_unseen (load_all_unresolved_from_db True q) (pd_id ` set (map snd (cache q))) q)"
  by (simp add: process_expired_def candidates_def Let_def)

lemma foldl_set_gets:
  "\<forall>d \<in> set ds. T (pd_id d) = Some d \<Longrightarrow>
    dict_get (foldl (\<lambda>c d. dict_set (pd_id d) d c) c ds) k = (if k \<in> pd_id ` set ds then T k else dict_get c k)"
  by (induction ds arbitrary: c) (auto simp: dict_simps)

lemma table_rows:
  assumes "queue_ok q"
  shows "d \<in> set (load_all_unresolved_from_db True q) \<longleftrightarrow>
    dict_get (queue_table q) (pd_id d) = Some d \<and> resolved_at d = None"
  using keyed_by_id(2) [of "queue_table q" d] assms by (auto simp: load_all_unresolved_from_db_def queue_ok_def)

lemma cached_rows:
  assumes "queue_ok q"
  shows "d \<in> set (map snd (cache q)) \<longleftrightarrow> dict_get (cache q) (pd_id d) = Some d"
  using keyed_by_id(2) [of "cache q" d] assms by (auto simp: queue_ok_def)

lemma cached_key: "queue_ok q \<Longrightarrow> dict_get (cache q) k = Some d \<Longrightarrow> k = pd_id d"
  using keyed_by_id(3) [of "cache q"] by (auto simp: queue_ok_def)

lemma table_key: "queue_ok q \<Longrightarrow> dict_get (queue_table q) k = Some d \<Longrightarrow> k = pd_id d"
  using keyed_by_id(3) [of "queue_table q"] by (auto simp: queue_ok_def)

lemma candidate_in_table:
  assumes "queue_ok q" "coherent q" "d \<in> set (candidates q)"
  shows "dict_get (queue_table q) (pd_id d) = Some d"
proof -
  from assms(3) have "d \<in> set (map snd (cache q)) \<or> d \<in> set (load_all_unresolved_from_db True q)"
    by (auto simp: candidates_def)
  then show ?thesis
    using assms(2) cached_rows [OF assms(1)] table_rows [OF assms(1)] by (auto simp: coherent_def)
qed

lemma expired_candidate:
  assumes "queue_ok q" "coherent q" "expired now d"
  shows "d \<in> set (candidates q) \<longleftrightarrow> dict_get (queue_table q) (pd_id d) = Some d"
proof
  assume t: "dict_get (queue_table q) (pd_id d) = Some d"
  then have row: "d \<in> set (load_all_unresolved_from_db True q)"
    using assms(3) table_rows [OF assms(1)] by (simp add: expired_def)
  show "d \<in> set (candidates q)"
  proof (cases "pd_id d \<in> pd_id ` set (map snd (cache q))")
    case True
    then obtain c where c: "c \<in> set (map snd (cache q))" "pd_id c = pd_id d" by (metis imageE)
    then have "dict_get (queue_table q) (pd_id d) = Some c"
      using cached_rows [OF assms(1)] assms(2) by (metis coherent_def)
    with t c show ?thesis by (simp add: candidates_def)
  qed (use row in \<open>simp add: candidates_def\<close>)
qed (rule candidate_in_table [OF assms(1,2)])

lemma expired_ids:
  assumes "queue_ok q" "coherent q"
  shows "k \<in> pd_id ` set (filter (expired now) (candidates q)) \<longleftrightarrow>
    (\<exists>d. dict_get (queue_table q) k = Some d \<and> expired now d)"
proof
  assume "\<exists>d. dict_get (queue_table q) k = Some d \<and> expired now d"
  then obtain d where d: "dict_get (queue_table q) k = Some d" "expired now d" by blast
  moreover have "k = pd_id d" using table_key [OF assms(1) d(1)] .
  ultimately show "k \<in> pd_id ` set (filter (expired now) (candidates q))"
    using expired_candidate [OF assms d(2)] by simp
qed (use candidate_in_table [OF assms] in auto)

lemma unseen_cached_in_table:
  assumes "queue_ok q" "coherent q"
    and "dict_get (cache (add_unseen (load_all_unresolved_from_db True q) (pd_id ` set (map snd (cache q))) q)) k = Some d"
  shows "dict_get (queue_table q) k = Some d"
proof -
  let ?ds = "filter (\<lambda>d. pd_id d \<notin> pd_id ` set (map snd (cache q))) (load_all_unresolved_from_db True q)"
  have "\<forall>d \<in> set ?ds. dict_get (queue_table q) (pd_id d) = Some d" using table_rows [OF assms(1)] by simp
  from foldl_set_gets [OF this, of "cache q" k]
  have "dict_get (queue_table q) k = Some d \<or> dict_get (cache q) k = Some d"
    using assms(3) by (simp add: add_unseen_def split: if_splits)
  with assms(2) show ?thesis by (auto simp: coherent_def)
qed

lemma process_expired_table:
  assumes "queue_ok q" "coherent q" "process_expired True True now q = (fired, q')"
  shows "dict_get (queue_table q') k = map_option (\<lambda>d. if expired now d then by_fallback now d else d)
      (dict_get (queue_table q) k)"
proof -
  have same: "queue_table (add_unseen rows seen q) = queue_table q" for rows seen by (simp add: add_unseen_def)
  have run: "q' = snd (expire_loop True True now (candidates q)
      (add_unseen (load_all_unresolved_from_db True q) (pd_id ` set (map snd (cache q))) q))"
    using assms(3) by (metis process_expired_eq snd_conv)
  show ?thesis
    unfolding run expire_loop_table [OF candidates_distinct [OF assms(1)]] same expired_ids [OF assms(1,2)]
    by (cases "dict_get (queue_table q) k") auto
qed

lemma process_expired_coherent:
  assumes "queue_ok q" "coherent q" "process_expired True True now q = (fired, q')"
  shows "coherent q'"
  unfolding coherent_def
proof (intro allI impI)
  let ?ds = "candidates q"
  let ?q1 = "add_unseen (load_all_unresolved_from_db True q) (pd_id ` set (map snd (cache q))) q"
  have run: "q' = snd (expire_loop True True now ?ds ?q1)"
    using assms(3) by (simp add: process_expired_eq prod_eq_iff)
  note tab = process_expired_table [OF assms]
  fix k d assume c: "dict_get (cache q') k = Some d"
  show "dict_get (queue_table q') k = Some d"
  proof (cases "k \<in> pd_id ` set (filter (expired now) ?ds)")
    case True
    then obtain e where e: "e \<in> set ?ds" "expired now e" "k = pd_id e" by auto
    then have "d = by_fallback now e"
      using c expire_loop_cache [OF candidates_distinct [OF assms(1)] e(1,2)] by (simp add: run)
    then show ?thesis using tab candidate_in_table [OF assms(1,2) e(1)] e by simp
  next
    case False
    then have "dict_get (cache ?q1) k = Some d"
      using c expire_loop_cache_other [OF False] by (simp add: run)
    from unseen_cached_in_table [OF assms(1,2) this] have t: "dict_get (queue_table q) k = Some d" .
    with False expired_ids [OF assms(1,2)] have "\<not> expired now d" by blast
    with t show ?thesis by (simp add: tab)
  qed
qed

text \<open>
  The fallback of a process whose cache does not contradict the table closes exactly the
  open decisions whose time is over, returns them once each, changes nothing else in the table,
  and leaves no expired decision open.
\<close>

theorem fallback_exact:
  assumes "queue_ok q" "coherent q" "process_expired True True now q = (fired, q')"
  shows "dict_get (queue_table q') k = map_option (\<lambda>d. if expired now d then by_fallback now d else d)
      (dict_get (queue_table q) k) \<and>
    (d \<in> set fired \<longleftrightarrow> (\<exists>e. dict_get (queue_table q) (pd_id e) = Some e \<and> expired now e \<and> d = by_fallback now e)) \<and>
    distinct (map pd_id fired) \<and> coherent q' \<and>
    (\<forall>e. dict_get (queue_table q') k = Some e \<longrightarrow> \<not> expired now e)"
proof (intro conjI allI impI)
  have fired: "fired = map (by_fallback now) (filter (expired now) (candidates q))"
    using assms(3) expire_loop_fired by (metis fst_conv process_expired_eq)
  show "d \<in> set fired \<longleftrightarrow>
      (\<exists>e. dict_get (queue_table q) (pd_id e) = Some e \<and> expired now e \<and> d = by_fallback now e)"
    unfolding fired using expired_candidate [OF assms(1,2)] by auto
  show "distinct (map pd_id fired)"
    unfolding fired using distinct_map_filter [OF candidates_distinct [OF assms(1)]] by (simp add: comp_def)
  fix e assume "dict_get (queue_table q') k = Some e"
  then have "map_option (\<lambda>d. if expired now d then by_fallback now d else d) (dict_get (queue_table q) k) = Some e"
    by (rule process_expired_table [OF assms, symmetric, THEN trans])
  then obtain c where "(if expired now c then by_fallback now c else c) = e"
    unfolding map_option_eq_Some by blast
  then show "\<not> expired now e" by (metis not_expired_closed)
qed (fact process_expired_table [OF assms] process_expired_coherent [OF assms])+

definition open_decision :: PendingDecision where
  "open_decision = \<lparr>pd_id = ''D1'', pd_user_id = ''USER-a'', context_ref = ''TSK-1'', prompt = ''Pay?'',
     proposed_action = PDict [], pd_created_at = utc_dt 0, expires_at = Some (utc_dt (24 * us_per_hour)),
     resolved_at = None, resolution = None\<rparr>"

definition one_decision :: decision_queue where
  "one_decision = \<lparr>cache = [(''D1'', open_decision)], queue_table = [(''D1'', open_decision)]\<rparr>"

lemma enqueued: "enqueue True True 24 ''D1'' (utc_dt 0) (utc_dt 0) ''USER-a'' ''TSK-1'' ''Pay?'' (PDict []) None
    \<lparr>cache = [], queue_table = []\<rparr> = (open_decision, one_decision)"
  by (simp add: enqueue_def persist_insert_def Let_def open_decision_def one_decision_def dict_simps dict_set_def utc_dt_def)

lemma open_expires: "expired (utc_dt (25 * us_per_hour)) open_decision"
  by (simp add: expired_def open_decision_def us_per_hour_def)

theorem fallback_exact_witness:
  "\<exists>fired q'. process_expired True True (utc_dt (25 * us_per_hour)) one_decision = (fired, q') \<and>
     dict_get (queue_table q') ''D1'' = Some (by_fallback (utc_dt (25 * us_per_hour)) open_decision)"
proof -
  obtain fired q' where run: "process_expired True True (utc_dt (25 * us_per_hour)) one_decision = (fired, q')"
    by fastforce
  have ok: "queue_ok one_decision" "coherent one_decision"
    by (simp_all add: queue_ok_def coherent_def one_decision_def open_decision_def dict_ok_def)
  have row: "dict_get (queue_table one_decision) ''D1'' = Some open_decision"
    by (simp add: one_decision_def dict_simps)
  from fallback_exact [OF ok run, where k = "''D1''" and d = open_decision, THEN conjunct1]
  have "dict_get (queue_table q') ''D1'' = Some (by_fallback (utc_dt (25 * us_per_hour)) open_decision)"
    by (simp only: row option.map open_expires if_True)
  with run show ?thesis by blast
qed

text \<open>
  An owner's answer can be lost. When another process recorded the answer, the process
  that enqueued the decision still holds it as open; once the time is over its fallback
  overwrites the answer in the table, and the decision is reported as closed by the fallback.
\<close>

theorem stale_cache_overwrites_answer:
  assumes "queue_ok q" "dict_get (cache q) i = Some d" "expired now d"
    and "dict_get (queue_table q) i = Some answered" "process_expired True True now q = (fired, q')"
  shows "dict_get (queue_table q') i = Some (by_fallback now answered) \<and> by_fallback now d \<in> set fired"
proof -
  have i: "i = pd_id d" by (rule cached_key [OF assms(1,2)])
  then have d: "d \<in> set (filter (expired now) (candidates q))"
    using assms(2,3) cached_rows [OF assms(1), of d] by (simp add: candidates_def)
  have same: "queue_table (add_unseen rows seen q) = queue_table q" for rows seen by (simp add: add_unseen_def)
  have q': "q' = snd (expire_loop True True now (candidates q)
      (add_unseen (load_all_unresolved_from_db True q) (pd_id ` set (map snd (cache q))) q))"
    using assms(5) by (metis process_expired_eq snd_conv)
  have fired: "fired = map (by_fallback now) (filter (expired now) (candidates q))"
    using assms(5) expire_loop_fired by (metis fst_conv process_expired_eq)
  have "pd_id d \<in> pd_id ` set (filter (expired now) (candidates q))" using d by (rule imageI)
  then have "dict_get (queue_table q') (pd_id d) = map_option (by_fallback now) (dict_get (queue_table q) (pd_id d))"
    unfolding q' expire_loop_table [OF candidates_distinct [OF assms(1)]] same by (rule if_P)
  moreover have "by_fallback now d \<in> set fired"
    unfolding fired set_map using d by (rule imageI)
  ultimately show ?thesis using assms(4) unfolding i by simp
qed

text \<open>One process enqueues, another records the answer, the first runs its fallback.\<close>

theorem stale_cache_overwrites_answer_witness:
  "(let q1 = snd (enqueue True True 24 ''D1'' (utc_dt 0) (utc_dt 0) ''USER-a'' ''TSK-1'' ''Pay?'' (PDict []) None
          \<lparr>cache = [], queue_table = []\<rparr>);
        q2 = snd (resolve True True (utc_dt 1) ''D1'' ''owner_decided'' (q1\<lparr>cache := []\<rparr>));
        q3 = snd (process_expired True True (utc_dt (25 * us_per_hour)) (q2\<lparr>cache := cache q1\<rparr>))
    in map_option resolution (dict_get (queue_table q2) ''D1'') = Some (Some ''owner_decided'') \<and>
       map_option resolution (dict_get (queue_table q3) ''D1'') = Some (Some ''fallback_conservative''))"
proof -
  let ?ans = "close_decision (utc_dt 1) ''owner_decided'' open_decision"
  let ?q2 = "\<lparr>cache = [], queue_table = [(''D1'', ?ans)]\<rparr>"
  let ?q3 = "\<lparr>cache = [(''D1'', open_decision)], queue_table = [(''D1'', ?ans)]\<rparr>"
  have q2: "snd (resolve True True (utc_dt 1) ''D1'' ''owner_decided'' (one_decision\<lparr>cache := []\<rparr>)) = ?q2"
    by (simp add: resolve_def one_decision_def load_from_db_def persist_update_def dict_simps dict_set_def)
      (simp add: open_decision_def close_decision_def dict_simps)
  have row: "dict_get (queue_table ?q3) ''D1'' = Some ?ans" by (simp add: dict_simps)
  have q3: "queue_ok ?q3" "dict_get (cache ?q3) ''D1'' = Some open_decision"
    by (simp_all add: queue_ok_def dict_ok_def open_decision_def close_decision_def dict_simps)
  have as_q3: "?q2\<lparr>cache := cache one_decision\<rparr> = ?q3" by (simp add: one_decision_def)
  obtain fired q' where run: "process_expired True True (utc_dt (25 * us_per_hour)) ?q3 = (fired, q')" by fastforce
  from stale_cache_overwrites_answer [OF q3 open_expires row run, THEN conjunct1]
  have end_row: "dict_get (queue_table q') ''D1'' = Some (by_fallback (utc_dt (25 * us_per_hour)) ?ans)" .
  have answered: "map_option resolution (dict_get (queue_table ?q2) ''D1'') = Some (Some ''owner_decided'')"
    by (simp add: dict_simps close_decision_def)
  show ?thesis
    unfolding enqueued Let_def snd_conv q2 as_q3 run end_row
    using answered by (simp add: close_decision_def)
qed

end
