(* ===== verification/GC_Redis.thy ===== *)
theory GC_Redis
  imports GC_Prelude
begin

section \<open>Redis keys that expire\<close>

text \<open>
  Redis is not part of the repository: the commands the code sends are the fields of \<open>redis_kv\<close>,
  applied to a state of any type at a time in seconds. What Redis documents about them is the
  locale \<open>expiring_keys\<close>: GET answers the last value set under the key until its time to live is
  over or the key is deleted. A dict in memory satisfies it.
\<close>

record 'r redis_kv =
  kv_get :: "int \<Rightarrow> string \<Rightarrow> 'r \<Rightarrow> string option"
  kv_setex :: "int \<Rightarrow> string \<Rightarrow> int \<Rightarrow> string \<Rightarrow> 'r \<Rightarrow> 'r"
  kv_delete :: "string \<Rightarrow> 'r \<Rightarrow> 'r"

locale expiring_keys =
  fixes ops :: "'r redis_kv" and entry :: "'r \<Rightarrow> string \<Rightarrow> (string \<times> int) option"
  assumes get_live: "kv_get ops now k r = (case entry r k of None \<Rightarrow> None
      | Some (v, e) \<Rightarrow> if now < e then Some v else None)"
    and entry_setex: "entry (kv_setex ops now k ttl v r) k' =
      (if k' = k then Some (v, now + ttl) else entry r k')"
    and entry_delete: "entry (kv_delete ops k r) k' = (if k' = k then None else entry r k')"
begin

lemma get_setex:
  "kv_get ops now' k (kv_setex ops now k ttl v r) = (if now' < now + ttl then Some v else None)"
  by (simp add: get_live entry_setex)

lemma get_setex_other:
  "k' \<noteq> k \<Longrightarrow> kv_get ops now' k' (kv_setex ops now k ttl v r) = kv_get ops now' k' r"
  by (simp add: get_live entry_setex)

lemma get_delete: "kv_get ops now k' (kv_delete ops k r) = (if k' = k then None else kv_get ops now k' r)"
  by (simp add: get_live entry_delete)

end

type_synonym mem_keys = "(string \<times> int) pydict"

definition mem_kv :: "mem_keys redis_kv" where
  "mem_kv = \<lparr>
     kv_get = (\<lambda>now k r. case dict_get r k of None \<Rightarrow> None
        | Some (v, e) \<Rightarrow> if now < e then Some v else None),
     kv_setex = (\<lambda>now k ttl v r. dict_set k (v, now + ttl) r),
     kv_delete = (\<lambda>k r. dict_pop k r)\<rparr>"

interpretation mem_keys: expiring_keys mem_kv dict_get
  by unfold_locales (simp_all add: mem_kv_def dict_simps)

end
