(* ===== verification/GC_Policy.thy ===== *)
theory GC_Policy
  imports GC_Paths GC_Redis
begin

section \<open>Delegation policies (\<open>agent/policies/\<close>, \<open>api/policies.py\<close>)\<close>

text \<open>
  What an agent may do unsupervised is written in policy files, YAML frontmatter before a body.
  The loader reads them from the object store through a Redis cache, the API writes them, and the
  evaluator holds an outbound intent against the parsed policy. YAML, pydantic, MD5 and JSON are
  not part of the repository: they are the fields of \<open>policy_lib\<close>, and \<open>policy_lib_ok\<close> states
  what is documented of them. A loader without Redis client behaves like one whose Redis never
  answers. Texts are sequences of code points below 256; time is in seconds.
\<close>

subsection \<open>Schemas\<close>

datatype FailMode = CLOSED | DEGRADED

fun FailMode_value :: "FailMode \<Rightarrow> string" where
  "FailMode_value FailMode.CLOSED = ''closed''"
| "FailMode_value FailMode.DEGRADED = ''degraded''"

definition FailMode_members :: "FailMode list" where
  "FailMode_members = [FailMode.CLOSED, FailMode.DEGRADED]"

interpretation fail_mode_enum: str_enum FailMode_members FailMode_value
proof
  show "e \<in> set FailMode_members" for e by (cases e) (simp_all add: FailMode_members_def)
qed (simp add: FailMode_members_def)

record AllowedTransition =
  at_from :: string
  at_to :: string

record RecipientOverride =
  ov_extension_max_days :: "int option"
  ov_escalate_on_blocker :: "bool option"

record DelegationPolicy =
  dp_fail_mode :: FailMode
  auto_acknowledge :: bool
  accept_deadline_extension_max_days :: int
  allowed_state_transitions :: "AllowedTransition list"
  escalate_on_blocker :: bool
  recipient_overrides :: "RecipientOverride pydict"

record EscalationPolicy =
  ep_fail_mode :: FailMode
  escalate_on_deadline_miss :: bool
  escalate_on_blocked_task :: bool
  interrupt_threshold :: rat
  quiet_hours_escalate :: bool

record CounterpartyEtiquettePolicy =
  cp_fail_mode :: FailMode
  max_follow_ups :: int
  follow_up_gap_days :: int
  tone :: string
  sign_off :: "string option"

record ReplyTonePolicy =
  rp_fail_mode :: FailMode
  voice :: string
  brevity :: string
  emoji_allowed :: bool

datatype policy_obj =
    DelegationObj DelegationPolicy
  | EscalationObj EscalationPolicy
  | EtiquetteObj CounterpartyEtiquettePolicy
  | ReplyToneObj ReplyTonePolicy

text \<open>\<open>POLICY_SCHEMA_MAP\<close>, each class given by its object with every dflt.\<close>

definition POLICY_SCHEMA_MAP :: "policy_obj pydict" where
  "POLICY_SCHEMA_MAP =
     [(''delegation'', DelegationObj \<lparr>dp_fail_mode = FailMode.CLOSED, auto_acknowledge = True,
         accept_deadline_extension_max_days = 3, allowed_state_transitions = [],
         escalate_on_blocker = True, recipient_overrides = []\<rparr>),
      (''escalation'', EscalationObj \<lparr>ep_fail_mode = FailMode.CLOSED, escalate_on_deadline_miss = True,
         escalate_on_blocked_task = True, interrupt_threshold = 8 / 10, quiet_hours_escalate = False\<rparr>),
      (''counterparty_etiquette'', EtiquetteObj \<lparr>cp_fail_mode = FailMode.DEGRADED, max_follow_ups = 3,
         follow_up_gap_days = 3, tone = ''professional'', sign_off = None\<rparr>),
      (''reply_tone'', ReplyToneObj \<lparr>rp_fail_mode = FailMode.DEGRADED, voice = ''neutral'',
         brevity = ''medium'', emoji_allowed = False\<rparr>)]"

definition CANONICAL_POLICY_NAMES :: "string list" where
  "CANONICAL_POLICY_NAMES = dict_keys POLICY_SCHEMA_MAP"

fun obj_fail_mode :: "policy_obj \<Rightarrow> FailMode" where
  "obj_fail_mode (DelegationObj p) = dp_fail_mode p"
| "obj_fail_mode (EscalationObj p) = ep_fail_mode p"
| "obj_fail_mode (EtiquetteObj p) = cp_fail_mode p"
| "obj_fail_mode (ReplyToneObj p) = rp_fail_mode p"

subsection \<open>The evaluator\<close>

record policy_intent =
  pi_task_id :: "string option"
  pi_recipient_id :: string
  pi_purpose :: string
  pi_transition :: "(string \<times> string) option"
  pi_extension_days :: "int option"
  pi_draft :: "string option"

text \<open>The messages of the violations, with the values they quote.\<close>

datatype violation =
    TransitionNotAllowed string string
  | ExtensionExceeds int int
  | BlockerMentioned

datatype policy_decision = Allow | Escalate

record EvaluationResult =
  decision :: policy_decision
  policy_name :: string
  violations :: "violation list"

definition transition_violations :: "policy_intent \<Rightarrow> DelegationPolicy \<Rightarrow> violation list" where
  "transition_violations intent policy = (case pi_transition intent of
     None \<Rightarrow> []
   | Some (from_s, to_s) \<Rightarrow>
       if allowed_state_transitions policy = [] then []
       else if list_ex (\<lambda>t. at_from t = from_s \<and> at_to t = to_s) (allowed_state_transitions policy) then []
       else [TransitionNotAllowed from_s to_s])"

definition override_days :: "RecipientOverride option \<Rightarrow> DelegationPolicy \<Rightarrow> int" where
  "override_days ovr policy = (case ovr of
     Some ov \<Rightarrow> (case ov_extension_max_days ov of
        Some d \<Rightarrow> d | None \<Rightarrow> accept_deadline_extension_max_days policy)
   | None \<Rightarrow> accept_deadline_extension_max_days policy)"

definition override_blocker :: "RecipientOverride option \<Rightarrow> DelegationPolicy \<Rightarrow> bool" where
  "override_blocker ovr policy = (case ovr of
     Some ov \<Rightarrow> (case ov_escalate_on_blocker ov of Some b \<Rightarrow> b | None \<Rightarrow> escalate_on_blocker policy)
   | None \<Rightarrow> escalate_on_blocker policy)"

definition evaluate_outbound_intent :: "policy_intent \<Rightarrow> DelegationPolicy \<Rightarrow> EvaluationResult" where
  "evaluate_outbound_intent intent policy =
     (let ovr = dict_get (recipient_overrides policy) (pi_recipient_id intent);
          v1 = transition_violations intent policy;
          v2 = (case pi_extension_days intent of None \<Rightarrow> []
                | Some d \<Rightarrow> let max_days = override_days ovr policy
                    in if max_days < d then [ExtensionExceeds d max_days] else []);
          v3 = (if override_blocker ovr policy
                   \<and> has_substring ''blocker'' (map to_lower (pi_purpose intent))
                then [BlockerMentioned] else []);
          vs = v1 @ v2 @ v3
      in if vs \<noteq> [] then \<lparr>decision = Escalate, policy_name = ''delegation'', violations = vs\<rparr>
         else \<lparr>decision = Allow, policy_name = ''delegation'', violations = []\<rparr>)"

subsection \<open>Files\<close>

datatype policy_error =
    UnknownPolicy string
  | PolicyMissing string
  | InvalidYaml
  | PolicyMalformed string
  | PolicyPath path_error

text \<open>
  \<open>safe_load\<close> is \<open>None\<close> on a YAML error; its falsy results count as \<open>no_fields\<close>. \<open>build\<close> is
  \<open>schema_cls(**fm)\<close> for the schema of a name, \<open>None\<close> where it raises; \<open>dumps\<close> is \<open>None\<close> where
  the frontmatter is no JSON.
\<close>

record 'fm policy_lib =
  decode_utf8 :: "string \<Rightarrow> string"
  encode_utf8 :: "string \<Rightarrow> string"
  safe_load :: "string \<Rightarrow> 'fm option"
  yaml_dump :: "'fm \<Rightarrow> string"
  build :: "string \<Rightarrow> 'fm \<Rightarrow> policy_obj option"
  no_fields :: 'fm
  md5 :: "string \<Rightarrow> string"
  cache_dumps :: "'fm \<times> string \<times> string \<times> string \<Rightarrow> string option"
  cache_loads :: "string \<Rightarrow> ('fm \<times> string \<times> string \<times> string) option"

record LoadedPolicy =
  lp_name :: string
  schema_obj :: policy_obj
  lp_body :: string
  lp_raw :: string
  lp_etag :: string

text \<open>\<open>text.find(p)\<close>\<close>

fun find_sub :: "string \<Rightarrow> string \<Rightarrow> nat option" where
  "find_sub p s = (if starts_with p s then Some 0
     else (case s of [] \<Rightarrow> None | c # s' \<Rightarrow> map_option Suc (find_sub p s')))"

declare find_sub.simps [simp del]

definition fence :: string where "fence = ''---''"

definition closing_fence :: string where "closing_fence = newline # fence"

definition lstrip_newlines :: "string \<Rightarrow> string" where
  "lstrip_newlines s = dropWhile (\<lambda>c. c = newline) s"

definition parse_frontmatter :: "'fm policy_lib \<Rightarrow> string \<Rightarrow> policy_error + 'fm \<times> string" where
  "parse_frontmatter lib raw =
     (let txt = decode_utf8 lib raw
      in if \<not> starts_with fence txt then Inr (no_fields lib, txt)
         else (case find_sub closing_fence (drop 3 txt) of
           None \<Rightarrow> Inr (no_fields lib, txt)
         | Some n \<Rightarrow>
             (let fm_text = strip (take n (drop 3 txt));
                  body = lstrip_newlines (drop (3 + n + 4) txt)
              in case safe_load lib fm_text of None \<Rightarrow> Inl InvalidYaml | Some fm \<Rightarrow> Inr (fm, body))))"

subsection \<open>The loader\<close>

definition CACHE_TTL_SECONDS :: int where "CACHE_TTL_SECONDS = 900"

definition cache_key :: "string \<Rightarrow> string \<Rightarrow> string \<Rightarrow> string" where
  "cache_key user_id agent_id name = ''policy:'' @ user_id @ '':'' @ agent_id @ '':'' @ name"

text \<open>The answer of the cache, if it has one that can be used.\<close>

definition cached_policy :: "'fm policy_lib \<Rightarrow> string \<Rightarrow> string option \<Rightarrow> LoadedPolicy option" where
  "cached_policy lib name cached = Option.bind cached (\<lambda>txt.
     Option.bind (cache_loads lib txt) (\<lambda>(fm, body, raw, etag).
     map_option (\<lambda>obj. \<lparr>lp_name = name, schema_obj = obj, lp_body = body, lp_raw = raw, lp_etag = etag\<rparr>)
       (build lib name fm)))"

text \<open>The read from the object store; a file found and parsed comes with its frontmatter.\<close>

definition read_policy_file :: "'fm policy_lib \<Rightarrow> string \<Rightarrow> string \<Rightarrow> string \<Rightarrow> policy_obj \<Rightarrow> bucket \<Rightarrow>
    policy_error + LoadedPolicy \<times> 'fm option" where
  "read_policy_file lib user_id agent_id name dflt fs =
     (case agent_policy user_id agent_id name of
        Inl e \<Rightarrow> Inl (PolicyPath e)
      | Inr path \<Rightarrow> (case fs path of
          None \<Rightarrow>
            if obj_fail_mode dflt = FailMode.CLOSED then Inl (PolicyMissing path)
            else Inr (\<lparr>lp_name = name, schema_obj = dflt, lp_body = '''', lp_raw = '''', lp_etag = ''''\<rparr>, None)
        | Some raw \<Rightarrow>
            bindE (parse_frontmatter lib raw) (\<lambda>(fm, body).
            case build lib name fm of
              None \<Rightarrow> Inl (PolicyMalformed name)
            | Some obj \<Rightarrow> Inr (\<lparr>lp_name = name, schema_obj = obj, lp_body = body, lp_raw = raw,
                lp_etag = md5 lib raw\<rparr>, Some fm))))"

definition cache_fill :: "'fm policy_lib \<Rightarrow> 'r redis_kv \<Rightarrow> bool \<Rightarrow> int \<Rightarrow> string \<Rightarrow> LoadedPolicy \<times> 'fm option \<Rightarrow> 'r \<Rightarrow> 'r" where
  "cache_fill lib ops up now key loaded r = (case loaded of
     (lp, None) \<Rightarrow> r
   | (lp, Some fm) \<Rightarrow> (case cache_dumps lib (fm, lp_body lp, lp_raw lp, lp_etag lp) of
       Some payload \<Rightarrow> if up then kv_setex ops now key CACHE_TTL_SECONDS payload r else r
     | None \<Rightarrow> r))"

text \<open>\<open>up\<close> and \<open>up'\<close> tell whether Redis answers the lookup and the write.\<close>

definition policy_load :: "'fm policy_lib \<Rightarrow> 'r redis_kv \<Rightarrow> bool \<Rightarrow> bool \<Rightarrow> int \<Rightarrow> string \<Rightarrow> string \<Rightarrow> string \<Rightarrow>
    bucket \<Rightarrow> 'r \<Rightarrow> (policy_error + LoadedPolicy) \<times> 'r" where
  "policy_load lib ops up up' now user_id agent_id name fs r =
     (case dict_get POLICY_SCHEMA_MAP name of
        None \<Rightarrow> (Inl (UnknownPolicy name), r)
      | Some dflt \<Rightarrow>
          (let key = cache_key user_id agent_id name
           in case cached_policy lib name (if up then kv_get ops now key r else None) of
                Some lp \<Rightarrow> (Inr lp, r)
              | None \<Rightarrow> (case read_policy_file lib user_id agent_id name dflt fs of
                  Inl e \<Rightarrow> (Inl e, r)
                | Inr loaded \<Rightarrow> (Inr (fst loaded), cache_fill lib ops up' now key loaded r))))"

definition policy_invalidate :: "'r redis_kv \<Rightarrow> bool \<Rightarrow> string \<Rightarrow> string \<Rightarrow> string \<Rightarrow> 'r \<Rightarrow> 'r" where
  "policy_invalidate ops up user_id agent_id name r =
     (if up then kv_delete ops (cache_key user_id agent_id name) r else r)"

fun load_each :: "'fm policy_lib \<Rightarrow> 'r redis_kv \<Rightarrow> bool \<Rightarrow> bool \<Rightarrow> int \<Rightarrow> string \<Rightarrow> string \<Rightarrow> string list \<Rightarrow>
    LoadedPolicy pydict \<Rightarrow> bucket \<Rightarrow> 'r \<Rightarrow> (policy_error + LoadedPolicy pydict) \<times> 'r" where
  "load_each lib ops up up' now u a [] results fs r = (Inr results, r)"
| "load_each lib ops up up' now u a (name # names) results fs r =
     (case policy_load lib ops up up' now u a name fs r of
        (Inl e, r') \<Rightarrow> (Inl e, r')
      | (Inr lp, r') \<Rightarrow> load_each lib ops up up' now u a names (dict_set name lp results) fs r')"

definition load_all_policies :: "'fm policy_lib \<Rightarrow> 'r redis_kv \<Rightarrow> bool \<Rightarrow> bool \<Rightarrow> int \<Rightarrow> string \<Rightarrow> string \<Rightarrow>
    bucket \<Rightarrow> 'r \<Rightarrow> (policy_error + LoadedPolicy pydict) \<times> 'r" where
  "load_all_policies lib ops up up' now u a fs r =
     load_each lib ops up up' now u a CANONICAL_POLICY_NAMES [] fs r"

subsection \<open>The API\<close>

datatype api_error = HttpStatus nat | ApiPath path_error

definition write_policy :: "'fm policy_lib \<Rightarrow> 'r redis_kv \<Rightarrow> bool \<Rightarrow> int \<Rightarrow> string \<Rightarrow> string \<Rightarrow> string \<Rightarrow>
    'fm \<Rightarrow> string \<Rightarrow> string option \<Rightarrow> bucket \<Rightarrow> 'r \<Rightarrow> (api_error + string) \<times> bucket \<times> 'r" where
  "write_policy lib ops up now user_id agent_id name fm body expected_version fs r =
     (if dict_get POLICY_SCHEMA_MAP name = None then (Inl (HttpStatus 422), fs, r)
      else if build lib name fm = None then (Inl (HttpStatus 422), fs, r)
      else let (conflict, r1) = (case expected_version of
             None \<Rightarrow> (Inr False, r)
           | Some v \<Rightarrow> (case policy_load lib ops up up now user_id agent_id name fs r of
               (Inr current, r') \<Rightarrow> (Inr (lp_etag current \<noteq> v), r')
             | (Inl (PolicyPath e), r') \<Rightarrow> (Inl (ApiPath e), r')
             | (Inl e, r') \<Rightarrow> (Inr False, r')))
        in case conflict of
             Inl e \<Rightarrow> (Inl e, fs, r1)
           | Inr True \<Rightarrow> (Inl (HttpStatus 409), fs, r1)
           | Inr False \<Rightarrow>
               (let raw = encode_utf8 lib (fence @ [newline] @ yaml_dump lib fm @ fence @ [newline] @ body)
                in case agent_policy user_id agent_id name of
                     Inl e \<Rightarrow> (Inl (ApiPath e), fs, r1)
                   | Inr path \<Rightarrow> (Inr (md5 lib raw), fs(path \<mapsto> raw),
                       policy_invalidate ops up user_id agent_id name r1)))"

text \<open>The frontmatter of the answer is parsed again, without the schema; an error gives none.\<close>

definition read_policy :: "'fm policy_lib \<Rightarrow> 'r redis_kv \<Rightarrow> bool \<Rightarrow> bool \<Rightarrow> int \<Rightarrow> string \<Rightarrow> string \<Rightarrow> string \<Rightarrow>
    bucket \<Rightarrow> 'r \<Rightarrow> (api_error + 'fm \<times> string \<times> string) \<times> 'r" where
  "read_policy lib ops up up' now user_id agent_id name fs r =
     (if dict_get POLICY_SCHEMA_MAP name = None then (Inl (HttpStatus 404), r)
      else case policy_load lib ops up up' now user_id agent_id name fs r of
        (Inl (PolicyPath e), r') \<Rightarrow> (Inl (ApiPath e), r')
      | (Inl e, r') \<Rightarrow> (Inl (HttpStatus 404), r')
      | (Inr loaded, r') \<Rightarrow>
          (let txt = decode_utf8 lib (lp_raw loaded);
               fm_text = (if starts_with fence txt
                 then (case find_sub closing_fence (drop 3 txt) of
                    Some n \<Rightarrow> strip (take n (drop 3 txt)) | None \<Rightarrow> '''') else txt);
               fm = (case safe_load lib fm_text of None \<Rightarrow> no_fields lib | Some f \<Rightarrow> f)
           in (Inr (fm, lp_body loaded, lp_etag loaded), r')))"

subsection \<open>What the gate lets through\<close>

definition override_of :: "policy_intent \<Rightarrow> DelegationPolicy \<Rightarrow> RecipientOverride option" where
  "override_of intent policy = dict_get (recipient_overrides policy) (pi_recipient_id intent)"

definition move_refused :: "policy_intent \<Rightarrow> DelegationPolicy \<Rightarrow> string \<Rightarrow> string \<Rightarrow> bool" where
  "move_refused intent policy f t \<longleftrightarrow> pi_transition intent = Some (f, t) \<and> allowed_state_transitions policy \<noteq> [] \<and>
     \<lparr>at_from = f, at_to = t\<rparr> \<notin> set (allowed_state_transitions policy)"

definition extension_refused :: "policy_intent \<Rightarrow> DelegationPolicy \<Rightarrow> int \<Rightarrow> bool" where
  "extension_refused intent policy d \<longleftrightarrow>
     pi_extension_days intent = Some d \<and> override_days (override_of intent policy) policy < d"

definition blocker_refused :: "policy_intent \<Rightarrow> DelegationPolicy \<Rightarrow> bool" where
  "blocker_refused intent policy \<longleftrightarrow> override_blocker (override_of intent policy) policy \<and>
     has_substring ''blocker'' (map to_lower (pi_purpose intent))"


subsection \<open>Reading back what was written\<close>

definition policy_cache_ok :: "'fm policy_lib \<Rightarrow> bool" where
  "policy_cache_ok lib \<longleftrightarrow> (\<forall>fm body raw etag txt. cache_dumps lib (fm, body, raw, etag) = Some txt \<longrightarrow>
     (\<exists>fm'. cache_loads lib txt = Some (fm', body, raw, etag) \<and>
       (\<forall>name obj. build lib name fm = Some obj \<longrightarrow> build lib name fm' = Some obj)))"

text \<open>\<open>yaml.dump\<close> gives lines, none of them a fence, that \<open>safe_load\<close> reads back.\<close>

definition yaml_ok :: "'fm policy_lib \<Rightarrow> 'fm \<Rightarrow> bool" where
  "yaml_ok lib fm \<longleftrightarrow> (\<exists>ls. yaml_dump lib fm = ls @ [newline] \<and> \<not> has_substring closing_fence (newline # ls) \<and>
     safe_load lib (strip (newline # ls)) = Some fm)"

lemma find_sub_here: "find_sub p (p @ s) = Some 0"
  by (subst find_sub.simps) (simp add: starts_with_append)

lemma starts_closing: "starts_with closing_fence (c # s) \<Longrightarrow> c = newline \<and> take 3 s = fence"
  by (auto simp: starts_with_append closing_fence_def fence_def)

text \<open>A fence that starts before the next line break lies before it.\<close>

lemma find_sub_fence:
  "\<not> has_substring closing_fence ls \<Longrightarrow> find_sub closing_fence (ls @ closing_fence @ s) = Some (length ls)"
proof (induction ls)
  case Nil
  show ?case by (simp add: find_sub_here)
next
  case (Cons c ls)
  have nl: "newline \<notin> set fence" "length fence = 3" by (simp_all add: fence_def newline_def)
  have "\<not> starts_with closing_fence ((c # ls) @ closing_fence @ s)"
  proof
    assume st: "starts_with closing_fence ((c # ls) @ closing_fence @ s)"
    from starts_closing [of c "ls @ closing_fence @ s"] st
    have "c = newline" and t: "take 3 (ls @ closing_fence @ s) = fence" by auto
    have "3 \<le> length ls"
    proof (rule ccontr)
      assume "\<not> 3 \<le> length ls"
      then obtain m where "3 - length ls = Suc m" by (cases "3 - length ls") auto
      then have "newline \<in> set (take 3 (ls @ closing_fence @ s))" by (simp add: closing_fence_def)
      with t nl show False by simp
    qed
    then have "take 3 ls = fence" using t by simp
    then have "ls = fence @ drop 3 ls" by (metis append_take_drop_id)
    then have "starts_with closing_fence (c # ls)"
      using \<open>c = newline\<close> unfolding starts_with_append closing_fence_def by (intro exI [of _ "drop 3 ls"]) simp
    with Cons.prems show False by simp
  qed
  moreover have "find_sub closing_fence (ls @ closing_fence @ s) = Some (length ls)"
    using Cons by simp
  ultimately show ?case by (subst find_sub.simps) simp
qed

lemma drop_both: "length c = k \<Longrightarrow> drop (length x + k) (x @ c @ t) = t"
  by simp

lemma parse_written:
  assumes "decode_utf8 lib raw = fence @ [newline] @ yaml_dump lib fm @ fence @ [newline] @ body" "yaml_ok lib fm"
  shows "parse_frontmatter lib raw = Inr (fm, lstrip_newlines body)"
proof -
  from assms(2) obtain ls where ls: "yaml_dump lib fm = ls @ [newline]"
    "\<not> has_substring closing_fence (newline # ls)" "safe_load lib (strip (newline # ls)) = Some fm"
    by (auto simp: yaml_ok_def)
  let ?rest = "(newline # ls) @ closing_fence @ newline # body"
  have decoded: "decode_utf8 lib raw = fence @ ?rest" using assms(1) ls(1) by (simp add: closing_fence_def)
  have three: "length fence = 3" "length closing_fence = 4" by (simp_all add: fence_def closing_fence_def)
  have start: "starts_with fence (fence @ ?rest)" unfolding starts_with_append by blast
  have rest: "drop 3 (fence @ ?rest) = ?rest" using three by simp
  have found: "find_sub closing_fence ?rest = Some (length (newline # ls))" by (rule find_sub_fence [OF ls(2)])
  have body: "drop (3 + length (newline # ls) + 4) (fence @ ?rest) = newline # body"
  proof -
    have "drop (3 + length (newline # ls) + 4) (fence @ ?rest) = drop (length (newline # ls) + 4) (drop 3 (fence @ ?rest))"
      by (simp only: drop_drop ac_simps)
    also have "\<dots> = newline # body" unfolding rest by (rule drop_both [OF three(2)])
    finally show ?thesis .
  qed
  show ?thesis
    unfolding parse_frontmatter_def decoded Let_def
    using start rest found body ls(3) by (simp add: lstrip_newlines_def)
qed

lemma invalidated_miss:
  assumes "expiring_keys ops entry"
  shows "kv_get ops now (cache_key u a n) (policy_invalidate ops True u a n r) = None"
  using expiring_keys.get_delete [OF assms] by (simp add: policy_invalidate_def)


subsection \<open>How old an answer can be\<close>

text \<open>
  A world of one bucket and one Redis, and what happens in it: loads, writes of the API, any
  other change of the bucket, time. The history holds the worlds in the order they came about.
\<close>

record 'r policy_world =
  pw_now :: int
  pw_objects :: bucket
  pw_redis :: 'r

datatype 'fm policy_event =
    LoadEvent bool bool string string string
  | WriteEvent bool string string string 'fm string "string option"
  | ChangeEvent bucket
  | WaitEvent nat

fun policy_step :: "'fm policy_lib \<Rightarrow> 'r redis_kv \<Rightarrow> 'fm policy_event \<Rightarrow> 'r policy_world \<Rightarrow> 'r policy_world" where
  "policy_step lib ops (LoadEvent up up' u a n) w =
     w\<lparr>pw_redis := snd (policy_load lib ops up up' (pw_now w) u a n (pw_objects w) (pw_redis w))\<rparr>"
| "policy_step lib ops (WriteEvent up u a n fm body ver) w =
     (let (_, fs, r) = write_policy lib ops up (pw_now w) u a n fm body ver (pw_objects w) (pw_redis w)
      in w\<lparr>pw_objects := fs, pw_redis := r\<rparr>)"
| "policy_step lib ops (ChangeEvent fs) w = w\<lparr>pw_objects := fs\<rparr>"
| "policy_step lib ops (WaitEvent s) w = w\<lparr>pw_now := pw_now w + int s\<rparr>"

fun policy_history :: "'fm policy_lib \<Rightarrow> 'r redis_kv \<Rightarrow> 'fm policy_event list \<Rightarrow> 'r policy_world \<Rightarrow> 'r policy_world list" where
  "policy_history lib ops [] w = [w]"
| "policy_history lib ops (e # es) w = w # policy_history lib ops es (policy_step lib ops e w)"

fun event_ids :: "'fm policy_event \<Rightarrow> string list" where
  "event_ids (LoadEvent up up' u a n) = [u, a]"
| "event_ids (WriteEvent up u a n fm body ver) = [u, a]"
| "event_ids (ChangeEvent fs) = []"
| "event_ids (WaitEvent s) = []"

definition no_colon :: "string \<Rightarrow> bool" where
  "no_colon s \<longleftrightarrow> CHR '':'' \<notin> set s"

lemma policy_names: "dict_get POLICY_SCHEMA_MAP n = Some d \<Longrightarrow> no_colon n"
  by (auto simp: POLICY_SCHEMA_MAP_def dict_simps no_colon_def split: if_splits)

lemma cache_key_inj:
  assumes "cache_key u a n = cache_key u' a' n'" "\<forall>s \<in> {u, a, n, u', a', n'}. no_colon s"
  shows "u = u' \<and> a = a' \<and> n = n'"
proof -
  have "split_on (CHR '':'') (u @ CHR '':'' # a @ CHR '':'' # n) = [u, a, n]"
    if "\<forall>s \<in> {u, a, n}. no_colon s" for u a n
    using that by (simp add: split_on_segment split_on_last no_colon_def)
  note parts = this
  have "u @ CHR '':'' # a @ CHR '':'' # n = u' @ CHR '':'' # a' @ CHR '':'' # n'"
    using assms(1) unfolding cache_key_def by simp
  then have "[u, a, n] = [u', a', n']"
    using parts [of u a n] parts [of u' a' n'] assms(2) by (metis insert_iff)
  then show ?thesis by simp
qed

text \<open>What a cached entry promises: it is what one of the worlds held when it was cached.\<close>

definition cached_from :: "'fm policy_lib \<Rightarrow> 'r policy_world \<Rightarrow> string \<Rightarrow> string \<Rightarrow> bool" where
  "cached_from lib w key payload \<longleftrightarrow> (\<exists>u a n d lp fm. key = cache_key u a n \<and> no_colon u \<and> no_colon a \<and>
     dict_get POLICY_SCHEMA_MAP n = Some d \<and> read_policy_file lib u a n d (pw_objects w) = Inr (lp, Some fm) \<and>
     cache_dumps lib (fm, lp_body lp, lp_raw lp, lp_etag lp) = Some payload)"

definition cache_fresh :: "'fm policy_lib \<Rightarrow> ('r \<Rightarrow> string \<Rightarrow> (string \<times> int) option) \<Rightarrow> 'r policy_world set \<Rightarrow> 'r policy_world \<Rightarrow> bool" where
  "cache_fresh lib entry ws w \<longleftrightarrow> (\<forall>w' \<in> ws. pw_now w' \<le> pw_now w) \<and>
     (\<forall>key payload e. entry (pw_redis w) key = Some (payload, e) \<longrightarrow>
        (\<exists>w' \<in> ws. pw_now w' = e - CACHE_TTL_SECONDS \<and> cached_from lib w' key payload))"

lemma read_file_built:
  "read_policy_file lib u a n d fs = Inr (lp, Some fm) \<Longrightarrow> lp_name lp = n \<and> build lib n fm = Some (schema_obj lp)"
  by (auto simp: read_policy_file_def bindE_Inr_iff split: sum.splits option.splits if_splits)

text \<open>A load leaves the cache as it is, or caches what the bucket holds.\<close>

lemma load_cache:
  assumes "expiring_keys ops entry" "policy_load lib ops up up' now u a n fs r = (res, r')"
    and "entry r' key = Some (payload, e)" "entry r key \<noteq> Some (payload, e)"
  shows "key = cache_key u a n \<and> e = now + CACHE_TTL_SECONDS \<and> (\<exists>d lp fm. dict_get POLICY_SCHEMA_MAP n = Some d \<and>
    read_policy_file lib u a n d fs = Inr (lp, Some fm) \<and>
    cache_dumps lib (fm, lp_body lp, lp_raw lp, lp_etag lp) = Some payload)"
proof -
  obtain d where d: "dict_get POLICY_SCHEMA_MAP n = Some d"
    using assms(2-4) by (cases "dict_get POLICY_SCHEMA_MAP n") (auto simp: policy_load_def)
  have "cached_policy lib n (if up then kv_get ops now (cache_key u a n) r else None) = None"
    using assms(2-4) d
    by (cases "cached_policy lib n (if up then kv_get ops now (cache_key u a n) r else None)")
      (auto simp: policy_load_def Let_def)
  then obtain lp fo where read: "read_policy_file lib u a n d fs = Inr (lp, fo)"
    "r' = cache_fill lib ops up' now (cache_key u a n) (lp, fo) r"
    using assms(2-4) d by (cases "read_policy_file lib u a n d fs") (auto simp: policy_load_def Let_def)
  then obtain fm payload' where fm: "fo = Some fm"
    "cache_dumps lib (fm, lp_body lp, lp_raw lp, lp_etag lp) = Some payload'"
    "r' = kv_setex ops now (cache_key u a n) CACHE_TTL_SECONDS payload' r"
    using assms(3,4) by (cases fo) (auto simp: cache_fill_def split: option.splits if_splits)
  have "key = cache_key u a n" "payload = payload'" "e = now + CACHE_TTL_SECONDS"
    using assms(3,4) unfolding fm(3) expiring_keys.entry_setex [OF assms(1)] by (simp_all split: if_splits)
  with d read(1) fm(1,2) show ?thesis by blast
qed

lemma fresh_load:
  assumes "expiring_keys ops entry" "cache_fresh lib entry ws w" "no_colon u" "no_colon a" "w \<in> ws"
  shows "cache_fresh lib entry ws
    (w\<lparr>pw_redis := snd (policy_load lib ops up up' (pw_now w) u a n (pw_objects w) (pw_redis w))\<rparr>)"
  unfolding cache_fresh_def
proof (intro conjI allI impI)
  fix key payload e
  obtain res r' where run: "policy_load lib ops up up' (pw_now w) u a n (pw_objects w) (pw_redis w) = (res, r')"
    by fastforce
  assume "entry (pw_redis (w\<lparr>pw_redis := snd (policy_load lib ops up up' (pw_now w) u a n (pw_objects w) (pw_redis w))\<rparr>))
      key = Some (payload, e)"
  then have e: "entry r' key = Some (payload, e)" by (simp add: run)
  show "\<exists>w' \<in> ws. pw_now w' = e - CACHE_TTL_SECONDS \<and> cached_from lib w' key payload"
  proof (cases "entry (pw_redis w) key = Some (payload, e)")
    case True
    with assms(2) show ?thesis by (auto simp: cache_fresh_def)
  next
    case False
    from load_cache [OF assms(1) run e False] assms(3,4)
    have "pw_now w = e - CACHE_TTL_SECONDS \<and> cached_from lib w key payload"
      unfolding cached_from_def by (metis add_diff_cancel_right')
    with assms(5) show ?thesis by blast
  qed
qed (use assms(2) in \<open>simp add: cache_fresh_def\<close>)

lemma fresh_delete:
  assumes "expiring_keys ops entry" "cache_fresh lib entry ws w"
  shows "cache_fresh lib entry ws (w\<lparr>pw_redis := policy_invalidate ops up u a n (pw_redis w)\<rparr>)"
  using assms(2) expiring_keys.entry_delete [OF assms(1)]
  by (auto simp: cache_fresh_def policy_invalidate_def)

lemma fresh_extend:
  "cache_fresh lib entry ws w \<Longrightarrow> pw_now w' = pw_now w \<Longrightarrow> pw_redis w' = pw_redis w \<Longrightarrow> cache_fresh lib entry (insert w' ws) w'"
  by (auto simp: cache_fresh_def)

lemma write_redis:
  assumes "write_policy lib ops up now u a n fm body ver fs r = (res, fs', r')"
  shows "\<exists>r1. (r1 = r \<or> r1 = snd (policy_load lib ops up up now u a n fs r)) \<and>
    (r' = r1 \<or> r' = policy_invalidate ops up u a n r1)"
  using assms by (auto simp: write_policy_def Let_def split: option.splits sum.splits bool.splits prod.splits
      policy_error.splits if_splits)

lemma fresh_step:
  assumes "expiring_keys ops entry" "cache_fresh lib entry ws w" "w \<in> ws" "list_all no_colon (event_ids e)"
  shows "cache_fresh lib entry (insert (policy_step lib ops e w) ws) (policy_step lib ops e w)"
proof (cases e)
  case (LoadEvent up up' u a n)
  let ?w = "policy_step lib ops e w"
  have "cache_fresh lib entry ws ?w"
    using fresh_load [OF assms(1,2) _ _ assms(3)] assms(4) by (simp add: LoadEvent)
  then show ?thesis by (rule fresh_extend) simp_all
next
  case (WriteEvent up u a n fm body ver)
  obtain res fs' r' where run: "write_policy lib ops up (pw_now w) u a n fm body ver (pw_objects w) (pw_redis w) = (res, fs', r')"
    by (cases "write_policy lib ops up (pw_now w) u a n fm body ver (pw_objects w) (pw_redis w)") auto
  obtain r1 where r1: "r1 = pw_redis w \<or> r1 = snd (policy_load lib ops up up (pw_now w) u a n (pw_objects w) (pw_redis w))"
    "r' = r1 \<or> r' = policy_invalidate ops up u a n r1"
    using write_redis [OF run] by blast
  have one: "cache_fresh lib entry ws (w\<lparr>pw_redis := r1\<rparr>)"
    using r1(1) assms(2) fresh_load [OF assms(1,2) _ _ assms(3)] assms(4) by (auto simp: WriteEvent)
  from r1(2) have "cache_fresh lib entry ws (w\<lparr>pw_redis := r'\<rparr>)"
  proof
    assume "r' = policy_invalidate ops up u a n r1"
    with fresh_delete [OF assms(1) one, of up u a n] show ?thesis by simp
  qed (use one in simp)
  then show ?thesis by (rule fresh_extend) (simp_all add: WriteEvent run)
next
  case (ChangeEvent fs)
  from assms(2) show ?thesis by (rule fresh_extend) (simp_all add: ChangeEvent)
next
  case (WaitEvent s)
  have "\<forall>w' \<in> ws. pw_now w' \<le> pw_now w + int s" using assms(2) by (force simp: cache_fresh_def)
  with assms(2) show ?thesis by (auto simp: cache_fresh_def WaitEvent)
qed

lemma fresh_history:
  assumes "expiring_keys ops entry" "cache_fresh lib entry ws w" "w \<in> ws" "\<forall>e \<in> set es. list_all no_colon (event_ids e)"
  shows "cache_fresh lib entry (ws \<union> set (policy_history lib ops es w)) (last (policy_history lib ops es w))"
  using assms(2-4)
proof (induction es arbitrary: ws w)
  case Nil
  then show ?case by (simp add: insert_absorb)
next
  case (Cons e es)
  let ?w = "policy_step lib ops e w"
  have "cache_fresh lib entry (insert ?w ws) ?w" using fresh_step [OF assms(1) Cons.prems(1,2)] Cons.prems(3) by simp
  from Cons.IH [OF this] Cons.prems
  have "cache_fresh lib entry (insert ?w ws \<union> set (policy_history lib ops es ?w)) (last (policy_history lib ops es ?w))"
    by simp
  moreover have "policy_history lib ops es ?w \<noteq> []" by (cases es) auto
  moreover have "?w \<in> set (policy_history lib ops es ?w)" by (cases es) auto
  ultimately show ?case using Cons.prems(2) by (simp add: insert_absorb)
qed

lemma cached_from_read:
  assumes "policy_cache_ok lib" "cached_from lib w (cache_key u a n) payload" "no_colon u" "no_colon a"
    and "dict_get POLICY_SCHEMA_MAP n = Some d" "cached_policy lib n (Some payload) = Some lp"
  shows "\<exists>fm. read_policy_file lib u a n d (pw_objects w) = Inr (lp, fm)"
proof -
  from assms(2) obtain u' a' n' d' lp' fm where c: "cache_key u a n = cache_key u' a' n'" "no_colon u'" "no_colon a'"
    "dict_get POLICY_SCHEMA_MAP n' = Some d'" "read_policy_file lib u' a' n' d' (pw_objects w) = Inr (lp', Some fm)"
    "cache_dumps lib (fm, lp_body lp', lp_raw lp', lp_etag lp') = Some payload"
    unfolding cached_from_def by blast
  have same: "u' = u" "a' = a" "n' = n"
    using cache_key_inj [OF c(1)] c(2,3) assms(3,4) policy_names [OF assms(5)] policy_names [OF c(4)] by auto
  from assms(1) c(6) obtain fm' where fm': "cache_loads lib payload = Some (fm', lp_body lp', lp_raw lp', lp_etag lp')"
    "\<And>name obj. build lib name fm = Some obj \<Longrightarrow> build lib name fm' = Some obj"
    unfolding policy_cache_ok_def by blast
  have "build lib n fm' = Some (schema_obj lp')" "lp_name lp' = n" using fm'(2) read_file_built [OF c(5)] same by auto
  then have "lp = lp'" using assms(6) fm'(1) by (cases lp') (simp add: cached_policy_def)
  with c(4,5) same assms(5) show ?thesis by auto
qed

text \<open>
  Whatever happened before, a load answers with what the bucket holds now or held less
  than 900 seconds ago, for users and agents whose ids have no colon; failing invalidations and
  writes past the API included.
\<close>

theorem policy_staleness_bounded:
  assumes "expiring_keys ops entry" "policy_cache_ok lib" "\<And>k. entry (pw_redis w0) k = None"
    and "\<forall>e \<in> set es. list_all no_colon (event_ids e)" "no_colon u" "no_colon a"
    and "w = last (policy_history lib ops es w0)"
    and "policy_load lib ops up up' (pw_now w) u a n (pw_objects w) (pw_redis w) = (Inr lp, r')"
  shows "\<exists>w' \<in> set (policy_history lib ops es w0). \<exists>d fm. dict_get POLICY_SCHEMA_MAP n = Some d \<and>
    pw_now w - 900 < pw_now w' \<and> pw_now w' \<le> pw_now w \<and> read_policy_file lib u a n d (pw_objects w') = Inr (lp, fm)"
proof -
  let ?ws = "set (policy_history lib ops es w0)"
  have "cache_fresh lib entry {w0} w0" using assms(3) by (simp add: cache_fresh_def)
  moreover have "w0 \<in> ?ws" by (cases es) auto
  ultimately have inv: "cache_fresh lib entry ?ws w"
    using fresh_history [OF assms(1) _ _ assms(4), of lib "{w0}" w0] assms(7) by (simp add: insert_absorb)
  have w: "w \<in> ?ws" unfolding assms(7) by (rule last_in_set) (cases es, auto)
  obtain d where d: "dict_get POLICY_SCHEMA_MAP n = Some d"
    using assms(8) by (cases "dict_get POLICY_SCHEMA_MAP n") (auto simp: policy_load_def)
  let ?cached = "cached_policy lib n (if up then kv_get ops (pw_now w) (cache_key u a n) (pw_redis w) else None)"
  show ?thesis
  proof (cases ?cached)
    case None
    then obtain fm where "read_policy_file lib u a n d (pw_objects w) = Inr (lp, fm)"
      using assms(8) d by (auto simp: policy_load_def Let_def split: sum.splits)
    with w d show ?thesis by force
  next
    case (Some hit)
    with assms(8) d have hit: "?cached = Some lp" by (simp add: policy_load_def Let_def)
    then obtain payload where "kv_get ops (pw_now w) (cache_key u a n) (pw_redis w) = Some payload"
      and p: "cached_policy lib n (Some payload) = Some lp"
      by (cases "if up then kv_get ops (pw_now w) (cache_key u a n) (pw_redis w) else None")
        (auto simp: cached_policy_def split: if_splits)
    then obtain e where e: "entry (pw_redis w) (cache_key u a n) = Some (payload, e)" "pw_now w < e"
      using expiring_keys.get_live [OF assms(1)] by (auto split: option.splits if_splits)
    with inv obtain w' where w': "w' \<in> ?ws" "pw_now w' = e - CACHE_TTL_SECONDS" "pw_now w' \<le> pw_now w"
      "cached_from lib w' (cache_key u a n) payload" by (fastforce simp: cache_fresh_def)
    then obtain fm where "read_policy_file lib u a n d (pw_objects w') = Inr (lp, fm)"
      using cached_from_read [OF assms(2) _ assms(5,6) d p] by blast
    with w'(2,3) d e(2) show ?thesis
      by (intro bexI [OF _ w'(1)] exI [of _ d] exI [of _ fm]) (simp add: CACHE_TTL_SECONDS_def)
  qed
qed

text \<open>The key of the cache does not tell the ids apart: two users can share an entry.\<close>

lemma cache_key_shared: "cache_key ''u'' ''x:a'' n = cache_key ''u:x'' ''a'' n"
  by (simp add: cache_key_def)

text \<open>
  Tenants are not separated in the cache. Where an id has a colon, the load of one user's
  policy answers with the cached policy of another user, whatever the bucket holds for the first.
\<close>

theorem policy_cache_crosses_users:
  assumes "expiring_keys ops entry" "policy_cache_ok lib" "dict_get POLICY_SCHEMA_MAP n = Some d"
    and "cache_key u a n = cache_key u' a' n" "read_policy_file lib u' a' n d fs = Inr (lp, Some fm)"
    and "cache_dumps lib (fm, lp_body lp, lp_raw lp, lp_etag lp) = Some payload"
    and "policy_load lib ops False True now u' a' n fs r = (Inr lp, r')" "now' < now + 900"
  shows "policy_load lib ops True up now' u a n fs' r' = (Inr lp, r')"
proof -
  have "r' = kv_setex ops now (cache_key u a n) CACHE_TTL_SECONDS payload r"
    using assms(3-7) by (simp add: policy_load_def cached_policy_def cache_fill_def Let_def)
  then have got: "kv_get ops now' (cache_key u a n) r' = Some payload"
    using expiring_keys.get_setex [OF assms(1)] assms(8) by (simp add: CACHE_TTL_SECONDS_def)
  from assms(2,6) obtain fm' where fm': "cache_loads lib payload = Some (fm', lp_body lp, lp_raw lp, lp_etag lp)"
    "build lib n fm' = Some (schema_obj lp)"
    using read_file_built [OF assms(5)] unfolding policy_cache_ok_def by blast
  then have "cached_policy lib n (Some payload) = Some lp"
    using read_file_built [OF assms(5)] by (cases lp) (simp add: cached_policy_def)
  then show ?thesis using assms(3) got by (simp add: policy_load_def Let_def)
qed

subsection \<open>A small library\<close>

definition demo_lib :: "unit policy_lib" where
  "demo_lib = \<lparr>decode_utf8 = (\<lambda>s. s), encode_utf8 = (\<lambda>s. s), safe_load = (\<lambda>s. Some ()),
     yaml_dump = (\<lambda>_. ''tone: casual'' @ [newline]), build = (\<lambda>name _. dict_get POLICY_SCHEMA_MAP name),
     no_fields = (), md5 = (\<lambda>s. ''''),
     cache_dumps = (\<lambda>(_, body, raw, etag). if body = '''' \<and> etag = '''' then Some raw else None),
     cache_loads = (\<lambda>s. Some ((), '''', s, ''''))\<rparr>"

definition demo_file :: string where
  "demo_file = fence @ [newline] @ ''tone: casual'' @ [newline] @ fence @ [newline]"

definition demo_policy :: LoadedPolicy where
  "demo_policy = \<lparr>lp_name = ''reply_tone'', schema_obj = ReplyToneObj \<lparr>rp_fail_mode = FailMode.DEGRADED,
     voice = ''neutral'', brevity = ''medium'', emoji_allowed = False\<rparr>, lp_body = '''', lp_raw = demo_file, lp_etag = ''''\<rparr>"

definition policy_file_path :: string where
  "policy_file_path = ''u1/agents/a1/policies/reply_tone.md''"

lemma demo_cache_ok: "policy_cache_ok demo_lib"
  by (auto simp: policy_cache_ok_def demo_lib_def split: if_splits)

lemma demo_yaml_ok: "yaml_ok demo_lib fm"
  by (auto simp: yaml_ok_def demo_lib_def closing_fence_def fence_def newline_def starts_with_def)

lemma demo_path: "agent_policy ''u1'' ''a1'' ''reply_tone'' = Inr policy_file_path"
  by code_simp

lemma demo_read: "read_policy_file demo_lib ''u1'' ''a1'' ''reply_tone'' d [policy_file_path \<mapsto> demo_file] = Inr (demo_policy, Some ())"
  unfolding read_policy_file_def demo_path by code_simp

lemma demo_written: "fst (write_policy demo_lib mem_kv True 0 ''u1'' ''a1'' ''reply_tone'' () '''' None Map.empty []) = Inr ''''"
  by code_simp


text \<open>The file is gone and nobody invalidated: ten minutes later the cached policy still answers.\<close>

definition stale_events :: "unit policy_event list" where
  "stale_events = [LoadEvent True True ''u1'' ''a1'' ''reply_tone'', ChangeEvent Map.empty, WaitEvent 600]"

definition stale_start :: "mem_keys policy_world" where
  "stale_start = \<lparr>pw_now = 0, pw_objects = [policy_file_path \<mapsto> demo_file], pw_redis = []\<rparr>"

lemma demo_map: "dict_get POLICY_SCHEMA_MAP ''reply_tone'' = Some (schema_obj demo_policy)"
  by (simp add: POLICY_SCHEMA_MAP_def demo_policy_def dict_simps)

lemma demo_first_load:
  "policy_load demo_lib mem_kv up True now ''u1'' ''a1'' ''reply_tone'' [policy_file_path \<mapsto> demo_file] [] =
    (Inr demo_policy, [(cache_key ''u1'' ''a1'' ''reply_tone'', (demo_file, now + 900))])"
  unfolding policy_load_def demo_map
  by (simp add: demo_read cached_policy_def mem_kv_def dict_simps cache_fill_def Let_def)
    (simp add: demo_lib_def demo_policy_def CACHE_TTL_SECONDS_def dict_set_def)

lemma stale_last: "last (policy_history demo_lib mem_kv stale_events stale_start) =
    \<lparr>pw_now = 600, pw_objects = Map.empty, pw_redis = [(cache_key ''u1'' ''a1'' ''reply_tone'', (demo_file, 900))]\<rparr>"
  by (simp add: stale_events_def stale_start_def demo_first_load)

lemma demo_hit:
  assumes "now < 900"
  shows "policy_load demo_lib mem_kv True up now ''u1'' ''a1'' ''reply_tone'' fs
    [(cache_key ''u1'' ''a1'' ''reply_tone'', (demo_file, 900))] =
    (Inr demo_policy, [(cache_key ''u1'' ''a1'' ''reply_tone'', (demo_file, 900))])"
  unfolding policy_load_def demo_map
  using assms by (simp add: cached_policy_def mem_kv_def dict_simps Let_def)
    (simp add: demo_lib_def POLICY_SCHEMA_MAP_def demo_policy_def dict_simps)

theorem policy_staleness_bounded_witness:
  "\<exists>w' \<in> set (policy_history demo_lib mem_kv stale_events stale_start). \<exists>d fm.
     - 300 < pw_now w' \<and> pw_now w' \<le> 600 \<and>
     read_policy_file demo_lib ''u1'' ''a1'' ''reply_tone'' d (pw_objects w') = Inr (demo_policy, fm)"
proof -
  have "\<forall>e \<in> set stale_events. list_all no_colon (event_ids e)" "no_colon ''u1''" "no_colon ''a1''"
    by (simp_all add: stale_events_def no_colon_def)
  moreover have "dict_get (pw_redis stale_start) k = None" for k by (simp add: stale_start_def dict_simps)
  ultimately show ?thesis
    using policy_staleness_bounded [OF mem_keys.expiring_keys_axioms demo_cache_ok _ _ _ _ stale_last [symmetric],
        where up = True and up' = True and u = "''u1''" and a = "''a1''" and n = "''reply_tone''"
          and lp = demo_policy and r' = "[(cache_key ''u1'' ''a1'' ''reply_tone'', (demo_file, 900))]"]
      demo_hit [of 600] by fastforce
qed

definition other_path :: string where
  "other_path = ''u1:x/agents/a1/policies/reply_tone.md''"

lemma other_read: "read_policy_file demo_lib ''u1:x'' ''a1'' ''reply_tone'' d [other_path \<mapsto> demo_file] = Inr (demo_policy, Some ())"
proof -
  have "agent_policy ''u1:x'' ''a1'' ''reply_tone'' = Inr other_path" by code_simp
  then show ?thesis unfolding read_policy_file_def by simp code_simp
qed

lemma other_first_load:
  "policy_load demo_lib mem_kv up True now ''u1:x'' ''a1'' ''reply_tone'' [other_path \<mapsto> demo_file] [] =
    (Inr demo_policy, [(cache_key ''u1:x'' ''a1'' ''reply_tone'', (demo_file, now + 900))])"
  unfolding policy_load_def demo_map
  by (simp add: other_read cached_policy_def mem_kv_def dict_simps cache_fill_def Let_def)
    (simp add: demo_lib_def demo_policy_def CACHE_TTL_SECONDS_def dict_set_def)

theorem policy_cache_crosses_users_witness:
  "fst (policy_load demo_lib mem_kv True True 5 ''u1'' ''x:a1'' ''reply_tone'' Map.empty
     (snd (policy_load demo_lib mem_kv False True 0 ''u1:x'' ''a1'' ''reply_tone'' [other_path \<mapsto> demo_file] []))) =
     Inr demo_policy"
proof -
  have "cache_key ''u1'' ''x:a1'' ''reply_tone'' = cache_key ''u1:x'' ''a1'' ''reply_tone''"
    by (simp add: cache_key_def)
  from policy_cache_crosses_users [OF mem_keys.expiring_keys_axioms demo_cache_ok demo_map this other_read _
      other_first_load [of False 0], of demo_file 5 True Map.empty]
  show ?thesis unfolding other_first_load by (simp add: demo_lib_def demo_policy_def)
qed

end
