(* ===== verification/GC_Inbound.thy ===== *)
theory GC_Inbound
  imports GC_Redis GC_Enums
begin

section \<open>Inbound routing (\<open>inbound/router.py\<close>, \<open>inbound/reply_keys.py\<close>, \<open>gateway/agent_channel_identity.py\<close>)\<close>

text \<open>
  A message that arrives is traced to the owner of the account that received it and classified:
  the owner's own chat, the reply of a counterparty to something the agent sent, an unsolicited
  message of a counterparty, or a stranger. Reply keys are kept twice, in Redis with a time to
  live and in the Postgres table \<open>reply_lineage\<close>, a dict with the key (channel, thread) as its
  SQL says. Whether a service answers a call is an argument.
\<close>

subsection \<open>Reply keys\<close>

definition REDIS_REPLY_KEY_TTL_SECONDS :: int where
  "REDIS_REPLY_KEY_TTL_SECONDS = 7 * 24 * 60 * 60"

record ReplyKeyRecord =
  rk_task_id :: "string option"
  rk_counterparty_id :: string
  rk_user_id :: string
  rk_channel :: string
  rk_thread_id :: string
  rk_checkin_id :: string
  rk_created_at :: string

text \<open>\<open>to_json\<close> and \<open>from_json\<close> of the record; the second is \<open>None\<close> where it raises.\<close>

record reply_json =
  rk_to_json :: "ReplyKeyRecord \<Rightarrow> string"
  rk_from_json :: "string \<Rightarrow> ReplyKeyRecord option"

type_synonym lineage = "((string \<times> string) \<times> ReplyKeyRecord) list"

definition redis_key :: "string \<Rightarrow> string \<Rightarrow> string \<Rightarrow> string" where
  "redis_key channel thread_id msg_id = ''checkin:'' @ channel @ '':'' @ thread_id @ '':'' @ msg_id"

text \<open>\<open>ON CONFLICT DO UPDATE\<close> sets four columns; the user of the first record stays.\<close>

definition lineage_upsert :: "ReplyKeyRecord \<Rightarrow> lineage \<Rightarrow> lineage" where
  "lineage_upsert rec t =
     (let key = (rk_channel rec, rk_thread_id rec)
      in AList.update key (case map_of t key of
           None \<Rightarrow> rec
         | Some old \<Rightarrow> old\<lparr>rk_task_id := rk_task_id rec, rk_counterparty_id := rk_counterparty_id rec,
             rk_checkin_id := rk_checkin_id rec, rk_created_at := rk_created_at rec\<rparr>) t)"

text \<open>\<open>redis\<close> and \<open>db\<close> tell whether the store is there and answers this call.\<close>

definition reply_write :: "'r redis_kv \<Rightarrow> reply_json \<Rightarrow> bool \<Rightarrow> bool \<Rightarrow> int \<Rightarrow> ReplyKeyRecord \<Rightarrow> string \<Rightarrow>
    'r \<times> lineage \<Rightarrow> 'r \<times> lineage" where
  "reply_write ops js redis db now rec msg_id = (\<lambda>(r, t).
     let msg = (if msg_id = '''' then rk_checkin_id rec else msg_id);
         key = redis_key (rk_channel rec) (rk_thread_id rec) msg;
         r' = (if redis then kv_setex ops now key REDIS_REPLY_KEY_TTL_SECONDS (rk_to_json js rec) r else r);
         t' = (if db then lineage_upsert rec t else t)
     in (r', t'))"

definition read_from_redis :: "'r redis_kv \<Rightarrow> reply_json \<Rightarrow> bool \<Rightarrow> int \<Rightarrow> string \<Rightarrow> string \<Rightarrow> string \<Rightarrow> 'r \<Rightarrow>
    ReplyKeyRecord option" where
  "read_from_redis ops js redis now channel thread_id msg_id r =
     (if redis then Option.bind (kv_get ops now (redis_key channel thread_id msg_id) r) (rk_from_json js) else None)"

definition read_from_db :: "bool \<Rightarrow> string \<Rightarrow> string \<Rightarrow> lineage \<Rightarrow> ReplyKeyRecord option" where
  "read_from_db db channel thread_id t = (if db then map_of t (channel, thread_id) else None)"

subsection \<open>The registry of receiving accounts\<close>

record AgentChannelIdentity =
  ai_user_id :: string
  ai_agent_id :: string
  ai_channel :: string
  ai_account_id :: string
  ai_display_name :: string
  ai_credentials_ref :: string
  ai_active :: bool
  ai_owner_identities :: "string list"

type_synonym registry = "((string \<times> string) \<times> AgentChannelIdentity) list"

definition registry_add :: "AgentChannelIdentity \<Rightarrow> registry \<Rightarrow> registry" where
  "registry_add e reg = AList.update (ai_channel e, ai_account_id e) e reg"

definition registry_remove :: "string \<Rightarrow> string \<Rightarrow> registry \<Rightarrow> registry" where
  "registry_remove channel account_id reg = AList.delete (channel, account_id) reg"

definition load_from_list :: "AgentChannelIdentity list \<Rightarrow> registry" where
  "load_from_list entries = fold registry_add entries []"

definition registry_lookup :: "string \<Rightarrow> string \<Rightarrow> registry \<Rightarrow> AgentChannelIdentity option" where
  "registry_lookup channel account_id reg = (case map_of reg (channel, account_id) of
     None \<Rightarrow> None | Some e \<Rightarrow> if \<not> ai_active e then None else Some e)"

fun is_owner_identity :: "string \<Rightarrow> string \<Rightarrow> string \<Rightarrow> AgentChannelIdentity list \<Rightarrow> bool" where
  "is_owner_identity user_id channel sender_id [] = False"
| "is_owner_identity user_id channel sender_id (e # es) =
     (if ai_user_id e \<noteq> user_id \<or> ai_channel e \<noteq> channel then is_owner_identity user_id channel sender_id es
      else if sender_id \<in> set (ai_owner_identities e) then True
      else if ai_account_id e = sender_id then True
      else is_owner_identity user_id channel sender_id es)"

definition all_entries :: "registry \<Rightarrow> AgentChannelIdentity list" where
  "all_entries reg = map snd reg"

subsection \<open>The router\<close>

datatype InboundRoute = USER_CHAT | COUNTERPARTY_REPLY | COUNTERPARTY_PROACTIVE | UNKNOWN_PARTY | DROP

fun InboundRoute_value :: "InboundRoute \<Rightarrow> string" where
  "InboundRoute_value USER_CHAT = ''user_chat''"
| "InboundRoute_value COUNTERPARTY_REPLY = ''counterparty_reply''"
| "InboundRoute_value COUNTERPARTY_PROACTIVE = ''counterparty_proactive''"
| "InboundRoute_value UNKNOWN_PARTY = ''unknown_party''"
| "InboundRoute_value DROP = ''drop''"

definition InboundRoute_members :: "InboundRoute list" where
  "InboundRoute_members = [USER_CHAT, COUNTERPARTY_REPLY, COUNTERPARTY_PROACTIVE, UNKNOWN_PARTY, DROP]"

interpretation inbound_route_enum: str_enum InboundRoute_members InboundRoute_value
proof
  show "e \<in> set InboundRoute_members" for e by (cases e) (simp_all add: InboundRoute_members_def)
qed (simp add: InboundRoute_members_def)

record RouteDecision =
  rd_route :: InboundRoute
  rd_owner_user_id :: string
  rd_agent_id :: string
  rd_counterparty_node_id :: string
  rd_thread_id :: string
  rd_channel :: string

text \<open>
  The collaborators of the router, each of which may be missing: the registry; the resolver, of
  which an answer \<open>None\<close> stands for no match and for an exception alike; the reply keys.
\<close>

record 'r router =
  ro_registry :: "registry option"
  ro_resolver :: "(string \<Rightarrow> string \<Rightarrow> string \<Rightarrow> string option) option"
  ro_reply_keys :: "('r redis_kv \<times> reply_json \<times> bool \<times> bool) option"

definition resolve_owner :: "'r router \<Rightarrow> string \<Rightarrow> string \<Rightarrow> string \<times> string" where
  "resolve_owner ro receiving_account channel = (case ro_registry ro of
     None \<Rightarrow> ('''', '''')
   | Some reg \<Rightarrow> (case registry_lookup channel receiving_account reg of
       None \<Rightarrow> ('''', '''') | Some e \<Rightarrow> (ai_user_id e, ai_agent_id e)))"

definition is_owner :: "'r router \<Rightarrow> string \<Rightarrow> string \<Rightarrow> string \<Rightarrow> bool" where
  "is_owner ro sender_id channel owner_user_id = (case ro_registry ro of
     None \<Rightarrow> False | Some reg \<Rightarrow> is_owner_identity owner_user_id channel sender_id (all_entries reg))"

definition resolve_counterparty :: "'r router \<Rightarrow> string \<Rightarrow> string \<Rightarrow> string \<Rightarrow> string" where
  "resolve_counterparty ro channel sender_id owner_user_id = (case ro_resolver ro of
     None \<Rightarrow> ''''
   | Some res \<Rightarrow> (case res channel sender_id owner_user_id of None \<Rightarrow> '''' | Some n \<Rightarrow> n))"

definition has_reply_key :: "'r router \<Rightarrow> int \<Rightarrow> string \<Rightarrow> string \<Rightarrow> string \<Rightarrow> 'r \<times> lineage \<Rightarrow> bool" where
  "has_reply_key ro now channel thread_id msg_id rt = (case ro_reply_keys ro of
     None \<Rightarrow> False
   | Some (ops, js, redis, db) \<Rightarrow>
       if thread_id = '''' then False
       else if read_from_redis ops js redis now channel thread_id msg_id (fst rt) \<noteq> None then True
       else read_from_db db channel thread_id (snd rt) \<noteq> None)"

definition classify :: "'r router \<Rightarrow> int \<Rightarrow> string \<Rightarrow> string \<Rightarrow> string \<Rightarrow> string \<Rightarrow> string \<Rightarrow> 'r \<times> lineage \<Rightarrow> RouteDecision" where
  "classify ro now channel sender_id receiving_account thread_id msg_id rt =
     (let (owner, agent) = resolve_owner ro receiving_account channel
      in if owner = '''' then \<lparr>rd_route = DROP, rd_owner_user_id = '''', rd_agent_id = '''',
           rd_counterparty_node_id = '''', rd_thread_id = thread_id, rd_channel = channel\<rparr>
      else if is_owner ro sender_id channel owner then \<lparr>rd_route = USER_CHAT, rd_owner_user_id = owner,
           rd_agent_id = agent, rd_counterparty_node_id = '''', rd_thread_id = thread_id, rd_channel = channel\<rparr>
      else let counterparty = resolve_counterparty ro channel sender_id owner
      in if counterparty = '''' then \<lparr>rd_route = UNKNOWN_PARTY, rd_owner_user_id = owner, rd_agent_id = agent,
           rd_counterparty_node_id = '''', rd_thread_id = thread_id, rd_channel = channel\<rparr>
      else \<lparr>rd_route = (if has_reply_key ro now channel thread_id msg_id rt then COUNTERPARTY_REPLY
             else COUNTERPARTY_PROACTIVE),
           rd_owner_user_id = owner, rd_agent_id = agent, rd_counterparty_node_id = counterparty,
           rd_thread_id = thread_id, rd_channel = channel\<rparr>)"

subsection \<open>The registry as a map\<close>

text \<open>Every entry stands under its own channel and account, each pair once.\<close>

definition accounts_ok :: "registry \<Rightarrow> bool" where
  "accounts_ok reg \<longleftrightarrow> distinct (map fst reg) \<and> (\<forall>(k, e) \<in> set reg. k = (ai_channel e, ai_account_id e))"

inductive registry_reach :: "registry \<Rightarrow> bool" where
  loaded: "registry_reach (load_from_list es)"
| added: "registry_reach reg \<Longrightarrow> registry_reach (registry_add e reg)"
| removed: "registry_reach reg \<Longrightarrow> registry_reach (registry_remove c a reg)"

lemma set_update_mem: "x \<in> set (AList.update k v xs) \<Longrightarrow> x = (k, v) \<or> x \<in> set xs"
  by (induction xs) (auto split: if_splits)

lemma add_accounts_ok: "accounts_ok reg \<Longrightarrow> accounts_ok (registry_add e reg)"
  by (auto simp: accounts_ok_def registry_add_def distinct_update dest!: set_update_mem)

lemma remove_accounts_ok: "accounts_ok reg \<Longrightarrow> accounts_ok (registry_remove c a reg)"
  using distinct_delete [of reg "(c, a)"] by (auto simp: accounts_ok_def registry_remove_def AList.delete_eq)

lemma fold_accounts_ok: "accounts_ok reg \<Longrightarrow> accounts_ok (fold registry_add es reg)"
  by (induction es arbitrary: reg) (auto simp: add_accounts_ok)

lemma reach_accounts_ok: "registry_reach reg \<Longrightarrow> accounts_ok reg"
proof (induction rule: registry_reach.induct)
  case (loaded es)
  have "accounts_ok []" by (simp add: accounts_ok_def)
  then show ?case unfolding load_from_list_def by (rule fold_accounts_ok)
qed (simp_all add: add_accounts_ok remove_accounts_ok)

lemma is_owner_identity_iff:
  "is_owner_identity u c s es \<longleftrightarrow>
    (\<exists>e \<in> set es. ai_user_id e = u \<and> ai_channel e = c \<and> (s \<in> set (ai_owner_identities e) \<or> ai_account_id e = s))"
  by (induction es) auto

lemma accounts_get: "accounts_ok reg \<Longrightarrow> map_of reg (c, a) = Some e \<longleftrightarrow>
    e \<in> set (all_entries reg) \<and> ai_channel e = c \<and> ai_account_id e = a"
proof -
  assume ok: "accounts_ok reg"
  then have "map_of reg (c, a) = Some e \<longleftrightarrow> ((c, a), e) \<in> set reg"
    by (simp add: accounts_ok_def)
  also have "\<dots> \<longleftrightarrow> e \<in> set (all_entries reg) \<and> ai_channel e = c \<and> ai_account_id e = a"
  proof
    assume "((c, a), e) \<in> set reg"
    with ok show "e \<in> set (all_entries reg) \<and> ai_channel e = c \<and> ai_account_id e = a"
      unfolding accounts_ok_def all_entries_def by (metis (mono_tags, lifting) case_prodD image_eqI prod.inject set_map snd_conv)
  next
    assume e: "e \<in> set (all_entries reg) \<and> ai_channel e = c \<and> ai_account_id e = a"
    then obtain k where "(k, e) \<in> set reg" by (auto simp: all_entries_def)
    moreover from this ok have "k = (ai_channel e, ai_account_id e)" by (auto simp: accounts_ok_def)
    ultimately show "((c, a), e) \<in> set reg" using e by simp
  qed
  finally show "map_of reg (c, a) = Some e \<longleftrightarrow> e \<in> set (all_entries reg) \<and> ai_channel e = c \<and> ai_account_id e = a" .
qed


subsection \<open>Classification\<close>

text \<open>The entry that receives for an account, and the senders that count as its owner.\<close>

definition serves :: "registry \<Rightarrow> string \<Rightarrow> string \<Rightarrow> AgentChannelIdentity \<Rightarrow> bool" where
  "serves reg channel account e \<longleftrightarrow> e \<in> set (all_entries reg) \<and> ai_channel e = channel \<and>
     ai_account_id e = account \<and> ai_active e \<and> ai_user_id e \<noteq> []"

definition owners_sender :: "registry \<Rightarrow> string \<Rightarrow> string \<Rightarrow> string \<Rightarrow> bool" where
  "owners_sender reg user channel sender \<longleftrightarrow> (\<exists>e \<in> set (all_entries reg). ai_user_id e = user \<and>
     ai_channel e = channel \<and> (sender \<in> set (ai_owner_identities e) \<or> ai_account_id e = sender))"

lemma resolve_owner_serves:
  assumes "ro_registry ro = Some reg" "registry_reach reg"
  shows "fst (resolve_owner ro account channel) = [] \<longleftrightarrow> \<not> (\<exists>e. serves reg channel account e)"
    and "serves reg channel account e \<Longrightarrow> resolve_owner ro account channel = (ai_user_id e, ai_agent_id e)"
proof -
  note get = accounts_get [OF reach_accounts_ok [OF assms(2)], of channel account]
  show "fst (resolve_owner ro account channel) = [] \<longleftrightarrow> \<not> (\<exists>e. serves reg channel account e)"
  proof (cases "map_of reg (channel, account)")
    case None
    then have "\<not> serves reg channel account e" for e using get [of e] by (auto simp: serves_def)
    with None assms(1) show ?thesis by (simp add: resolve_owner_def registry_lookup_def)
  next
    case (Some e)
    then have "serves reg channel account e' \<longleftrightarrow> e' = e \<and> ai_active e \<and> ai_user_id e \<noteq> []" for e'
      using get [of e] get [of e'] by (auto simp: serves_def)
    with Some assms(1) show ?thesis by (simp add: resolve_owner_def registry_lookup_def)
  qed
  show "serves reg channel account e \<Longrightarrow> resolve_owner ro account channel = (ai_user_id e, ai_agent_id e)"
    using get [of e] assms(1) by (simp add: resolve_owner_def registry_lookup_def serves_def)
qed

text \<open>
  A message is dropped exactly when no active entry receives for the account; otherwise
  it goes to the user and the agent of that entry, as the owner's chat exactly when the sender is
  an identity or account of that user on the channel, as a stranger's when nobody resolves the
  sender, and as a reply exactly when a reply key is found on the thread.
\<close>

theorem classify_exact:
  assumes "ro_registry ro = Some reg" "registry_reach reg"
    and "d = classify ro now channel sender account thread msg rt"
  shows "(rd_route d = DROP \<longleftrightarrow> \<not> (\<exists>e. serves reg channel account e)) \<and>
    (\<forall>e. serves reg channel account e \<longrightarrow>
      rd_owner_user_id d = ai_user_id e \<and> rd_agent_id d = ai_agent_id e \<and>
      (rd_route d = USER_CHAT \<longleftrightarrow> owners_sender reg (ai_user_id e) channel sender) \<and>
      (rd_route d = UNKNOWN_PARTY \<longleftrightarrow> \<not> owners_sender reg (ai_user_id e) channel sender \<and>
         resolve_counterparty ro channel sender (ai_user_id e) = []) \<and>
      (rd_route d = COUNTERPARTY_REPLY \<longleftrightarrow> \<not> owners_sender reg (ai_user_id e) channel sender \<and>
         resolve_counterparty ro channel sender (ai_user_id e) \<noteq> [] \<and> has_reply_key ro now channel thread msg rt) \<and>
      (rd_counterparty_node_id d \<noteq> [] \<longrightarrow>
         rd_counterparty_node_id d = resolve_counterparty ro channel sender (ai_user_id e)))"
proof (intro conjI allI impI)
  note owner = resolve_owner_serves [OF assms(1,2), where account = account and channel = channel]
  have who: "is_owner ro sender channel u = owners_sender reg u channel sender" for u
    using assms(1) by (simp add: is_owner_def is_owner_identity_iff owners_sender_def)
  show "rd_route d = DROP \<longleftrightarrow> \<not> (\<exists>e. serves reg channel account e)"
    using owner(1) by (auto simp: assms(3) classify_def Let_def split: prod.splits)
  fix e assume s: "serves reg channel account e"
  then have "ai_user_id e \<noteq> []" by (simp add: serves_def)
  with owner(2) [OF s] have d: "d = (if owners_sender reg (ai_user_id e) channel sender
      then \<lparr>rd_route = USER_CHAT, rd_owner_user_id = ai_user_id e, rd_agent_id = ai_agent_id e,
        rd_counterparty_node_id = [], rd_thread_id = thread, rd_channel = channel\<rparr>
      else if resolve_counterparty ro channel sender (ai_user_id e) = []
      then \<lparr>rd_route = UNKNOWN_PARTY, rd_owner_user_id = ai_user_id e, rd_agent_id = ai_agent_id e,
        rd_counterparty_node_id = [], rd_thread_id = thread, rd_channel = channel\<rparr>
      else \<lparr>rd_route = (if has_reply_key ro now channel thread msg rt then COUNTERPARTY_REPLY else COUNTERPARTY_PROACTIVE),
        rd_owner_user_id = ai_user_id e, rd_agent_id = ai_agent_id e,
        rd_counterparty_node_id = resolve_counterparty ro channel sender (ai_user_id e),
        rd_thread_id = thread, rd_channel = channel\<rparr>)"
    by (simp add: assms(3) classify_def who Let_def)
  show "rd_owner_user_id d = ai_user_id e" "rd_agent_id d = ai_agent_id e"
    "rd_route d = USER_CHAT \<longleftrightarrow> owners_sender reg (ai_user_id e) channel sender"
    "rd_route d = UNKNOWN_PARTY \<longleftrightarrow> \<not> owners_sender reg (ai_user_id e) channel sender \<and>
       resolve_counterparty ro channel sender (ai_user_id e) = []"
    "rd_route d = COUNTERPARTY_REPLY \<longleftrightarrow> \<not> owners_sender reg (ai_user_id e) channel sender \<and>
       resolve_counterparty ro channel sender (ai_user_id e) \<noteq> [] \<and> has_reply_key ro now channel thread msg rt"
    "rd_counterparty_node_id d \<noteq> [] \<Longrightarrow>
       rd_counterparty_node_id d = resolve_counterparty ro channel sender (ai_user_id e)"
    by (simp_all add: d split: if_splits)
qed


definition support_box :: AgentChannelIdentity where
  "support_box = \<lparr>ai_user_id = ''USER-a'', ai_agent_id = ''agent'', ai_channel = ''email'',
     ai_account_id = ''box@x'', ai_display_name = [], ai_credentials_ref = [], ai_active = True,
     ai_owner_identities = [''me@x'']\<rparr>"

definition demo_router :: "mem_keys router" where
  "demo_router = \<lparr>ro_registry = Some (load_from_list [support_box]),
     ro_resolver = Some (\<lambda>_ s _. if s = ''bob@y'' then Some ''RES-b'' else None), ro_reply_keys = None\<rparr>"

theorem classify_exact_witness:
  "rd_route (classify demo_router 0 ''email'' ''me@x'' ''box@x'' ''t'' ''m'' ([], [])) = USER_CHAT \<and>
   rd_owner_user_id (classify demo_router 0 ''email'' ''bob@y'' ''box@x'' ''t'' ''m'' ([], [])) = ''USER-a''"
proof -
  have reg: "ro_registry demo_router = Some (load_from_list [support_box])" by (simp add: demo_router_def)
  have "serves (load_from_list [support_box]) ''email'' ''box@x'' support_box"
    "owners_sender (load_from_list [support_box]) (ai_user_id support_box) ''email'' ''me@x''"
    by (simp_all add: serves_def owners_sender_def load_from_list_def registry_add_def all_entries_def support_box_def)
  with classify_exact [OF reg loaded refl, where channel = "''email''" and account = "''box@x''"]
  show ?thesis by (metis AgentChannelIdentity.select_convs(1) support_box_def)
qed

subsection \<open>Reply keys are found again\<close>

lemma redis_after_write:
  assumes "expiring_keys ops entry" "rk_from_json js (rk_to_json js rec) = Some rec"
    and "reply_write ops js True db now rec msg (r, t) = (r', t')"
    and "now' < now + REDIS_REPLY_KEY_TTL_SECONDS" "m = (if msg = [] then rk_checkin_id rec else msg)"
  shows "read_from_redis ops js True now' (rk_channel rec) (rk_thread_id rec) m r' = Some rec"
  using assms(2-5) expiring_keys.get_setex [OF assms(1)]
  by (auto simp: reply_write_def read_from_redis_def Let_def)

lemma db_after_write:
  assumes "reply_write ops js redis True now rec msg (r, t) = (r', t')"
  shows "\<exists>rec'. read_from_db True c th t' = (if (c, th) = (rk_channel rec, rk_thread_id rec) then Some rec' else map_of t (c, th)) \<and>
    rk_task_id rec' = rk_task_id rec \<and> rk_counterparty_id rec' = rk_counterparty_id rec"
proof -
  have t': "t' = lineage_upsert rec t" using assms by (simp add: reply_write_def Let_def)
  show ?thesis
    unfolding t' read_from_db_def lineage_upsert_def Let_def
    by (cases "map_of t (rk_channel rec, rk_thread_id rec)") (auto simp: update_conv')
qed

text \<open>A thread written again for another user keeps the user of the first record.\<close>

lemma lineage_keeps_first_user:
  "map_of t (rk_channel rec, rk_thread_id rec) = Some old \<Longrightarrow>
    \<exists>new. map_of (lineage_upsert rec t) (rk_channel rec, rk_thread_id rec) = Some new \<and> rk_user_id new = rk_user_id old \<and>
      rk_counterparty_id new = rk_counterparty_id rec"
  by (simp add: lineage_upsert_def Let_def update_conv')

text \<open>The key of a message in Redis does not tell thread and message apart.\<close>

lemma redis_key_shared: "redis_key c ''t:a'' ''m'' = redis_key c ''t'' ''a:m''"
  by (simp add: redis_key_def)

end
