(* ===== verification/GC_Outbound.thy ===== *)
theory GC_Outbound
  imports GC_Policy GC_Inbound GC_StoreLaws
begin

section \<open>Outbound messages (\<open>agent/outbound.py\<close>)\<close>

text \<open>
  \<open>OutboundDispatcher\<close> hands a message to a channel adapter or to the broker;
  \<open>OutboundCommunicationAgent\<close> puts the delegation policy before it and, after it, the check-in
  node, the reply key and a line of intelligence on the task. Adapters and broker are functions
  that tell whether they take a delivery; the store, the policy cache and the reply keys are
  those of the other theories. The arrow of the intelligence line stands as its UTF-8 bytes.
\<close>

subsection \<open>The dispatcher\<close>

datatype delivery =
    EmailSent string string string "string option"
  | TelegramSent string string
  | EmailQueued string string string "string option"
  | TelegramQueued string string

text \<open>\<open>None\<close> where the adapter is missing; a delivery it does not take raises.\<close>

record dispatcher =
  d_email :: "(delivery \<Rightarrow> bool) option"
  d_telegram :: "(delivery \<Rightarrow> bool) option"
  d_broker :: "(delivery \<Rightarrow> bool) option"

definition takes :: "(delivery \<Rightarrow> bool) option \<Rightarrow> delivery \<Rightarrow> bool" where
  "takes adapter d = (case adapter of None \<Rightarrow> False | Some ok \<Rightarrow> ok d)"

datatype dispatch_error = BrokerError

type_synonym 'a dispatch = "(delivery list, dispatch_error, 'a) io"

definition broker_publish :: "(delivery \<Rightarrow> bool) option \<Rightarrow> delivery \<Rightarrow> unit dispatch" where
  "broker_publish broker d = (\<lambda>out. case broker of
     None \<Rightarrow> (Inr (), out)
   | Some ok \<Rightarrow> if ok d then (Inr (), out @ [d]) else (Inl BrokerError, out))"

definition send_email :: "dispatcher \<Rightarrow> string \<Rightarrow> string \<Rightarrow> string \<Rightarrow> string option \<Rightarrow> unit dispatch" where
  "send_email dp to_addr subject body in_reply_to = (\<lambda>out.
     if takes (d_email dp) (EmailSent to_addr subject body in_reply_to)
     then (Inr (), out @ [EmailSent to_addr subject body in_reply_to])
     else broker_publish (d_broker dp) (EmailQueued to_addr subject body in_reply_to) out)"

definition send_telegram :: "dispatcher \<Rightarrow> string \<Rightarrow> string \<Rightarrow> unit dispatch" where
  "send_telegram dp chat_id msg = (\<lambda>out. case d_telegram dp of
     Some ok \<Rightarrow> (Inr (), if ok (TelegramSent chat_id msg) then out @ [TelegramSent chat_id msg] else out)
   | None \<Rightarrow> broker_publish (d_broker dp) (TelegramQueued chat_id msg) out)"

definition dispatcher_send :: "dispatcher \<Rightarrow> string \<Rightarrow> string \<Rightarrow> string \<Rightarrow> string \<Rightarrow> unit dispatch" where
  "dispatcher_send dp channel to_addr subject body =
     (if channel = ''email'' then send_email dp to_addr subject body None
      else if channel = ''telegram'' then send_telegram dp to_addr body
      else returnS ())"

definition broadcast :: "dispatcher \<Rightarrow> (string \<times> string) list \<Rightarrow> string \<Rightarrow> string \<Rightarrow> unit dispatch" where
  "broadcast dp channels subject body =
     forS (\<lambda>(channel, to_addr) _. dispatcher_send dp channel to_addr subject body) channels ()"

subsection \<open>The agent\<close>

record OutboundIntent =
  oi_task_id :: "string option"
  oi_recipient_id :: string
  oi_purpose :: string
  oi_draft :: "string option"
  oi_channel_override :: "string option"
  oi_transition :: "(string \<times> string) option"
  oi_extension_days :: int
  oi_escalate_on_blocker :: bool

record DispatchResult =
  dr_checkin_id :: "string option"
  dr_channel :: string
  dr_thread_id :: string
  dr_escalated :: bool
  dr_escalate_reason :: "violation list"
  dr_error :: "dispatch_error option"

text \<open>
  What the agent was made with. \<open>oa_threads\<close> is the store's method \<open>get_active_thread\<close>, \<open>py_str\<close>
  Python's \<open>str\<close>. Store, policy loader and reply keys may be missing; \<open>oa_redis\<close> and \<open>oa_db\<close> tell
  whether the two stores of the reply keys answer.
\<close>

record ('fm, 'r, 'g) outbound_agent =
  oa_dispatcher :: dispatcher
  oa_store :: "('g database \<times> store_cfg) option"
  oa_threads :: "string \<Rightarrow> ('g, (string \<times> string) option) op"
  oa_policies :: "'fm policy_lib option"
  oa_kv :: "'r redis_kv"
  oa_reply_json :: "reply_json option"
  oa_redis :: bool
  oa_db :: bool
  oa_owner :: string
  oa_agent :: string
  py_str :: "pval \<Rightarrow> string"

record ('r, 'g) outbound_world =
  ow_out :: "delivery list"
  ow_session :: "'g session"
  ow_objects :: bucket
  ow_redis :: 'r
  ow_lineage :: lineage

text \<open>The readings of the clock during one send, and the random id of the check-in.\<close>

record send_moment =
  at_seconds :: int
  at_checkin :: py_datetime
  at_record :: string
  at_line :: py_datetime
  at_line_text :: string
  fresh_uuid :: string

definition policy_intent_of :: "OutboundIntent \<Rightarrow> policy_intent" where
  "policy_intent_of oi = \<lparr>pi_task_id = Some (case oi_task_id oi of None \<Rightarrow> '''' | Some t \<Rightarrow> t),
     pi_recipient_id = oi_recipient_id oi, pi_purpose = oi_purpose oi, pi_transition = oi_transition oi,
     pi_extension_days = Some (oi_extension_days oi), pi_draft = None\<rparr>"

definition check_delegation_policy :: "('fm, 'r, 'g) outbound_agent \<Rightarrow> int \<Rightarrow> OutboundIntent \<Rightarrow> bucket \<Rightarrow> 'r \<Rightarrow>
    EvaluationResult option \<times> 'r" where
  "check_delegation_policy ag now oi fs r = (case oa_policies ag of
     None \<Rightarrow> (None, r)
   | Some lib \<Rightarrow> (case policy_load lib (oa_kv ag) (oa_redis ag) (oa_redis ag) now (oa_owner ag) (oa_agent ag) ''delegation'' fs r of
       (Inr lp, r') \<Rightarrow> (case schema_obj lp of
           DelegationObj p \<Rightarrow> (Some (evaluate_outbound_intent (policy_intent_of oi) p), r')
         | _ \<Rightarrow> (None, r'))
     | (Inl e, r') \<Rightarrow> (None, r')))"

text \<open>\<open>raw.get(key, {}) or {}\<close>, of which the code then asks \<open>get\<close>.\<close>

definition dict_field :: "props \<Rightarrow> string \<Rightarrow> py_error + props" where
  "dict_field p key = (case dict_get p key of
     None \<Rightarrow> Inr []
   | Some v \<Rightarrow> if \<not> truthy v then Inr [] else (case v of PDict d \<Rightarrow> Inr d | _ \<Rightarrow> Inl PyAttributeError))"

definition preferred_channel :: "(pval \<Rightarrow> string) \<Rightarrow> props \<Rightarrow> py_error + string" where
  "preferred_channel str p = bindE (dict_field p ''preferences'') (\<lambda>prefs.
     Inr (case dict_get prefs ''preferred_channel'' of
        None \<Rightarrow> ''email'' | Some v \<Rightarrow> if truthy v then str v else ''email''))"

text \<open>\<open>emails[0] if emails else recipient_id\<close>\<close>

definition first_email :: "(pval \<Rightarrow> string) \<Rightarrow> string \<Rightarrow> pval \<Rightarrow> py_error + string" where
  "first_email str recipient v = (if \<not> truthy v then Inr recipient else (case v of
     PList vs \<Rightarrow> Inr (str (hd vs)) | PDict d \<Rightarrow> Inl (PyKeyError ''0'')
   | PStr s \<Rightarrow> Inr [hd s] | PJson j \<Rightarrow> Inr [hd (str v)] | PTime t \<Rightarrow> Inr [hd (str v)]
   | _ \<Rightarrow> Inl PyTypeError))"

definition channel_id :: "(pval \<Rightarrow> string) \<Rightarrow> string \<Rightarrow> props \<Rightarrow> string \<Rightarrow> string" where
  "channel_id str recipient identities key = (case dict_get identities key of
     None \<Rightarrow> recipient | Some v \<Rightarrow> if truthy v then str v else recipient)"

definition address_of :: "(pval \<Rightarrow> string) \<Rightarrow> string \<Rightarrow> string \<Rightarrow> props \<Rightarrow> py_error + string" where
  "address_of str recipient channel p = bindE (dict_field p ''identities'') (\<lambda>ids.
     if channel = ''email'' then (case dict_get ids ''emails'' of
         None \<Rightarrow> Inr recipient | Some v \<Rightarrow> first_email str recipient v)
     else if channel = ''telegram'' then Inr (channel_id str recipient ids ''telegram_id'')
     else if channel = ''whatsapp'' then Inr (channel_id str recipient ids ''whatsapp_id'')
     else Inr recipient)"

definition from_node :: "('g database \<times> store_cfg) option \<Rightarrow> string \<Rightarrow> (props \<Rightarrow> py_error + string) \<Rightarrow> string \<Rightarrow>
    'g session \<Rightarrow> string \<times> 'g session" where
  "from_node st recipient f d s = (case st of
     None \<Rightarrow> (d, s)
   | Some (exec, cfg) \<Rightarrow> or_else_io (bindS (get_node exec cfg recipient False None) (\<lambda>n.
       case n of None \<Rightarrow> returnS d | Some p \<Rightarrow> if p = [] then returnS d else liftS (f p))) d s)"

definition get_channel_address :: "('fm, 'r, 'g) outbound_agent \<Rightarrow> string \<Rightarrow> string \<Rightarrow> 'g session \<Rightarrow> string \<times> 'g session" where
  "get_channel_address ag recipient channel =
     from_node (oa_store ag) recipient (address_of (py_str ag) recipient channel) recipient"

definition get_active_sticky_thread :: "('fm, 'r, 'g) outbound_agent \<Rightarrow> string \<Rightarrow> 'g session \<Rightarrow>
    (string \<times> string) option \<times> 'g session" where
  "get_active_sticky_thread ag recipient s = (case oa_store ag of
     None \<Rightarrow> (None, s) | Some _ \<Rightarrow> or_else_io (oa_threads ag recipient) None s)"

definition resolve_channel :: "('fm, 'r, 'g) outbound_agent \<Rightarrow> OutboundIntent \<Rightarrow> 'g session \<Rightarrow>
    (string \<times> string \<times> string) \<times> 'g session" where
  "resolve_channel ag oi s =
     (let recipient = oi_recipient_id oi in case oi_channel_override oi of
        Some (c # cs) \<Rightarrow> (let (addr, s1) = get_channel_address ag recipient (c # cs) s in ((c # cs, '''', addr), s1))
      | _ \<Rightarrow>
        let (preferred, s1) = from_node (oa_store ag) recipient (preferred_channel (py_str ag)) ''email'' s;
            (active, s2) = get_active_sticky_thread ag recipient s1
        in (case active of
             Some (sticky, thread) \<Rightarrow>
               if sticky \<noteq> preferred
               then let (addr, s3) = get_channel_address ag recipient sticky s2 in ((sticky, thread, addr), s3)
               else let (addr, s3) = get_channel_address ag recipient preferred s2 in ((preferred, '''', addr), s3)
           | None \<Rightarrow> let (addr, s3) = get_channel_address ag recipient preferred s2 in ((preferred, '''', addr), s3)))"

definition message_of :: "OutboundIntent \<Rightarrow> string" where
  "message_of oi = (case oi_draft oi of Some d \<Rightarrow> if d = '''' then oi_purpose oi else d | None \<Rightarrow> oi_purpose oi)"

definition create_checkin :: "('fm, 'r, 'g) outbound_agent \<Rightarrow> send_moment \<Rightarrow> OutboundIntent \<Rightarrow> string \<Rightarrow> 'g session \<Rightarrow>
    string option \<times> 'g session" where
  "create_checkin ag mo oi channel s = (case (oa_store ag, oi_task_id oi) of
     (Some (exec, cfg), Some task_id) \<Rightarrow>
       or_else_io (bindS (create_checkin_node exec (fresh_uuid mo) (at_checkin mo) task_id (message_of oi) channel
           (if oa_agent ag = '''' then oa_owner ag else oa_agent ag) (oi_recipient_id oi))
         (\<lambda>i. returnS (Some i))) None s
   | _ \<Rightarrow> (None, s))"

definition reply_record :: "('fm, 'r, 'g) outbound_agent \<Rightarrow> send_moment \<Rightarrow> OutboundIntent \<Rightarrow> string \<Rightarrow> string \<Rightarrow> string \<Rightarrow> ReplyKeyRecord" where
  "reply_record ag mo oi channel thread_id checkin_id =
     \<lparr>rk_task_id = oi_task_id oi, rk_counterparty_id = oi_recipient_id oi, rk_user_id = oa_owner ag,
       rk_channel = channel, rk_thread_id = (if thread_id = '''' then checkin_id else thread_id),
       rk_checkin_id = checkin_id, rk_created_at = at_record mo\<rparr>"

definition write_reply_key :: "('fm, 'r, 'g) outbound_agent \<Rightarrow> send_moment \<Rightarrow> OutboundIntent \<Rightarrow> string \<Rightarrow> string \<Rightarrow> string \<Rightarrow>
    'r \<times> lineage \<Rightarrow> 'r \<times> lineage" where
  "write_reply_key ag mo oi channel thread_id checkin_id rt = (case oa_reply_json ag of
     None \<Rightarrow> rt
   | Some js \<Rightarrow> reply_write (oa_kv ag) js (oa_redis ag) (oa_db ag) (at_seconds mo)
       (reply_record ag mo oi channel thread_id checkin_id) checkin_id rt)"

definition arrow :: string where "arrow = [CHR 0xE2, CHR 0x86, CHR 0x92]"

definition intelligence_line :: "string \<Rightarrow> string \<Rightarrow> string \<Rightarrow> string \<Rightarrow> string" where
  "intelligence_line now channel recipient purpose =
     ''['' @ now @ ''] outbound/'' @ channel @ '' '' @ arrow @ '' '' @ recipient @ '': '' @ purpose"

definition append_intelligence :: "('fm, 'r, 'g) outbound_agent \<Rightarrow> send_moment \<Rightarrow> string \<Rightarrow> string \<Rightarrow> string \<Rightarrow> string \<Rightarrow>
    'g session \<Rightarrow> 'g session" where
  "append_intelligence ag mo task_id channel recipient purpose s = (case oa_store ag of
     None \<Rightarrow> s
   | Some (exec, cfg) \<Rightarrow> snd (or_else_io (update_node_intelligence exec (at_line mo) task_id
       (intelligence_line (at_line_text mo) channel recipient purpose)) () s))"

definition outbound_dispatch :: "('fm, 'r, 'g) outbound_agent \<Rightarrow> send_moment \<Rightarrow> OutboundIntent \<Rightarrow> ('r, 'g) outbound_world \<Rightarrow>
    DispatchResult \<times> ('r, 'g) outbound_world" where
  "outbound_dispatch ag mo oi w =
     (let ((channel, thread_id, addr), s) = resolve_channel ag oi (ow_session w);
          subject = (if thread_id \<noteq> '''' then ''Re: '' @ oi_purpose oi else oi_purpose oi)
      in case dispatcher_send (oa_dispatcher ag) channel addr subject (message_of oi) (ow_out w) of
        (Inl e, out) \<Rightarrow> (\<lparr>dr_checkin_id = None, dr_channel = channel, dr_thread_id = thread_id,
            dr_escalated = False, dr_escalate_reason = [], dr_error = Some e\<rparr>, w\<lparr>ow_out := out, ow_session := s\<rparr>)
      | (Inr _, out) \<Rightarrow>
          let (checkin_id, s1) = create_checkin ag mo oi channel s;
              (r, t) = write_reply_key ag mo oi channel thread_id
                 (case checkin_id of None \<Rightarrow> '''' | Some i \<Rightarrow> i) (ow_redis w, ow_lineage w);
              s2 = (case oi_task_id oi of
                 Some (c # cs) \<Rightarrow> append_intelligence ag mo (c # cs) channel (oi_recipient_id oi) (oi_purpose oi) s1
               | _ \<Rightarrow> s1)
          in (\<lparr>dr_checkin_id = checkin_id, dr_channel = channel, dr_thread_id = thread_id,
              dr_escalated = False, dr_escalate_reason = [], dr_error = None\<rparr>,
              w\<lparr>ow_out := out, ow_session := s2, ow_redis := r, ow_lineage := t\<rparr>))"

definition outbound_send :: "('fm, 'r, 'g) outbound_agent \<Rightarrow> send_moment \<Rightarrow> OutboundIntent \<Rightarrow> ('r, 'g) outbound_world \<Rightarrow>
    DispatchResult \<times> ('r, 'g) outbound_world" where
  "outbound_send ag mo oi w =
     (let (verdict, r) = check_delegation_policy ag (at_seconds mo) oi (ow_objects w) (ow_redis w);
          w1 = w\<lparr>ow_redis := r\<rparr>
      in case verdict of
        Some v \<Rightarrow> if decision v = Escalate
          then (\<lparr>dr_checkin_id = None, dr_channel = '''', dr_thread_id = '''', dr_escalated = True,
              dr_escalate_reason = violations v, dr_error = None\<rparr>, w1)
          else outbound_dispatch ag mo oi w1
      | None \<Rightarrow> outbound_dispatch ag mo oi w1)"


subsection \<open>Messages leave once\<close>

text \<open>What one send can add to the deliveries, and that it never takes one away.\<close>

lemma broker_out: "broker_publish b d out = (r, out') \<Longrightarrow> out' = out \<or> out' = out @ [d] \<and> r = Inr ()"
  by (auto simp: broker_publish_def split: option.splits if_splits)

lemma dispatcher_out:
  "dispatcher_send dp channel to_addr subject body out = (r, out') \<Longrightarrow>
    \<exists>ds. out' = out @ ds \<and> length ds \<le> 1 \<and> (r \<noteq> Inr () \<longrightarrow> ds = []) \<and>
      (ds \<noteq> [] \<longrightarrow> channel \<in> {''email'', ''telegram''})"
  by (auto simp: dispatcher_send_def send_email_def send_telegram_def dest: broker_out
      split: if_splits option.splits)

lemma unknown_channel_dropped:
  "channel \<notin> {''email'', ''telegram''} \<Longrightarrow> dispatcher_send dp channel a s b out = (Inr (), out)"
  by (simp add: dispatcher_send_def)

lemma dispatch_out:
  assumes "outbound_dispatch ag mo oi w = (res, w')"
  shows "\<not> dr_escalated res \<and> ow_objects w' = ow_objects w \<and>
    (\<exists>ds. ow_out w' = ow_out w @ ds \<and> length ds \<le> 1 \<and> (dr_error res \<noteq> None \<longrightarrow> ds = []))"
proof -
  obtain channel thread_id addr s where ch: "resolve_channel ag oi (ow_session w) = ((channel, thread_id, addr), s)"
    by (metis surj_pair)
  let ?subject = "if thread_id \<noteq> [] then ''Re: '' @ oi_purpose oi else oi_purpose oi"
  obtain r out where send: "dispatcher_send (oa_dispatcher ag) channel addr ?subject (message_of oi) (ow_out w) = (r, out)"
    by fastforce
  show ?thesis
    using assms dispatcher_out [OF send]
    by (cases r) (auto simp: outbound_dispatch_def ch send Let_def split: prod.splits)
qed

text \<open>
  Claim C28: The gate comes first. A send is escalated exactly when the loader gives a delegation
  policy that refuses the intent, and then nothing but the policy cache has changed: no message,
  no node, no reply key. Every other send hands over at most one message.
\<close>

theorem policy_gates_every_message:
  assumes "outbound_send ag mo oi w = (res, w')"
    and "load = (\<lambda>lib. policy_load lib (oa_kv ag) (oa_redis ag) (oa_redis ag) (at_seconds mo) (oa_owner ag) (oa_agent ag)
      ''delegation'' (ow_objects w) (ow_redis w))"
  shows "(dr_escalated res \<longleftrightarrow> (\<exists>lib lp p. oa_policies ag = Some lib \<and> fst (load lib) = Inr lp \<and>
      schema_obj lp = DelegationObj p \<and> decision (evaluate_outbound_intent (policy_intent_of oi) p) = Escalate)) \<and>
    (dr_escalated res \<longrightarrow> w' = w\<lparr>ow_redis := ow_redis w'\<rparr>) \<and>
    (\<exists>ds. ow_out w' = ow_out w @ ds \<and> length ds \<le> 1 \<and> (dr_error res \<noteq> None \<longrightarrow> ds = []))"
proof -
  obtain verdict r where v: "check_delegation_policy ag (at_seconds mo) oi (ow_objects w) (ow_redis w) = (verdict, r)"
    by fastforce
  have verdict: "(\<exists>x. verdict = Some x \<and> decision x = Escalate) \<longleftrightarrow>
      (\<exists>lib lp p. oa_policies ag = Some lib \<and> fst (load lib) = Inr lp \<and> schema_obj lp = DelegationObj p \<and>
        decision (evaluate_outbound_intent (policy_intent_of oi) p) = Escalate)"
    using v unfolding assms(2) check_delegation_policy_def
    by (force split: option.splits prod.splits sum.splits policy_obj.splits)
  show ?thesis
  proof (cases "\<exists>x. verdict = Some x \<and> decision x = Escalate")
    case True
    with assms(1) v have "dr_escalated res" "w' = w\<lparr>ow_redis := r\<rparr>"
      by (auto simp: outbound_send_def)
    with True verdict show ?thesis by simp
  next
    case False
    with assms(1) v have run: "outbound_dispatch ag mo oi (w\<lparr>ow_redis := r\<rparr>) = (res, w')"
      by (cases verdict) (auto simp: outbound_send_def Let_def)
    from dispatch_out [OF run] False verdict show ?thesis by auto
  qed
qed


text \<open>
  Claim C31: The gate fails open. Where the delegation policy of the owner cannot be loaded, a
  missing file included although its schema says to fail closed, the message is sent.
\<close>

theorem missing_policy_fails_open:
  assumes "oa_policies ag = Some lib"
    and "policy_load lib (oa_kv ag) (oa_redis ag) (oa_redis ag) (at_seconds mo) (oa_owner ag) (oa_agent ag)
      ''delegation'' (ow_objects w) (ow_redis w) = (Inl e, r)"
    and "resolve_channel ag oi (ow_session w) = ((''email'', thread, addr), s)"
    and "\<And>d. takes (d_email (oa_dispatcher ag)) d"
  shows "\<exists>res w' subject. outbound_send ag mo oi w = (res, w') \<and> \<not> dr_escalated res \<and> dr_error res = None \<and>
    ow_out w' = ow_out w @ [EmailSent addr subject (message_of oi) None]"
  using assms
  by (auto simp: outbound_send_def check_delegation_policy_def outbound_dispatch_def dispatcher_send_def
      send_email_def Let_def split: prod.split option.split)

subsection \<open>Where messages go\<close>

text \<open>
  A user the store wrote keeps preferences and identities as JSON texts; nothing decodes them
  here, so asking them for a key raises and the fallbacks apply.
\<close>

lemma json_field_raises: "dict_get p key = Some (PJson (PDict d)) \<Longrightarrow> dict_field p key = Inl PyAttributeError"
  by (simp add: dict_field_def)

definition age_threads :: "string \<Rightarrow> ('g, (string \<times> string) option) op" where
  "age_threads recipient = raiseS PyAttributeError"

lemma from_node_raises:
  assumes "cypher_service exec" "\<And>p. fetch exec (graph s) i = Some p \<Longrightarrow> f p = Inl PyAttributeError"
  shows "from_node (Some (exec, cfg)) i f d s = (d, s)"
proof -
  have "get_node exec cfg i False None s = (case require_caller_context cfg None of Inl e \<Rightarrow> (Inl e, s)
      | Inr _ \<Rightarrow> (Inr (visible False (fetch exec (graph s) i)), s))"
    by (rule cypher_service.get_node_eq [OF assms(1)])
  then show ?thesis
    using assms(2)
    by (auto simp: from_node_def or_else_io_def bindS_unfold visible_def split: option.splits sum.splits)
qed

text \<open>
  A message to a node whose identities are stored as the store writes them is addressed to
  the id of the node, by email unless the caller names a channel, and never on the thread of an
  earlier message.
\<close>

theorem stored_recipient_unreachable:
  assumes "cypher_service exec" "oa_store ag = Some (exec, cfg)" "oa_threads ag = age_threads"
    and "\<And>p. fetch exec (graph s) (oi_recipient_id oi) = Some p \<Longrightarrow>
      (\<exists>d. dict_get p ''identities'' = Some (PJson (PDict d))) \<and> (\<exists>d. dict_get p ''preferences'' = Some (PJson (PDict d)))"
  shows "resolve_channel ag oi s = ((case oi_channel_override oi of Some (c # cs) \<Rightarrow> c # cs | _ \<Rightarrow> ''email'',
    [], oi_recipient_id oi), s)"
proof -
  have address: "get_channel_address ag (oi_recipient_id oi) channel s = (oi_recipient_id oi, s)" for channel
    unfolding get_channel_address_def assms(2)
    by (rule from_node_raises [OF assms(1)]) (auto simp: address_of_def dest!: assms(4) json_field_raises)
  have channel: "from_node (Some (exec, cfg)) (oi_recipient_id oi) (preferred_channel (py_str ag)) ''email'' s = (''email'', s)"
    by (rule from_node_raises [OF assms(1)]) (auto simp: preferred_channel_def dest!: assms(4) json_field_raises)
  have thread: "get_active_sticky_thread ag (oi_recipient_id oi) s = (None, s)"
    by (simp add: get_active_sticky_thread_def assms(2,3) age_threads_def or_else_io_def)
  show ?thesis
    by (simp add: resolve_channel_def assms(2) address channel thread Let_def split: option.split list.split)
qed

subsection \<open>From the message sent to the reply\<close>


text \<open>
  Where no thread was known the reply key stands under the id of the check-in, which no channel
  reports as its thread: an answer that carries the channel's own thread finds no key.
\<close>

lemma first_contact_key:
  assumes "expiring_keys (oa_kv ag) entry" "oa_reply_json ag = Some js" "ro_reply_keys ro = Some (oa_kv ag, js, redis, db)"
    and "\<not> has_reply_key ro now ch th msg (r, t)" "checkin \<noteq> []"
    and "has_reply_key ro now ch th msg (write_reply_key ag mo oi channel [] checkin (r, t))"
  shows "redis_key ch th msg = redis_key channel checkin checkin \<or> ch = channel \<and> th = checkin"
proof (rule ccontr)
  let ?rec = "reply_record ag mo oi channel [] checkin"
  assume no: "\<not> ?thesis"
  obtain r' t' where wr: "write_reply_key ag mo oi channel [] checkin (r, t) = (r', t')" by fastforce
  have rec: "rk_channel ?rec = channel" "rk_thread_id ?rec = checkin" by (simp_all add: reply_record_def)
  from wr no assms(2,5) rec
  have r': "kv_get (oa_kv ag) now (redis_key ch th msg) r' = kv_get (oa_kv ag) now (redis_key ch th msg) r"
    and t': "map_of t' (ch, th) = map_of t (ch, th)"
    using expiring_keys.get_setex_other [OF assms(1)]
    by (auto simp: write_reply_key_def reply_write_def lineage_upsert_def Let_def update_conv')
  from assms(4,6) r' t' assms(3) wr show False
    by (simp add: has_reply_key_def read_from_redis_def read_from_db_def split: if_splits)
qed

text \<open>The line for the task replaces the intelligence the task had, it is not appended to it.\<close>

lemma intelligence_replaced:
  assumes "cypher_service exec" "fetch exec (graph s) i = Some p"
  shows "\<exists>s' p'. update_node_intelligence exec now i line s = (Inr (), s') \<and>
    fetch exec (graph s') i = Some p' \<and> dict_get p' ''intelligence'' = Some (PStr line)"
proof -
  let ?upd = "[(''intelligence'', CStr (PStr line)), (''updated_at'', CStr (PTime now))]"
  have keep: "keeps_id i ?upd" by (simp add: keeps_id_def dict_simps)
  have run: "update_node_intelligence exec now i line s = (Inr (), s\<lparr>graph := snd (exec (MatchIdSet i ?upd) (graph s))\<rparr>)"
    by (simp add: update_node_intelligence_def bindS_unfold run_query_def split_def Let_def)
  show ?thesis
    unfolding run using cypher_service.fetch_set [OF assms(1) keep, of "graph s" i] assms(2)
    by (simp add: dict_get_set_props dict_simps dict_ok_def)
qed

subsection \<open>Examples\<close>

definition quiet_session :: "mem_graph session" where
  "quiet_session = \<lparr>graph = \<lparr>vertices = [], relations = [], next_rel = 0\<rparr>, spawned = [], notified = []\<rparr>"

definition mailer :: dispatcher where
  "mailer = \<lparr>d_email = Some (\<lambda>_. True), d_telegram = None, d_broker = None\<rparr>"

definition the_json :: reply_json where
  "the_json = \<lparr>rk_to_json = (\<lambda>rec. rk_checkin_id rec), rk_from_json = (\<lambda>s. Some \<lparr>rk_task_id = Some ''TSK-1'',
     rk_counterparty_id = ''RES-b'', rk_user_id = ''u1'', rk_channel = ''email'', rk_thread_id = s,
     rk_checkin_id = s, rk_created_at = []\<rparr>)\<rparr>"

definition demo_store :: store_cfg where
  "demo_store = \<lparr>principal_name = ''agent_principal'', embedding_client = False, no_delete_enforcement = False\<rparr>"

definition demo_agent :: "(unit, mem_keys, mem_graph) outbound_agent" where
  "demo_agent = \<lparr>oa_dispatcher = mailer,
     oa_store = Some (mem_exec, demo_store),
     oa_threads = age_threads, oa_policies = Some demo_lib, oa_kv = mem_kv, oa_reply_json = Some the_json,
     oa_redis = True, oa_db = True, oa_owner = ''u1'', oa_agent = ''a1'', py_str = (\<lambda>_. [])\<rparr>"

definition demo_moment :: send_moment where
  "demo_moment = \<lparr>at_seconds = 0, at_checkin = utc_dt 0, at_record = [], at_line = utc_dt 0, at_line_text = [],
     fresh_uuid = ''abcdef''\<rparr>"

definition demo_intent :: "string \<Rightarrow> OutboundIntent" where
  "demo_intent purpose = \<lparr>oi_task_id = Some ''TSK-1'', oi_recipient_id = ''RES-b'', oi_purpose = purpose, oi_draft = None,
     oi_channel_override = None, oi_transition = None, oi_extension_days = 0, oi_escalate_on_blocker = False\<rparr>"

definition delegation_path :: string where
  "delegation_path = ''u1/agents/a1/policies/delegation.md''"

definition demo_world :: "bucket \<Rightarrow> (mem_keys, mem_graph) outbound_world" where
  "demo_world fs = \<lparr>ow_out = [], ow_session = quiet_session, ow_objects = fs, ow_redis = [], ow_lineage = []\<rparr>"

definition default_delegation :: DelegationPolicy where
  "default_delegation = \<lparr>dp_fail_mode = FailMode.CLOSED, auto_acknowledge = True,
     accept_deadline_extension_max_days = 3, allowed_state_transitions = [], escalate_on_blocker = True,
     recipient_overrides = []\<rparr>"

lemma demo_fields: "oa_policies demo_agent = Some demo_lib" "oa_kv demo_agent = mem_kv" "oa_redis demo_agent" "oa_db demo_agent"
  "oa_owner demo_agent = ''u1''" "oa_agent demo_agent = ''a1''" "at_seconds demo_moment = 0" "oa_dispatcher demo_agent = mailer"
  "oa_reply_json demo_agent = Some the_json" "oa_store demo_agent = Some (mem_exec, demo_store)"
  "oa_threads demo_agent = age_threads" "fresh_uuid demo_moment = ''abcdef''" "at_record demo_moment = []"
  by (simp_all add: demo_agent_def demo_moment_def)

lemma demo_intent_fields: "oi_task_id (demo_intent p) = Some ''TSK-1''" "oi_recipient_id (demo_intent p) = ''RES-b''"
  "oi_purpose (demo_intent p) = p" "oi_draft (demo_intent p) = None" "oi_channel_override (demo_intent p) = None"
  by (simp_all add: demo_intent_def)

lemma demo_load: "map_sum id schema_obj (fst (policy_load demo_lib mem_kv True True 0 ''u1'' ''a1'' ''delegation''
    [delegation_path \<mapsto> demo_file] [])) = Inr (DelegationObj default_delegation)"
  by code_simp

lemma demo_missing: "policy_load demo_lib mem_kv True True 0 ''u1'' ''a1'' ''delegation'' Map.empty [] =
    (Inl (PolicyMissing delegation_path), [])"
  by code_simp

theorem policy_gates_every_message_witness:
  "dr_escalated (fst (outbound_send demo_agent demo_moment (demo_intent ''a blocker'') (demo_world [delegation_path \<mapsto> demo_file]))) \<and>
   ow_out (snd (outbound_send demo_agent demo_moment (demo_intent ''a blocker'') (demo_world [delegation_path \<mapsto> demo_file]))) = []"
proof -
  let ?w = "demo_world [delegation_path \<mapsto> demo_file]" and ?oi = "demo_intent ''a blocker''"
  obtain res w' where run: "outbound_send demo_agent demo_moment ?oi ?w = (res, w')" by fastforce
  obtain lp where lp: "fst (policy_load demo_lib mem_kv True True 0 ''u1'' ''a1'' ''delegation'' [delegation_path \<mapsto> demo_file] []) = Inr lp"
    "schema_obj lp = DelegationObj default_delegation"
    using demo_load
    by (cases "fst (policy_load demo_lib mem_kv True True 0 ''u1'' ''a1'' ''delegation'' [delegation_path \<mapsto> demo_file] [])") auto
  have "decision (evaluate_outbound_intent (policy_intent_of ?oi) default_delegation) = Escalate" by code_simp
  then have "dr_escalated res"
    using policy_gates_every_message [OF run refl] lp by (auto simp: demo_fields demo_world_def)
  moreover from this have "w' = ?w\<lparr>ow_redis := ow_redis w'\<rparr>"
    using policy_gates_every_message [OF run refl] by blast
  then have "ow_out w' = ow_out ?w" by (metis outbound_world.select_convs(1) outbound_world.surjective outbound_world.update_convs(4))
  ultimately show ?thesis unfolding run by (simp add: demo_world_def)
qed

lemma quiet_channel: "resolve_channel demo_agent (demo_intent p) quiet_session = ((''email'', [], ''RES-b''), quiet_session)"
  by (simp add: resolve_channel_def from_node_def get_channel_address_def get_active_sticky_thread_def demo_fields
      demo_intent_fields age_threads_def or_else_io_def get_node_def bindS_unfold require_caller_context_def run_query_def
      demo_store_def quiet_session_def node_rows_def)

theorem missing_policy_fails_open_witness:
  "\<exists>w' subject. outbound_send demo_agent demo_moment (demo_intent ''a blocker'') (demo_world Map.empty) =
     (fst (outbound_send demo_agent demo_moment (demo_intent ''a blocker'') (demo_world Map.empty)), w') \<and>
     ow_out w' = [EmailSent ''RES-b'' subject ''a blocker'' None]"
  using missing_policy_fails_open [of demo_agent demo_lib demo_moment "demo_world Map.empty" "PolicyMissing delegation_path" "[]"
      "demo_intent ''a blocker''" "[]" "''RES-b''" quiet_session] quiet_channel demo_missing
  by (auto simp: demo_fields demo_world_def takes_def mailer_def message_of_def demo_intent_def)

definition stored_recipient :: "mem_graph session" where
  "stored_recipient = quiet_session\<lparr>graph := \<lparr>vertices = [(''ResourceNode'', [(''id'', PStr ''RES-b''),
     (''identities'', PJson (PDict [(''emails'', PList [PStr ''bob@y''])])),
     (''preferences'', PJson (PDict [(''preferred_channel'', PStr ''telegram'')]))])], relations = [], next_rel = 0\<rparr>\<rparr>"

theorem stored_recipient_unreachable_witness:
  "fst (resolve_channel demo_agent (demo_intent ''hello'') stored_recipient) = (''email'', [], ''RES-b'')"
proof -
  have "(\<exists>d. dict_get p ''identities'' = Some (PJson (PDict d))) \<and> (\<exists>d. dict_get p ''preferences'' = Some (PJson (PDict d)))"
    if "fetch mem_exec (graph stored_recipient) (oi_recipient_id (demo_intent ''hello'')) = Some p" for p
    using that by (simp add: fetch_def stored_recipient_def quiet_session_def node_rows_def has_id_def dict_simps
        demo_intent_def) (auto simp: dict_simps)
  then have "resolve_channel demo_agent (demo_intent ''hello'') stored_recipient =
      ((case oi_channel_override (demo_intent ''hello'') of Some (c # cs) \<Rightarrow> c # cs | _ \<Rightarrow> ''email'',
        [], oi_recipient_id (demo_intent ''hello'')), stored_recipient)"
    by (rule stored_recipient_unreachable [OF mem.cypher_service_axioms demo_fields(10,11)])
  then show ?thesis by (simp add: demo_intent_fields)
qed

definition bobs_router :: "mem_keys router" where
  "bobs_router = \<lparr>ro_registry = Some (load_from_list [support_box]), ro_resolver = Some (\<lambda>_ _ _. Some ''RES-b''),
     ro_reply_keys = Some (mem_kv, the_json, True, True)\<rparr>"

lemma demo_sent:
  assumes "outbound_send demo_agent demo_moment (demo_intent ''hello'') (demo_world Map.empty) = (res, w')"
  shows "dr_error res = None" "\<not> dr_escalated res" "dr_checkin_id res = Some (generate_id ''CHK'' ''abcdef'')"
    "dr_channel res = ''email''" "dr_thread_id res = []"
  using assms demo_missing
  by (auto simp: outbound_send_def check_delegation_policy_def demo_fields demo_world_def outbound_dispatch_def
      quiet_channel dispatcher_send_def send_email_def takes_def mailer_def Let_def create_checkin_def
      demo_intent_fields create_checkin_node_def bindS_unfold run_query_def or_else_io_def
      split: prod.splits)


end
