(* ===== verification/GC_Cycle.thy ===== *)
theory GC_Cycle
  imports GC_EngineLaws GC_Paths
begin

section \<open>The scoring cycle of the orchestrator (\<open>agent/main_orchestrator.py\<close>)\<close>

text \<open>
  \<open>MainOrchestrator.run_cycle\<close> and what it is made of: fetching the active tasks, building the
  scoring context from the graph, the engine with the weights of the user, the cached queues and
  their invalidation, the rows of the session log. \<open>json.loads\<close>, \<open>float\<close> on texts and \<open>str\<close> on
  other values are arguments; the object store is a map from paths to contents.
\<close>

subsection \<open>Rows of the graph\<close>

text \<open>Texts that start with a brace or a bracket.\<close>

fun json_shaped :: "pval \<Rightarrow> bool" where
  "json_shaped (PStr s) = (s \<noteq> [] \<and> (hd s = CHR 0x7B \<or> hd s = CHR 0x5B))"
| "json_shaped (PJson (PDict _)) = True"
| "json_shaped (PJson (PList _)) = True"
| "json_shaped _ = False"

definition decode_strict :: "json_loads \<Rightarrow> pval \<Rightarrow> pval option" where
  "decode_strict loads item = (if json_shaped item then py_json_loads loads item else Some item)"

definition decode_lenient :: "json_loads \<Rightarrow> pval \<Rightarrow> pval" where
  "decode_lenient loads item =
     (if json_shaped item then (case py_json_loads loads item of Some w \<Rightarrow> w | None \<Rightarrow> item) else item)"

definition graph_value :: "json_loads \<Rightarrow> pval \<Rightarrow> pval" where
  "graph_value loads v =
     (if json_shaped v
      then (case py_json_loads loads v of
          None \<Rightarrow> v
        | Some (PList items) \<Rightarrow>
            (case those (map (decode_strict loads) items) of Some items' \<Rightarrow> PList items' | None \<Rightarrow> v)
        | Some parsed \<Rightarrow> parsed)
      else (case v of PList items \<Rightarrow> PList (map (decode_lenient loads) items) | _ \<Rightarrow> v))"

definition deserialise_graph_props :: "json_loads \<Rightarrow> props \<Rightarrow> props" where
  "deserialise_graph_props loads props = map (\<lambda>(key, val). (key, graph_value loads val)) props"

subsection \<open>The orchestrator\<close>

record orchestrator =
  orc_engine :: ScoringEngine
  last_queue :: "ActionQueueEntry list"
  last_queue_by_scope :: "ActionQueueEntry list pydict"
  score_cache_dirty :: bool
  dirty_task_ids :: "string set"
  current_session_id :: "string option"

definition new_orchestrator :: "ScoringEngine \<Rightarrow> orchestrator" where
  "new_orchestrator eng = \<lparr>orc_engine = eng, last_queue = [], last_queue_by_scope = [],
     score_cache_dirty = True, dirty_task_ids = {}, current_session_id = None\<rparr>"

record 'g orc_env =
  oe_exec :: "'g database"
  oe_store :: store_cfg
  oe_loads :: json_loads
  oe_float :: "string \<Rightarrow> rat option"
  oe_str :: "pval \<Rightarrow> string"
  oe_storage :: "bucket option"
  oe_pool :: bool

definition invalidate_cached_queue :: "string option \<Rightarrow> string set \<Rightarrow> orchestrator \<Rightarrow> orchestrator" where
  "invalidate_cached_queue user_id dirty o1 =
     (let o2 = o1\<lparr>score_cache_dirty := True, dirty_task_ids := dirty_task_ids o1 \<union> dirty, last_queue := []\<rparr>
      in case user_id of
           None \<Rightarrow> o2\<lparr>last_queue_by_scope := []\<rparr>
         | Some u \<Rightarrow> o2\<lparr>last_queue_by_scope :=
             dict_pop ''__all__'' (dict_pop u (last_queue_by_scope o2))\<rparr>)"

text \<open>A change of the shared score cache.\<close>

definition on_cache :: "(ScoreCache \<Rightarrow> ScoreCache) \<Rightarrow> orchestrator \<Rightarrow> orchestrator" where
  "on_cache f o1 = o1\<lparr>orc_engine := (orc_engine o1)\<lparr>cache := f (cache (orc_engine o1))\<rparr>\<rparr>"

subsection \<open>Fetching the active tasks\<close>

definition TERMINAL :: "string list" where
  "TERMINAL = map TaskState_value [TaskState.COMPLETE, TaskState.CANCELLED, TaskState.SNOOZED]"

text \<open>\<open>props.get("state") in _TERMINAL\<close>: a list or a dict cannot be hashed.\<close>

definition is_terminal_row :: "props \<Rightarrow> py_error + bool" where
  "is_terminal_row props = (case dict_get props ''state'' of
     Some (PList _) \<Rightarrow> Inl PyTypeError
   | Some (PDict _) \<Rightarrow> Inl PyTypeError
   | Some (PStr s) \<Rightarrow> Inr (s \<in> set TERMINAL)
   | _ \<Rightarrow> Inr False)"

fun parse_rows :: "json_loads \<Rightarrow> props list \<Rightarrow> py_error + TaskNode list" where
  "parse_rows loads [] = Inr []"
| "parse_rows loads (props # rows) =
     bindE (is_terminal_row props) (\<lambda>terminal.
     bindE (parse_rows loads rows) (\<lambda>tasks.
       if terminal then Inr tasks
       else (case task_validate (dict_get (deserialise_graph_props loads props)) of
           Some task \<Rightarrow> Inr (task # tasks) | None \<Rightarrow> Inr tasks)))"

definition fetch_system_ctx :: CallerContext where
  "fetch_system_ctx = \<lparr>cc_user_id = ''system'', cc_org_id = ''default'',
     cc_principal = ''agent_principal'', cc_session_id = None\<rparr>"

definition or_text :: "string option \<Rightarrow> string \<Rightarrow> string" where
  "or_text x d = (case x of Some u \<Rightarrow> if u = '''' then d else u | None \<Rightarrow> d)"

definition list_rows :: "'g orc_env \<Rightarrow> string option \<Rightarrow> ('g, props list) op" where
  "list_rows env user_id =
     (if or_text user_id '''' \<noteq> '''' then list_nodes_by_user (oe_exec env) (oe_store env) ''TaskNode'' (or_text user_id '''')
      else list_nodes (oe_exec env) (oe_store env) ''TaskNode'' [] (Some fetch_system_ctx))"

definition fetch_active_tasks :: "'g orc_env \<Rightarrow> string option \<Rightarrow> ('g, TaskNode list) op" where
  "fetch_active_tasks env user_id s =
     (case list_rows env user_id s of
        (Inl e, s1) \<Rightarrow> (Inr [], s1)
      | (Inr rows, s1) \<Rightarrow> (parse_rows (oe_loads env) rows, s1))"

subsection \<open>The scoring context\<close>

definition edges_of :: "'g orc_env \<Rightarrow> string \<Rightarrow> string \<Rightarrow> string \<Rightarrow> ('g, props list) op" where
  "edges_of env i direction edge_type = get_edges (oe_exec env) i direction (Some edge_type)"

definition node_of :: "'g orc_env \<Rightarrow> string \<Rightarrow> ('g, props option) op" where
  "node_of env i = get_node (oe_exec env) (oe_store env) i False None"

definition priority_of_value :: "pval \<Rightarrow> GoalPriority" where
  "priority_of_value v = (case v of
     PStr p \<Rightarrow> (case enum_of_value GoalPriority_members GoalPriority_value p of
        Some gp \<Rightarrow> gp | None \<Rightarrow> GoalPriority.P3)
   | _ \<Rightarrow> GoalPriority.P3)"

text \<open>The loop over the goal edges ends at the first node with a priority, valid or not.\<close>

fun first_priority :: "'g orc_env \<Rightarrow> props list \<Rightarrow> ('g, GoalPriority) op" where
  "first_priority env [] = returnS GoalPriority.P3"
| "first_priority env (edge # edges) =
     (case edge_ref edge ''_end_id'' of
        None \<Rightarrow> first_priority env edges
      | Some goal_id \<Rightarrow> bindS (node_of env goal_id) (\<lambda>goal_props.
          case goal_props of
            Some p \<Rightarrow> if get_truthy p ''priority''
              then returnS (priority_of_value (the (dict_get p ''priority'')))
              else first_priority env edges
          | None \<Rightarrow> first_priority env edges))"

definition goal_lookup :: "'g orc_env \<Rightarrow> string \<Rightarrow> ('g, GoalPriority) op" where
  "goal_lookup env tid =
     bindS (edges_of env tid ''out'' ''APPLIES_TO'') (\<lambda>applies.
     bindS (if applies = [] then edges_of env tid ''out'' ''PART_OF'' else returnS applies) (\<lambda>goal_edges.
       first_priority env goal_edges))"

definition dependents_lookup :: "'g orc_env \<Rightarrow> string \<Rightarrow> ('g, int) op" where
  "dependents_lookup env tid =
     bindS (edges_of env tid ''in'' ''DEPENDS_ON'') (\<lambda>es. returnS (int (length es)))"

definition text_of :: "(pval \<Rightarrow> string) \<Rightarrow> pval \<Rightarrow> string" where
  "text_of str_of v = (case v of PStr s \<Rightarrow> s | _ \<Rightarrow> str_of v)"

definition blocker_lookup :: "'g orc_env \<Rightarrow> string \<Rightarrow> ('g, string) op" where
  "blocker_lookup env tid =
     bindS (edges_of env tid ''out'' ''BLOCKS'') (\<lambda>es. returnS (case es of
         [] \<Rightarrow> ''NONE''
       | e # _ \<Rightarrow> map to_upper (text_of (oe_str env) (dict_get_default e ''strength'' (PStr ''HARD'')))))"

text \<open>
  \<open>float(block.get(key, d) if isinstance(block, dict) else d)\<close>; \<open>None\<close> where \<open>float\<close> raises.
\<close>

definition block_float :: "(string \<Rightarrow> rat option) \<Rightarrow> props \<Rightarrow> string \<Rightarrow> string \<Rightarrow> rat \<Rightarrow> rat option" where
  "block_float to_float res_props block key d = (case dict_get_default res_props block (PDict []) of
     PDict b \<Rightarrow> py_float to_float (dict_get_default b key (PFloat d)) | _ \<Rightarrow> Some d)"

definition level_map :: "rat pydict" where
  "level_map = [(''LOW'', 0), (''MEDIUM'', 1 / 2), (''HIGH'', 1)]"

definition risk_signals :: "(pval \<Rightarrow> string) \<Rightarrow> props \<Rightarrow> rat" where
  "risk_signals str_of res_props = (case dict_get_default res_props ''current_risk'' (PDict []) of
     PDict b \<Rightarrow> sum_list (map (\<lambda>k. dict_get_default level_map
         (map to_upper (text_of str_of (dict_get_default b k (PStr ''LOW'')))) 0)
         [''capacity_risk'', ''delivery_risk'', ''responsiveness_risk'']) / 3
   | _ \<Rightarrow> 0)"

text \<open>
  Reliability, load and risk of the first assigned resource, each as far as the code gets: a
  \<open>float\<close> that raises leaves the ones before it in place.
\<close>

definition resource_data :: "'g orc_env \<Rightarrow> props \<Rightarrow> rat option \<times> rat option \<times> rat option" where
  "resource_data env p =
     (case block_float (oe_float env) p ''reliability'' ''overall_score'' (8 / 10) of
        None \<Rightarrow> (None, None, None)
      | Some rel \<Rightarrow> (case block_float (oe_float env) p ''capacity'' ''load_factor'' 0 of
          None \<Rightarrow> (Some rel, None, None)
        | Some ld \<Rightarrow> (Some rel, Some ld, Some (risk_signals (oe_str env) p))))"

definition resource_lookup :: "'g orc_env \<Rightarrow> string \<Rightarrow> ('g, rat option \<times> rat option \<times> rat option) op" where
  "resource_lookup env tid =
     bindS (edges_of env tid ''out'' ''ASSIGNED_TO'') (\<lambda>res_edges.
       case res_edges of [] \<Rightarrow> returnS (None, None, None)
       | e # _ \<Rightarrow> (case edge_ref e ''_end_id'' of None \<Rightarrow> returnS (None, None, None)
           | Some res_id \<Rightarrow> bindS (node_of env res_id) (\<lambda>res_props. returnS (case res_props of
               Some p \<Rightarrow> if p = [] then (None, None, None) else resource_data env p
             | None \<Rightarrow> (None, None, None)))))"

definition constraint_of :: "props \<Rightarrow> props" where
  "constraint_of con_props =
     (let get = (\<lambda>k d. case dict_get_default con_props ''rule'' (PDict []) of
          PDict rule \<Rightarrow> dict_get_default rule k d | _ \<Rightarrow> d)
      in [(''threshold'', get ''threshold'' PNone), (''current_value'', get ''current_value'' PNone),
          (''pressure_score'', get ''pressure_score'' (PFloat 0)), (''hard_limit'', get ''hard_limit'' (PBool False))])"

definition add_constraint :: "'g orc_env \<Rightarrow> props \<Rightarrow> props list \<Rightarrow> ('g, props list) op" where
  "add_constraint env edge constraints = (case edge_ref edge ''_start_id'' of
     None \<Rightarrow> returnS constraints
   | Some con_id \<Rightarrow> bindS (node_of env con_id) (\<lambda>con_props. returnS (case con_props of
        Some p \<Rightarrow> if p = [] then constraints else constraints @ [constraint_of p]
      | None \<Rightarrow> constraints)))"

definition constraint_lookup :: "'g orc_env \<Rightarrow> string \<Rightarrow> ('g, props list) op" where
  "constraint_lookup env tid =
     bindS (edges_of env tid ''in'' ''APPLIES_TO'') (\<lambda>con_edges.
       forS (add_constraint env) con_edges [])"

definition set_opt :: "string \<Rightarrow> 'v option \<Rightarrow> 'v pydict \<Rightarrow> 'v pydict" where
  "set_opt k v d = (case v of None \<Rightarrow> d | Some x \<Rightarrow> dict_set k x d)"

definition context_step :: "'g orc_env \<Rightarrow> ScoringContext \<times> 'g session \<Rightarrow> TaskNode \<Rightarrow> ScoringContext \<times> 'g session" where
  "context_step env acc task = (let (ctx, s) = acc; tid = node_id task;
     (priority, s1) = or_else_io (goal_lookup env tid) GoalPriority.P3 s;
     (deps, s2) = or_else_io (dependents_lookup env tid) 0 s1;
     (blocker, s3) = or_else_io (blocker_lookup env tid) ''NONE'' s2;
     ((rel, ld, risk), s4) = or_else_io (resource_lookup env tid) (None, None, None) s3;
     (cons, s5) = or_else_io (constraint_lookup env tid) [] s4
     in (ctx\<lparr>task_goal_priority := dict_set tid (GoalPriority_value priority) (task_goal_priority ctx),
          task_direct_dependents := dict_set tid deps (task_direct_dependents ctx),
          task_transitive_dependents := dict_set tid deps (task_transitive_dependents ctx),
          task_blocker_type := dict_set tid blocker (task_blocker_type ctx),
          task_resource_reliability := set_opt tid rel (task_resource_reliability ctx),
          task_resource_load_factor := set_opt tid ld (task_resource_load_factor ctx),
          task_resource_risk_signals := set_opt tid risk (task_resource_risk_signals ctx),
          task_constraints := dict_set tid cons (task_constraints ctx)\<rparr>, s5))"

definition build_scoring_context :: "'g orc_env \<Rightarrow> TaskNode list \<Rightarrow> 'g session \<Rightarrow> ScoringContext \<times> 'g session" where
  "build_scoring_context env tasks s =
     foldl (context_step env) (empty_context\<lparr>sx_graph_repo := Some (oe_store env)\<rparr>, s) tasks"

subsection \<open>The engine of a cycle\<close>

definition engine_weights :: "ScoringEngine \<Rightarrow> rat pydict" where
  "engine_weights eng = [(''w1'', w1 eng), (''w2'', w2 eng), (''w3'', w3 eng), (''w4'', w4 eng),
     (''w5'', w5 eng), (''w6'', w6 eng), (''w7'', w7 eng)]"

definition key_map :: "string pydict" where
  "key_map = [(''W1_timeline'', ''w1''), (''W2_dependencies'', ''w2''), (''W3_critical_path'', ''w3''),
     (''W4_blocker'', ''w4''), (''W5_override'', ''w5''), (''W6_resource_risk'', ''w6''),
     (''W7_constraint'', ''w7'')]"

text \<open>\<open>isinstance(value, int | float)\<close>: a bool is an int.\<close>

fun number :: "pval \<Rightarrow> rat option" where
  "number (PBool b) = Some (if b then 1 else 0)"
| "number (PInt i) = Some (of_int i)"
| "number (PFloat r) = Some r"
| "number _ = None"

definition overlay_weights :: "props \<Rightarrow> rat pydict \<Rightarrow> rat pydict" where
  "overlay_weights payload weights = foldl (\<lambda>w (source_key, target_key).
     case Option.bind (dict_get payload source_key) number of
       Some v \<Rightarrow> if 0 \<le> v then dict_set target_key v w else w
     | None \<Rightarrow> w) weights key_map"

definition with_weights :: "rat pydict \<Rightarrow> rat \<Rightarrow> ScoringEngine \<Rightarrow> ScoringEngine" where
  "with_weights weights tot eng = (let w = (\<lambda>k. dict_get_default weights k 0 / tot)
     in \<lparr>w1 = w ''w1'', w2 = w ''w2'', w3 = w ''w3'', w4 = w ''w4'', w5 = w ''w5'',
        w6 = w ''w6'', w7 = w ''w7'', cache = cache eng\<rparr>)"

definition stored_weights :: "'g orc_env \<Rightarrow> string \<Rightarrow> pval option" where
  "stored_weights env user_id = (case oe_storage env of None \<Rightarrow> None
   | Some fs \<Rightarrow> (case user_scoring_weights user_id of Inl e \<Rightarrow> None
       | Inr path \<Rightarrow> Option.bind (fs path) (oe_loads env)))"

definition build_cycle_scoring_engine :: "'g orc_env \<Rightarrow> string option \<Rightarrow> ScoringEngine \<Rightarrow> ScoringEngine" where
  "build_cycle_scoring_engine env user_id eng = (case user_id of None \<Rightarrow> eng
   | Some u \<Rightarrow> (case stored_weights env u of
       Some (PDict payload) \<Rightarrow>
         (let weights = overlay_weights payload (engine_weights eng); tot = sum_list (map snd weights)
          in if tot \<le> 0 then eng else with_weights weights tot eng)
     | _ \<Rightarrow> eng))"

subsection \<open>Invalidation\<close>

text \<open>
  The handler around the fetch clears the whole cache; the fetch itself answers a failed query
  with an empty list.
\<close>

definition invalidate_scoring_for_user ::
  "'g orc_env \<Rightarrow> py_datetime \<Rightarrow> string \<Rightarrow> orchestrator \<Rightarrow> 'g session \<Rightarrow> orchestrator \<times> 'g session" where
  "invalidate_scoring_for_user env now user_id o1 s =
     (let o2 = invalidate_cached_queue (Some user_id) {} o1
      in case fetch_active_tasks env (Some user_id) s of
           (Inl e, s1) \<Rightarrow> (on_cache (invalidate_all now) o2, s1)
         | (Inr tasks, s1) \<Rightarrow> (on_cache (fold (\<lambda>t. invalidate (node_id t)) tasks) o2, s1))"

definition dependents_of_edges :: "props list \<Rightarrow> string list" where
  "dependents_of_edges edges = List.map_filter (\<lambda>e. edge_ref e ''_start_id'') edges"

definition invalidate_dependents :: "'g orc_env \<Rightarrow> (string set \<Rightarrow> string list) \<Rightarrow> string \<Rightarrow>
    orchestrator \<times> 'g session \<Rightarrow> string set \<times> orchestrator \<times> 'g session" where
  "invalidate_dependents env as_list task_id os = (case edges_of env task_id ''in'' ''DEPENDS_ON'' (snd os) of
     (Inl e, s) \<Rightarrow> ({}, fst os, s)
   | (Inr edges, s) \<Rightarrow>
       (let ids = set (dependents_of_edges edges)
        in if ids = {} then ({}, fst os, s)
           else (ids, on_cache (invalidate_upstream task_id (as_list ids)) (fst os), s)))"

definition invalidate_parents :: "'g orc_env \<Rightarrow> string \<Rightarrow>
    orchestrator \<times> 'g session \<Rightarrow> string set \<times> orchestrator \<times> 'g session" where
  "invalidate_parents env task_id os = (case edges_of env task_id ''out'' ''PART_OF'' (snd os) of
     (Inl e, s) \<Rightarrow> ({}, fst os, s)
   | (Inr edges, s) \<Rightarrow>
       (let ids = List.map_filter (\<lambda>e. edge_ref e ''_end_id'') edges
        in (set ids, on_cache (fold invalidate ids) (fst os), s)))"

definition invalidate_score_cache_for_task :: "'g orc_env \<Rightarrow> (string set \<Rightarrow> string list) \<Rightarrow> string \<Rightarrow> bool \<Rightarrow>
    orchestrator \<Rightarrow> 'g session \<Rightarrow> orchestrator \<times> 'g session" where
  "invalidate_score_cache_for_task env as_list task_id include_related o1 s =
     (let o2 = on_cache (invalidate task_id) o1
      in if \<not> include_related then (o2, s)
         else let (deps, os3) = invalidate_dependents env as_list task_id (o2, s);
                  (parents, o4, s4) = invalidate_parents env task_id os3
              in (o4\<lparr>dirty_task_ids := dirty_task_ids o4 \<union> deps \<union> parents\<rparr>, s4))"

definition invalidate_score_cache_for_goal :: "'g orc_env \<Rightarrow> py_datetime \<Rightarrow> string \<Rightarrow>
    orchestrator \<Rightarrow> 'g session \<Rightarrow> orchestrator \<times> 'g session" where
  "invalidate_score_cache_for_goal env now goal_id o1 s =
     (case list_nodes_for_goal (oe_exec env) goal_id s of
        (Inl e, s1) \<Rightarrow> ((on_cache (invalidate_all now) o1)\<lparr>score_cache_dirty := True\<rparr>, s1)
      | (Inr goal_tasks, s1) \<Rightarrow>
          (let ids = List.map_filter (\<lambda>t. edge_ref t ''id'') goal_tasks;
               o2 = on_cache (fold invalidate ids) o1
           in (o2\<lparr>dirty_task_ids := dirty_task_ids o2 \<union> set ids\<rparr>, s1)))"

subsection \<open>The session log\<close>

record session_row =
  sr_user :: string
  sr_started :: py_datetime
  sr_trigger :: string
  sr_status :: string
  sr_completed :: "py_datetime option"
  sr_counts :: "int list"

type_synonym session_log = "session_row pydict"

text \<open>\<open>INSERT ... ON CONFLICT (session_id) DO NOTHING\<close>, where there is a connection pool.\<close>

definition write_session_log_start :: "bool \<Rightarrow> py_datetime \<Rightarrow> string \<Rightarrow> string \<Rightarrow> string \<Rightarrow> session_log \<Rightarrow> session_log" where
  "write_session_log_start pool now session_id user_id trigger_type tbl =
     (if \<not> pool \<or> dict_get tbl session_id \<noteq> None then tbl
      else dict_set session_id \<lparr>sr_user = user_id, sr_started = now, sr_trigger = trigger_type,
        sr_status = ''running'', sr_completed = None, sr_counts = []\<rparr> tbl)"

definition write_session_log_complete :: "bool \<Rightarrow> py_datetime \<Rightarrow> string \<Rightarrow> string \<Rightarrow> int list \<Rightarrow> session_log \<Rightarrow> session_log" where
  "write_session_log_complete pool now session_id status counts tbl =
     (if \<not> pool then tbl else (case dict_get tbl session_id of None \<Rightarrow> tbl
      | Some r \<Rightarrow> dict_set session_id (r\<lparr>sr_completed := Some now, sr_status := status,
          sr_counts := map (max 0) counts\<rparr>) tbl))"

subsection \<open>One cycle\<close>

text \<open>\<open>cw_ambient\<close> is the context variable with the session id of the running task.\<close>

record 'g cycle_world =
  cw_orc :: orchestrator
  cw_session :: "'g session"
  cw_ambient :: string
  cw_log :: session_log

record cycle_moment =
  cm_now :: py_datetime
  cm_end :: py_datetime
  cm_uuid :: string

definition generate_session_id :: "string \<Rightarrow> string" where
  "generate_session_id uuid = ''SES-'' @ uuid"

definition resolve_cycle_session_id :: "string \<Rightarrow> string \<Rightarrow> string \<times> string" where
  "resolve_cycle_session_id uuid ambient =
     (if strip ambient \<noteq> '''' then (strip ambient, ambient)
      else (generate_session_id uuid, generate_session_id uuid))"

definition cycle_ctx :: "'g orc_env \<Rightarrow> string \<Rightarrow> CallerContext" where
  "cycle_ctx env session_user = \<lparr>cc_user_id = session_user, cc_org_id = ''default'',
     cc_principal = (if principal_name (oe_store env) = '''' then ''agent_principal''
       else principal_name (oe_store env)), cc_session_id = None\<rparr>"

definition finish_cycle :: "string \<Rightarrow> ActionQueueEntry list \<Rightarrow> orchestrator \<Rightarrow> orchestrator" where
  "finish_cycle scope_key queue o1 = o1\<lparr>last_queue := queue,
     last_queue_by_scope := dict_set scope_key queue (last_queue_by_scope o1),
     score_cache_dirty := False, dirty_task_ids := {}\<rparr>"

text \<open>Steps 1 to 3; the scores of an engine with other weights go to the shared cache.\<close>

definition cycle_body :: "'g orc_env \<Rightarrow> cycle_moment \<Rightarrow> string option \<Rightarrow> orchestrator \<times> 'g session \<Rightarrow>
    (py_error + ActionQueueEntry list) \<times> orchestrator \<times> 'g session" where
  "cycle_body env mo user_id os = (case fetch_active_tasks env user_id (snd os) of
     (Inl e, s1) \<Rightarrow> (Inl e, fst os, s1)
   | (Inr tasks, s1) \<Rightarrow>
       if tasks = [] then (Inr [], fst os, s1)
       else (let (ctx, s2) = build_scoring_context env tasks s1;
                 ctx2 = ctx\<lparr>sx_caller_context := Some (cycle_ctx env (or_text user_id ''system''))\<rparr>;
                 eng = build_cycle_scoring_engine env user_id (orc_engine (fst os))
             in case score_all (oe_exec env) (oe_float env) (cm_now mo) ctx2 tasks eng s2 of
                  (Inl e, s3) \<Rightarrow> (Inl e, fst os, s3)
                | (Inr (res, final, eng'), s3) \<Rightarrow>
                    (let o3 = on_cache (\<lambda>_. cache eng') (fst os)
                     in case res of Inl e \<Rightarrow> (Inl e, o3, s3)
                        | Inr queue \<Rightarrow> (Inr queue, finish_cycle (or_text user_id ''__all__'') queue o3, s3))))"

text \<open>A heartbeat with nothing dirty is answered from the queue of its scope, if that has entries.\<close>

definition served_queue :: "string option \<Rightarrow> string \<Rightarrow> orchestrator \<Rightarrow> ActionQueueEntry list" where
  "served_queue user_id trigger_source o1 =
     (if trigger_source = ''heartbeat'' \<and> \<not> score_cache_dirty o1
      then dict_get_default (last_queue_by_scope o1) (or_text user_id ''__all__'') [] else [])"

definition run_cycle :: "'g orc_env \<Rightarrow> cycle_moment \<Rightarrow> string option \<Rightarrow> string \<Rightarrow> 'g cycle_world \<Rightarrow>
    (py_error + ActionQueueEntry list) \<times> 'g cycle_world" where
  "run_cycle env mo user_id trigger_source w =
     (let (sid, ambient) = resolve_cycle_session_id (cm_uuid mo) (cw_ambient w);
          o1 = (cw_orc w)\<lparr>current_session_id := Some sid\<rparr>;
          cached = served_queue user_id trigger_source o1
      in if cached \<noteq> [] then (Inr cached, w\<lparr>cw_orc := o1, cw_ambient := ambient\<rparr>)
         else (let log1 = write_session_log_start (oe_pool env) (cm_now mo) sid (or_text user_id ''system'')
                            trigger_source (cw_log w);
                   (r, o2, s2) = cycle_body env mo user_id (o1, cw_session w);
                   status = (case r of Inl e \<Rightarrow> ''failed'' | Inr q \<Rightarrow> ''completed'')
               in (r, \<lparr>cw_orc = o2, cw_session = s2, cw_ambient = ambient,
                     cw_log = write_session_log_complete (oe_pool env) (cm_end mo) sid status
                       [0, 0, 0, 0, 0, 0] log1\<rparr>)))"

subsection \<open>The weights of a cycle\<close>

definition chosen :: "props \<Rightarrow> string \<Rightarrow> rat \<Rightarrow> rat" where
  "chosen payload k d = (case Option.bind (dict_get payload k) number of
     Some v \<Rightarrow> if 0 \<le> v then v else d | None \<Rightarrow> d)"

lemma dict_set_same: "dict_get d k = Some v \<Longrightarrow> dict_set k v d = d"
  by (induction d) (auto simp: dict_get_def dict_set_def split: if_splits)

lemma overlay_step:
  "dict_get w k = Some d \<Longrightarrow>
     (case Option.bind (dict_get payload src) number of
        Some v \<Rightarrow> if 0 \<le> v then dict_set k v w else w | None \<Rightarrow> w) = dict_set k (chosen payload src d) w"
  by (auto simp: chosen_def dict_set_same split: option.split)

lemma overlay_engine:
  "overlay_weights payload (engine_weights eng) =
     [(''w1'', chosen payload ''W1_timeline'' (w1 eng)), (''w2'', chosen payload ''W2_dependencies'' (w2 eng)),
      (''w3'', chosen payload ''W3_critical_path'' (w3 eng)), (''w4'', chosen payload ''W4_blocker'' (w4 eng)),
      (''w5'', chosen payload ''W5_override'' (w5 eng)), (''w6'', chosen payload ''W6_resource_risk'' (w6 eng)),
      (''w7'', chosen payload ''W7_constraint'' (w7 eng))]"
  unfolding overlay_weights_def key_map_def engine_weights_def foldl_Cons foldl_Nil prod.case
  by (simp add: overlay_step dict_simps dict_set_def)

lemma chosen_nonneg: "0 \<le> d \<Longrightarrow> 0 \<le> chosen payload k d"
  by (simp add: chosen_def split: option.split)

definition weight_sum :: "ScoringEngine \<Rightarrow> rat" where
  "weight_sum e = w1 e + w2 e + w3 e + w4 e + w5 e + w6 e + w7 e"

text \<open>
  The engine of a cycle shares the cache of the base engine and its weights are never negative.
  It is the base engine (for a cycle of the whole system, where the stored weights of the user
  cannot be read or are no dict, where nothing positive remains), or its weights add up to 1 and
  stand in the proportion of the stored numbers, the base weight taking the place of a stored
  value that is missing, no number or negative.
\<close>

theorem cycle_engine_distribution:
  assumes "engine_ok eng" "e = build_cycle_scoring_engine env u eng"
  shows "cache e = cache eng \<and> engine_ok e \<and>
    (e = eng \<or> (\<exists>p tot. Option.bind u (stored_weights env) = Some (PDict p) \<and> 0 < tot \<and> weight_sum e = 1 \<and>
       [tot * w1 e, tot * w2 e, tot * w3 e, tot * w4 e, tot * w5 e, tot * w6 e, tot * w7 e] =
       [chosen p ''W1_timeline'' (w1 eng), chosen p ''W2_dependencies'' (w2 eng),
        chosen p ''W3_critical_path'' (w3 eng), chosen p ''W4_blocker'' (w4 eng),
        chosen p ''W5_override'' (w5 eng), chosen p ''W6_resource_risk'' (w6 eng),
        chosen p ''W7_constraint'' (w7 eng)]))"
proof (cases "\<exists>v p. u = Some v \<and> stored_weights env v = Some (PDict p)")
  case False
  then have "e = eng"
    by (auto simp: assms(2) build_cycle_scoring_engine_def split: option.split pval.split)
  then show ?thesis using assms(1) by simp
next
  case True
  then obtain v p where u: "u = Some v" "stored_weights env v = Some (PDict p)" by blast
  define c1 c2 c3 c4 c5 c6 c7 where c: "c1 = chosen p ''W1_timeline'' (w1 eng)"
    "c2 = chosen p ''W2_dependencies'' (w2 eng)" "c3 = chosen p ''W3_critical_path'' (w3 eng)"
    "c4 = chosen p ''W4_blocker'' (w4 eng)" "c5 = chosen p ''W5_override'' (w5 eng)"
    "c6 = chosen p ''W6_resource_risk'' (w6 eng)" "c7 = chosen p ''W7_constraint'' (w7 eng)"
  have nn: "0 \<le> c1" "0 \<le> c2" "0 \<le> c3" "0 \<le> c4" "0 \<le> c5" "0 \<le> c6" "0 \<le> c7"
    using assms(1) by (auto simp: c engine_ok_def intro: chosen_nonneg)
  define tot where "tot = c1 + c2 + c3 + c4 + c5 + c6 + c7"
  have e: "e = (if tot \<le> 0 then eng else
      \<lparr>w1 = c1 / tot, w2 = c2 / tot, w3 = c3 / tot, w4 = c4 / tot, w5 = c5 / tot, w6 = c6 / tot, w7 = c7 / tot,
       cache = cache eng\<rparr>)"
    by (simp add: assms(2) u build_cycle_scoring_engine_def overlay_engine with_weights_def Let_def
        c [symmetric] tot_def dict_get_default_def dict_simps add.assoc)
  show ?thesis
  proof (cases "tot \<le> 0")
    case True
    then show ?thesis using assms(1) e by simp
  next
    case False
    then have "weight_sum e = 1"
      by (simp add: e weight_sum_def) (simp add: add_divide_distrib [symmetric] tot_def)
    then show ?thesis
      using False nn u
      by (intro conjI disjI2 exI [of _ p] exI [of _ tot]) (simp_all add: e engine_ok_def c [symmetric])
  qed
qed

text \<open>Stored: a bool is taken for a number, a negative one for none.\<close>

theorem cycle_engine_distribution_witness:
  "let env = \<lparr>oe_exec = mem_exec, oe_store = agent_cfg, oe_loads = (\<lambda>_. Some (PDict [(''W1_timeline'', PBool True),
        (''W2_dependencies'', PInt (- 3))])), oe_float = (\<lambda>_. None), oe_str = (\<lambda>_. []),
        oe_storage = Some (\<lambda>_. Some []), oe_pool = False\<rparr>;
       e = build_cycle_scoring_engine env (Some ''u1'') (default_engine None)
   in weight_sum e = 1 \<and> 5 * w2 e = w1 e"
proof -
  let ?env = "\<lparr>oe_exec = mem_exec, oe_store = agent_cfg, oe_loads = (\<lambda>_. Some (PDict [(''W1_timeline'', PBool True),
        (''W2_dependencies'', PInt (- 3))])), oe_float = (\<lambda>_. None), oe_str = (\<lambda>_. []),
        oe_storage = Some (\<lambda>_. Some []), oe_pool = False\<rparr>"
  let ?e = "build_cycle_scoring_engine ?env (Some ''u1'') (default_engine None)"
  have ok: "engine_ok (default_engine None)" by (simp add: engine_ok_def default_engine_def)
  have path: "user_scoring_weights ''u1'' = Inr ''u1/scoring_weights.json''" by code_simp
  have st: "stored_weights ?env ''u1'' = Some (PDict [(''W1_timeline'', PBool True), (''W2_dependencies'', PInt (- 3))])"
    by (simp add: stored_weights_def path)
  have ne: "?e \<noteq> default_engine None"
    by (simp add: build_cycle_scoring_engine_def st overlay_engine with_weights_def chosen_def dict_simps
        default_engine_def Let_def dict_get_default_def)
  from cycle_engine_distribution [OF ok refl, of ?env "Some ''u1''"] ne
  obtain tot where tot: "weight_sum (?e) = 1"
    "tot * w1 (?e) = 1"
    "tot * w2 (?e) = 2 / 10"
    by (auto simp: st chosen_def dict_simps default_engine_def)
  then have "tot * (5 * w2 ?e) = tot * w1 ?e" "tot \<noteq> 0" by auto
  then have "5 * w2 ?e = w1 ?e" by simp
  with tot(1) show ?thesis by (simp add: Let_def)
qed

subsection \<open>Cached queues\<close>

lemma cycle_body_stores:
  assumes "cycle_body env mo u os = (Inr q, o2, s2)" "q \<noteq> []"
  shows "\<not> score_cache_dirty o2 \<and> dict_get (last_queue_by_scope o2) (or_text u ''__all__'') = Some q \<and>
    last_queue o2 = q \<and> dirty_task_ids o2 = {}"
  using assms
  by (auto simp: cycle_body_def Let_def finish_cycle_def dict_simps split: prod.splits sum.splits if_splits)

lemma served_session: "served_queue u tr (o1\<lparr>current_session_id := x\<rparr>) = served_queue u tr o1"
  by (cases o1) (simp add: served_queue_def orchestrator.defs)

lemma run_cycle_cases:
  assumes "run_cycle env mo u trigger_source w = (r, w')"
  obtains (served) o1 sid where "o1 = (cw_orc w)\<lparr>current_session_id := Some sid\<rparr>"
      "served_queue u trigger_source o1 \<noteq> []" "r = Inr (served_queue u trigger_source o1)"
      "cw_orc w' = o1" "cw_session w' = cw_session w" "cw_log w' = cw_log w"
    | (computed) o1 o2 s2 sid where "o1 = (cw_orc w)\<lparr>current_session_id := Some sid\<rparr>"
      "served_queue u trigger_source o1 = []" "sid = fst (resolve_cycle_session_id (cm_uuid mo) (cw_ambient w))"
      "cycle_body env mo u (o1, cw_session w) = (r, o2, s2)" "cw_orc w' = o2" "cw_session w' = s2"
      "cw_log w' = write_session_log_complete (oe_pool env) (cm_end mo) sid
         (case r of Inl e \<Rightarrow> ''failed'' | Inr q \<Rightarrow> ''completed'') [0, 0, 0, 0, 0, 0]
         (write_session_log_start (oe_pool env) (cm_now mo) sid (or_text u ''system'') trigger_source (cw_log w))"
proof -
  obtain sid amb where sid: "resolve_cycle_session_id (cm_uuid mo) (cw_ambient w) = (sid, amb)" by fastforce
  obtain rr o2 s2 where body: "cycle_body env mo u ((cw_orc w)\<lparr>current_session_id := Some sid\<rparr>, cw_session w) = (rr, o2, s2)"
    by (metis prod_cases3)
  show thesis
  proof (cases "served_queue u trigger_source ((cw_orc w)\<lparr>current_session_id := Some sid\<rparr>) = []")
    case True
    show thesis
      by (rule computed [OF refl True], insert assms True) (auto simp: run_cycle_def sid body Let_def)
  next
    case False
    show thesis
      by (rule served [OF refl False], insert assms False) (auto simp: run_cycle_def sid Let_def)
  qed
qed

text \<open>
  Claim C34: A queue that was computed or served is served to every later heartbeat of the same scope, at
  any time, from any state of the graph and the stored weights: nothing is fetched, scored or
  logged until a mutation of the same process marks the scores dirty or drops the queue.
\<close>

theorem heartbeat_serves_frozen_queue:
  assumes "run_cycle env mo u trigger_source w = (Inr q, w')" "q \<noteq> []"
  shows "fst (run_cycle env' mo' u ''heartbeat'' (w'\<lparr>cw_session := s\<rparr>)) = Inr q \<and>
    cw_session (snd (run_cycle env' mo' u ''heartbeat'' (w'\<lparr>cw_session := s\<rparr>))) = s \<and>
    cw_log (snd (run_cycle env' mo' u ''heartbeat'' (w'\<lparr>cw_session := s\<rparr>))) = cw_log w'"
proof -
  have ready: "\<not> score_cache_dirty (cw_orc w') \<and>
    dict_get (last_queue_by_scope (cw_orc w')) (or_text u ''__all__'') = Some q"
    using assms(1)
  proof (cases rule: run_cycle_cases)
    case (served o1 sid)
    then show ?thesis
      by (auto simp: served_queue_def dict_get_default_def split: if_splits option.splits)
  next
    case (computed o1 o2 s2 sid)
    from cycle_body_stores [OF computed(4) assms(2)] computed(5) show ?thesis by simp
  qed
  then show ?thesis
    using assms(2) by (simp add: run_cycle_def Let_def served_queue_def dict_get_default_def split: prod.split)
qed

subsection \<open>What a computed cycle does\<close>

lemma parse_rows_active:
  "parse_rows loads rows = Inr tasks \<Longrightarrow> t \<in> set tasks \<Longrightarrow>
     \<exists>p \<in> set rows. is_terminal_row p = Inr False \<and> task_validate (dict_get (deserialise_graph_props loads p)) = Some t"
proof (induction rows arbitrary: tasks)
  case Nil
  then show ?case by simp
next
  case (Cons p rows)
  then obtain b ts where b: "is_terminal_row p = Inr b" and ts: "parse_rows loads rows = Inr ts"
    and tasks: "(if b then Inr ts else case task_validate (dict_get (deserialise_graph_props loads p)) of
       Some task \<Rightarrow> Inr (task # ts) | None \<Rightarrow> Inr ts) = (Inr tasks :: py_error + TaskNode list)"
    unfolding parse_rows.simps bindE_Inr_iff by blast
  from Cons.IH [OF ts] Cons.prems(2) b tasks show ?case
    by (cases b) (auto split: option.splits)
qed

lemma parse_rows_raises: "parse_rows loads rows = Inl e \<Longrightarrow> e = PyTypeError"
  by (induction rows)
    (auto simp: bindE_Inl_iff is_terminal_row_def split: option.splits pval.splits if_splits)

text \<open>The one exception the callers of the fetch can see; a query that fails looks like no tasks.\<close>

lemma fetch_raises_only: "fetch_active_tasks env u s = (Inl e, s1) \<Longrightarrow> e = PyTypeError"
  by (auto simp: fetch_active_tasks_def split: prod.splits sum.splits dest: parse_rows_raises)

lemma failed_query_invalidates_nothing:
  "list_rows env (Some u) s = (Inl e, s1) \<Longrightarrow>
     orc_engine (fst (invalidate_scoring_for_user env now u o1 s)) = orc_engine o1"
  by (simp add: invalidate_scoring_for_user_def fetch_active_tasks_def on_cache_def
      invalidate_cached_queue_def Let_def)

lemma context_repo: "sx_graph_repo (fst (build_scoring_context env tasks s)) = Some (oe_store env)"
proof -
  have "sx_graph_repo (fst acc) = Some (oe_store env) \<Longrightarrow>
      sx_graph_repo (fst (foldl (context_step env) acc tasks)) = Some (oe_store env)" for acc
  proof (induction tasks arbitrary: acc)
    case (Cons t ts)
    have "sx_graph_repo (fst (context_step env acc t)) = sx_graph_repo (fst acc)"
      by (simp add: context_step_def Let_def split: prod.split)
    with Cons show ?case by simp
  qed simp
  from this [of "(empty_context\<lparr>sx_graph_repo := Some (oe_store env)\<rparr>, s)"] show ?thesis
    by (simp add: build_scoring_context_def)
qed

lemma cycle_engine_cache: "cache (build_cycle_scoring_engine env u eng) = cache eng"
  by (auto simp: build_cycle_scoring_engine_def with_weights_def Let_def split: option.split pval.split)

lemma scoreable_sub: "t \<in> set (scoreable_tasks tasks) \<Longrightarrow> t \<in> set tasks \<and>
    state t \<notin> {TaskState.COMPLETE, TaskState.CANCELLED, TaskState.BLOCKED, TaskState.SNOOZED}"
  by (auto simp: scoreable_tasks_def is_snoozed_def)

definition queue_tasks :: "json_loads \<Rightarrow> props list \<Rightarrow> TaskNode set" where
  "queue_tasks loads rows = {t. \<exists>p \<in> set rows. is_terminal_row p = Inr False \<and>
     task_validate (dict_get (deserialise_graph_props loads p)) = Some t \<and>
     state t \<notin> {TaskState.COMPLETE, TaskState.CANCELLED, TaskState.BLOCKED, TaskState.SNOOZED}}"

text \<open>
  Claim C33: A cycle that computes a queue ranks only tasks of rows the query of its scope returned, in
  states that allow work; the ranks are 1, 2, ... in the order of the scores, which never rise; the
  queue is kept for the scope and the dirty marks are gone.
\<close>

theorem cycle_queue_sound:
  assumes "cycle_body env mo u os = (Inr q, o2, s2)" "q \<noteq> []" "cache_ok (cache (orc_engine (fst os)))"
  shows "(\<exists>rows. fst (list_rows env u (snd os)) = Inr rows \<and>
      aq_node_id ` set q \<subseteq> node_id ` queue_tasks (oe_loads env) rows) \<and>
    map aq_rank q = map int [1..<length q + 1] \<and>
    (\<forall>i j. i \<le> j \<and> j < length q \<longrightarrow> aq_final_score (q ! j) \<le> aq_final_score (q ! i)) \<and>
    dict_get (last_queue_by_scope o2) (or_text u ''__all__'') = Some q \<and>
    \<not> score_cache_dirty o2 \<and> dirty_task_ids o2 = {}"
proof -
  obtain r1 s1 where f: "fetch_active_tasks env u (snd os) = (r1, s1)" by fastforce
  with assms(1,2) obtain tasks where r1: "r1 = Inr tasks" "tasks \<noteq> []"
    by (auto simp: cycle_body_def split: sum.splits if_splits)
  obtain ctx sb where b: "build_scoring_context env tasks s1 = (ctx, sb)" by fastforce
  let ?ctx = "ctx\<lparr>sx_caller_context := Some (cycle_ctx env (or_text u ''system''))\<rparr>"
  let ?eng = "build_cycle_scoring_engine env u (orc_engine (fst os))"
  obtain rs s3 where sc: "score_all (oe_exec env) (oe_float env) (cm_now mo) ?ctx tasks ?eng sb = (rs, s3)" by fastforce
  have run: "\<exists>final eng'. rs = Inr (Inr q, final, eng')"
    using assms(1) r1 by (auto simp: cycle_body_def f b sc Let_def split: sum.splits)
  then obtain final eng' where rs: "rs = Inr (Inr q, final, eng')" by blast
  have "sx_graph_repo ?ctx = Some (oe_store env)" using context_repo [of env tasks s1] b by simp
  from score_all_result [OF sc [unfolded rs] this] assms(3) obtain supp where
    snd: "queue_sound (filter (\<lambda>i. \<not> dict_get_default supp i False) (map node_id (scoreable_tasks tasks))) q"
    by (auto simp: cycle_engine_cache)
  from f r1(1) obtain rows where rows: "fst (list_rows env u (snd os)) = Inr rows" "parse_rows (oe_loads env) rows = Inr tasks"
    using r1(2) by (auto simp: fetch_active_tasks_def split: prod.splits sum.splits)
  have "aq_node_id ` set q = set (filter (\<lambda>i. \<not> dict_get_default supp i False) (map node_id (scoreable_tasks tasks)))"
    using snd unfolding queue_sound_def by (metis set_map set_mset_mset)
  also have "\<dots> \<subseteq> node_id ` set (scoreable_tasks tasks)" by auto
  also have "\<dots> \<subseteq> node_id ` queue_tasks (oe_loads env) rows"
    using parse_rows_active [OF rows(2)] scoreable_sub [of _ tasks] by (auto simp: queue_tasks_def)
  finally show ?thesis
    using rows(1) snd cycle_body_stores [OF assms(1,2)] by (auto simp: queue_sound_def)
qed

text \<open>
  Every cycle that is not answered from a cached queue closes its row of the session log: the row
  exists, is completed or failed as the cycle returned or raised, and no other row changed. A
  cycle that is answered from the cache leaves the log alone.
\<close>

theorem cycle_closes_its_session:
  assumes "run_cycle env mo u trigger_source w = (r, w')" "oe_pool env"
  shows "if served_queue u trigger_source (cw_orc w) \<noteq> [] then cw_log w' = cw_log w else
    (\<exists>sid row. sid = fst (resolve_cycle_session_id (cm_uuid mo) (cw_ambient w)) \<and>
       dict_get (cw_log w') sid = Some row \<and> sr_completed row = Some (cm_end mo) \<and>
       sr_status row = (case r of Inl e \<Rightarrow> ''failed'' | Inr q \<Rightarrow> ''completed'') \<and>
       (dict_get (cw_log w) sid = None \<longrightarrow> sr_user row = or_text u ''system'' \<and> sr_trigger row = trigger_source) \<and>
       (\<forall>i. i \<noteq> sid \<longrightarrow> dict_get (cw_log w') i = dict_get (cw_log w) i))"
  using assms(1)
proof (cases rule: run_cycle_cases)
  case (served o1 sid)
  then have "served_queue u trigger_source (cw_orc w) \<noteq> []" by (simp add: served_session)
  then show ?thesis using served by simp
next
  case (computed o1 o2 s2 sid)
  then have empty: "served_queue u trigger_source (cw_orc w) = []" by (simp add: served_session)
  show ?thesis
    unfolding computed(7) computed(3) [symmetric]
    by (cases "dict_get (cw_log w) sid")
      (simp_all add: empty assms(2) write_session_log_start_def write_session_log_complete_def dict_simps)
qed

subsection \<open>What the context can hold\<close>

text \<open>A \<open>foldl\<close> over the tasks keeps what every step keeps.\<close>

lemma context_inv:
  assumes "\<And>ctx s t. P ctx s \<Longrightarrow> t \<in> set tasks \<Longrightarrow> P (fst (context_step env (ctx, s) t)) (snd (context_step env (ctx, s) t))"
    and "P (empty_context\<lparr>sx_graph_repo := Some (oe_store env)\<rparr>) s"
  shows "P (fst (build_scoring_context env tasks s)) (snd (build_scoring_context env tasks s))"
proof -
  have "P (fst acc) (snd acc) \<Longrightarrow> set ts \<subseteq> set tasks \<Longrightarrow>
      P (fst (foldl (context_step env) acc ts)) (snd (foldl (context_step env) acc ts))" for acc ts
  proof (induction ts arbitrary: acc)
    case (Cons t ts)
    have "P (fst (context_step env acc t)) (snd (context_step env acc t))"
      using assms(1) [of "fst acc" "snd acc" t] Cons.prems by simp
    from Cons.IH [OF this] Cons.prems(2) show ?case by simp
  qed simp
  from this [of "(empty_context\<lparr>sx_graph_repo := Some (oe_store env)\<rparr>, s)" tasks] assms(2)
  show ?thesis by (simp add: build_scoring_context_def)
qed

text \<open>With the enforcement of the caller context on, every lookup of a node raises.\<close>

lemma node_of_enforced: "no_delete_enforcement (oe_store env) \<Longrightarrow> node_of env i s = (Inl ACLContextMissingError, s)"
  by (simp add: node_of_def get_node_def require_caller_context_def bindS_unfold)

lemma first_priority_enforced:
  "no_delete_enforcement (oe_store env) \<Longrightarrow>
     fst (or_else_io (first_priority env es) GoalPriority.P3 s) = GoalPriority.P3"
  by (induction es) (auto simp: or_else_io_def bindS_unfold node_of_enforced split: option.split)

lemma goal_enforced:
  assumes "no_delete_enforcement (oe_store env)"
  shows "fst (or_else_io (goal_lookup env i) GoalPriority.P3 s) = GoalPriority.P3"
proof -
  have "fst (or_else_io (bindS m (first_priority env)) GoalPriority.P3 s') = GoalPriority.P3" for m s'
    using first_priority_enforced [OF assms]
    by (cases "m s'"; cases "fst (m s')") (auto simp: or_else_io_def bindS_unfold)
  then show ?thesis
    by (cases "edges_of env i ''out'' ''APPLIES_TO'' s"; cases "fst (edges_of env i ''out'' ''APPLIES_TO'' s)")
      (auto simp: goal_lookup_def or_else_io_def bindS_unfold)
qed

lemma resource_enforced:
  "no_delete_enforcement (oe_store env) \<Longrightarrow>
     fst (or_else_io (resource_lookup env i) (None, None, None) s) = (None, None, None)"
  by (auto simp: resource_lookup_def or_else_io_def bindS_unfold node_of_enforced
      split: prod.split sum.split list.split option.split)

lemma add_constraint_enforced:
  assumes "no_delete_enforcement (oe_store env)" "forS (add_constraint env) es cs s = (Inr cs', s')"
  shows "cs' = cs"
  using assms(2)
proof (induction es arbitrary: s)
  case Nil
  then show ?case by simp
next
  case (Cons e es)
  then show ?case
    by (cases "edge_ref e ''_start_id''")
      (auto simp: add_constraint_def bindS_unfold node_of_enforced [OF assms(1)] split: prod.splits)
qed

lemma constraint_enforced:
  assumes "no_delete_enforcement (oe_store env)"
  shows "fst (or_else_io (constraint_lookup env i) [] s) = []"
  using add_constraint_enforced [OF assms]
  by (auto simp: constraint_lookup_def or_else_io_def bindS_unfold split: prod.splits sum.splits)

text \<open>
  With \<open>GRAPHCLAW_NO_DELETE_ENFORCEMENT\<close> on, the context says nothing of goals, resources and
  constraints: the lookups pass no caller context, each of them raises, the handlers swallow it,
  and every task counts as one of a P3 goal without resource and constraint.
\<close>

theorem context_blind_under_enforcement:
  assumes "no_delete_enforcement (oe_store env)" "ctx = fst (build_scoring_context env tasks s)"
  shows "goal_priority_of ctx i = GoalPriority.P3 \<and> task_resource_reliability ctx = [] \<and>
    task_resource_load_factor ctx = [] \<and> task_resource_risk_signals ctx = [] \<and>
    dict_get_default (task_constraints ctx) i [] = []"
proof -
  let ?P = "\<lambda>(ctx :: ScoringContext) (s :: 'a session). (\<forall>i v. dict_get (task_goal_priority ctx) i = Some v \<longrightarrow> v = ''P3'') \<and>
    task_resource_reliability ctx = [] \<and> task_resource_load_factor ctx = [] \<and>
    task_resource_risk_signals ctx = [] \<and> (\<forall>i v. dict_get (task_constraints ctx) i = Some v \<longrightarrow> v = [])"
  have "?P (fst (build_scoring_context env tasks s)) (snd (build_scoring_context env tasks s))"
  proof (rule context_inv)
    fix ctx :: ScoringContext and s :: "'a session" and t :: TaskNode assume P: "?P ctx s"
    obtain p s1 where 1: "or_else_io (goal_lookup env (node_id t)) GoalPriority.P3 s = (p, s1)" by fastforce
    obtain d s2 where 2: "or_else_io (dependents_lookup env (node_id t)) 0 s1 = (d, s2)" by fastforce
    obtain b s3 where 3: "or_else_io (blocker_lookup env (node_id t)) ''NONE'' s2 = (b, s3)" by fastforce
    obtain r s4 where 4: "or_else_io (resource_lookup env (node_id t)) (None, None, None) s3 = (r, s4)" by fastforce
    obtain c s5 where 5: "or_else_io (constraint_lookup env (node_id t)) [] s4 = (c, s5)" by fastforce
    have "p = GoalPriority.P3" "r = (None, None, None)" "c = []"
      using goal_enforced [OF assms(1), of "node_id t" s] resource_enforced [OF assms(1), of "node_id t" s3]
        constraint_enforced [OF assms(1), of "node_id t" s4] 1 4 5 by simp_all
    with P show "?P (fst (context_step env (ctx, s) t)) (snd (context_step env (ctx, s) t))"
      by (simp add: context_step_def Let_def 1 2 3 4 5 set_opt_def dict_simps)
  qed (simp add: empty_context_def dict_simps)
  then show ?thesis
    using assms(2)
    by (auto simp: goal_priority_of_def dict_get_default_def enum_of_value_def GoalPriority_members_def
        split: option.split)
qed

text \<open>
  A graph whose vertices hold what the store can write: no property is a dict, since a dict is
  written as its JSON text.
\<close>

definition texts_only :: "'g database \<Rightarrow> 'g \<Rightarrow> bool" where
  "texts_only exec g \<longleftrightarrow> (\<forall>i p k. fetch exec g i = Some p \<longrightarrow> dict_get p k \<noteq> Some (PDict []) \<and>
     (\<forall>d. dict_get p k \<noteq> Some (PDict d)))"

lemma written_never_dict: "stored v \<noteq> PDict d"
  by (cases v) simp_all

lemma node_of_reads:
  assumes "cypher_service (oe_exec env)" "node_of env i s = (r, s')"
  shows "s' = s" "r = Inr (Some p) \<Longrightarrow> fetch (oe_exec env) (graph s) i = Some p"
  using assms(2)
  by (auto simp: node_of_def cypher_service.get_node_eq [OF assms(1)] visible_def
      split: sum.splits option.splits if_splits)

lemma edges_of_reads:
  assumes "cypher_service (oe_exec env)" "edges_of env i dr ty s = (r, s')"
  shows "s' = s"
  using assms(2)
  by (auto simp: edges_of_def get_edges_def bindS_unfold cypher_service.run_edges [OF assms(1)] split: if_splits)

lemma first_priority_reads:
  "cypher_service (oe_exec env) \<Longrightarrow> first_priority env es s = (r, s') \<Longrightarrow> s' = s"
  by (induction es)
    (auto simp: bindS_unfold split: option.splits prod.splits sum.splits if_splits dest: node_of_reads)

lemma goal_reads:
  assumes "cypher_service (oe_exec env)" "goal_lookup env i s = (r, s')"
  shows "s' = s"
  using assms(2)
  by (auto simp: goal_lookup_def bindS_unfold split: prod.splits sum.splits if_splits
      dest!: edges_of_reads [OF assms(1)] first_priority_reads [OF assms(1)])

lemma count_reads:
  assumes "cypher_service (oe_exec env)"
  shows "dependents_lookup env i s = (r, s') \<Longrightarrow> s' = s" "blocker_lookup env i s = (b, s') \<Longrightarrow> s' = s"
  by (auto simp: dependents_lookup_def blocker_lookup_def bindS_unfold split: prod.splits sum.splits
      dest!: edges_of_reads [OF assms])

lemma texts_neutral:
  assumes "texts_only exec g" "fetch exec g i = Some p"
  shows "resource_data env p = (Some (8 / 10), Some 0, Some 0)"
    "constraint_of p = [(''threshold'', PNone), (''current_value'', PNone),
       (''pressure_score'', PFloat 0), (''hard_limit'', PBool False)]"
proof -
  have nd: "dict_get p k \<noteq> Some (PDict d)" for k d
    using assms by (auto simp: texts_only_def)
  then have b: "block_float f p k l d = Some d" for f k l d
    by (auto simp: block_float_def dict_get_default_def dict_simps split: option.split pval.split)
  have r: "risk_signals f p = 0" for f
    using nd by (auto simp: risk_signals_def dict_get_default_def dict_simps level_map_def text_of_def
        to_upper_def split: option.split pval.split)
  show "resource_data env p = (Some (8 / 10), Some 0, Some 0)"
    by (simp add: resource_data_def b r)
  show "constraint_of p = [(''threshold'', PNone), (''current_value'', PNone),
      (''pressure_score'', PFloat 0), (''hard_limit'', PBool False)]"
    using nd by (auto simp: constraint_of_def dict_get_default_def dict_simps split: option.split pval.split)
qed

lemma resource_reads:
  assumes "cypher_service (oe_exec env)" "resource_lookup env i s = (r, s')"
  shows "s' = s"
  using assms(2)
  by (auto simp: resource_lookup_def bindS_unfold split: prod.splits sum.splits list.splits option.splits
      dest!: edges_of_reads [OF assms(1)] node_of_reads(1) [OF assms(1)])

lemma constraint_reads:
  assumes "cypher_service (oe_exec env)" "constraint_lookup env i s = (r, s')"
  shows "s' = s"
proof -
  have step: "s2 = s1" if "add_constraint env e cs s1 = (r1, s2)" for e cs s1 r1 s2
    using that by (auto simp: add_constraint_def bindS_unfold split: option.splits prod.splits sum.splits
        dest: node_of_reads(1) [OF assms(1)])
  have "s2 = s1" if "forS (add_constraint env) es cs s1 = (r1, s2)" for es cs s1 r1 s2
    by (rule forS_rel [where R = "\<lambda>a b. b = a", OF _ _ _ that]) (simp_all, rule step)
  with assms(2) show ?thesis
    by (auto simp: constraint_lookup_def bindS_unfold split: prod.splits sum.splits
        dest: edges_of_reads [OF assms(1)])
qed

lemma resource_texts:
  assumes "cypher_service (oe_exec env)" "texts_only (oe_exec env) (graph s)" "resource_lookup env i s = (r, s')"
  shows "s' = s" "r = Inr x \<Longrightarrow> x = (None, None, None) \<or> x = (Some (8 / 10), Some 0, Some 0)"
proof -
  show "s' = s"
    using assms(3)
    by (auto simp: resource_lookup_def bindS_unfold split: prod.splits sum.splits list.splits option.splits
        dest!: edges_of_reads [OF assms(1)] node_of_reads(1) [OF assms(1)])
  have data: "resource_data env p = (Some (8 / 10), Some 0, Some 0)"
    if "edges_of env i0 dr ty s = (es, s0)" "node_of env j s0 = (Inr (Some p), s1)" for i0 dr ty es s0 j p s1
    using edges_of_reads [OF assms(1) that(1)] node_of_reads(2) [OF assms(1) that(2) refl]
      texts_neutral(1) [OF assms(2)] by simp
  assume "r = Inr x"
  with assms(3) show "x = (None, None, None) \<or> x = (Some (8 / 10), Some 0, Some 0)"
    by (auto simp: resource_lookup_def bindS_unfold split: prod.splits sum.splits list.splits option.splits if_splits
        dest: data)
qed

lemma or_else_cases: "or_else_io m d s = (x, s') \<Longrightarrow> (\<exists>e. m s = (Inl e, s') \<and> x = d) \<or> m s = (Inr x, s')"
  by (auto simp: or_else_io_def split: prod.splits sum.splits)

definition neutral :: "props \<Rightarrow> bool" where
  "neutral c \<longleftrightarrow> c = [(''threshold'', PNone), (''current_value'', PNone),
     (''pressure_score'', PFloat 0), (''hard_limit'', PBool False)]"

lemma constraint_texts:
  assumes "cypher_service (oe_exec env)" "texts_only (oe_exec env) (graph s)" "constraint_lookup env i s = (r, s')"
  shows "s' = s \<and> (\<forall>cs. r = Inr cs \<longrightarrow> list_all neutral cs)"
proof -
  have loop: "s2 = s \<and> (\<forall>cs'. r2 = Inr cs' \<longrightarrow> list_all neutral cs')"
    if "forS (add_constraint env) es cs s = (r2, s2)" "list_all neutral cs" for es cs r2 s2
    using that
  proof (induction es arbitrary: cs)
    case Nil
    then show ?case by auto
  next
    case (Cons e es)
    show ?case
    proof (cases "edge_ref e ''_start_id''")
      case None
      then have "add_constraint env e cs = returnS cs" by (simp add: add_constraint_def)
      then have "forS (add_constraint env) es cs s = (r2, s2)" using Cons.prems(1) by simp
      then show ?thesis using Cons.prems(2) by (rule Cons.IH)
    next
      case (Some j)
      obtain r3 s3 where n: "node_of env j s = (r3, s3)" by fastforce
      note same = node_of_reads(1) [OF assms(1) n]
      have keep: "list_all neutral (case x of None \<Rightarrow> cs | Some p \<Rightarrow> if p = [] then cs else cs @ [constraint_of p])"
        if "r3 = Inr x" for x
      proof (cases x)
        case (Some p)
        then have "fetch (oe_exec env) (graph s) j = Some p"
          using node_of_reads(2) [OF assms(1) n] that by simp
        from texts_neutral(2) [OF assms(2) this] have "neutral (constraint_of p)" by (simp add: neutral_def)
        then show ?thesis using Cons.prems(2) Some by simp
      qed (simp add: Cons.prems(2))
      have step: "add_constraint env e cs s = (case r3 of Inl err \<Rightarrow> (Inl err, s)
          | Inr x \<Rightarrow> (Inr (case x of None \<Rightarrow> cs | Some p \<Rightarrow> if p = [] then cs else cs @ [constraint_of p]), s))"
        using n same by (cases r3) (simp_all add: add_constraint_def Some bindS_unfold)
      show ?thesis
      proof (cases r3)
        case (Inl e)
        then show ?thesis using Cons.prems(1) step by (auto simp: bindS_unfold)
      next
        case (Inr x)
        then have "forS (add_constraint env) es
            (case x of None \<Rightarrow> cs | Some p \<Rightarrow> if p = [] then cs else cs @ [constraint_of p]) s = (r2, s2)"
          using Cons.prems(1) step by (simp add: Inr bindS_unfold)
        from Cons.IH [OF this keep [OF Inr]] show ?thesis .
      qed
    qed
  qed
  obtain r1 s1 where e: "edges_of env i ''in'' ''APPLIES_TO'' s = (r1, s1)" by fastforce
  with edges_of_reads [OF assms(1) e] assms(3) loop [of _ "[]"] show ?thesis
    by (cases r1) (auto simp: constraint_lookup_def bindS_unfold)
qed

lemma set_opt_get: "dict_get (set_opt k v d) i = Some x \<Longrightarrow> v = Some x \<or> dict_get d i = Some x"
  by (auto simp: set_opt_def dict_simps split: option.splits if_splits)

lemma context_step_reads:
  assumes "cypher_service (oe_exec env)"
  shows "snd (context_step env (ctx, s) t) = s"
proof -
  obtain p s1 where 1: "or_else_io (goal_lookup env (node_id t)) GoalPriority.P3 s = (p, s1)" by fastforce
  have s1: "s1 = s" using or_else_cases [OF 1] goal_reads [OF assms] by metis
  obtain d s2 where 2: "or_else_io (dependents_lookup env (node_id t)) 0 s = (d, s2)" by fastforce
  have s2: "s2 = s" using or_else_cases [OF 2] count_reads(1) [OF assms] by metis
  obtain b s3 where 3: "or_else_io (blocker_lookup env (node_id t)) ''NONE'' s = (b, s3)" by fastforce
  have s3: "s3 = s" using or_else_cases [OF 3] count_reads(2) [OF assms] by metis
  obtain r s4 where 4: "or_else_io (resource_lookup env (node_id t)) (None, None, None) s = (r, s4)" by fastforce
  have s4: "s4 = s" using or_else_cases [OF 4] resource_reads [OF assms] by metis
  obtain c s5 where 5: "or_else_io (constraint_lookup env (node_id t)) [] s = (c, s5)" by fastforce
  have s5: "s5 = s" using or_else_cases [OF 5] constraint_reads [OF assms] by metis
  show ?thesis by (simp add: context_step_def Let_def 1 2 3 4 5 s1 s2 s3 s4 s5 split: prod.split)
qed

lemma no_pressure [simp]: "constraint_pressure f [] = 0"
  by (simp add: constraint_pressure_def)

lemma neutral_pressure: "list_all neutral cs \<Longrightarrow> constraint_pressure f cs = 0"
  by (induction cs) (auto simp: constraint_pressure_def neutral_def one_pressure_def dict_get_default_def dict_simps)

text \<open>
  As long as the vertices hold what the store can write, nested blocks are JSON texts, no
  \<open>isinstance(block, dict)\<close> of the context builder holds, and the context is the same for every
  resource and every constraint: reliability 0.8, load and risk 0, pressure 0. Building it changes
  nothing.
\<close>

theorem stored_blocks_are_ignored:
  assumes "cypher_service (oe_exec env)" "texts_only (oe_exec env) (graph s)"
    "build_scoring_context env tasks s = (ctx, s')"
  shows "s' = s \<and> dict_get_default (task_resource_reliability ctx) i (8 / 10) = 8 / 10 \<and>
    dict_get_default (task_resource_load_factor ctx) i 0 = 0 \<and>
    dict_get_default (task_resource_risk_signals ctx) i 0 = 0 \<and>
    constraint_pressure f (dict_get_default (task_constraints ctx) i []) = 0"
proof -
  let ?P = "\<lambda>(ctx :: ScoringContext) s1. s1 = s \<and>
    (\<forall>i v. dict_get (task_resource_reliability ctx) i = Some v \<longrightarrow> v = 8 / 10) \<and>
    (\<forall>i v. dict_get (task_resource_load_factor ctx) i = Some v \<longrightarrow> v = 0) \<and>
    (\<forall>i v. dict_get (task_resource_risk_signals ctx) i = Some v \<longrightarrow> v = 0) \<and>
    (\<forall>i v. dict_get (task_constraints ctx) i = Some v \<longrightarrow> list_all neutral v)"
  have "?P (fst (build_scoring_context env tasks s)) (snd (build_scoring_context env tasks s))"
  proof (rule context_inv)
    fix ctx :: ScoringContext and s0 and t :: TaskNode assume P: "?P ctx s0"
    obtain p s1 where 1: "or_else_io (goal_lookup env (node_id t)) GoalPriority.P3 s = (p, s1)" by fastforce
    have s1: "s1 = s" using or_else_cases [OF 1] goal_reads [OF assms(1)] by metis
    obtain d s2 where 2: "or_else_io (dependents_lookup env (node_id t)) 0 s = (d, s2)" by fastforce
    have s2: "s2 = s" using or_else_cases [OF 2] count_reads(1) [OF assms(1)] by metis
    obtain b s3 where 3: "or_else_io (blocker_lookup env (node_id t)) ''NONE'' s = (b, s3)" by fastforce
    have s3: "s3 = s" using or_else_cases [OF 3] count_reads(2) [OF assms(1)] by metis
    obtain r s4 where 4: "or_else_io (resource_lookup env (node_id t)) (None, None, None) s = (r, s4)" by fastforce
    have s4: "s4 = s \<and> (r = (None, None, None) \<or> r = (Some (8 / 10), Some 0, Some 0))"
      using or_else_cases [OF 4] resource_texts [OF assms(1,2)] by metis
    obtain c s5 where 5: "or_else_io (constraint_lookup env (node_id t)) [] s = (c, s5)" by fastforce
    have s5: "s5 = s \<and> list_all neutral c"
      using or_else_cases [OF 5] constraint_texts [OF assms(1,2)] by (metis list.pred_inject(1))
    obtain rel ld risk where r: "r = (rel, ld, risk)" by (metis prod_cases3)
    let ?c = "context_step env (ctx, s) t"
    have c: "snd ?c = s" "task_resource_reliability (fst ?c) = set_opt (node_id t) rel (task_resource_reliability ctx)"
      "task_resource_load_factor (fst ?c) = set_opt (node_id t) ld (task_resource_load_factor ctx)"
      "task_resource_risk_signals (fst ?c) = set_opt (node_id t) risk (task_resource_risk_signals ctx)"
      "task_constraints (fst ?c) = dict_set (node_id t) c (task_constraints ctx)"
      by (simp_all add: context_step_def Let_def 1 2 3 4 5 r s1 s2 s3 s4 s5)
    have rel: "\<forall>v. rel = Some v \<longrightarrow> v = 8 / 10" and ld: "\<forall>v. ld = Some v \<longrightarrow> v = 0" and risk: "\<forall>v. risk = Some v \<longrightarrow> v = 0"
      using s4 r by auto
    have "s0 = s" using P by simp
    then show "?P (fst (context_step env (ctx, s0) t)) (snd (context_step env (ctx, s0) t))"
      using P s5 rel ld risk unfolding \<open>s0 = s\<close> c by (auto dest!: set_opt_get simp: dict_get_set split: if_splits)
  qed (simp add: empty_context_def dict_simps)
  then show ?thesis
    using assms(3) by (auto simp: dict_get_default_def neutral_pressure intro: neutral_pressure split: option.split)
qed

subsection \<open>Two loaders of the same rows\<close>

text \<open>
  The state machine reads rows with \<open>load_task\<close>, which decodes the JSON columns by name; the
  orchestrator decodes every text that looks like JSON.
\<close>

definition plain_texts :: "TaskNode \<Rightarrow> bool" where
  "plain_texts t \<longleftrightarrow> list_all (\<lambda>(k, v). \<not> json_shaped v) (task_dump t)"

definition agrees :: "json_loads \<Rightarrow> string \<Rightarrow> pval \<Rightarrow> bool" where
  "agrees loads k v \<longleftrightarrow> v = PNone \<or> json_shaped v \<or> graph_value loads (stored v) = decode_key loads k (stored v)"

definition decoded_keys :: "string list" where
  "decoded_keys = TASK_NODE_JSON_STR_FIELDS @ TASK_NODE_JSON_LIST_FIELDS"

lemma decode_key_other: "k \<notin> set decoded_keys \<Longrightarrow> decode_key loads k v = v"
  by (simp add: decode_key_def decoded_keys_def)

lemma agrees_plain:
  assumes "k \<notin> set decoded_keys"
  shows "agrees loads k (PStr s)" "agrees loads k (PTime d)" "agrees loads k (PInt i)" "agrees loads k (PBool b)"
    "agrees loads k (dump_opt PStr x)" "agrees loads k (dump_opt PTime y)" "agrees loads k (dump_enum f e)"
proof -
  show s: "agrees loads k (PStr s)" for s by (auto simp: agrees_def decode_key_other [OF assms] graph_value_def)
  show d: "agrees loads k (PTime d)" for d by (simp add: agrees_def decode_key_other [OF assms] graph_value_def)
  show "agrees loads k (PInt i)" "agrees loads k (PBool b)"
    by (simp_all add: agrees_def decode_key_other [OF assms] graph_value_def)
  show "agrees loads k (dump_opt PStr x)" "agrees loads k (dump_opt PTime y)"
    using s d by (cases x; cases y; simp add: dump_opt_def agrees_def)+
  show "agrees loads k (dump_enum f e)" using s by (simp add: dump_enum_def)
qed

lemma agrees_block: "\<exists>d. v = PDict d \<Longrightarrow> k \<in> set TASK_NODE_JSON_STR_FIELDS \<Longrightarrow> agrees loads k v"
  by (auto simp: agrees_def graph_value_def decode_key_def decode_str_field_def)

lemma agrees_blocks:
  assumes "k \<notin> set TASK_NODE_JSON_STR_FIELDS" "k \<in> set TASK_NODE_JSON_LIST_FIELDS" "\<And>x. \<exists>d. f x = PDict d"
  shows "agrees loads k (dump_list f xs)"
proof -
  have "decode_lenient loads (stored (f x)) = decode_item loads (stored (f x))" for x
    using assms(3) [of x] by (auto simp: decode_lenient_def decode_item_def)
  then show ?thesis
    using assms(1,2) by (simp add: agrees_def graph_value_def decode_key_def decode_list_field_def dump_list_def)
qed

lemma agrees_tags:
  assumes "k \<notin> set TASK_NODE_JSON_STR_FIELDS" "k \<in> set TASK_NODE_JSON_LIST_FIELDS" "list_all (\<lambda>s. loads s = None) xs"
  shows "agrees loads k (dump_list PStr xs)"
  using assms
  by (auto simp: agrees_def graph_value_def decode_key_def decode_list_field_def dump_list_def decode_lenient_def
      decode_item_def list_all_iff)

lemma dumps_are_dicts:
  "\<exists>d. StateHistoryEntry_dump x1 = PDict d" "\<exists>d. UpdateLogEntry_dump x2 = PDict d" "\<exists>d. Timeline_dump x3 = PDict d"
  "\<exists>d. ScoringBlock_dump x4 = PDict d" "\<exists>d. ProgressBlock_dump x5 = PDict d" "\<exists>d. OverrideBlock_dump x6 = PDict d"
  "\<exists>d. AutonomyBlock_dump x7 = PDict d" "\<exists>d. TypeMetadata_dump x8 = PDict d"
  by (simp_all add: StateHistoryEntry_dump_def UpdateLogEntry_dump_def Timeline_dump_def ScoringBlock_dump_def
      ProgressBlock_dump_def OverrideBlock_dump_def AutonomyBlock_dump_def) (cases x8; simp)

lemma agrees_task:
  assumes "storable loads t"
  shows "list_all (\<lambda>(k, v). agrees loads k v) (task_dump t)"
proof -
  have blocks: "agrees loads ''timeline'' (Timeline_dump (timeline t))" "agrees loads ''scoring'' (ScoringBlock_dump (scoring t))"
    "agrees loads ''progress'' (ProgressBlock_dump (progress t))" "agrees loads ''override'' (OverrideBlock_dump (override t))"
    "agrees loads ''autonomy'' (AutonomyBlock_dump (autonomy t))"
    by (intro agrees_block dumps_are_dicts; simp add: TASK_NODE_JSON_STR_FIELDS_def)+
  have md: "agrees loads ''type_metadata'' (dump_opt TypeMetadata_dump (type_metadata t))"
    using agrees_block [OF dumps_are_dicts(8), of "''type_metadata''" loads]
    by (cases "type_metadata t") (simp_all add: TASK_NODE_JSON_STR_FIELDS_def dump_opt_def agrees_def)
  have lists: "agrees loads ''state_history'' (dump_list StateHistoryEntry_dump (state_history t))"
    "agrees loads ''update_log'' (dump_list UpdateLogEntry_dump (update_log t))"
    by (rule agrees_blocks, simp_all add: TASK_NODE_JSON_STR_FIELDS_def TASK_NODE_JSON_LIST_FIELDS_def dumps_are_dicts)+
  have tags: "agrees loads ''tags'' (dump_list PStr (tags t))"
    using assms by (intro agrees_tags) (simp_all add: TASK_NODE_JSON_STR_FIELDS_def TASK_NODE_JSON_LIST_FIELDS_def storable_def)
  have emb: "agrees loads ''embedding_inputs'' (dump_opt EmbeddingInputs_dump (embedding_inputs t))"
    using assms by (simp add: storable_def dump_opt_def agrees_def)
  have keys: "decoded_keys = [''scoring'', ''timeline'', ''progress'', ''override'', ''autonomy'', ''type_metadata'',
      ''state_history'', ''update_log'', ''tags'']"
    by (simp add: decoded_keys_def TASK_NODE_JSON_STR_FIELDS_def TASK_NODE_JSON_LIST_FIELDS_def)
  show ?thesis
    unfolding task_dump_def
    by (simp add: blocks md lists tags emb agrees_plain keys)
qed

lemma dict_get_deserialise:
  "dict_get (deserialise_graph_props loads d) k = map_option (graph_value loads) (dict_get d k)"
  by (simp add: deserialise_graph_props_def dict_get_def map_of_map)

lemma loader_reads_task:
  assumes "storable loads t" "plain_texts t"
  shows "task_validate (dict_get (deserialise_graph_props loads (row_of (task_dump t)))) = Some t"
proof -
  have "dict_get (deserialise_graph_props loads (row_of (task_dump t))) k =
      (case dict_get (task_dump t) k of None \<Rightarrow> None | Some v \<Rightarrow> via (decode_key loads k) v)" for k
  proof (cases "dict_get (task_dump t) k")
    case None
    then show ?thesis by (simp add: dict_get_deserialise dict_get_row_of task_dump_ok row_value_def)
  next
    case (Some v)
    then have "(k, v) \<in> set (task_dump t)" by (rule dict_get_SomeD)
    then have "v = PNone \<or> graph_value loads (stored v) = decode_key loads k (stored v)"
      using agrees_task [OF assms(1)] assms(2) by (auto simp: plain_texts_def list_all_iff agrees_def)
    then show ?thesis
      by (auto simp: dict_get_deserialise dict_get_row_of task_dump_ok row_value_def Some via_def)
  qed
  then have "dict_get (deserialise_graph_props loads (row_of (task_dump t))) =
      (\<lambda>k. case dict_get (task_dump t) k of None \<Rightarrow> None | Some v \<Rightarrow> via (decode_key loads k) v)" by blast
  then show ?thesis using validate_loaded [OF assms(1)] by simp
qed

text \<open>
  The two loaders agree on a task the store can hold, unless one of its texts starts with a brace
  or a bracket: the orchestrator reads back the same task the state machine does.
\<close>

theorem loaders_agree:
  assumes "storable loads t" "plain_texts t"
  shows "task_validate (dict_get (deserialise_graph_props loads (row_of (task_dump t)))) = Some t"
  by (rule loader_reads_task [OF assms])

theorem loaders_agree_witness:
  "task_validate (dict_get (deserialise_graph_props (\<lambda>_. None) (row_of (task_dump (example_task TaskType.REVIEW))))) =
     Some (example_task TaskType.REVIEW)"
  by (rule loaders_agree) code_simp+

lemma no_title: "dict_get d ''title'' = Some v \<Longrightarrow> dec_str v = None \<Longrightarrow> task_validate (dict_get d) = None"
  by (auto simp: task_validate_def req_def bind_eq_None_conv)

lemma parse_rows_skips:
  assumes "is_terminal_row row = Inr b" "task_validate (dict_get (deserialise_graph_props loads row)) = None"
  shows "parse_rows loads (as @ row # bs) = parse_rows loads (as @ bs)"
proof (induction as)
  case Nil
  then show ?case using assms by (cases "parse_rows loads bs") simp_all
next
  case (Cons a as)
  then show ?case by simp
qed

lemma dump_title: "dict_get (task_dump t) ''title'' = Some (PStr (title t))"
  "dict_get (task_dump t) ''state'' = Some (PStr (TaskState_value (state t)))"
  by (simp_all add: task_dump_def dict_get_Cons dump_enum_def)

text \<open>
  A task whose title is the text of a JSON list or object is read by the state machine as it is,
  and is not there for the orchestrator: its row is skipped in every fetch, so it is never scored,
  never in a queue and never invalidated.
\<close>

theorem json_title_never_scored:
  assumes "storable loads t" "json_shaped (PStr (title t))"
    "loads (title t) = Some (PList vs) \<and> those (map (decode_strict loads) vs) \<noteq> None \<or> loads (title t) = Some (PDict d)"
  shows "load_task loads (row_of (task_dump t)) = Some t \<and>
    parse_rows loads (as @ row_of (task_dump t) # bs) = parse_rows loads (as @ bs)"
proof
  show "load_task loads (row_of (task_dump t)) = Some t"
    unfolding load_task_def loaded_fields using assms(1) by (rule validate_loaded)
  have "dict_get (deserialise_graph_props loads (row_of (task_dump t))) ''title'' = Some (graph_value loads (PStr (title t)))"
    by (simp add: dict_get_deserialise dict_get_row_of task_dump_ok dump_title row_value_def)
  moreover have "dec_str (graph_value loads (PStr (title t))) = None"
    using assms(2,3) by (auto simp: graph_value_def)
  ultimately have none: "task_validate (dict_get (deserialise_graph_props loads (row_of (task_dump t)))) = None"
    by (rule no_title)
  have "is_terminal_row (row_of (task_dump t)) = Inr (TaskState_value (state t) \<in> set TERMINAL)"
    by (simp add: is_terminal_row_def dict_get_row_of task_dump_ok dump_title row_value_def)
  from parse_rows_skips [OF this none] show "parse_rows loads (as @ row_of (task_dump t) # bs) = parse_rows loads (as @ bs)" .
qed

theorem json_title_never_scored_witness:
  "parse_rows (\<lambda>s. if s = ''[1]'' then Some (PList [PInt 1]) else None)
     [row_of (task_dump (example_task TaskType.REVIEW\<lparr>title := ''[1]''\<rparr>))] = Inr []"
proof -
  let ?loads = "\<lambda>s. if s = ''[1]'' then Some (PList [PInt 1]) else None"
  let ?t = "example_task TaskType.REVIEW\<lparr>title := ''[1]''\<rparr>"
  have "storable ?loads ?t" "json_shaped (PStr (title ?t))"
    "?loads (title ?t) = Some (PList [PInt 1]) \<and> those (map (decode_strict ?loads) [PInt 1]) \<noteq> None \<or>
      ?loads (title ?t) = Some (PDict [])"
    by code_simp+
  from json_title_never_scored [OF this, of "[]" "[]"] show ?thesis by simp
qed

subsection \<open>Concrete cycles\<close>

definition demo_env :: "bool \<Rightarrow> mem_graph orc_env" where
  "demo_env enforced = \<lparr>oe_exec = mem_exec, oe_store = agent_cfg\<lparr>no_delete_enforcement := enforced\<rparr>,
     oe_loads = (\<lambda>_. None), oe_float = (\<lambda>_. None), oe_str = (\<lambda>_. []), oe_storage = None, oe_pool = True\<rparr>"

definition demo_moment :: cycle_moment where
  "demo_moment = \<lparr>cm_now = utc_dt 0, cm_end = utc_dt us_per_day, cm_uuid = ''x''\<rparr>"

definition demo_session :: "mem_graph session" where
  "demo_session = one_task_session (example_task TaskType.ATOMIC)"

definition demo_world :: "mem_graph cycle_world" where
  "demo_world = \<lparr>cw_orc = new_orchestrator (default_engine None), cw_session = demo_session,
     cw_ambient = [], cw_log = []\<rparr>"

lemma one_task_pass:
  assumes "sx_graph_repo ctx = Some cfg" "\<not> no_delete_enforcement cfg" "cache_ok (cache eng)"
  shows "\<exists>q final eng' s'. score_all mem_exec f now ctx [example_task TaskType.ATOMIC] eng demo_session =
      (Inr (Inr q, final, eng'), s') \<and> map aq_node_id q = [''TSK-AB-1234-ATM'']"
proof -
  let ?t = "example_task TaskType.ATOMIC"
  have nid: "node_id ?t = ''TSK-AB-1234-ATM''" by (simp add: example_defs)
  have sc: "scoreable_tasks [?t] = [?t]"
    by (simp add: scoreable_tasks_def is_snoozed_def example_defs)
  have an: "analyze_chain_topology mem_exec cfg ?t demo_session = (Inr (standalone (node_id ?t)), demo_session)"
    unfolding demo_session_def by (rule mem.analyze_undecoded [OF assms(2) one_task_scoring_text])
  have sup: "apply_sequential_suppression mem_exec cfg [?t] demo_session = (Inr [(node_id ?t, False)], demo_session)"
    by (simp add: apply_sequential_suppression_def bindS_unfold an standalone_def dict_set_def)
  have ru: "urgency_rollup mem_exec cfg [?t] demo_session = (Inr [(node_id ?t, 0)], demo_session)"
    by (simp add: urgency_rollup_def bindS_unfold an standalone_def dict_set_def)
  obtain r eng1 where l: "score_loop f now ctx [(node_id ?t, False)]
      (map (apply_rollup [(node_id ?t, 0)]) [?t]) eng = (r, eng1)" by fastforce
  obtain u s2 where p: "forS (\<lambda>e _. persist_score mem_exec cfg (sx_caller_context ctx)
      (tasks_by_id (map with_priority r)) e) (ranked (scored_pairs r)) () demo_session = (Inr u, s2)"
    using persist_scores_return by (metis prod.collapse)
  obtain res final eng' s' where run: "score_all mem_exec f now ctx [?t] eng demo_session = (Inr (res, final, eng'), s')"
    by (rule that) (simp only: score_all_def Let_def sc assms(1) option.case bindS_unfold sup ru l p
      io_simps prod.case sum.case)
  from score_all_result [OF run assms(1,3)] obtain q where q: "res = Inr q" "queue_sound [node_id ?t] q"
    unfolding sc sup by (auto simp: dict_get_default_def dict_get_Cons)
  have "mset (map aq_node_id q) = {#''TSK-AB-1234-ATM''#}"
    using q(2) by (simp add: queue_sound_def nid)
  then have "map aq_node_id q = [''TSK-AB-1234-ATM'']" by (metis mset_single_iff)
  with run [unfolded q(1)] show ?thesis by (intro exI conjI)
qed

lemma demo_fetch: "fetch_active_tasks (demo_env False) None demo_session = (Inr [example_task TaskType.ATOMIC], demo_session)"
proof -
  let ?t = "example_task TaskType.ATOMIC"
  have rows: "list_rows (demo_env False) None demo_session = (Inr [row_of (task_dump ?t)], demo_session)"
    by code_simp
  have "storable (\<lambda>_. None) ?t" "plain_texts ?t" by code_simp+
  from loader_reads_task [OF this] have
    "task_validate (dict_get (deserialise_graph_props (\<lambda>_. None) (row_of (task_dump ?t)))) = Some ?t" .
  moreover have "is_terminal_row (row_of (task_dump ?t)) = Inr False" by code_simp
  ultimately show ?thesis
    unfolding fetch_active_tasks_def rows by (simp add: demo_env_def)
qed

lemma demo_body:
  obtains q o2 s2 where "cycle_body (demo_env False) demo_moment None (o1\<lparr>orc_engine := default_engine None\<rparr>, demo_session) =
      (Inr q, o2, s2)" "map aq_node_id q = [''TSK-AB-1234-ATM'']"
proof -
  let ?o = "o1\<lparr>orc_engine := default_engine None\<rparr>"
  obtain ctx s1 where b: "build_scoring_context (demo_env False) [example_task TaskType.ATOMIC] demo_session = (ctx, s1)"
    by fastforce
  have rw: "cypher_service (oe_exec (demo_env False))" "oe_exec (demo_env False) = mem_exec"
    by (simp_all add: demo_env_def mem.cypher_service_axioms)
  have "snd (context_step (demo_env False) (c, demo_session) t) = demo_session" for c t
    by (rule context_step_reads [OF rw(1)])
  then have s1: "s1 = demo_session" using b by (simp add: build_scoring_context_def) (metis snd_conv)
  have ok: "cache_ok (cache (default_engine None))"
    by (simp add: cache_ok_def default_engine_def empty_cache_def cache_get_def dict_get_Nil)
  let ?ctx = "ctx\<lparr>sx_caller_context := Some (cycle_ctx (demo_env False) (or_text None ''system''))\<rparr>"
  have repo: "sx_graph_repo ?ctx = Some (oe_store (demo_env False))"
    using context_repo [of "demo_env False" "[example_task TaskType.ATOMIC]" demo_session] b by simp
  have enf: "\<not> no_delete_enforcement (oe_store (demo_env False))" by (simp add: demo_env_def)
  from one_task_pass [OF repo enf ok, of "oe_float (demo_env False)" "cm_now demo_moment"] obtain q final eng' s' where
    "score_all mem_exec (oe_float (demo_env False)) (cm_now demo_moment) ?ctx [example_task TaskType.ATOMIC]
       (default_engine None) demo_session = (Inr (Inr q, final, eng'), s')" "map aq_node_id q = [''TSK-AB-1234-ATM'']"
    by (elim exE conjE) (rule that)
  then show thesis
    by (intro that [of q]) (simp_all add: cycle_body_def demo_fetch b s1 rw(2) build_cycle_scoring_engine_def Let_def)
qed

lemma row_of_texts: "(k, v) \<in> set (row_of d) \<Longrightarrow> v \<noteq> PDict e"
  using written_never_dict by (auto simp: row_of_def)

lemma mem_texts_only:
  assumes "\<And>v. v \<in> set (vertices g) \<Longrightarrow> \<exists>d. snd v = row_of d"
  shows "texts_only mem_exec g"
proof -
  have "dict_get p k \<noteq> Some (PDict d)" if "fetch mem_exec g i = Some p" for i p k d
  proof
    assume d: "dict_get p k = Some (PDict d)"
    from that have "p \<in> snd ` set (filter (has_id i) (vertices g))"
      by (cases "filter (has_id i) (vertices g)") (auto simp: fetch_def node_rows_def)
    with assms obtain e where "p = row_of e" by (metis (no_types, lifting) filter_is_subset imageE subsetD)
    with row_of_texts d show False by (metis dict_get_SomeD)
  qed
  then show ?thesis by (simp add: texts_only_def)
qed

lemma default_cache_ok: "cache_ok (cache (default_engine None))"
  by (simp add: cache_ok_def default_engine_def empty_cache_def cache_get_def dict_get_Nil)

theorem cycle_queue_sound_witness:
  "\<exists>q o2 s2. cycle_body (demo_env False) demo_moment None (new_orchestrator (default_engine None), demo_session) = (Inr q, o2, s2) \<and>
     map aq_node_id q = [''TSK-AB-1234-ATM''] \<and> map aq_rank q = [1] \<and> \<not> score_cache_dirty o2"
proof -
  obtain q o2 s2 where run: "cycle_body (demo_env False) demo_moment None
      (new_orchestrator (default_engine None)\<lparr>orc_engine := default_engine None\<rparr>, demo_session) = (Inr q, o2, s2)"
    and ids: "map aq_node_id q = [''TSK-AB-1234-ATM'']" by (rule demo_body)
  from ids have "q \<noteq> []" "length q = 1" by auto
  then have "map aq_rank q = [1]" "\<not> score_cache_dirty o2"
    using cycle_queue_sound [OF run] default_cache_ok by simp_all
  with run ids show ?thesis by (simp add: new_orchestrator_def)
qed

lemma demo_run:
  obtains q w' where "run_cycle (demo_env False) demo_moment None ''heartbeat'' demo_world = (Inr q, w')"
    "map aq_node_id q = [''TSK-AB-1234-ATM'']"
proof -
  let ?o = "(new_orchestrator (default_engine None))\<lparr>current_session_id := Some ''SES-x''\<rparr>"
  obtain q o2 s2 where run: "cycle_body (demo_env False) demo_moment None
      (?o\<lparr>orc_engine := default_engine None\<rparr>, demo_session) = (Inr q, o2, s2)"
    and ids: "map aq_node_id q = [''TSK-AB-1234-ATM'']" by (rule demo_body)
  have "?o\<lparr>orc_engine := default_engine None\<rparr> = ?o" by (simp add: new_orchestrator_def)
  moreover have "resolve_cycle_session_id (cm_uuid demo_moment) (cw_ambient demo_world) = (''SES-x'', ''SES-x'')"
    by code_simp
  moreover have "served_queue None ''heartbeat'' ?o = []"
    by (simp add: served_queue_def new_orchestrator_def)
  ultimately show thesis
    using run ids by (intro that [of q]) (simp_all add: run_cycle_def demo_world_def Let_def)
qed

theorem heartbeat_serves_frozen_queue_witness:
  "\<exists>q w'. run_cycle (demo_env False) demo_moment None ''heartbeat'' demo_world = (Inr q, w') \<and>
     map aq_node_id q = [''TSK-AB-1234-ATM''] \<and>
     fst (run_cycle (demo_env True) (demo_moment\<lparr>cm_now := utc_dt (365 * us_per_day)\<rparr>) None ''heartbeat''
       (w'\<lparr>cw_session := demo_session\<lparr>graph := \<lparr>vertices = [], relations = [], next_rel = 0\<rparr>\<rparr>\<rparr>)) = Inr q"
proof -
  obtain q w' where run: "run_cycle (demo_env False) demo_moment None ''heartbeat'' demo_world = (Inr q, w')"
    and ids: "map aq_node_id q = [''TSK-AB-1234-ATM'']" by (rule demo_run)
  from ids have "q \<noteq> []" by auto
  from heartbeat_serves_frozen_queue [OF run this, of "demo_env True" "demo_moment\<lparr>cm_now := utc_dt (365 * us_per_day)\<rparr>"
      "demo_session\<lparr>graph := \<lparr>vertices = [], relations = [], next_rel = 0\<rparr>\<rparr>"] run ids
  show ?thesis by (intro exI conjI) auto
qed

theorem cycle_closes_its_session_witness:
  "\<exists>q w' row. run_cycle (demo_env False) demo_moment None ''heartbeat'' demo_world = (Inr q, w') \<and>
     dict_get (cw_log w') ''SES-x'' = Some row \<and> sr_status row = ''completed'' \<and> sr_user row = ''system''"
proof -
  obtain q w' where run: "run_cycle (demo_env False) demo_moment None ''heartbeat'' demo_world = (Inr q, w')"
    and ids: "map aq_node_id q = [''TSK-AB-1234-ATM'']" by (rule demo_run)
  have sid: "fst (resolve_cycle_session_id (cm_uuid demo_moment) (cw_ambient demo_world)) = ''SES-x''" by code_simp
  have fresh: "served_queue None ''heartbeat'' (cw_orc demo_world) = []" "dict_get (cw_log demo_world) ''SES-x'' = None"
    by (simp_all add: served_queue_def demo_world_def new_orchestrator_def dict_get_Nil)
  have "oe_pool (demo_env False)" by (simp add: demo_env_def)
  from cycle_closes_its_session [OF run this] run show ?thesis
    by (auto simp: sid fresh or_text_def)
qed

theorem context_blind_under_enforcement_witness:
  "goal_priority_of (fst (build_scoring_context (demo_env True) [example_task TaskType.ATOMIC] demo_session))
     ''TSK-AB-1234-ATM'' = GoalPriority.P3"
proof -
  have "no_delete_enforcement (oe_store (demo_env True))" by (simp add: demo_env_def)
  from context_blind_under_enforcement [OF this refl] show ?thesis by blast
qed

text \<open>An unreliable resource, as \<open>create_node\<close> leaves it, and a task assigned to it.\<close>

definition assigned_session :: "mem_graph session" where
  "assigned_session = demo_session\<lparr>graph := \<lparr>
     vertices = [(''TaskAtomic'', row_of (task_dump (example_task TaskType.ATOMIC))),
       (''ResourceNode'', row_of [(''id'', PStr ''RES-b''), (''reliability'', PDict [(''overall_score'', PFloat (1 / 10))])])],
     relations = [\<lparr>rel_id = 0, rel_type = ''ASSIGNED_TO'', rel_src = ''TSK-AB-1234-ATM'', rel_tgt = ''RES-b'', rel_props = []\<rparr>],
     next_rel = 1\<rparr>\<rparr>"

theorem stored_blocks_are_ignored_witness:
  "dict_get_default (task_resource_reliability (fst (build_scoring_context (demo_env False)
     [example_task TaskType.ATOMIC] assigned_session))) ''TSK-AB-1234-ATM'' (8 / 10) = 8 / 10"
proof -
  have "texts_only mem_exec (graph assigned_session)"
    by (rule mem_texts_only) (auto simp: assigned_session_def)
  then have "cypher_service (oe_exec (demo_env False))" "texts_only (oe_exec (demo_env False)) (graph assigned_session)"
    by (simp_all add: demo_env_def mem.cypher_service_axioms)
  from stored_blocks_are_ignored [OF this prod.collapse [symmetric]] show ?thesis by blast
qed

end
