(* ===== verification/GC_Creation.thy ===== *)
theory GC_Creation
  imports GC_Cycle GC_Delegation GC_Trigger
begin

section \<open>Goals and tasks from the chat (\<open>agent/main_orchestrator.py\<close>)\<close>

text \<open>
  The tools \<open>create_goal\<close> and \<open>create_task\<close> of the orchestrator: the nodes, the edges around them,
  and the follow-up task a delegated task gets. The arguments are what the language model sent, a
  dict of JSON values. \<open>te_hex\<close> and \<open>te_uuid\<close> are what the n-th \<open>uuid4\<close> of the process gives,
  \<open>te_iso\<close> is \<open>datetime.fromisoformat\<close> on texts that no \<open>isoformat\<close> call wrote.
\<close>

subsection \<open>The world of a tool call\<close>

record 'g tool_env =
  te_exec :: "'g database"
  te_store :: store_cfg
  te_ctx :: "CallerContext option"
  te_loads :: json_loads
  te_float :: "string \<Rightarrow> rat option"
  te_str :: "pval \<Rightarrow> string"
  te_iso :: "string \<Rightarrow> py_datetime option"
  te_hex :: "nat \<Rightarrow> nat"
  te_uuid :: "nat \<Rightarrow> string"

record 'g tool_world =
  tw_session :: "'g session"
  tw_orc :: orchestrator
  tw_uuids :: nat

type_synonym ('g, 'a) tool = "('g tool_world, py_error, 'a) io"

definition on_store :: "('g, 'a) op \<Rightarrow> ('g, 'a) tool" where
  "on_store m w = (case m (tw_session w) of (r, s) \<Rightarrow> (r, w\<lparr>tw_session := s\<rparr>))"

text \<open>\<open>try: ... except Exception\<close> with a line in the log.\<close>

definition quietly :: "('g, 'a) op \<Rightarrow> ('g, unit) tool" where
  "quietly m w = (Inr (), w\<lparr>tw_session := snd (m (tw_session w))\<rparr>)"

definition fresh :: "('g, nat) tool" where
  "fresh w = (Inr (tw_uuids w), w\<lparr>tw_uuids := Suc (tw_uuids w)\<rparr>)"

definition invalidate_queue :: "string \<Rightarrow> string set \<Rightarrow> ('g, unit) tool" where
  "invalidate_queue user_id dirty w =
     (Inr (), w\<lparr>tw_orc := invalidate_cached_queue (Some user_id) dirty (tw_orc w)\<rparr>)"

subsection \<open>Arguments\<close>

definition as_utc :: "py_datetime \<Rightarrow> py_datetime" where
  "as_utc t = t\<lparr>dt_off := Some 0\<rparr>"

definition parse_deadline :: "(string \<Rightarrow> py_datetime option) \<Rightarrow> props \<Rightarrow> py_error + py_datetime option" where
  "parse_deadline parse args =
     (if \<not> get_truthy args ''deadline'' then Inr None
      else (case dict_get args ''deadline'' of
          Some (PStr s) \<Rightarrow> Inr (map_option as_utc (parse s))
        | Some (PTime t) \<Rightarrow> Inr (Some (as_utc t))
        | Some (PJson _) \<Rightarrow> Inr None
        | _ \<Rightarrow> Inl PyTypeError))"

definition text_arg :: "string \<Rightarrow> pval option \<Rightarrow> py_error + string" where
  "text_arg k v = (case v of None \<Rightarrow> Inl (PyKeyError k)
     | Some (PStr s) \<Rightarrow> Inr s | Some _ \<Rightarrow> Inl (PyValueError k))"

definition desc_arg :: "props \<Rightarrow> py_error + string" where
  "desc_arg args = text_arg ''description'' (Some (dict_get_default args ''description'' (PStr '''')))"

subsection \<open>Goals (\<open>models/nodes.py\<close>)\<close>

record GoalNode = BaseNode +
  goal_title :: string
  goal_description :: string
  goal_intelligence :: "string option"
  goal_owner :: "string option"
  goal_state :: GoalState
  target_date :: "py_datetime option"
  goal_completed_at :: "py_datetime option"
  milestone_count :: int
  milestones_done :: int
  derived_percentage :: rat
  goal_priority :: GoalPriority
  origin :: GoalOrigin
  inferred_from :: "string list"
  inference_note :: "string option"
  confirmed_by_user :: bool

definition GoalNode_dump :: "GoalNode \<Rightarrow> props" where
  "GoalNode_dump x = [
     (''id'', PStr (node_id x)), (''created_at'', PTime (created_at x)),
     (''updated_at'', PTime (updated_at x)), (''version'', PInt (version x)),
     (''archived_at'', dump_opt PTime (archived_at x)), (''archived_by'', dump_opt PStr (archived_by x)),
     (''archive_reason'', dump_opt PStr (archive_reason x)), (''purge_after'', dump_opt PTime (purge_after x)),
     (''purge_cancelled_at'', dump_opt PTime (purge_cancelled_at x)), (''legal_hold'', PBool (legal_hold x)),
     (''hold_reason'', dump_opt PStr (hold_reason x)), (''hold_set_by'', dump_opt PStr (hold_set_by x)),
     (''hold_set_at'', dump_opt PTime (hold_set_at x)), (''link_status'', dump_opt PStr (link_status x)),
     (''title'', PStr (goal_title x)), (''description'', PStr (goal_description x)),
     (''intelligence'', dump_opt PStr (goal_intelligence x)), (''owner'', dump_opt PStr (goal_owner x)),
     (''state'', dump_enum GoalState_value (goal_state x)),
     (''timeline'', PDict [(''target_date'', dump_opt PTime (target_date x)),
        (''completed_at'', dump_opt PTime (goal_completed_at x))]),
     (''progress'', PDict [(''milestone_count'', PInt (milestone_count x)),
        (''milestones_done'', PInt (milestones_done x)), (''derived_percentage'', PFloat (derived_percentage x))]),
     (''priority'', dump_enum GoalPriority_value (goal_priority x)),
     (''origin'', dump_enum GoalOrigin_value (origin x)),
     (''inferred_from'', dump_list PStr (inferred_from x)),
     (''inference_note'', dump_opt PStr (inference_note x)), (''confirmed_by_user'', PBool (confirmed_by_user x))]"

definition new_GoalNode :: "string \<Rightarrow> py_datetime \<Rightarrow> string \<Rightarrow> string \<Rightarrow> GoalNode" where
  "new_GoalNode i now ti de = \<lparr>node_id = i, created_at = now, updated_at = now, version = 0,
     archived_at = None, archived_by = None, archive_reason = None, purge_after = None,
     purge_cancelled_at = None, legal_hold = False, hold_reason = None, hold_set_by = None,
     hold_set_at = None, link_status = None, goal_title = ti, goal_description = de,
     goal_intelligence = None, goal_owner = None, goal_state = GoalState.ACTIVE, target_date = None,
     goal_completed_at = None, milestone_count = 0, milestones_done = 0, derived_percentage = 0,
     goal_priority = GoalPriority.P2, origin = GoalOrigin.USER_DEFINED, inferred_from = [],
     inference_note = None, confirmed_by_user = True\<rparr>"

definition chat_goal :: "'g tool_env \<Rightarrow> py_datetime \<Rightarrow> string \<Rightarrow> props \<Rightarrow> string \<Rightarrow> py_error + GoalNode" where
  "chat_goal env now user_id args goal_id =
     bindE (parse_deadline (te_iso env) args) (\<lambda>dl.
     bindE (text_arg ''title'' (dict_get args ''title'')) (\<lambda>ti.
     bindE (desc_arg args) (\<lambda>de.
     if validate_goal_id goal_id \<noteq> Inr goal_id then Inl (PyValueError goal_id)
     else Inr ((new_GoalNode goal_id now ti de)\<lparr>goal_owner := Some user_id,
       goal_priority := priority_of_value (dict_get_default args ''priority'' (PStr ''P3'')),
       target_date := dl\<rparr>))))"

definition tool_create_goal :: "'g tool_env \<Rightarrow> py_datetime \<Rightarrow> string \<Rightarrow> props \<Rightarrow> ('g, string) tool" where
  "tool_create_goal env now user_id args =
     bindS fresh (\<lambda>n. let goal_id = generate_goal_id (te_uuid env n) in
     bindS (liftS (chat_goal env now user_id args goal_id)) (\<lambda>goal.
     bindS (on_store (create_node (te_exec env) (te_store env) (OtherObj None ''GoalNode'' (GoalNode_dump goal))
         (te_ctx env))) (\<lambda>_.
     bindS (invalidate_queue user_id {}) (\<lambda>_. returnS goal_id))))"

subsection \<open>Tasks\<close>

definition task_type_of :: "(pval \<Rightarrow> string) \<Rightarrow> props \<Rightarrow> TaskType" where
  "task_type_of str_of args =
     (let key = filter (\<lambda>c. c \<noteq> CHR ''_'') (map to_upper (text_of str_of
          (dict_get_default args ''task_type'' (PStr ''ATOMIC''))))
      in case enum_of_value TaskType_members TaskType_value key of Some tt \<Rightarrow> tt | None \<Rightarrow> TaskType.ATOMIC)"

definition chat_task :: "'g tool_env \<Rightarrow> py_datetime \<Rightarrow> string \<Rightarrow> props \<Rightarrow> TaskType \<Rightarrow> string \<Rightarrow> py_error + TaskNode" where
  "chat_task env now user_id args tt task_id =
     bindE (parse_deadline (te_iso env) args) (\<lambda>dl.
     bindE (text_arg ''title'' (dict_get args ''title'')) (\<lambda>ti.
     bindE (desc_arg args) (\<lambda>de.
     case dec_opt dec_str (dict_get_default args ''assigned_to'' PNone) of
       None \<Rightarrow> Inl (PyValueError ''assigned_to'')
     | Some assignee \<Rightarrow>
         if \<not> TASK_ID_PATTERN_match task_id then Inl (PyValueError task_id)
         else Inr ((new_TaskNode task_id now tt ti de)\<lparr>created_by := Some user_id, owned_by := Some user_id,
           assigned_to := assignee, timeline := default_Timeline\<lparr>deadline := dl\<rparr>\<rparr>))))"

definition wire :: "'g tool_env \<Rightarrow> string \<Rightarrow> string option \<Rightarrow> string \<Rightarrow> ('g, unit) tool" where
  "wire env task_id target edge_type = (case target of None \<Rightarrow> returnS ()
     | Some t \<Rightarrow> quietly (create_edge (te_exec env) task_id t edge_type []))"

text \<open>\<open>for x in v\<close>: what a loop over a JSON value runs through.\<close>

fun iterate :: "pval \<Rightarrow> py_error + pval list" where
  "iterate (PList vs) = Inr vs"
| "iterate (PStr s) = Inr (map (\<lambda>c. PStr [c]) s)"
| "iterate (PDict d) = Inr (map (\<lambda>k. PStr k) (dict_keys d))"
| "iterate _ = Inl PyTypeError"

definition depends_arg :: "props \<Rightarrow> py_error + pval list" where
  "depends_arg args = (if get_truthy args ''depends_on'' then iterate (the (dict_get args ''depends_on'')) else Inr [])"

fun edge_target_of :: "pval \<Rightarrow> string option" where
  "edge_target_of (PStr s) = Some s"
| "edge_target_of _ = None"

subsection \<open>The follow-up of a delegated task\<close>

definition safe_float :: "(string \<Rightarrow> rat option) \<Rightarrow> pval option \<Rightarrow> rat \<Rightarrow> rat" where
  "safe_float to_float v d = (case Option.bind v (py_float to_float) of Some r \<Rightarrow> r | None \<Rightarrow> d)"

text \<open>A nested block of a node, decoded if it is a text.\<close>

definition block_of :: "json_loads \<Rightarrow> props option \<Rightarrow> string \<Rightarrow> props option" where
  "block_of loads raw k = (case raw of None \<Rightarrow> None
     | Some p \<Rightarrow> if p = [] then None
         else (case decode_item loads (dict_get_default p k PNone) of PDict d \<Rightarrow> Some d | _ \<Rightarrow> None))"

definition node_block :: "'g tool_env \<Rightarrow> string \<Rightarrow> string \<Rightarrow> ('g, props option) op" where
  "node_block env i k = bindS (get_node (te_exec env) (te_store env) i False None)
     (\<lambda>raw. returnS (block_of (te_loads env) raw k))"

definition owner_cadence :: "'g tool_env \<Rightarrow> string \<Rightarrow> 'g session \<Rightarrow> rat \<times> 'g session" where
  "owner_cadence env user_id s = (case or_else_io (node_block env user_id ''preferences'') None s of
     (prefs, s1) \<Rightarrow> (case prefs of None \<Rightarrow> 3
       | Some d \<Rightarrow> max (1 / 10) (safe_float (te_float env) (dict_get d ''default_follow_up_days'') 3), s1))"

definition assignee_reliability :: "'g tool_env \<Rightarrow> props \<Rightarrow> 'g session \<Rightarrow> (rat \<times> rat) \<times> 'g session" where
  "assignee_reliability env args s = (case edge_ref args ''assigned_to'' of None \<Rightarrow> ((8 / 10, 0), s)
     | Some i \<Rightarrow> (case or_else_io (node_block env i ''reliability'') None s of
         (rel, s1) \<Rightarrow> (case rel of None \<Rightarrow> (8 / 10, 0)
           | Some d \<Rightarrow> (safe_float (te_float env) (dict_get d ''overall_score'') (8 / 10),
               safe_float (te_float env) (dict_get d ''on_time_delivery_rate'') 0), s1)))"

definition followup_config :: "string \<Rightarrow> rat \<Rightarrow> rat \<Rightarrow> rat \<Rightarrow> FollowupConfig" where
  "followup_config task_id cadence reliability bonus = \<lparr>fc_task_id = task_id, fc_base_cadence_days = cadence,
     fc_complexity_factor = max (1 / 10) 1, fc_reliability_score = max 0 (min 1 reliability),
     fc_recency_bonus = max 0 (min 1 bonus), fc_next_followup_at = None\<rparr>"

definition followup_task :: "string \<Rightarrow> py_datetime \<Rightarrow> string \<Rightarrow> string \<Rightarrow> string \<Rightarrow> py_datetime \<Rightarrow> TaskNode" where
  "followup_task followup_id now user_id task_id ti fire_at =
     (new_TaskNode followup_id now TaskType.FOLLOWUP (''Follow-up: '' @ ti)
        (''Auto-generated follow-up for delegated task '' @ task_id))\<lparr>created_by := Some user_id,
       owned_by := Some user_id, state := TaskState.INACTIVE_PENDING,
       type_metadata := Some (FollowUpMetadata task_id (Some task_id) fire_at None 0 False None)\<rparr>"

text \<open>
  The \<open>try\<close> around the three writes: the id counts as created once the edge is there, whether the
  update of the delegated task succeeds or not.
\<close>

definition store_followup :: "'g tool_env \<Rightarrow> string \<Rightarrow> props \<Rightarrow> string \<Rightarrow> TaskNode \<Rightarrow> 'g session \<Rightarrow> string option \<times> 'g session" where
  "store_followup env user_id args task_id followup s =
     (case bindS (create_node (te_exec env) (te_store env) (TaskObj followup) (te_ctx env)) (\<lambda>_.
             create_edge (te_exec env) (node_id followup) task_id ''FOLLOW_UP_FOR'' []) s of
        (Inl e, s1) \<Rightarrow> (None, s1)
      | (Inr _, s1) \<Rightarrow> (Some (node_id followup), snd (update_node (te_exec env) (te_store env) task_id
          [(''type_metadata'', TypeMetadata_dump (DelegatedMetadata
             (case edge_ref args ''assigned_to'' of Some a \<Rightarrow> a | None \<Rightarrow> user_id) None None False
             (Some (node_id followup))))] None s1)))"

definition spawn_followup :: "'g tool_env \<Rightarrow> py_datetime \<Rightarrow> string \<Rightarrow> props \<Rightarrow> TaskNode \<Rightarrow> ('g, string option) tool" where
  "spawn_followup env now user_id args task = bindS fresh (\<lambda>n w.
     let followup_id = generate_task_id (te_hex env n) ''AG'' TaskType.FOLLOWUP;
         (cadence, s1) = owner_cadence env user_id (tw_session w);
         ((rel, bonus), s2) = assignee_reliability env args s1;
         fire_at = compute_next_followup now (followup_config (node_id task) cadence rel bonus);
         (created, s3) = store_followup env user_id args (node_id task)
           (followup_task followup_id now user_id (node_id task) (title task) fire_at) s2
     in (Inr created, w\<lparr>tw_session := s3\<rparr>))"

definition tool_create_task :: "'g tool_env \<Rightarrow> py_datetime \<Rightarrow> string \<Rightarrow> props \<Rightarrow> ('g, string \<times> string option) tool" where
  "tool_create_task env now user_id args =
     bindS fresh (\<lambda>n. let tt = task_type_of (te_str env) args; task_id = generate_task_id (te_hex env n) ''AG'' tt in
     bindS (liftS (chat_task env now user_id args tt task_id)) (\<lambda>task.
     bindS (on_store (create_node (te_exec env) (te_store env) (TaskObj task) (te_ctx env))) (\<lambda>_.
     bindS (wire env task_id (edge_ref args ''goal_id'') ''PART_OF'') (\<lambda>_.
     bindS (wire env task_id (edge_ref args ''parent_task_id'') ''PART_OF'') (\<lambda>_.
     bindS (liftS (depends_arg args)) (\<lambda>deps.
     bindS (forS (\<lambda>d _. wire env task_id (edge_target_of d) ''DEPENDS_ON'') deps ()) (\<lambda>_.
     bindS (wire env task_id (Some user_id) ''OWNED_BY'') (\<lambda>_.
     bindS (wire env task_id (edge_ref args ''assigned_to'') ''ASSIGNED_TO'') (\<lambda>_.
     bindS (if tt = TaskType.DELEGATED then spawn_followup env now user_id args task else returnS None) (\<lambda>followup.
     bindS (invalidate_queue user_id {}) (\<lambda>_. returnS (task_id, followup))))))))))))"

subsection \<open>What a creation touches\<close>

locale deleting_service = linking_service +
  assumes delete_match: "fst (exec (MatchId j) (snd (exec (DetachDelete i) g))) =
    (if j = i then [] else fst (exec (MatchId j) g))"

interpretation mem_delete: deleting_service mem_exec
proof
  fix i j :: string and g :: mem_graph
  have "filter (has_id j) (filter (\<lambda>v. \<not> has_id i v) vs) = (if j = i then [] else filter (has_id j) vs)" for vs
    by (cases "j = i") (auto simp: has_id_def intro!: filter_cong)
  then show "fst (mem_exec (MatchId j) (snd (mem_exec (DetachDelete i) g))) =
      (if j = i then [] else fst (mem_exec (MatchId j) g))"
    by (simp add: node_rows_def)
qed

definition touches :: "'g database \<Rightarrow> string set \<Rightarrow> 'g session \<Rightarrow> 'g session \<Rightarrow> bool" where
  "touches exec S s s' \<longleftrightarrow> (\<forall>j. j \<notin> S \<longrightarrow> fetch exec (graph s') j = fetch exec (graph s) j)"

lemma touches_refl [simp]: "touches exec S s s"
  by (simp add: touches_def)

lemma touches_mono: "touches exec S s s' \<Longrightarrow> S \<subseteq> T \<Longrightarrow> touches exec T s s'"
  by (auto simp: touches_def)

lemma touches_trans: "touches exec S s s' \<Longrightarrow> touches exec T s' s'' \<Longrightarrow> touches exec (S \<union> T) s s''"
  by (simp add: touches_def)

lemma to_cypher_map_lits: "to_cypher_map d = Inr m \<Longrightarrow> m = set_lits d"
  by (induction d arbitrary: m) (auto simp: set_lits_def bindE_Inr_iff split: if_splits)

context linking_service
begin

lemma create_node_touches:
  assumes "create_node exec cfg x ctx s = (r, s')" "dict_ok (node_dump x)" "dict_get (node_dump x) ''id'' = Some (PStr i)"
  shows "touches exec {i} s s'" "r = Inl e \<Longrightarrow> s' = s"
proof -
  consider (raised) e where "r = Inl e" "s' = s" |
    (made) p where "r = Inr p" "graph s' = snd (exec (Create (resolve_label x) (set_lits (node_dump x))) (graph s))"
    using assms(1) to_cypher_map_lits [of "node_dump x"]
    by (cases "require_caller_context cfg ctx"; cases "to_cypher_map (node_dump x)")
      (auto simp: create_node_def bindS_unfold run_query_def split_def Let_def whenS_def spawn_embedding_def
        split: if_splits)
  note shape = this
  show "touches exec {i} s s'"
    using shape
  proof cases
    case made
    have "dict_ok (set_lits (node_dump x))" "dict_get (set_lits (node_dump x)) ''id'' = Some (CStr (PStr i))"
      by (simp_all add: assms(2,3) dict_get_set_lits)
    then show ?thesis
      using create_frame [of "set_lits (node_dump x)" i] by (simp add: touches_def made(2) fetch_def)
  qed simp
  show "r = Inl e \<Longrightarrow> s' = s" using shape by (cases) auto
qed

lemma create_edge_touches: "create_edge exec a b ty [] s = (r, s') \<Longrightarrow> touches exec {} s s' \<and> (\<exists>p. r = Inr p)"
  using create_edge_frame [of a b ty "[]" s r s']
  by (auto simp: touches_def create_edge_def bindS_unfold run_query_def split_def Let_def)

lemma update_node_touches:
  assumes "keeps_id i (set_lits upd)"
  shows "touches exec {i} s (snd (update_node exec cfg i upd ctx s))"
proof -
  obtain r s' where u: "update_node exec cfg i upd ctx s = (r, s')" by fastforce
  then show ?thesis
    by (cases rule: update_node_cases) (auto simp: touches_def fetch_set [OF assms] u)
qed

end

text \<open>The same of the tools; \<open>twt\<close> compares the sessions of two worlds.\<close>

definition twt :: "'g database \<Rightarrow> string set \<Rightarrow> 'g tool_world \<Rightarrow> 'g tool_world \<Rightarrow> bool" where
  "twt exec S w w' \<longleftrightarrow> touches exec S (tw_session w) (tw_session w')"

lemma twt_simps [simp]: "twt exec S w w" "twt exec S w (w\<lparr>tw_uuids := n\<rparr>) " "twt exec S w (w\<lparr>tw_orc := q\<rparr>)"
  by (simp_all add: twt_def)

lemma twt_trans: "twt exec S w w' \<Longrightarrow> twt exec S w' w'' \<Longrightarrow> twt exec S w w''"
  using touches_trans [of exec S "tw_session w" "tw_session w'" S] by (auto simp: twt_def)

lemma wire_touches:
  assumes "linking_service (te_exec env)" "wire env i t ty w = (r, w')"
  shows "r = Inr () \<and> twt (te_exec env) S w w'"
proof (cases t)
  case None
  then show ?thesis using assms(2) by (simp add: wire_def)
next
  case (Some j)
  obtain q s' where e: "create_edge (te_exec env) i j ty [] (tw_session w) = (q, s')" by fastforce
  from linking_service.create_edge_touches [OF assms(1) e] touches_mono [of _ "{}" _ s' S] assms(2)
  show ?thesis by (auto simp: wire_def Some quietly_def e twt_def)
qed

lemma wires_touch:
  assumes "linking_service (te_exec env)" "forS (\<lambda>d _. wire env i (edge_target_of d) ty) ds u w = (r, w')"
  shows "r = Inr () \<and> twt (te_exec env) S w w'"
  using assms(2)
proof (induction ds arbitrary: u w)
  case Nil
  then show ?case by simp
next
  case (Cons d ds)
  obtain q w1 where d: "wire env i (edge_target_of d) ty w = (q, w1)" by fastforce
  note wire = wire_touches [OF assms(1) d, of S]
  then have "forS (\<lambda>d _. wire env i (edge_target_of d) ty) ds () w1 = (r, w')"
    using Cons.prems by (auto simp: bindS_unfold d)
  from Cons.IH [OF this] wire twt_trans show ?case by blast
qed

lemma node_block_reads:
  assumes "cypher_service (te_exec env)" "node_block env i k s = (r, s')"
  shows "s' = s"
  using assms(2)
  by (auto simp: node_block_def bindS_unfold cypher_service.get_node_eq [OF assms(1)] split: sum.splits)

lemma lookups_read:
  assumes "cypher_service (te_exec env)"
  shows "snd (owner_cadence env u s) = s" "snd (assignee_reliability env args s) = s"
proof -
  have r: "snd (or_else_io (node_block env i k) None s) = s" for i k
    using node_block_reads [OF assms] by (auto simp: or_else_io_def split: prod.splits sum.splits)
  show "snd (owner_cadence env u s) = s"
    using r [of u "''preferences''"] by (auto simp: owner_cadence_def split: prod.splits)
  show "snd (assignee_reliability env args s) = s"
    using r [of _ "''reliability''"] by (cases "edge_ref args ''assigned_to''") (auto simp: assignee_reliability_def split: prod.splits, metis snd_conv)
qed

lemma store_followup_touches:
  assumes "linking_service (te_exec env)" "store_followup env u args i f s = (r, s')"
  shows "touches (te_exec env) (insert i (set_option r)) s s' \<and> (r = None \<or> r = Some (node_id f))"
proof -
  note l = assms(1)
  have c: "cypher_service (te_exec env)" using l by (simp add: linking_service_def creating_service_def)
  obtain p s1 where n: "create_node (te_exec env) (te_store env) (TaskObj f) (te_ctx env) s = (p, s1)" by fastforce
  note node = linking_service.create_node_touches [OF l n, of "node_id f"]
  show ?thesis
  proof (cases p)
    case (Inl e)
    then show ?thesis
      using assms(2) node by (simp add: store_followup_def bindS_unfold n task_dump_ok task_dump_id)
  next
    case (Inr a)
    obtain q s2 where e: "create_edge (te_exec env) (node_id f) i ''FOLLOW_UP_FOR'' [] s1 = (q, s2)" by fastforce
    obtain b where b: "q = Inr b" "touches (te_exec env) {} s1 s2"
      using linking_service.create_edge_touches [OF l e] by blast
    have k: "keeps_id i (set_lits [(''type_metadata'', v)])" for v by (simp add: keeps_id_def set_lits_def)
    have "touches (te_exec env) {i} s2 s'" "r = Some (node_id f)"
      using assms(2) Inr b
        linking_service.update_node_touches [OF l k] by (auto simp: store_followup_def bindS_unfold n e)
    then show ?thesis
      using node(1) b(2) by (simp add: touches_def task_dump_ok task_dump_id)
  qed
qed

lemma spawn_touches:
  assumes "linking_service (te_exec env)" "spawn_followup env now u args task w = (r, w')"
  shows "\<exists>fu. r = Inr fu \<and> twt (te_exec env) (insert (node_id task) (set_option fu)) w w' \<and> tw_uuids w' = Suc (tw_uuids w) \<and>
    (fu = None \<or> fu = Some (generate_task_id (te_hex env (tw_uuids w)) ''AG'' TaskType.FOLLOWUP))"
proof -
  have c: "cypher_service (te_exec env)" using assms(1) by (simp add: linking_service_def creating_service_def)
  obtain cad where o: "owner_cadence env u (tw_session w) = (cad, tw_session w)"
    using lookups_read(1) [OF c] by (metis prod.collapse)
  obtain rel bon where a: "assignee_reliability env args (tw_session w) = ((rel, bon), tw_session w)"
    using lookups_read(2) [OF c] by (metis prod.collapse)
  let ?f = "followup_task (generate_task_id (te_hex env (tw_uuids w)) ''AG'' TaskType.FOLLOWUP) now u (node_id task)
    (title task) (compute_next_followup now (followup_config (node_id task) cad rel bon))"
  obtain fu s' where f: "store_followup env u args (node_id task) ?f (tw_session w) = (fu, s')" by fastforce
  have "node_id ?f = generate_task_id (te_hex env (tw_uuids w)) ''AG'' TaskType.FOLLOWUP"
    by (simp add: followup_task_def new_TaskNode_def)
  with store_followup_touches [OF assms(1) f] assms(2) show ?thesis
    by (auto simp: spawn_followup_def bindS_unfold fresh_def o a f Let_def twt_def)
qed

lemma chat_task_fields:
  "chat_task env now u args tt i = Inr task \<Longrightarrow> node_id task = i \<and> TASK_ID_PATTERN_match i \<and> task_type task = tt \<and>
     state task = TaskState.PENDING \<and> owned_by task = Some u \<and> created_by task = Some u \<and> tags task = [] \<and>
     embedding_inputs task = None \<and> type_metadata task = None \<and> dict_get args ''title'' = Some (PStr (title task))"
  by (auto simp: chat_task_def bindE_Inr_iff text_arg_def new_TaskNode_def
      split: option.splits pval.splits if_splits)

text \<open>The edges of a new task, in the order they are written.\<close>

definition task_edges :: "'g tool_env \<Rightarrow> string \<Rightarrow> props \<Rightarrow> string \<Rightarrow> ('g, unit) tool" where
  "task_edges env u args i =
     bindS (wire env i (edge_ref args ''goal_id'') ''PART_OF'') (\<lambda>_.
     bindS (wire env i (edge_ref args ''parent_task_id'') ''PART_OF'') (\<lambda>_.
     bindS (liftS (depends_arg args)) (\<lambda>deps.
     bindS (forS (\<lambda>d _. wire env i (edge_target_of d) ''DEPENDS_ON'') deps ()) (\<lambda>_.
     bindS (wire env i (Some u) ''OWNED_BY'') (\<lambda>_.
       wire env i (edge_ref args ''assigned_to'') ''ASSIGNED_TO'')))))"

lemma bindS_assoc: "bindS (bindS m f) g = bindS m (\<lambda>a. bindS (f a) g)"
  by (rule ext) (auto simp: bindS_def split: prod.splits sum.splits)

lemma chat_task_run:
  "tool_create_task env now u args =
     bindS fresh (\<lambda>n. let tt = task_type_of (te_str env) args; i = generate_task_id (te_hex env n) ''AG'' tt in
     bindS (liftS (chat_task env now u args tt i)) (\<lambda>task.
     bindS (on_store (create_node (te_exec env) (te_store env) (TaskObj task) (te_ctx env))) (\<lambda>_.
     bindS (task_edges env u args i) (\<lambda>_.
     bindS (if tt = TaskType.DELEGATED then spawn_followup env now u args task else returnS None) (\<lambda>fu.
     bindS (invalidate_queue u {}) (\<lambda>_. returnS (i, fu)))))))"
  by (simp add: tool_create_task_def task_edges_def bindS_assoc)

lemma edges_touch:
  assumes "linking_service (te_exec env)" "task_edges env u args i w = (r, w')"
  shows "twt (te_exec env) S w w' \<and> (case depends_arg args of Inl e \<Rightarrow> r = Inl e | Inr ds \<Rightarrow> r = Inr ()) \<and> tw_uuids w' = tw_uuids w"
proof -
  have u: "tw_uuids v' = tw_uuids v" if "wire env j t ty v = (q, v')" for j t ty v q v'
    using that by (auto simp: wire_def quietly_def split: option.splits)
  have us: "tw_uuids v' = tw_uuids v" if "forS (\<lambda>d _. wire env j (edge_target_of d) ty) ds x v = (q, v')" for j ty ds x v q v'
    by (rule forS_rel [where R = "\<lambda>a b. tw_uuids b = tw_uuids a", OF _ _ _ that]) (simp_all add: u)
  obtain q1 w1 where 1: "wire env i (edge_ref args ''goal_id'') ''PART_OF'' w = (q1, w1)" by fastforce
  obtain q2 w2 where 2: "wire env i (edge_ref args ''parent_task_id'') ''PART_OF'' w1 = (q2, w2)" by fastforce
  note t1 = wire_touches [OF assms(1) 1, of S] and t2 = wire_touches [OF assms(1) 2, of S]
  show ?thesis
  proof (cases "depends_arg args")
    case (Inl e)
    then show ?thesis
      using assms(2) t1 t2 twt_trans u [OF 1] u [OF 2] by (auto simp: task_edges_def bindS_unfold 1 2)
  next
    case (Inr ds)
    obtain q3 w3 where 3: "forS (\<lambda>d _. wire env i (edge_target_of d) ''DEPENDS_ON'') ds () w2 = (q3, w3)" by fastforce
    obtain q4 w4 where 4: "wire env i (Some u) ''OWNED_BY'' w3 = (q4, w4)" by fastforce
    obtain q5 w5 where 5: "wire env i (edge_ref args ''assigned_to'') ''ASSIGNED_TO'' w4 = (q5, w5)" by fastforce
    note t = t1 t2 wires_touch [OF assms(1) 3, of S] wire_touches [OF assms(1) 4, of S] wire_touches [OF assms(1) 5, of S]
    then have "r = q5 \<and> w' = w5"
      using assms(2) by (auto simp: task_edges_def bindS_unfold 1 2 3 4 5 Inr)
    moreover have "twt (te_exec env) S w w5" using t by (blast intro: twt_trans)
    moreover have "tw_uuids w5 = tw_uuids w" using u [OF 1] u [OF 2] us [OF 3] u [OF 4] u [OF 5] by simp
    ultimately show ?thesis using t Inr by simp
  qed
qed

text \<open>The ways a call can go.\<close>

lemma chat_task_cases:
  assumes "tool_create_task env now u args w = (r, w')"
    and tt: "tt = task_type_of (te_str env) args" and i: "i = generate_task_id (te_hex env (tw_uuids w)) ''AG'' tt"
  obtains (bad) e where "chat_task env now u args tt i = Inl e" "r = Inl e" "w' = (w\<lparr>tw_uuids := Suc (tw_uuids w)\<rparr>)"
    | (refused) task e s1 where "chat_task env now u args tt i = Inr task"
        "create_node (te_exec env) (te_store env) (TaskObj task) (te_ctx env) (tw_session w) = (Inl e, s1)"
        "r = Inl e" "w' = (w\<lparr>tw_uuids := Suc (tw_uuids w)\<rparr>)\<lparr>tw_session := s1\<rparr>"
    | (cut) task p s1 e v2 where "create_node (te_exec env) (te_store env) (TaskObj task) (te_ctx env) (tw_session w) = (Inr p, s1)"
        "task_edges env u args i ((w\<lparr>tw_uuids := Suc (tw_uuids w)\<rparr>)\<lparr>tw_session := s1\<rparr>) = (Inl e, v2)" "r = Inl e" "w' = v2"
    | (made) task p s1 v2 fr v3 where "chat_task env now u args tt i = Inr task"
        "create_node (te_exec env) (te_store env) (TaskObj task) (te_ctx env) (tw_session w) = (Inr p, s1)"
        "task_edges env u args i ((w\<lparr>tw_uuids := Suc (tw_uuids w)\<rparr>)\<lparr>tw_session := s1\<rparr>) = (Inr (), v2)"
        "(if tt = TaskType.DELEGATED then spawn_followup env now u args task else returnS None) v2 = (fr, v3)"
        "case fr of Inl e \<Rightarrow> r = Inl e \<and> w' = v3
         | Inr fu \<Rightarrow> r = Inr (i, fu) \<and> w' = v3\<lparr>tw_orc := invalidate_cached_queue (Some u) {} (tw_orc v3)\<rparr>"
proof -
  let ?n = "tw_uuids w" and ?x = "te_exec env"
  let ?w0 = "w\<lparr>tw_uuids := Suc ?n\<rparr>"
  note run0 = assms(1) [unfolded chat_task_run bindS_unfold fresh_def Let_def, folded tt, simplified, folded i]
  show thesis
  proof (cases "chat_task env now u args tt i")
    case (Inl e)
    then show thesis using run0 bad by simp
  next
    case (Inr task)
    obtain p s1 where n: "create_node ?x (te_store env) (TaskObj task) (te_ctx env) (tw_session w) = (p, s1)" by fastforce
    obtain q v2 where e: "task_edges env u args i (?w0\<lparr>tw_session := s1\<rparr>) = (q, v2)" by fastforce
    obtain fr v3 where f: "(if tt = TaskType.DELEGATED then spawn_followup env now u args task else returnS None) v2 = (fr, v3)"
      by fastforce
    note run = run0
    show thesis
    proof (cases p)
      case (Inl err)
      then show thesis using run Inr n refused by (simp add: bindS_unfold on_store_def)
    next
      case p: (Inr a)
      show thesis
      proof (cases q)
        case (Inl err)
        then show thesis using run Inr n p e cut by (simp add: bindS_unfold on_store_def)
      next
        case q: (Inr a)
        then show thesis
          using run Inr n p e f made by (cases fr) (simp_all add: bindS_unfold on_store_def invalidate_queue_def)
      qed
    qed
  qed
qed

text \<open>What a call of the tool can do to the nodes: it makes the task and perhaps its follow-up.\<close>

lemma create_task_made:
  assumes "linking_service (te_exec env)" "chat_task env now u args tt i = Inr task"
    "create_node (te_exec env) (te_store env) (TaskObj task) (te_ctx env) (tw_session w) = (Inr p, s1)"
    "task_edges env u args i (w\<lparr>tw_uuids := Suc (tw_uuids w), tw_session := s1\<rparr>) = (Inr (), v2)"
    "(if tt = TaskType.DELEGATED then spawn_followup env now u args task else returnS None) v2 = (fr, v3)"
  shows "\<exists>fu. fr = Inr fu \<and> twt (te_exec env) (insert i (set_option fu)) w v3 \<and> tw_uuids w < tw_uuids v3 \<and>
    (fu = None \<or> fu = Some (generate_task_id (te_hex env (Suc (tw_uuids w))) ''AG'' TaskType.FOLLOWUP))"
proof -
  have i: "node_id task = i" using chat_task_fields [OF assms(2)] by simp
  have "touches (te_exec env) {i} (tw_session w) s1"
    using linking_service.create_node_touches(1) [OF assms(1,3)] i by (simp add: task_dump_ok task_dump_id)
  moreover note e = edges_touch [OF assms(1,4), of "{}"]
  moreover have "\<exists>fu. fr = Inr fu \<and> twt (te_exec env) (insert i (set_option fu)) v2 v3 \<and> tw_uuids v2 \<le> tw_uuids v3 \<and>
      (fu = None \<or> fu = Some (generate_task_id (te_hex env (tw_uuids v2)) ''AG'' TaskType.FOLLOWUP))"
  proof (cases "tt = TaskType.DELEGATED")
    case True
    then show ?thesis using spawn_touches [OF assms(1), of now u args task v2 fr v3] assms(5) i by auto
  next
    case False
    then have "fr = Inr None" "v3 = v2" using assms(5) by auto
    then show ?thesis by simp
  qed
  ultimately show ?thesis by (auto simp: twt_def touches_def)
qed

lemma create_task_touches:
  assumes "linking_service (te_exec env)" "tool_create_task env now u args w = (r, w')"
  shows "r = Inr (i, fu) \<Longrightarrow> twt (te_exec env) (insert i (set_option fu)) w w' \<and> tw_uuids w < tw_uuids w' \<and>
      i = generate_task_id (te_hex env (tw_uuids w)) ''AG'' (task_type_of (te_str env) args) \<and>
      (fu = None \<or> fu = Some (generate_task_id (te_hex env (Suc (tw_uuids w))) ''AG'' TaskType.FOLLOWUP))"
    and "r = Inl e \<Longrightarrow> depends_arg args = Inr ds \<Longrightarrow> tw_session w' = tw_session w"
    and "tw_uuids w \<le> tw_uuids w'"
proof -
  define tt where "tt = task_type_of (te_str env) args"
  define j where "j = generate_task_id (te_hex env (tw_uuids w)) ''AG'' tt"
  show "twt (te_exec env) (insert i (set_option fu)) w w' \<and> tw_uuids w < tw_uuids w' \<and>
      i = generate_task_id (te_hex env (tw_uuids w)) ''AG'' (task_type_of (te_str env) args) \<and>
      (fu = None \<or> fu = Some (generate_task_id (te_hex env (Suc (tw_uuids w))) ''AG'' TaskType.FOLLOWUP))" if "r = Inr (i, fu)"
    using assms(2) tt_def j_def
  proof (cases rule: chat_task_cases)
    case (made task p s1 v2 fr v3)
    show ?thesis
      using create_task_made [OF assms(1) made(1-4)] made(5) that by (auto simp: twt_def j_def tt_def)
  qed (use that in simp_all)
  show "tw_uuids w \<le> tw_uuids w'"
    using assms(2) tt_def j_def
  proof (cases rule: chat_task_cases)
    case (cut task p s1 e v2)
    then show ?thesis using edges_touch [OF assms(1) cut(2)] by simp
  next
    case (made task p s1 v2 fr v3)
    show ?thesis using create_task_made [OF assms(1) made(1-4)] made(5) by auto
  qed simp_all
  show "tw_session w' = tw_session w" if "r = Inl e" "depends_arg args = Inr ds"
    using assms(2) tt_def j_def
  proof (cases rule: chat_task_cases)
    case (refused task e s1)
    then show ?thesis
      using linking_service.create_node_touches(2) [OF assms(1) refused(2), of j] chat_task_fields [OF refused(1)]
      by (simp add: task_dump_ok task_dump_id)
  next
    case (made task p s1 v2 fr v3)
    show ?thesis using create_task_made [OF assms(1) made(1-4)] made(5) that by auto
  qed (use that in \<open>auto dest!: edges_touch [OF assms(1)]\<close>)
qed

lemma chat_task_storable: "chat_task env now u args tt i = Inr task \<Longrightarrow> storable loads task"
  using chat_task_fields [of env now u args tt i task] by (simp add: storable_def)

lemma chat_task_made:
  assumes "linking_service (te_exec env)" "tool_create_task env now u args w = (Inr (i, fu), w')"
    and "fetch (te_exec env) (graph (tw_session w)) i = None" "task_type_of (te_str env) args \<noteq> TaskType.DELEGATED"
  shows "\<exists>task p. fu = None \<and> fetch (te_exec env) (graph (tw_session w')) i = Some p \<and> load_task loads p = Some task \<and>
    chat_task env now u args (task_type_of (te_str env) args) i = Inr task \<and> score_cache_dirty (tw_orc w')"
  using assms(2) refl refl
proof (cases rule: chat_task_cases)
  case (made task p s1 v2 fr v3)
  have c: "creating_service (te_exec env)" using assms(1) by (simp add: linking_service_def)
  have i: "node_id task = i" "fu = None" "tw_session w' = tw_session v2" "score_cache_dirty (tw_orc w')"
    using chat_task_fields [OF made(1)] made(4,5) assms(4) by (auto simp: invalidate_cached_queue_def Let_def)
  have "fetch (te_exec env) (graph s1) i = Some (set_props (set_lits (task_dump task)) [])"
    using creating_service.create_task_cases [OF c made(2)]
      creating_service.fetch_created(1) [OF c, of "graph (tw_session w)" task] assms(3) i by fastforce
  moreover have "fetch (te_exec env) (graph (tw_session v2)) i = fetch (te_exec env) (graph s1) i"
    using edges_touch [OF assms(1) made(3), of "{}"] by (simp add: twt_def touches_def)
  moreover have "load_task loads (set_props (set_lits (task_dump task)) []) = Some task"
    by (subst load_after_set) (simp add: load_task_def loaded_fields validate_loaded chat_task_storable [OF made(1)])
  ultimately show ?thesis using made(1,5) i by (auto split: sum.splits)
qed simp_all

lemma chat_task_answers:
  assumes "linking_service (te_exec env)" "require_caller_context (te_store env) (te_ctx env) = Inr ()"
    and "chat_task env now u args (task_type_of (te_str env) args)
      (generate_task_id (te_hex env (tw_uuids w)) ''AG'' (task_type_of (te_str env) args)) = Inr task"
    and "depends_arg args = Inr ds" "task_type_of (te_str env) args \<noteq> TaskType.DELEGATED"
  shows "\<exists>w'. tool_create_task env now u args w =
    (Inr (generate_task_id (te_hex env (tw_uuids w)) ''AG'' (task_type_of (te_str env) args), None), w')"
proof -
  obtain r w' where run: "tool_create_task env now u args w = (r, w')" by fastforce
  have c: "creating_service (te_exec env)" using assms(1) by (simp add: linking_service_def)
  from run refl refl show ?thesis
  proof (cases rule: chat_task_cases)
    case (refused task e s1)
    then show ?thesis using creating_service.create_task_cases [OF c refused(2)] assms(2) by fastforce
  next
    case (cut task p s1 e v2)
    then show ?thesis using edges_touch [OF assms(1) cut(2)] assms(4) by simp
  next
    case (made task p s1 v2 fr v3)
    then show ?thesis using assms(5) run by auto
  qed (use assms(3) in simp)
qed

text \<open>
A task made in the chat. When \<open>create_task\<close> answers with a fresh id for a task that is
not delegated, the row under the id loads as a pending task of the type and title asked for, owned
and created by the caller; no other node of the graph changes and the cached queue is dropped.
\<close>

theorem chat_task_effect:
  assumes "linking_service (te_exec env)" "tool_create_task env now u args w = (Inr (i, fu), w')"
    and "fetch (te_exec env) (graph (tw_session w)) i = None" "task_type_of (te_str env) args \<noteq> TaskType.DELEGATED"
  shows "(\<exists>task p. fetch (te_exec env) (graph (tw_session w')) i = Some p \<and> load_task loads p = Some task \<and>
      node_id task = i \<and> state task = TaskState.PENDING \<and> task_type task = task_type_of (te_str env) args \<and>
      owned_by task = Some u \<and> created_by task = Some u \<and> dict_get args ''title'' = Some (PStr (title task))) \<and>
    (\<forall>j. j \<noteq> i \<longrightarrow> fetch (te_exec env) (graph (tw_session w')) j = fetch (te_exec env) (graph (tw_session w)) j) \<and>
    fu = None \<and> score_cache_dirty (tw_orc w')"
proof -
  obtain task p where t: "fu = None" "fetch (te_exec env) (graph (tw_session w')) i = Some p" "load_task loads p = Some task"
      "chat_task env now u args (task_type_of (te_str env) args) i = Inr task" "score_cache_dirty (tw_orc w')"
    using chat_task_made [OF assms] by blast
  have "touches (te_exec env) {i} (tw_session w) (tw_session w')"
    using conjunct1 [OF create_task_touches(1) [OF assms(1,2) refl]] t(1) by (simp add: twt_def)
  with t chat_task_fields [OF t(4)] show ?thesis by (auto simp: touches_def)
qed

definition chat_env :: "mem_graph tool_env" where
  "chat_env = \<lparr>te_exec = mem_exec, te_store = agent_cfg, te_ctx = None, te_loads = (\<lambda>_. None), te_float = (\<lambda>_. None),
     te_str = (\<lambda>_. ''ATOMIC''), te_iso = (\<lambda>_. None), te_hex = (\<lambda>n. n + 4660), te_uuid = (\<lambda>n. ''u'')\<rparr>"

definition chat_world :: "mem_graph tool_world" where
  "chat_world = \<lparr>tw_session = plain_session, tw_orc = new_orchestrator (default_engine None), tw_uuids = 0\<rparr>"

lemma chat_example:
  "\<exists>w'. tool_create_task chat_env (utc_dt 9) ''USER-a'' [(''title'', PStr ''Call''),
     (''depends_on'', PList [PStr ''TSK-AB-1234-ATM''])] chat_world = (Inr (''TSK-AG-4660-ATM'', None), w')"
proof -
  let ?args = "[(''title'', PStr ''Call''), (''depends_on'', PList [PStr ''TSK-AB-1234-ATM''])]"
  have tt: "task_type_of (te_str chat_env) ?args = TaskType.ATOMIC" by code_simp
  have i: "generate_task_id (te_hex chat_env (tw_uuids chat_world)) ''AG'' TaskType.ATOMIC = ''TSK-AG-4660-ATM''"
    by (simp add: chat_env_def chat_world_def) code_simp
  have "\<not> Option.is_none (case chat_task chat_env (utc_dt 9) ''USER-a'' ?args TaskType.ATOMIC ''TSK-AG-4660-ATM'' of Inl e \<Rightarrow> None | Inr t \<Rightarrow> Some t)"
    by code_simp
  then obtain t where "chat_task chat_env (utc_dt 9) ''USER-a'' ?args TaskType.ATOMIC ''TSK-AG-4660-ATM'' = Inr t"
    by (auto split: sum.splits)
  moreover have "depends_arg ?args = Inr [PStr ''TSK-AB-1234-ATM'']" by code_simp
  moreover have "linking_service (te_exec chat_env)" "require_caller_context (te_store chat_env) (te_ctx chat_env) = Inr ()"
    by (simp_all add: chat_env_def agent_cfg_open mem_link.linking_service_axioms)
  ultimately show ?thesis
    using chat_task_answers [of chat_env "utc_dt 9" "''USER-a''" ?args chat_world] unfolding tt i by simp
qed

theorem chat_task_effect_witness:
  "\<exists>w' p task. tool_create_task chat_env (utc_dt 9) ''USER-a'' [(''title'', PStr ''Call''),
      (''depends_on'', PList [PStr ''TSK-AB-1234-ATM''])] chat_world = (Inr (''TSK-AG-4660-ATM'', None), w') \<and>
    fetch mem_exec (graph (tw_session w')) ''TSK-AG-4660-ATM'' = Some p \<and> load_task (\<lambda>_. None) p = Some task \<and>
    title task = ''Call'' \<and> owned_by task = Some ''USER-a'' \<and>
    fetch mem_exec (graph (tw_session w')) ''TSK-AB-1234-ATM'' = Some (plain_row ''USER-a'')"
proof -
  let ?args = "[(''title'', PStr ''Call''), (''depends_on'', PList [PStr ''TSK-AB-1234-ATM''])]"
  obtain w' where run: "tool_create_task chat_env (utc_dt 9) ''USER-a'' ?args chat_world = (Inr (''TSK-AG-4660-ATM'', None), w')"
    using chat_example by blast
  have "task_type_of (te_str chat_env) ?args \<noteq> TaskType.DELEGATED" by code_simp
  moreover have "te_exec chat_env = mem_exec" "fetch mem_exec (graph (tw_session chat_world)) = (\<lambda>j. if j = ''TSK-AB-1234-ATM'' then Some (plain_row ''USER-a'') else None)"
    by (simp_all add: chat_env_def chat_world_def plain_fetch fun_eq_iff)
  ultimately show ?thesis
    using chat_task_effect [OF _ run, of "\<lambda>_. None"] run mem_link.linking_service_axioms
    by (auto simp: dict_simps)
qed

end
