(* ===== verification/GC_Plans.thy ===== *)
theory GC_Plans
  imports GC_Creation GC_Paths
begin

section \<open>Plans (\<open>agent/main_orchestrator.py\<close>)\<close>

text \<open>
  The tools \<open>propose_plan\<close>, \<open>edit_plan\<close>, \<open>approve_plan\<close> and \<open>execute_plan\<close>. A plan is a dict that the
  orchestrator keeps in \<open>_pending_plans\<close> and changes in place, so the model has a heap: the cache
  maps a plan id to an address. A copy of each plan is written to the bucket of the user;
  \<open>pe_dumps\<close> is \<open>json.dumps\<close>, \<open>pe_int\<close> the number \<open>int\<close> reads in a text, \<open>pe_hex\<close> the first digits of
  the n-th \<open>uuid4\<close>. What the language model answers is an argument; the arguments of a call are the
  JSON values the schema of the tool admits, a plan id being a text.
\<close>

subsection \<open>The state around a call\<close>

record 'g plan_env =
  pe_tools :: "'g tool_env"
  pe_dumps :: "pval \<Rightarrow> string"
  pe_int :: "string \<Rightarrow> int option"
  pe_hex :: "nat \<Rightarrow> string"
  pe_storage :: bool
  pe_agent_id :: string

record 'g plan_world =
  pw_tools :: "'g tool_world"
  pw_cache :: "nat pydict"
  pw_heap :: "nat \<Rightarrow> props"
  pw_next :: nat
  pw_bucket :: bucket

datatype plan_error =
    LlmMissing
  | DescriptionRequired
  | PlanIdRequired
  | PlanNotFound string
  | PlanAlreadyExecuted string
  | TasksNotArray
  | TaskNotObject nat
  | PlanNotApproved string pval
  | ExecutionFailed string py_error

datatype plan_reply = Refused plan_error | Answer props

type_synonym 'g plan_op = "('g plan_world, py_error, plan_reply) io"

definition set_plan :: "nat \<Rightarrow> props \<Rightarrow> 'g plan_world \<Rightarrow> 'g plan_world" where
  "set_plan a d w = w\<lparr>pw_heap := (pw_heap w)(a := d)\<rparr>"

definition new_plan :: "props \<Rightarrow> 'g plan_world \<Rightarrow> nat \<times> 'g plan_world" where
  "new_plan d w = (pw_next w, (set_plan (pw_next w) d w)\<lparr>pw_next := Suc (pw_next w)\<rparr>)"

definition plan_text :: "'g plan_env \<Rightarrow> props \<Rightarrow> string \<Rightarrow> string \<Rightarrow> string" where
  "plan_text env d k v0 = text_of (te_str (pe_tools env)) (dict_get_default d k (PStr v0))"

definition plan_field :: "'g plan_env \<Rightarrow> props \<Rightarrow> string \<Rightarrow> string" where
  "plan_field env d k = strip (plan_text env d k '''')"

definition has_status :: "string \<Rightarrow> props \<Rightarrow> bool" where
  "has_status s d \<longleftrightarrow> dict_get d ''status'' = Some (PStr s)"

subsection \<open>Keeping and finding plans\<close>

definition plan_storage_path :: "'g plan_env \<Rightarrow> string \<Rightarrow> string \<Rightarrow> path_error + string" where
  "plan_storage_path env user_id plan_id = bindE (agent_root user_id (pe_agent_id env))
     (\<lambda>root. Inr (root @ ''state/pending_plans/'' @ plan_id @ ''.json''))"

definition persist_pending_plan :: "'g plan_env \<Rightarrow> string \<Rightarrow> nat \<Rightarrow> 'g plan_world \<Rightarrow> 'g plan_world" where
  "persist_pending_plan env user_id a w =
     (let plan_id = plan_field env (pw_heap w a) ''plan_id'' in
      if plan_id = '''' then w
      else let v1 = w\<lparr>pw_cache := dict_set plan_id a (pw_cache w)\<rparr> in
        if \<not> pe_storage env then v1
        else (case plan_storage_path env user_id plan_id of
            Inl _ \<Rightarrow> v1
          | Inr path \<Rightarrow> (case scoped_init user_id of
              Inl _ \<Rightarrow> v1
            | Inr c \<Rightarrow> v1\<lparr>pw_bucket := snd (scoped_write c path (pe_dumps env (PDict (pw_heap w a))) (pw_bucket w))\<rparr>)))"

definition load_from_storage :: "'g plan_env \<Rightarrow> string \<Rightarrow> string \<Rightarrow> 'g plan_world \<Rightarrow> nat option \<times> 'g plan_world" where
  "load_from_storage env user_id plan_id w =
     (if \<not> pe_storage env then (None, w)
      else (case plan_storage_path env user_id plan_id of
          Inl _ \<Rightarrow> (None, w)
        | Inr path \<Rightarrow> (case Option.bind (pw_bucket w path) (te_loads (pe_tools env)) of
            Some (PDict d) \<Rightarrow> (let (a, v1) = new_plan d w in (Some a, v1\<lparr>pw_cache := dict_set plan_id a (pw_cache v1)\<rparr>))
          | _ \<Rightarrow> (None, w))))"

definition load_pending_plan :: "'g plan_env \<Rightarrow> string \<Rightarrow> string \<Rightarrow> 'g plan_world \<Rightarrow> nat option \<times> 'g plan_world" where
  "load_pending_plan env user_id plan_id w =
     (case dict_get (pw_cache w) plan_id of
        Some a \<Rightarrow> if pw_heap w a \<noteq> [] then (Some a, w) else load_from_storage env user_id plan_id w
      | None \<Rightarrow> load_from_storage env user_id plan_id w)"

text \<open>An empty dict counts as no plan.\<close>

definition open_plan :: "'g plan_env \<Rightarrow> string \<Rightarrow> string \<Rightarrow> 'g plan_world \<Rightarrow> nat option \<times> 'g plan_world" where
  "open_plan env user_id plan_id w = (case load_pending_plan env user_id plan_id w of
     (Some a, v1) \<Rightarrow> if pw_heap v1 a = [] then (None, v1) else (Some a, v1)
   | (None, v1) \<Rightarrow> (None, v1))"

subsection \<open>Numbers and sizes of JSON values\<close>

definition truncate :: "rat \<Rightarrow> int" where
  "truncate r = (if r < 0 then \<lceil>r\<rceil> else \<lfloor>r\<rfloor>)"

definition py_int :: "'g plan_env \<Rightarrow> pval \<Rightarrow> py_error + int" where
  "py_int env v = (case v of
     PInt i \<Rightarrow> Inr i | PBool b \<Rightarrow> Inr (if b then 1 else 0) | PFloat r \<Rightarrow> Inr (truncate r)
   | PNone \<Rightarrow> Inl PyTypeError | PList _ \<Rightarrow> Inl PyTypeError | PDict _ \<Rightarrow> Inl PyTypeError
   | t \<Rightarrow> (case pe_int env (text_of (te_str (pe_tools env)) t) of
       Some i \<Rightarrow> Inr i | None \<Rightarrow> Inl (PyValueError ''int'')))"

definition py_len :: "'g plan_env \<Rightarrow> pval \<Rightarrow> py_error + int" where
  "py_len env v = (case v of
     PList vs \<Rightarrow> Inr (int (length vs)) | PDict d \<Rightarrow> Inr (int (length d))
   | PNone \<Rightarrow> Inl PyTypeError | PBool _ \<Rightarrow> Inl PyTypeError | PInt _ \<Rightarrow> Inl PyTypeError | PFloat _ \<Rightarrow> Inl PyTypeError
   | t \<Rightarrow> Inr (int (length (text_of (te_str (pe_tools env)) t))))"

definition task_count :: "'g plan_env \<Rightarrow> props \<Rightarrow> py_error + pval" where
  "task_count env d = bindE (py_len env (dict_get_default d ''tasks'' (PList []))) (\<lambda>n. Inr (PInt n))"

definition setdefault :: "string \<Rightarrow> pval \<Rightarrow> props \<Rightarrow> props" where
  "setdefault k v d = (if dict_get d k = None then dict_set k v d else d)"

definition draft_id :: "nat \<Rightarrow> pval" where
  "draft_id idx = PStr (''DRAFT-TASK-'' @ dec_string (idx + 1))"

subsection \<open>Proposing\<close>

definition PROPOSE_DEFAULT_MAX :: int where "PROPOSE_DEFAULT_MAX = 10"

definition max_tasks_arg :: "'g plan_env \<Rightarrow> props \<Rightarrow> int" where
  "max_tasks_arg env args =
     (let v = dict_get_default args ''max_tasks'' (PInt 10);
          n = (case py_int env (if truthy v then v else PInt 10) of Inr i \<Rightarrow> i | Inl _ \<Rightarrow> PROPOSE_DEFAULT_MAX)
      in max 1 (min n 50))"

definition plan_target :: "'g plan_env \<Rightarrow> props \<Rightarrow> ('g, string) op" where
  "plan_target env args =
     (let description = plan_field env args ''description''; i = plan_field env args ''goal_or_task_id'' in
      if description \<noteq> '''' \<or> i = '''' then returnS description
      else bindS (get_node (te_exec (pe_tools env)) (te_store (pe_tools env)) i False None) (\<lambda>target.
        case target of
          None \<Rightarrow> returnS ''''
        | Some p \<Rightarrow> if p = [] then returnS ''''
            else (let ti = plan_text env p ''title'' i; de = plan_field env p ''description'';
                      base = ''Create an execution plan for '' @ i @ '': '' @ ti @ ''.''
                  in returnS (if de = '''' then base
                     else base @ newline # newline # ''Existing description:'' @ newline # de))))"

text \<open>The dash of two messages, as its UTF-8 bytes.\<close>

definition em_dash :: string where "em_dash = [CHR 0xE2, CHR 0x80, CHR 0x94]"

definition strip_fences :: "string \<Rightarrow> string" where
  "strip_fences raw =
     (let cleaned = strip raw in
      if starts_with ''```'' cleaned then
        (let inner = (if newline \<in> set cleaned then tl (dropWhile (\<lambda>c. c \<noteq> newline) cleaned) else drop 3 cleaned)
         in strip (if starts_with ''```'' (rev inner) then rev (drop 3 (rev inner)) else inner))
      else cleaned)"

definition parse_plan_output :: "'g plan_env \<Rightarrow> string \<Rightarrow> string \<Rightarrow> py_error + props" where
  "parse_plan_output env descr raw_output =
     (case te_loads (pe_tools env) (strip_fences raw_output) of
        None \<Rightarrow> Inr [(''goal_title'', PStr (take 80 descr)), (''goal_description'', PStr descr),
          (''tasks'', PList []), (''execution_summary'', PStr raw_output),
          (''parse_warning'', PStr (''Could not parse structured plan '' @ em_dash @ '' showing raw decomposition.''))]
      | Some (PDict d) \<Rightarrow> Inr d
      | Some _ \<Rightarrow> Inl PyAttributeError)"

fun number_drafts :: "nat \<Rightarrow> pval list \<Rightarrow> pval list" where
  "number_drafts i [] = []"
| "number_drafts i (PDict t # ts) = PDict (setdefault ''draft_task_id'' (draft_id i) t) # number_drafts (Suc i) ts"
| "number_drafts i (t # ts) = t # number_drafts (Suc i) ts"

definition draft_tasks :: "int \<Rightarrow> pval \<Rightarrow> pval list" where
  "draft_tasks max_tasks v = number_drafts 0 (take (nat max_tasks) (case v of PList ts \<Rightarrow> ts | _ \<Rightarrow> []))"

definition dict_sets :: "(string \<times> pval) list \<Rightarrow> props \<Rightarrow> props" where
  "dict_sets kvs d = foldl (\<lambda>d (k, v). dict_set k v d) d kvs"

definition make_draft :: "py_datetime \<Rightarrow> string \<Rightarrow> string \<Rightarrow> string \<Rightarrow> pval list \<Rightarrow> props \<Rightarrow> props" where
  "make_draft now user_id plan_id due tasks d =
     (let d1 = dict_sets [(''tasks'', PList tasks), (''plan_id'', PStr plan_id), (''user_id'', PStr user_id),
            (''status'', PStr ''DRAFT''), (''revision'', PInt 1), (''created_at'', PTime now), (''updated_at'', PTime now)] d
      in if due = '''' then d1 else dict_set ''deadline'' (PStr due) d1)"

definition proposal :: "string \<Rightarrow> props \<Rightarrow> props" where
  "proposal plan_id d =
     [(''plan_id'', PStr plan_id), (''goal_title'', dict_get_default d ''goal_title'' (PStr '''')),
      (''tasks'', dict_get_default d ''tasks'' (PList [])),
      (''execution_summary'', dict_get_default d ''execution_summary'' (PStr '''')),
      (''task_count'', case dict_get_default d ''tasks'' (PList []) of PList ts \<Rightarrow> PInt (int (length ts)) | _ \<Rightarrow> PInt 0),
      (''status'', PStr (''draft '' @ em_dash @ '' awaiting user review and approval'')),
      (''revision'', dict_get_default d ''revision'' (PInt 1))]"

definition tool_propose_plan ::
  "'g plan_env \<Rightarrow> (string \<Rightarrow> string) option \<Rightarrow> py_datetime \<Rightarrow> string \<Rightarrow> props \<Rightarrow> 'g plan_op" where
  "tool_propose_plan env llm now user_id args w = (case llm of
     None \<Rightarrow> (Inr (Refused LlmMissing), w)
   | Some answer \<Rightarrow> (case plan_target env args (tw_session (pw_tools w)) of
       (Inl e, s) \<Rightarrow> (Inl e, w\<lparr>pw_tools := (pw_tools w)\<lparr>tw_session := s\<rparr>\<rparr>)
     | (Inr descr, s) \<Rightarrow>
         let v1 = w\<lparr>pw_tools := (pw_tools w)\<lparr>tw_session := s\<rparr>\<rparr> in
         if descr = '''' then (Inr (Refused DescriptionRequired), v1)
         else (case parse_plan_output env descr (answer descr) of
             Inl e \<Rightarrow> (Inl e, v1)
           | Inr d \<Rightarrow>
               let n = tw_uuids (pw_tools v1); plan_id = ''PLAN-'' @ pe_hex env n;
                   tasks = draft_tasks (max_tasks_arg env args) (dict_get_default d ''tasks'' (PList []));
                   d1 = make_draft now user_id plan_id (plan_field env args ''deadline'') tasks d;
                   (a, v2) = new_plan d1 (v1\<lparr>pw_tools := (pw_tools v1)\<lparr>tw_uuids := Suc n\<rparr>\<rparr>)
               in (Inr (Answer (proposal plan_id d1)), persist_pending_plan env user_id a v2))))"

subsection \<open>Editing and approving\<close>

definition EDIT_FIELDS :: "string list" where
  "EDIT_FIELDS = [''goal_title'', ''goal_description'', ''execution_summary'', ''deadline'']"

definition edit_fields :: "props \<Rightarrow> props \<Rightarrow> props" where
  "edit_fields args d = foldl (\<lambda>d k. case dict_get args k of None \<Rightarrow> d | Some v \<Rightarrow> dict_set k v d) d EDIT_FIELDS"

fun normalize_tasks :: "nat \<Rightarrow> pval list \<Rightarrow> plan_error + pval list" where
  "normalize_tasks i [] = Inr []"
| "normalize_tasks i (PDict t # ts) = bindE (normalize_tasks (Suc i) ts)
     (\<lambda>r. Inr (PDict (setdefault ''draft_task_id'' (draft_id i) t) # r))"
| "normalize_tasks i (_ # ts) = Inl (TaskNotObject i)"

definition edit_tasks :: "props \<Rightarrow> props \<Rightarrow> plan_error + props" where
  "edit_tasks args d = (case dict_get args ''tasks'' of
     None \<Rightarrow> Inr d
   | Some (PList ts) \<Rightarrow> bindE (normalize_tasks 0 ts) (\<lambda>r. Inr (dict_set ''tasks'' (PList r) d))
   | Some _ \<Rightarrow> Inl TasksNotArray)"

definition edits :: "props \<Rightarrow> bool" where
  "edits args \<longleftrightarrow> list_ex (\<lambda>k. dict_get args k \<noteq> None) (''tasks'' # EDIT_FIELDS)"

definition unapprove :: "'g plan_env \<Rightarrow> props \<Rightarrow> props" where
  "unapprove env d = (if plan_text env d ''status'' ''DRAFT'' = ''APPROVED''
     then dict_pop ''approved_by'' (dict_pop ''approved_at'' (dict_set ''status'' (PStr ''DRAFT'') d)) else d)"

definition plan_answer :: "'g plan_env \<Rightarrow> string \<Rightarrow> string \<Rightarrow> props \<Rightarrow> props \<Rightarrow> py_error + plan_reply" where
  "plan_answer env plan_id msg extra d = bindE (task_count env d) (\<lambda>n. Inr (Answer
     ([(''plan_id'', PStr plan_id), (''status'', dict_get_default d ''status'' (PStr ''DRAFT''))] @ extra @
      [(''task_count'', n), (''message'', PStr msg)])))"

definition edit_loaded :: "'g plan_env \<Rightarrow> py_datetime \<Rightarrow> string \<Rightarrow> props \<Rightarrow> string \<Rightarrow> nat \<Rightarrow> 'g plan_op" where
  "edit_loaded env now user_id args plan_id a w =
     (let d1 = edit_fields args (pw_heap w a) in
      case edit_tasks args d1 of
        Inl e \<Rightarrow> (Inr (Refused e), set_plan a d1 w)
      | Inr d2 \<Rightarrow>
          if \<not> edits args then (plan_answer env plan_id ''No changes provided.'' [] d2, set_plan a d2 w)
          else (let d3 = unapprove env d2 in
            case py_int env (dict_get_default d3 ''revision'' (PInt 1)) of
              Inl e \<Rightarrow> (Inl e, set_plan a d3 w)
            | Inr n \<Rightarrow>
                let d4 = dict_set ''updated_at'' (PTime now) (dict_set ''revision'' (PInt (n + 1)) d3);
                    v1 = persist_pending_plan env user_id a (set_plan a d4 w)
                in (plan_answer env plan_id ''Plan updated.''
                      [(''revision'', dict_get_default d4 ''revision'' (PInt 1))] d4, v1)))"

definition tool_edit_plan :: "'g plan_env \<Rightarrow> py_datetime \<Rightarrow> string \<Rightarrow> props \<Rightarrow> 'g plan_op" where
  "tool_edit_plan env now user_id args w =
     (let plan_id = plan_field env args ''plan_id'' in
      if plan_id = '''' then (Inr (Refused PlanIdRequired), w)
      else (case open_plan env user_id plan_id w of
          (None, v1) \<Rightarrow> (Inr (Refused (PlanNotFound plan_id)), v1)
        | (Some a, v1) \<Rightarrow>
            if has_status ''EXECUTED'' (pw_heap v1 a) then (Inr (Refused (PlanAlreadyExecuted plan_id)), v1)
            else edit_loaded env now user_id args plan_id a v1))"

definition approved_plan :: "py_datetime \<Rightarrow> string \<Rightarrow> props \<Rightarrow> props" where
  "approved_plan now user_id = dict_sets [(''status'', PStr ''APPROVED''), (''approved_by'', PStr user_id),
     (''approved_at'', PTime now), (''updated_at'', PTime now)]"

definition tool_approve_plan :: "'g plan_env \<Rightarrow> py_datetime \<Rightarrow> string \<Rightarrow> props \<Rightarrow> 'g plan_op" where
  "tool_approve_plan env now user_id args w =
     (let plan_id = plan_field env args ''plan_id'' in
      if plan_id = '''' then (Inr (Refused PlanIdRequired), w)
      else (case open_plan env user_id plan_id w of
          (None, v1) \<Rightarrow> (Inr (Refused (PlanNotFound plan_id)), v1)
        | (Some a, v1) \<Rightarrow>
            let status = plan_text env (pw_heap v1 a) ''status'' '''' in
            if status = ''EXECUTED'' then (Inr (Refused (PlanAlreadyExecuted plan_id)), v1)
            else if status = ''APPROVED'' then (Inr (Answer [(''plan_id'', PStr plan_id),
              (''status'', PStr ''APPROVED''), (''message'', PStr ''Plan is already approved.'')]), v1)
            else let d = approved_plan now user_id (pw_heap v1 a);
                     v2 = persist_pending_plan env user_id a (set_plan a d v1)
                 in (plan_answer env plan_id ''Plan approved. You can now call execute_plan.'' [] d, v2)))"

subsection \<open>Executing\<close>

definition approved_ids :: "props \<Rightarrow> py_error + string list" where
  "approved_ids args = (if get_truthy args ''approved_task_ids''
     then bindE (iterate (dict_get_default args ''approved_task_ids'' PNone)) (\<lambda>vs.
       Inr (filter (\<lambda>s. s \<noteq> []) (List.map_filter (map_option strip \<circ> edge_target_of) vs)))
     else Inr [])"

fun selected_tasks :: "'g plan_env \<Rightarrow> string list \<Rightarrow> nat \<Rightarrow> pval list \<Rightarrow> (nat \<times> props) list" where
  "selected_tasks env ids i [] = []"
| "selected_tasks env ids i (PDict t # ts) =
     (if ids \<noteq> [] \<and> plan_field env t ''draft_task_id'' \<notin> set ids then selected_tasks env ids (Suc i) ts
      else (i, t) # selected_tasks env ids (Suc i) ts)"
| "selected_tasks env ids i (_ # ts) = selected_tasks env ids (Suc i) ts"

text \<open>\<open>index_to_task_id.get\<close>: numbers and truth values that are equal hash alike; a list or dict cannot be a key.\<close>

definition key_number :: "pval \<Rightarrow> py_error + rat option" where
  "key_number v = (case v of
     PInt i \<Rightarrow> Inr (Some (of_int i)) | PBool b \<Rightarrow> Inr (Some (if b then 1 else 0)) | PFloat r \<Rightarrow> Inr (Some r)
   | PList _ \<Rightarrow> Inl PyTypeError | PDict _ \<Rightarrow> Inl PyTypeError | _ \<Rightarrow> Inr None)"

fun depends_on_ids :: "(nat \<times> string) list \<Rightarrow> pval list \<Rightarrow> py_error + string list" where
  "depends_on_ids ix [] = Inr []"
| "depends_on_ids ix (v # vs) = bindE (key_number v) (\<lambda>k. bindE (depends_on_ids ix vs) (\<lambda>r.
     Inr (case find (\<lambda>(i, _). k = Some (of_nat i)) (rev ix) of
            Some (_, s) \<Rightarrow> if s \<noteq> [] then s # r else r | None \<Rightarrow> r)))"

definition goal_args :: "props \<Rightarrow> props" where
  "goal_args d = [(''title'', dict_get_default d ''goal_title'' (PStr ''Untitled Goal'')),
     (''description'', dict_get_default d ''goal_description'' (PStr '''')),
     (''deadline'', dict_get_default d ''deadline'' (PStr ''''))]"

definition task_args :: "nat \<Rightarrow> props \<Rightarrow> string \<Rightarrow> string list \<Rightarrow> props" where
  "task_args i spec goal_id deps = [(''title'', dict_get_default spec ''title'' (PStr (''Task '' @ dec_string (i + 1)))),
     (''description'', dict_get_default spec ''description'' (PStr '''')),
     (''task_type'', dict_get_default spec ''task_type'' (PStr ''atomic'')),
     (''goal_id'', PStr goal_id), (''depends_on'', dump_list PStr deps)]"

definition created_task :: "string \<Rightarrow> props \<Rightarrow> props" where
  "created_task task_id spec = [(''task_id'', PStr task_id), (''title'', dict_get_default spec ''title'' (PStr '''')),
     (''task_type'', dict_get_default spec ''task_type'' (PStr ''atomic'')),
     (''can_be_automated'', dict_get_default spec ''can_be_automated'' (PBool False)),
     (''assigned_skill'', dict_get_default spec ''assigned_skill'' PNone),
     (''assigned_mcp_server'', dict_get_default spec ''assigned_mcp_server'' PNone),
     (''assigned_mcp_tool'', dict_get_default spec ''assigned_mcp_tool'' PNone),
     (''draft_task_id'', dict_get_default spec ''draft_task_id'' PNone)]"

record progress =
  created_node_ids :: "string list"
  created_tasks :: "props list"
  index_to_task_id :: "(nat \<times> string) list"

definition create_planned ::
  "'g tool_env \<Rightarrow> py_datetime \<Rightarrow> string \<Rightarrow> string \<Rightarrow> nat \<times> props \<Rightarrow> progress \<Rightarrow> ('g, progress) tool" where
  "create_planned env now user_id goal_id task acc = (case task of (i, spec) \<Rightarrow>
     bindS (liftS (iterate (dict_get_default spec ''depends_on_indices'' (PList [])))) (\<lambda>ds.
     bindS (liftS (depends_on_ids (index_to_task_id acc) ds)) (\<lambda>deps.
     bindS (tool_create_task env now user_id (task_args i spec goal_id deps)) (\<lambda>(tid, fu).
     let task_id = strip tid; followup_id = (case fu of None \<Rightarrow> '''' | Some f \<Rightarrow> strip f) in
     if task_id = '''' then raiseS (PyValueError ''task_id'')
     else returnS \<lparr>created_node_ids = created_node_ids acc @ task_id # (if followup_id = '''' then [] else [followup_id]),
       created_tasks = created_tasks acc @ [created_task task_id spec],
       index_to_task_id = index_to_task_id acc @ [(i, task_id)]\<rparr>))))"

text \<open>The loop of the \<open>try\<close> block: what it has made so far is kept when a step raises.\<close>

fun plan_loop ::
  "'g tool_env \<Rightarrow> py_datetime \<Rightarrow> string \<Rightarrow> string \<Rightarrow> (nat \<times> props) list \<Rightarrow> progress \<Rightarrow> 'g tool_world
     \<Rightarrow> (py_error option \<times> progress) \<times> 'g tool_world" where
  "plan_loop env now user_id goal_id [] acc w = ((None, acc), w)"
| "plan_loop env now user_id goal_id (t # ts) acc w = (case create_planned env now user_id goal_id t acc w of
     (Inl e, v1) \<Rightarrow> ((Some e, acc), v1)
   | (Inr acc1, v1) \<Rightarrow> plan_loop env now user_id goal_id ts acc1 v1)"

definition create_goal_and_tasks ::
  "'g plan_env \<Rightarrow> py_datetime \<Rightarrow> string \<Rightarrow> string list \<Rightarrow> props \<Rightarrow> 'g tool_world
     \<Rightarrow> (py_error option \<times> string \<times> progress) \<times> 'g tool_world" where
  "create_goal_and_tasks env now user_id ids d w =
     (let none = \<lparr>created_node_ids = [], created_tasks = [], index_to_task_id = []\<rparr> in
      case tool_create_goal (pe_tools env) now user_id (goal_args d) w of
        (Inl e, v1) \<Rightarrow> ((Some e, '''', none), v1)
      | (Inr g, v1) \<Rightarrow> (let goal_id = strip g in
          if goal_id = '''' then ((Some (PyValueError ''goal_id''), '''', none), v1)
          else (let ts = (case dict_get_default d ''tasks'' (PList []) of PList ts \<Rightarrow> ts | _ \<Rightarrow> []);
                    ((err, acc), v2) = plan_loop (pe_tools env) now user_id goal_id (selected_tasks env ids 0 ts)
                      (none\<lparr>created_node_ids := [goal_id]\<rparr>) v1
                in ((err, goal_id, acc), v2))))"

fun rollback :: "'g database \<Rightarrow> string list \<Rightarrow> 'g tool_world \<Rightarrow> 'g tool_world" where
  "rollback exec [] w = w"
| "rollback exec (i # is) w = rollback exec is (snd (quietly (delete_node exec i) w))"

definition executed_plan :: "py_datetime \<Rightarrow> props \<Rightarrow> props" where
  "executed_plan now = dict_sets [(''status'', PStr ''EXECUTED''), (''executed_at'', PTime now), (''updated_at'', PTime now)]"

definition execute_approved :: "'g plan_env \<Rightarrow> py_datetime \<Rightarrow> string \<Rightarrow> string list \<Rightarrow> string \<Rightarrow> nat \<Rightarrow> 'g plan_op" where
  "execute_approved env now user_id ids plan_id a w =
     (case create_goal_and_tasks env now user_id ids (pw_heap w a) (pw_tools w) of
        ((Some e, _, acc), t) \<Rightarrow> (Inr (Refused (ExecutionFailed plan_id e)),
          w\<lparr>pw_tools := rollback (te_exec (pe_tools env)) (rev (created_node_ids acc)) t\<rparr>)
      | ((None, goal_id, acc), t) \<Rightarrow>
          (Inr (Answer [(''plan_id'', PStr plan_id), (''goal_id'', PStr goal_id),
             (''created_tasks'', dump_list PDict (created_tasks acc)),
             (''total_created'', PInt (int (length (created_tasks acc)))), (''status'', PStr ''EXECUTED'')]),
           persist_pending_plan env user_id a (set_plan a (executed_plan now (pw_heap w a)) (w\<lparr>pw_tools := t\<rparr>))))"

definition tool_execute_plan :: "'g plan_env \<Rightarrow> py_datetime \<Rightarrow> string \<Rightarrow> props \<Rightarrow> 'g plan_op" where
  "tool_execute_plan env now user_id args w = (case text_arg ''plan_id'' (dict_get args ''plan_id'') of
     Inl e \<Rightarrow> (Inl e, w)
   | Inr plan_id \<Rightarrow> (case open_plan env user_id plan_id w of
       (None, v1) \<Rightarrow> (Inr (Refused (PlanNotFound plan_id)), v1)
     | (Some a, v1) \<Rightarrow>
         if has_status ''EXECUTED'' (pw_heap v1 a) then (Inr (Refused (PlanAlreadyExecuted plan_id)), v1)
         else if \<not> has_status ''APPROVED'' (pw_heap v1 a) then
           (Inr (Refused (PlanNotApproved plan_id (dict_get_default (pw_heap v1 a) ''status'' (PStr ''UNKNOWN'')))), v1)
         else (case approved_ids args of
             Inl e \<Rightarrow> (Inl e, v1)
           | Inr ids \<Rightarrow> execute_approved env now user_id ids plan_id a v1)))"

subsection \<open>Frames\<close>

lemma persist_frame [simp]:
  "pw_heap (persist_pending_plan env u a w) = pw_heap w" "pw_next (persist_pending_plan env u a w) = pw_next w"
  "pw_tools (persist_pending_plan env u a w) = pw_tools w"
  by (simp_all add: persist_pending_plan_def Let_def split: sum.split)

lemma set_plan_simps [simp]:
  "pw_heap (set_plan a d w) = (pw_heap w)(a := d)" "pw_next (set_plan a d w) = pw_next w"
  "pw_tools (set_plan a d w) = pw_tools w" "pw_cache (set_plan a d w) = pw_cache w" "pw_bucket (set_plan a d w) = pw_bucket w"
  by (simp_all add: set_plan_def)

definition grows :: "'g plan_world \<Rightarrow> 'g plan_world \<Rightarrow> bool" where
  "grows w w' \<longleftrightarrow> pw_next w \<le> pw_next w' \<and> (\<forall>a < pw_next w. pw_heap w' a = pw_heap w a)"

lemma storage_frame:
  "load_from_storage env u i w = (r, v) \<Longrightarrow> grows w v \<and> pw_tools v = pw_tools w"
  by (auto simp: load_from_storage_def grows_def new_plan_def Let_def split: if_splits sum.splits option.splits pval.splits)

lemma load_frame: "load_pending_plan env u i w = (r, v) \<Longrightarrow> grows w v \<and> pw_tools v = pw_tools w"
  using storage_frame [of env u i w r v]
  by (auto simp: load_pending_plan_def grows_def split: if_splits option.splits)

lemma open_frame:
  "open_plan env u i w = (r, v) \<Longrightarrow> grows w v \<and> pw_tools v = pw_tools w \<and> (\<forall>a. r = Some a \<longrightarrow> pw_heap v a \<noteq> [])"
  using load_frame [of env u i w]
  by (auto simp: open_plan_def split: if_splits option.splits prod.splits)

lemma open_cached:
  "dict_get (pw_cache w) i = Some a \<Longrightarrow> pw_heap w a \<noteq> [] \<Longrightarrow> open_plan env u i w = (Some a, w)"
  by (simp add: open_plan_def load_pending_plan_def)

text \<open>What no call touches: the plans at older addresses, apart from the one the call opened.\<close>

definition only_at :: "nat \<Rightarrow> 'g plan_world \<Rightarrow> 'g plan_world \<Rightarrow> bool" where
  "only_at a w w' \<longleftrightarrow> pw_next w = pw_next w' \<and> (\<forall>b. b \<noteq> a \<longrightarrow> pw_heap w' b = pw_heap w b)"

lemma edit_loaded_frame:
  "edit_loaded env now u args i a w = (r, w') \<Longrightarrow> only_at a w w' \<and> pw_tools w' = pw_tools w"
  by (auto simp: edit_loaded_def only_at_def Let_def split: sum.splits if_splits)

lemma edit_cases:
  assumes "tool_edit_plan env now u args w = (r, w')"
  obtains (refused) e where "r = Inr (Refused e)" "grows w w'" "pw_tools w' = pw_tools w"
    | (edited) a v where "open_plan env u (plan_field env args ''plan_id'') w = (Some a, v)"
        "\<not> has_status ''EXECUTED'' (pw_heap v a)"
        "edit_loaded env now u args (plan_field env args ''plan_id'') a v = (r, w')" "grows w v" "pw_tools v = pw_tools w"
proof -
  obtain q v where o: "open_plan env u (plan_field env args ''plan_id'') w = (q, v)" by fastforce
  have "grows w w" by (simp add: grows_def)
  with assms open_frame [OF o] refused edited o show thesis
    by (cases q) (auto simp: tool_edit_plan_def Let_def split: if_splits)
qed

lemma approve_cases:
  assumes "tool_approve_plan env now u args w = (r, w')"
  obtains (same) "grows w w'" "pw_tools w' = pw_tools w"
    | (approved) a v where "open_plan env u (plan_field env args ''plan_id'') w = (Some a, v)"
        "\<not> has_status ''EXECUTED'' (pw_heap v a)" "grows w v" "pw_tools v = pw_tools w"
        "r = plan_answer env (plan_field env args ''plan_id'') ''Plan approved. You can now call execute_plan.'' []
           (approved_plan now u (pw_heap v a))"
        "w' = persist_pending_plan env u a (set_plan a (approved_plan now u (pw_heap v a)) v)"
proof -
  obtain q v where o: "open_plan env u (plan_field env args ''plan_id'') w = (q, v)" by fastforce
  have g: "grows w w" by (simp add: grows_def)
  have e: "has_status ''EXECUTED'' d \<Longrightarrow> plan_text env d ''status'' '''' = ''EXECUTED''" for d
    by (simp add: has_status_def plan_text_def dict_get_default_def text_of_def)
  show thesis
  proof (cases q)
    case None
    then show thesis using assms open_frame [OF o] o g same by (auto simp: tool_approve_plan_def Let_def split: if_splits)
  next
    case (Some a)
    show thesis
    proof (cases "plan_field env args ''plan_id'' = '''' \<or> plan_text env (pw_heap v a) ''status'' '''' \<in> {''EXECUTED'', ''APPROVED''}")
      case True
      then show thesis using assms open_frame [OF o] o g same Some by (auto simp: tool_approve_plan_def Let_def split: if_splits)
    next
      case False
      then show thesis
        using assms open_frame [OF o] o approved [of a v] Some e [of "pw_heap v a"] by (auto simp: tool_approve_plan_def Let_def)
    qed
  qed
qed

lemma execute_cases:
  assumes "tool_execute_plan env now u args w = (r, w')"
  obtains (stopped) "grows w w'" "pw_tools w' = pw_tools w" "\<nexists>d. r = Inr (Answer d)"
        "\<nexists>i e. r = Inr (Refused (ExecutionFailed i e))"
    | (run) i a v ids where "dict_get args ''plan_id'' = Some (PStr i)" "open_plan env u i w = (Some a, v)"
        "has_status ''APPROVED'' (pw_heap v a)" "approved_ids args = Inr ids" "grows w v" "pw_tools v = pw_tools w"
        "execute_approved env now u ids i a v = (r, w')"
proof -
  have g: "grows w w" by (simp add: grows_def)
  show thesis
  proof (cases "text_arg ''plan_id'' (dict_get args ''plan_id'')")
    case (Inl e)
    then show thesis using assms g stopped by (auto simp: tool_execute_plan_def)
  next
    case (Inr i)
    then have i: "dict_get args ''plan_id'' = Some (PStr i)" by (auto simp: text_arg_def split: option.splits pval.splits)
    obtain q v where o: "open_plan env u i w = (q, v)" by fastforce
    show thesis
      using assms Inr i o open_frame [OF o] stopped run [OF i]
      by (cases q; cases "approved_ids args") (auto simp: tool_execute_plan_def split: if_splits)
  qed
qed

lemma propose_frame:
  "tool_propose_plan env llm now u args w = (r, w') \<Longrightarrow> grows w w'"
  by (auto simp: tool_propose_plan_def grows_def new_plan_def Let_def split: option.splits prod.splits sum.splits if_splits)

lemma execute_frame:
  "execute_approved env now u ids i a w = (r, w') \<Longrightarrow> only_at a w w'"
  by (auto simp: execute_approved_def only_at_def split: prod.splits option.splits)

subsection \<open>A plan that has been executed\<close>

text \<open>
  Any tool call of any user, or anything else that happens to the graph, the clock and the bucket
  between two calls.
\<close>

inductive plan_step :: "'g plan_env \<Rightarrow> 'g plan_world \<Rightarrow> 'g plan_world \<Rightarrow> bool" for env where
  propose: "plan_step env w (snd (tool_propose_plan env llm now u args w))"
| edit: "plan_step env w (snd (tool_edit_plan env now u args w))"
| approve: "plan_step env w (snd (tool_approve_plan env now u args w))"
| execute: "plan_step env w (snd (tool_execute_plan env now u args w))"
| outside: "plan_step env w (w\<lparr>pw_tools := t, pw_bucket := b\<rparr>)"

definition freezes :: "'g plan_world \<Rightarrow> 'g plan_world \<Rightarrow> bool" where
  "freezes w w' \<longleftrightarrow> pw_next w \<le> pw_next w' \<and>
     (\<forall>a < pw_next w. has_status ''EXECUTED'' (pw_heap w a) \<longrightarrow> pw_heap w' a = pw_heap w a)"

lemma freezes_grows: "grows w w' \<Longrightarrow> freezes w w'"
  by (simp add: freezes_def grows_def)

lemma freezes_at: "grows w v \<Longrightarrow> only_at a v w' \<Longrightarrow> \<not> has_status ''EXECUTED'' (pw_heap v a) \<Longrightarrow> freezes w w'"
  by (auto simp: freezes_def grows_def only_at_def) (metis)

lemma freezes_trans: "freezes w v \<Longrightarrow> freezes v w' \<Longrightarrow> freezes w w'"
  by (force simp: freezes_def)

lemma plan_step_freezes: "plan_step env w w' \<Longrightarrow> freezes w w'"
proof (induction rule: plan_step.induct)
  case (propose w llm now u args)
  then show ?case by (intro freezes_grows propose_frame) (rule prod.collapse [symmetric])
next
  case (edit w now u args)
  obtain r w' where e: "tool_edit_plan env now u args w = (r, w')" by fastforce
  then show ?case
    by (cases rule: edit_cases) (auto simp: e dest: edit_loaded_frame intro: freezes_grows freezes_at)
next
  case (approve w now u args)
  obtain r w' where e: "tool_approve_plan env now u args w = (r, w')" by fastforce
  then show ?case
  proof (cases rule: approve_cases)
    case (approved a v)
    have "only_at a v w'" by (simp add: approved only_at_def)
    with approved show ?thesis by (auto simp: e intro: freezes_at)
  qed (simp add: e freezes_grows)
next
  case (execute w now u args)
  obtain r w' where e: "tool_execute_plan env now u args w = (r, w')" by fastforce
  then show ?case
  proof (cases rule: execute_cases)
    case (run i a v ids)
    then have "\<not> has_status ''EXECUTED'' (pw_heap v a)" by (simp add: has_status_def)
    with run show ?thesis by (auto simp: e dest: execute_frame intro: freezes_at)
  qed (simp add: e freezes_grows)
next
  case (outside w t b)
  then show ?case by (simp add: freezes_def)
qed

lemma plan_steps_freeze: "(plan_step env)\<^sup>*\<^sup>* w w' \<Longrightarrow> freezes w w'"
  by (induction rule: rtranclp_induct) (auto simp: freezes_def dest: plan_step_freezes intro: freezes_trans)

text \<open>
Claim C36: An executed plan is final. Whatever calls of whatever users follow, in any order and
between any changes of the graph and the bucket, the plan at an address whose status is EXECUTED
stays as it is, and every call of edit, approve or execute that finds it is refused and changes
neither the graph nor any plan.
\<close>

theorem executed_plan_final:
  assumes "(plan_step env)\<^sup>*\<^sup>* w w'" "a < pw_next w" "has_status ''EXECUTED'' (pw_heap w a)"
  shows "pw_heap w' a = pw_heap w a \<and> (\<forall>u i v args now. open_plan env u i w' = (Some a, v) \<longrightarrow>
      grows w' v \<and> pw_tools v = pw_tools w' \<and>
      (plan_field env args ''plan_id'' = i \<and> i \<noteq> '''' \<longrightarrow>
        tool_edit_plan env now u args w' = (Inr (Refused (PlanAlreadyExecuted i)), v) \<and>
        tool_approve_plan env now u args w' = (Inr (Refused (PlanAlreadyExecuted i)), v)) \<and>
      (dict_get args ''plan_id'' = Some (PStr i) \<longrightarrow>
        tool_execute_plan env now u args w' = (Inr (Refused (PlanAlreadyExecuted i)), v)))"
proof -
  have f: "pw_heap w' a = pw_heap w a" "a < pw_next w'"
    using plan_steps_freeze [OF assms(1)] assms(2,3) by (auto simp: freezes_def)
  have e: "has_status ''EXECUTED'' d \<Longrightarrow> plan_text env d ''status'' '''' = ''EXECUTED''" for d
    by (simp add: has_status_def plan_text_def dict_get_default_def text_of_def)
  have v: "grows w' v \<and> pw_tools v = pw_tools w' \<and> has_status ''EXECUTED'' (pw_heap v a)"
    if "open_plan env u i w' = (Some a, v)" for u i v
    using open_frame [OF that] f assms(3) by (simp add: grows_def)
  show ?thesis
    using f v e by (auto simp: tool_edit_plan_def tool_approve_plan_def tool_execute_plan_def text_arg_def)
qed

subsection \<open>All or nothing\<close>

lemma goal_dump_facts:
  "dict_ok (GoalNode_dump x)" "list_all KEY_RE_match (dict_keys (GoalNode_dump x))"
  "dict_get (GoalNode_dump x) ''id'' = Some (PStr (node_id x))"
  by (simp add: dict_ok_def GoalNode_dump_def)
    (simp_all add: dict_keys_def GoalNode_dump_def dict_simps KEY_RE_match_def chomp_def
      newline_def is_upper_def is_lower_def)

lemma chat_goal_id: "chat_goal env now u args i = Inr g \<Longrightarrow> node_id g = i"
  by (auto simp: chat_goal_def bindE_Inr_iff new_GoalNode_def split: if_splits)

lemma create_goal_touches:
  assumes "linking_service (te_exec env)" "tool_create_goal env now u args w = (r, w')"
  shows "(case r of Inl e \<Rightarrow> tw_session w' = tw_session w
    | Inr g \<Rightarrow> g = generate_goal_id (te_uuid env (tw_uuids w)) \<and> twt (te_exec env) {g} w w') \<and> tw_uuids w' = Suc (tw_uuids w)"
proof -
  let ?i = "generate_goal_id (te_uuid env (tw_uuids w))"
  show ?thesis
  proof (cases "chat_goal env now u args ?i")
    case (Inl e)
    then show ?thesis using assms(2) by (auto simp: tool_create_goal_def bindS_unfold fresh_def Let_def)
  next
    case (Inr g)
    let ?x = "OtherObj None ''GoalNode'' (GoalNode_dump g)"
    obtain q s' where n: "create_node (te_exec env) (te_store env) ?x (te_ctx env) (tw_session w) = (q, s')" by fastforce
    have "dict_ok (node_dump ?x)" "dict_get (node_dump ?x) ''id'' = Some (PStr ?i)"
      using chat_goal_id [OF Inr] by (simp_all add: goal_dump_facts)
    note t = linking_service.create_node_touches [OF assms(1) n this]
    show ?thesis
      using assms(2) Inr n t
      by (cases q) (auto simp: tool_create_goal_def bindS_unfold fresh_def Let_def on_store_def invalidate_queue_def twt_def)
  qed
qed

definition ids_stripped :: "'g tool_env \<Rightarrow> bool" where
  "ids_stripped env \<longleftrightarrow> (\<forall>n. uuid_text (te_uuid env n))"

lemma generated_ids_stripped:
  "strip (generate_task_id n ''AG'' tt) = generate_task_id n ''AG'' tt"
  "uuid_text uuid \<Longrightarrow> strip (generate_goal_id uuid) = generate_goal_id uuid"
proof -
  show "strip (generate_task_id n ''AG'' tt) = generate_task_id n ''AG'' tt"
    by (rule strip_id) (cases tt, simp_all add: generate_task_id_def Let_def GC_Text.is_space_def is_break_def newline_def carriage_def)+
  assume u: "uuid_text uuid"
  then have "uuid \<noteq> []" "is_digit (last uuid) \<or> is_lower (last uuid) \<or> last uuid = CHR ''-''"
    by (auto simp: uuid_text_def list_all_iff)
  then show "strip (generate_goal_id uuid) = generate_goal_id uuid"
    by (intro strip_id) (auto simp: generate_goal_id_def generate_id_def GC_Text.is_space_def is_break_def newline_def carriage_def is_digit_def is_lower_def)
qed

definition new_id :: "'g tool_env \<Rightarrow> nat \<Rightarrow> string \<Rightarrow> bool" where
  "new_id env m i \<longleftrightarrow> (\<exists>n \<ge> m. i = generate_goal_id (te_uuid env n) \<or> (\<exists>tt. i = generate_task_id (te_hex env n) ''AG'' tt))"

lemma new_id_later: "new_id env m i \<Longrightarrow> k \<le> m \<Longrightarrow> new_id env k i"
  by (auto simp: new_id_def intro: order_trans)

lemma task_args_depend: "depends_arg (task_args i spec g deps) = Inr (map PStr deps)"
  by (simp add: depends_arg_def task_args_def dict_simps get_truthy_def dict_get_default_def dump_list_def)

lemma task_id_nonempty: "generate_task_id n ''AG'' tt \<noteq> ''''"
  by (simp add: generate_task_id_def Let_def)

lemma create_planned_touches:
  assumes "linking_service (te_exec env)" "create_planned env now u g t acc w = (r, w')"
  shows "(case r of Inl e \<Rightarrow> tw_session w' = tw_session w
    | Inr acc' \<Rightarrow> (\<exists>new. created_node_ids acc' = created_node_ids acc @ new \<and> twt (te_exec env) (set new) w w' \<and>
        list_all (new_id env (tw_uuids w)) new)) \<and> tw_uuids w \<le> tw_uuids w'"
proof -
  obtain i spec where t: "t = (i, spec)" by (cases t)
  show ?thesis
  proof (cases "bindE (iterate (dict_get_default spec ''depends_on_indices'' (PList []))) (depends_on_ids (index_to_task_id acc))")
    case (Inl e)
    then show ?thesis using assms(2) by (auto simp: t create_planned_def bindS_unfold bindE_def split: sum.splits)
  next
    case (Inr deps)
    obtain q v where c: "tool_create_task env now u (task_args i spec g deps) w = (q, v)" by fastforce
    note touch = create_task_touches [OF assms(1) c]
    show ?thesis
    proof (cases q)
      case (Inl e)
      then show ?thesis
        using assms(2) Inr c touch(2) [OF Inl task_args_depend] touch(3)
        by (auto simp: t create_planned_def bindS_unfold bindE_def split: sum.splits)
    next
      case q: (Inr p)
      obtain tid fu where p: "p = (tid, fu)" by (cases p)
      note m = touch(1) [OF q [unfolded p]]
      let ?fu = "case fu of None \<Rightarrow> [] | Some f \<Rightarrow> [f]"
      have s: "strip tid = tid" "tid \<noteq> ''''" using m generated_ids_stripped(1) task_id_nonempty by auto
      have f: "(case fu of None \<Rightarrow> '''' | Some f \<Rightarrow> strip f) = (case fu of None \<Rightarrow> '''' | Some f \<Rightarrow> f)"
        "\<And>f. fu = Some f \<Longrightarrow> f \<noteq> ''''"
        using m generated_ids_stripped(1) task_id_nonempty by (auto split: option.split)
      have w': "w' = v" "r = Inr \<lparr>created_node_ids = created_node_ids acc @ tid # ?fu,
          created_tasks = created_tasks acc @ [created_task tid spec], index_to_task_id = index_to_task_id acc @ [(i, tid)]\<rparr>"
        using assms(2) Inr c s f
        by (auto simp: t create_planned_def bindS_unfold bindE_def q p Let_def split: sum.splits option.splits)
      have "new_id env (tw_uuids w) tid" using m by (auto simp: new_id_def)
      moreover have "fu = Some f \<Longrightarrow> new_id env (tw_uuids w) f" for f
        using m by (auto simp: new_id_def intro!: exI [of _ "Suc (tw_uuids w)"])
      moreover have "set (tid # ?fu) = insert tid (set_option fu)" by (cases fu) auto
      ultimately show ?thesis using m by (auto simp: w' split: option.splits intro!: exI [of _ "tid # ?fu"])
    qed
  qed
qed

lemma plan_loop_touches:
  assumes "linking_service (te_exec env)" "plan_loop env now u g ts acc w = ((err, acc'), w')"
  shows "\<exists>new. created_node_ids acc' = created_node_ids acc @ new \<and> twt (te_exec env) (set new) w w' \<and>
    list_all (new_id env (tw_uuids w)) new"
  using assms(2)
proof (induction ts arbitrary: acc w)
  case Nil
  then show ?case by simp
next
  case (Cons t ts)
  obtain r v where c: "create_planned env now u g t acc w = (r, v)" by fastforce
  note one = create_planned_touches [OF assms(1) c]
  show ?case
  proof (cases r)
    case (Inl e)
    then show ?thesis using Cons.prems c one by (auto simp: twt_def touches_def)
  next
    case (Inr acc1)
    then obtain n1 where n1: "created_node_ids acc1 = created_node_ids acc @ n1" "twt (te_exec env) (set n1) w v"
      "list_all (new_id env (tw_uuids w)) n1" "tw_uuids w \<le> tw_uuids v" using one by auto
    from Cons.IH [of acc1 v] Cons.prems c Inr obtain n2 where n2: "created_node_ids acc' = created_node_ids acc1 @ n2"
      "twt (te_exec env) (set n2) v w'" "list_all (new_id env (tw_uuids v)) n2" by auto
    have "twt (te_exec env) (set (n1 @ n2)) w w'"
      using n1(2) n2(2) touches_trans by (auto simp: twt_def)
    moreover have "list_all (new_id env (tw_uuids w)) n2"
      using n2(3) n1(4) by (auto simp: list_all_iff intro: new_id_later)
    ultimately show ?thesis using n1 n2 by (intro exI [of _ "n1 @ n2"]) simp
  qed
qed

lemma rollback_deletes:
  assumes "deleting_service exec"
  shows "fetch exec (graph (tw_session (rollback exec is w))) j =
    (if j \<in> set is then None else fetch exec (graph (tw_session w)) j)"
proof (induction "is" arbitrary: w)
  case (Cons i "is")
  have d: "fetch exec (snd (exec (DetachDelete i) g)) j = (if j = i then None else fetch exec g j)" for g j
    using deleting_service.delete_match [OF assms, of j i g] by (simp add: fetch_def)
  show ?case
    by (simp add: Cons.IH quietly_def delete_node_def bindS_unfold run_query_def split_def Let_def d)
qed simp

lemma goal_and_tasks_touch:
  assumes "linking_service (te_exec (pe_tools env))" "ids_stripped (pe_tools env)"
    and "create_goal_and_tasks env now u ids d w = ((err, g, acc), w')"
  shows "twt (te_exec (pe_tools env)) (set (created_node_ids acc)) w w' \<and>
    list_all (new_id (pe_tools env) (tw_uuids w)) (created_node_ids acc)"
proof -
  obtain r v where c: "tool_create_goal (pe_tools env) now u (goal_args d) w = (r, v)" by fastforce
  note goal = create_goal_touches [OF assms(1) c]
  show ?thesis
  proof (cases r)
    case (Inl e)
    then show ?thesis using assms(3) c goal by (auto simp: create_goal_and_tasks_def Let_def twt_def touches_def)
  next
    case (Inr i)
    then have i: "i = generate_goal_id (te_uuid (pe_tools env) (tw_uuids w))" "tw_uuids v = Suc (tw_uuids w)"
      "twt (te_exec (pe_tools env)) {i} w v" using goal by auto
    then have s: "strip i = i" "i \<noteq> ''''"
      using assms(2) generated_ids_stripped(2) by (auto simp: ids_stripped_def generate_goal_id_def generate_id_def)
    from assms(3) c Inr s obtain ts acc0 where l: "plan_loop (pe_tools env) now u i ts acc0 v = ((err, acc), w')"
        "created_node_ids acc0 = [i]"
      by (auto simp: create_goal_and_tasks_def Let_def split: prod.splits)
    from plan_loop_touches [OF assms(1) l(1)] obtain new where new: "created_node_ids acc = i # new"
        "twt (te_exec (pe_tools env)) (set new) v w'" "list_all (new_id (pe_tools env) (tw_uuids v)) new"
      using l(2) by auto
    have "new_id (pe_tools env) (tw_uuids w) i" using i(1) by (auto simp: new_id_def)
    moreover have "list_all (new_id (pe_tools env) (tw_uuids w)) new"
      using new(3) i(2) by (auto simp: list_all_iff intro: new_id_later)
    moreover have "twt (te_exec (pe_tools env)) (set (i # new)) w w'"
      using i(3) new(2) touches_trans by (fastforce simp: twt_def)
    ultimately show ?thesis using new(1) by simp
  qed
qed

lemma failed_execution_restores:
  assumes "deleting_service (te_exec (pe_tools env))" "ids_stripped (pe_tools env)"
    and "execute_approved env now u ids i a w = (Inr (Refused e), w')"
    and "\<And>j. new_id (pe_tools env) (tw_uuids (pw_tools w)) j \<Longrightarrow>
      fetch (te_exec (pe_tools env)) (graph (tw_session (pw_tools w))) j = None"
  shows "fetch (te_exec (pe_tools env)) (graph (tw_session (pw_tools w'))) j =
      fetch (te_exec (pe_tools env)) (graph (tw_session (pw_tools w))) j \<and> pw_heap w' = pw_heap w"
proof -
  have l: "linking_service (te_exec (pe_tools env))" using assms(1) by (simp add: deleting_service_def)
  obtain err g acc t where c: "create_goal_and_tasks env now u ids (pw_heap w a) (pw_tools w) = ((err, g, acc), t)"
    by (metis prod.collapse)
  note t = goal_and_tasks_touch [OF l assms(2) c]
  have r: "pw_tools w' = rollback (te_exec (pe_tools env)) (rev (created_node_ids acc)) t" "pw_heap w' = pw_heap w"
    using assms(3) c by (auto simp: execute_approved_def split: option.splits)
  show ?thesis
    using t assms(4) by (auto simp: r rollback_deletes [OF assms(1)] twt_def touches_def list_all_iff)
qed


subsection \<open>What an execution makes\<close>

lemma create_planned_records:
  "create_planned env now u g t acc w = (Inr acc', w') \<Longrightarrow>
     \<exists>i. created_tasks acc' = created_tasks acc @ [created_task i (snd t)] \<and> i \<noteq> ''''"
  by (auto simp: create_planned_def bindS_unfold Let_def split: prod.splits sum.splits if_splits)

lemma plan_loop_records:
  "plan_loop env now u g ts acc w = ((None, acc'), w') \<Longrightarrow>
     \<exists>is. created_tasks acc' = created_tasks acc @ map2 created_task is (map snd ts) \<and> length is = length ts \<and> '''' \<notin> set is"
proof (induction ts arbitrary: acc w)
  case Nil
  then show ?case by simp
next
  case (Cons t ts)
  obtain r v where c: "create_planned env now u g t acc w = (r, v)" by fastforce
  with Cons.prems obtain acc1 where 1: "r = Inr acc1" "plan_loop env now u g ts acc1 v = ((None, acc'), w')"
    by (cases r) auto
  from create_planned_records [of env now u g t acc w acc1 v] c 1 obtain i where
    i: "created_tasks acc1 = created_tasks acc @ [created_task i (snd t)]" "i \<noteq> ''''" by blast
  from Cons.IH [OF 1(2)] obtain "is" where
    "created_tasks acc' = created_tasks acc1 @ map2 created_task is (map snd ts)" "length is = length ts" "'''' \<notin> set is"
    by blast
  with i show ?case by (intro exI [of _ "i # is"]) auto
qed

text \<open>
Executing an approved plan. An execution that answers ran on a plan whose status was APPROVED;
it reports one created task for each selected entry of the plan, in the order of the plan and with its
draft id; the plan is EXECUTED from then on, and no node of the graph changed but those made for it,
whose ids are new ones.
\<close>

theorem execution_follows_plan:
  assumes "linking_service (te_exec (pe_tools env))" "ids_stripped (pe_tools env)"
    and "tool_execute_plan env now u args w = (Inr (Answer p), w')"
  shows "\<exists>i a v ids ts is made. dict_get args ''plan_id'' = Some (PStr i) \<and> open_plan env u i w = (Some a, v) \<and>
    has_status ''APPROVED'' (pw_heap v a) \<and> approved_ids args = Inr ids \<and>
    ts = selected_tasks env ids 0 (case dict_get_default (pw_heap v a) ''tasks'' (PList []) of PList ts \<Rightarrow> ts | _ \<Rightarrow> []) \<and>
    dict_get p ''created_tasks'' = Some (dump_list PDict (map2 created_task is (map snd ts))) \<and> length is = length ts \<and>
    pw_heap w' = (pw_heap v)(a := executed_plan now (pw_heap v a)) \<and> has_status ''EXECUTED'' (pw_heap w' a) \<and>
    twt (te_exec (pe_tools env)) made (pw_tools w) (pw_tools w') \<and>
    (\<forall>j \<in> made. new_id (pe_tools env) (tw_uuids (pw_tools w)) j)"
proof -
  from assms(3) obtain i a v ids where run: "dict_get args ''plan_id'' = Some (PStr i)" "open_plan env u i w = (Some a, v)"
      "has_status ''APPROVED'' (pw_heap v a)" "approved_ids args = Inr ids" "pw_tools v = pw_tools w"
      "execute_approved env now u ids i a v = (Inr (Answer p), w')"
    by (cases rule: execute_cases) auto
  obtain err g acc t where c: "create_goal_and_tasks env now u ids (pw_heap v a) (pw_tools v) = ((err, g, acc), t)"
    by (metis prod.collapse)
  with run(6) have e: "err = None" and w': "pw_heap w' = (pw_heap v)(a := executed_plan now (pw_heap v a))" "pw_tools w' = t"
      "dict_get p ''created_tasks'' = Some (dump_list PDict (created_tasks acc))"
    by (auto simp: execute_approved_def dict_simps split: option.splits)
  define ts where "ts = selected_tasks env ids 0 (case dict_get_default (pw_heap v a) ''tasks'' (PList []) of PList ts \<Rightarrow> ts | _ \<Rightarrow> [])"
  from c e obtain acc0 v2 where "plan_loop (pe_tools env) now u g ts acc0 v2 = ((None, acc), t)" "created_tasks acc0 = []"
    by (auto simp: create_goal_and_tasks_def Let_def ts_def split: prod.splits sum.splits if_splits)
  from plan_loop_records [OF this(1)] this(2) obtain "is" where
    "created_tasks acc = map2 created_task is (map snd ts)" "length is = length ts" by auto
  moreover have "has_status ''EXECUTED'' (pw_heap w' a)"
    by (simp add: w' executed_plan_def dict_sets_def has_status_def dict_simps)
  moreover have "twt (te_exec (pe_tools env)) (set (created_node_ids acc)) (pw_tools w) (pw_tools w')"
    "\<forall>j \<in> set (created_node_ids acc). new_id (pe_tools env) (tw_uuids (pw_tools w)) j"
    using goal_and_tasks_touch [OF assms(1,2) c] by (simp_all add: run(5) w'(2) list_all_iff)
  ultimately show ?thesis
    using run(1-4) w'(1,3) ts_def
    by (intro exI [of _ i] exI [of _ a] exI [of _ v] exI [of _ ids] exI [of _ ts] exI [of _ "is"]
        exI [of _ "set (created_node_ids acc)"]) simp
qed

subsection \<open>Drafts\<close>

lemma max_tasks_bounds: "1 \<le> max_tasks_arg env args" "max_tasks_arg env args \<le> 50"
  by (simp_all add: max_tasks_arg_def Let_def)

definition numbered :: "pval \<Rightarrow> bool" where
  "numbered t \<longleftrightarrow> (\<forall>d. t = PDict d \<longrightarrow> dict_get d ''draft_task_id'' \<noteq> None)"

lemma number_drafts_numbered: "list_all numbered (number_drafts i ts) \<and> length (number_drafts i ts) = length ts"
  by (induction i ts rule: number_drafts.induct) (auto simp: numbered_def setdefault_def dict_simps)

lemma normalized_numbered: "normalize_tasks i ts = Inr r \<Longrightarrow> list_all numbered r \<and> length r = length ts"
  by (induction i ts arbitrary: r rule: normalize_tasks.induct) (auto simp: numbered_def setdefault_def dict_simps bindE_Inr_iff)

lemma plan_field_text: "dict_get d k = Some (PStr s) \<Longrightarrow> plan_field env d k = strip s"
  by (simp add: plan_field_def plan_text_def dict_get_default_def text_of_def)

lemma plan_id_stripped: "uuid_text h \<Longrightarrow> strip (''PLAN-'' @ h) = ''PLAN-'' @ h"
proof -
  assume u: "uuid_text h"
  then have "h \<noteq> []" "is_digit (last h) \<or> is_lower (last h) \<or> last h = CHR ''-''"
    by (auto simp: uuid_text_def list_all_iff)
  then show ?thesis
    by (intro strip_id) (auto simp: GC_Text.is_space_def is_break_def newline_def carriage_def is_digit_def is_lower_def)
qed


subsection \<open>Approvals that do not hold\<close>

lemma dict_get_edit_other: "k \<notin> set EDIT_FIELDS \<Longrightarrow> dict_get (edit_fields args d) k = dict_get d k"
  by (auto simp: edit_fields_def EDIT_FIELDS_def dict_simps split: option.splits)

lemma dict_get_edit_title: "dict_get args ''goal_title'' = Some t \<Longrightarrow> dict_get (edit_fields args d) ''goal_title'' = Some t"
  by (auto simp: edit_fields_def EDIT_FIELDS_def dict_simps split: option.splits)

lemma edit_fields_nonempty: "has_status s (edit_fields args d) \<Longrightarrow> edit_fields args d \<noteq> []"
  by (auto simp: has_status_def dict_get_Nil)

text \<open>
A refused edit still edits. When the tasks of an edit are not a list, the call answers with an error, but
the title it carries is already in the plan; a plan that was approved stays approved, so any user can
execute what nobody approved.
\<close>

theorem refused_edit_changes_approved_plan:
  assumes "open_plan env u i w = (Some a, v)" "has_status ''APPROVED'' (pw_heap v a)"
    and "plan_field env args ''plan_id'' = i" "i \<noteq> ''''" "dict_get args ''tasks'' = Some t" "\<forall>ts. t \<noteq> PList ts"
    and "dict_get args ''goal_title'' = Some ti"
  shows "\<exists>w'. tool_edit_plan env now u args w = (Inr (Refused TasksNotArray), w') \<and>
    has_status ''APPROVED'' (pw_heap w' a) \<and> dict_get (pw_heap w' a) ''goal_title'' = Some ti \<and> pw_cache w' = pw_cache v \<and>
    (\<forall>u2 j. dict_get (pw_cache w') j = Some a \<longrightarrow> open_plan env u2 j w' = (Some a, w'))"
proof -
  let ?d = "edit_fields args (pw_heap v a)"
  have s: "has_status ''APPROVED'' ?d"
    using assms(2) by (simp add: has_status_def dict_get_edit_other EDIT_FIELDS_def)
  have "edit_tasks args ?d = Inl TasksNotArray"
    using assms(5,6) by (auto simp: edit_tasks_def split: pval.split)
  moreover have "\<not> has_status ''EXECUTED'' (pw_heap v a)" using assms(2) by (simp add: has_status_def)
  ultimately have "tool_edit_plan env now u args w = (Inr (Refused TasksNotArray), set_plan a ?d v)"
    using assms(1,3,4) by (simp add: tool_edit_plan_def edit_loaded_def Let_def)
  then show ?thesis
    using s dict_get_edit_title [OF assms(7)] edit_fields_nonempty [OF s] by (auto intro: open_cached)
qed

text \<open>
A plan id is enough. A plan that the process keeps is found by its id for every user; so a user who is not
the one the plan was made for approves it, and the approval carries the name of the stranger.
\<close>

theorem stranger_approves_plan:
  assumes "dict_get (pw_cache w) i = Some a" "pw_heap w a \<noteq> []" "i \<noteq> ''''"
    and "plan_text env (pw_heap w a) ''status'' '''' \<notin> {''EXECUTED'', ''APPROVED''}"
    and "plan_field env args ''plan_id'' = i"
  shows "\<exists>r w'. tool_approve_plan env now stranger args w = (r, w') \<and> has_status ''APPROVED'' (pw_heap w' a) \<and>
    dict_get (pw_heap w' a) ''approved_by'' = Some (PStr stranger) \<and>
    dict_get (pw_heap w' a) ''user_id'' = dict_get (pw_heap w a) ''user_id''"
proof -
  have "tool_approve_plan env now stranger args w =
      (plan_answer env i ''Plan approved. You can now call execute_plan.'' [] (approved_plan now stranger (pw_heap w a)),
       persist_pending_plan env stranger a (set_plan a (approved_plan now stranger (pw_heap w a)) w))"
    using assms open_cached [OF assms(1,2)] by (simp add: tool_approve_plan_def Let_def)
  then show ?thesis by (simp add: approved_plan_def dict_sets_def has_status_def dict_simps)
qed

text \<open>An edit that is accepted takes the approval back.\<close>

lemma accepted_edit_needs_new_approval:
  assumes "edit_loaded env now u args i a w = (Inr (Answer p), w')" "edits args" "has_status ''APPROVED'' (pw_heap w a)"
  shows "has_status ''DRAFT'' (pw_heap w' a) \<and> dict_get (pw_heap w' a) ''approved_by'' = None"
proof -
  let ?d1 = "edit_fields args (pw_heap w a)"
  obtain d2 where 2: "edit_tasks args ?d1 = Inr d2" using assms(1) by (auto simp: edit_loaded_def Let_def split: sum.splits)
  have s: "dict_get d2 ''status'' = Some (PStr ''APPROVED'')"
    using 2 assms(3) dict_get_edit_other [of "''status''" args "pw_heap w a"]
    by (auto simp: edit_tasks_def has_status_def EDIT_FIELDS_def dict_simps bindE_Inr_iff split: option.splits pval.splits)
  then have u: "unapprove env d2 = dict_pop ''approved_by'' (dict_pop ''approved_at'' (dict_set ''status'' (PStr ''DRAFT'') d2))"
    by (simp add: unapprove_def plan_text_def dict_get_default_def text_of_def)
  have "pw_heap w' a = dict_set ''updated_at'' (PTime now) (dict_set ''revision'' (PInt (n + 1)) (unapprove env d2))"
    if "py_int env (dict_get_default (unapprove env d2) ''revision'' (PInt 1)) = Inr n" for n
    using assms(1,2) 2 that by (simp add: edit_loaded_def Let_def) auto
  moreover obtain n where "py_int env (dict_get_default (unapprove env d2) ''revision'' (PInt 1)) = Inr n"
    using assms(1,2) 2 by (auto simp: edit_loaded_def Let_def split: sum.splits)
  ultimately show ?thesis by (simp add: u has_status_def dict_simps)
qed

subsection \<open>Examples\<close>

definition plan_env0 :: "mem_graph plan_env" where
  "plan_env0 = \<lparr>pe_tools = chat_env, pe_dumps = (\<lambda>_. ''{}''), pe_int = (\<lambda>_. None), pe_hex = (\<lambda>_. ''ab''),
     pe_storage = False, pe_agent_id = ''main''\<rparr>"

definition moving :: "string \<Rightarrow> pval \<Rightarrow> props" where
  "moving st deps = [(''plan_id'', PStr ''PLAN-1''), (''user_id'', PStr ''USER-a''), (''status'', PStr st),
     (''goal_title'', PStr ''Move''), (''revision'', PInt 1), (''tasks'', PList [PDict [(''title'', PStr ''Pack'')],
       PDict [(''title'', PStr ''Drive''), (''depends_on_indices'', deps)]])]"

definition plan_world0 :: "string \<Rightarrow> pval \<Rightarrow> mem_graph plan_world" where
  "plan_world0 st deps = \<lparr>pw_tools = chat_world, pw_cache = [(''PLAN-1'', 0)], pw_heap = (\<lambda>_. [])(0 := moving st deps),
     pw_next = 1, pw_bucket = (\<lambda>_. None)\<rparr>"

lemma plan_world0_open: "open_plan env u ''PLAN-1'' (plan_world0 st deps) = (Some 0, plan_world0 st deps)"
  by (rule open_cached) (simp_all add: plan_world0_def moving_def dict_simps)

lemma moving_status: "has_status s (pw_heap (plan_world0 st deps) 0) \<longleftrightarrow> s = st"
  by (auto simp: has_status_def plan_world0_def moving_def dict_simps)

lemma plan_arg: "plan_field plan_env0 [(''plan_id'', PStr ''PLAN-1'')] ''plan_id'' = ''PLAN-1''" by code_simp

theorem executed_plan_final_witness:
  "\<exists>v. tool_execute_plan plan_env0 (utc_dt 9) ''USER-b'' [(''plan_id'', PStr ''PLAN-1'')]
      (snd (tool_approve_plan plan_env0 (utc_dt 5) ''USER-a'' [(''plan_id'', PStr ''PLAN-1'')] (plan_world0 ''EXECUTED'' (PList [])))) =
    (Inr (Refused (PlanAlreadyExecuted ''PLAN-1'')), v)"
proof -
  let ?w = "plan_world0 ''EXECUTED'' (PList [])" and ?args = "[(''plan_id'', PStr ''PLAN-1'')]"
  have s: "(plan_step plan_env0)\<^sup>*\<^sup>* ?w (snd (tool_approve_plan plan_env0 (utc_dt 5) ''USER-a'' ?args ?w))"
    by (rule r_into_rtranclp) (rule plan_step.approve)
  have same: "snd (tool_approve_plan plan_env0 (utc_dt 5) ''USER-a'' ?args ?w) = ?w"
    using plan_world0_open [of plan_env0 "''USER-a''"] plan_arg
    by (simp add: tool_approve_plan_def Let_def) (simp add: plan_world0_def plan_text_def moving_def dict_get_default_def dict_simps text_of_def)
  have pre: "0 < pw_next ?w" "has_status ''EXECUTED'' (pw_heap ?w 0)"
    by (simp add: plan_world0_def) (simp add: moving_status)
  have o: "open_plan plan_env0 ''USER-b'' ''PLAN-1'' (snd (tool_approve_plan plan_env0 (utc_dt 5) ''USER-a'' ?args ?w)) = (Some 0, ?w)"
    unfolding same by (rule plan_world0_open)
  have "dict_get ?args ''plan_id'' = Some (PStr ''PLAN-1'')" by (simp add: dict_simps)
  with executed_plan_final [OF s pre, THEN conjunct2, rule_format, OF o, THEN conjunct2, THEN conjunct2, THEN conjunct2]
  show ?thesis by blast
qed

theorem refused_edit_changes_approved_plan_witness:
  "\<exists>w'. tool_edit_plan plan_env0 (utc_dt 9) ''USER-b'' [(''plan_id'', PStr ''PLAN-1''), (''goal_title'', PStr ''Sell''), (''tasks'', PStr ''x'')]
      (plan_world0 ''APPROVED'' (PList [])) = (Inr (Refused TasksNotArray), w') \<and>
    has_status ''APPROVED'' (pw_heap w' 0) \<and> dict_get (pw_heap w' 0) ''goal_title'' = Some (PStr ''Sell'')"
proof -
  let ?args = "[(''plan_id'', PStr ''PLAN-1''), (''goal_title'', PStr ''Sell''), (''tasks'', PStr ''x'')]"
  have "plan_field plan_env0 ?args ''plan_id'' = ''PLAN-1''" by code_simp
  then show ?thesis
    using refused_edit_changes_approved_plan [OF plan_world0_open [of plan_env0 "''USER-b''" "''APPROVED''" "PList []"],
      of ?args "PStr ''x''" "PStr ''Sell''" "utc_dt 9"]
    by (auto simp: moving_status dict_simps)
qed

theorem stranger_approves_plan_witness:
  "\<exists>r w'. tool_approve_plan plan_env0 (utc_dt 9) ''USER-b'' [(''plan_id'', PStr ''PLAN-1'')] (plan_world0 ''DRAFT'' (PList [])) = (r, w') \<and>
    has_status ''APPROVED'' (pw_heap w' 0) \<and> dict_get (pw_heap w' 0) ''user_id'' = Some (PStr ''USER-a'')"
proof -
  let ?w = "plan_world0 ''DRAFT'' (PList [])"
  have "dict_get (pw_cache ?w) ''PLAN-1'' = Some 0" "pw_heap ?w 0 \<noteq> []"
    "plan_text plan_env0 (pw_heap ?w 0) ''status'' '''' = ''DRAFT''" "dict_get (pw_heap ?w 0) ''user_id'' = Some (PStr ''USER-a'')"
    by (simp_all add: plan_world0_def moving_def dict_simps plan_text_def dict_get_default_def text_of_def)
  then show ?thesis
    using stranger_approves_plan [of ?w "''PLAN-1''" 0 plan_env0 "[(''plan_id'', PStr ''PLAN-1'')]" "utc_dt 9" "''USER-b''"] plan_arg
    by fastforce
qed


text \<open>When the steps of an execution answer.\<close>

lemma goal_answers:
  assumes "require_caller_context (te_store env) (te_ctx env) = Inr ()" "uuid_text (te_uuid env (tw_uuids w))"
    and "dict_get_default d ''goal_title'' (PStr ''Untitled Goal'') = PStr ti"
    and "dict_get_default d ''goal_description'' (PStr '''') = PStr de" "dict_get d ''deadline'' = None"
  shows "\<exists>w'. tool_create_goal env now u (goal_args d) w = (Inr (generate_goal_id (te_uuid env (tw_uuids w))), w')"
proof -
  let ?i = "generate_goal_id (te_uuid env (tw_uuids w))"
  have "validate_goal_id ?i = Inr ?i"
    using generated_id_matches [OF assms(2)] by (simp add: validate_goal_id_def validate_id_def generate_goal_id_def)
  moreover have "parse_deadline (te_iso env) (goal_args d) = Inr None"
    using assms(5) by (simp add: parse_deadline_def goal_args_def get_truthy_def dict_get_default_def dict_simps)
  ultimately obtain g where g: "chat_goal env now u (goal_args d) ?i = Inr g"
    using assms(3,4) by (simp add: chat_goal_def bindE_def text_arg_def desc_arg_def goal_args_def dict_simps dict_get_default_def)
  obtain p s where "create_node (te_exec env) (te_store env) (OtherObj None ''GoalNode'' (GoalNode_dump g)) (te_ctx env)
      (tw_session w) = (Inr p, s)"
    using create_node_total [OF assms(1), of "OtherObj None ''GoalNode'' (GoalNode_dump g)"] goal_dump_facts(2) by fastforce
  with g show ?thesis
    by (simp add: tool_create_goal_def bindS_unfold fresh_def Let_def on_store_def invalidate_queue_def)
qed

lemma agent_initials: "extract_initials ''AG'' = ''AG''" by code_simp

lemma planned_answers:
  assumes "linking_service (te_exec env)" "require_caller_context (te_store env) (te_ctx env) = Inr ()"
    and "iterate (dict_get_default spec ''depends_on_indices'' (PList [])) = Inr ds"
    and "depends_on_ids (index_to_task_id acc) ds = Inr deps"
    and "dict_get spec ''title'' = Some (PStr ti)" "dict_get_default spec ''description'' (PStr '''') = PStr de"
    and "task_type_of (te_str env) (task_args i spec g deps) \<noteq> TaskType.DELEGATED"
  shows "\<exists>acc' w'. create_planned env now u g (i, spec) acc w = (Inr acc', w') \<and>
    index_to_task_id acc' = index_to_task_id acc @ [(i, generate_task_id (te_hex env (tw_uuids w)) ''AG''
      (task_type_of (te_str env) (task_args i spec g deps)))]"
proof -
  let ?args = "task_args i spec g deps"
  let ?i = "generate_task_id (te_hex env (tw_uuids w)) ''AG'' (task_type_of (te_str env) ?args)"
  have "TASK_ID_PATTERN_match ?i" using approval_id_valid [of _ "''AG''"] unfolding agent_initials by simp
  moreover have "parse_deadline (te_iso env) ?args = Inr None"
    by (simp add: parse_deadline_def task_args_def get_truthy_def dict_get_default_def dict_simps)
  ultimately obtain t where t: "chat_task env now u ?args (task_type_of (te_str env) ?args) ?i = Inr t"
    using assms(5,6) by (simp add: chat_task_def bindE_def text_arg_def desc_arg_def task_args_def dict_simps
        dict_get_default_def dec_opt_def)
  from chat_task_answers [OF assms(1,2) t task_args_depend assms(7)] obtain w' where
    "tool_create_task env now u ?args w = (Inr (?i, None), w')" by blast
  then show ?thesis
    using assms(3,4) generated_ids_stripped(1) task_id_nonempty by (simp add: create_planned_def bindS_unfold Let_def)
qed

lemma moving_start:
  "\<exists>acc v. create_goal_and_tasks plan_env0 now u [] (moving st deps) chat_world =
    (case plan_loop chat_env now u ''GOAL-u'' [(1, [(''title'', PStr ''Drive''), (''depends_on_indices'', deps)])] acc v of
       ((err, acc'), w') \<Rightarrow> ((err, ''GOAL-u'', acc'), w')) \<and> index_to_task_id acc = [(0, ''TSK-AG-4661-ATM'')]"
proof -
  have e: "te_exec chat_env = mem_exec" "te_store chat_env = agent_cfg" "te_ctx chat_env = None" "te_uuid chat_env = (\<lambda>_. ''u'')"
    "pe_tools plan_env0 = chat_env" by (simp_all add: chat_env_def plan_env0_def)
  have u: "uuid_text ''u''" by (simp add: uuid_text_def is_lower_def)
  have g: "generate_goal_id ''u'' = ''GOAL-u''" by (simp add: generate_goal_id_def generate_id_def)
  have f: "dict_get_default (moving st deps) ''goal_title'' (PStr ''Untitled Goal'') = PStr ''Move''"
    "dict_get_default (moving st deps) ''goal_description'' (PStr '''') = PStr ''''" "dict_get (moving st deps) ''deadline'' = None"
    "dict_get_default (moving st deps) ''tasks'' (PList []) = PList [PDict [(''title'', PStr ''Pack'')],
       PDict [(''title'', PStr ''Drive''), (''depends_on_indices'', deps)]]"
    by (simp_all add: moving_def dict_get_default_def dict_simps)
  obtain v where goal: "tool_create_goal chat_env now u (goal_args (moving st deps)) chat_world = (Inr ''GOAL-u'', v)"
    using goal_answers [of chat_env chat_world "moving st deps", unfolded e, OF agent_cfg_open u f(1-3), of now u] unfolding g by blast
  have n: "tw_uuids v = 1"
    using create_goal_touches [of chat_env, unfolded e, OF mem_link.linking_service_axioms goal] by (simp add: chat_world_def)
  let ?acc = "\<lparr>created_node_ids = [''GOAL-u''], created_tasks = [], index_to_task_id = []\<rparr>"
  have tt: "task_type_of (te_str chat_env) (task_args 0 [(''title'', PStr ''Pack'')] ''GOAL-u'' []) = TaskType.ATOMIC" by code_simp
  have i: "generate_task_id (te_hex chat_env (tw_uuids v)) ''AG'' TaskType.ATOMIC = ''TSK-AG-4661-ATM''"
    by (simp add: chat_env_def n) code_simp
  obtain acc v2 where one: "create_planned chat_env now u ''GOAL-u'' (0, [(''title'', PStr ''Pack'')]) ?acc v = (Inr acc, v2)"
    "index_to_task_id acc = [(0, ''TSK-AG-4661-ATM'')]"
    using planned_answers [of chat_env "[(''title'', PStr ''Pack'')]" "[]" ?acc "[]" "''Pack''" "''''" 0 "''GOAL-u''" now u v]
      mem_link.linking_service_axioms agent_cfg_open by (auto simp: e tt i dict_get_default_def dict_simps)
  have "strip ''GOAL-u'' = ''GOAL-u''" by code_simp
  then have "create_goal_and_tasks plan_env0 now u [] (moving st deps) chat_world =
    (case plan_loop chat_env now u ''GOAL-u'' [(1, [(''title'', PStr ''Drive''), (''depends_on_indices'', deps)])] acc v2 of
       ((err, acc'), w') \<Rightarrow> ((err, ''GOAL-u'', acc'), w'))"
    by (simp add: create_goal_and_tasks_def e goal f Let_def one(1) del: plan_loop.simps(2)) (simp add: one(1) split: prod.split)
  with one(2) show ?thesis by blast
qed

lemma plan_world0_simps:
  "pw_tools (plan_world0 st deps) = chat_world" "pw_heap (plan_world0 st deps) 0 = moving st deps"
  by (simp_all add: plan_world0_def)

lemma execute_moving:
  "tool_execute_plan plan_env0 now u [(''plan_id'', PStr ''PLAN-1'')] (plan_world0 ''APPROVED'' deps) =
     execute_approved plan_env0 now u [] ''PLAN-1'' 0 (plan_world0 ''APPROVED'' deps)"
  using plan_world0_open [of plan_env0 u "''APPROVED''" deps]
  by (simp add: tool_execute_plan_def text_arg_def dict_simps moving_status approved_ids_def get_truthy_def)

lemma chat_ids: "ids_stripped (pe_tools plan_env0)" "te_exec (pe_tools plan_env0) = mem_exec"
  by (simp_all add: plan_env0_def chat_env_def ids_stripped_def uuid_text_def is_lower_def)


theorem execution_follows_plan_witness:
  "\<exists>p w'. tool_execute_plan plan_env0 (utc_dt 9) ''USER-a'' [(''plan_id'', PStr ''PLAN-1'')] (plan_world0 ''APPROVED'' (PList [PInt 0])) =
      (Inr (Answer p), w') \<and> has_status ''EXECUTED'' (pw_heap w' 0) \<and>
    (\<exists>a b. dict_get p ''created_tasks'' = Some (PList [PDict a, PDict b]))"
proof -
  let ?deps = "PList [PInt 0]"
  let ?w = "plan_world0 ''APPROVED'' ?deps" and ?args = "[(''plan_id'', PStr ''PLAN-1'')]"
  let ?spec = "[(''title'', PStr ''Drive''), (''depends_on_indices'', ?deps)]"
  obtain acc v where c: "create_goal_and_tasks plan_env0 (utc_dt 9) ''USER-a'' [] (moving ''APPROVED'' ?deps) chat_world =
      (case plan_loop chat_env (utc_dt 9) ''USER-a'' ''GOAL-u'' [(1, ?spec)] acc v of
         ((err, acc'), w') \<Rightarrow> ((err, ''GOAL-u'', acc'), w'))" "index_to_task_id acc = [(0, ''TSK-AG-4661-ATM'')]"
    using moving_start by blast
  have tt: "task_type_of (te_str chat_env) (task_args 1 ?spec ''GOAL-u'' [''TSK-AG-4661-ATM'']) \<noteq> TaskType.DELEGATED" by code_simp
  have deps: "depends_on_ids (index_to_task_id acc) [PInt 0] = Inr [''TSK-AG-4661-ATM'']" unfolding c(2) by code_simp
  have e: "linking_service (te_exec chat_env)" "require_caller_context (te_store chat_env) (te_ctx chat_env) = Inr ()"
    by (simp_all add: chat_env_def agent_cfg_open mem_link.linking_service_axioms)
  have s: "iterate (dict_get_default ?spec ''depends_on_indices'' (PList [])) = Inr [PInt 0]" "dict_get ?spec ''title'' = Some (PStr ''Drive'')"
    "dict_get_default ?spec ''description'' (PStr '''') = PStr ''''" by (simp_all add: dict_get_default_def dict_simps)
  obtain acc' v2 where "create_planned chat_env (utc_dt 9) ''USER-a'' ''GOAL-u'' (1, ?spec) acc v = (Inr acc', v2)"
    using planned_answers [OF e s(1) deps s(2,3) tt] by blast
  then obtain p w' where run: "tool_execute_plan plan_env0 (utc_dt 9) ''USER-a'' ?args ?w = (Inr (Answer p), w')"
    unfolding execute_moving using c(1) by (simp add: execute_approved_def plan_world0_simps)
  have l: "linking_service (te_exec (pe_tools plan_env0))" unfolding chat_ids(2) by (rule mem_link.linking_service_axioms)
  from execution_follows_plan [OF l chat_ids(1) run] obtain i a x ids ts "is" where made:
      "dict_get ?args ''plan_id'' = Some (PStr i)" "open_plan plan_env0 ''USER-a'' i ?w = (Some a, x)" "approved_ids ?args = Inr ids"
      "ts = selected_tasks plan_env0 ids 0 (case dict_get_default (pw_heap x a) ''tasks'' (PList []) of PList ts \<Rightarrow> ts | _ \<Rightarrow> [])"
      "dict_get p ''created_tasks'' = Some (dump_list PDict (map2 created_task is (map snd ts)))" "length is = length ts"
      "has_status ''EXECUTED'' (pw_heap w' a)"
    by (elim exE conjE)
  have "ids = []" using made(3) by (simp add: approved_ids_def get_truthy_def dict_simps)
  moreover have "a = 0" "x = ?w" using made(1,2) plan_world0_open [of plan_env0 "''USER-a''" "''APPROVED''" ?deps] by (simp_all add: dict_simps)
  moreover have "dict_get_default (moving ''APPROVED'' ?deps) ''tasks'' (PList []) = PList [PDict [(''title'', PStr ''Pack'')], PDict ?spec]"
    by (simp add: moving_def dict_get_default_def dict_simps)
  ultimately have ts: "ts = [(0, [(''title'', PStr ''Pack'')]), (1, ?spec)]" using made(4) by (simp add: plan_world0_simps)
  then obtain y z where "is = [y, z]" using made(6) by (auto simp: length_Suc_conv)
  with made(5,7) ts run \<open>a = 0\<close> show ?thesis by (auto simp: dump_list_def)
qed

end
