(* ===== verification/GC_Archive.thy ===== *)
theory GC_Archive
  imports GC_Creation GC_Redirects
begin

section \<open>Archiving (\<open>agent/tools/archive.py\<close>)\<close>

text \<open>
  The archive tools: lifecycle fields on the node, written with the administrative store, and a
  tombstone that leads on to a replacement. \<open>GC_Redirects\<close> has the resolver that follows the
  tombstones; the theorems here join the two. The three handlers of the file differ in the key
  under which they report the id.
\<close>

subsection \<open>Tombstones (\<open>models/nodes.py\<close>)\<close>

record TombstoneNode = BaseNode +
  archived_node_id :: string
  redirect_to :: "string option"
  tombstone_reason :: string

definition TombstoneNode_dump :: "TombstoneNode \<Rightarrow> props" where
  "TombstoneNode_dump x = [
     (''id'', PStr (node_id x)), (''created_at'', PTime (created_at x)),
     (''updated_at'', PTime (updated_at x)), (''version'', PInt (version x)),
     (''archived_at'', dump_opt PTime (archived_at x)), (''archived_by'', dump_opt PStr (archived_by x)),
     (''archive_reason'', dump_opt PStr (archive_reason x)), (''purge_after'', dump_opt PTime (purge_after x)),
     (''purge_cancelled_at'', dump_opt PTime (purge_cancelled_at x)), (''legal_hold'', PBool (legal_hold x)),
     (''hold_reason'', dump_opt PStr (hold_reason x)), (''hold_set_by'', dump_opt PStr (hold_set_by x)),
     (''hold_set_at'', dump_opt PTime (hold_set_at x)), (''link_status'', dump_opt PStr (link_status x)),
     (''node_type'', PStr ''TombstoneNode''), (''archived_node_id'', PStr (archived_node_id x)),
     (''redirect_to'', dump_opt PStr (redirect_to x)), (''reason'', PStr (tombstone_reason x))]"

definition new_TombstoneNode :: "string \<Rightarrow> py_datetime \<Rightarrow> string \<Rightarrow> pval \<Rightarrow> pval \<Rightarrow> py_error + TombstoneNode" where
  "new_TombstoneNode tid now i redirect rsn = (case (dec_opt dec_str redirect, dec_str rsn) of
     (Some rt, Some re) \<Rightarrow> Inr \<lparr>node_id = tid, created_at = now, updated_at = now, version = 0,
       archived_at = None, archived_by = None, archive_reason = None, purge_after = None,
       purge_cancelled_at = None, legal_hold = False, hold_reason = None, hold_set_by = None,
       hold_set_at = None, link_status = None, archived_node_id = i, redirect_to = rt, tombstone_reason = re\<rparr>
   | _ \<Rightarrow> Inl (PyValueError ''TombstoneNode''))"

subsection \<open>The handlers\<close>

datatype archive_error = NodeIdRequired string | NodeNotFound string | AlreadyArchived string

type_synonym archive_reply = "archive_error + props"

definition archive_fields :: "py_datetime \<Rightarrow> string \<Rightarrow> pval \<Rightarrow> pval \<Rightarrow> props" where
  "archive_fields now by_user rsn redirect =
     [(''archived_at'', PTime now), (''archived_by'', PStr by_user), (''archive_reason'', rsn),
      (''link_status'', PStr (if truthy redirect then ''redirected'' else ''archived''))]"

definition create_tombstone ::
  "'g database \<Rightarrow> store_cfg \<Rightarrow> string \<Rightarrow> py_datetime \<Rightarrow> string \<Rightarrow> pval \<Rightarrow> pval \<Rightarrow> ('g, pval) op" where
  "create_tombstone exec cfg uuid now i redirect rsn =
     bindS (liftS (new_TombstoneNode (generate_id ''TOMB'' uuid) now i redirect rsn)) (\<lambda>t.
     bindS (create_node exec cfg (OtherObj (Some ''TombstoneNode'') ''TombstoneNode'' (TombstoneNode_dump t)) None) (\<lambda>created.
       returnS (dict_get_default created ''id'' (PStr (node_id t)))))"

definition archive_node ::
  "string \<Rightarrow> 'g database \<Rightarrow> store_cfg \<Rightarrow> string \<Rightarrow> py_datetime \<Rightarrow> py_datetime \<Rightarrow> string \<Rightarrow> string \<Rightarrow> pval \<Rightarrow> pval
     \<Rightarrow> ('g, archive_reply) op" where
  "archive_node key exec cfg uuid now made i by_user rsn redirect =
     bindS (get_node exec cfg i True None) (\<lambda>found. case found of
       None \<Rightarrow> returnS (Inl (NodeNotFound i))
     | Some p \<Rightarrow>
         if get_truthy p ''archived_at'' then returnS (Inl (AlreadyArchived i))
         else bindS (update_node exec cfg i (archive_fields now by_user rsn redirect) None) (\<lambda>_.
              bindS (create_tombstone exec cfg uuid made i redirect rsn) (\<lambda>tombstone_id.
                returnS (Inr [(''status'', PStr ''archived''), (key, PStr i), (''tombstone_id'', tombstone_id),
                  (''redirect_to'', redirect), (''archived_at'', PTime now)]))))"

definition archive_task :: "'g database \<Rightarrow> store_cfg \<Rightarrow> string \<Rightarrow> py_datetime \<Rightarrow> py_datetime \<Rightarrow> string \<Rightarrow> string \<Rightarrow> pval \<Rightarrow> pval
     \<Rightarrow> ('g, archive_reply) op" where "archive_task = archive_node ''task_id''"

definition archive_resource :: "'g database \<Rightarrow> store_cfg \<Rightarrow> string \<Rightarrow> py_datetime \<Rightarrow> py_datetime \<Rightarrow> string \<Rightarrow> string \<Rightarrow> pval \<Rightarrow> pval
     \<Rightarrow> ('g, archive_reply) op" where "archive_resource = archive_node ''resource_id''"

definition archive_goal :: "'g database \<Rightarrow> store_cfg \<Rightarrow> string \<Rightarrow> py_datetime \<Rightarrow> py_datetime \<Rightarrow> string \<Rightarrow> string \<Rightarrow> pval \<Rightarrow> pval
     \<Rightarrow> ('g, archive_reply) op" where "archive_goal = archive_node ''goal_id''"

text \<open>The tools of the orchestrator; \<open>admin\<close> is the store \<open>_admin_repo\<close> works with.\<close>

definition tool_archive ::
  "(string \<Rightarrow> pval \<Rightarrow> pval \<Rightarrow> ('g, archive_reply) op) \<Rightarrow> string \<Rightarrow> props \<Rightarrow> ('g, archive_reply) tool" where
  "tool_archive handler key args = (case edge_ref args key of
     None \<Rightarrow> returnS (Inl (NodeIdRequired key))
   | Some i \<Rightarrow> on_store (handler i (dict_get_default args ''reason'' (PStr '''')) (dict_get_default args ''redirect_to'' PNone)))"

definition tool_archive_task :: "'g tool_env \<Rightarrow> store_cfg \<Rightarrow> string \<Rightarrow> py_datetime \<Rightarrow> py_datetime \<Rightarrow> string \<Rightarrow> props \<Rightarrow> ('g, archive_reply) tool" where
  "tool_archive_task env admin uuid now made user_id =
     tool_archive (\<lambda>i. archive_task (te_exec env) admin uuid now made i user_id) ''task_id''"

definition tool_archive_resource :: "'g tool_env \<Rightarrow> store_cfg \<Rightarrow> string \<Rightarrow> py_datetime \<Rightarrow> py_datetime \<Rightarrow> string \<Rightarrow> props \<Rightarrow> ('g, archive_reply) tool" where
  "tool_archive_resource env admin uuid now made user_id =
     tool_archive (\<lambda>i. archive_resource (te_exec env) admin uuid now made i user_id) ''resource_id''"

definition tool_archive_goal :: "'g tool_env \<Rightarrow> store_cfg \<Rightarrow> string \<Rightarrow> py_datetime \<Rightarrow> py_datetime \<Rightarrow> string \<Rightarrow> props \<Rightarrow> ('g, archive_reply) tool" where
  "tool_archive_goal env admin uuid now made user_id =
     tool_archive (\<lambda>i. archive_goal (te_exec env) admin uuid now made i user_id) ''goal_id''"

subsection \<open>A database that answers label queries\<close>

definition row_matches :: "cypher_lit pydict \<Rightarrow> props \<Rightarrow> bool" where
  "row_matches fs p \<longleftrightarrow> list_all (\<lambda>(k, l). l \<noteq> CNull \<and> dict_get p k = Some (read_literal l)) fs"

locale labelled_service = linking_service +
  assumes label_create: "set (fst (exec (MatchLabel lb fs) (snd (exec (Create lb2 m) g)))) =
      set (fst (exec (MatchLabel lb fs) g)) \<union> (if lb = lb2 \<and> row_matches fs (set_props m []) then {NodeRow (set_props m [])} else {})"
    and label_set: "set (dict_keys upd) \<inter> set (dict_keys fs) = {} \<Longrightarrow>
      set (fst (exec (MatchLabel lb fs) (snd (exec (MatchIdSet i upd) g)))) \<subseteq>
        set (fst (exec (MatchLabel lb fs) g)) \<union> set_row upd ` set (fst (exec (MatchLabel lb fs) g))"

lemma set_props_other: "k \<notin> set (dict_keys upd) \<Longrightarrow> dict_get (set_props upd p) k = dict_get p k"
proof (induction upd arbitrary: p)
  case Nil
  then show ?case by (simp add: set_props_def)
next
  case (Cons x upd)
  obtain a l where x: "x = (a, l)" by (cases x)
  have "set_props (x # upd) p = set_props upd (if l = CNull then dict_pop a p else dict_set a (read_literal l) p)"
    by (simp add: set_props_def x)
  with Cons show ?case by (simp add: x dict_keys_def dict_simps)
qed

interpretation mem_label: labelled_service mem_exec
proof
  fix lb lb2 :: string and fs m :: "cypher_lit pydict" and g :: mem_graph
  show "set (fst (mem_exec (MatchLabel lb fs) (snd (mem_exec (Create lb2 m) g)))) =
      set (fst (mem_exec (MatchLabel lb fs) g)) \<union> (if lb = lb2 \<and> row_matches fs (set_props m []) then {NodeRow (set_props m [])} else {})"
    by (auto simp: node_rows_def prop_match_def row_matches_def)
next
  fix upd fs :: "cypher_lit pydict" and lb i :: string and g :: mem_graph
  assume d: "set (dict_keys upd) \<inter> set (dict_keys fs) = {}"
  have "prop_match fs (a, set_props upd p) = prop_match fs (a, p)" for a p
  proof -
    have "dict_get (set_props upd p) k = dict_get p k" if "(k, l) \<in> set fs" for k l
      using d that by (intro set_props_other) (force simp: dict_keys_def)
    then show ?thesis unfolding prop_match_def by (intro list.pred_cong) auto
  qed
  then show "set (fst (mem_exec (MatchLabel lb fs) (snd (mem_exec (MatchIdSet i upd) g)))) \<subseteq>
        set (fst (mem_exec (MatchLabel lb fs) g)) \<union> set_row upd ` set (fst (mem_exec (MatchLabel lb fs) g))"
    by (force simp: node_rows_def)
qed

subsection \<open>What archiving leaves behind\<close>

definition open_admin :: "store_cfg \<Rightarrow> bool" where
  "open_admin cfg \<longleftrightarrow> \<not> no_delete_enforcement cfg \<and> principal_name cfg \<noteq> ''agent_principal''"

lemma tombstone_dump_facts:
  "dict_ok (TombstoneNode_dump x)" "list_all KEY_RE_match (dict_keys (TombstoneNode_dump x))"
  "dict_get (TombstoneNode_dump x) ''id'' = Some (PStr (node_id x))"
  by (simp add: dict_ok_def TombstoneNode_dump_def)
    (simp_all add: dict_keys_def TombstoneNode_dump_def dict_simps KEY_RE_match_def chomp_def
      newline_def is_upper_def is_lower_def)

lemma archive_fields_facts:
  "dict_ok (set_lits (archive_fields now u rsn rt))" "keeps_id i (set_lits (archive_fields now u rsn rt))"
  "set (dict_keys (set_lits (archive_fields now u rsn rt))) = {''archived_at'', ''archived_by'', ''archive_reason'', ''link_status''}"
  by (simp_all add: archive_fields_def set_lits_def dict_ok_def keeps_id_def dict_keys_def)

lemma archive_fields_gone:
  "dict_get (set_props (set_lits (archive_fields now u rsn rt)) p) ''archived_at'' = Some (PTime now)"
  "dict_get (set_props (set_lits (archive_fields now u rsn rt)) p) ''link_status'' =
     Some (PStr (if truthy rt then ''redirected'' else ''archived''))"
  by (simp_all only: dict_get_set_props [OF archive_fields_facts(1)] dict_get_set_lits) (simp_all add: archive_fields_def dict_simps)

lemma archived_not_live: "\<not> is_live (set_props (set_lits (archive_fields now u rsn rt)) p)"
  by (simp add: is_live_def get_truthy_def archive_fields_gone)

lemma latest_of_newer:
  assumes "t \<in> set ts" "\<And>x. x \<in> set ts \<Longrightarrow> x = t \<or> created_key f x < created_key f t"
  shows "latest_tombstone f ts = t"
proof -
  let ?s = "sort_key (created_key f) (rev ts)"
  have s: "set ?s = set ts" "?s \<noteq> []" using assms(1) by (auto simp flip: set_empty)
  have "created_key f t \<le> created_key f (last ?s)"
  proof -
    obtain k where k: "k < length ?s" "?s ! k = t" using assms(1) s(1) by (metis in_set_conv_nth)
    then have "map (created_key f) ?s ! k \<le> map (created_key f) ?s ! (length ?s - 1)"
      by (intro sorted_nth_mono) (auto simp: sorted_sort_key)
    with k s(2) show ?thesis by (simp add: last_conv_nth)
  qed
  moreover have "last ?s \<in> set ts" using s by (metis last_in_set)
  ultimately show ?thesis
    using assms(2) [of "last ?s"] s(2) by (auto simp: latest_tombstone_def hd_rev)
qed

lemma admin_context: "open_admin cfg \<Longrightarrow> require_caller_context cfg None = Inr ()"
  by (simp add: open_admin_def require_caller_context_def)

context labelled_service
begin

lemma archive_updates:
  assumes "open_admin cfg" "update_node exec cfg i (archive_fields now u rsn rt) None s = (r, s1)"
  shows "(\<exists>v. r = Inr v) \<and> graph s1 = snd (exec (MatchIdSet i (set_lits (archive_fields now u rsn rt))) (graph s))"
proof -
  have "require_caller_context cfg None = Inr ()" using assms(1) by (simp add: open_admin_def require_caller_context_def)
  then have "\<exists>v. r = Inr v"
    using update_node_writes [of cfg None "archive_fields now u rsn rt" i s] assms by (auto simp: open_admin_def archive_fields_def)
  with assms(2) show ?thesis by (cases rule: update_node_cases) auto
qed

lemma archive_tombstones:
  assumes "x \<in> set (tombstones_of exec (snd (exec (MatchIdSet i (set_lits (archive_fields now u rsn rt))) g)) j)"
  shows "\<exists>y \<in> set (tombstones_of exec g j). \<forall>f. created_key f x = created_key f y"
proof -
  let ?upd = "set_lits (archive_fields now u rsn rt)" and ?fs = "[(''archived_node_id'', CStr (PStr j))]"
  have "set (dict_keys ?upd) \<inter> set (dict_keys ?fs) = {}" unfolding archive_fields_facts by (simp add: dict_keys_def)
  from label_set [OF this, of "''TombstoneNode''" i g] assms obtain r where
    r: "r \<in> set (fst (exec (MatchLabel ''TombstoneNode'' ?fs) g))" "x = extract_properties r \<or> x = set_props ?upd (extract_properties r)"
    unfolding tombstones_of_def by fastforce
  have "created_key f (set_props ?upd p) = created_key f p" for f p
    using set_props_other [of "''created_at''" ?upd p] archive_fields_facts(3) [of now u rsn rt] by (simp add: created_key_def)
  with r show ?thesis unfolding tombstones_of_def by auto
qed

lemma tombstone_made:
  assumes "open_admin cfg" "new_TombstoneNode (generate_id ''TOMB'' uuid) made i rt rsn = Inr t"
    and "fetch exec (graph s) (generate_id ''TOMB'' uuid) = None"
  shows "\<exists>r s'. create_tombstone exec cfg uuid made i rt rsn s = (Inr r, s') \<and>
    adds_node exec (generate_id ''TOMB'' uuid) (TombstoneNode_dump t) s s' \<and>
    set (tombstones_of exec (graph s') i) = insert (set_props (set_lits (TombstoneNode_dump t)) []) (set (tombstones_of exec (graph s) i))"
proof -
  let ?x = "OtherObj (Some ''TombstoneNode'') ''TombstoneNode'' (TombstoneNode_dump t)"
  have c: "require_caller_context cfg None = Inr ()" using assms(1) by (simp add: open_admin_def require_caller_context_def)
  have t: "node_id t = generate_id ''TOMB'' uuid" "archived_node_id t = i"
    using assms(2) by (auto simp: new_TombstoneNode_def split: option.splits)
  have k: "list_all KEY_RE_match (dict_keys (node_dump ?x))" by (simp add: tombstone_dump_facts)
  obtain p s' where n: "create_node exec cfg ?x None s = (Inr p, s')" using create_node_total [OF c k] by blast
  have a: "adds_node exec (generate_id ''TOMB'' uuid) (node_dump ?x) s s'"
    using n k by (rule create_node_adds) (simp_all add: tombstone_dump_facts t assms(3))
  have g: "graph s' = snd (exec (Create ''TombstoneNode'' (set_lits (TombstoneNode_dump t))) (graph s))"
    using n k by (auto simp: create_node_def bindS_unfold run_query_def split_def Let_def whenS_def
        spawn_embedding_def to_cypher_map_ok c split: if_splits)
  have m: "row_matches [(''archived_node_id'', CStr (PStr i))] (set_props (set_lits (TombstoneNode_dump t)) [])"
  proof -
    have "dict_get (TombstoneNode_dump t) ''archived_node_id'' = Some (PStr i)" by (simp add: TombstoneNode_dump_def dict_simps t)
    then show ?thesis by (simp add: row_matches_def dict_get_set_props tombstone_dump_facts dict_get_set_lits)
  qed
  have "set (tombstones_of exec (graph s') i) = insert (set_props (set_lits (TombstoneNode_dump t)) []) (set (tombstones_of exec (graph s) i))"
    unfolding tombstones_of_def g set_map label_create using m by (simp add: image_Un)
  moreover have "\<exists>r. create_tombstone exec cfg uuid made i rt rsn s = (Inr r, s')"
    by (simp add: create_tombstone_def assms(2) bindS_unfold n del: node_dump.simps)
  ultimately show ?thesis using a by auto
qed

lemma archive_run:
  assumes "open_admin cfg" "fetch exec (graph s) i = Some p" "\<not> get_truthy p ''archived_at''"
    and "new_TombstoneNode (generate_id ''TOMB'' uuid) made i rt rsn = Inr t"
    and "fetch exec (graph s) (generate_id ''TOMB'' uuid) = None"
  shows "\<exists>res s'. archive_node key exec cfg uuid now made i u rsn rt s = (Inr (Inr res), s') \<and>
    (\<forall>j. fetch exec (graph s') j = (if j = generate_id ''TOMB'' uuid then Some (set_props (set_lits (TombstoneNode_dump t)) [])
       else if j = i then Some (set_props (set_lits (archive_fields now u rsn rt)) p) else fetch exec (graph s) j)) \<and>
    set_props (set_lits (TombstoneNode_dump t)) [] \<in> set (tombstones_of exec (graph s') i) \<and>
    (\<forall>x \<in> set (tombstones_of exec (graph s') i). x = set_props (set_lits (TombstoneNode_dump t)) [] \<or>
       (\<exists>y \<in> set (tombstones_of exec (graph s) i). \<forall>f. created_key f x = created_key f y))"
proof -
  let ?upd = "archive_fields now u rsn rt"
  obtain r s1 where u: "update_node exec cfg i ?upd None s = (r, s1)" by fastforce
  from archive_updates [OF assms(1) u] obtain v where v: "r = Inr v"
    "graph s1 = snd (exec (MatchIdSet i (set_lits ?upd)) (graph s))" by auto
  have f1: "fetch exec (graph s1) j = (if j = i then Some (set_props (set_lits ?upd) p) else fetch exec (graph s) j)" for j
    unfolding v fetch_set [OF archive_fields_facts(2)] using assms(2) by simp
  have "fetch exec (graph s1) (generate_id ''TOMB'' uuid) = None" using f1 assms(2,5) by auto
  from tombstone_made [OF assms(1,4) this] obtain q s' where q: "create_tombstone exec cfg uuid made i rt rsn s1 = (Inr q, s')"
    "adds_node exec (generate_id ''TOMB'' uuid) (TombstoneNode_dump t) s1 s'"
    "set (tombstones_of exec (graph s') i) = insert (set_props (set_lits (TombstoneNode_dump t)) []) (set (tombstones_of exec (graph s1) i))"
    by blast
  have "get_node exec cfg i True None s = (Inr (Some p), s)"
    by (simp add: get_node_eq admin_context [OF assms(1)] assms(2) visible_def)
  then have "\<exists>res. archive_node key exec cfg uuid now made i u rsn rt s = (Inr (Inr res), s')"
    using u v(1) q(1) assms(3) by (simp add: archive_node_def bindS_unfold)
  moreover have "\<forall>x \<in> set (tombstones_of exec (graph s1) i). \<exists>y \<in> set (tombstones_of exec (graph s) i). \<forall>f. created_key f x = created_key f y"
    unfolding v by (blast dest: archive_tombstones)
  ultimately show ?thesis using q(2,3) f1 by (auto simp: adds_node_def)
qed

lemma archived_outcome:
  assumes "open_admin cfg" "fetch exec (graph s) i = Some p" "\<not> get_truthy p ''archived_at''" "rt = PStr j"
    and "fetch exec (graph s) (generate_id ''TOMB'' uuid) = None"
    and "\<forall>x \<in> set (tombstones_of exec (graph s) i). created_key ts x < ts made"
  shows "\<exists>res s'. archive_node key exec cfg uuid now made i u (PStr rsn) rt s = (Inr (Inr res), s') \<and>
    outcome_of exec ts (graph s') i = Redirect j \<and>
    (\<forall>k. k \<noteq> i \<and> k \<noteq> generate_id ''TOMB'' uuid \<longrightarrow> fetch exec (graph s') k = fetch exec (graph s) k)"
proof -
  obtain t where t: "new_TombstoneNode (generate_id ''TOMB'' uuid) made i rt (PStr rsn) = Inr t"
    "redirect_to t = Some j" "created_at t = made"
    by (simp add: new_TombstoneNode_def assms(4) dec_opt_def)
  let ?new = "set_props (set_lits (TombstoneNode_dump t)) []"
  from archive_run [OF assms(1-3) t(1) assms(5), of key now u] obtain res s' where r:
    "archive_node key exec cfg uuid now made i u (PStr rsn) rt s = (Inr (Inr res), s')"
    "\<forall>k. fetch exec (graph s') k = (if k = generate_id ''TOMB'' uuid then Some ?new
       else if k = i then Some (set_props (set_lits (archive_fields now u (PStr rsn) rt)) p) else fetch exec (graph s) k)"
    "?new \<in> set (tombstones_of exec (graph s') i)"
    "\<forall>x \<in> set (tombstones_of exec (graph s') i). x = ?new \<or> (\<exists>y \<in> set (tombstones_of exec (graph s) i). \<forall>f. created_key f x = created_key f y)"
    by blast
  have n: "dict_get ?new k = Option.bind (dict_get (TombstoneNode_dump t) k)
      (\<lambda>v. if v = PNone then None else Some (read_literal (to_cypher_value v)))" for k
    by (simp add: dict_get_set_props tombstone_dump_facts dict_get_set_lits dict_get_Nil split: option.split)
  have key: "created_key ts ?new = ts made" "dict_get ?new ''redirect_to'' = Some (PStr j)"
    by (simp_all add: created_key_def n) (simp_all add: TombstoneNode_dump_def dict_simps t dump_opt_def)
  have "latest_tombstone ts (tombstones_of exec (graph s') i) = ?new"
    using r(4) assms(6) key(1) by (intro latest_of_newer [OF r(3)]) metis
  moreover have "i \<noteq> generate_id ''TOMB'' uuid" using assms(2,5) by auto
  moreover have "tombstones_of exec (graph s') i \<noteq> []" using r(3) by auto
  ultimately have "outcome_of exec ts (graph s') i = Redirect j"
    using r(2) archived_not_live key(2) by (simp add: outcome_of_def dict_get_default_def)
  with r(1,2) show ?thesis by auto
qed

end

text \<open>
Claim C38: An archived node leads on to its replacement. When a task, resource or goal is archived with a
redirect to a live node, the resolver answers the old id with the replacement from then on,
provided the tombstone is the latest of the node; the row of every other node is as it was.
\<close>

theorem archive_then_resolve:
  assumes "labelled_service exec" "open_admin cfg"
    and "fetch exec (graph s) i = Some p" "\<not> get_truthy p ''archived_at''"
    and "fetch exec (graph s) j = Some q" "is_live q" "i \<noteq> j" "1 \<le> max_hops"
    and "fetch exec (graph s) (generate_id ''TOMB'' uuid) = None"
    and "\<forall>x \<in> set (tombstones_of exec (graph s) i). created_key ts x < ts made"
  shows "\<exists>res s'. archive_node key exec cfg uuid now made i u (PStr rsn) (PStr j) s = (Inr (Inr res), s') \<and>
    resolve_canonical exec cfg ts i max_hops s' = (Inr (Some q), s') \<and>
    (\<forall>k. k \<noteq> i \<and> k \<noteq> generate_id ''TOMB'' uuid \<longrightarrow> fetch exec (graph s') k = fetch exec (graph s) k)"
proof -
  from labelled_service.archived_outcome [OF assms(1-4) refl assms(9,10), of key now u rsn j] obtain res s' where r:
    "archive_node key exec cfg uuid now made i u (PStr rsn) (PStr j) s = (Inr (Inr res), s')"
    "outcome_of exec ts (graph s') i = Redirect j"
    "\<forall>k. k \<noteq> i \<and> k \<noteq> generate_id ''TOMB'' uuid \<longrightarrow> fetch exec (graph s') k = fetch exec (graph s) k" by blast
  have "fetch exec (graph s') j = Some q" using r(3) assms(5,7,9) by auto
  then have j: "outcome_of exec ts (graph s') j = Ends (Some q)" using assms(6) by (simp add: outcome_of_def)
  have c: "cypher_service exec"
    using assms(1) by (simp add: labelled_service_def linking_service_def creating_service_def)
  obtain n where "nat (max_hops + 1) = Suc (Suc n)" using assms(8) by (intro that [of "nat (max_hops - 1)"]) simp
  then have "resolve_canonical exec cfg ts i max_hops s' = (Inr (Some q), s')"
    using assms(2,7) by (simp add: resolve_canonical_def open_admin_def cypher_service.resolve_loop_eq [OF c] r(2) j del: resolve_loop.simps)
  with r show ?thesis by blast
qed

text \<open>
A node can be archived away from everybody. A redirect to the node itself is accepted, and from then on
the resolver answers the id with a cycle error.
\<close>

theorem self_redirect_is_unresolvable:
  assumes "labelled_service exec" "open_admin cfg"
    and "fetch exec (graph s) i = Some p" "\<not> get_truthy p ''archived_at''" "1 \<le> max_hops"
    and "fetch exec (graph s) (generate_id ''TOMB'' uuid) = None"
    and "\<forall>x \<in> set (tombstones_of exec (graph s) i). created_key ts x < ts made"
  shows "\<exists>res s'. archive_node key exec cfg uuid now made i u (PStr rsn) (PStr i) s = (Inr (Inr res), s') \<and>
    resolve_canonical exec cfg ts i max_hops s' = (Inl (TombstoneCycle i), s')"
proof -
  from labelled_service.archived_outcome [OF assms(1-4) refl assms(6,7), of key now u rsn i] obtain res s' where r:
    "archive_node key exec cfg uuid now made i u (PStr rsn) (PStr i) s = (Inr (Inr res), s')"
    "outcome_of exec ts (graph s') i = Redirect i" by blast
  have c: "cypher_service exec"
    using assms(1) by (simp add: labelled_service_def linking_service_def creating_service_def)
  obtain n where "nat (max_hops + 1) = Suc (Suc n)" using assms(5) by (intro that [of "nat (max_hops - 1)"]) simp
  then have "resolve_canonical exec cfg ts i max_hops s' = (Inl (TombstoneCycle i), s')"
    using assms(2) by (simp add: resolve_canonical_def open_admin_def cypher_service.resolve_loop_eq [OF c] r(2) del: resolve_loop.simps)
  with r show ?thesis by blast
qed

context labelled_service
begin

lemma unfinished_archive:
  assumes "open_admin cfg"
    and "fetch exec (graph s) i = Some p" "\<not> get_truthy p ''archived_at''" "tombstones_of exec (graph s) i = []"
    and "truthy rt" "dec_str rt = None" "0 \<le> max_hops"
  shows "\<exists>s' p'. archive_node key exec cfg uuid now made i u (PStr rsn) rt s = (Inl (PyValueError ''TombstoneNode''), s') \<and>
    fetch exec (graph s') i = Some p' \<and> dict_get p' ''link_status'' = Some (PStr ''redirected'') \<and>
    resolve_canonical exec cfg ts i max_hops s' = (Inr (Some p'), s') \<and>
    (\<forall>uuid2 now2 made2 u2 rsn2 rt2. archive_node key exec cfg uuid2 now2 made2 i u2 rsn2 rt2 s' = (Inr (Inl (AlreadyArchived i)), s'))"
proof -
  let ?upd = "archive_fields now u (PStr rsn) rt"
  obtain r s1 where u: "update_node exec cfg i ?upd None s = (r, s1)" by fastforce
  from archive_updates [OF assms(1) u] obtain v where v: "r = Inr v"
    "graph s1 = snd (exec (MatchIdSet i (set_lits ?upd)) (graph s))" by auto
  define p' where "p' = set_props (set_lits ?upd) p"
  have p': "fetch exec (graph s1) i = Some p'"
    unfolding v fetch_set [OF archive_fields_facts(2)] using assms(2) by (simp add: p'_def)
  have g: "get_node exec cfg i True None s0 = (Inr (fetch exec (graph s0) i), s0)" for s0
    by (simp add: get_node_eq admin_context [OF assms(1)] visible_def split: option.split)
  have "new_TombstoneNode (generate_id ''TOMB'' uuid) made i rt (PStr rsn) = Inl (PyValueError ''TombstoneNode'')"
    using assms(5,6) by (auto simp: new_TombstoneNode_def dec_opt_def)
  then have run: "archive_node key exec cfg uuid now made i u (PStr rsn) rt s = (Inl (PyValueError ''TombstoneNode''), s1)"
    using u v(1) g assms(2,3) by (simp add: archive_node_def bindS_unfold create_tombstone_def)
  have "tombstones_of exec (graph s1) i = []"
    using archive_tombstones [of _ i now u "PStr rsn" rt "graph s" i] assms(4) unfolding v(2)
    by (metis list.set_intros(1) list.set(1) empty_iff neq_Nil_conv)
  then have "outcome_of exec ts (graph s1) i = Ends (Some p')" by (simp add: outcome_of_def p')
  moreover have "\<exists>n. nat (max_hops + 1) = Suc n" using assms(7) by (intro exI [of _ "nat max_hops"]) simp
  ultimately have res: "resolve_canonical exec cfg ts i max_hops s1 = (Inr (Some p'), s1)"
    using assms(1) by (auto simp: resolve_canonical_def open_admin_def resolve_loop_eq simp del: resolve_loop.simps)
  have l: "dict_get p' ''link_status'' = Some (PStr ''redirected'')" "get_truthy p' ''archived_at''"
    using assms(5) by (simp_all add: p'_def get_truthy_def archive_fields_gone)
  then have "archive_node key exec cfg uuid2 now2 made2 i u2 rsn2 rt2 s1 = (Inr (Inl (AlreadyArchived i)), s1)" for uuid2 now2 made2 u2 rsn2 rt2
    by (simp add: archive_node_def bindS_unfold g p')
  with run p' l res show ?thesis by blast
qed

end

text \<open>
Archiving is not atomic. With a redirect that is no text the call raises after the node was archived: the
node is marked as redirected but has no tombstone, the resolver keeps answering with the archived
node, and no later call can repair it, since the node counts as archived.
\<close>

theorem bad_redirect_archives_without_tombstone:
  assumes "labelled_service exec" "open_admin cfg"
    and "fetch exec (graph s) i = Some p" "\<not> get_truthy p ''archived_at''" "tombstones_of exec (graph s) i = []"
    and "truthy rt" "dec_str rt = None" "0 \<le> max_hops"
  shows "\<exists>s' p'. archive_node key exec cfg uuid now made i u (PStr rsn) rt s = (Inl (PyValueError ''TombstoneNode''), s') \<and>
    fetch exec (graph s') i = Some p' \<and> dict_get p' ''link_status'' = Some (PStr ''redirected'') \<and>
    resolve_canonical exec cfg ts i max_hops s' = (Inr (Some p'), s') \<and>
    (\<forall>uuid2 now2 made2 u2 rsn2 rt2. archive_node key exec cfg uuid2 now2 made2 i u2 rsn2 rt2 s' = (Inr (Inl (AlreadyArchived i)), s'))"
  using labelled_service.unfinished_archive [OF assms] .

subsection \<open>Examples\<close>

definition goal_row :: props where
  "goal_row = [(''id'', PStr ''GOAL-1''), (''title'', PStr ''Move'')]"

definition two_nodes :: "mem_graph session" where
  "two_nodes = \<lparr>graph = \<lparr>vertices = [(''TaskAtomic'', plain_row ''USER-a''), (''GoalNode'', goal_row)], relations = [],
     next_rel = 0\<rparr>, spawned = [], notified = []\<rparr>"

lemma two_nodes_fetch:
  "fetch mem_exec (graph two_nodes) i = (if i = ''TSK-AB-1234-ATM'' then Some (plain_row ''USER-a'')
     else if i = ''GOAL-1'' then Some goal_row else None)" "tombstones_of mem_exec (graph two_nodes) i = []"
  by (simp_all add: fetch_def two_nodes_def node_rows_def has_id_def plain_row_def goal_row_def dict_simps tombstones_of_def)

lemma two_nodes_live: "is_live goal_row" "\<not> get_truthy (plain_row u) ''archived_at''" "open_admin admin_cfg"
  by (simp_all add: is_live_def get_truthy_def plain_row_def goal_row_def dict_simps open_admin_def admin_cfg_def)

lemma tomb_id: "generate_id ''TOMB'' ''u1'' = ''TOMB-u1''"
  by (simp add: generate_id_def)

theorem archive_then_resolve_witness:
  "\<exists>res s'. archive_node ''task_id'' mem_exec admin_cfg ''u1'' (utc_dt 5) (utc_dt 6) ''TSK-AB-1234-ATM'' ''USER-a'' (PStr ''done'') (PStr ''GOAL-1'') two_nodes =
      (Inr (Inr res), s') \<and> resolve_canonical mem_exec admin_cfg (\<lambda>_. ''t'') ''TSK-AB-1234-ATM'' 5 s' = (Inr (Some goal_row), s')"
proof -
  have f: "fetch mem_exec (graph two_nodes) ''TSK-AB-1234-ATM'' = Some (plain_row ''USER-a'')"
    "fetch mem_exec (graph two_nodes) ''GOAL-1'' = Some goal_row"
    "fetch mem_exec (graph two_nodes) (generate_id ''TOMB'' ''u1'') = None" by (simp_all add: two_nodes_fetch tomb_id)
  show ?thesis
    using archive_then_resolve [OF mem_label.labelled_service_axioms two_nodes_live(3) f(1) two_nodes_live(2) f(2) two_nodes_live(1) _ _ f(3),
      of 5 "\<lambda>_. ''t''" "utc_dt 6" "''task_id''" "utc_dt 5" "''USER-a''" "''done''"] by (simp add: two_nodes_fetch(2)) blast
qed

theorem self_redirect_is_unresolvable_witness:
  "\<exists>res s'. archive_node ''goal_id'' mem_exec admin_cfg ''u1'' (utc_dt 5) (utc_dt 6) ''GOAL-1'' ''USER-a'' (PStr '''') (PStr ''GOAL-1'') two_nodes =
      (Inr (Inr res), s') \<and> resolve_canonical mem_exec admin_cfg (\<lambda>_. ''t'') ''GOAL-1'' 5 s' = (Inl (TombstoneCycle ''GOAL-1''), s')"
proof -
  have f: "fetch mem_exec (graph two_nodes) ''GOAL-1'' = Some goal_row" "\<not> get_truthy goal_row ''archived_at''"
    "fetch mem_exec (graph two_nodes) (generate_id ''TOMB'' ''u1'') = None"
    by (simp_all add: two_nodes_fetch tomb_id goal_row_def get_truthy_def dict_simps)
  show ?thesis
    using self_redirect_is_unresolvable [OF mem_label.labelled_service_axioms two_nodes_live(3) f(1,2) _ f(3),
      of 5 "\<lambda>_. ''t''" "utc_dt 6" "''goal_id''" "utc_dt 5" "''USER-a''" "''''"] by (simp add: two_nodes_fetch(2))
qed

theorem bad_redirect_archives_without_tombstone_witness:
  "\<exists>s'. archive_node ''goal_id'' mem_exec admin_cfg ''u1'' (utc_dt 5) (utc_dt 6) ''GOAL-1'' ''USER-a'' (PStr '''') (PInt 7) two_nodes =
      (Inl (PyValueError ''TombstoneNode''), s') \<and> (\<exists>p'. fetch mem_exec (graph s') ''GOAL-1'' = Some p' \<and>
        dict_get p' ''link_status'' = Some (PStr ''redirected''))"
proof -
  have f: "fetch mem_exec (graph two_nodes) ''GOAL-1'' = Some goal_row" "\<not> get_truthy goal_row ''archived_at''" "dec_str (PInt 7) = None" "truthy (PInt 7)"
    by (simp_all add: two_nodes_fetch goal_row_def get_truthy_def dict_simps)
  show ?thesis
    using bad_redirect_archives_without_tombstone [OF mem_label.labelled_service_axioms two_nodes_live(3) f(1,2) two_nodes_fetch(2) f(4,3),
      of 5 "''goal_id''" "''u1''" "utc_dt 5" "utc_dt 6" "''USER-a''" "''''" "\<lambda>_. ''t''"] by auto
qed

end
