(* ===== verification/GC_Updates.thy ===== *)
theory GC_Updates
  imports GC_Creation
begin

section \<open>Changing tasks and goals from the chat (\<open>agent/main_orchestrator.py\<close>)\<close>

text \<open>
  The tools \<open>update_task_state\<close>, \<open>update_task\<close> and \<open>update_goal\<close>. The first goes through the state machine
  of \<open>GC_StateMachine\<close> and the cascade of \<open>GC_Cascade\<close>; the other two write the fields they are given.
  \<open>te_iso\<close> is \<open>datetime.fromisoformat\<close> on texts no \<open>isoformat\<close> call wrote.
\<close>

subsection \<open>Replies\<close>

datatype update_error =
    NoSuchNode string
  | InvalidState pval
  | Unparsable string
  | TransitionError transition_error
  | IdRequired string
  | BadDeadline pval

datatype update_reply = UpdateRefused update_error | NoChanges string | Updated props

definition orc_of :: "'g tool_env \<Rightarrow> 'g orc_env" where
  "orc_of env = \<lparr>oe_exec = te_exec env, oe_store = te_store env, oe_loads = te_loads env, oe_float = te_float env,
     oe_str = te_str env, oe_storage = None, oe_pool = False\<rparr>"

definition on_scores :: "(orchestrator \<Rightarrow> 'g session \<Rightarrow> orchestrator \<times> 'g session) \<Rightarrow> ('g, unit) tool" where
  "on_scores f w = (case f (tw_orc w) (tw_session w) of (o1, s1) \<Rightarrow> (Inr (), w\<lparr>tw_orc := o1, tw_session := s1\<rparr>))"

text \<open>\<open>except InvalidTransitionError\<close>: any other exception leaves the tool.\<close>

definition catch_rejected :: "('g, 'a) op \<Rightarrow> ('g, transition_error + 'a) tool" where
  "catch_rejected m w = (case m (tw_session w) of
     (Inl (TransitionRejected e), s) \<Rightarrow> (Inr (Inl e), w\<lparr>tw_session := s\<rparr>)
   | (Inl e, s) \<Rightarrow> (Inl e, w\<lparr>tw_session := s\<rparr>)
   | (Inr a, s) \<Rightarrow> (Inr (Inr a), w\<lparr>tw_session := s\<rparr>))"

subsection \<open>The state of a task\<close>

definition change_state ::
  "nat \<Rightarrow> 'g tool_env \<Rightarrow> clock \<Rightarrow> (string set \<Rightarrow> string list) \<Rightarrow> string \<Rightarrow> string \<Rightarrow> TaskNode \<Rightarrow> TaskState \<Rightarrow> string
     \<Rightarrow> ('g, update_reply) tool" where
  "change_state fuel env clk as_list user_id task_id task target rsn =
     bindS (catch_rejected (persist_transition_and_cascade fuel (te_exec env) (te_store env) (te_loads env) (te_ctx env) clk
         task target ChangedBy.HUMAN rsn)) (\<lambda>r. case r of
       Inl e \<Rightarrow> returnS (UpdateRefused (TransitionError e))
     | Inr _ \<Rightarrow>
         bindS (on_scores (invalidate_score_cache_for_task (orc_of env) as_list task_id True)) (\<lambda>_.
         bindS (invalidate_queue user_id {task_id}) (\<lambda>_.
           returnS (Updated [(''task_id'', PStr task_id), (''old_state'', PStr (TaskState_value (state task))),
             (''new_state'', PStr (TaskState_value target)), (''status'', PStr ''updated'')]))))"

definition tool_update_task_state ::
  "nat \<Rightarrow> 'g tool_env \<Rightarrow> clock \<Rightarrow> (string set \<Rightarrow> string list) \<Rightarrow> string \<Rightarrow> props \<Rightarrow> ('g, update_reply) tool" where
  "tool_update_task_state fuel env clk as_list user_id args =
     bindS (liftS (text_arg ''task_id'' (dict_get args ''task_id''))) (\<lambda>task_id.
     bindS (on_store (get_node (te_exec env) (te_store env) task_id False (te_ctx env))) (\<lambda>props.
     if props = None \<or> props = Some [] then returnS (UpdateRefused (NoSuchNode task_id))
     else bindS (liftS (text_arg ''new_state'' (dict_get args ''new_state''))) (\<lambda>new_state.
       case enum_of_value TaskState_members TaskState_value (map to_upper new_state) of
         None \<Rightarrow> returnS (UpdateRefused (InvalidState (PStr new_state)))
       | Some target \<Rightarrow> (case load_task (te_loads env) (the props) of
           None \<Rightarrow> returnS (UpdateRefused (Unparsable task_id))
         | Some task \<Rightarrow> bindS (liftS (text_arg ''reason'' (Some (dict_get_default args ''reason'' (PStr '''')))))
             (\<lambda>rsn. change_state fuel env clk as_list user_id task_id task target rsn)))))"

subsection \<open>The fields of a task or goal\<close>

definition given :: "props \<Rightarrow> string list \<Rightarrow> props" where
  "given args ks = List.map_filter (\<lambda>k. map_option (\<lambda>v. (k, v)) (dict_get args k)) ks"

definition aware :: "py_datetime \<Rightarrow> py_datetime" where
  "aware t = (if dt_off t = None then as_utc t else t)"

definition deadline_arg :: "(string \<Rightarrow> py_datetime option) \<Rightarrow> pval \<Rightarrow> py_error + py_datetime option" where
  "deadline_arg parse v = (case v of
     PStr s \<Rightarrow> Inr (map_option aware (parse s)) | PTime t \<Rightarrow> Inr (Some (aware t)) | PJson _ \<Rightarrow> Inr None
   | _ \<Rightarrow> Inl PyTypeError)"

text \<open>What the stored timeline decodes to; only a dict can be changed.\<close>

definition stored_timeline :: "json_loads \<Rightarrow> props \<Rightarrow> pval" where
  "stored_timeline loads p = (let raw = dict_get_default p ''timeline'' (PDict []) in
     if is_str raw then (case py_json_loads loads raw of Some v \<Rightarrow> v | None \<Rightarrow> PDict [])
     else (case raw of PDict d \<Rightarrow> PDict d | _ \<Rightarrow> PDict []))"

definition due_update ::
  "'g tool_env \<Rightarrow> string \<Rightarrow> props \<Rightarrow> props \<Rightarrow> py_error + (update_error + props)" where
  "due_update env key args p = (case dict_get args ''deadline'' of
     None \<Rightarrow> Inr (Inr [])
   | Some v \<Rightarrow> bindE (deadline_arg (te_iso env) v) (\<lambda>dl. case dl of
       None \<Rightarrow> Inr (Inl (BadDeadline v))
     | Some t \<Rightarrow> (case stored_timeline (te_loads env) p of
         PDict d \<Rightarrow> Inr (Inr [(''timeline'', PDict (dict_set key (PTime t) d))])
       | _ \<Rightarrow> Inl PyTypeError)))"

definition field_updates ::
  "'g tool_env \<Rightarrow> py_datetime \<Rightarrow> string list \<Rightarrow> string \<Rightarrow> props \<Rightarrow> props \<Rightarrow> py_error + (update_error + props)" where
  "field_updates env now ks key args p = bindE (due_update env key args p) (\<lambda>r.
     Inr (map_sum id (\<lambda>tl. (''updated_at'', PTime now) # given args ks @ tl) r))"

definition update_fields ::
  "'g tool_env \<Rightarrow> py_datetime \<Rightarrow> string \<Rightarrow> string list \<Rightarrow> string \<Rightarrow> (string \<Rightarrow> ('g, unit) tool) \<Rightarrow> props \<Rightarrow> ('g, update_reply) tool" where
  "update_fields env now id_key ks key invalidate_after args = (case edge_ref args id_key of
     None \<Rightarrow> returnS (UpdateRefused (IdRequired id_key))
   | Some i \<Rightarrow>
       bindS (on_store (get_node (te_exec env) (te_store env) i False None)) (\<lambda>props.
       if props = None \<or> props = Some [] then returnS (UpdateRefused (NoSuchNode i))
       else bindS (liftS (field_updates env now ks key args (the props))) (\<lambda>r. case r of
         Inl e \<Rightarrow> returnS (UpdateRefused e)
       | Inr updates \<Rightarrow>
           if length updates = 1 then returnS (NoChanges i)
           else bindS (on_store (update_node (te_exec env) (te_store env) i updates None)) (\<lambda>_.
                bindS (invalidate_after i) (\<lambda>_.
                  returnS (Updated [(id_key, PStr i), (''status'', PStr ''updated''),
                    (''fields_updated'', dump_list PStr (dict_keys (tl updates)))]))))))"

definition tool_update_task ::
  "'g tool_env \<Rightarrow> (string set \<Rightarrow> string list) \<Rightarrow> py_datetime \<Rightarrow> string \<Rightarrow> props \<Rightarrow> ('g, update_reply) tool" where
  "tool_update_task env as_list now user_id =
     update_fields env now ''task_id'' [''title'', ''description'', ''assigned_to''] ''deadline'' (\<lambda>i.
       bindS (on_scores (invalidate_score_cache_for_task (orc_of env) as_list i False)) (\<lambda>_. invalidate_queue user_id {i}))"

definition tool_update_goal ::
  "'g tool_env \<Rightarrow> py_datetime \<Rightarrow> string \<Rightarrow> props \<Rightarrow> ('g, update_reply) tool" where
  "tool_update_goal env now user_id args =
     update_fields env now ''goal_id'' [''title'', ''description'', ''priority''] ''target_date'' (\<lambda>i.
       bindS (if dict_get args ''priority'' \<noteq> None \<or> dict_get args ''deadline'' \<noteq> None
              then on_scores (invalidate_score_cache_for_goal (orc_of env) now i) else returnS ())
         (\<lambda>_. invalidate_queue user_id {})) args"


subsection \<open>What an update writes\<close>

lemma task_validate_change:
  assumes "task_validate g = Some t"
    and "\<And>k. k \<notin> {''updated_at'', ''title'', ''description'', ''assigned_to'', ''timeline''} \<Longrightarrow> h k = g k"
    and "req h ''updated_at'' dec_time = Some a" "req h ''title'' dec_str = Some b" "req h ''description'' dec_str = Some c"
    and "dfl h ''assigned_to'' None (dec_opt dec_str) = Some d" "dfl h ''timeline'' default_Timeline Timeline_validate = Some e"
  shows "task_validate h = Some (t\<lparr>updated_at := a, title := b, description := c, assigned_to := d, timeline := e\<rparr>)"
proof -
  have r: "req h k dec = req g k dec" "dfl h k v dec' = dfl g k v dec'"
    if "k \<notin> {''updated_at'', ''title'', ''description'', ''assigned_to'', ''timeline''}" for k dec v dec'
    using assms(2) [OF that] by (simp_all add: req_def dfl_def)
  show ?thesis
    using assms(1) unfolding task_validate_def bind_eq_Some_conv
    by (elim exE conjE) (simp add: r assms(3-7), drule sym, simp)
qed

lemma task_validate_parts:
  assumes "task_validate g = Some t"
  shows "req g ''title'' dec_str = Some (title t)" "req g ''description'' dec_str = Some (description t)"
    "dfl g ''assigned_to'' None (dec_opt dec_str) = Some (assigned_to t)"
    "dfl g ''timeline'' default_Timeline Timeline_validate = Some (timeline t)"
proof -
  have "req g ''title'' dec_str = Some (title t) \<and> req g ''description'' dec_str = Some (description t) \<and>
    dfl g ''assigned_to'' None (dec_opt dec_str) = Some (assigned_to t) \<and>
    dfl g ''timeline'' default_Timeline Timeline_validate = Some (timeline t)"
    using assms unfolding task_validate_def bind_eq_Some_conv
    by (elim exE conjE) (drule option.inject [THEN iffD1], hypsubst, simp)
  then show "req g ''title'' dec_str = Some (title t)" "req g ''description'' dec_str = Some (description t)"
    "dfl g ''assigned_to'' None (dec_opt dec_str) = Some (assigned_to t)"
    "dfl g ''timeline'' default_Timeline Timeline_validate = Some (timeline t)" by simp_all
qed

lemma Timeline_set_deadline:
  "Timeline_validate (PDict d) = Some tm \<Longrightarrow> Timeline_validate (PDict (dict_set ''deadline'' (PTime x) d)) = Some (tm\<lparr>deadline := Some x\<rparr>)"
  unfolding Timeline_validate.simps bind_eq_Some_conv
  by (elim exE conjE, drule sym) (simp add: dfl_def dict_simps dec_opt_def)

lemma stored_timeline_validates:
  assumes "dfl (dict_get (deserialize_task_node_props loads p)) ''timeline'' default_Timeline Timeline_validate = Some tm"
    and "stored_timeline loads p = PDict d"
  shows "Timeline_validate (PDict d) = Some tm"
proof (cases "dict_get p ''timeline''")
  case None
  with assms show ?thesis
    by (simp add: dfl_def dict_get_deserialize stored_timeline_def dict_get_default_def default_Timeline_def dec_opt_def dict_get_Nil)
next
  case (Some raw)
  then have v: "Timeline_validate (decode_str_field loads raw) = Some tm"
    using assms(1) by (simp add: dfl_def dict_get_deserialize decode_keys)
  then show ?thesis
    using assms(2) Some by (auto simp: stored_timeline_def dict_get_default_def decode_str_field_def split: if_splits option.splits pval.splits)
qed

definition text_update :: "props \<Rightarrow> string \<Rightarrow> string \<Rightarrow> string" where
  "text_update args k v0 = (case dict_get args k of Some (PStr s) \<Rightarrow> s | _ \<Rightarrow> v0)"

definition updated_task :: "'g tool_env \<Rightarrow> py_datetime \<Rightarrow> props \<Rightarrow> TaskNode \<Rightarrow> TaskNode" where
  "updated_task env now args t = t\<lparr>updated_at := now, title := text_update args ''title'' (title t),
     description := text_update args ''description'' (description t),
     assigned_to := (case dict_get args ''assigned_to'' of None \<Rightarrow> assigned_to t | Some (PStr s) \<Rightarrow> Some s | Some _ \<Rightarrow> None),
     timeline := (case dict_get args ''deadline'' of None \<Rightarrow> timeline t
       | Some v \<Rightarrow> (case deadline_arg (te_iso env) v of Inr (Some x) \<Rightarrow> (timeline t)\<lparr>deadline := Some x\<rparr> | _ \<Rightarrow> timeline t))\<rparr>"

definition well_typed :: "props \<Rightarrow> bool" where
  "well_typed args \<longleftrightarrow> (\<forall>k \<in> {''title'', ''description''}. \<forall>v. dict_get args k = Some v \<longrightarrow> (\<exists>s. v = PStr s)) \<and>
     (\<forall>v. dict_get args ''assigned_to'' = Some v \<longrightarrow> v = PNone \<or> (\<exists>s. v = PStr s))"

lemma updates_read:
  assumes "field_updates env now [''title'', ''description'', ''assigned_to''] ''deadline'' args p = Inr (Inr upd)"
  obtains tm where "upd = (''updated_at'', PTime now) # given args [''title'', ''description'', ''assigned_to''] @ tm"
    "due_update env ''deadline'' args p = Inr (Inr tm)" "dict_ok upd" "set (dict_keys upd) \<subseteq>
      {''updated_at'', ''title'', ''description'', ''assigned_to'', ''timeline''}"
    "dict_get upd ''updated_at'' = Some (PTime now)" "dict_get upd ''timeline'' = dict_get tm ''timeline''"
    "\<And>k. k \<in> {''title'', ''description'', ''assigned_to''} \<Longrightarrow> dict_get upd k = dict_get args k"
proof -
  obtain tm where tm: "upd = (''updated_at'', PTime now) # given args [''title'', ''description'', ''assigned_to''] @ tm"
    "due_update env ''deadline'' args p = Inr (Inr tm)"
    using assms by (cases "due_update env ''deadline'' args p"; cases "projr (due_update env ''deadline'' args p)")
      (auto simp: field_updates_def bindE_def)
  have t: "tm = [] \<or> (\<exists>d. tm = [(''timeline'', PDict d)])"
    using tm(2) by (auto simp: due_update_def bindE_def split: option.splits sum.splits pval.splits)
  have g: "given args [''title'', ''description'', ''assigned_to''] =
      (case dict_get args ''title'' of None \<Rightarrow> [] | Some v \<Rightarrow> [(''title'', v)]) @
      (case dict_get args ''description'' of None \<Rightarrow> [] | Some v \<Rightarrow> [(''description'', v)]) @
      (case dict_get args ''assigned_to'' of None \<Rightarrow> [] | Some v \<Rightarrow> [(''assigned_to'', v)])"
    by (simp add: given_def map_filter_simps split: option.split)
  note u = tm(1) [unfolded g]
  show thesis
  proof (rule that [OF tm])
    show "dict_ok upd"
      using t unfolding u by (elim disjE exE) (auto simp: dict_ok_def split: option.split)
    show "set (dict_keys upd) \<subseteq> {''updated_at'', ''title'', ''description'', ''assigned_to'', ''timeline''}"
      using t unfolding u by (elim disjE exE) (auto simp: dict_keys_def split: option.split)
    show "dict_get upd ''updated_at'' = Some (PTime now)" unfolding u by (simp add: dict_simps)
    show "dict_get upd ''timeline'' = dict_get tm ''timeline''"
      using t unfolding u by (elim disjE exE) (auto simp: dict_simps split: option.split)
    show "dict_get upd k = dict_get args k" if "k \<in> {''title'', ''description'', ''assigned_to''}" for k
      using t that unfolding u by (elim disjE exE insertE) (auto simp: dict_simps split: option.split)
  qed
qed

lemma updated_row_loads:
  assumes "field_updates env now [''title'', ''description'', ''assigned_to''] ''deadline'' args p = Inr (Inr upd)"
    and "load_task (te_loads env) p = Some t" "well_typed args"
  shows "load_task (te_loads env) (set_props (set_lits upd) p) = Some (updated_task env now args t)"
proof -
  define g where "g = dict_get (deserialize_task_node_props (te_loads env) p)"
  define h where "h = dict_get (deserialize_task_node_props (te_loads env) (set_props (set_lits upd) p))"
  from updates_read [OF assms(1)] obtain tm where u: "upd = (''updated_at'', PTime now) # given args [''title'', ''description'', ''assigned_to''] @ tm"
    "due_update env ''deadline'' args p = Inr (Inr tm)" "dict_ok upd" "set (dict_keys upd) \<subseteq>
      {''updated_at'', ''title'', ''description'', ''assigned_to'', ''timeline''}"
    "dict_get upd ''updated_at'' = Some (PTime now)" "dict_get upd ''timeline'' = dict_get tm ''timeline''"
    "\<And>k. k \<in> {''title'', ''description'', ''assigned_to''} \<Longrightarrow> dict_get upd k = dict_get args k" by blast
  have g: "task_validate g = Some t" using assms(2) by (simp add: load_task_def g_def)
  note part = task_validate_parts [OF g]
  have hk: "h k = (case dict_get upd k of None \<Rightarrow> g k
      | Some v \<Rightarrow> if v = PNone then None else Some (decode_key (te_loads env) k (stored v)))" for k
    by (simp add: g_def h_def dict_get_deserialize dict_get_set_props u(3) dict_get_set_lits stored_def split: option.split)
  have "task_validate h = Some (t\<lparr>updated_at := now, title := text_update args ''title'' (title t),
     description := text_update args ''description'' (description t),
     assigned_to := (case dict_get args ''assigned_to'' of None \<Rightarrow> assigned_to t | Some (PStr s) \<Rightarrow> Some s | Some _ \<Rightarrow> None),
     timeline := (case dict_get args ''deadline'' of None \<Rightarrow> timeline t
       | Some v \<Rightarrow> (case deadline_arg (te_iso env) v of Inr (Some x) \<Rightarrow> (timeline t)\<lparr>deadline := Some x\<rparr> | _ \<Rightarrow> timeline t))\<rparr>)"
  proof (rule task_validate_change [OF g])
    fix k assume "k \<notin> {''updated_at'', ''title'', ''description'', ''assigned_to'', ''timeline''}"
    with u(4) have "k \<notin> set (dict_keys upd)" by (rule contra_subsetD)
    then have "dict_get upd k = None" by (simp add: dict_get_eq_None)
    then show "h k = g k" unfolding hk by simp
  next
    show "req h ''updated_at'' dec_time = Some now" by (simp add: req_def hk u(5) decode_key_plain)
    show "req h ''title'' dec_str = Some (text_update args ''title'' (title t))"
      using part(1) assms(3) by (auto simp: req_def hk u(7) decode_key_plain text_update_def well_typed_def split: option.split)
    show "req h ''description'' dec_str = Some (text_update args ''description'' (description t))"
      using part(2) assms(3) by (auto simp: req_def hk u(7) decode_key_plain text_update_def well_typed_def split: option.split)
    show "dfl h ''assigned_to'' None (dec_opt dec_str) =
        Some (case dict_get args ''assigned_to'' of None \<Rightarrow> assigned_to t | Some (PStr s) \<Rightarrow> Some s | Some _ \<Rightarrow> None)"
      using part(3) assms(3) by (auto simp: dfl_def hk u(7) decode_key_plain well_typed_def dec_opt_def split: option.split)
    show "dfl h ''timeline'' default_Timeline Timeline_validate =
        Some (case dict_get args ''deadline'' of None \<Rightarrow> timeline t
          | Some v \<Rightarrow> (case deadline_arg (te_iso env) v of Inr (Some x) \<Rightarrow> (timeline t)\<lparr>deadline := Some x\<rparr> | _ \<Rightarrow> timeline t))"
    proof (cases "dict_get args ''deadline''")
      case None
      then have "tm = []" using u(2) by (simp add: due_update_def)
      then show ?thesis using part(4) None by (simp add: dfl_def hk u(6) dict_get_Nil)
    next
      case (Some v)
      with u(2) obtain x d where x: "deadline_arg (te_iso env) v = Inr (Some x)" "stored_timeline (te_loads env) p = PDict d"
        "tm = [(''timeline'', PDict (dict_set ''deadline'' (PTime x) d))]"
        by (auto simp: due_update_def bindE_def split: option.splits sum.splits pval.splits)
      then show ?thesis
        using Timeline_set_deadline [OF stored_timeline_validates [OF part(4) [unfolded g_def] x(2)]] Some
        by (simp add: dfl_def hk u(6) dict_simps decode_keys decode_str_field_def)
    qed
  qed
  then show ?thesis by (simp add: load_task_def updated_task_def h_def)
qed

lemma updates_not_lifecycle:
  assumes "set (dict_keys upd) \<subseteq> {''updated_at'', ''title'', ''description'', ''assigned_to'', ''timeline''}"
  shows "forbidden_fields upd = []" "keeps_id i (set_lits upd)"
proof -
  define K where "K = {''updated_at'', ''title'', ''description'', ''assigned_to'', ''timeline''}"
  have "set LIFECYCLE_FIELDS \<inter> K = {}" by (simp add: LIFECYCLE_FIELDS_def K_def)
  then have "filter (\<lambda>k. k \<in> set (dict_keys upd)) LIFECYCLE_FIELDS = []"
    using assms [folded K_def] by (auto simp: filter_empty_conv)
  then show "forbidden_fields upd = []" by (simp add: forbidden_fields_def)
  have "''id'' \<notin> K" by (simp add: K_def)
  with assms [folded K_def] have "''id'' \<notin> set (dict_keys upd)" by (rule contra_subsetD)
  then show "keeps_id i (set_lits upd)"
    by (force simp: keeps_id_def set_lits_def list_all_iff dict_keys_def)
qed

lemma task_updates_run:
  assumes "cypher_service (te_exec env)" "require_caller_context (te_store env) None = Inr ()"
    and "edge_ref args ''task_id'' = Some i" "fetch (te_exec env) (graph (tw_session w)) i = Some p" "\<not> get_truthy p ''archived_at''"
  shows "(\<forall>ans w'. tool_update_task env as_list now u args w = (Inr (Updated ans), w') \<longrightarrow>
      (\<exists>upd. field_updates env now [''title'', ''description'', ''assigned_to''] ''deadline'' args p = Inr (Inr upd))) \<and>
    (\<forall>upd. field_updates env now [''title'', ''description'', ''assigned_to''] ''deadline'' args p = Inr (Inr upd) \<and> length upd \<noteq> 1 \<and> p \<noteq> [] \<longrightarrow>
      (\<exists>ans w'. tool_update_task env as_list now u args w = (Inr (Updated ans), w') \<and>
        (\<forall>j. fetch (te_exec env) (graph (tw_session w')) j =
          (if j = i then Some (set_props (set_lits upd) p) else fetch (te_exec env) (graph (tw_session w)) j))))"
proof -
  have get: "get_node (te_exec env) (te_store env) i False None (tw_session w) = (Inr (Some p), tw_session w)"
    using assms(2,4,5) by (simp add: cypher_service.get_node_eq [OF assms(1)] visible_def)
  have 1: "\<exists>upd. field_updates env now [''title'', ''description'', ''assigned_to''] ''deadline'' args p = Inr (Inr upd)"
    if "tool_update_task env as_list now u args w = (Inr (Updated ans), w')" for ans w'
    using that get assms(3) by (auto simp: tool_update_task_def update_fields_def bindS_unfold on_store_def split: if_splits sum.splits)
  have 2: "\<exists>ans w'. tool_update_task env as_list now u args w = (Inr (Updated ans), w') \<and>
        (\<forall>j. fetch (te_exec env) (graph (tw_session w')) j =
          (if j = i then Some (set_props (set_lits upd) p) else fetch (te_exec env) (graph (tw_session w)) j))"
    if f: "field_updates env now [''title'', ''description'', ''assigned_to''] ''deadline'' args p = Inr (Inr upd)" "length upd \<noteq> 1" "p \<noteq> []" for upd
  proof -
    from updates_read [OF f(1)] have k: "set (dict_keys upd) \<subseteq> {''updated_at'', ''title'', ''description'', ''assigned_to'', ''timeline''}"
      and ne: "upd \<noteq> []" by (metis, metis list.distinct(1))
    obtain r s where run: "update_node (te_exec env) (te_store env) i upd None (tw_session w) = (r, s)" by fastforce
    have "\<exists>v. r = Inr v"
      using cypher_service.update_node_writes [OF assms(1,2) ne, of i "tw_session w"] updates_not_lifecycle(1) [OF k] run by simp
    with run have "graph s = snd (te_exec env (MatchIdSet i (set_lits upd)) (graph (tw_session w)))"
      by (cases rule: cypher_service.update_node_cases [OF assms(1) run, case_names refused written]) auto
    then have "fetch (te_exec env) (graph s) j = (if j = i then Some (set_props (set_lits upd) p) else fetch (te_exec env) (graph (tw_session w)) j)" for j
      using cypher_service.fetch_set [OF assms(1) updates_not_lifecycle(2) [OF k]] assms(4) by simp
    with run \<open>\<exists>v. r = Inr v\<close> get assms(3) f show ?thesis
      by (auto simp: tool_update_task_def update_fields_def bindS_unfold on_store_def on_scores_def invalidate_queue_def
          invalidate_score_cache_for_task_def Let_def)
  qed
  from 1 2 show ?thesis by blast
qed

text \<open>
An update writes what it was given. When \<open>update_task\<close> answers that it updated a readable task, with
texts for title, description and assignee, the row of the task loads as the same task with just
those fields, the deadline of the timeline and the time of the update changed, and no other row changes.
\<close>

theorem update_task_effect:
  assumes "cypher_service (te_exec env)" "require_caller_context (te_store env) None = Inr ()"
    and "edge_ref args ''task_id'' = Some i" "fetch (te_exec env) (graph (tw_session w)) i = Some p" "\<not> get_truthy p ''archived_at''"
    and "load_task (te_loads env) p = Some t" "well_typed args"
    and "tool_update_task env as_list now u args w = (Inr (Updated ans), w')"
  shows "\<exists>p'. fetch (te_exec env) (graph (tw_session w')) i = Some p' \<and> load_task (te_loads env) p' = Some (updated_task env now args t) \<and>
    (\<forall>j. j \<noteq> i \<longrightarrow> fetch (te_exec env) (graph (tw_session w')) j = fetch (te_exec env) (graph (tw_session w)) j)"
proof -
  note run = task_updates_run [OF assms(1-5), of as_list now u]
  obtain upd where upd: "field_updates env now [''title'', ''description'', ''assigned_to''] ''deadline'' args p = Inr (Inr upd)"
    using run assms(8) by blast
  have p: "p \<noteq> []" using cypher_service.fetch_id [OF assms(1,4)] by (auto simp: dict_get_Nil)
  have get: "get_node (te_exec env) (te_store env) i False None (tw_session w) = (Inr (Some p), tw_session w)"
    using assms(2,4,5) by (simp add: cypher_service.get_node_eq [OF assms(1)] visible_def)
  then have "length upd \<noteq> 1"
    using assms(3,8) upd p by (auto simp: tool_update_task_def update_fields_def bindS_unfold on_store_def)
  with run upd p assms(8) have "\<forall>j. fetch (te_exec env) (graph (tw_session w')) j =
      (if j = i then Some (set_props (set_lits upd) p) else fetch (te_exec env) (graph (tw_session w)) j)" by fastforce
  then show ?thesis using updated_row_loads [OF upd assms(6,7)] by auto
qed

text \<open>
An update can make a task unreadable. The title is not checked: with one that is no text the tool answers
that it updated the task, and from then on no loader can read the task.
\<close>

theorem bad_title_makes_task_unreadable:
  assumes "cypher_service (te_exec env)" "require_caller_context (te_store env) None = Inr ()"
    and "edge_ref args ''task_id'' = Some i" "fetch (te_exec env) (graph (tw_session w)) i = Some p" "\<not> get_truthy p ''archived_at''"
    and "dict_get args ''title'' = Some v" "dec_str (stored v) = None" "dict_get args ''deadline'' = None"
  shows "\<exists>ans w' p'. tool_update_task env as_list now u args w = (Inr (Updated ans), w') \<and>
    fetch (te_exec env) (graph (tw_session w')) i = Some p' \<and> load_task loads p' = None"
proof -
  obtain upd where upd: "field_updates env now [''title'', ''description'', ''assigned_to''] ''deadline'' args p = Inr (Inr upd)"
    using assms(8) by (simp add: field_updates_def due_update_def bindE_def)
  then obtain tm where u: "upd = (''updated_at'', PTime now) # given args [''title'', ''description'', ''assigned_to''] @ tm"
    "dict_ok upd" "dict_get upd ''title'' = dict_get args ''title''" by (metis updates_read insertI1)
  have "length upd \<noteq> 1" using assms(6) by (simp add: u(1) given_def map_filter_simps)
  moreover have "p \<noteq> []" using cypher_service.fetch_id [OF assms(1,4)] by (auto simp: dict_get_Nil)
  ultimately obtain ans w' where w': "tool_update_task env as_list now u args w = (Inr (Updated ans), w')"
    "fetch (te_exec env) (graph (tw_session w')) i = Some (set_props (set_lits upd) p)"
    using task_updates_run [OF assms(1-5), of as_list now u] upd by (metis (no_types, lifting))
  have "req (dict_get (deserialize_task_node_props loads (set_props (set_lits upd) p))) ''title'' dec_str = None"
    using assms(6,7) by (auto simp: req_def dict_get_deserialize dict_get_set_props u(2,3) dict_get_set_lits decode_key_plain stored_def)
  then have "load_task loads (set_props (set_lits upd) p) = None"
    by (auto simp: load_task_def task_validate_def bind_eq_None_conv)
  with w' show ?thesis by blast
qed

text \<open>
No task changes its state from the chat. On the store the program makes, \<open>update_task_state\<close> never answers
that it updated a task and changes nothing: what the state machine refuses is reported, and what it
allows raises, since the write of the task holds lifecycle fields.
\<close>

theorem chat_never_changes_a_state:
  assumes "cypher_service (te_exec env)" "create_graph_store backend enforcement = Inr (te_store env)"
    and "require_caller_context (te_store env) (te_ctx env) = Inr ()"
    and "tool_update_task_state fuel env clk as_list u args w = (r, w')"
  shows "w' = w \<and> (\<forall>ans. r \<noteq> Inr (Updated ans))"
proof -
  have get: "get_node (te_exec env) (te_store env) i False (te_ctx env) (tw_session w) =
      (Inr (visible False (fetch (te_exec env) (graph (tw_session w)) i)), tw_session w)" for i
    using assms(3) by (simp add: cypher_service.get_node_eq [OF assms(1)])
  show ?thesis
    using assms(4) by (auto simp: tool_update_task_state_def bindS_unfold on_store_def get change_state_def catch_rejected_def
        persist_transition_refused [OF assms(2,3)] split: if_splits sum.splits option.splits)
qed

subsection \<open>Examples\<close>

definition renaming :: "pval \<Rightarrow> props" where
  "renaming v = [(''task_id'', PStr ''TSK-AB-1234-ATM''), (''title'', v)]"

lemma chat_store:
  "cypher_service (te_exec chat_env)" "require_caller_context (te_store chat_env) None = Inr ()"
  "edge_ref (renaming v) ''task_id'' = Some ''TSK-AB-1234-ATM''"
  "fetch (te_exec chat_env) (graph (tw_session chat_world)) ''TSK-AB-1234-ATM'' = Some (plain_row ''USER-a'')"
  "\<not> get_truthy (plain_row ''USER-a'') ''archived_at''" "dict_get (renaming v) ''title'' = Some v" "dict_get (renaming v) ''deadline'' = None"
  by (simp_all add: chat_env_def chat_world_def agent_cfg_open mem.cypher_service_axioms renaming_def edge_ref_def dict_simps
      plain_fetch get_truthy_def plain_row_def)

lemma renaming_updates:
  "field_updates chat_env now [''title'', ''description'', ''assigned_to''] ''deadline'' (renaming v) p =
     Inr (Inr [(''updated_at'', PTime now), (''title'', v)])"
  by (simp add: field_updates_def due_update_def bindE_def renaming_def dict_simps given_def map_filter_simps)

theorem update_task_effect_witness:
  "\<exists>ans w' p' t. tool_update_task chat_env (\<lambda>_. []) (utc_dt 9) ''USER-a'' (renaming (PStr ''Ship now'')) chat_world = (Inr (Updated ans), w') \<and>
    fetch mem_exec (graph (tw_session w')) ''TSK-AB-1234-ATM'' = Some p' \<and> load_task (\<lambda>_. None) p' = Some t \<and> title t = ''Ship now''"
proof -
  have e: "te_exec chat_env = mem_exec" "te_loads chat_env = (\<lambda>_. None)" by (simp_all add: chat_env_def)
  have "\<not> Option.is_none (load_task (\<lambda>_. None) (plain_row ''USER-a''))" by code_simp
  then obtain t where t: "load_task (te_loads chat_env) (plain_row ''USER-a'') = Some t" unfolding e by (auto simp: Option.is_none_def)
  have wt: "well_typed (renaming (PStr ''Ship now''))" by (simp add: well_typed_def renaming_def dict_simps)
  have "plain_row ''USER-a'' \<noteq> []" by (simp add: plain_row_def)
  then obtain ans w' where run: "tool_update_task chat_env (\<lambda>_. []) (utc_dt 9) ''USER-a'' (renaming (PStr ''Ship now'')) chat_world = (Inr (Updated ans), w')"
    using task_updates_run [OF chat_store(1-5), of "\<lambda>_. []" "utc_dt 9" "''USER-a''"] renaming_updates [of "utc_dt 9" "PStr ''Ship now''"] by fastforce
  have "title (updated_task chat_env (utc_dt 9) (renaming (PStr ''Ship now'')) t) = ''Ship now''"
    by (simp add: updated_task_def text_update_def chat_store(6))
  with update_task_effect [OF chat_store(1-5) t wt run] run show ?thesis unfolding e by blast
qed

theorem bad_title_makes_task_unreadable_witness:
  "\<exists>ans w' p'. tool_update_task chat_env (\<lambda>_. []) (utc_dt 9) ''USER-a'' (renaming (PInt 7)) chat_world = (Inr (Updated ans), w') \<and>
    fetch mem_exec (graph (tw_session w')) ''TSK-AB-1234-ATM'' = Some p' \<and> load_task (\<lambda>_. None) p' = None"
proof -
  have e: "te_exec chat_env = mem_exec" by (simp add: chat_env_def)
  have "dec_str (stored (PInt 7)) = None" by simp
  from bad_title_makes_task_unreadable [OF chat_store(1-6) this chat_store(7), of "\<lambda>_. []" "utc_dt 9" "''USER-a''" "\<lambda>_. None"]
  show ?thesis unfolding e .
qed

theorem chat_never_changes_a_state_witness:
  "snd (tool_update_task_state 5 chat_env (\<lambda>_ _. (utc_dt 0, utc_dt 0)) (\<lambda>_. []) ''USER-a''
     [(''task_id'', PStr ''TSK-AB-1234-ATM''), (''new_state'', PStr ''active'')] chat_world) = chat_world"
proof -
  let ?args = "[(''task_id'', PStr ''TSK-AB-1234-ATM''), (''new_state'', PStr ''active'')]"
  obtain r w' where run: "tool_update_task_state 5 chat_env (\<lambda>_ _. (utc_dt 0, utc_dt 0)) (\<lambda>_. []) ''USER-a'' ?args chat_world = (r, w')"
    by fastforce
  have "create_graph_store ''age'' False = Inr (te_store chat_env)"
    by (simp add: create_graph_store_def chat_env_def agent_cfg_def)
  moreover have "require_caller_context (te_store chat_env) (te_ctx chat_env) = Inr ()" by (simp add: chat_env_def agent_cfg_open)
  ultimately have "w' = chat_world" using chat_never_changes_a_state [OF chat_store(1) _ _ run] by blast
  with run show ?thesis by simp
qed

end
