(* ===== verification/GC_Pool.thy ===== *)
theory GC_Pool
  imports GC_Dispatch GC_Scheduler
begin

section \<open>The sub-agent pool (\<open>agent/sub_agent_pool.py\<close>)\<close>

text \<open>
  \<open>SubAgentPool\<close> takes jobs from the queue \<open>AGENT_JOBS\<close> and runs at most \<open>max_size\<close> of them at a
  time; its \<open>BatchCoordinator\<close> counts the jobs of a tier and hands out the next tier. A coroutine
  runs alone between two suspension points, so one \<open>perform\<close> step is the code between two of
  them. \<open>_metrics_lock\<close> is never held across one and needs no step of its own.
\<close>

subsection \<open>The batch coordinator\<close>

record BatchState =
  bs_batch_id :: string
  bs_total_count :: nat
  bs_current_jobs :: "AgentJobEvent list"
  bs_completed_count :: nat
  bs_next_tier_jobs :: "AgentJobEvent list"
  bs_session_id :: string
  bs_is_final_tier :: bool

type_synonym batches = "BatchState pydict"

definition register_batch :: "string \<Rightarrow> nat \<Rightarrow> string \<Rightarrow> AgentJobEvent list \<Rightarrow> AgentJobEvent list \<Rightarrow>
    bool \<Rightarrow> batches \<Rightarrow> batches" where
  "register_batch batch_id n session_id current_jobs next_tier_jobs is_final_tier bs =
     dict_set batch_id \<lparr>bs_batch_id = batch_id, bs_total_count = n,
       bs_current_jobs = current_jobs, bs_completed_count = 0, bs_next_tier_jobs = next_tier_jobs,
       bs_session_id = session_id, bs_is_final_tier = is_final_tier\<rparr> bs"

record delegation_complete =
  dc_session_id :: string
  dc_final_batch_id :: string
  dc_completed_at :: py_datetime

text \<open>\<open>up\<close> tells whether the broker takes the event; a failed publication is only logged.\<close>

definition publish_delegation_complete :: "bool \<Rightarrow> py_datetime \<Rightarrow> string \<Rightarrow> string \<Rightarrow>
    delegation_complete list \<Rightarrow> delegation_complete list" where
  "publish_delegation_complete up now session_id final_batch_id evs =
     (if up then evs @ [\<lparr>dc_session_id = session_id, dc_final_batch_id = final_batch_id,
        dc_completed_at = now\<rparr>] else evs)"

definition record_completion :: "bool \<Rightarrow> py_datetime \<Rightarrow> string \<Rightarrow> batches \<times> delegation_complete list \<Rightarrow>
    (bool \<times> AgentJobEvent list) \<times> batches \<times> delegation_complete list" where
  "record_completion up now batch_id w = (let (bs, evs) = w in case dict_get bs batch_id of
     None \<Rightarrow> ((False, []), bs, evs)
   | Some batch0 \<Rightarrow>
       let batch = batch0\<lparr>bs_completed_count := bs_completed_count batch0 + 1\<rparr>;
           bs' = dict_set batch_id batch bs
       in if bs_completed_count batch < bs_total_count batch then ((False, []), bs', evs)
          else ((True, bs_next_tier_jobs batch), bs',
            if bs_is_final_tier batch
            then publish_delegation_complete up now (bs_session_id batch) batch_id evs else evs))"

text \<open>Empty tiers are skipped.\<close>

definition register_tier :: "AgentJobEvent list list \<Rightarrow> string \<Rightarrow> nat \<Rightarrow> batches \<Rightarrow> batches" where
  "register_tier tiers session_id i bs = (case tiers ! i of
     [] \<Rightarrow> bs
   | job # _ \<Rightarrow>
       let is_final = (i + 1 = length tiers)
       in register_batch (job_batch_id job) (length (tiers ! i)) session_id (tiers ! i)
            (if is_final then [] else tiers ! (i + 1)) is_final bs)"

definition register_dispatch_plan :: "AgentJobEvent list list \<Rightarrow> string \<Rightarrow> batches \<Rightarrow> batches" where
  "register_dispatch_plan tiers session_id bs =
     fold (register_tier tiers session_id) [0..<length tiers] bs"

subsection \<open>The pool\<close>

datatype RunnerState = IDLE | RUNNING | COMPLETED | FAILED | TIMED_OUT | CANCELLED

primrec RunnerState_value :: "RunnerState \<Rightarrow> string" where
  "RunnerState_value IDLE = ''IDLE''"
| "RunnerState_value RUNNING = ''RUNNING''"
| "RunnerState_value COMPLETED = ''COMPLETED''"
| "RunnerState_value FAILED = ''FAILED''"
| "RunnerState_value TIMED_OUT = ''TIMED_OUT''"
| "RunnerState_value CANCELLED = ''CANCELLED''"

record Runner =
  runner_job :: AgentJobEvent
  runner_state :: RunnerState

text \<open>A message that \<open>AgentJobEvent.model_validate_json\<close> takes, or one it does not.\<close>

datatype job_message = JobMessage AgentJobEvent | Malformed string

text \<open>
  \<open>waiting_job\<close> is the job the consumer loop holds while it waits for the semaphore, \<open>started\<close>
  the \<open>_run_job\<close> tasks that were created and have not run yet, \<open>outgoing\<close> what the ended
  \<open>_run_job\<close> tasks still have to publish.
\<close>

record pool =
  max_size :: nat
  agent_jobs :: "job_message list"
  batch_states :: batches
  trigger_events :: "delegation_complete list"
  permits :: nat
  consumer :: bool
  running :: bool
  waiting_job :: "AgentJobEvent option"
  started :: "AgentJobEvent list"
  active_runners :: "Runner pydict"
  runner_counter :: nat
  outgoing :: "AgentJobEvent list list"
  queued_count :: int
  active_count :: int

definition new_pool :: "nat \<Rightarrow> pool" where
  "new_pool n = \<lparr>max_size = n, agent_jobs = [], batch_states = [], trigger_events = [],
     permits = n, consumer = False, running = False, waiting_job = None, started = [],
     active_runners = [], runner_counter = 0, outgoing = [], queued_count = 0, active_count = 0\<rparr>"

definition pool_start :: "pool \<Rightarrow> pool" where
  "pool_start s = s\<lparr>running := True, consumer := True\<rparr>"

text \<open>Cancelling the consumer task drops the job it holds.\<close>

definition pool_stop :: "pool \<Rightarrow> pool" where
  "pool_stop s = s\<lparr>running := False, consumer := False, waiting_job := None,
     queued_count := (if waiting_job s = None then queued_count s else max 0 (queued_count s - 1))\<rparr>"

definition consume :: "job_message \<Rightarrow> job_message list \<Rightarrow> pool \<Rightarrow> pool" where
  "consume m ms s =
     (if \<not> running s then s\<lparr>agent_jobs := ms, consumer := False\<rparr>
      else case m of
        Malformed raw \<Rightarrow> s\<lparr>agent_jobs := ms\<rparr>
      | JobMessage job \<Rightarrow> s\<lparr>agent_jobs := ms, queued_count := queued_count s + 1, waiting_job := Some job\<rparr>)"

definition acquire :: "AgentJobEvent \<Rightarrow> pool \<Rightarrow> pool" where
  "acquire job s = s\<lparr>permits := permits s - 1, queued_count := max 0 (queued_count s - 1),
     waiting_job := None, started := started s @ [job]\<rparr>"

definition runner_id :: "nat \<Rightarrow> string" where
  "runner_id n = ''runner-'' @ zfill 3 (dec_string n)"

definition begin_run :: "AgentJobEvent \<Rightarrow> AgentJobEvent list \<Rightarrow> pool \<Rightarrow> pool" where
  "begin_run job rest s = s\<lparr>started := rest, runner_counter := runner_counter s + 1,
     active_runners := dict_set (runner_id (runner_counter s))
       \<lparr>runner_job = job, runner_state = RUNNING\<rparr> (active_runners s),
     active_count := active_count s + 1\<rparr>"

definition settle :: "string \<Rightarrow> Runner \<Rightarrow> RunnerState \<Rightarrow> pool \<Rightarrow> pool" where
  "settle rid r st s = s\<lparr>active_runners := dict_set rid (r\<lparr>runner_state := st\<rparr>) (active_runners s)\<rparr>"

definition end_run :: "bool \<Rightarrow> py_datetime \<Rightarrow> string \<Rightarrow> AgentJobEvent \<Rightarrow> pool \<Rightarrow> pool" where
  "end_run up now rid job s =
     (let ((tier_done, next_tier_jobs), bs, evs) =
        record_completion up now (job_batch_id job) (batch_states s, trigger_events s)
      in s\<lparr>active_count := max 0 (active_count s - 1),
         active_runners := dict_pop rid (active_runners s), permits := permits s + 1,
         batch_states := bs, trigger_events := evs,
         outgoing := (if tier_done \<and> next_tier_jobs \<noteq> [] then outgoing s @ [next_tier_jobs]
           else outgoing s)\<rparr>)"

definition publish_next :: "nat \<Rightarrow> bool \<Rightarrow> AgentJobEvent \<Rightarrow> AgentJobEvent list \<Rightarrow> pool \<Rightarrow> pool" where
  "publish_next i up job rest s = s\<lparr>
     outgoing := take i (outgoing s) @ (if rest = [] then [] else [rest]) @ drop (i + 1) (outgoing s),
     agent_jobs := (if up then agent_jobs s @ [JobMessage job] else agent_jobs s)\<rparr>"

subsection \<open>Steps\<close>

datatype pool_act =
    Start
  | Stop
  | Arrive job_message
  | Consume
  | Acquire
  | Begin AgentJobEvent
  | Settle string RunnerState
  | Finish bool py_datetime string AgentJobEvent
  | Publish nat bool AgentJobEvent

fun perform :: "pool_act \<Rightarrow> pool \<Rightarrow> pool option" where
  "perform Start s = (if consumer s then None else Some (pool_start s))"
| "perform Stop s = Some (pool_stop s)"
| "perform (Arrive m) s = Some (s\<lparr>agent_jobs := agent_jobs s @ [m]\<rparr>)"
| "perform Consume s = (case agent_jobs s of
     [] \<Rightarrow> None
   | m # ms \<Rightarrow> if consumer s \<and> waiting_job s = None then Some (consume m ms s) else None)"
| "perform Acquire s = (case waiting_job s of
     None \<Rightarrow> None
   | Some job \<Rightarrow> if permits s = 0 then None else Some (acquire job s))"
| "perform (Begin job) s = (case started s of
     [] \<Rightarrow> None
   | j # js \<Rightarrow> if j = job then Some (begin_run j js s) else None)"
| "perform (Settle rid st) s = (case dict_get (active_runners s) rid of
     None \<Rightarrow> None
   | Some r \<Rightarrow> if runner_state r = RUNNING \<and> st \<notin> {IDLE, RUNNING} then Some (settle rid r st s)
       else None)"
| "perform (Finish up now rid job) s = (case dict_get (active_runners s) rid of
     None \<Rightarrow> None
   | Some r \<Rightarrow> if runner_job r = job then Some (end_run up now rid job s) else None)"
| "perform (Publish i up job) s = (if i < length (outgoing s) then
     (case outgoing s ! i of
        [] \<Rightarrow> None
      | j # js \<Rightarrow> if j = job then Some (publish_next i up j js s) else None) else None)"

inductive pool_run :: "pool \<Rightarrow> pool_act list \<Rightarrow> pool \<Rightarrow> bool" where
  run_Nil: "pool_run s [] s"
| run_step: "pool_run s acts t \<Longrightarrow> perform a t = Some u \<Longrightarrow> pool_run s (acts @ [a]) u"

fun perform_all :: "pool_act list \<Rightarrow> pool \<Rightarrow> pool option" where
  "perform_all [] s = Some s"
| "perform_all (a # as) s = Option.bind (perform a s) (perform_all as)"

lemma perform_all_append:
  "perform_all (xs @ ys) s = Option.bind (perform_all xs s) (perform_all ys)"
  by (induction xs arbitrary: s) (auto split: Option.bind_splits)

lemma pool_run_iff: "pool_run s acts t \<longleftrightarrow> perform_all acts s = Some t"
proof
  show "pool_run s acts t \<Longrightarrow> perform_all acts s = Some t"
    by (induction rule: pool_run.induct) (simp_all add: perform_all_append)
  show "perform_all acts s = Some t \<Longrightarrow> pool_run s acts t"
    by (induction acts arbitrary: t rule: rev_induct)
      (auto simp: perform_all_append bind_eq_Some_conv intro: pool_run.intros)
qed

lemma pool_run_append:
  "pool_run s (xs @ ys) u \<longleftrightarrow> (\<exists>t. pool_run s xs t \<and> pool_run t ys u)"
  by (auto simp: pool_run_iff perform_all_append bind_eq_Some_conv)

subsection \<open>The capacity\<close>

lemma dict_set_new: "k \<notin> set (dict_keys d) \<Longrightarrow> dict_set k v d = d @ [(k, v)]"
  by (induction d) (auto simp: dict_set_def dict_keys_def)

lemma dict_split:
  assumes "dict_ok d" "dict_get d k = Some v"
  obtains xs ys where "d = xs @ (k, v) # ys" "dict_pop k d = xs @ ys"
    "\<And>v'. dict_set k v' d = xs @ (k, v') # ys"
proof -
  from dict_get_SomeD [OF assms(2)] obtain xs ys where d: "d = xs @ (k, v) # ys"
    by (auto dest: split_list)
  with assms(1) have out: "k \<notin> fst ` set xs" "k \<notin> fst ` set ys" by (auto simp: dict_ok_def)
  then have "dict_pop k d = xs @ ys"
    unfolding d dict_pop_def AList.delete_eq
    by (auto simp: image_iff intro!: filter_True arg_cong2 [where f = append])
  moreover have "dict_set k v' d = xs @ (k, v') # ys" for v'
    unfolding d dict_set_def using out(1) by (induction xs) auto
  ultimately show ?thesis using d that by blast
qed

fun digits_value :: "nat \<Rightarrow> string \<Rightarrow> nat" where
  "digits_value n [] = n"
| "digits_value n (c # cs) = digits_value (n * 10 + (of_char c - 48)) cs"

lemma digits_value_append: "digits_value n (xs @ ys) = digits_value (digits_value n xs) ys"
  by (induction xs arbitrary: n) simp_all

lemma digits_value_dec_string: "digits_value 0 (dec_string n) = n"
proof (induction n rule: dec_string.induct)
  case (1 n)
  have "of_char (char_of (48 + m) :: char) = 48 + m" if "m < 10" for m :: nat using that by simp
  with 1 show ?case by (subst dec_string.simps) (auto simp: digits_value_append)
qed

lemma digits_value_zfill: "digits_value 0 (zfill w s) = digits_value 0 s"
proof -
  have "digits_value 0 (replicate k (CHR ''0'')) = 0" for k by (induction k) simp_all
  then show ?thesis by (simp add: zfill_def digits_value_append)
qed

lemma dec_string_inj [simp]: "dec_string m = dec_string n \<longleftrightarrow> m = n"
  by (metis digits_value_dec_string)

lemma runner_id_inj [simp]: "runner_id m = runner_id n \<longleftrightarrow> m = n"
  unfolding runner_id_def by (metis append_same_eq same_append_eq digits_value_dec_string digits_value_zfill)

lemma tier_batch_id_inj [simp]: "tier_batch_id session i = tier_batch_id session k \<longleftrightarrow> i = k"
  by (simp add: tier_batch_id_def)

text \<open>Every permit is free, held by a task that was created, or held by a runner.\<close>

definition accounted :: "pool \<Rightarrow> bool" where
  "accounted s \<longleftrightarrow> permits s + length (started s) + length (active_runners s) = max_size s \<and>
     dict_ok (active_runners s) \<and>
     set (dict_keys (active_runners s)) \<subseteq> runner_id ` {..<runner_counter s} \<and>
     active_count s = int (length (active_runners s)) \<and>
     queued_count s = (if waiting_job s = None then 0 else 1) \<and> [] \<notin> set (outgoing s)"

lemmas pool_ops = pool_start_def pool_stop_def consume_def acquire_def begin_run_def settle_def
  end_run_def publish_next_def

lemma accounted_new: "accounted (new_pool n)"
  by (simp add: accounted_def new_pool_def dict_keys_def)

lemma fresh_runner_id:
  "accounted s \<Longrightarrow> runner_id (runner_counter s) \<notin> set (dict_keys (active_runners s))"
  by (auto simp: accounted_def)

lemma accounted_begin:
  assumes "accounted s" "started s = j # js"
  shows "accounted (begin_run j js s)"
  using assms fresh_runner_id [OF assms(1)]
  by (auto simp: accounted_def begin_run_def dict_set_new dict_keys_def dict_ok_def lessThan_Suc)

lemma accounted_settle:
  assumes "accounted s" "dict_get (active_runners s) rid = Some r"
  shows "accounted (settle rid r st s)"
proof -
  have "dict_ok (active_runners s)" using assms(1) by (simp add: accounted_def)
  from dict_split [OF this assms(2)] obtain xs ys where
    "active_runners s = xs @ (rid, r) # ys"
    "\<And>v'. dict_set rid v' (active_runners s) = xs @ (rid, v') # ys" by metis
  with assms(1) show ?thesis by (simp add: accounted_def settle_def dict_keys_def dict_ok_def)
qed

lemma accounted_end:
  assumes "accounted s" "dict_get (active_runners s) rid = Some r"
  shows "accounted (end_run up now rid job s)"
proof -
  have "dict_ok (active_runners s)" using assms(1) by (simp add: accounted_def)
  from dict_split [OF this assms(2)] obtain xs ys where
    "active_runners s = xs @ (rid, r) # ys" "dict_pop rid (active_runners s) = xs @ ys" by metis
  with assms(1) show ?thesis
    by (auto simp: accounted_def end_run_def dict_keys_def dict_ok_def split: prod.split)
qed

lemma accounted_step:
  assumes "perform a s = Some s'" "accounted s"
  shows "accounted s' \<and> max_size s' = max_size s"
proof (cases a)
  case (Begin j)
  then obtain js where js: "started s = j # js" "s' = begin_run j js s"
    using assms(1) by (auto split: list.splits if_splits)
  then have "max_size s' = max_size s" by (simp add: begin_run_def)
  with accounted_begin [OF assms(2) js(1)] js(2) show ?thesis by blast
next
  case (Settle rid st)
  then obtain r where "dict_get (active_runners s) rid = Some r" "s' = settle rid r st s"
    using assms(1) by (auto split: option.splits if_splits)
  with accounted_settle assms(2) show ?thesis by (simp add: settle_def)
next
  case (Finish up now rid job)
  then obtain r where "dict_get (active_runners s) rid = Some r" "s' = end_run up now rid job s"
    using assms(1) by (auto split: option.splits if_splits)
  with accounted_end assms(2) show ?thesis by (simp add: end_run_def split: prod.split)
next
  case (Publish i up job)
  with assms show ?thesis
    by (auto simp: accounted_def publish_next_def dest: in_set_takeD in_set_dropD
      split: list.splits if_splits)
next
  case Consume
  with assms show ?thesis
    by (auto simp: accounted_def consume_def split: list.splits if_splits job_message.splits)
next
  case Acquire
  with assms show ?thesis
    by (auto simp: accounted_def acquire_def split: option.splits if_splits)
qed (use assms in \<open>auto simp: accounted_def pool_start_def pool_stop_def split: if_splits\<close>)

lemma accounted_run:
  assumes "pool_run s acts t" "accounted s"
  shows "accounted t \<and> max_size t = max_size s"
  using assms by (induction rule: pool_run.induct) (auto dest: accounted_step)

text \<open>
  Claim C11: the pool is bounded. Whatever arrives, starts, ends or fails, in any order, the
  runners and the tasks created for one together never exceed \<open>max_size\<close>; the permits that are
  not free are exactly theirs. \<open>active_count\<close> is the number of runners, and \<open>queue_depth\<close> is
  0 or 1 however many messages wait in the broker.
\<close>

theorem pool_is_bounded:
  assumes "pool_run (new_pool n) acts s"
  shows "length (active_runners s) + length (started s) \<le> n \<and>
    permits s = n - (length (active_runners s) + length (started s)) \<and>
    active_count s = int (length (active_runners s)) \<and> queued_count s \<in> {0, 1}"
  using accounted_run [OF assms accounted_new] by (auto simp: accounted_def new_pool_def)

theorem pool_is_bounded_witness:
  "\<exists>s. pool_run (new_pool 1) [Start, Arrive (JobMessage (sample_job ''A'')), Consume, Acquire,
       Begin (sample_job ''A'')] s \<and> length (active_runners s) + length (started s) \<le> 1 \<and>
     active_count s = 1"
proof -
  let ?p = "perform_all [Start, Arrive (JobMessage (sample_job ''A'')), Consume, Acquire,
      Begin (sample_job ''A'')] (new_pool 1)"
  have "?p \<noteq> None" by code_simp
  moreover have len: "map_option (length \<circ> active_runners) ?p = Some 1" by code_simp
  ultimately obtain s where p: "?p = Some s" by blast
  then have run: "pool_run (new_pool 1) [Start, Arrive (JobMessage (sample_job ''A'')), Consume, Acquire,
      Begin (sample_job ''A'')] s" by (simp only: pool_run_iff)
  from pool_is_bounded [OF run] len p run show ?thesis by auto
qed

subsection \<open>Tiers run in order\<close>

fun message_job :: "job_message \<Rightarrow> AgentJobEvent option" where
  "message_job (JobMessage job) = Some job"
| "message_job (Malformed raw) = None"

definition in_flight :: "pool \<Rightarrow> AgentJobEvent list" where
  "in_flight s = List.map_filter message_job (agent_jobs s) @ (case waiting_job s of None \<Rightarrow> [] | Some j \<Rightarrow> [j])
     @ started s @ map (\<lambda>(rid, r). runner_job r) (active_runners s) @ concat (outgoing s)"

fun finished_job :: "pool_act \<Rightarrow> AgentJobEvent option" where
  "finished_job (Finish up now rid job) = Some job"
| "finished_job a = None"

definition finished :: "pool_act list \<Rightarrow> AgentJobEvent multiset" where
  "finished acts = mset (List.map_filter finished_job acts)"

lemma finished_simps [simp]:
  "finished [] = {#}" "finished (xs @ ys) = finished xs + finished ys"
  by (simp_all add: finished_def map_filter_simps map_filter_append)

text \<open>A step the pool takes by itself, and one in which the broker does not fail.\<close>

fun own_step :: "pool_act \<Rightarrow> bool" where
  "own_step Start = False"
| "own_step Stop = True"
| "own_step (Arrive m) = False"
| "own_step a = True"

fun reliable_step :: "pool_act \<Rightarrow> bool" where
  "reliable_step Start = False"
| "reliable_step Stop = False"
| "reliable_step (Arrive m) = False"
| "reliable_step (Finish up now rid job) = up"
| "reliable_step (Publish i up job) = up"
| "reliable_step a = True"

lemma reliable_own: "reliable_step a \<Longrightarrow> own_step a"
  by (cases a) simp_all

definition tier_id :: "AgentJobEvent list \<Rightarrow> string" where
  "tier_id tier = job_batch_id (hd tier)"

text \<open>What the coordinator needs of the tiers it is given.\<close>

definition staged :: "AgentJobEvent list list \<Rightarrow> bool" where
  "staged tiers \<longleftrightarrow> tiers \<noteq> [] \<and> distinct (map tier_id tiers) \<and>
     (\<forall>tier \<in> set tiers. tier \<noteq> [] \<and> (\<forall>job \<in> set tier. job_batch_id job = tier_id tier))"

definition tier_state :: "AgentJobEvent list list \<Rightarrow> string \<Rightarrow> nat \<Rightarrow> nat \<Rightarrow> BatchState" where
  "tier_state tiers session i c = \<lparr>bs_batch_id = tier_id (tiers ! i),
     bs_total_count = length (tiers ! i), bs_current_jobs = tiers ! i, bs_completed_count = c,
     bs_next_tier_jobs = (if i + 1 = length tiers then [] else tiers ! (i + 1)),
     bs_session_id = session, bs_is_final_tier = (i + 1 = length tiers)\<rparr>"

lemma tier_id_eq: "staged tiers \<Longrightarrow> i < length tiers \<Longrightarrow> k < length tiers \<Longrightarrow>
    tier_id (tiers ! i) = tier_id (tiers ! k) \<longleftrightarrow> i = k"
  by (auto simp: staged_def distinct_conv_nth)

lemma register_tier_get:
  assumes "staged tiers" "i < length tiers"
  shows "dict_get (register_tier tiers session i bs) b =
    (if b = tier_id (tiers ! i) then Some (tier_state tiers session i 0) else dict_get bs b)"
proof -
  have "tiers ! i \<noteq> []" using assms by (auto simp: staged_def)
  then show ?thesis
    by (auto simp: register_tier_def register_batch_def tier_state_def tier_id_def dict_simps Let_def
      split: list.split)
qed

lemma register_dispatch_plan_get:
  assumes "staged tiers" "i < length tiers"
  shows "dict_get (register_dispatch_plan tiers session bs) (tier_id (tiers ! i)) =
    Some (tier_state tiers session i 0)"
proof -
  have "dict_get (fold (register_tier tiers session) [0..<m] bs) (tier_id (tiers ! i)) =
      (if i < m then Some (tier_state tiers session i 0) else dict_get bs (tier_id (tiers ! i)))"
    if "m \<le> length tiers" for m
    using that
  proof (induction m)
    case (Suc m)
    then show ?case
      using assms by (auto simp: register_tier_get tier_id_eq less_Suc_eq)
  qed simp
  with assms(2) show ?thesis by (simp add: register_dispatch_plan_def)
qed

text \<open>
  How far a plan got: the first \<open>k\<close> tiers are done, of tier \<open>k\<close> the jobs \<open>G\<close>, and whatever is in
  flight belongs to tier \<open>k\<close>. \<open>rel\<close> says that no message was lost.
\<close>

definition at_tier :: "bool \<Rightarrow> AgentJobEvent list list \<Rightarrow> string \<Rightarrow> delegation_complete list \<Rightarrow> nat \<Rightarrow>
    AgentJobEvent multiset \<Rightarrow> pool \<Rightarrow> bool" where
  "at_tier rel tiers session evs k G s \<longleftrightarrow> k \<le> length tiers \<and>
     (\<forall>i < length tiers. dict_get (batch_states s) (tier_id (tiers ! i)) = Some (tier_state tiers session i
        (if i < k then length (tiers ! i) else if i = k then size G else 0))) \<and>
     (if k < length tiers
      then G + mset (in_flight s) \<subseteq># mset (tiers ! k) \<and> size G < length (tiers ! k) \<and>
        trigger_events s = evs \<and> (rel \<longrightarrow> G + mset (in_flight s) = mset (tiers ! k))
      else G = {#} \<and> in_flight s = [] \<and>
        ((\<exists>now. trigger_events s = evs @ [\<lparr>dc_session_id = session,
            dc_final_batch_id = tier_id (last tiers), dc_completed_at = now\<rparr>]) \<or>
         \<not> rel \<and> trigger_events s = evs))"

lemma split_at:
  assumes "i < length xs" "xs ! i = x"
  shows "\<exists>ys zs. xs = ys @ x # zs \<and> i = length ys"
  using id_take_nth_drop [OF assms(1)] assms by (metis length_take min.absorb4)

lemma in_flight_step:
  assumes "perform a s = Some s'" "own_step a" "finished_job a = None" "accounted s"
  shows "mset (in_flight s') \<subseteq># mset (in_flight s) \<and> batch_states s' = batch_states s \<and>
    trigger_events s' = trigger_events s \<and>
    (running s \<longrightarrow> reliable_step a \<longrightarrow> mset (in_flight s') = mset (in_flight s) \<and> running s')"
proof (cases a)
  case (Begin j)
  then obtain js where "started s = j # js" "s' = begin_run j js s"
    using assms(1) by (auto split: list.splits if_splits)
  then show ?thesis
    using fresh_runner_id [OF assms(4)] by (simp add: in_flight_def begin_run_def dict_set_new)
next
  case (Settle rid st)
  then obtain r where r: "dict_get (active_runners s) rid = Some r" "s' = settle rid r st s"
    using assms(1) by (auto split: option.splits if_splits)
  have "dict_ok (active_runners s)" using assms(4) by (simp add: accounted_def)
  from dict_split [OF this r(1)] obtain xs ys where
    "active_runners s = xs @ (rid, r) # ys"
    "\<And>v'. dict_set rid v' (active_runners s) = xs @ (rid, v') # ys" by metis
  with r(2) show ?thesis by (simp add: in_flight_def settle_def)
next
  case (Publish i up job)
  then obtain js where o: "i < length (outgoing s)" "outgoing s ! i = job # js"
      "s' = publish_next i up job js s"
    using assms(1) by (auto split: list.splits if_splits)
  from split_at [OF o(1,2)] obtain ys zs where "outgoing s = ys @ (job # js) # zs"
    "i = length ys" by blast
  with o(3) Publish show ?thesis
    by (auto simp: in_flight_def publish_next_def map_filter_append map_filter_simps)
next
  case Consume
  with assms(1) show ?thesis
    by (auto simp: in_flight_def consume_def map_filter_simps
        split: list.splits if_splits job_message.splits option.split)
next
  case Acquire
  with assms(1) show ?thesis
    by (auto simp: in_flight_def acquire_def split: option.splits if_splits)
next
  case Stop
  with assms(1) show ?thesis
    by (auto simp: in_flight_def pool_stop_def split: option.splits)
qed (use assms in simp_all)

lemma in_flight_finish:
  assumes "perform (Finish up now rid job) s = Some s'" "accounted s"
  obtains rest where "mset (in_flight s) = add_mset job (mset (in_flight (s\<lparr>active_runners := rest\<rparr>)))"
    "s' = end_run up now rid job s" "dict_pop rid (active_runners s) = rest"
proof -
  obtain r where r: "dict_get (active_runners s) rid = Some r" "runner_job r = job"
      "s' = end_run up now rid job s"
    using assms(1) by (auto split: option.splits if_splits)
  have "dict_ok (active_runners s)" using assms(2) by (simp add: accounted_def)
  from dict_split [OF this r(1)] obtain xs ys where
    "active_runners s = xs @ (rid, r) # ys" "dict_pop rid (active_runners s) = xs @ ys" by metis
  with r that [of "xs @ ys"] show ?thesis by (simp add: in_flight_def)
qed

lemma at_tier_finish:
  assumes "at_tier rel tiers session evs k G s" "accounted s" "staged tiers" "rel \<longrightarrow> up"
    and "perform (Finish up now rid job) s = Some s'"
  shows "\<exists>k' G'. at_tier rel tiers session evs k' G' s' \<and>
    mset (concat (take k' tiers)) + G' = mset (concat (take k tiers)) + G + {#job#}"
proof -
  obtain rest where fl: "mset (in_flight s) = add_mset job (mset (in_flight (s\<lparr>active_runners := rest\<rparr>)))"
    and s': "s' = end_run up now rid job s" "dict_pop rid (active_runners s) = rest"
    by (rule in_flight_finish [OF assms(5,2)])
  let ?L = "mset (in_flight (s\<lparr>active_runners := rest\<rparr>))"
  have "in_flight s \<noteq> []" using fl by auto
  then have k: "k < length tiers" using assms(1) by (auto simp: at_tier_def split: if_splits)
  have sub: "add_mset job (G + ?L) \<subseteq># mset (tiers ! k)" and evs: "trigger_events s = evs"
    and size: "size G < length (tiers ! k)"
    and all: "rel \<longrightarrow> add_mset job (G + ?L) = mset (tiers ! k)"
    and bs: "\<And>i. i < length tiers \<Longrightarrow> dict_get (batch_states s) (tier_id (tiers ! i)) =
        Some (tier_state tiers session i (if i < k then length (tiers ! i) else if i = k then size G else 0))"
    using assms(1) k fl by (auto simp: at_tier_def)
  have "job \<in># mset (tiers ! k)" using mset_subset_eqD [OF sub] by simp
  then have id: "job_batch_id job = tier_id (tiers ! k)"
    using assms(3) k by (auto simp: staged_def)
  note get = bs [OF k, simplified]
  have pop: "\<And>bs os es. in_flight (s\<lparr>active_count := ac, active_runners := rest, permits := pe,
       batch_states := bs, trigger_events := es, outgoing := outgoing s @ os\<rparr>) =
     in_flight (s\<lparr>active_runners := rest\<rparr>) @ concat os" for ac pe
    by (simp add: in_flight_def)
  have other: "dict_get (dict_set (tier_id (tiers ! k)) b (batch_states s)) (tier_id (tiers ! i)) =
      (if i = k then Some b else dict_get (batch_states s) (tier_id (tiers ! i)))"
    if "i < length tiers" for i b
    using tier_id_eq [OF assms(3) that k] by (simp add: dict_simps)
  show ?thesis
  proof (cases "size G + 1 < length (tiers ! k)")
    case True
    then have rc: "record_completion up now (job_batch_id job) (batch_states s, trigger_events s) =
        ((False, []), dict_set (tier_id (tiers ! k)) (tier_state tiers session k (size G + 1)) (batch_states s),
          evs)"
      by (simp add: record_completion_def id get Let_def tier_state_def evs)
    have "at_tier rel tiers session evs k (add_mset job G) s'"
      unfolding at_tier_def s'(1) end_run_def rc
      using k sub all bs other True s'(2) pop [where os = "[]", simplified] by (auto simp: fl)
    then show ?thesis by (intro exI [of _ k] exI [of _ "add_mset job G"]) simp
  next
    case False
    with size have full: "size G + 1 = length (tiers ! k)" by simp
    have "size (add_mset job (G + ?L)) \<le> size (mset (tiers ! k))" using sub by (rule size_mset_mono)
    then have "length (in_flight (s\<lparr>active_runners := rest\<rparr>)) = 0" using full by (simp del: length_0_conv)
    then have "?L = {#}" by simp
    with sub full have tier: "mset (tiers ! k) = add_mset job G"
      using size_mset_mono [OF sub] by (metis add.commute add.right_neutral mset_subset_size nat_less_le size_add_mset size_mset
        plus_1_eq_Suc subset_mset.le_neq_trans)
    let ?next = "if k + 1 = length tiers then [] else tiers ! (k + 1)"
    let ?b = "tier_state tiers session k (length (tiers ! k))"
    have rc: "record_completion up now (job_batch_id job) (batch_states s, trigger_events s) =
        ((True, ?next), dict_set (tier_id (tiers ! k)) ?b (batch_states s),
          if k + 1 = length tiers then publish_delegation_complete up now session (tier_id (tiers ! k)) evs
          else evs)"
      using full by (simp add: record_completion_def id get Let_def tier_state_def evs)
    have ne: "tiers ! (k + 1) \<noteq> []" if "k + 1 < length tiers"
      using assms(3) that by (simp add: staged_def)
    have last: "k + 1 = length tiers \<Longrightarrow> last tiers = tiers ! k"
      by (metis Suc_eq_plus1 diff_Suc_1 last_conv_nth length_0_conv nat.distinct(1))
    have "at_tier rel tiers session evs (k + 1) {#} s'"
    proof (cases "k + 1 = length tiers")
      case True
      then show ?thesis
        unfolding at_tier_def s'(1) end_run_def rc
        using bs other s'(2) pop [where os = "[]", simplified] \<open>?L = {#}\<close> assms(4) last
        by (auto simp: publish_delegation_complete_def less_Suc_eq)
    next
      case False
      then have lt: "k + 1 < length tiers" using k by simp
      with ne have ne': "?next \<noteq> []" by simp
      show ?thesis
        unfolding at_tier_def s'(1) end_run_def rc
        using lt ne bs other s'(2) pop [where os = "[tiers ! (k + 1)]", simplified] \<open>?L = {#}\<close>
        by (auto simp: less_Suc_eq)
    qed
    moreover have "mset (concat (take (k + 1) tiers)) = mset (concat (take k tiers)) + mset (tiers ! k)"
      using k by (simp add: take_Suc_conv_app_nth)
    ultimately show ?thesis using tier by (intro exI [of _ "k + 1"] exI [of _ "{#}"]) simp
  qed
qed

text \<open>The pool as it is when a plan is registered and the jobs of its first tier are published.\<close>

definition quiet :: "pool \<Rightarrow> bool" where
  "quiet p \<longleftrightarrow> accounted p \<and> running p \<and> consumer p \<and> agent_jobs p = [] \<and> in_flight p = []"

definition launch :: "AgentJobEvent list list \<Rightarrow> string \<Rightarrow> pool \<Rightarrow> pool" where
  "launch tiers session p = p\<lparr>batch_states := register_dispatch_plan tiers session (batch_states p),
     agent_jobs := map JobMessage (hd tiers)\<rparr>"

lemma quiet_start: "quiet (pool_start (new_pool n))"
  by (simp add: quiet_def accounted_def new_pool_def pool_start_def in_flight_def dict_keys_def map_filter_simps)

lemma jobs_of_messages: "List.map_filter message_job (map JobMessage js) = js"
  by (induction js) (simp_all add: map_filter_simps)

lemma launch_facts:
  assumes "quiet p"
  shows "in_flight (launch tiers session p) = hd tiers" "accounted (launch tiers session p)"
  using assms by (auto simp: quiet_def launch_def in_flight_def accounted_def jobs_of_messages split: option.splits)

lemma at_tier_launch:
  assumes "quiet p" "staged tiers"
  shows "at_tier rel tiers session (trigger_events p) 0 {#} (launch tiers session p)"
proof -
  have "tiers \<noteq> []" "tiers ! 0 \<noteq> []" using assms(2) by (auto simp: staged_def)
  moreover have "batch_states (launch tiers session p) = register_dispatch_plan tiers session (batch_states p)"
    "trigger_events (launch tiers session p) = trigger_events p" by (simp_all add: launch_def)
  ultimately show ?thesis
    using register_dispatch_plan_get [OF assms(2)] launch_facts(1) [OF assms(1)]
    by (simp add: at_tier_def hd_conv_nth)
qed

lemma at_tier_other:
  assumes "at_tier rel tiers session evs k G s" "accounted s" "own_step a" "finished_job a = None"
    and "rel \<longrightarrow> reliable_step a \<and> running s" "perform a s = Some s'"
  shows "at_tier rel tiers session evs k G s'"
proof -
  note st = in_flight_step [OF assms(6,3,4,2)]
  have "mset (in_flight s') \<subseteq># mset (in_flight s)" using st by blast
  then have le: "G + mset (in_flight s') \<subseteq># G + mset (in_flight s)"
    and nil: "in_flight s = [] \<Longrightarrow> in_flight s' = []" by auto
  show ?thesis
    using assms(1,5) st subset_mset.trans [OF le] nil unfolding at_tier_def
    by (auto split: if_splits)
qed

lemma at_tier_step:
  assumes "at_tier rel tiers session evs k G s" "accounted s" "staged tiers" "own_step a"
    and "rel \<longrightarrow> reliable_step a \<and> running s" "perform a s = Some s'"
  shows "\<exists>k' G'. at_tier rel tiers session evs k' G' s' \<and>
    mset (concat (take k' tiers)) + G' = mset (concat (take k tiers)) + G + finished [a]"
proof (cases "finished_job a")
  case None
  then have "finished [a] = {#}" by (simp add: finished_def map_filter_simps)
  moreover note at_tier_other [OF assms(1,2,4) None assms(5,6)]
  ultimately show ?thesis by (metis add.right_neutral)
next
  case (Some job)
  then obtain up now rid where a: "a = Finish up now rid job" by (cases a) simp_all
  then have "finished [a] = {#job#}" by (simp add: finished_def map_filter_simps)
  with at_tier_finish [OF assms(1-3), of up now rid job s'] assms(5,6) a show ?thesis by simp
qed

lemma reliable_keeps_running:
  assumes "perform a s = Some s'" "reliable_step a" "running s" "consumer s"
  shows "running s' \<and> consumer s'"
  using assms by (cases a) (auto simp: pool_ops split: list.splits if_splits option.splits job_message.splits prod.splits)

lemma launched_run:
  assumes "pool_run (launch tiers session p) acts s" "quiet p" "staged tiers"
    and "\<forall>a \<in> set acts. own_step a" "rel \<longrightarrow> (\<forall>a \<in> set acts. reliable_step a)"
  shows "\<exists>k G. at_tier rel tiers session (trigger_events p) k G s \<and>
    finished acts = mset (concat (take k tiers)) + G \<and> accounted s \<and>
    (rel \<longrightarrow> running s \<and> consumer s)"
  using assms
proof (induction "launch tiers session p" acts s rule: pool_run.induct)
  case run_Nil
  have "running (launch tiers session p) \<and> consumer (launch tiers session p)"
    using run_Nil(1) by (simp add: quiet_def launch_def)
  with at_tier_launch [OF run_Nil(1,2)] launch_facts(2) [OF run_Nil(1)] show ?case
    by (intro exI [of _ 0] exI [of _ "{#}"]) simp
next
  case (run_step acts t a u)
  then obtain k G where t: "at_tier rel tiers session (trigger_events p) k G t"
    "finished acts = mset (concat (take k tiers)) + G" "accounted t" "rel \<longrightarrow> running t \<and> consumer t"
    by auto
  from at_tier_step [OF t(1,3) run_step(5), of a u] run_step(3,6,7) t(4) obtain k' G' where
    "at_tier rel tiers session (trigger_events p) k' G' u"
    "mset (concat (take k' tiers)) + G' = mset (concat (take k tiers)) + G + finished [a]" by auto
  moreover have "rel \<longrightarrow> running u \<and> consumer u"
    using reliable_keeps_running [OF run_step(3)] t(4) run_step(7) by auto
  ultimately show ?case using accounted_step [OF run_step(3) t(3)] t(2) by (metis finished_simps(2))
qed

lemma started_after_tiers:
  assumes "pool_run (launch tiers session p) (xs @ Begin job # ys) s" "quiet p" "staged tiers"
    and "\<forall>a \<in> set (xs @ Begin job # ys). own_step a"
  obtains k where "k < length tiers" "job \<in> set (tiers ! k)"
    "mset (concat (take k tiers)) \<subseteq># finished xs"
proof -
  obtain t where t: "pool_run (launch tiers session p) xs t" "pool_run t (Begin job # ys) s"
    using assms(1) by (auto simp: pool_run_append)
  then have "job \<in> set (started t)"
    by (auto simp: pool_run_iff bind_eq_Some_conv split: list.splits if_splits)
  then have fl: "job \<in># mset (in_flight t)" by (simp add: in_flight_def)
  from launched_run [OF t(1) assms(2,3), of False] assms(4) obtain k G where
    k: "at_tier False tiers session (trigger_events p) k G t"
    "finished xs = mset (concat (take k tiers)) + G" by auto
  from fl k(1) have "k < length tiers" by (auto simp: at_tier_def split: if_splits)
  with k(1) have "G + mset (in_flight t) \<subseteq># mset (tiers ! k)" by (simp add: at_tier_def)
  then have "job \<in># mset (tiers ! k)" using fl by (meson mset_subset_eqD union_iff)
  with \<open>k < length tiers\<close> k(2) that show ?thesis by simp
qed

subsection \<open>The planner's tiers\<close>

lemma assign_batch_id_ids: "job \<in> set (assign_batch_id jobs b) \<Longrightarrow> job_batch_id job = b"
  by (auto simp: assign_batch_id_def)

lemma tier_id_assign: "jobs \<noteq> [] \<Longrightarrow> tier_id (assign_batch_id jobs b) = b"
  by (simp add: tier_id_def assign_batch_id_def hd_map)

lemma staged_single: "jobs \<noteq> [] \<Longrightarrow> staged [assign_batch_id jobs b]"
  unfolding staged_def by (simp add: tier_id_assign) (simp add: assign_batch_id_def)

lemma staged_numbered:
  assumes "distinct (map fst tiers)" "\<forall>(i, js) \<in> set tiers. js \<noteq> []" "tiers \<noteq> []"
  shows "staged (map (\<lambda>(i, js). assign_batch_id js (tier_batch_id session i)) tiers)"
proof -
  have "map tier_id (map (\<lambda>(i, js). assign_batch_id js (tier_batch_id session i)) tiers) =
      map (tier_batch_id session) (map fst tiers)"
    using assms(2) tier_id_assign by auto
  then have "distinct (map tier_id (map (\<lambda>(i, js). assign_batch_id js (tier_batch_id session i)) tiers))"
    using assms(1) by (simp only: distinct_map) (simp add: inj_on_def)
  with assms(2,3) tier_id_assign show ?thesis
    by (auto simp: staged_def dest: assign_batch_id_ids) (auto simp: assign_batch_id_def)
qed

lemma plan_tiers_staged:
  assumes "plan_tiers session idx tiers \<noteq> []"
  shows "staged (plan_tiers session idx tiers)"
proof -
  let ?f = "\<lambda>tier. List.map_filter (dict_get idx) tier"
  let ?ts = "filter (\<lambda>(i, js). js \<noteq> []) (map (\<lambda>(i, tier). (i, ?f tier)) (enumerate 0 tiers))"
  have eq: "plan_tiers session idx tiers = map (\<lambda>(i, js). assign_batch_id js (tier_batch_id session i)) ?ts"
    unfolding plan_tiers_def filter_map map_map
    by (intro map_cong filter_cong) (auto simp: assign_batch_id_def)
  have "distinct (map fst (map (\<lambda>(i, tier). (i, ?f tier)) (enumerate 0 tiers)))"
    by (simp add: o_def split_def)
  then have "distinct (map fst ?ts)" by (rule distinct_map_filter)
  then show ?thesis using assms unfolding eq by (intro staged_numbered) auto
qed

lemma plan_staged:
  assumes "plan as_list qe jobs session = Inr tiers" "jobs \<noteq> []"
  shows "staged tiers"
proof -
  consider "tiers = [assign_batch_id jobs (tier_batch_id session 0)]"
    | ts where "tiers = plan_tiers session (job_index jobs) ts" "tiers \<noteq> []"
    using assms(1) by (auto simp: plan_def Let_def bindE_Inr_iff split: if_splits)
  then show ?thesis
    using staged_single [OF assms(2)] plan_tiers_staged by cases blast+
qed


subsection \<open>Every plan comes to its end\<close>

definition runner_work :: "string \<times> Runner \<Rightarrow> nat" where
  "runner_work x = (if runner_state (snd x) = RUNNING then 2 else 1)"

definition work :: "pool \<Rightarrow> nat" where
  "work s = 5 * length (agent_jobs s) + (if waiting_job s = None then 0 else 4) + 3 * length (started s)
     + sum_list (map runner_work (active_runners s)) + 6 * length (concat (outgoing s))"

lemma work_other:
  assumes "perform a s = Some s'" "reliable_step a" "finished_job a = None" "accounted s" "running s"
  shows "work s' + 1 \<le> work s"
proof (cases a)
  case (Begin j)
  then obtain js where "started s = j # js" "s' = begin_run j js s"
    using assms(1) by (auto split: list.splits if_splits)
  then show ?thesis
    using fresh_runner_id [OF assms(4)] by (simp add: work_def begin_run_def dict_set_new runner_work_def)
next
  case (Settle rid st)
  then obtain r where r: "dict_get (active_runners s) rid = Some r" "runner_state r = RUNNING"
      "st \<noteq> RUNNING" "s' = settle rid r st s"
    using assms(1) by (auto split: option.splits if_splits)
  have "dict_ok (active_runners s)" using assms(4) by (simp add: accounted_def)
  from dict_split [OF this r(1)] obtain xs ys where
    "active_runners s = xs @ (rid, r) # ys"
    "\<And>v'. dict_set rid v' (active_runners s) = xs @ (rid, v') # ys" by metis
  with r show ?thesis by (simp add: work_def settle_def runner_work_def)
next
  case (Publish i up job)
  then obtain js where o: "i < length (outgoing s)" "outgoing s ! i = job # js"
      "s' = publish_next i True job js s"
    using assms(1,2) by (auto split: list.splits if_splits)
  from split_at [OF o(1,2)] obtain ys zs where "outgoing s = ys @ (job # js) # zs"
    "i = length ys" by blast
  with o(3) show ?thesis by (simp add: work_def publish_next_def)
next
  case Consume
  with assms(1,5) show ?thesis
    by (auto simp: work_def consume_def split: list.splits if_splits job_message.splits)
next
  case Acquire
  with assms(1) show ?thesis by (auto simp: work_def acquire_def split: option.splits if_splits)
qed (use assms in simp_all)

lemma work_finish:
  assumes "perform (Finish up now rid job) s = Some s'" "accounted s"
  shows "\<exists>m. work s' + 1 \<le> work s + 6 * m \<and> length (in_flight s') + 1 = length (in_flight s) + m"
proof -
  obtain r where r: "dict_get (active_runners s) rid = Some r" "s' = end_run up now rid job s"
    using assms(1) by (auto split: option.splits if_splits)
  have "dict_ok (active_runners s)" using assms(2) by (simp add: accounted_def)
  from dict_split [OF this r(1)] obtain xs ys where d:
    "active_runners s = xs @ (rid, r) # ys" "dict_pop rid (active_runners s) = xs @ ys" by metis
  obtain td nx bs es where rc: "record_completion up now (job_batch_id job)
      (batch_states s, trigger_events s) = ((td, nx), bs, es)" by (metis prod.collapse)
  define os where "os = (if td \<and> nx \<noteq> [] then [nx] else [])"
  then have os: "outgoing s' = outgoing s @ os" "active_runners s' = xs @ ys"
    "agent_jobs s' = agent_jobs s" "waiting_job s' = waiting_job s" "started s' = started s"
    using d(2) by (simp_all add: r(2) end_run_def rc)
  have "1 \<le> runner_work (rid, r)" by (simp add: runner_work_def)
  with os d(1) have "work s' + 1 \<le> work s + 6 * length (concat os)"
    "length (in_flight s') + 1 = length (in_flight s) + length (concat os)"
    by (simp_all add: work_def in_flight_def)
  then show ?thesis by blast
qed

lemma work_step:
  assumes "perform a s = Some s'" "reliable_step a" "accounted s" "running s"
  shows "\<exists>m. work s' + 1 \<le> work s + 6 * m \<and>
    length (in_flight s') + size (finished [a]) = length (in_flight s) + m"
proof (cases "finished_job a")
  case None
  from in_flight_step [OF assms(1) reliable_own [OF assms(2)] None assms(3)] assms(2,4)
  have "length (in_flight s') = length (in_flight s)" by (metis size_mset)
  with work_other [OF assms(1,2) None assms(3,4)] None show ?thesis
    by (intro exI [of _ 0]) (simp add: finished_def map_filter_simps)
next
  case (Some job)
  then obtain up now rid where a: "a = Finish up now rid job" by (cases a) simp_all
  from work_finish [of up now rid job s s'] assms(1,3) a show ?thesis
    by (simp add: finished_def map_filter_simps)
qed

lemma at_tier_size:
  assumes "at_tier rel tiers session evs k G s" "F = mset (concat (take k tiers)) + G"
  shows "size F + length (in_flight s) \<le> length (concat tiers)"
proof (cases "k < length tiers")
  case True
  then have "G + mset (in_flight s) \<subseteq># mset (tiers ! k)" using assms(1) by (simp add: at_tier_def)
  from size_mset_mono [OF this] have "size G + length (in_flight s) \<le> length (tiers ! k)" by simp
  moreover have "length (concat tiers) = length (concat (take k tiers)) + length (tiers ! k) +
      length (concat (drop (k + 1) tiers))"
    using True by (metis (no_types, lifting) Suc_eq_plus1 add.assoc concat.simps(2) concat_append id_take_nth_drop length_append)
  ultimately show ?thesis using assms(2) by simp
next
  case False
  with assms show ?thesis by (simp add: at_tier_def)
qed

lemma launched_work:
  assumes "pool_run (launch tiers session p) acts s" "quiet p" "staged tiers"
    and "\<forall>a \<in> set acts. reliable_step a"
  shows "length acts + work s + 6 * (length (concat tiers) - size (finished acts) - length (in_flight s))
    \<le> 6 * length (concat tiers)"
  using assms
proof (induction "launch tiers session p" acts s rule: pool_run.induct)
  case run_Nil
  have "work (launch tiers session p) = 5 * length (hd tiers)"
    using run_Nil(1)
    by (auto simp: quiet_def launch_def work_def in_flight_def accounted_def split: option.splits)
  moreover have "length (hd tiers) \<le> length (concat tiers)"
    using run_Nil(2) by (cases tiers) (auto simp: staged_def)
  ultimately show ?case using launch_facts(1) [OF run_Nil(1)] by simp
next
  case (run_step acts t a u)
  have own: "\<forall>a \<in> set (acts @ [a]). own_step a" using run_step(6) reliable_own by blast
  from launched_run [OF run_step(1,4,5), of True] own run_step(6) have
    t: "accounted t" "running t" by auto
  have "pool_run (launch tiers session p) (acts @ [a]) u" using run_step(1,3) by (rule pool_run.run_step)
  from launched_run [OF this run_step(4,5), of True] own run_step(6) obtain k G where
    "at_tier True tiers session (trigger_events p) k G u"
    "finished (acts @ [a]) = mset (concat (take k tiers)) + G" by auto
  from at_tier_size [OF this] have "size (finished acts) + size (finished [a]) + length (in_flight u)
      \<le> length (concat tiers)" by simp
  moreover from work_step [OF run_step(3) _ t] run_step(6) obtain m where
    "work u + 1 \<le> work t + 6 * m" "length (in_flight u) + size (finished [a]) = length (in_flight t) + m"
    by auto
  ultimately show ?case using run_step(2,4-6) by simp
qed

lemma never_stuck:
  assumes "accounted s" "0 < max_size s" "running s" "consumer s" "in_flight s \<noteq> []"
  shows "\<exists>a. reliable_step a \<and> perform a s \<noteq> None"
proof -
  consider (out) "outgoing s \<noteq> []" | (run) "active_runners s \<noteq> []" | (st) "started s \<noteq> []"
    | (wait) "waiting_job s \<noteq> None" "active_runners s = []" "started s = []"
    | (msg) "agent_jobs s \<noteq> []" "waiting_job s = None"
    using assms(5) by (cases "outgoing s"; cases "active_runners s"; cases "started s"; cases "waiting_job s";
      cases "agent_jobs s") (auto simp: in_flight_def map_filter_simps)
  then show ?thesis
  proof cases
    case out
    then obtain js jss where "outgoing s = js # jss" by (cases "outgoing s") auto
    moreover have "js \<noteq> []" using assms(1) calculation by (auto simp: accounted_def)
    then obtain j js' where "js = j # js'" by (cases js) auto
    ultimately show ?thesis by (intro exI [of _ "Publish 0 True j"]) simp
  next
    case run
    then obtain rid r rs where r: "active_runners s = (rid, r) # rs" by (cases "active_runners s") auto
    then have "dict_get (active_runners s) rid = Some r" by (simp add: dict_simps)
    then show ?thesis by (intro exI [of _ "Finish True (utc_dt 0) rid (runner_job r)"]) simp
  next
    case st
    then obtain j js where "started s = j # js" by (cases "started s") auto
    then show ?thesis by (intro exI [of _ "Begin j"]) simp
  next
    case wait
    then have "permits s \<noteq> 0" using assms(1,2) by (simp add: accounted_def)
    with wait(1) show ?thesis by (intro exI [of _ Acquire]) auto
  next
    case msg
    with assms(4) show ?thesis by (intro exI [of _ Consume]) (auto split: list.split)
  qed
qed


subsection \<open>A run\<close>

definition planned_job :: "string \<Rightarrow> nat \<Rightarrow> AgentJobEvent" where
  "planned_job t i = (sample_job t)\<lparr>job_batch_id := tier_batch_id ''s1'' i\<rparr>"

definition sample_tiers :: "AgentJobEvent list list" where
  "sample_tiers = [[planned_job ''B'' 0, planned_job ''C'' 0], [planned_job ''A'' 1]]"

definition sample_pool :: pool where
  "sample_pool = pool_start (new_pool 2)"

definition first_tier_run :: "pool_act list" where
  "first_tier_run = [Consume, Acquire, Begin (planned_job ''B'' 0), Consume, Acquire,
     Begin (planned_job ''C'' 0), Finish True (utc_dt 1) ''runner-000'' (planned_job ''B'' 0),
     Settle ''runner-001'' FAILED, Finish True (utc_dt 2) ''runner-001'' (planned_job ''C'' 0),
     Publish 0 True (planned_job ''A'' 1), Consume, Acquire]"

lemma sample_plan:
  "plan sorted_list_of_set sample_qe (map sample_job [''A'', ''B'', ''C'']) ''s1'' = Inr sample_tiers"
  by code_simp

lemma sample_acyclic:
  "acyclic (job_deps sample_qe (map sample_job [''A'', ''B'', ''C'']))"
  unfolding sample_deps by (simp add: acyclic_def trancl_insert)

lemma first_tier_ok: "\<forall>a \<in> set (first_tier_run @ [Begin (planned_job ''A'' 1)]). reliable_step a"
  by (simp add: first_tier_run_def)



subsection \<open>What the pool reports\<close>

fun after_marker :: "string \<Rightarrow> string option" where
  "after_marker [] = None"
| "after_marker (c # cs) = (case after_marker cs of
     Some r \<Rightarrow> Some r
   | None \<Rightarrow> if take 2 (c # cs) = ''-t'' then Some (drop 2 (c # cs)) else None)"

definition tier_index :: "string \<Rightarrow> int" where
  "tier_index batch_id = (case after_marker batch_id of
     None \<Rightarrow> 0
   | Some r \<Rightarrow> (case py_int (py_strip r) of None \<Rightarrow> 0 | Some n \<Rightarrow> n))"

definition reported_state :: "string \<Rightarrow> bool \<Rightarrow> string" where
  "reported_state raw_state batch_done =
     (let st = map to_upper raw_state
      in if st \<in> {''FAILED'', ''TIMED_OUT'', ''CANCELLED'', ''BLOCKED''} then ''BLOCKED''
         else if st \<in> {''RUNNING'', ''WORKING'', ''BUSY''} then ''RUNNING''
         else if st = ''COMPLETED'' then ''COMPLETED''
         else if batch_done then ''COMPLETED'' else ''PENDING'')"

definition active_by_task :: "string \<Rightarrow> pool \<Rightarrow> string pydict" where
  "active_by_task session_id s = foldl (\<lambda>d (rid, r).
     if job_session_id (runner_job r) \<noteq> session_id \<or> job_task_id (runner_job r) = [] then d
     else dict_set (job_task_id (runner_job r)) (RunnerState_value (runner_state r)) d) [] (active_runners s)"

record job_report =
  jr_agent_id :: string
  jr_task_id :: string
  jr_batch_id :: string
  jr_status :: string

record tier_report =
  tr_tier :: int
  tr_batch_id :: string
  tr_total_count :: nat
  tr_completed_count :: nat
  tr_status :: string
  tr_jobs :: "job_report list"

definition report_job :: "string pydict \<Rightarrow> bool \<Rightarrow> AgentJobEvent \<Rightarrow> job_report" where
  "report_job active batch_done job = \<lparr>jr_agent_id = job_agent_id job, jr_task_id = job_task_id job,
     jr_batch_id = job_batch_id job,
     jr_status = reported_state (dict_get_default active (job_task_id job)
       (if batch_done then ''COMPLETED'' else ''PENDING'')) batch_done\<rparr>"

definition report_tier :: "string pydict \<Rightarrow> BatchState \<Rightarrow> tier_report" where
  "report_tier active batch =
     (let batch_done = bs_completed_count batch \<ge> bs_total_count batch;
          jobs = map (report_job active batch_done) (bs_current_jobs batch)
      in \<lparr>tr_tier = tier_index (bs_batch_id batch), tr_batch_id = bs_batch_id batch,
          tr_total_count = bs_total_count batch, tr_completed_count = bs_completed_count batch,
          tr_status = (if \<exists>j \<in> set jobs. jr_status j = ''RUNNING'' then ''RUNNING''
            else if \<exists>j \<in> set jobs. jr_status j = ''BLOCKED'' then ''BLOCKED''
            else if batch_done then ''COMPLETED'' else ''PENDING''),
          tr_jobs = jobs\<rparr>)"

definition get_dispatch_plan :: "string \<Rightarrow> pool \<Rightarrow> tier_report list" where
  "get_dispatch_plan session_id s = sort_key tr_tier (map (report_tier (active_by_task session_id s))
     (filter (\<lambda>b. bs_session_id b = session_id) (map snd (batch_states s))))"

text \<open>
  Outcomes are not kept: once its runner is gone, a job of a finished tier is reported
  \<open>COMPLETED\<close>, whether it failed, timed out or was cancelled.
\<close>

lemma active_by_task_Nil: "active_runners s = [] \<Longrightarrow> active_by_task session s = []"
  by (simp add: active_by_task_def)

lemma finished_tiers_reported_completed:
  assumes "active_runners s = []" "rep \<in> set (get_dispatch_plan session s)"
    and "tr_total_count rep \<le> tr_completed_count rep"
  shows "tr_status rep = ''COMPLETED'' \<and> (\<forall>j \<in> set (tr_jobs rep). jr_status j = ''COMPLETED'')"
proof -
  have "reported_state ''COMPLETED'' True = ''COMPLETED''" by code_simp
  then show ?thesis
    using assms by (auto simp: get_dispatch_plan_def report_tier_def Let_def report_job_def
      active_by_task_Nil dict_get_default_def dict_simps split: if_splits)
qed

lemma failed_job_reported_completed:
  "case perform_all first_tier_run (launch sample_tiers ''s1'' sample_pool) of
     None \<Rightarrow> False
   | Some s \<Rightarrow> map (\<lambda>t. (tr_tier t, tr_status t)) (get_dispatch_plan ''s1'' s) =
       [(0, ''COMPLETED''), (1, ''PENDING'')] \<and> started s = [planned_job ''A'' 1]"
  by code_simp

end
