(* ===== verification/GC_Handoff.thy ===== *)
theory GC_Handoff
  imports GC_Updates GC_Paths GC_Pool
begin

section \<open>Handing tasks to agents (\<open>agent/main_orchestrator.py\<close>)\<close>

text \<open>
  The tool \<open>delegate_to_agent\<close> and the planning that precedes the tool calls of one answer of the
  language model. \<open>he_catalog\<close> is the agent catalog: none, one that has no system manifests cached,
  or one with their agent ids; \<open>he_up\<close> tells whether the broker takes the message. Reading the
  bucket finds the object or raises \<open>FileNotFoundError\<close>. The arguments of a call are the JSON values
  the schema of the tool admits: texts.
\<close>

subsection \<open>The state around a call\<close>

record 'g handoff_env =
  he_tools :: "'g tool_env"
  he_agent_id :: string
  he_storage :: bool
  he_catalog :: "string list option option"
  he_broker :: bool
  he_up :: bool
  he_planner :: bool
  he_session :: "string option"

record 'g handoff_world =
  hw_tools :: "'g tool_world"
  hw_bucket :: bucket
  hw_pool :: pool
  hw_calls :: "(pval \<times> string) list"

type_synonym ('g, 'a) handing = "('g handoff_world, py_error, 'a) io"

datatype handoff_reply =
    TargetNotAllowed string
  | TaskNotFound string
  | AgentNotFound string
  | Delegated props
  | ToolRaised py_error

definition on_tools :: "('g, 'a) tool \<Rightarrow> ('g, 'a) handing" where
  "on_tools m w = (case m (hw_tools w) of (r, tw) \<Rightarrow> (r, w\<lparr>hw_tools := tw\<rparr>))"

definition raising :: "path_error + 'a \<Rightarrow> py_error + 'a" where
  "raising r = (case r of Inl e \<Rightarrow> Inl (PyValueError ''StoragePaths'') | Inr a \<Rightarrow> Inr a)"

subsection \<open>Who may be handed a task\<close>

definition load_agent_config :: "'g handoff_env \<Rightarrow> string \<Rightarrow> string \<Rightarrow> bucket \<Rightarrow> pval option" where
  "load_agent_config env user_id agent_id fs =
     (if \<not> he_storage env then None
      else (case agent_config user_id agent_id of
          Inl e \<Rightarrow> None
        | Inr path \<Rightarrow> Option.bind (fs path) (te_loads (he_tools env))))"

text \<open>\<open>agent_cfg.get\<close> raises when the file holds no object.\<close>

definition target_allowed :: "pval option \<Rightarrow> string \<Rightarrow> py_error + bool" where
  "target_allowed cfg agent_id = (case cfg of
     None \<Rightarrow> Inr True
   | Some PNone \<Rightarrow> Inr True
   | Some (PDict d) \<Rightarrow> Inr (case dict_get d ''sub_agents'' of
       Some (PList xs) \<Rightarrow> PStr agent_id \<in> set xs | _ \<Rightarrow> True)
   | Some _ \<Rightarrow> Inl PyAttributeError)"

definition has_object :: "bucket \<Rightarrow> string \<Rightarrow> bool" where
  "has_object fs path \<longleftrightarrow> fs path \<noteq> None"

definition resolve_source :: "string list option \<Rightarrow> string \<Rightarrow> bucket \<Rightarrow> py_error + string" where
  "resolve_source cached agent_id fs = (case cached of
     Some ids \<Rightarrow> Inr (if agent_id \<in> set ids then ''system'' else ''user'')
   | None \<Rightarrow> bindE (raising (system_agent_manifest agent_id)) (\<lambda>path.
       Inr (if has_object fs path then ''system'' else ''user'')))"

definition agent_source :: "'g handoff_env \<Rightarrow> string \<Rightarrow> bucket \<Rightarrow> py_error + string" where
  "agent_source env agent_id fs = (case he_catalog env of
     Some cached \<Rightarrow> resolve_source cached agent_id fs
   | None \<Rightarrow>
       if he_storage env
       then (case system_agent_manifest agent_id of
           Inl e \<Rightarrow> Inr ''user''
         | Inr path \<Rightarrow> Inr (if has_object fs path then ''system'' else ''user''))
       else Inr ''user'')"

definition agent_exists :: "'g handoff_env \<Rightarrow> string \<Rightarrow> string \<Rightarrow> string \<Rightarrow> bucket \<Rightarrow> py_error + bool" where
  "agent_exists env user_id agent_id src fs =
     (if \<not> he_storage env then Inr True
      else bindE (raising (if src = ''system'' then system_agent_manifest agent_id
                           else agent_manifest user_id agent_id)) (\<lambda>path. Inr (has_object fs path)))"

subsection \<open>What is written\<close>

definition handoff_reason :: "string \<Rightarrow> string \<Rightarrow> string" where
  "handoff_reason agent_id instructions = ''Delegated to agent '' @ quoted agent_id @
     (if instructions = [] then [] else '': '' @ instructions)"

definition handoff_entry :: "py_datetime \<Rightarrow> string \<Rightarrow> string \<Rightarrow> props \<Rightarrow> pval" where
  "handoff_entry now agent_id instructions p = PDict [
     (''from_state'', dict_get_default p ''state'' (PStr ''PENDING'')),
     (''to_state'', PStr ''IN_PROGRESS''),
     (''changed_at'', PTime now),
     (''changed_by'', PStr ''AGENT''),
     (''reason'', PStr (handoff_reason agent_id instructions))]"

text \<open>\<open>list(v)\<close>; a text gives its characters.\<close>

definition list_items :: "(pval \<Rightarrow> string) \<Rightarrow> pval \<Rightarrow> py_error + pval list" where
  "list_items str v = (if is_str v then Inr (map (\<lambda>c. PStr [c]) (text_of str v)) else iterate v)"

definition handoff_updates :: "(pval \<Rightarrow> string) \<Rightarrow> py_datetime \<Rightarrow> string \<Rightarrow> string \<Rightarrow> props \<Rightarrow> py_error + props" where
  "handoff_updates str now agent_id instructions p =
     bindE (list_items str (dict_get_default p ''state_history'' (PList []))) (\<lambda>history.
       Inr [(''state'', PStr ''IN_PROGRESS''), (''assigned_to'', PStr agent_id),
         (''state_history'', PList (history @ [handoff_entry now agent_id instructions p]))])"

record HandoffNode = BaseNode +
  handoff_task_id :: string
  from_owner :: "string option"
  to_owner :: string
  context_summary :: string
  context_refs :: "string list"
  transitioned_at :: py_datetime

definition HandoffNode_dump :: "HandoffNode \<Rightarrow> props" where
  "HandoffNode_dump x = [
     (''id'', PStr (node_id x)), (''created_at'', PTime (created_at x)),
     (''updated_at'', PTime (updated_at x)), (''version'', PInt (version x)),
     (''archived_at'', dump_opt PTime (archived_at x)), (''archived_by'', dump_opt PStr (archived_by x)),
     (''archive_reason'', dump_opt PStr (archive_reason x)), (''purge_after'', dump_opt PTime (purge_after x)),
     (''purge_cancelled_at'', dump_opt PTime (purge_cancelled_at x)), (''legal_hold'', PBool (legal_hold x)),
     (''hold_reason'', dump_opt PStr (hold_reason x)), (''hold_set_by'', dump_opt PStr (hold_set_by x)),
     (''hold_set_at'', dump_opt PTime (hold_set_at x)), (''link_status'', dump_opt PStr (link_status x)),
     (''task_id'', PStr (handoff_task_id x)), (''from_owner'', dump_opt PStr (from_owner x)),
     (''to_owner'', PStr (to_owner x)), (''context_summary'', PStr (context_summary x)),
     (''context_refs'', dump_list PStr (context_refs x)), (''transitioned_at'', PTime (transitioned_at x))]"

definition validate_handoff_id :: "string \<Rightarrow> bool" where
  "validate_handoff_id v \<longleftrightarrow> ID_PATTERN_match ''HND'' v"

definition new_HandoffNode ::
  "string \<Rightarrow> py_datetime \<Rightarrow> string \<Rightarrow> pval option \<Rightarrow> string \<Rightarrow> string \<Rightarrow> py_error + HandoffNode" where
  "new_HandoffNode hid now i prev agent_id instructions =
     (case (case prev of None \<Rightarrow> Some None | Some v \<Rightarrow> dec_opt dec_str v) of
        Some owner \<Rightarrow>
          if validate_handoff_id hid
          then Inr \<lparr>node_id = hid, created_at = now, updated_at = now, version = 0,
            archived_at = None, archived_by = None, archive_reason = None, purge_after = None,
            purge_cancelled_at = None, legal_hold = False, hold_reason = None, hold_set_by = None,
            hold_set_at = None, link_status = None, handoff_task_id = i, from_owner = owner,
            to_owner = agent_id,
            context_summary = strip (if instructions = [] then ''Delegation handoff'' else instructions),
            context_refs = [], transitioned_at = now\<rparr>
          else Inl (PyValueError ''HandoffNode'')
      | None \<Rightarrow> Inl (PyValueError ''HandoffNode''))"

definition store_handoff :: "'g tool_env \<Rightarrow> py_error + HandoffNode \<Rightarrow> string \<Rightarrow> ('g, props) op" where
  "store_handoff env node i = bindS (liftS node) (\<lambda>handoff.
     bindS (create_node (te_exec env) (te_store env) (OtherObj None ''HandoffNode'' (HandoffNode_dump handoff))
       (te_ctx env)) (\<lambda>_. create_edge (te_exec env) (node_id handoff) i ''REFERRED_BY'' []))"

definition record_handoff ::
  "'g tool_env \<Rightarrow> py_datetime \<Rightarrow> string \<Rightarrow> string \<Rightarrow> string \<Rightarrow> props \<Rightarrow> ('g, unit) tool" where
  "record_handoff env now i agent_id instructions p =
     (let prev = dict_get p ''assigned_to'' in
      if prev = Some (PStr agent_id) then returnS ()
      else bindS fresh (\<lambda>n. quietly (store_handoff env
        (new_HandoffNode (generate_id ''HND'' (te_uuid env n)) now i prev agent_id instructions) i)))"

definition delegation_note :: "'g handoff_env \<Rightarrow> py_datetime \<Rightarrow> string \<Rightarrow> string \<Rightarrow> string \<Rightarrow> props \<Rightarrow> string" where
  "delegation_note env now i instructions batch_id p =
     (let str = text_of (te_str (he_tools env)) in
      ''# Delegation: '' @ i @ [newline, newline] @
      ''- **Task:** '' @ str (dict_get_default p ''title'' (PStr ''Unknown'')) @ [newline] @
      ''- **Description:** '' @ str (dict_get_default p ''description'' (PStr [])) @ [newline] @
      ''- **Instructions:** '' @ instructions @ [newline] @
      ''- **Delegated at:** '' @ str (PTime now) @ [newline] @
      ''- **Delegated by:** orchestrator ('' @ he_agent_id env @ '')'' @ [newline] @
      ''- **Session:** '' @ (case he_session env of None \<Rightarrow> [] | Some s \<Rightarrow> s) @ [newline] @
      ''- **Batch:** '' @ batch_id @ [newline])"

definition write_note :: "string \<Rightarrow> string \<Rightarrow> string \<Rightarrow> bucket \<Rightarrow> bucket" where
  "write_note user_id path note fs = (case scoped_init user_id of
     Inl e \<Rightarrow> fs | Inr c \<Rightarrow> snd (scoped_write c path note fs))"

subsection \<open>Publishing the job\<close>

definition planned_batch :: "'g handoff_env \<Rightarrow> string \<Rightarrow> ('g, string) handing" where
  "planned_batch env i w =
     (case he_session env of
        Some (c # s) \<Rightarrow> (Inr (case find (\<lambda>e. fst e = PStr i) (hw_calls w) of
          Some e \<Rightarrow> snd e | None \<Rightarrow> tier_batch_id (c # s) 0), w)
      | _ \<Rightarrow> (let n = tw_uuids (hw_tools w) in
          (Inr (case find (\<lambda>e. fst e = PStr i) (hw_calls w) of
             Some e \<Rightarrow> snd e | None \<Rightarrow> tier_batch_id (te_uuid (he_tools env) n) 0),
           w\<lparr>hw_tools := (hw_tools w)\<lparr>tw_uuids := Suc n\<rparr>\<rparr>)))"

definition parent_arg :: "props \<Rightarrow> py_error + string option" where
  "parent_arg p = (case dict_get p ''parent_task_id'' of
     None \<Rightarrow> Inr None
   | Some v \<Rightarrow> (case dec_opt dec_str v of Some x \<Rightarrow> Inr x | None \<Rightarrow> Inl (PyValueError ''AgentJobEvent'')))"

definition publish_job :: "'g handoff_env \<Rightarrow> py_datetime \<Rightarrow> string \<Rightarrow> string \<Rightarrow> string \<Rightarrow> string \<Rightarrow> string
    \<Rightarrow> string \<Rightarrow> props \<Rightarrow> ('g, unit) handing" where
  "publish_job env now user_id i agent_id instructions src batch_id p =
     (if \<not> he_broker env then returnS ()
      else bindS (liftS (parent_arg p)) (\<lambda>parent w.
        let job = \<lparr>job_agent_id = agent_id, job_task_id = i,
              job_session_id = (case he_session env of None \<Rightarrow> [] | Some s \<Rightarrow> s), job_user_id = user_id,
              job_agent_source = src, job_parent_task_id = parent, job_batch_id = batch_id,
              job_instructions = instructions, job_dispatched_at = now\<rparr>
        in (Inr (), if he_up env
          then w\<lparr>hw_pool := (hw_pool w)\<lparr>agent_jobs := agent_jobs (hw_pool w) @ [JobMessage job]\<rparr>\<rparr>
          else w)))"

subsection \<open>The tool\<close>

definition hand_over :: "'g handoff_env \<Rightarrow> (string set \<Rightarrow> string list) \<Rightarrow> py_datetime \<Rightarrow> string \<Rightarrow> string \<Rightarrow> string
    \<Rightarrow> string \<Rightarrow> string \<Rightarrow> props \<Rightarrow> ('g, handoff_reply) handing" where
  "hand_over env as_list now user_id i agent_id instructions src p =
     (let tools = he_tools env in
      bindS (liftS (handoff_updates (te_str tools) now agent_id instructions p)) (\<lambda>updates.
      bindS (on_tools (on_store (update_node (te_exec tools) (te_store tools) i updates (te_ctx tools)))) (\<lambda>_.
      bindS (on_tools (record_handoff tools now i agent_id instructions p)) (\<lambda>_.
      bindS (on_tools (on_scores (invalidate_score_cache_for_task (orc_of tools) as_list i False))) (\<lambda>_.
      bindS (on_tools (invalidate_queue user_id {i})) (\<lambda>_.
      bindS (planned_batch env i) (\<lambda>batch_id.
      bindS (if he_storage env
             then bindS (liftS (raising (agent_memory_working user_id agent_id))) (\<lambda>path w.
               (Inr (), w\<lparr>hw_bucket := write_note user_id path
                  (delegation_note env now i instructions batch_id p) (hw_bucket w)\<rparr>))
             else returnS ()) (\<lambda>_.
      bindS (publish_job env now user_id i agent_id instructions src batch_id p) (\<lambda>_.
        returnS (Delegated [(''status'', PStr ''delegated''), (''task_id'', PStr i),
          (''agent_id'', PStr agent_id), (''task_state'', PStr ''IN_PROGRESS''),
          (''batch_id'', PStr batch_id), (''message'', PStr (''Task delegated to agent '' @ quoted agent_id @
            '' (batch: '' @ batch_id @ '').''))]))))))))))"

definition tool_delegate_to_agent :: "'g handoff_env \<Rightarrow> (string set \<Rightarrow> string list) \<Rightarrow> py_datetime \<Rightarrow> string
    \<Rightarrow> props \<Rightarrow> ('g, handoff_reply) handing" where
  "tool_delegate_to_agent env as_list now user_id args =
     (let tools = he_tools env in
      bindS (liftS (text_arg ''task_id'' (dict_get args ''task_id''))) (\<lambda>i.
      bindS (liftS (text_arg ''agent_id'' (dict_get args ''agent_id''))) (\<lambda>agent_id.
      bindS (liftS (text_arg ''instructions'' (Some (dict_get_default args ''instructions'' (PStr []))))) (\<lambda>instructions.
      bindS (\<lambda>w. (target_allowed (load_agent_config env user_id (he_agent_id env) (hw_bucket w)) agent_id, w)) (\<lambda>allowed.
      if \<not> allowed then returnS (TargetNotAllowed agent_id)
      else bindS (on_tools (on_store (get_node (te_exec tools) (te_store tools) i False (te_ctx tools)))) (\<lambda>found.
        if found = None \<or> found = Some [] then returnS (TaskNotFound i)
        else bindS (\<lambda>w. (agent_source env agent_id (hw_bucket w), w)) (\<lambda>src.
        bindS (\<lambda>w. (agent_exists env user_id agent_id src (hw_bucket w), w)) (\<lambda>known.
        if \<not> known then returnS (AgentNotFound agent_id)
        else hand_over env as_list now user_id i agent_id instructions src (the found)))))))))"

subsection \<open>One answer of the model\<close>

definition job_stub :: "py_datetime \<Rightarrow> string \<Rightarrow> string \<Rightarrow> props \<Rightarrow> py_error + AgentJobEvent" where
  "job_stub now session_id user_id args =
     bindE (text_arg ''agent_id'' (Some (dict_get_default args ''agent_id'' (PStr [])))) (\<lambda>agent.
     bindE (text_arg ''task_id'' (Some (dict_get_default args ''task_id'' (PStr [])))) (\<lambda>task.
     bindE (text_arg ''instructions'' (Some (dict_get_default args ''instructions'' (PStr [])))) (\<lambda>instructions.
       Inr \<lparr>job_agent_id = agent, job_task_id = task, job_session_id = session_id, job_user_id = user_id,
         job_agent_source = ''user'', job_parent_task_id = None, job_batch_id = [],
         job_instructions = instructions, job_dispatched_at = now\<rparr>)))"

fun job_stubs :: "py_datetime \<Rightarrow> string \<Rightarrow> string \<Rightarrow> props list \<Rightarrow> py_error + AgentJobEvent list" where
  "job_stubs now session_id user_id [] = Inr []"
| "job_stubs now session_id user_id (args # rest) =
     bindE (job_stub now session_id user_id args) (\<lambda>job.
     bindE (job_stubs now session_id user_id rest) (\<lambda>jobs. Inr (job # jobs)))"

definition planner_raises :: "planner_error + 'a \<Rightarrow> py_error + 'a" where
  "planner_raises r = (case r of Inl (PlannerKeyError k) \<Rightarrow> Inl (PyKeyError k) | Inr a \<Rightarrow> Inr a)"

definition batch_lookup :: "AgentJobEvent list list \<Rightarrow> string pydict" where
  "batch_lookup tiers = foldl (\<lambda>d job. dict_set (job_task_id job) (job_batch_id job) d) [] (concat tiers)"

definition task_arg :: "props \<Rightarrow> pval" where
  "task_arg args = dict_get_default args ''task_id'' (PStr [])"

definition planned_calls :: "string \<Rightarrow> string pydict \<Rightarrow> props list \<Rightarrow> (pval \<times> string) list" where
  "planned_calls session_id batches calls = map (\<lambda>args. (task_arg args,
     case task_arg args of PStr i \<Rightarrow> dict_get_default batches i (tier_batch_id session_id 0)
     | _ \<Rightarrow> tier_batch_id session_id 0)) calls"

definition pre_plan_delegation_turn :: "'g handoff_env \<Rightarrow> (string set \<Rightarrow> string list) \<Rightarrow> 'e edge_query \<Rightarrow>
    py_datetime \<Rightarrow> string \<Rightarrow> string \<Rightarrow> props list \<Rightarrow> ('g, unit) handing" where
  "pre_plan_delegation_turn env as_list qe now user_id session_id calls =
     (if calls = [] then returnS ()
      else if \<not> he_planner env
      then (\<lambda>w. (Inr (), w\<lparr>hw_calls := map (\<lambda>args. (task_arg args, tier_batch_id session_id 0)) calls\<rparr>))
      else bindS (liftS (job_stubs now session_id user_id calls)) (\<lambda>jobs.
        bindS (liftS (planner_raises (plan as_list qe jobs session_id))) (\<lambda>tiers w.
          (Inr (), w\<lparr>hw_pool := (hw_pool w)\<lparr>batch_states :=
               register_dispatch_plan tiers session_id (batch_states (hw_pool w))\<rparr>,
             hw_calls := planned_calls session_id (batch_lookup tiers) calls\<rparr>))))"

text \<open>\<open>_execute_tool\<close> turns an exception into an answer; the calls of a turn run one after the other.\<close>

definition execute_delegation :: "'g handoff_env \<Rightarrow> (string set \<Rightarrow> string list) \<Rightarrow> py_datetime \<Rightarrow> string
    \<Rightarrow> props \<Rightarrow> 'g handoff_world \<Rightarrow> handoff_reply \<times> 'g handoff_world" where
  "execute_delegation env as_list now user_id args w =
     (case tool_delegate_to_agent env as_list now user_id args w of
        (Inl e, w') \<Rightarrow> (ToolRaised e, w') | (Inr a, w') \<Rightarrow> (a, w'))"

fun execute_calls :: "'g handoff_env \<Rightarrow> (string set \<Rightarrow> string list) \<Rightarrow> py_datetime \<Rightarrow> string
    \<Rightarrow> props list \<Rightarrow> 'g handoff_world \<Rightarrow> handoff_reply list \<times> 'g handoff_world" where
  "execute_calls env as_list now user_id [] w = ([], w)"
| "execute_calls env as_list now user_id (args # rest) w =
     (let (a, w') = execute_delegation env as_list now user_id args w;
          (answers, w'') = execute_calls env as_list now user_id rest w'
      in (a # answers, w''))"

definition delegation_turn :: "'g handoff_env \<Rightarrow> (string set \<Rightarrow> string list) \<Rightarrow> 'e edge_query \<Rightarrow> py_datetime \<Rightarrow>
    string \<Rightarrow> string \<Rightarrow> props list \<Rightarrow> ('g, handoff_reply list) handing" where
  "delegation_turn env as_list qe now user_id session_id calls w =
     (case pre_plan_delegation_turn env as_list qe now user_id session_id calls (w\<lparr>hw_calls := []\<rparr>) of
        (Inl e, w') \<Rightarrow> (Inl e, w')
      | (Inr _, w') \<Rightarrow> (case execute_calls env as_list now user_id calls w' of
          (answers, w'') \<Rightarrow> (Inr answers, w''\<lparr>hw_calls := []\<rparr>)))"

subsection \<open>What a delegation leaves in the graph\<close>

lemma HandoffNode_dump_facts:
  "dict_ok (HandoffNode_dump x)" "dict_get (HandoffNode_dump x) ''id'' = Some (PStr (node_id x))"
  by (simp_all add: HandoffNode_dump_def dict_ok_def dict_simps)

lemma new_HandoffNode_id: "new_HandoffNode hid now i prev a ins = Inr x \<Longrightarrow> node_id x = hid"
  by (auto simp: new_HandoffNode_def split: option.splits if_splits)

definition handoff_id :: "'g tool_env \<Rightarrow> 'g tool_world \<Rightarrow> string" where
  "handoff_id env w = generate_id ''HND'' (te_uuid env (tw_uuids w))"

lemma store_handoff_touches:
  assumes "linking_service (te_exec env)" "store_handoff env node i s = (r, s')"
    and "\<And>x. node = Inr x \<Longrightarrow> node_id x = hid"
  shows "touches (te_exec env) {hid} s s'"
proof (cases node)
  case (Inl e)
  then show ?thesis using assms(2) by (simp add: store_handoff_def bindS_unfold)
next
  case (Inr x)
  obtain q s1 where c: "create_node (te_exec env) (te_store env)
      (OtherObj None ''HandoffNode'' (HandoffNode_dump x)) (te_ctx env) s = (q, s1)" by fastforce
  have "touches (te_exec env) {hid} s s1"
    using linking_service.create_node_touches(1) [OF assms(1) c] HandoffNode_dump_facts assms(3) [OF Inr]
    by simp
  moreover have "touches (te_exec env) {} s1 s'" if "q = Inr a" for a
    using linking_service.create_edge_touches [OF assms(1)] assms(2) c that
    by (auto simp: store_handoff_def Inr bindS_unfold)
  moreover have "s' = s1" if "q = Inl e" for e
    using assms(2) c that by (simp add: store_handoff_def Inr bindS_unfold)
  ultimately show ?thesis by (cases q) (auto simp: touches_def)
qed

lemma record_handoff_run:
  assumes "linking_service (te_exec env)" "record_handoff env now i a ins p w = (r, w')"
  shows "r = Inr () \<and> twt (te_exec env) {handoff_id env w} w w'"
proof (cases "dict_get p ''assigned_to'' = Some (PStr a)")
  case True
  then show ?thesis using assms(2) by (simp add: record_handoff_def)
next
  case False
  let ?node = "new_HandoffNode (handoff_id env w) now i (dict_get p ''assigned_to'') a ins"
  obtain q s' where st: "store_handoff env ?node i (tw_session w) = (q, s')" by fastforce
  have "touches (te_exec env) {handoff_id env w} (tw_session w) s'"
    by (rule store_handoff_touches [OF assms(1) st]) (rule new_HandoffNode_id)
  with st False assms(2) show ?thesis
    by (auto simp: record_handoff_def bindS_unfold fresh_def quietly_def handoff_id_def twt_def)
qed

lemma handoff_updates_shape:
  assumes "handoff_updates str now a ins p = Inr upd"
  obtains history where "list_items str (dict_get_default p ''state_history'' (PList [])) = Inr history"
    "upd = [(''state'', PStr ''IN_PROGRESS''), (''assigned_to'', PStr a),
       (''state_history'', PList (history @ [handoff_entry now a ins p]))]"
  using assms by (auto simp: handoff_updates_def bindE_Inr_iff)

lemma handoff_updates_plain:
  assumes "handoff_updates str now a ins p = Inr upd"
  shows "forbidden_fields upd = []" "keeps_id i (set_lits upd)" "upd \<noteq> []" "dict_ok upd"
  by (rule handoff_updates_shape [OF assms];
    simp add: forbidden_fields_def LIFECYCLE_FIELDS_def dict_keys_def keeps_id_def set_lits_def dict_ok_def)+

text \<open>The state after the update and the handoff record, from which the rest of the tool goes on.\<close>

lemma hand_over_writes:
  assumes "linking_service (te_exec env)" "require_caller_context (te_store env) (te_ctx env) = Inr ()"
    and "fetch (te_exec env) (graph (tw_session w)) i = Some p" "handoff_updates str now a ins p = Inr upd"
    and "handoff_id env w \<noteq> i"
  obtains v w1 w2 where
    "on_store (update_node (te_exec env) (te_store env) i upd (te_ctx env)) w = (Inr v, w1)"
    "record_handoff env now i a ins p w1 = (Inr (), w2)"
    "fetch (te_exec env) (graph (tw_session w2)) i = Some (set_props (set_lits upd) p)"
    "\<And>j. j \<noteq> i \<Longrightarrow> j \<noteq> handoff_id env w \<Longrightarrow>
       fetch (te_exec env) (graph (tw_session w2)) j = fetch (te_exec env) (graph (tw_session w)) j"
proof -
  note c = assms(1) [unfolded linking_service_def creating_service_def]
  have cy: "cypher_service (te_exec env)" using c by blast
  note plain = handoff_updates_plain [OF assms(4)]
  obtain r s where run: "update_node (te_exec env) (te_store env) i upd (te_ctx env) (tw_session w) = (r, s)" by fastforce
  have "\<exists>v. r = Inr v"
    using cypher_service.update_node_writes [OF cy assms(2) plain(3), of i "tw_session w"] plain(1) run by simp
  then obtain v where v: "r = Inr v" by blast
  with run have "graph s = snd (te_exec env (MatchIdSet i (set_lits upd)) (graph (tw_session w)))"
    by (cases rule: cypher_service.update_node_cases [OF cy run, case_names refused written]) auto
  then have f: "fetch (te_exec env) (graph s) j =
      (if j = i then Some (set_props (set_lits upd) p) else fetch (te_exec env) (graph (tw_session w)) j)" for j
    using cypher_service.fetch_set [OF cy plain(2)] assms(3) by simp
  let ?w1 = "w\<lparr>tw_session := s\<rparr>"
  obtain q w2 where rec: "record_handoff env now i a ins p ?w1 = (q, w2)" by fastforce
  have "handoff_id env ?w1 = handoff_id env w" by (simp add: handoff_id_def)
  with record_handoff_run [OF assms(1) rec] have
    "q = Inr ()" "\<And>j. j \<noteq> handoff_id env w \<Longrightarrow> fetch (te_exec env) (graph (tw_session w2)) j = fetch (te_exec env) (graph s) j"
    by (auto simp: twt_def touches_def)
  with f rec assms(5) show ?thesis
    by (intro that [of v ?w1 w2]) (simp_all add: on_store_def run v)
qed

lemma scores_off:
  obtains w' where "on_scores (invalidate_score_cache_for_task cfg as_list i False) w = (Inr (), w')"
    "tw_session w' = tw_session w"
proof -
  have "fst (on_scores (invalidate_score_cache_for_task cfg as_list i False) w) = Inr () \<and>
      tw_session (snd (on_scores (invalidate_score_cache_for_task cfg as_list i False) w)) = tw_session w"
    by (simp add: on_scores_def invalidate_score_cache_for_task_def Let_def)
  then show ?thesis using that by (metis prod.collapse)
qed

lemma planned_batch_run:
  obtains b w' where "planned_batch env i w = (Inr b, w')" "tw_session (hw_tools w') = tw_session (hw_tools w)"
    "hw_pool w' = hw_pool w" "hw_calls w' = hw_calls w"
    "\<And>e. find (\<lambda>e. fst e = PStr i) (hw_calls w) = Some e \<Longrightarrow> b = snd e"
proof -
  have "\<exists>b w'. planned_batch env i w = (Inr b, w') \<and> tw_session (hw_tools w') = tw_session (hw_tools w) \<and>
    hw_pool w' = hw_pool w \<and> hw_calls w' = hw_calls w \<and>
    (\<forall>e. find (\<lambda>e. fst e = PStr i) (hw_calls w) = Some e \<longrightarrow> b = snd e)"
    by (auto simp: planned_batch_def Let_def split: option.split list.split)
  then show ?thesis using that by blast
qed

definition delegated_job :: "'g handoff_env \<Rightarrow> py_datetime \<Rightarrow> string \<Rightarrow> string \<Rightarrow> string \<Rightarrow> string \<Rightarrow> string
    \<Rightarrow> string option \<Rightarrow> string \<Rightarrow> AgentJobEvent" where
  "delegated_job env now user_id i agent_id instructions src parent b = \<lparr>job_agent_id = agent_id,
     job_task_id = i, job_session_id = (case he_session env of None \<Rightarrow> [] | Some s \<Rightarrow> s),
     job_user_id = user_id, job_agent_source = src, job_parent_task_id = parent, job_batch_id = b,
     job_instructions = instructions, job_dispatched_at = now\<rparr>"

lemma publish_job_run:
  assumes "publish_job env now u i a ins src b p w = (r, w')"
  shows "hw_tools w' = hw_tools w" "hw_calls w' = hw_calls w"
    "he_broker env \<Longrightarrow> he_up env \<Longrightarrow> parent_arg p = Inr parent \<Longrightarrow> r = Inr () \<and>
       hw_pool w' = (hw_pool w)\<lparr>agent_jobs := agent_jobs (hw_pool w) @
         [JobMessage (delegated_job env now u i a ins src parent b)]\<rparr>"
  using assms by (auto simp: publish_job_def bindS_unfold Let_def delegated_job_def split: if_splits sum.splits)

lemma hand_over_run:
  assumes "linking_service (te_exec (he_tools env))"
    and "require_caller_context (te_store (he_tools env)) (te_ctx (he_tools env)) = Inr ()"
    and "fetch (te_exec (he_tools env)) (graph (tw_session (hw_tools w))) i = Some p"
    and "handoff_updates (te_str (he_tools env)) now a ins p = Inr upd"
    and "handoff_id (he_tools env) (hw_tools w) \<noteq> i"
    and "hand_over env as_list now u i a ins src p w = (r, w')"
  shows "fetch (te_exec (he_tools env)) (graph (tw_session (hw_tools w'))) i = Some (set_props (set_lits upd) p)"
    and "j \<noteq> i \<Longrightarrow> j \<noteq> handoff_id (he_tools env) (hw_tools w) \<Longrightarrow>
      fetch (te_exec (he_tools env)) (graph (tw_session (hw_tools w'))) j =
        fetch (te_exec (he_tools env)) (graph (tw_session (hw_tools w))) j"
    and "hw_calls w' = hw_calls w"
    and "\<not> he_storage env \<Longrightarrow> he_broker env \<Longrightarrow> he_up env \<Longrightarrow> parent_arg p = Inr parent \<Longrightarrow>
      (\<exists>ans. r = Inr (Delegated ans)) \<and>
      (\<exists>b. hw_pool w' = (hw_pool w)\<lparr>agent_jobs := agent_jobs (hw_pool w) @
         [JobMessage (delegated_job env now u i a ins src parent b)]\<rparr> \<and>
       (\<forall>e. find (\<lambda>e. fst e = PStr i) (hw_calls w) = Some e \<longrightarrow> b = snd e))"
proof -
  let ?t = "he_tools env"
  obtain v w1 w2 where wr:
    "on_store (update_node (te_exec ?t) (te_store ?t) i upd (te_ctx ?t)) (hw_tools w) = (Inr v, w1)"
    "record_handoff ?t now i a ins p w1 = (Inr (), w2)"
    "fetch (te_exec ?t) (graph (tw_session w2)) i = Some (set_props (set_lits upd) p)"
    "\<And>j. j \<noteq> i \<Longrightarrow> j \<noteq> handoff_id ?t (hw_tools w) \<Longrightarrow>
       fetch (te_exec ?t) (graph (tw_session w2)) j = fetch (te_exec ?t) (graph (tw_session (hw_tools w))) j"
    using hand_over_writes [OF assms(1-5)] by blast
  obtain w3 where sc: "on_scores (invalidate_score_cache_for_task (orc_of ?t) as_list i False) w2 = (Inr (), w3)"
    "tw_session w3 = tw_session w2" by (rule scores_off)
  define w4 where "w4 = w3\<lparr>tw_orc := invalidate_cached_queue (Some u) {i} (tw_orc w3)\<rparr>"
  obtain b w5 where pb: "planned_batch env i (w\<lparr>hw_tools := w4\<rparr>) = (Inr b, w5)"
    "tw_session (hw_tools w5) = tw_session w4" "hw_pool w5 = hw_pool w" "hw_calls w5 = hw_calls w"
    "\<And>e. find (\<lambda>e. fst e = PStr i) (hw_calls w) = Some e \<Longrightarrow> b = snd e"
    by (rule planned_batch_run [of env i "w\<lparr>hw_tools := w4\<rparr>"]) simp
  let ?note = "if he_storage env
     then bindS (liftS (raising (agent_memory_working u a))) (\<lambda>path w.
       (Inr (), w\<lparr>hw_bucket := write_note u path (delegation_note env now i ins b p) (hw_bucket w)\<rparr>))
     else returnS ()"
  obtain q w6 where nt: "?note w5 = (q, w6)" by fastforce
  then have n: "hw_tools w6 = hw_tools w5" "hw_pool w6 = hw_pool w5" "hw_calls w6 = hw_calls w5"
    "\<not> he_storage env \<Longrightarrow> q = Inr ()"
    by (auto simp: bindS_unfold split: if_splits sum.splits)
  obtain q2 w7 where pj: "publish_job env now u i a ins src b p w6 = (q2, w7)" by fastforce
  note pub = publish_job_run [OF pj]
  have run: "hand_over env as_list now u i a ins src p w = (case q of Inl e \<Rightarrow> (Inl e, w6) | Inr _ \<Rightarrow>
      (case q2 of Inl e \<Rightarrow> (Inl e, w7) | Inr _ \<Rightarrow> (Inr (Delegated [(''status'', PStr ''delegated''), (''task_id'', PStr i),
          (''agent_id'', PStr a), (''task_state'', PStr ''IN_PROGRESS''),
          (''batch_id'', PStr b), (''message'', PStr (''Task delegated to agent '' @ quoted a @
            '' (batch: '' @ b @ '').''))]), w7)))"
    using nt pj
    by (simp add: hand_over_def Let_def bindS_unfold assms(4) on_tools_def wr(1,2) sc(1) invalidate_queue_def
        pb(1) flip: w4_def split: sum.split)
  have sess: "tw_session (hw_tools w6) = tw_session w2" using n(1) pb(2) sc(2) by (simp add: w4_def)
  have w': "hw_tools w' = hw_tools w6 \<and> hw_calls w' = hw_calls w"
    using assms(6) run pub(1,2) n(3) pb(4) by (auto split: sum.splits)
  show "fetch (te_exec ?t) (graph (tw_session (hw_tools w'))) i = Some (set_props (set_lits upd) p)"
    using w' sess wr(3) by simp
  show "j \<noteq> i \<Longrightarrow> j \<noteq> handoff_id ?t (hw_tools w) \<Longrightarrow>
      fetch (te_exec ?t) (graph (tw_session (hw_tools w'))) j = fetch (te_exec ?t) (graph (tw_session (hw_tools w))) j"
    using w' sess wr(4) by simp
  show "hw_calls w' = hw_calls w" using w' by blast
  show "(\<exists>ans. r = Inr (Delegated ans)) \<and>
      (\<exists>b. hw_pool w' = (hw_pool w)\<lparr>agent_jobs := agent_jobs (hw_pool w) @
         [JobMessage (delegated_job env now u i a ins src parent b)]\<rparr> \<and>
       (\<forall>e. find (\<lambda>e. fst e = PStr i) (hw_calls w) = Some e \<longrightarrow> b = snd e))"
    if "\<not> he_storage env" "he_broker env" "he_up env" "parent_arg p = Inr parent"
    using assms(6) run pub(3) [OF that(2-4)] n(2,4) that(1) pb(3,5) by auto
qed

subsection \<open>The task after a delegation\<close>

definition handed_task :: "py_datetime \<Rightarrow> string \<Rightarrow> string \<Rightarrow> TaskNode \<Rightarrow> TaskNode" where
  "handed_task now agent_id instructions t = t\<lparr>state := TaskState.IN_PROGRESS, assigned_to := Some agent_id,
     state_history := state_history t @ [\<lparr>from_state = state t, to_state = TaskState.IN_PROGRESS,
       changed_at = now, changed_by = ChangedBy.AGENT, reason = Some (handoff_reason agent_id instructions)\<rparr>]\<rparr>"

text \<open>The history of a row as the store writes it: a list.\<close>

definition listed_history :: "props \<Rightarrow> bool" where
  "listed_history p \<longleftrightarrow> (case dict_get p ''state_history'' of
     None \<Rightarrow> True | Some (PList _) \<Rightarrow> True | Some _ \<Rightarrow> False)"

lemma task_validate_handed:
  assumes "task_validate g = Some t"
    and "\<And>k. k \<notin> {''state'', ''assigned_to'', ''state_history''} \<Longrightarrow> h k = g k"
    and "dfl h ''state'' TaskState.PENDING dec_state = Some a" "dfl h ''assigned_to'' None (dec_opt dec_str) = Some b"
    and "dfl h ''state_history'' [] (dec_list StateHistoryEntry_validate) = Some c"
  shows "task_validate h = Some (t\<lparr>state := a, assigned_to := b, state_history := c\<rparr>)"
proof -
  have r: "req h k dec = req g k dec" "dfl h k v dec' = dfl g k v dec'"
    if "k \<notin> {''state'', ''assigned_to'', ''state_history''}" for k dec v dec'
    using assms(2) [OF that] by (simp_all add: req_def dfl_def)
  show ?thesis
    using assms(1) unfolding task_validate_def bind_eq_Some_conv
    by (elim exE conjE) (simp add: r assms(3-5), drule sym, simp)
qed

lemma task_validate_state_parts:
  assumes "task_validate g = Some t"
  shows "dfl g ''state'' TaskState.PENDING dec_state = Some (state t)"
    "dfl g ''state_history'' [] (dec_list StateHistoryEntry_validate) = Some (state_history t)"
proof -
  have "dfl g ''state'' TaskState.PENDING dec_state = Some (state t) \<and>
    dfl g ''state_history'' [] (dec_list StateHistoryEntry_validate) = Some (state_history t)"
    using assms unfolding task_validate_def bind_eq_Some_conv
    by (elim exE conjE) (drule option.inject [THEN iffD1], hypsubst, simp)
  then show "dfl g ''state'' TaskState.PENDING dec_state = Some (state t)"
    "dfl g ''state_history'' [] (dec_list StateHistoryEntry_validate) = Some (state_history t)" by simp_all
qed

lemma StateHistoryEntry_dict: "StateHistoryEntry_validate v = Some e \<Longrightarrow> \<exists>d. v = PDict d"
  by (cases v) simp_all

lemma decode_item_stored:
  "decode_item loads v = PDict d \<Longrightarrow> decode_item loads (stored v) = PDict d"
  by (cases v) (auto simp: decode_item_def)

lemma those_snoc: "those (xs @ [y]) = (case those xs of None \<Rightarrow> None | Some zs \<Rightarrow> map_option (\<lambda>z. zs @ [z]) y)"
  by (cases y; induction xs) (auto split: option.splits)

lemma stored_history_decodes:
  "those (map (\<lambda>v. StateHistoryEntry_validate (decode_item loads v)) vs) = Some es \<Longrightarrow>
     those (map (\<lambda>v. StateHistoryEntry_validate (decode_item loads (stored v))) vs) = Some es"
proof (induction vs arbitrary: es)
  case (Cons v vs)
  from Cons.prems obtain e es' where e: "StateHistoryEntry_validate (decode_item loads v) = Some e"
    "those (map (\<lambda>v. StateHistoryEntry_validate (decode_item loads v)) vs) = Some es'" "es = e # es'"
    by (auto split: option.splits)
  from StateHistoryEntry_dict [OF e(1)] decode_item_stored [of loads v] Cons.IH [OF e(2)] e(1,3)
  show ?case by auto
qed simp

lemma handoff_entry_validates:
  assumes "dfl (dict_get p) ''state'' TaskState.PENDING dec_state = Some s"
  shows "StateHistoryEntry_validate (handoff_entry now a ins p) =
    Some \<lparr>from_state = s, to_state = TaskState.IN_PROGRESS, changed_at = now, changed_by = ChangedBy.AGENT,
      reason = Some (handoff_reason a ins)\<rparr>"
proof -
  have "dec_state (dict_get_default p ''state'' (PStr ''PENDING'')) = Some s"
    using assms by (auto simp: dfl_def dict_get_default_def split: option.splits) code_simp
  moreover have "dec_state (PStr ''IN_PROGRESS'') = Some TaskState.IN_PROGRESS"
    "dec_changed_by (PStr ''AGENT'') = Some ChangedBy.AGENT" by code_simp+
  ultimately show ?thesis
    by (simp add: handoff_entry_def req_def dfl_def dict_simps dec_opt_def)
qed

lemma handed_row_loads:
  assumes "handoff_updates str now a ins p = Inr upd" "load_task loads p = Some t" "listed_history p"
  shows "load_task loads (set_props (set_lits upd) p) = Some (handed_task now a ins t)"
proof -
  define g where "g = dict_get (deserialize_task_node_props loads p)"
  define h where "h = dict_get (deserialize_task_node_props loads (set_props (set_lits upd) p))"
  have g: "task_validate g = Some t" using assms(2) by (simp add: load_task_def g_def)
  note part = task_validate_parts(3) [OF g] task_validate_state_parts [OF g]
  obtain vs where vs: "dict_get_default p ''state_history'' (PList []) = PList vs"
    "dict_get p ''state_history'' = None \<and> vs = [] \<or> dict_get p ''state_history'' = Some (PList vs)"
    using assms(3) by (auto simp: listed_history_def dict_get_default_def split: option.splits pval.splits)
  have upd: "upd = [(''state'', PStr ''IN_PROGRESS''), (''assigned_to'', PStr a),
      (''state_history'', PList (vs @ [handoff_entry now a ins p]))]"
    using assms(1) vs(1) by (auto simp: handoff_updates_def list_items_def)
  have ok: "dict_ok upd" by (simp add: upd dict_ok_def)
  have hk: "h k = (case dict_get upd k of None \<Rightarrow> g k
      | Some v \<Rightarrow> if v = PNone then None else Some (decode_key loads k (stored v)))" for k
    by (simp add: g_def h_def dict_get_deserialize dict_get_set_props ok dict_get_set_lits stored_def split: option.split)
  have s: "dfl (dict_get p) ''state'' TaskState.PENDING dec_state = Some (state t)"
    using part(2) by (simp add: dfl_def g_def dict_get_deserialize decode_key_plain split: option.splits)
  have old: "those (map (\<lambda>v. StateHistoryEntry_validate (decode_item loads v)) vs) = Some (state_history t)"
    using part(3) vs(2) by (auto simp: dfl_def g_def dict_get_deserialize decode_keys decode_list_field_def o_def)
  have "stored (handoff_entry now a ins p) = PJson (handoff_entry now a ins p)" by (simp add: handoff_entry_def)
  then have new: "decode_item loads (stored (handoff_entry now a ins p)) = handoff_entry now a ins p"
    by (simp add: decode_item_def)
  have "task_validate h = Some (t\<lparr>state := TaskState.IN_PROGRESS, assigned_to := Some a,
     state_history := state_history t @ [\<lparr>from_state = state t, to_state = TaskState.IN_PROGRESS,
       changed_at = now, changed_by = ChangedBy.AGENT, reason = Some (handoff_reason a ins)\<rparr>]\<rparr>)"
  proof (rule task_validate_handed [OF g])
    fix k assume "k \<notin> {''state'', ''assigned_to'', ''state_history''}"
    then show "h k = g k" by (auto simp: hk upd dict_simps)
  next
    have "dec_state (PStr ''IN_PROGRESS'') = Some TaskState.IN_PROGRESS" by code_simp
    then show "dfl h ''state'' TaskState.PENDING dec_state = Some TaskState.IN_PROGRESS"
      by (simp add: dfl_def hk upd dict_simps decode_key_plain)
    show "dfl h ''assigned_to'' None (dec_opt dec_str) = Some (Some a)"
      by (simp add: dfl_def hk upd dict_simps decode_key_plain dec_opt_def)
    show "dfl h ''state_history'' [] (dec_list StateHistoryEntry_validate) =
        Some (state_history t @ [\<lparr>from_state = state t, to_state = TaskState.IN_PROGRESS,
          changed_at = now, changed_by = ChangedBy.AGENT, reason = Some (handoff_reason a ins)\<rparr>])"
      using stored_history_decodes [OF old] handoff_entry_validates [OF s, of now a ins]
      by (simp add: dfl_def hk upd dict_simps decode_keys decode_list_field_def o_def new those_snoc)
  qed
  then show ?thesis by (simp add: load_task_def handed_task_def h_def)
qed

lemma handed_task_unreachable:
  assumes "state t \<notin> {TaskState.ACTIVE, TaskState.DELAYED, TaskState.NEEDS_REVIEW}"
  shows "\<not> reachable (handed_task now a ins t)"
proof
  assume "reachable (handed_task now a ins t)"
  from audit.reachable_inv [OF this] have "legal_move (state t) TaskState.IN_PROGRESS"
    by (simp add: audit_ok_def handed_task_def)
  then show False using assms by (cases "state t") (simp_all add: legal_move_def)
qed

text \<open>
  Claim C39: a delegation rewrites the task. When \<open>delegate_to_agent\<close> answers that a readable task is
  delegated, the row of the task loads as the same task in state \<open>IN_PROGRESS\<close>, assigned to the
  agent, with one more entry in its history, whatever state it was in; no other row changes than
  that of the handoff record. The state machine is not asked: from any state but \<open>ACTIVE\<close>, \<open>DELAYED\<close>
  and \<open>NEEDS_REVIEW\<close>, a fresh task and a completed one included, the result is a task no run of the
  machine can reach.
\<close>

theorem handoff_effect:
  assumes "linking_service (te_exec (he_tools env))"
    and "require_caller_context (te_store (he_tools env)) (te_ctx (he_tools env)) = Inr ()"
    and "dict_get args ''task_id'' = Some (PStr i)" "dict_get args ''agent_id'' = Some (PStr a)"
    and "dict_get args ''instructions'' = Some (PStr ins)"
    and "fetch (te_exec (he_tools env)) (graph (tw_session (hw_tools w))) i = Some p" "listed_history p"
    and "load_task (te_loads (he_tools env)) p = Some t" "handoff_id (he_tools env) (hw_tools w) \<noteq> i"
    and "tool_delegate_to_agent env as_list now u args w = (Inr (Delegated ans), w')"
  shows "\<exists>p'. fetch (te_exec (he_tools env)) (graph (tw_session (hw_tools w'))) i = Some p' \<and>
    load_task (te_loads (he_tools env)) p' = Some (handed_task now a ins t) \<and>
    (\<forall>j. j \<noteq> i \<and> j \<noteq> handoff_id (he_tools env) (hw_tools w) \<longrightarrow>
      fetch (te_exec (he_tools env)) (graph (tw_session (hw_tools w'))) j =
        fetch (te_exec (he_tools env)) (graph (tw_session (hw_tools w))) j) \<and>
    (state t \<notin> {TaskState.ACTIVE, TaskState.DELAYED, TaskState.NEEDS_REVIEW} \<longrightarrow>
      \<not> reachable (handed_task now a ins t))"
proof -
  let ?t = "he_tools env"
  have cy: "cypher_service (te_exec ?t)" using assms(1) by (simp add: linking_service_def creating_service_def)
  have get: "get_node (te_exec ?t) (te_store ?t) i False (te_ctx ?t) (tw_session (hw_tools w)) =
      (Inr (visible False (Some p)), tw_session (hw_tools w))"
    using assms(2,6) by (simp add: cypher_service.get_node_eq [OF cy])
  have on: "on_tools (on_store (get_node (te_exec ?t) (te_store ?t) i False (te_ctx ?t))) w = (Inr (visible False (Some p)), w)"
    by (simp add: on_tools_def on_store_def get)
  obtain src where run: "hand_over env as_list now u i a ins src p w = (Inr (Delegated ans), w')"
    using assms(10) on
    by (auto simp: tool_delegate_to_agent_def Let_def bindS_unfold assms(3-5) text_arg_def dict_get_default_def visible_def
        split: sum.splits if_splits)
  obtain upd where upd: "handoff_updates (te_str ?t) now a ins p = Inr upd"
    using assms(7) by (auto simp: handoff_updates_def listed_history_def list_items_def dict_get_default_def bindE_def
      split: option.splits pval.splits)
  note r = hand_over_run [OF assms(1,2,6) upd assms(9) run]
  show ?thesis using r(1,2) handed_row_loads [OF upd assms(8,7)] handed_task_unreachable by blast
qed

subsection \<open>What one answer of the model publishes\<close>

text \<open>A call whose task is there, on an orchestrator that keeps no objects.\<close>

definition ready :: "'g handoff_env \<Rightarrow> 'g handoff_world \<Rightarrow> props \<Rightarrow> bool" where
  "ready env w args \<longleftrightarrow> (\<exists>i a ins p. dict_get args ''task_id'' = Some (PStr i) \<and>
     dict_get args ''agent_id'' = Some (PStr a) \<and> dict_get args ''instructions'' = Some (PStr ins) \<and>
     fetch (te_exec (he_tools env)) (graph (tw_session (hw_tools w))) i = Some p \<and>
     \<not> get_truthy p ''archived_at'' \<and> listed_history p \<and> (\<exists>parent. parent_arg p = Inr parent))"

definition bare :: "'g handoff_env \<Rightarrow> bool" where
  "bare env \<longleftrightarrow> linking_service (te_exec (he_tools env)) \<and>
     require_caller_context (te_store (he_tools env)) (te_ctx (he_tools env)) = Inr () \<and>
     \<not> he_storage env \<and> he_catalog env = None \<and> he_broker env \<and> he_up env \<and> he_planner env"

text \<open>No record of a handoff takes the id of a task of the calls.\<close>

definition ids_apart :: "'g handoff_env \<Rightarrow> props list \<Rightarrow> bool" where
  "ids_apart env calls \<longleftrightarrow> (\<forall>args \<in> set calls. \<forall>n. task_arg args \<noteq> PStr (generate_id ''HND'' (te_uuid (he_tools env) n)))"

lemma call_publishes:
  assumes "bare env" "ready env w args" "ids_apart env [args]"
    and "find (\<lambda>e. fst e = task_arg args) (hw_calls w) = Some e"
  shows "\<exists>ans w' job. execute_delegation env as_list now u args w = (Delegated ans, w') \<and>
    hw_pool w' = (hw_pool w)\<lparr>agent_jobs := agent_jobs (hw_pool w) @ [JobMessage job]\<rparr> \<and>
    task_arg args = PStr (job_task_id job) \<and> job_batch_id job = snd e \<and> hw_calls w' = hw_calls w \<and>
    (\<forall>args'. ready env w args' \<and> ids_apart env [args'] \<and> task_arg args' \<noteq> task_arg args \<longrightarrow> ready env w' args')"
proof -
  let ?t = "he_tools env"
  obtain i a ins p parent where c: "dict_get args ''task_id'' = Some (PStr i)" "dict_get args ''agent_id'' = Some (PStr a)"
    "dict_get args ''instructions'' = Some (PStr ins)"
    "fetch (te_exec ?t) (graph (tw_session (hw_tools w))) i = Some p" "\<not> get_truthy p ''archived_at''"
    "listed_history p" "parent_arg p = Inr parent"
    using assms(2) by (auto simp: ready_def)
  have e: "linking_service (te_exec ?t)" "require_caller_context (te_store ?t) (te_ctx ?t) = Inr ()"
    "\<not> he_storage env" "he_catalog env = None" "he_broker env" "he_up env"
    using assms(1) by (simp_all add: bare_def)
  have cy: "cypher_service (te_exec ?t)" using e(1) by (simp add: linking_service_def creating_service_def)
  have task: "task_arg args = PStr i" by (simp add: task_arg_def dict_get_default_def c(1))
  then have apart: "handoff_id ?t (hw_tools w) \<noteq> i" using assms(3) by (auto simp: ids_apart_def handoff_id_def)
  obtain upd where upd: "handoff_updates (te_str ?t) now a ins p = Inr upd"
    using c(6) by (auto simp: handoff_updates_def listed_history_def list_items_def dict_get_default_def bindE_def
      split: option.splits pval.splits)
  have "p \<noteq> []" using cypher_service.fetch_id [OF cy c(4)] by (auto simp: dict_get_Nil)
  moreover have "get_node (te_exec ?t) (te_store ?t) i False (te_ctx ?t) (tw_session (hw_tools w)) =
      (Inr (Some p), tw_session (hw_tools w))"
    using c(4,5) e(2) by (simp add: cypher_service.get_node_eq [OF cy] visible_def)
  ultimately have call: "tool_delegate_to_agent env as_list now u args w = hand_over env as_list now u i a ins ''user'' p w"
    using e(3,4)
    by (simp add: tool_delegate_to_agent_def Let_def bindS_unfold c(1-3) text_arg_def dict_get_default_def on_tools_def
        on_store_def load_agent_config_def target_allowed_def agent_source_def agent_exists_def)
  obtain r w' where run: "hand_over env as_list now u i a ins ''user'' p w = (r, w')" by fastforce
  note h = hand_over_run [OF e(1,2) c(4) upd apart run]
  obtain ans b where b: "r = Inr (Delegated ans)"
    "hw_pool w' = (hw_pool w)\<lparr>agent_jobs := agent_jobs (hw_pool w) @
       [JobMessage (delegated_job env now u i a ins ''user'' parent b)]\<rparr>" "b = snd e"
    using h(4) [OF e(3,5,6) c(7)] assms(4) unfolding task by blast
  have keep: "ready env w' args'" if "ready env w args'" "ids_apart env [args']" "task_arg args' \<noteq> task_arg args" for args'
  proof -
    from that(1) obtain i' a' ins' p' where r': "dict_get args' ''task_id'' = Some (PStr i')"
      "dict_get args' ''agent_id'' = Some (PStr a')" "dict_get args' ''instructions'' = Some (PStr ins')"
      "fetch (te_exec ?t) (graph (tw_session (hw_tools w))) i' = Some p'" "\<not> get_truthy p' ''archived_at''"
      "listed_history p'" "\<exists>parent. parent_arg p' = Inr parent"
      by (auto simp: ready_def)
    then have "i' \<noteq> i" "i' \<noteq> handoff_id ?t (hw_tools w)"
      using that(2,3) task by (auto simp: task_arg_def dict_get_default_def ids_apart_def handoff_id_def)
    with h(2) r' show ?thesis unfolding ready_def by metis
  qed
  show ?thesis
    using call run b h(3) keep task
    by (intro exI [of _ ans] exI [of _ w'] exI [of _ "delegated_job env now u i a ins ''user'' parent b"])
      (auto simp: execute_delegation_def delegated_job_def)
qed

lemma calls_publish:
  assumes "bare env" "\<forall>args \<in> set calls. ready env w args" "ids_apart env calls" "distinct (map task_arg calls)"
    and "\<forall>args \<in> set calls. \<exists>e. find (\<lambda>e. fst e = task_arg args) (hw_calls w) = Some e \<and> snd e = batch args"
  shows "\<exists>answers w' jobs. execute_calls env as_list now u calls w = (answers, w') \<and>
    hw_pool w' = (hw_pool w)\<lparr>agent_jobs := agent_jobs (hw_pool w) @ map JobMessage jobs\<rparr> \<and>
    map (\<lambda>job. PStr (job_task_id job)) jobs = map task_arg calls \<and> map job_batch_id jobs = map batch calls \<and>
    (\<forall>ans \<in> set answers. \<exists>d. ans = Delegated d)"
  using assms
proof (induction calls arbitrary: w)
  case Nil
  then show ?case by simp
next
  case (Cons args calls)
  from Cons.prems(5) obtain e where e: "find (\<lambda>e. fst e = task_arg args) (hw_calls w) = Some e" "snd e = batch args"
    by auto
  have apart: "ids_apart env [args']" if "args' \<in> set (args # calls)" for args'
    using Cons.prems(3) that by (auto simp: ids_apart_def)
  from call_publishes [OF Cons.prems(1) _ _ e(1), of as_list now u] Cons.prems(2) apart [of args]
  obtain ans w1 job where one: "execute_delegation env as_list now u args w = (Delegated ans, w1)"
    "hw_pool w1 = (hw_pool w)\<lparr>agent_jobs := agent_jobs (hw_pool w) @ [JobMessage job]\<rparr>"
    "task_arg args = PStr (job_task_id job)" "job_batch_id job = snd e" "hw_calls w1 = hw_calls w"
    "\<And>args'. ready env w args' \<Longrightarrow> ids_apart env [args'] \<Longrightarrow> task_arg args' \<noteq> task_arg args \<Longrightarrow> ready env w1 args'"
    by auto
  have "\<forall>args' \<in> set calls. ready env w1 args'"
    using one(6) Cons.prems(2,4) apart by (auto simp: image_iff)
  moreover have "ids_apart env calls" using Cons.prems(3) by (simp add: ids_apart_def)
  moreover have "distinct (map task_arg calls)" using Cons.prems(4) by simp
  moreover have "\<forall>args \<in> set calls. \<exists>e. find (\<lambda>e. fst e = task_arg args) (hw_calls w1) = Some e \<and> snd e = batch args"
    using Cons.prems(5) one(5) by simp
  ultimately obtain answers w' jobs where rest: "execute_calls env as_list now u calls w1 = (answers, w')"
    "hw_pool w' = (hw_pool w1)\<lparr>agent_jobs := agent_jobs (hw_pool w1) @ map JobMessage jobs\<rparr>"
    "map (\<lambda>job. PStr (job_task_id job)) jobs = map task_arg calls" "map job_batch_id jobs = map batch calls"
    "\<forall>ans \<in> set answers. \<exists>d. ans = Delegated d"
    using Cons.IH [OF Cons.prems(1), of w1] by blast
  show ?case
    by (intro exI [of _ "Delegated ans # answers"] exI [of _ w'] exI [of _ "job # jobs"])
      (use one rest e(2) in simp)
qed

lemma find_planned:
  assumes "distinct (map task_arg calls)" "args \<in> set calls"
  shows "\<exists>e. find (\<lambda>e. fst e = task_arg args) (planned_calls s bs calls) = Some e \<and>
    snd e = (case task_arg args of PStr i \<Rightarrow> dict_get_default bs i (tier_batch_id s 0) | _ \<Rightarrow> tier_batch_id s 0)"
  using assms by (induction calls) (auto simp: planned_calls_def image_iff)

lemma all_start:
  assumes "accounted q" "running q" "consumer q" "waiting_job q = None" "started q = []"
    and "agent_jobs q = map JobMessage jobs" "length jobs \<le> permits q"
  shows "\<exists>acts s. pool_run q acts s \<and> finished acts = {#} \<and> (\<forall>a \<in> set acts. own_step a) \<and>
    map (runner_job \<circ> snd) (active_runners s) = map (runner_job \<circ> snd) (active_runners q) @ jobs"
  using assms
proof (induction jobs arbitrary: q)
  case Nil
  then show ?case by (intro exI [of _ "[]"] exI [of _ q]) (simp add: run_Nil)
next
  case (Cons job jobs)
  define q1 where "q1 = consume (JobMessage job) (map JobMessage jobs) q"
  define q2 where "q2 = acquire job q1"
  define q3 where "q3 = begin_run job [] q2"
  have p1: "perform Consume q = Some q1" using Cons.prems by (simp add: q1_def)
  have p2: "perform Acquire q1 = Some q2" using Cons.prems by (auto simp: q1_def q2_def consume_def)
  have s2: "started q2 = [job]" using Cons.prems by (simp add: q2_def q1_def acquire_def consume_def)
  then have p3: "perform (Begin job) q2 = Some q3" by (simp add: q3_def)
  have acc: "accounted q2" "accounted q3"
    using accounted_step [OF p1] accounted_step [OF p2] accounted_step [OF p3] Cons.prems(1) by blast+
  have "active_runners q3 = active_runners q @ [(runner_id (runner_counter q), \<lparr>runner_job = job, runner_state = RUNNING\<rparr>)]"
    using fresh_runner_id [OF Cons.prems(1)] Cons.prems(2)
    by (simp add: q3_def q2_def q1_def begin_run_def acquire_def consume_def dict_set_new)
  then have act: "map (runner_job \<circ> snd) (active_runners q3) = map (runner_job \<circ> snd) (active_runners q) @ [job]"
    by simp
  have f: "running q3" "consumer q3" "waiting_job q3 = None" "started q3 = []"
    "agent_jobs q3 = map JobMessage jobs" "length jobs \<le> permits q3"
    using Cons.prems by (simp_all add: q3_def q2_def q1_def begin_run_def acquire_def consume_def)
  obtain acts s where
    rest: "pool_run q3 acts s" "finished acts = {#}" "\<forall>a \<in> set acts. own_step a"
      "map (runner_job \<circ> snd) (active_runners s) = map (runner_job \<circ> snd) (active_runners q3) @ jobs"
    using Cons.IH [OF acc(2) f] by blast
  have "pool_run q ([Consume, Acquire, Begin job] @ acts) s"
    using rest(1) p1 p2 p3 by (simp add: pool_run_iff del: perform.simps)
  moreover have "finished ([Consume, Acquire, Begin job] @ acts) = {#}"
    using rest(2) by (simp add: finished_def map_filter_simps)
  ultimately show ?case using rest(3,4) act
    by (intro exI [of _ "[Consume, Acquire, Begin job] @ acts"] exI [of _ s]) (simp add: o_def)
qed

text \<open>
  Claim C40: the tiers of a plan are not kept. When the delegations of one answer are planned and
  carried out, every job of every tier is published at once, next to the plan that would publish
  the later tiers in turn; a pool with a slot for each starts them all before any has ended, a job
  together with the jobs it depends on.
\<close>

theorem turn_publishes_every_tier:
  assumes "bare env" "ids_apart env calls" "distinct (map task_arg calls)" "calls \<noteq> []"
    and "\<forall>args \<in> set calls. ready env w args"
    and "job_stubs now session u calls = Inr jobs" "plan as_list qe jobs session = Inr tiers"
    and "quiet (hw_pool w)" "length calls \<le> max_size (hw_pool w)"
    and "delegation_turn env as_list qe now u session calls w = (r, w')"
  shows "(\<exists>answers. r = Inr answers \<and> (\<forall>ans \<in> set answers. \<exists>d. ans = Delegated d)) \<and>
    batch_states (hw_pool w') = register_dispatch_plan tiers session (batch_states (hw_pool w)) \<and>
    (\<exists>acts s. pool_run (hw_pool w') acts s \<and> finished acts = {#} \<and>
      map (\<lambda>(rid, r). PStr (job_task_id (runner_job r))) (active_runners s) = map task_arg calls)"
proof -
  define w1 where "w1 = w\<lparr>hw_calls := planned_calls session (batch_lookup tiers) calls,
     hw_pool := (hw_pool w)\<lparr>batch_states := register_dispatch_plan tiers session (batch_states (hw_pool w))\<rparr>\<rparr>"
  have "pre_plan_delegation_turn env as_list qe now u session calls (w\<lparr>hw_calls := []\<rparr>) = (Inr (), w1)"
    using assms(1,4,6,7)
    by (simp add: pre_plan_delegation_turn_def bare_def bindS_unfold planner_raises_def w1_def)
  then have run: "delegation_turn env as_list qe now u session calls w =
      (case execute_calls env as_list now u calls w1 of (answers, w'') \<Rightarrow> (Inr answers, w''\<lparr>hw_calls := []\<rparr>))"
    by (simp add: delegation_turn_def)
  have rd: "\<forall>args \<in> set calls. ready env w1 args" using assms(5) by (simp add: ready_def w1_def)
  have fd: "\<forall>args \<in> set calls. \<exists>e. find (\<lambda>e. fst e = task_arg args) (hw_calls w1) = Some e \<and>
      snd e = (case task_arg args of PStr i \<Rightarrow> dict_get_default (batch_lookup tiers) i (tier_batch_id session 0)
        | _ \<Rightarrow> tier_batch_id session 0)"
    using find_planned [OF assms(3)] by (simp add: w1_def)
  obtain answers w2 js where ex: "execute_calls env as_list now u calls w1 = (answers, w2)"
    "hw_pool w2 = (hw_pool w1)\<lparr>agent_jobs := agent_jobs (hw_pool w1) @ map JobMessage js\<rparr>"
    "map (\<lambda>job. PStr (job_task_id job)) js = map task_arg calls" "\<forall>ans \<in> set answers. \<exists>d. ans = Delegated d"
    using calls_publish [OF assms(1) rd assms(2,3) fd, of as_list now u] by blast
  have w': "r = Inr answers" "hw_pool w' = (hw_pool w)\<lparr>agent_jobs := map JobMessage js,
      batch_states := register_dispatch_plan tiers session (batch_states (hw_pool w))\<rparr>"
    using assms(8,10) run ex(1,2) by (auto simp: w1_def quiet_def)
  have q: "accounted (hw_pool w)" "running (hw_pool w)" "consumer (hw_pool w)" "waiting_job (hw_pool w) = None"
    "started (hw_pool w) = []" "active_runners (hw_pool w) = []"
    using assms(8) by (auto simp: quiet_def in_flight_def split: option.splits)
  then have "permits (hw_pool w) = max_size (hw_pool w)" by (simp add: accounted_def)
  moreover have "length js = length calls" using ex(3) by (metis length_map)
  ultimately have "length js \<le> permits (hw_pool w')" using assms(9) w'(2) by simp
  moreover have "accounted (hw_pool w')" using q(1) by (simp add: w'(2) accounted_def)
  ultimately obtain acts s where "pool_run (hw_pool w') acts s" "finished acts = {#}"
    "map (runner_job \<circ> snd) (active_runners s) = map (runner_job \<circ> snd) (active_runners (hw_pool w')) @ js"
    using all_start [of "hw_pool w'" js] q by (auto simp: w'(2))
  moreover have "map (\<lambda>(rid, r). PStr (job_task_id (runner_job r))) (active_runners s) =
      map (\<lambda>job. PStr (job_task_id job)) (map (runner_job \<circ> snd) (active_runners s))" by (simp add: split_def)
  ultimately show ?thesis using w' ex(3,4) q(6) by auto
qed

subsection \<open>Examples\<close>

definition duty_env :: "mem_graph handoff_env" where
  "duty_env = \<lparr>he_tools = chat_env, he_agent_id = ''main'', he_storage = False, he_catalog = None,
     he_broker = True, he_up = True, he_planner = True, he_session = Some ''s1''\<rparr>"

definition duty_world :: "mem_graph session \<Rightarrow> (pval \<times> string) list \<Rightarrow> mem_graph handoff_world" where
  "duty_world s calls = \<lparr>hw_tools = chat_world\<lparr>tw_session := s\<rparr>, hw_bucket = (\<lambda>_. None),
     hw_pool = sample_pool, hw_calls = calls\<rparr>"

definition delegation_args :: "string \<Rightarrow> props" where
  "delegation_args i = [(''task_id'', PStr i), (''agent_id'', PStr ''scribe''), (''instructions'', PStr ''do it'')]"

definition pair_session :: "mem_graph session" where
  "pair_session = plain_session\<lparr>graph := \<lparr>vertices = [(''TaskAtomic'', [(''id'', PStr ''A'')]),
     (''TaskAtomic'', [(''id'', PStr ''C'')])], relations = [], next_rel = 0\<rparr>\<rparr>"

lemma duty_bare: "bare duty_env"
  by (simp add: bare_def duty_env_def chat_env_def agent_cfg_open mem_link.linking_service_axioms)

lemma duty_fields:
  "te_exec (he_tools duty_env) = mem_exec" "te_loads (he_tools duty_env) = (\<lambda>_. None)"
  "te_uuid (he_tools duty_env) n = ''u''"
  "require_caller_context (te_store (he_tools duty_env)) (te_ctx (he_tools duty_env)) = Inr ()"
  "tw_session (hw_tools (duty_world s calls)) = s"
  by (simp_all add: duty_env_def chat_env_def agent_cfg_open duty_world_def)

lemma delegation_args_get:
  "dict_get (delegation_args i) ''task_id'' = Some (PStr i)"
  "dict_get (delegation_args i) ''agent_id'' = Some (PStr ''scribe'')"
  "dict_get (delegation_args i) ''instructions'' = Some (PStr ''do it'')"
  "task_arg (delegation_args i) = PStr i"
  by (simp_all add: delegation_args_def dict_simps task_arg_def dict_get_default_def)

lemma duty_apart: "take 3 i \<noteq> ''HND'' \<Longrightarrow> ids_apart duty_env [delegation_args i]"
  by (auto simp: ids_apart_def delegation_args_get duty_fields generate_id_def)

lemma plain_ready: "ready duty_env (duty_world plain_session calls) (delegation_args ''TSK-AB-1234-ATM'')"
  by (auto simp: ready_def delegation_args_get duty_fields plain_fetch get_truthy_def plain_row_def dict_simps
      listed_history_def parent_arg_def)

theorem handoff_effect_witness:
  "\<exists>ans w' p' t'. tool_delegate_to_agent duty_env (\<lambda>_. []) (utc_dt 9) ''USER-a'' (delegation_args ''TSK-AB-1234-ATM'')
      (duty_world plain_session [(PStr ''TSK-AB-1234-ATM'', ''b'')]) = (Inr (Delegated ans), w') \<and>
    fetch mem_exec (graph (tw_session (hw_tools w'))) ''TSK-AB-1234-ATM'' = Some p' \<and>
    load_task (\<lambda>_. None) p' = Some t' \<and> state t' = TaskState.IN_PROGRESS \<and> \<not> reachable t'"
proof -
  let ?w = "duty_world plain_session [(PStr ''TSK-AB-1234-ATM'', ''b'')]"
  let ?i = "''TSK-AB-1234-ATM''"
  have "find (\<lambda>e. fst e = task_arg (delegation_args ?i)) (hw_calls ?w) = Some (PStr ?i, ''b'')"
    by (simp add: duty_world_def delegation_args_get)
  from call_publishes [OF duty_bare plain_ready duty_apart this, of "\<lambda>_. []" "utc_dt 9" "''USER-a''"]
  obtain ans w' where "execute_delegation duty_env (\<lambda>_. []) (utc_dt 9) ''USER-a'' (delegation_args ?i) ?w = (Delegated ans, w')"
    by auto
  then have run: "tool_delegate_to_agent duty_env (\<lambda>_. []) (utc_dt 9) ''USER-a'' (delegation_args ?i) ?w = (Inr (Delegated ans), w')"
    by (auto simp: execute_delegation_def split: prod.splits sum.splits)
  have "case load_task (\<lambda>_. None) (plain_row ''USER-a'') of None \<Rightarrow> False | Some t \<Rightarrow> state t = TaskState.PENDING"
    by code_simp
  then obtain t where t: "load_task (\<lambda>_. None) (plain_row ''USER-a'') = Some t" "state t = TaskState.PENDING"
    by (auto split: option.splits)
  have l: "linking_service (te_exec (he_tools duty_env))" using duty_bare by (simp add: bare_def)
  have f: "fetch (te_exec (he_tools duty_env)) (graph (tw_session (hw_tools ?w))) ?i = Some (plain_row ''USER-a'')"
    by (simp add: duty_fields plain_fetch)
  have h: "listed_history (plain_row ''USER-a'')" by (simp add: listed_history_def plain_row_def dict_simps)
  have t': "load_task (te_loads (he_tools duty_env)) (plain_row ''USER-a'') = Some t" using t(1) by (simp add: duty_fields)
  have a: "handoff_id (he_tools duty_env) (hw_tools ?w) \<noteq> ?i"
    by (simp add: handoff_id_def duty_fields generate_id_def)
  from handoff_effect [OF l duty_fields(4) delegation_args_get(1-3) f h t' a run] run t(2) show ?thesis
    by (auto simp: duty_fields handed_task_def)
qed

lemma pair_fetch: "fetch mem_exec (graph pair_session) i =
    (if i = ''A'' \<or> i = ''C'' then Some [(''id'', PStr i)] else None)"
  by (simp add: fetch_def pair_session_def node_rows_def has_id_def dict_simps)

lemma pair_ready: "i = ''A'' \<or> i = ''C'' \<Longrightarrow> ready duty_env (duty_world pair_session calls) (delegation_args i)"
  by (auto simp: ready_def delegation_args_get duty_fields pair_fetch get_truthy_def dict_simps
      listed_history_def parent_arg_def)

definition pair_calls :: "props list" where
  "pair_calls = [delegation_args ''A'', delegation_args ''C'']"

lemma pair_plan:
  "case job_stubs (utc_dt 9) ''s1'' ''USER-a'' pair_calls of Inl e \<Rightarrow> False
   | Inr jobs \<Rightarrow> (case plan sorted_list_of_set sample_qe jobs ''s1'' of Inl e \<Rightarrow> False
     | Inr tiers \<Rightarrow> map (map job_task_id) tiers = [[''C''], [''A'']])"
  by code_simp

theorem turn_publishes_every_tier_witness:
  "\<exists>answers w' acts s. delegation_turn duty_env sorted_list_of_set sample_qe (utc_dt 9) ''USER-a'' ''s1''
       pair_calls (duty_world pair_session []) = (Inr answers, w') \<and>
     pool_run (hw_pool w') acts s \<and> finished acts = {#} \<and>
     map (\<lambda>(rid, r). PStr (job_task_id (runner_job r))) (active_runners s) = [PStr ''A'', PStr ''C'']"
proof -
  let ?w = "duty_world pair_session []"
  obtain jobs tiers where plan: "job_stubs (utc_dt 9) ''s1'' ''USER-a'' pair_calls = Inr jobs"
    "plan sorted_list_of_set sample_qe jobs ''s1'' = Inr tiers"
    using pair_plan by (auto split: sum.splits)
  obtain r w' where run: "delegation_turn duty_env sorted_list_of_set sample_qe (utc_dt 9) ''USER-a'' ''s1''
      pair_calls ?w = (r, w')" by fastforce
  have pool: "hw_pool ?w = sample_pool" by (simp add: duty_world_def)
  have "ids_apart duty_env pair_calls"
    by (auto simp: ids_apart_def pair_calls_def delegation_args_get duty_fields generate_id_def)
  moreover have "distinct (map task_arg pair_calls)" "pair_calls \<noteq> []"
    by (simp_all add: pair_calls_def delegation_args_get)
  moreover have "\<forall>args \<in> set pair_calls. ready duty_env ?w args"
    using pair_ready by (simp add: pair_calls_def)
  moreover have "quiet (hw_pool ?w)" "length pair_calls \<le> max_size (hw_pool ?w)"
    unfolding pool by (simp add: sample_pool_def quiet_start)
      (simp add: sample_pool_def pool_start_def new_pool_def pair_calls_def)
  ultimately have "(\<exists>answers. r = Inr answers) \<and> (\<exists>acts s. pool_run (hw_pool w') acts s \<and> finished acts = {#} \<and>
      map (\<lambda>(rid, r). PStr (job_task_id (runner_job r))) (active_runners s) = map task_arg pair_calls)"
    using turn_publishes_every_tier [OF duty_bare _ _ _ _ plan _ _ run] by blast
  moreover have "map task_arg pair_calls = [PStr ''A'', PStr ''C'']" by (simp add: pair_calls_def delegation_args_get)
  ultimately show ?thesis using run by auto
qed

end
