(* ===== verification/Spec2Isabelle.thy ===== *)
theory Spec2Isabelle
  imports GC_Ids GC_Lifecycle GC_CascadeLaws GC_Redirects GC_Weights GC_EngineLaws GC_Trigger GC_Purge
    GC_Dispatch GC_Approvals GC_Delegation GC_AgentKeys GC_Audit GC_RateLimit GC_Membership GC_Migrations
    GC_Paths GC_Escalation GC_Outbound GC_Cycle GC_Plans GC_Archive GC_Updates
    GC_Pool GC_Handoff
begin

section \<open>GraphClaw: a verification library\<close>

text \<open>
  GraphClaw (\<open>src/src/graphclaw\<close>) keeps a user's work as a graph of tasks in a PostgreSQL/AGE
  database, moves the tasks through a state machine, scores them, and lets agents act on the
  best ones under the user's approval. This library models the parts that decide: pure Python
  functions become HOL functions, methods that change state become state-passing functions that
  may raise (\<open>io\<close> in \<open>GC_Prelude\<close>: what was changed before an exception stays changed), and what
  the program only talks to (the database, Redis, the clock, random ids, \<open>json.loads\<close> of foreign
  text) is an argument of the definitions.

  The parts, in the order of the theories.

  \<^item> \<open>GC_Prelude\<close>: dictionaries as insertion-ordered lists, exceptions, loops that may raise,
    timestamps, string enums (locale \<open>str_enum\<close>), the key-value interface (locale \<open>kv_store\<close>).
  \<^item> \<open>GC_Enums\<close>, \<open>GC_Models\<close>, \<open>GC_Ids\<close>: \<open>models/enums.py\<close>, \<open>models/nodes.py\<close>,
    \<open>models/type_metadata.py\<close>, \<open>models/base.py\<close>; identifiers, their patterns and generators.
  \<^item> \<open>GC_StateMachine\<close>, \<open>GC_Lifecycle\<close>: \<open>state/machine.py\<close> and \<open>state/transitions.py\<close>. The second
    theory has the step relation, the reachable tasks, and the invariants by rule induction: the
    audit trail, human approval, write-once start, absorbing cancellation.
  \<^item> \<open>GC_Values\<close>, \<open>GC_Serial\<close>: property values, Cypher literals and escaping (\<open>db/age/utils.py\<close>),
    the dump and validation of a task and the decoding of rows (\<open>models/deserialization.py\<close>),
    with the round trip of a task and the values that break it.
  \<^item> \<open>GC_Store\<close>, \<open>GC_StoreLaws\<close>, \<open>GC_Redirects\<close>: \<open>AgeGraphStore\<close> (\<open>db/age/repository.py\<close>), the
    caller context (\<open>cross_tenant/acl.py\<close>), tombstone redirects (\<open>db/age/redirects.py\<close>). The
    database is the argument \<open>exec\<close>; its laws are the locale \<open>cypher_service\<close>, \<open>mem_exec\<close> is a
    database in memory that satisfies them.
  \<^item> \<open>GC_Cascade\<close>, \<open>GC_CascadeLaws\<close>: \<open>state/cascade.py\<close>, what completing a task does to its parent
    and to the tasks that wait for it.
  \<^item> \<open>GC_Weights\<close>, \<open>GC_Factors\<close>, \<open>GC_ScoreCache\<close>, \<open>GC_Topology\<close>, \<open>GC_Engine\<close>, \<open>GC_EngineLaws\<close>:
    \<open>models/scoring_weights.py\<close> and \<open>scoring/\<close>: learned weights, the seven factors, the cache,
    chain suppression, \<open>score_task\<close>, \<open>score_all\<close> and the action queue.
  \<^item> \<open>GC_Scheduler\<close>, \<open>GC_Trigger\<close>: \<open>triggers/\<close>: the registry of cron triggers, the dispatch with
    idempotency keys, the passes of the loops, the follow-up intervals.
  \<^item> \<open>GC_Purge\<close>: \<open>workers/purge_worker.py\<close>, one purge cycle with its lock, heartbeat and audit.
  \<^item> \<open>GC_Dispatch\<close>: \<open>agent/dispatch_planner.py\<close>, the tiers in which delegated jobs start.
  \<^item> \<open>GC_Approvals\<close>: \<open>mcp/approval.py\<close> and \<open>call_tool\<close> of \<open>mcp/client.py\<close>: the trust tiers, the
    approval task and the polling loop, during whose sleeps the rest of the program runs as an
    arbitrary function (locale \<open>creating_service\<close>: what a creation leaves in the database).
  \<^item> \<open>GC_Delegation\<close>: \<open>agent/delegation.py\<close>, handing a task to another user with a grant and an
    approval task (locale \<open>linking_service\<close>: edges do not change nodes).
  \<^item> \<open>GC_AgentKeys\<close>: \<open>a2a/key_manager.py\<close>, \<open>a2a/middleware.py\<close>, the keys of agents outside (locale
    \<open>labelled_service\<close>: what a query by label sees after an update).
  \<^item> \<open>GC_Text\<close>, \<open>GC_Audit\<close>: Python's \<open>splitlines\<close> and \<open>strip\<close>; \<open>audit/immutable_log.py\<close>, day files of
    hash-chained entries.
  \<^item> \<open>GC_RateLimit\<close>: \<open>gateway/rate_limiter.py\<close>, the sliding window over Redis sorted sets (locale
    \<open>sorted_sets\<close>, with a model in memory) and the choice of the bucket of a request.
  \<^item> \<open>GC_Membership\<close>: \<open>cascade/membership.py\<close>, \<open>cascade/detachment.py\<close>, \<open>identity/directory.py\<close> and
    the event dispatch of \<open>identity/directory_indexer.py\<close>.
  \<^item> \<open>GC_Migrations\<close>: \<open>migrations/runner.py\<close>, forward-only migrations and their tracking table.
  \<^item> \<open>GC_Paths\<close>: \<open>infra/storage.py\<close>, the builders of \<open>StoragePaths\<close> one by one, and the client that
    writes below the prefix of one user.
  \<^item> \<open>GC_Escalation\<close>: \<open>agent/escalation.py\<close>, the check of overdue approvals over the store and
    the delegation service, and the queue of decisions with its cache and its table.
  \<^item> \<open>GC_Redis\<close>, \<open>GC_Policy\<close>: the key-value part of Redis (locale \<open>expiring_keys\<close>, with a model in
    memory) and \<open>agent/policies/\<close>: the policies of a user, their rows and cached copies, the evaluation of
    a transition, of an outbound message and of a tool call, and \<open>api/policies.py\<close>.
  \<^item> \<open>GC_Inbound\<close>: \<open>inbound/\<close>: the keys a reply is recognised by, the registry that writes them to
    Redis and to the table, and the router that decides what an incoming message belongs to.
  \<^item> \<open>GC_Outbound\<close>: \<open>agent/outbound.py\<close>: the dispatcher over the channels and the agent that passes each
    message through the policy before it leaves.
  \<^item> \<open>GC_Cycle\<close>: \<open>agent/main_orchestrator.py\<close>, the scoring cycle: fetching the active tasks,
    building the context from the graph, the weights of the user, cached queues and their
    invalidation, the session log.
  \<^item> \<open>GC_Creation\<close>, \<open>GC_Plans\<close>: the tools of the same file that make goals and tasks, the follow-up
    of a delegated task, and the plans: proposed, edited, approved and executed, kept in a cache
    of dicts changed in place (a heap of addresses) with copies in the bucket.
  \<^item> \<open>GC_Archive\<close>: \<open>agent/tools/archive.py\<close> with its tools and the tombstones, joined with the resolver
    of \<open>GC_Redirects\<close>.
  \<^item> \<open>GC_Updates\<close>: the tools of the orchestrator that change the state of a task and the fields of tasks
    and goals.
  \<^item> \<open>GC_Pool\<close>: \<open>agent/sub_agent_pool.py\<close>, the bounded pool of runners and the coordinator of the
    tiers, as steps that interleave freely: the bound, the order of the tiers, and that every plan
    comes to its end.
  \<^item> \<open>GC_Handoff\<close>: the tool \<open>delegate_to_agent\<close> and the planning of the delegations of one answer, joined
    with the planner, the store and the pool.

  How they meet: the state machine changes a \<open>TaskNode\<close>; the cascade loads tasks from the store
  with \<open>load_task\<close>, runs \<open>transition\<close> on them and writes \<open>task_dump\<close> back with \<open>update_node\<close>; the
  scoring engine reads edges and nodes from the same store and writes scores only; the dispatch
  planner reads dependency edges.

  Bounds and fuel. Loops that end by a decreasing measure are total functions
  (\<open>termination\<close> in \<open>GC_Dispatch\<close>). The cascade and the redirect walk take fuel, with theorems that
  a bound the code implies is enough (one more than the number of open tasks; the hop limit). The
  polling loop of an approval takes one more than its timeout in seconds, enough for any poll
  interval of at least a second.
  Floats are exact rationals, so rounding is not modelled; datetimes are integers of microseconds.

  Not modelled: logging; asyncio task management; the HTTP, CLI, connector and language model
  layers, which hold no state of their own that the kernel could speak about; embeddings; SQL
  behind the cross-tenant index and the identity directory. The manifest lists every part with
  the reason.
\<close>

end
